(* ===== verification/Onebox_Prelude.thy ===== *)
theory Onebox_Prelude
  imports Main "HOL-Library.Char_ord" "HOL-Library.Product_Lexorder"
begin

text \<open>
  Shared vocabulary of the OneBox development: text, time, identifiers and JSON values as the
  Python code has them, keyed tables (lists of rows with a key column) for the PostgreSQL tables,
  generic reachability for step relations, and the collections of simplification rules that the
  component theories extend.

  Conventions used everywhere:
  \<^item> text is a list of code points in the Latin-1 range (one \<open>char\<close> per code point);
  \<^item> a point in time is an integer number of microseconds, the resolution of Python's
    \<open>datetime\<close>; an operation that reads the clock several times takes a \<open>clock\<close>,
    whose \<open>n\<close>-th value is the \<open>n\<close>-th reading;
  \<^item> a UUID is the 128-bit number it denotes, which is also how PostgreSQL orders UUIDs;
  \<^item> a raised exception is the left summand of a sum type.
\<close>

section \<open>Basic types\<close>

type_synonym str = string
type_synonym time = int
type_synonym clock = "nat \<Rightarrow> time"
type_synonym uuid = nat

text \<open>A decoded JSON value; an object is an association list in insertion order.\<close>

datatype json =
    JNull
  | JBool bool
  | JInt int
  | JStr str
  | JArr "json list"
  | JObj "(str \<times> json) list"

definition seconds :: "int \<Rightarrow> time" where
  "seconds n = n * 1000000"

definition minutes :: "int \<Rightarrow> time" where
  "minutes n = seconds (60 * n)"

definition days :: "int \<Rightarrow> time" where
  "days n = seconds (86400 * n)"

section \<open>Python text functions on the Latin-1 range\<close>

definition is_space :: "char \<Rightarrow> bool" where
  "is_space c = (let n = (of_char c :: nat) in
     9 \<le> n \<and> n \<le> 13 \<or> 28 \<le> n \<and> n \<le> 32 \<or> n = 133 \<or> n = 160)"

definition is_digit :: "char \<Rightarrow> bool" where
  "is_digit c = (let n = (of_char c :: nat) in 48 \<le> n \<and> n \<le> 57)"

definition is_alnum_id :: "char \<Rightarrow> bool" where
  "is_alnum_id c = (let n = (of_char c :: nat) in
     48 \<le> n \<and> n \<le> 57 \<or> 65 \<le> n \<and> n \<le> 90 \<or> 97 \<le> n \<and> n \<le> 122 \<or> n = 45 \<or> n = 95)"

definition lstrip :: "str \<Rightarrow> str" where
  "lstrip s = dropWhile is_space s"

definition strip :: "str \<Rightarrow> str" where
  "strip s = rev (lstrip (rev (lstrip s)))"

definition is_ascii :: "str \<Rightarrow> bool" where
  "is_ascii s = list_all (\<lambda>c. (of_char c :: nat) < 128) s"

definition is_decimal :: "str \<Rightarrow> bool" where
  "is_decimal s = (s \<noteq> [] \<and> list_all is_digit s)"

definition int_of_decimal :: "str \<Rightarrow> nat" where
  "int_of_decimal s = foldl (\<lambda>n c. 10 * n + (of_char c - 48)) 0 s"

definition lower_char :: "char \<Rightarrow> char" where
  "lower_char c = (let n = (of_char c :: nat) in
     if 65 \<le> n \<and> n \<le> 90 \<or> 192 \<le> n \<and> n \<le> 222 \<and> n \<noteq> 215 then char_of (n + 32) else c)"

definition lower :: "str \<Rightarrow> str" where
  "lower s = map lower_char s"

text \<open>
  \<open>str.casefold\<close>: lower case, and the sharp s (code point 223) becomes two letters. The
  micro sign (181), whose fold lies outside Latin-1, is left alone.
\<close>

definition casefold :: "str \<Rightarrow> str" where
  "casefold s = concat (map (\<lambda>c. if (of_char c :: nat) = 223 then ''ss'' else [lower_char c]) s)"

fun starts_with :: "str \<Rightarrow> str \<Rightarrow> bool" where
  "starts_with [] s = True"
| "starts_with (p # ps) [] = False"
| "starts_with (p # ps) (c # cs) = (p = c \<and> starts_with ps cs)"

definition ends_with :: "str \<Rightarrow> str \<Rightarrow> bool" where
  "ends_with p s = starts_with (rev p) (rev s)"

fun contains :: "str \<Rightarrow> str \<Rightarrow> bool" where
  "contains p [] = (p = [])"
| "contains p (c # cs) = (starts_with p (c # cs) \<or> contains p cs)"

fun join :: "str \<Rightarrow> str list \<Rightarrow> str" where
  "join sep [] = []"
| "join sep [x] = x"
| "join sep (x # y # ys) = x @ sep @ join sep (y # ys)"

fun str_nat :: "nat \<Rightarrow> str" where
  "str_nat n = (if n < 10 then [char_of (48 + n)] else str_nat (n div 10) @ [char_of (48 + n mod 10)])"

declare str_nat.simps [simp del]

section \<open>Reading untyped JSON values\<close>

definition jget :: "str \<Rightarrow> json \<Rightarrow> json option" where
  "jget k j = (case j of JObj kvs \<Rightarrow> map_of kvs k | _ \<Rightarrow> None)"

definition is_jobj :: "json \<Rightarrow> bool" where
  "is_jobj j = (case j of JObj _ \<Rightarrow> True | _ \<Rightarrow> False)"

definition jstr :: "json option \<Rightarrow> str option" where
  "jstr j = (case j of Some (JStr s) \<Rightarrow> Some s | _ \<Rightarrow> None)"

text \<open>Python truth of a value that may be absent.\<close>

definition truthy :: "json option \<Rightarrow> bool" where
  "truthy j = (case j of None \<Rightarrow> False | Some JNull \<Rightarrow> False | Some (JBool b) \<Rightarrow> b
     | Some (JInt i) \<Rightarrow> i \<noteq> 0 | Some (JStr s) \<Rightarrow> s \<noteq> [] | Some (JArr xs) \<Rightarrow> xs \<noteq> []
     | Some (JObj kvs) \<Rightarrow> kvs \<noteq> [])"

section \<open>Tables: lists of rows with a key column\<close>

definition tbl_get :: "('r \<Rightarrow> 'k) \<Rightarrow> 'k \<Rightarrow> 'r list \<Rightarrow> 'r option" where
  "tbl_get key k rows = find (\<lambda>r. key r = k) rows"

definition tbl_put :: "('r \<Rightarrow> 'k) \<Rightarrow> 'r \<Rightarrow> 'r list \<Rightarrow> 'r list" where
  "tbl_put key r rows = map (\<lambda>q. if key q = key r then r else q) rows"

definition keys_distinct :: "('r \<Rightarrow> 'k) \<Rightarrow> 'r list \<Rightarrow> bool" where
  "keys_distinct key rows = distinct (map key rows)"

section \<open>Step relations\<close>

inductive reach :: "('s \<Rightarrow> bool) \<Rightarrow> ('s \<Rightarrow> 's \<Rightarrow> bool) \<Rightarrow> 's \<Rightarrow> bool"
  for init :: "'s \<Rightarrow> bool" and step :: "'s \<Rightarrow> 's \<Rightarrow> bool" where
  reach_init: "init s \<Longrightarrow> reach init step s"
| reach_step: "reach init step s \<Longrightarrow> step s t \<Longrightarrow> reach init step t"

section \<open>Lemma collections\<close>

named_theorems text_simps "evaluation of the text functions on literals"
named_theorems time_simps "unfolding of durations"
named_theorems tbl_simps "rows found after a table update"

lemmas [text_simps] = is_space_def is_digit_def is_alnum_id_def lstrip_def strip_def is_ascii_def
  is_decimal_def int_of_decimal_def lower_char_def lower_def casefold_def ends_with_def

lemmas [time_simps] = seconds_def minutes_def days_def

section \<open>Lemmas on durations and text\<close>

lemma seconds_mono [simp]: "seconds a \<le> seconds b \<longleftrightarrow> a \<le> b"
  by (simp add: seconds_def)

lemma seconds_less [simp]: "seconds a < seconds b \<longleftrightarrow> a < b"
  by (simp add: seconds_def)

lemma seconds_nonneg [simp]: "0 \<le> seconds a \<longleftrightarrow> 0 \<le> a"
  by (simp add: seconds_def)

lemma seconds_pos [simp]: "0 < seconds a \<longleftrightarrow> 0 < a"
  by (simp add: seconds_def)

lemma lstrip_idem [simp]: "lstrip (lstrip s) = lstrip s"
  by (simp add: lstrip_def)

lemma lstrip_suffix: "\<exists>p. s = p @ lstrip s"
  unfolding lstrip_def by (metis takeWhile_dropWhile_id)

lemma lstrip_fixed: "lstrip s = s \<longleftrightarrow> (case s of [] \<Rightarrow> True | c # _ \<Rightarrow> \<not> is_space c)"
proof (cases s)
  case (Cons c cs)
  have "length (dropWhile is_space cs) < length (c # cs)"
    by (simp add: le_imp_less_Suc length_dropWhile_le)
  then have "dropWhile is_space cs \<noteq> c # cs" by (metis less_irrefl)
  then show ?thesis using Cons by (simp add: lstrip_def)
qed (simp add: lstrip_def)

lemma lstrip_rev_lstrip: "lstrip (rev (lstrip (rev (lstrip s)))) = rev (lstrip (rev (lstrip s)))"
proof (cases "rev (lstrip (rev (lstrip s)))")
  case Nil
  then show ?thesis by (simp only: Nil) (simp add: lstrip_def)
next
  case (Cons c cs)
  obtain p where "rev (lstrip s) = p @ lstrip (rev (lstrip s))" using lstrip_suffix by blast
  then have "lstrip s = rev (lstrip (rev (lstrip s))) @ rev p" by (metis rev_append rev_rev_ident)
  then have hd: "lstrip s = c # cs @ rev p" using Cons by simp
  then have "\<not> is_space c" using lstrip_fixed [of "lstrip s"] lstrip_idem [of s] by simp
  then show ?thesis using Cons lstrip_fixed [of "c # cs"] by simp
qed

lemma strip_idem [simp]: "strip (strip s) = strip s"
  unfolding strip_def using lstrip_rev_lstrip [of s] by simp

lemma length_strip_le: "length (strip s) \<le> length s"
  unfolding strip_def lstrip_def
  by (metis length_dropWhile_le length_rev order_trans)

lemma set_strip_subset: "set (strip s) \<subseteq> set s"
  unfolding strip_def lstrip_def by (auto dest!: set_dropWhileD)

section \<open>Integers as marked unary text\<close>

text \<open>A coding of integers that the concrete library instances use for timestamps and ids.\<close>

fun unary :: "int \<Rightarrow> str" where
  "unary i = (if i < 0 then CHR ''n'' else CHR ''p'') # replicate (nat \<bar>i\<bar>) (CHR ''x'')"

fun of_unary :: "str \<Rightarrow> int" where
  "of_unary [] = 0"
| "of_unary (b # s) = (if b = CHR ''n'' then - int (length s) else int (length s))"

lemma of_unary_unary [simp]: "of_unary (unary i) = i"
  by simp

lemma set_unary: "set (unary i) \<subseteq> {CHR ''n'', CHR ''p'', CHR ''x''}"
  by (auto split: if_splits)

lemma takeWhile_unary: "takeWhile (\<lambda>c. c \<noteq> CHR ''@'') (unary i @ s) = unary i @ takeWhile (\<lambda>c. c \<noteq> CHR ''@'') s"
  by (subst takeWhile_append2) (auto split: if_splits)

lemma takeWhile_unary_only: "takeWhile (\<lambda>c. c \<noteq> CHR ''@'') (unary i) = unary i"
  using takeWhile_unary [of i "[]"] by simp

lemma unary_nonempty: "unary i \<noteq> []"
  by simp

section \<open>Lemmas on tables\<close>

lemma tbl_get_Nil [simp]: "tbl_get key k [] = None"
  by (simp add: tbl_get_def)

lemma tbl_get_Cons [simp]:
  "tbl_get key k (r # rows) = (if key r = k then Some r else tbl_get key k rows)"
  by (simp add: tbl_get_def)

lemma tbl_put_Nil [simp]: "tbl_put key r [] = []"
  by (simp add: tbl_put_def)

lemma tbl_put_Cons [simp]:
  "tbl_put key r (q # rows) = (if key q = key r then r else q) # tbl_put key r rows"
  by (simp add: tbl_put_def)

lemma tbl_get_Some: "tbl_get key k rows = Some r \<Longrightarrow> r \<in> set rows \<and> key r = k"
  by (induction rows) (auto split: if_splits)

lemma tbl_get_None: "tbl_get key k rows = None \<longleftrightarrow> k \<notin> key ` set rows"
  by (induction rows) (auto split: if_splits)

lemma tbl_get_key [dest]: "tbl_get key k rows = Some r \<Longrightarrow> key r = k"
  using tbl_get_Some by fast

lemma tbl_get_mem [dest]: "tbl_get key k rows = Some r \<Longrightarrow> r \<in> set rows"
  using tbl_get_Some by fast

lemma tbl_get_unique: "keys_distinct key rows \<Longrightarrow> r \<in> set rows \<Longrightarrow> tbl_get key (key r) rows = Some r"
  by (induction rows) (auto simp: keys_distinct_def image_iff)

lemma tbl_put_keys [simp]: "map key (tbl_put key r rows) = map key rows"
  by (induction rows) auto

lemma keys_distinct_put [simp]: "keys_distinct key (tbl_put key r rows) = keys_distinct key rows"
  by (simp add: keys_distinct_def)

lemma length_tbl_put [simp]: "length (tbl_put key r rows) = length rows"
  by (simp add: tbl_put_def)

lemma tbl_get_put [tbl_simps]:
  "tbl_get key k (tbl_put key r rows) =
     (if k = key r \<and> tbl_get key k rows \<noteq> None then Some r else tbl_get key k rows)"
  by (induction rows) auto

lemma tbl_get_put_same [simp]:
  "tbl_get key (key r) rows = Some q \<Longrightarrow> tbl_get key (key r) (tbl_put key r rows) = Some r"
  by (simp add: tbl_get_put)

lemma tbl_get_put_other [simp]:
  "k \<noteq> key r \<Longrightarrow> tbl_get key k (tbl_put key r rows) = tbl_get key k rows"
  by (simp add: tbl_get_put)

lemma set_tbl_put: "set (tbl_put key r rows) \<subseteq> insert r (set rows)"
  by (induction rows) auto

lemma set_tbl_putD: "q \<in> set (tbl_put key r rows) \<Longrightarrow> q = r \<or> q \<in> set rows \<and> key q \<noteq> key r"
  by (induction rows) (auto split: if_splits)

lemma list_all_tbl_put [intro]: "list_all P rows \<Longrightarrow> P r \<Longrightarrow> list_all P (tbl_put key r rows)"
  by (induction rows) auto

lemma tbl_get_append:
  "tbl_get key k (rows @ rows') =
     (case tbl_get key k rows of Some r \<Rightarrow> Some r | None \<Rightarrow> tbl_get key k rows')"
  by (induction rows) auto

lemma map_tbl_put_same:
  assumes "keys_distinct key rows" and "tbl_get key (key r) rows = Some q" and "f r = f q"
  shows "map f (tbl_put key r rows) = map f rows"
proof -
  have "f (if key x = key r then r else x) = f x" if "x \<in> set rows" for x
    using tbl_get_unique [OF assms(1) that] assms by auto
  then show ?thesis by (simp add: tbl_put_def)
qed

lemma tbl_put_idem: "keys_distinct key rows \<Longrightarrow> tbl_get key (key r) rows = Some r \<Longrightarrow>
    tbl_put key r rows = rows"
  unfolding tbl_put_def by (rule map_idI) (metis option.inject tbl_get_unique)

section \<open>Invariants of step relations\<close>

text \<open>The contract of an invariant: it holds initially and every step keeps it.\<close>

locale invariant_of =
  fixes init :: "'s \<Rightarrow> bool"
    and step :: "'s \<Rightarrow> 's \<Rightarrow> bool"
    and inv :: "'s \<Rightarrow> bool"
  assumes inv_init: "init s \<Longrightarrow> inv s"
    and inv_step: "inv s \<Longrightarrow> step s t \<Longrightarrow> inv t"
begin

lemma reach_inv: "reach init step s \<Longrightarrow> inv s"
  by (induction rule: reach.induct) (auto intro: inv_init inv_step)

lemma reach_measure_le:
  assumes "\<And>s t. inv s \<Longrightarrow> step s t \<Longrightarrow> (m s :: 'm :: preorder) \<le> m t"
    and "inv s" and "step\<^sup>*\<^sup>* s t"
  shows "m s \<le> m t \<and> inv t"
  using assms(3,2)
  by (induction rule: rtranclp_induct) (auto intro: inv_step order_trans [OF _ assms(1)])

end

section \<open>Fenced finalisers\<close>

text \<open>
  Every lease of the program follows one contract. A claim carries a token; \<open>live c db\<close> says
  that the database still holds the lease that issued \<open>c\<close>. Each finishing operation
  \<open>run o c\<close> does nothing on a stale claim and ends the lease of a live one. Hence whatever
  sequence of finishing operations a holder issues, only the first can change the database.
\<close>

locale fenced_lease =
  fixes live :: "'c \<Rightarrow> 'db \<Rightarrow> bool"
    and run :: "'o \<Rightarrow> 'c \<Rightarrow> 'db \<Rightarrow> 'db"
    and okay :: "'db \<Rightarrow> bool"
  assumes stale_noop: "okay db \<Longrightarrow> \<not> live c db \<Longrightarrow> run x c db = db"
    and ends_lease: "okay db \<Longrightarrow> live c db \<Longrightarrow> \<not> live c (run x c db)"
    and run_okay: "okay db \<Longrightarrow> okay (run x c db)"
begin

lemma stale_sequence: "okay db \<Longrightarrow> \<not> live c db \<Longrightarrow> fold (\<lambda>x. run x c) xs db = db"
  by (induction xs) (auto simp: stale_noop)

lemma finish_dead: "okay db \<Longrightarrow> \<not> live c (run x c db)"
  using ends_lease stale_noop by (cases "live c db") auto

lemma first_wins: "okay db \<Longrightarrow> fold (\<lambda>x. run x c) (x # xs) db = run x c db"
  using stale_sequence [OF run_okay finish_dead] by simp

end

end
