(* ===== verification/Action_Payloads.thy ===== *)
theory Action_Payloads
  imports Onebox_Prelude "HOL-Library.List_Lexorder" "HOL-Library.Monad_Syntax"
begin

text \<open>
  The typed payloads of pending actions (\<open>server/action_payloads.py\<close>): the field
  validators, the four payload models and \<open>canonicalize_action_payload\<close>. A payload is the
  mapping of its keys to JSON values; a raised \<open>ValueError\<close> (which a pydantic
  \<open>ValidationError\<close> is) is \<open>None\<close>.

  What the code takes from libraries is the parameter \<open>payload_lib\<close>: the whitespace
  trimming that pydantic applies to every string field, the address part returned by
  \<open>email.utils.parseaddr\<close>, the known IANA zones, and pydantic's reading and writing of
  \<open>datetime\<close> values.
\<close>

section \<open>Library parameters\<close>

record pydatetime =
  dt_instant :: int
  dt_offset :: "int option"

record payload_lib =
  pyd_trim :: "str \<Rightarrow> str"
  parseaddr :: "str \<Rightarrow> str"
  zone_known :: "str \<Rightarrow> bool"
  datetime_of :: "json \<Rightarrow> pydatetime option"
  datetime_iso :: "pydatetime \<Rightarrow> str"

type_synonym payload = "(str \<times> json) list"

section \<open>Field validators\<close>

definition MAX_TEXT_LENGTH :: nat where
  "MAX_TEXT_LENGTH = 20000"

definition PAYLOAD_SCHEMA_VERSION :: int where
  "PAYLOAD_SCHEMA_VERSION = 1"

definition clean_text :: "nat \<Rightarrow> str \<Rightarrow> str option" where
  "clean_text maximum value =
     (let v = strip value in
      if v = [] then None
      else if length v > maximum \<or> CHR 0x00 \<in> set v then None
      else Some v)"

definition canonical_email :: "payload_lib \<Rightarrow> str \<Rightarrow> str option" where
  "canonical_email lib value = do {
     v \<leftarrow> clean_text 320 value;
     let address = parseaddr lib v;
     if address \<noteq> v \<or> count_list address (CHR ''@'') \<noteq> 1 \<or> list_ex is_space address then None
     else let local_part = takeWhile (\<lambda>c. c \<noteq> CHR ''@'') address;
              domain = tl (dropWhile (\<lambda>c. c \<noteq> CHR ''@'') address)
          in if local_part = [] \<or> domain = [] \<or> starts_with ''.'' domain \<or> ends_with ''.'' domain
             then None else Some (casefold address) }"

definition provider_id :: "str \<Rightarrow> str option" where
  "provider_id value = do {
     v \<leftarrow> clean_text 256 value;
     if list_all is_alnum_id v \<and> 1 \<le> length v \<and> length v \<le> 256 then Some v else None }"

definition rfc_message_id :: "str \<Rightarrow> str option" where
  "rfc_message_id value = do {
     v \<leftarrow> clean_text 998 value;
     if \<not> (starts_with ''<'' v \<and> ends_with ''>'' v) \<or> list_ex is_space v then None else Some v }"

definition optional_text :: "str \<Rightarrow> str option" where
  "optional_text value = (if CHR 0x00 \<in> set value then None else Some (strip value))"

section \<open>Reading the fields of a model\<close>

text \<open>
  A string field: present, a string, trimmed, and at most \<open>max_length\<close> long where the model
  sets one. A field with a default is not validated when it is absent.
\<close>

definition within :: "nat option \<Rightarrow> 'a list \<Rightarrow> bool" where
  "within maximum v = (case maximum of None \<Rightarrow> True | Some m \<Rightarrow> length v \<le> m)"

definition str_field ::
  "payload_lib \<Rightarrow> nat option \<Rightarrow> (str \<Rightarrow> str option) \<Rightarrow> payload \<Rightarrow> str \<Rightarrow> str option" where
  "str_field lib maximum check p k =
     (case map_of p k of
        Some (JStr s) \<Rightarrow> let t = pyd_trim lib s in if within maximum t then check t else None
      | _ \<Rightarrow> None)"

definition str_field_default ::
  "payload_lib \<Rightarrow> nat option \<Rightarrow> (str \<Rightarrow> str option) \<Rightarrow> payload \<Rightarrow> str \<Rightarrow> str option" where
  "str_field_default lib maximum check p k =
     (if map_of p k = None then Some [] else str_field lib maximum check p k)"

definition schema_field :: "payload \<Rightarrow> bool" where
  "schema_field p = (case map_of p ''schema_version'' of
     None \<Rightarrow> True | Some j \<Rightarrow> j = JInt PAYLOAD_SCHEMA_VERSION)"

text \<open>\<open>extra="forbid"\<close>: every supplied key is a field of the model.\<close>

definition only_fields :: "str list \<Rightarrow> payload \<Rightarrow> bool" where
  "only_fields names p = list_all (\<lambda>(k, _). k \<in> set (''schema_version'' # names)) p"

definition payload_head :: "str \<Rightarrow> payload" where
  "payload_head action_type =
     [(''schema_version'', JInt PAYLOAD_SCHEMA_VERSION), (''action_type'', JStr action_type)]"

fun str_items :: "json list \<Rightarrow> str list option" where
  "str_items [] = Some []"
| "str_items (JStr s # js) = map_option ((#) s) (str_items js)"
| "str_items (_ # js) = None"

fun traverse :: "('a \<Rightarrow> 'b option) \<Rightarrow> 'a list \<Rightarrow> 'b list option" where
  "traverse f [] = Some []"
| "traverse f (x # xs) = do { y \<leftarrow> f x; ys \<leftarrow> traverse f xs; Some (y # ys) }"

definition validate_attendees :: "payload_lib \<Rightarrow> str list \<Rightarrow> str list option" where
  "validate_attendees lib values = do {
     emails \<leftarrow> traverse (canonical_email lib) values;
     let canonical = sort (remdups emails);
     if length canonical \<noteq> length values then None else Some canonical }"

definition attendees_field :: "payload_lib \<Rightarrow> payload \<Rightarrow> str list option" where
  "attendees_field lib p =
     (case map_of p ''attendee_emails'' of
        None \<Rightarrow> Some []
      | Some (JArr js) \<Rightarrow> do {
          items \<leftarrow> str_items js;
          let values = map (pyd_trim lib) items;
          if length values \<le> 100 then validate_attendees lib values else None }
      | Some _ \<Rightarrow> None)"

definition datetime_field :: "payload_lib \<Rightarrow> payload \<Rightarrow> str \<Rightarrow> pydatetime option" where
  "datetime_field lib p k = (case map_of p k of None \<Rightarrow> None | Some j \<Rightarrow> datetime_of lib j)"

definition validate_timezone :: "payload_lib \<Rightarrow> str \<Rightarrow> str option" where
  "validate_timezone lib value = do {
     v \<leftarrow> clean_text 128 value;
     if zone_known lib v then Some v else None }"

section \<open>The four payload models\<close>

definition send_email_payload :: "payload_lib \<Rightarrow> payload \<Rightarrow> payload option" where
  "send_email_payload lib p =
     (if \<not> (schema_field p \<and> only_fields [''sender_email'', ''recipient_email'', ''subject'', ''email_body''] p)
      then None else do {
        sender \<leftarrow> str_field lib None (canonical_email lib) p ''sender_email'';
        recipient \<leftarrow> str_field lib None (canonical_email lib) p ''recipient_email'';
        subject \<leftarrow> str_field lib (Some 998) (clean_text 998) p ''subject'';
        body \<leftarrow> str_field lib (Some MAX_TEXT_LENGTH) (clean_text MAX_TEXT_LENGTH) p ''email_body'';
        Some (payload_head ''send_email'' @
          [(''sender_email'', JStr sender), (''recipient_email'', JStr recipient),
           (''subject'', JStr subject), (''email_body'', JStr body)]) })"

definition send_reply_payload :: "payload_lib \<Rightarrow> payload \<Rightarrow> payload option" where
  "send_reply_payload lib p =
     (if \<not> (schema_field p \<and> only_fields [''sender_email'', ''recipient_email'', ''original_message_id'',
            ''thread_id'', ''original_rfc_message_id'', ''original_references'', ''original_subject'',
            ''reply_message''] p)
      then None else do {
        sender \<leftarrow> str_field lib None (canonical_email lib) p ''sender_email'';
        recipient \<leftarrow> str_field lib None (canonical_email lib) p ''recipient_email'';
        message_id \<leftarrow> str_field lib None provider_id p ''original_message_id'';
        thread_id \<leftarrow> str_field lib None provider_id p ''thread_id'';
        rfc_id \<leftarrow> str_field lib None rfc_message_id p ''original_rfc_message_id'';
        refs \<leftarrow> str_field_default lib (Some 4000) optional_text p ''original_references'';
        subject \<leftarrow> str_field lib (Some 998) (clean_text 998) p ''original_subject'';
        reply \<leftarrow> str_field lib (Some MAX_TEXT_LENGTH) (clean_text MAX_TEXT_LENGTH) p ''reply_message'';
        Some (payload_head ''send_reply'' @
          [(''sender_email'', JStr sender), (''recipient_email'', JStr recipient),
           (''original_message_id'', JStr message_id), (''thread_id'', JStr thread_id),
           (''original_rfc_message_id'', JStr rfc_id), (''original_references'', JStr refs),
           (''original_subject'', JStr subject), (''reply_message'', JStr reply)]) })"

definition create_event_payload :: "payload_lib \<Rightarrow> payload \<Rightarrow> payload option" where
  "create_event_payload lib p =
     (if \<not> (schema_field p \<and> only_fields [''title'', ''start_time_iso'', ''end_time_iso'',
            ''event_timezone'', ''description'', ''location'', ''attendee_emails''] p)
      then None else do {
        title \<leftarrow> str_field lib (Some 1024) (clean_text 1024) p ''title'';
        start \<leftarrow> datetime_field lib p ''start_time_iso'';
        finish \<leftarrow> datetime_field lib p ''end_time_iso'';
        zone \<leftarrow> str_field lib (Some 128) (validate_timezone lib) p ''event_timezone'';
        description \<leftarrow> str_field_default lib (Some MAX_TEXT_LENGTH) optional_text p ''description'';
        location \<leftarrow> str_field_default lib (Some 1024) optional_text p ''location'';
        attendees \<leftarrow> attendees_field lib p;
        if dt_offset start = None \<or> dt_offset finish = None then None
        else if dt_instant finish \<le> dt_instant start then None
        else Some (payload_head ''create_event'' @
          [(''title'', JStr title), (''start_time_iso'', JStr (datetime_iso lib start)),
           (''end_time_iso'', JStr (datetime_iso lib finish)), (''event_timezone'', JStr zone),
           (''description'', JStr description), (''location'', JStr location),
           (''attendee_emails'', JArr (map JStr attendees))]) })"

definition create_task_payload :: "payload_lib \<Rightarrow> payload \<Rightarrow> payload option" where
  "create_task_payload lib p =
     (if \<not> (schema_field p \<and> only_fields [''title'', ''notes''] p)
      then None else do {
        title \<leftarrow> str_field lib (Some 1024) (clean_text 1024) p ''title'';
        notes \<leftarrow> str_field lib (Some MAX_TEXT_LENGTH) (clean_text MAX_TEXT_LENGTH) p ''notes'';
        Some (payload_head ''create_task'' @ [(''title'', JStr title), (''notes'', JStr notes)]) })"

definition payload_model :: "str \<Rightarrow> (payload_lib \<Rightarrow> payload \<Rightarrow> payload option) option" where
  "payload_model action_type =
     (if action_type = ''send_email'' then Some send_email_payload
      else if action_type = ''send_reply'' then Some send_reply_payload
      else if action_type = ''create_event'' then Some create_event_payload
      else if action_type = ''create_task'' then Some create_task_payload
      else None)"

definition canonicalize_action_payload :: "payload_lib \<Rightarrow> str \<Rightarrow> payload \<Rightarrow> payload option" where
  "canonicalize_action_payload lib action_type p =
     (case payload_model action_type of
        None \<Rightarrow> None
      | Some model \<Rightarrow>
          let supplied_type = (case map_of p ''action_type'' of None \<Rightarrow> JStr action_type | Some j \<Rightarrow> j);
              candidate = filter (\<lambda>(k, _). k \<noteq> ''action_type'') p
          in if supplied_type \<noteq> JStr action_type then None else model lib candidate)"


section \<open>What the libraries must promise\<close>

text \<open>
  Pydantic's trimming leaves text without outer whitespace alone; a plain address stays a plain
  address when it is case-folded; a written \<open>datetime\<close> reads back as itself.
\<close>

definition payload_lib_ok :: "payload_lib \<Rightarrow> bool" where
  "payload_lib_ok lib \<longleftrightarrow>
     (\<forall>s. strip s = s \<longrightarrow> pyd_trim lib s = s) \<and>
     (\<forall>a. parseaddr lib a = a \<longrightarrow> parseaddr lib (casefold a) = casefold a) \<and>
     (\<forall>d. datetime_of lib (JStr (datetime_iso lib d)) = Some d)"

definition email_fits :: "json option \<Rightarrow> bool" where
  "email_fits j = (case j of Some (JStr e) \<Rightarrow> length e \<le> 320 | _ \<Rightarrow> True)"

definition emails_fit :: "payload \<Rightarrow> bool" where
  "emails_fit p = (email_fits (map_of p ''sender_email'') \<and> email_fits (map_of p ''recipient_email'') \<and>
     (case map_of p ''attendee_emails'' of
        Some (JArr js) \<Rightarrow> list_all (\<lambda>j. email_fits (Some j)) js | _ \<Rightarrow> True))"

text \<open>A validated value: it has no outer whitespace, fits its field and validates to itself.\<close>

definition settled :: "nat option \<Rightarrow> (str \<Rightarrow> str option) \<Rightarrow> str \<Rightarrow> bool" where
  "settled maximum check v \<longleftrightarrow> strip v = v \<and> within maximum v \<and> check v = Some v"

section \<open>Case folding\<close>

lemma of_char_lt [simp]: "(of_char c :: nat) < 256"
  by (metis mod_less_divisor of_char_mod_256 zero_less_numeral)

lemma lower_char_code:
  "(of_char (lower_char c) :: nat) = (let n = of_char c in
     if 65 \<le> n \<and> n \<le> 90 \<or> 192 \<le> n \<and> n \<le> 222 \<and> n \<noteq> 215 then n + 32 else n)"
  by (auto simp: lower_char_def Let_def)

lemma char_eq_code: "c = d \<longleftrightarrow> (of_char c :: nat) = of_char d"
  by simp

lemma lower_char_idem [simp]: "lower_char (lower_char c) = lower_char c"
  by (simp only: char_eq_code lower_char_code Let_def) auto

lemma is_space_lower [simp]: "is_space (lower_char c) = is_space c"
  by (auto simp: is_space_def lower_char_code Let_def)

lemma lower_char_fixed:
  assumes "(of_char d :: nat) < 65"
  shows "lower_char c = d \<longleftrightarrow> c = d"
  using assms by (auto simp: char_eq_code lower_char_code Let_def simp del: of_char_eq_iff)

lemma lower_char_special [simp]:
  "lower_char c = CHR ''@'' \<longleftrightarrow> c = CHR ''@''"
  "lower_char c = CHR ''.'' \<longleftrightarrow> c = CHR ''.''"
  "lower_char c = CHR 0x00 \<longleftrightarrow> c = CHR 0x00"
  "lower_char c = CHR 0xDF \<longleftrightarrow> c = CHR 0xDF"
  by (auto simp: char_eq_code lower_char_code Let_def simp del: of_char_eq_iff split: if_splits)

lemmas lower_char_special_sym [simp] = lower_char_special [THEN eq_iff_swap]

lemma lower_char_literals [simp]:
  "lower_char (CHR ''@'') = CHR ''@''" "lower_char (CHR ''s'') = CHR ''s''"
  by (simp_all add: lower_char_def)

lemma is_space_literals [simp]: "\<not> is_space (CHR ''s'')" "\<not> is_space (CHR 0xDF)"
  by (simp_all add: is_space_def)

lemma casefold_Nil [simp]: "casefold [] = []"
  by (simp add: casefold_def)

lemma code_223 [simp]: "(of_char c :: nat) = 223 \<longleftrightarrow> c = CHR 0xDF"
  by (simp add: char_eq_code del: of_char_eq_iff)

lemma casefold_Cons [simp]:
  "casefold (c # s) = (if c = CHR 0xDF then ''ss'' else [lower_char c]) @ casefold s"
  by (simp add: casefold_def)

lemma casefold_no_sharp [simp]: "CHR 0xDF \<notin> set (casefold s)"
  by (induction s) auto

lemma casefold_map_lower: "CHR 0xDF \<notin> set s \<Longrightarrow> casefold s = map lower_char s"
  by (induction s) auto

lemma casefold_lowers: "c \<in> set (casefold s) \<Longrightarrow> lower_char c = c"
  by (induction s) (auto split: if_splits)

lemma casefold_idem [simp]: "casefold (casefold s) = casefold s"
  by (simp add: casefold_map_lower casefold_lowers map_idI)

lemma casefold_eq_Nil [simp]: "casefold s = [] \<longleftrightarrow> s = []"
  by (cases s) auto

lemma casefold_append: "casefold (s @ t) = casefold s @ casefold t"
  by (simp add: casefold_def)

lemma casefold_is_space: "list_ex is_space (casefold s) = list_ex is_space s"
  by (induction s) auto

lemma casefold_count_at: "count_list (casefold s) (CHR ''@'') = count_list s (CHR ''@'')"
  by (induction s) auto

lemma casefold_nul: "CHR 0x00 \<in> set (casefold s) \<longleftrightarrow> CHR 0x00 \<in> set s"
  by (induction s) (auto split: if_splits simp: eq_commute [of "CHR 0x00"])

lemma casefold_local: "takeWhile (\<lambda>c. c \<noteq> CHR ''@'') (casefold s) = casefold (takeWhile (\<lambda>c. c \<noteq> CHR ''@'') s)"
  by (induction s) auto

lemma casefold_domain: "dropWhile (\<lambda>c. c \<noteq> CHR ''@'') (casefold s) = casefold (dropWhile (\<lambda>c. c \<noteq> CHR ''@'') s)"
  by (induction s) auto

lemma starts_with_single [simp]: "starts_with [p] s \<longleftrightarrow> s \<noteq> [] \<and> hd s = p"
  by (cases s) auto

lemma ends_with_single [simp]: "ends_with [p] s \<longleftrightarrow> s \<noteq> [] \<and> last s = p"
  by (simp add: ends_with_def hd_rev)

lemma casefold_hd_dot: "s \<noteq> [] \<Longrightarrow> hd (casefold s) = CHR ''.'' \<longleftrightarrow> hd s = CHR ''.''"
  by (cases s) auto

lemma casefold_last_dot: "s \<noteq> [] \<Longrightarrow> last (casefold s) = CHR ''.'' \<longleftrightarrow> last s = CHR ''.''"
  by (induction s rule: rev_induct) (auto simp: casefold_append)

lemma strip_no_space: "\<not> list_ex is_space s \<Longrightarrow> strip s = s"
  by (simp add: strip_def lstrip_def list_ex_iff dropWhile_eq_self_iff)
    (metis (no_types) dropWhile_eq_self_iff hd_in_set rev_rev_ident set_rev)

section \<open>Stable fields\<close>

lemma clean_text_Some:
  "clean_text m v = Some w \<longleftrightarrow> w = strip v \<and> w \<noteq> [] \<and> length w \<le> m \<and> CHR 0x00 \<notin> set w"
  by (auto simp: clean_text_def Let_def)

lemma clean_text_settled: "clean_text m v = Some w \<Longrightarrow> settled (Some m) (clean_text m) w"
  by (auto simp: clean_text_Some settled_def within_def)

lemma optional_text_settled:
  "length v \<le> m \<Longrightarrow> optional_text v = Some w \<Longrightarrow> settled (Some m) optional_text w"
  using length_strip_le [of v] set_strip_subset [of v]
  by (auto simp: optional_text_def settled_def within_def split: if_splits)

lemma tl_casefold_domain:
  "tl (dropWhile (\<lambda>c. c \<noteq> CHR ''@'') (casefold a)) = casefold (tl (dropWhile (\<lambda>c. c \<noteq> CHR ''@'') a))"
proof (cases "dropWhile (\<lambda>c. c \<noteq> CHR ''@'') a")
  case (Cons c cs)
  then have "c = CHR ''@''" using hd_dropWhile [of "\<lambda>c. c \<noteq> CHR ''@''" a] by auto
  then show ?thesis using Cons by (simp add: casefold_domain)
qed (simp only: casefold_domain, simp)

lemma canonical_email_settled:
  assumes "payload_lib_ok lib" and "canonical_email lib v = Some e" and "length e \<le> 320"
  shows "settled None (canonical_email lib) e"
proof -
  define a where "a = strip v"
  let ?d = "tl (dropWhile (\<lambda>c. c \<noteq> CHR ''@'') a)"
  have c: "clean_text 320 v = Some a" using assms(2)
    by (auto simp: canonical_email_def clean_text_Some a_def split: Option.bind_splits)
  have a: "parseaddr lib a = a" "count_list a (CHR ''@'') = 1" "\<not> list_ex is_space a"
    "takeWhile (\<lambda>c. c \<noteq> CHR ''@'') a \<noteq> []" "?d \<noteq> []" "hd ?d \<noteq> CHR ''.''" "last ?d \<noteq> CHR ''.''"
    and e: "e = casefold a"
    using assms(2) by (auto simp: canonical_email_def c Let_def split: if_splits)
  have sp: "\<not> list_ex is_space e" using a(3) by (simp add: e casefold_is_space)
  have "clean_text 320 e = Some e"
    using c assms(3) strip_no_space [OF sp] by (auto simp: clean_text_Some e casefold_nul)
  moreover have "parseaddr lib e = e" using assms(1) a(1) by (simp add: payload_lib_ok_def e)
  ultimately have "canonical_email lib e = Some e"
    using a sp by (auto simp: canonical_email_def Let_def e casefold_count_at casefold_local
        tl_casefold_domain casefold_hd_dot casefold_last_dot)
  then show ?thesis using strip_no_space [OF sp] by (simp add: settled_def within_def)
qed

lemma provider_id_settled: "provider_id v = Some w \<Longrightarrow> settled None provider_id w"
  by (auto simp: provider_id_def settled_def within_def clean_text_Some bind_eq_Some_conv split: if_splits)

lemma rfc_message_id_settled: "rfc_message_id v = Some w \<Longrightarrow> settled None rfc_message_id w"
  by (auto simp: rfc_message_id_def settled_def within_def clean_text_Some bind_eq_Some_conv split: if_splits)

lemma validate_timezone_settled:
  "validate_timezone lib v = Some w \<Longrightarrow> settled (Some 128) (validate_timezone lib) w"
  by (auto simp: validate_timezone_def settled_def within_def clean_text_Some bind_eq_Some_conv split: if_splits)

lemma str_field_check: "str_field lib m check p k = Some v \<Longrightarrow> \<exists>t. within m t \<and> check t = Some v"
  by (auto simp: str_field_def Let_def split: option.splits json.splits if_splits)

lemma str_field_again:
  "payload_lib_ok lib \<Longrightarrow> map_of q k = Some (JStr v) \<Longrightarrow> settled m check v \<Longrightarrow>
   str_field lib m check q k = Some v"
  by (simp add: str_field_def settled_def payload_lib_ok_def)

lemma text_field_settled:
  "str_field lib (Some m) (clean_text m) p k = Some v \<Longrightarrow> settled (Some m) (clean_text m) v"
  using str_field_check clean_text_settled by blast

lemma zone_field_settled:
  "str_field lib (Some 128) (validate_timezone lib) p k = Some v \<Longrightarrow>
   settled (Some 128) (validate_timezone lib) v"
  using str_field_check validate_timezone_settled by blast

lemma default_field_settled:
  "str_field_default lib (Some m) optional_text p k = Some v \<Longrightarrow> settled (Some m) optional_text v"
  by (auto simp: str_field_default_def within_def dest!: str_field_check intro: optional_text_settled
      split: if_splits) (simp add: settled_def optional_text_def within_def strip_def lstrip_def)

lemma email_field_settled:
  "payload_lib_ok lib \<Longrightarrow> str_field lib None (canonical_email lib) p k = Some v \<Longrightarrow> length v \<le> 320 \<Longrightarrow>
   settled None (canonical_email lib) v"
  using str_field_check canonical_email_settled by blast

lemma id_field_settled:
  "str_field lib None provider_id p k = Some v \<Longrightarrow> settled None provider_id v"
  "str_field lib None rfc_message_id p k = Some v \<Longrightarrow> settled None rfc_message_id v"
  using str_field_check provider_id_settled rfc_message_id_settled by blast+

lemmas field_settled = text_field_settled zone_field_settled default_field_settled id_field_settled


lemma traverse_Some:
  "traverse f xs = Some ys \<Longrightarrow> length ys = length xs \<and> (\<forall>y \<in> set ys. \<exists>x \<in> set xs. f x = Some y)"
  by (induction xs arbitrary: ys) (simp, fastforce simp: bind_eq_Some_conv)

lemma traverse_id: "list_all (\<lambda>x. f x = Some x) xs \<Longrightarrow> traverse f xs = Some xs"
  by (induction xs) auto

lemma str_items_map [simp]: "str_items (map JStr xs) = Some xs"
  by (induction xs) auto

lemma validate_attendees_settled:
  assumes "payload_lib_ok lib" and "validate_attendees lib vs = Some es" and "list_all (\<lambda>e. length e \<le> 320) es"
  shows "list_all (settled None (canonical_email lib)) es \<and> validate_attendees lib es = Some es
         \<and> length es = length vs"
proof -
  obtain ms where ms: "traverse (canonical_email lib) vs = Some ms" "es = sort (remdups ms)"
    "length es = length vs"
    using assms(2) by (auto simp: validate_attendees_def bind_eq_Some_conv Let_def split: if_splits)
  have "settled None (canonical_email lib) e" if "e \<in> set es" for e
  proof -
    have "e \<in> set ms" using that ms(2) by simp
    then obtain v where "canonical_email lib v = Some e" using traverse_Some [OF ms(1)] by blast
    moreover have "length e \<le> 320" using assms(3) that by (simp add: list_all_iff)
    ultimately show ?thesis using canonical_email_settled [OF assms(1)] by blast
  qed
  then have all: "list_all (settled None (canonical_email lib)) es" by (simp add: list_all_iff)
  then have "traverse (canonical_email lib) es = Some es"
    by (intro traverse_id) (simp add: list_all_iff settled_def)
  moreover have "sort (remdups es) = es" using ms(2) by (simp add: distinct_remdups_id sorted_sort_id)
  moreover have "length (remdups es) = length es" using ms(2) by (simp add: distinct_remdups_id)
  ultimately show ?thesis using all ms(3) by (simp add: validate_attendees_def)
qed

lemma attendees_field_again:
  assumes ok: "payload_lib_ok lib" and p: "attendees_field lib p = Some es"
    and fit: "list_all (\<lambda>e. length e \<le> 320) es"
    and q: "map_of q ''attendee_emails'' = Some (JArr (map JStr es))"
  shows "attendees_field lib q = Some es"
proof -
  have "es = [] \<or> (\<exists>vs. validate_attendees lib vs = Some es \<and> length vs \<le> 100)"
    using p by (auto simp: attendees_field_def bind_eq_Some_conv Let_def split: option.splits json.splits if_splits)
  then have es: "validate_attendees lib es = Some es" "length es \<le> 100"
    "list_all (settled None (canonical_email lib)) es"
    using validate_attendees_settled [OF ok _ fit] by (auto simp: validate_attendees_def)
  then have "map (pyd_trim lib) es = es"
    using ok by (intro map_idI) (auto simp: settled_def payload_lib_ok_def list_all_iff)
  then show ?thesis using es q by (simp add: attendees_field_def Let_def)
qed

section \<open>Canonical payloads are fixed points\<close>

lemma send_email_again:
  assumes "payload_lib_ok lib" and "send_email_payload lib p = Some q" and "emails_fit q"
  shows "canonicalize_action_payload lib ''send_email'' q = Some q"
  using assms
  by (auto simp: send_email_payload_def canonicalize_action_payload_def payload_model_def payload_head_def
      schema_field_def only_fields_def emails_fit_def email_fits_def bind_eq_Some_conv str_field_again
      field_settled email_field_settled split: if_splits)

lemma send_reply_again:
  assumes "payload_lib_ok lib" and "send_reply_payload lib p = Some q" and "emails_fit q"
  shows "canonicalize_action_payload lib ''send_reply'' q = Some q"
  using assms
  by (auto simp: send_reply_payload_def canonicalize_action_payload_def payload_model_def payload_head_def
      schema_field_def only_fields_def emails_fit_def email_fits_def bind_eq_Some_conv str_field_again
      str_field_default_def [of _ _ _ "_ # _"] field_settled email_field_settled split: if_splits)

lemma create_task_again:
  assumes "payload_lib_ok lib" and "create_task_payload lib p = Some q"
  shows "canonicalize_action_payload lib ''create_task'' q = Some q"
  using assms
  by (auto simp: create_task_payload_def canonicalize_action_payload_def payload_model_def payload_head_def
      schema_field_def only_fields_def bind_eq_Some_conv str_field_again field_settled split: if_splits)

lemma datetime_again: "payload_lib_ok lib \<Longrightarrow> datetime_of lib (JStr (datetime_iso lib d)) = Some d"
  by (simp add: payload_lib_ok_def)

lemma create_event_payload_Some:
  assumes "create_event_payload lib p = Some q"
  obtains title start finish zone description location attendees where
    "str_field lib (Some 1024) (clean_text 1024) p ''title'' = Some title"
    "str_field lib (Some 128) (validate_timezone lib) p ''event_timezone'' = Some zone"
    "str_field_default lib (Some MAX_TEXT_LENGTH) optional_text p ''description'' = Some description"
    "str_field_default lib (Some 1024) optional_text p ''location'' = Some location"
    "attendees_field lib p = Some attendees"
    "dt_offset start \<noteq> None" "dt_offset finish \<noteq> None" "dt_instant start < dt_instant finish"
    "q = payload_head ''create_event'' @
          [(''title'', JStr title), (''start_time_iso'', JStr (datetime_iso lib start)),
           (''end_time_iso'', JStr (datetime_iso lib finish)), (''event_timezone'', JStr zone),
           (''description'', JStr description), (''location'', JStr location),
           (''attendee_emails'', JArr (map JStr attendees))]"
proof -
  note unfolded = assms [unfolded create_event_payload_def]
  from unfolded obtain title start finish zone description location attendees where
    "str_field lib (Some 1024) (clean_text 1024) p ''title'' = Some title"
    "datetime_field lib p ''start_time_iso'' = Some start"
    "datetime_field lib p ''end_time_iso'' = Some finish"
    "str_field lib (Some 128) (validate_timezone lib) p ''event_timezone'' = Some zone"
    "str_field_default lib (Some MAX_TEXT_LENGTH) optional_text p ''description'' = Some description"
    "str_field_default lib (Some 1024) optional_text p ''location'' = Some location"
    "attendees_field lib p = Some attendees"
    by (auto simp: bind_eq_Some_conv split: if_splits)
  then show ?thesis using unfolded by (intro that [where start = start and finish = finish]) (auto split: if_splits)
qed

lemma create_event_again:
  assumes ok: "payload_lib_ok lib" and "create_event_payload lib p = Some q" and "emails_fit q"
  shows "canonicalize_action_payload lib ''create_event'' q = Some q"
proof -
  from assms(2) obtain title start finish zone description location attendees where
    f: "str_field lib (Some 1024) (clean_text 1024) p ''title'' = Some title"
      "str_field lib (Some 128) (validate_timezone lib) p ''event_timezone'' = Some zone"
      "str_field_default lib (Some MAX_TEXT_LENGTH) optional_text p ''description'' = Some description"
      "str_field_default lib (Some 1024) optional_text p ''location'' = Some location"
    and att: "attendees_field lib p = Some attendees"
    and d: "dt_offset start \<noteq> None" "dt_offset finish \<noteq> None" "dt_instant start < dt_instant finish"
    and q: "q = payload_head ''create_event'' @
          [(''title'', JStr title), (''start_time_iso'', JStr (datetime_iso lib start)),
           (''end_time_iso'', JStr (datetime_iso lib finish)), (''event_timezone'', JStr zone),
           (''description'', JStr description), (''location'', JStr location),
           (''attendee_emails'', JArr (map JStr attendees))]"
    by (rule create_event_payload_Some)
  have fit: "list_all (\<lambda>e. length e \<le> 320) attendees"
    using assms(3) by (simp add: q emails_fit_def payload_head_def list.pred_map comp_def email_fits_def)
  show ?thesis
    using d field_settled(1) [OF f(1)] field_settled(2) [OF f(2)] f(3,4) [THEN field_settled(3)] att
    by (simp add: q canonicalize_action_payload_def payload_model_def payload_head_def create_event_payload_def
        schema_field_def only_fields_def str_field_again [OF ok] str_field_default_def datetime_field_def
        datetime_again [OF ok] attendees_field_again [OF ok att fit])
qed


lemma canonicalize_again:
  assumes "payload_lib_ok lib" and "canonicalize_action_payload lib t p = Some q" and "emails_fit q"
  shows "canonicalize_action_payload lib t q = Some q"
  using assms send_email_again send_reply_again create_event_again create_task_again
  by (auto simp: canonicalize_action_payload_def [of lib t p] payload_model_def Let_def split: if_splits)

lemma payload_model_keys:
  assumes "payload_model t = Some model" and "model lib p = Some q"
  shows "map_of q ''action_type'' = Some (JStr t) \<and> map_of q ''schema_version'' = Some (JInt 1)
         \<and> distinct (map fst q) \<and> fst ` set p \<subseteq> fst ` set q"
  using assms
  by (auto simp: payload_model_def send_email_payload_def send_reply_payload_def create_event_payload_def
      create_task_payload_def payload_head_def PAYLOAD_SCHEMA_VERSION_def only_fields_def list_all_iff
      bind_eq_Some_conv split: if_splits)

lemma keys_cover:
  "map_of q a = Some v \<Longrightarrow> fst ` set (filter (\<lambda>(k, _). k \<noteq> a) p) \<subseteq> fst ` set q \<Longrightarrow>
   fst ` set p \<subseteq> fst ` set q"
  by (force dest: map_of_SomeD)

section \<open>A concrete library\<close>

text \<open>An instance of the library parameters that satisfies what they must promise.\<close>

definition plain_lib :: payload_lib where
  "plain_lib = \<lparr>pyd_trim = strip, parseaddr = (\<lambda>v. v), zone_known = (\<lambda>z. z = ''UTC''),
     datetime_of = (\<lambda>j. case j of
        JStr s \<Rightarrow> (let instant = takeWhile (\<lambda>c. c \<noteq> CHR ''@'') s; offset = drop (length instant + 1) s in
          Some \<lparr>dt_instant = of_unary instant, dt_offset = (if offset = [] then None else Some (of_unary offset))\<rparr>)
      | _ \<Rightarrow> None),
     datetime_iso = (\<lambda>d. unary (dt_instant d) @
        (case dt_offset d of None \<Rightarrow> [] | Some k \<Rightarrow> ''@'' @ unary k))\<rparr>"

lemma plain_lib_ok: "payload_lib_ok plain_lib"
proof -
  have "datetime_of plain_lib (JStr (datetime_iso plain_lib d)) = Some d" for d
    by (cases d; cases "dt_offset d")
      (simp_all add: plain_lib_def Let_def takeWhile_unary takeWhile_unary_only unary_nonempty
        del: unary.simps of_unary.simps)
  then show ?thesis by (simp add: payload_lib_ok_def) (simp add: plain_lib_def)
qed

text \<open>A task payload as it is submitted and as it is stored.\<close>

definition demo_payload :: payload where
  "demo_payload = [(''title'', JStr ''t''), (''notes'', JStr ''n'')]"

definition demo_canonical :: payload where
  "demo_canonical = [(''schema_version'', JInt 1), (''action_type'', JStr ''create_task''),
     (''title'', JStr ''t''), (''notes'', JStr ''n'')]"

lemmas payload_eval = canonicalize_action_payload_def payload_model_def create_task_payload_def
  schema_field_def only_fields_def str_field_def within_def payload_head_def MAX_TEXT_LENGTH_def
  PAYLOAD_SCHEMA_VERSION_def

lemma clean_text_kept:
  "strip s = s \<Longrightarrow> s \<noteq> [] \<Longrightarrow> length s \<le> m \<Longrightarrow> CHR 0x00 \<notin> set s \<Longrightarrow> clean_text m s = Some s"
  by (simp add: clean_text_Some)

lemma strip_letters: "strip ''t'' = ''t''" "strip ''n'' = ''n''"
  by (simp_all add: text_simps)

lemma demo_canonicalize:
  "canonicalize_action_payload plain_lib ''create_task'' demo_payload = Some demo_canonical"
  by (simp add: payload_eval demo_payload_def demo_canonical_def plain_lib_def clean_text_kept strip_letters)

lemma demo_canonical_again:
  "canonicalize_action_payload plain_lib ''create_task'' demo_canonical = Some demo_canonical"
  by (simp add: payload_eval demo_canonical_def plain_lib_def clean_text_kept strip_letters)

lemma demo_emails_fit: "emails_fit demo_canonical"
  by (simp add: emails_fit_def email_fits_def demo_canonical_def)

section \<open>Properties\<close>

text \<open>
  C30. A payload that was canonicalised canonicalises to itself, provided that every address in the
  result is at most 320 characters long (case folding may lengthen an accepted address past that
  limit): then the approval step recomputes exactly the payload, and therefore the hash, that was
  staged. The other hypothesis is the contract of the address and time zone libraries.
\<close>

theorem canonicalize_idempotent:
  assumes "payload_lib_ok lib" and "canonicalize_action_payload lib t p = Some q" and "emails_fit q"
  shows "canonicalize_action_payload lib t q = Some q"
  using assms by (rule canonicalize_again)

theorem canonicalize_idempotent_witness:
  "canonicalize_action_payload plain_lib ''create_task'' demo_payload = Some demo_canonical
     \<and> canonicalize_action_payload plain_lib ''create_task'' demo_canonical = Some demo_canonical"
  using canonicalize_idempotent [OF plain_lib_ok demo_canonicalize demo_emails_fit] demo_canonicalize by simp

text \<open>
  The canonical form carries the server-owned action type and schema version, lists every
  field once, and a payload with a key that the model does not declare is refused: nothing the
  approver cannot see reaches execution.
\<close>

lemma canonicalize_closed_schema:
  assumes "canonicalize_action_payload lib t p = Some q"
  shows "map_of q ''action_type'' = Some (JStr t) \<and> map_of q ''schema_version'' = Some (JInt 1)
         \<and> distinct (map fst q) \<and> fst ` set p \<subseteq> fst ` set q"
proof -
  obtain model where m: "payload_model t = Some model"
    "model lib (filter (\<lambda>(k, _). k \<noteq> ''action_type'') p) = Some q"
    using assms by (auto simp: canonicalize_action_payload_def Let_def split: option.splits if_splits)
  note keys = payload_model_keys [OF m]
  have "fst ` set p \<subseteq> fst ` set q"
    by (rule keys_cover, rule conjunct1 [OF keys], rule conjunct2, rule conjunct2, rule conjunct2, rule keys)
  with keys show ?thesis by (simp only: simp_thms)
qed

theorem canonicalize_closed_schema_witness:
  "canonicalize_action_payload plain_lib ''create_task'' demo_payload = Some demo_canonical
     \<and> map_of demo_canonical ''action_type'' = Some (JStr ''create_task'')"
  using canonicalize_closed_schema [OF demo_canonicalize] demo_canonicalize by simp

lemma plain_email:
  assumes "u \<noteq> []" and "CHR ''@'' \<notin> set u" and "\<not> list_ex is_space u" and "CHR 0x00 \<notin> set u"
  shows "canonical_email plain_lib (u @ ''@a.b'') =
           (if length u \<le> 316 then Some (casefold u @ ''@a.b'') else None)"
proof -
  have "\<not> list_ex is_space (u @ ''@a.b'')" using assms(3) by (simp add: is_space_def)
  then have "strip (u @ ''@a.b'') = u @ ''@a.b''" by (rule strip_no_space)
  moreover have "takeWhile (\<lambda>c. c \<noteq> CHR ''@'') (u @ ''@a.b'') = u"
    using assms(2) by (subst takeWhile_append2) auto
  moreover have "dropWhile (\<lambda>c. c \<noteq> CHR ''@'') (u @ ''@a.b'') = ''@a.b''"
    using assms(2) by (subst dropWhile_append2) auto
  moreover have "count_list (u @ ''@a.b'') (CHR ''@'') = 1"
    using assms(2) by simp
  moreover have "casefold (u @ ''@a.b'') = casefold u @ ''@a.b''"
    by (simp add: casefold_append lower_char_def)
  ultimately show ?thesis
    using assms by (simp add: canonical_email_def plain_lib_def clean_text_def is_space_def Let_def)
qed

lemma casefold_sharps: "casefold (replicate n (CHR 0xDF)) = replicate (2 * n) (CHR ''s'')"
  by (induction n) (auto simp: numeral_2_eq_2)

text \<open>
  The length hypothesis of the fixed-point property is needed: a recipient of 204 characters,
  200 of them a sharp s, is accepted when the action is staged, but its folded form has 404
  characters and is refused when the stored payload is validated again.
\<close>

lemma sharp_s_recipient_not_stable:
  "canonical_email plain_lib (replicate 200 (CHR 0xDF) @ ''@a.b'') =
     Some (replicate 400 (CHR ''s'') @ ''@a.b'')
   \<and> canonical_email plain_lib (replicate 400 (CHR ''s'') @ ''@a.b'') = None"
  using plain_email [of "replicate 200 (CHR 0xDF)"] plain_email [of "replicate 400 (CHR ''s'')"]
  by (simp add: list_ex_iff casefold_sharps)

end
