(* ===== verification/Settings.thy ===== *)
theory Settings
  imports Onebox_Prelude Complex_Main
begin

text \<open>
  The numeric settings of \<open>server/config.py\<close> that the modelled components read, with the
  bounds declared on the fields and the cross-field checks of the model validator that concern
  them. Durations that the code keeps as floats are rationals.
\<close>

record settings =
  PROVIDER_TIMEOUT_SECONDS :: rat
  PROVIDER_RETRY_MAX_ATTEMPTS :: int
  PROVIDER_RETRY_INITIAL_SECONDS :: rat
  PROVIDER_RETRY_MAX_SECONDS :: rat
  PROVIDER_RETRY_DEADLINE_SECONDS :: rat
  PENDING_ACTION_RETENTION_DAYS :: int
  GMAIL_JOB_RETENTION_DAYS :: int
  GMAIL_TRIAGE_RETENTION_DAYS :: int
  RETENTION_CLEANUP_INTERVAL_SECONDS :: int
  PUBSUB_MAX_ENVELOPE_BYTES :: int
  GMAIL_NOTIFICATION_LEASE_SECONDS :: int
  GMAIL_NOTIFICATION_MAX_ATTEMPTS :: int
  GMAIL_RETRY_BACKOFF_INITIAL_SECONDS :: int
  GMAIL_RETRY_BACKOFF_MAX_SECONDS :: int
  GMAIL_RESYNC_MAX_MESSAGES :: int
  GMAIL_HISTORY_MAX_MESSAGES :: int
  GMAIL_HISTORY_MAX_PAGES :: int
  GMAIL_WATCH_RENEWAL_SECONDS :: int
  GMAIL_WORKER_LIVENESS_SECONDS :: int

text \<open>The \<open>Field(...)\<close> bounds.\<close>

definition provider_bounds :: "settings \<Rightarrow> bool" where
  "provider_bounds s \<longleftrightarrow>
     0 < PROVIDER_TIMEOUT_SECONDS s \<and> PROVIDER_TIMEOUT_SECONDS s \<le> 300 \<and>
     1 \<le> PROVIDER_RETRY_MAX_ATTEMPTS s \<and> PROVIDER_RETRY_MAX_ATTEMPTS s \<le> 10 \<and>
     0 < PROVIDER_RETRY_INITIAL_SECONDS s \<and> PROVIDER_RETRY_INITIAL_SECONDS s \<le> 60 \<and>
     0 < PROVIDER_RETRY_MAX_SECONDS s \<and> PROVIDER_RETRY_MAX_SECONDS s \<le> 300 \<and>
     0 < PROVIDER_RETRY_DEADLINE_SECONDS s \<and> PROVIDER_RETRY_DEADLINE_SECONDS s \<le> 600"

definition retention_bounds :: "settings \<Rightarrow> bool" where
  "retention_bounds s \<longleftrightarrow>
     1 \<le> PENDING_ACTION_RETENTION_DAYS s \<and> PENDING_ACTION_RETENTION_DAYS s \<le> 3650 \<and>
     1 \<le> GMAIL_JOB_RETENTION_DAYS s \<and> GMAIL_JOB_RETENTION_DAYS s \<le> 3650 \<and>
     1 \<le> GMAIL_TRIAGE_RETENTION_DAYS s \<and> GMAIL_TRIAGE_RETENTION_DAYS s \<le> 3650 \<and>
     60 \<le> RETENTION_CLEANUP_INTERVAL_SECONDS s \<and> RETENTION_CLEANUP_INTERVAL_SECONDS s \<le> 86400"

definition gmail_bounds :: "settings \<Rightarrow> bool" where
  "gmail_bounds s \<longleftrightarrow>
     1024 \<le> PUBSUB_MAX_ENVELOPE_BYTES s \<and> PUBSUB_MAX_ENVELOPE_BYTES s \<le> 1048576 \<and>
     10 \<le> GMAIL_NOTIFICATION_LEASE_SECONDS s \<and> GMAIL_NOTIFICATION_LEASE_SECONDS s \<le> 3600 \<and>
     1 \<le> GMAIL_NOTIFICATION_MAX_ATTEMPTS s \<and> GMAIL_NOTIFICATION_MAX_ATTEMPTS s \<le> 100 \<and>
     1 \<le> GMAIL_RETRY_BACKOFF_INITIAL_SECONDS s \<and> GMAIL_RETRY_BACKOFF_INITIAL_SECONDS s \<le> 3600 \<and>
     1 \<le> GMAIL_RETRY_BACKOFF_MAX_SECONDS s \<and> GMAIL_RETRY_BACKOFF_MAX_SECONDS s \<le> 86400 \<and>
     1 \<le> GMAIL_RESYNC_MAX_MESSAGES s \<and> GMAIL_RESYNC_MAX_MESSAGES s \<le> 1000 \<and>
     1 \<le> GMAIL_HISTORY_MAX_MESSAGES s \<and> GMAIL_HISTORY_MAX_MESSAGES s \<le> 1000 \<and>
     1 \<le> GMAIL_HISTORY_MAX_PAGES s \<and> GMAIL_HISTORY_MAX_PAGES s \<le> 100 \<and>
     300 \<le> GMAIL_WATCH_RENEWAL_SECONDS s \<and> GMAIL_WATCH_RENEWAL_SECONDS s \<le> 604800 \<and>
     10 \<le> GMAIL_WORKER_LIVENESS_SECONDS s \<and> GMAIL_WORKER_LIVENESS_SECONDS s \<le> 3600"

text \<open>The checks of \<open>validate_role_requirements\<close> between numeric settings.\<close>

definition backoff_order :: "settings \<Rightarrow> bool" where
  "backoff_order s \<longleftrightarrow>
     GMAIL_RETRY_BACKOFF_INITIAL_SECONDS s \<le> GMAIL_RETRY_BACKOFF_MAX_SECONDS s \<and>
     PROVIDER_RETRY_INITIAL_SECONDS s \<le> PROVIDER_RETRY_MAX_SECONDS s \<and>
     PROVIDER_RETRY_INITIAL_SECONDS s \<le> PROVIDER_RETRY_DEADLINE_SECONDS s"

definition settings_ok :: "settings \<Rightarrow> bool" where
  "settings_ok s \<longleftrightarrow> provider_bounds s \<and> retention_bounds s \<and> gmail_bounds s \<and> backoff_order s"

text \<open>The values a process runs with when the environment sets none of them.\<close>

definition default_settings :: settings where
  "default_settings = \<lparr>
     PROVIDER_TIMEOUT_SECONDS = 20,
     PROVIDER_RETRY_MAX_ATTEMPTS = 3,
     PROVIDER_RETRY_INITIAL_SECONDS = 1 / 4,
     PROVIDER_RETRY_MAX_SECONDS = 2,
     PROVIDER_RETRY_DEADLINE_SECONDS = 10,
     PENDING_ACTION_RETENTION_DAYS = 30,
     GMAIL_JOB_RETENTION_DAYS = 14,
     GMAIL_TRIAGE_RETENTION_DAYS = 14,
     RETENTION_CLEANUP_INTERVAL_SECONDS = 3600,
     PUBSUB_MAX_ENVELOPE_BYTES = 65536,
     GMAIL_NOTIFICATION_LEASE_SECONDS = 120,
     GMAIL_NOTIFICATION_MAX_ATTEMPTS = 5,
     GMAIL_RETRY_BACKOFF_INITIAL_SECONDS = 5,
     GMAIL_RETRY_BACKOFF_MAX_SECONDS = 300,
     GMAIL_RESYNC_MAX_MESSAGES = 100,
     GMAIL_HISTORY_MAX_MESSAGES = 100,
     GMAIL_HISTORY_MAX_PAGES = 10,
     GMAIL_WATCH_RENEWAL_SECONDS = 86400,
     GMAIL_WORKER_LIVENESS_SECONDS = 60\<rparr>"

lemmas settings_defs = settings_ok_def provider_bounds_def retention_bounds_def gmail_bounds_def
  backoff_order_def

lemma default_settings_ok: "settings_ok default_settings"
  by (simp add: settings_defs default_settings_def)

end
