(* ===== verification/Google_Adapter.thy ===== *)
theory Google_Adapter
  imports Settings
begin

text \<open>
  The Google provider adapter (\<open>server/integrations/google.py\<close>): the error classes, the
  translation of raw SDK failures, the classification that decides what may be retried, the
  backoff delay, one bounded operation behind its resource lock, and the retry loop. What the
  wrapped operation returns or raises when it is dispatched, the event-loop times and the random
  numbers are parameters. Floats are rationals.
\<close>

section \<open>Errors\<close>

text \<open>
  The stable provider errors. \<open>GoogleOperationQuota\<close> is a subclass of
  \<open>GoogleOperationUnavailable\<close> and \<open>GoogleOperationAuthentication\<close> one of
  \<open>GoogleOperationRejected\<close>; the predicates below are the \<open>isinstance\<close> tests.
\<close>

datatype google_error =
    GoogleOperationTimeout
  | GoogleOperationUnavailable "int option" "rat option"
  | GoogleOperationQuota "int option" "rat option"
  | GoogleOperationRejected "int option"
  | GoogleOperationAuthentication "int option"
  | GoogleOperationInternal

fun is_unavailable :: "google_error \<Rightarrow> bool" where
  "is_unavailable (GoogleOperationUnavailable _ _) = True"
| "is_unavailable (GoogleOperationQuota _ _) = True"
| "is_unavailable _ = False"

fun is_rejected :: "google_error \<Rightarrow> bool" where
  "is_rejected (GoogleOperationRejected _) = True"
| "is_rejected (GoogleOperationAuthentication _) = True"
| "is_rejected _ = False"

fun status_code :: "google_error \<Rightarrow> int option" where
  "status_code (GoogleOperationUnavailable s _) = s"
| "status_code (GoogleOperationQuota s _) = s"
| "status_code (GoogleOperationRejected s) = s"
| "status_code (GoogleOperationAuthentication s) = s"
| "status_code _ = None"

fun retry_after_of :: "google_error \<Rightarrow> rat option" where
  "retry_after_of (GoogleOperationUnavailable _ r) = r"
| "retry_after_of (GoogleOperationQuota _ r) = r"
| "retry_after_of _ = None"

datatype operation_safety = READ | IDEMPOTENT_WRITE | AMBIGUOUS_WRITE

datatype error_category =
    CAT_RETRYABLE | CAT_PERMANENT | CAT_AUTHENTICATION | CAT_QUOTA | CAT_AMBIGUOUS_WRITE | CAT_INTERNAL

record failure_classification =
  fc_category :: error_category
  fc_retry_after_seconds :: "rat option"

definition retryable :: "failure_classification \<Rightarrow> bool" where
  "retryable f = (fc_category f \<in> {CAT_RETRYABLE, CAT_QUOTA})"

definition classify_google_error :: "google_error \<Rightarrow> operation_safety \<Rightarrow> failure_classification" where
  "classify_google_error e safety =
     (if safety = AMBIGUOUS_WRITE \<and> (e = GoogleOperationTimeout \<or> is_unavailable e)
      then \<lparr>fc_category = CAT_AMBIGUOUS_WRITE, fc_retry_after_seconds = None\<rparr>
      else case e of
        GoogleOperationAuthentication _ \<Rightarrow> \<lparr>fc_category = CAT_AUTHENTICATION, fc_retry_after_seconds = None\<rparr>
      | GoogleOperationQuota _ r \<Rightarrow> \<lparr>fc_category = CAT_QUOTA, fc_retry_after_seconds = r\<rparr>
      | GoogleOperationTimeout \<Rightarrow> \<lparr>fc_category = CAT_RETRYABLE, fc_retry_after_seconds = retry_after_of e\<rparr>
      | GoogleOperationUnavailable _ _ \<Rightarrow>
          \<lparr>fc_category = CAT_RETRYABLE, fc_retry_after_seconds = retry_after_of e\<rparr>
      | GoogleOperationRejected _ \<Rightarrow> \<lparr>fc_category = CAT_PERMANENT, fc_retry_after_seconds = None\<rparr>
      | GoogleOperationInternal \<Rightarrow> \<lparr>fc_category = CAT_INTERNAL, fc_retry_after_seconds = None\<rparr>)"

section \<open>Delays\<close>

definition retry_delay_seconds :: "settings \<Rightarrow> int \<Rightarrow> rat option \<Rightarrow> rat \<Rightarrow> rat" where
  "retry_delay_seconds s attempt retry_after random_value =
     (let exponential = min (PROVIDER_RETRY_INITIAL_SECONDS s * 2 ^ nat (max 0 (attempt - 1)))
                            (PROVIDER_RETRY_MAX_SECONDS s);
          jittered = exponential * random_value
      in max jittered (case retry_after of None \<Rightarrow> 0 | Some r \<Rightarrow> r))"

section \<open>Translating raw failures\<close>

definition QUOTA_OR_RATE_LIMIT_REASONS :: "str set" where
  "QUOTA_OR_RATE_LIMIT_REASONS =
     {''dailylimitexceeded'', ''dailylimitexceededunreg'', ''quotaexceeded'', ''ratelimitexceeded'',
      ''resourceexhausted'', ''userratelimitexceeded''}"

text \<open>\<open>str.isalnum\<close> for one Latin-1 character.\<close>

definition is_alnum :: "char \<Rightarrow> bool" where
  "is_alnum c = (let n = (of_char c :: nat) in
     48 \<le> n \<and> n \<le> 57 \<or> 65 \<le> n \<and> n \<le> 90 \<or> 97 \<le> n \<and> n \<le> 122 \<or>
     n \<in> {170, 178, 179, 181, 185, 186, 188, 189, 190} \<or> 192 \<le> n \<and> n \<noteq> 215 \<and> n \<noteq> 247)"

definition normalized_google_error_reason :: "json option \<Rightarrow> str option" where
  "normalized_google_error_reason value =
     (case value of
        Some (JStr s) \<Rightarrow> (let normalized = filter is_alnum (casefold s)
                          in if normalized = [] then None else Some normalized)
      | _ \<Rightarrow> None)"

definition dict_items :: "json option \<Rightarrow> json list" where
  "dict_items j = (case j of Some (JArr js) \<Rightarrow> filter is_jobj js | _ \<Rightarrow> [])"

text \<open>The body of an HTTP error, already decoded: \<open>None\<close> when it is not UTF-8 JSON text.\<close>

definition google_http_error_reasons :: "json option \<Rightarrow> str set" where
  "google_http_error_reasons payload =
     (case payload of
        None \<Rightarrow> {}
      | Some body \<Rightarrow>
          (case jget ''error'' body of
             Some (JObj e) \<Rightarrow>
               let structured = JObj e # dict_items (map_of e ''errors'') @ dict_items (map_of e ''details'')
               in set (List.map_filter normalized_google_error_reason
                     (concat (map (\<lambda>item. [jget ''reason'' item, jget ''status'' item]) structured)))
           | _ \<Rightarrow> {}))"

text \<open>
  What a dispatch can raise. \<open>CancelledError\<close> is the cancellation of the waiting task;
  an \<open>OtherFailure\<close> carries the exception class name and its code or message.
\<close>

datatype raw_failure =
    ProviderOperationTimeout
  | ProviderCapacityExceeded
  | HttpError "int option" "rat option" "json option"
  | TransportError
  | ProviderError google_error
  | CancelledError
  | OtherFailure str str

definition is_google_quota_or_rate_limit_error :: "json option \<Rightarrow> bool" where
  "is_google_quota_or_rate_limit_error body =
     (google_http_error_reasons body \<inter> QUOTA_OR_RATE_LIMIT_REASONS \<noteq> {})"

definition translate_google_error :: "raw_failure \<Rightarrow> google_error" where
  "translate_google_error f =
     (case f of
        ProviderOperationTimeout \<Rightarrow> GoogleOperationTimeout
      | ProviderCapacityExceeded \<Rightarrow> GoogleOperationUnavailable None None
      | HttpError status retry_after body \<Rightarrow>
          (if status = Some 403 \<and> is_google_quota_or_rate_limit_error body
           then GoogleOperationQuota status retry_after
           else if status \<in> {Some 401, Some 403} then GoogleOperationAuthentication status
           else if status = Some 429 then GoogleOperationQuota status retry_after
           else if (case status of Some n \<Rightarrow> 500 \<le> n | None \<Rightarrow> False)
           then GoogleOperationUnavailable status retry_after
           else GoogleOperationRejected status)
      | TransportError \<Rightarrow> GoogleOperationUnavailable None None
      | _ \<Rightarrow> GoogleOperationInternal)"

section \<open>One bounded operation\<close>

text \<open>
  What leaves \<open>run_google_operation\<close>: a stable provider error, or an exception it lets
  through (cancellation and the classes named in \<open>passthrough\<close>).
\<close>

datatype op_failure = GoogleFailure google_error | Propagated raw_failure

text \<open>The resource lock, when there is a resource: how long the wait took, or that it timed out.\<close>

datatype lock_wait = NoLock | LockTimedOut | LockAcquiredAfter rat

definition translate_failure :: "(raw_failure \<Rightarrow> bool) \<Rightarrow> raw_failure \<Rightarrow> op_failure" where
  "translate_failure passthrough f =
     (if f = CancelledError then Propagated f
      else if passthrough f then Propagated f
      else case f of ProviderError e \<Rightarrow> GoogleFailure e | _ \<Rightarrow> GoogleFailure (translate_google_error f))"

text \<open>
  \<open>run timeout\<close> is the runner's outcome for that timeout. The second component is the
  timeout of the dispatch, \<open>None\<close> when the operation never reached the runner.
\<close>

definition run_google_operation ::
  "(raw_failure \<Rightarrow> bool) \<Rightarrow> lock_wait \<Rightarrow> rat \<Rightarrow> (rat \<Rightarrow> raw_failure + 'a) \<Rightarrow>
   (op_failure + 'a) \<times> rat option" where
  "run_google_operation passthrough lock operation_timeout run =
     (let dispatch = (\<lambda>t. (case run t of Inr v \<Rightarrow> Inr v | Inl f \<Rightarrow> Inl (translate_failure passthrough f), Some t))
      in case lock of
           NoLock \<Rightarrow> dispatch operation_timeout
         | LockTimedOut \<Rightarrow> (Inl (translate_failure passthrough (ProviderError GoogleOperationTimeout)), None)
         | LockAcquiredAfter waited \<Rightarrow>
             let remaining_timeout = operation_timeout - waited in
             if remaining_timeout \<le> 0
             then (Inl (translate_failure passthrough (ProviderError GoogleOperationTimeout)), None)
             else dispatch remaining_timeout)"

section \<open>The retry loop\<close>

text \<open>
  \<open>start_time n\<close> and \<open>failed_time n\<close> are the event-loop times read at the head of
  attempt \<open>n\<close> and after its failure, \<open>jitter n\<close> the random value drawn for its delay,
  \<open>lock_of n\<close> its wait for the resource lock and \<open>outcome n\<close> what the runner does with
  it. The result carries a trace: for every attempt, its outcome and the timeout of its dispatch.
\<close>

record 'a retry_env =
  outcome :: "nat \<Rightarrow> rat \<Rightarrow> raw_failure + 'a"
  lock_of :: "nat \<Rightarrow> lock_wait"
  start_time :: "nat \<Rightarrow> rat"
  failed_time :: "nat \<Rightarrow> rat"
  jitter :: "nat \<Rightarrow> rat"

type_synonym 'a attempt_trace = "((op_failure + 'a) \<times> rat option) list"

definition no_passthrough :: "raw_failure \<Rightarrow> bool" where
  "no_passthrough f = False"

fun retry_loop ::
  "settings \<Rightarrow> operation_safety \<Rightarrow> 'a retry_env \<Rightarrow> rat \<Rightarrow> nat \<Rightarrow> nat \<Rightarrow>
   (op_failure + 'a) \<times> 'a attempt_trace" where
  "retry_loop s safety env deadline attempt 0 = (Inl (GoogleFailure GoogleOperationInternal), [])"
| "retry_loop s safety env deadline attempt (Suc left) =
     (let remaining_duration = deadline - start_time env attempt in
      if remaining_duration \<le> 0 then (Inl (GoogleFailure GoogleOperationTimeout), [])
      else
        let attempt_timeout = min (PROVIDER_TIMEOUT_SECONDS s) remaining_duration;
            entry = run_google_operation no_passthrough (lock_of env attempt) attempt_timeout (outcome env attempt)
        in case fst entry of
             Inl (GoogleFailure e) \<Rightarrow>
               let failure = classify_google_error e safety in
               if \<not> retryable failure \<or> int attempt \<ge> PROVIDER_RETRY_MAX_ATTEMPTS s then (fst entry, [entry])
               else
                 let delay = retry_delay_seconds s (int attempt) (fc_retry_after_seconds failure)
                               (jitter env attempt)
                 in if failed_time env attempt + delay \<ge> deadline then (fst entry, [entry])
                    else let rest = retry_loop s safety env deadline (Suc attempt) left
                         in (fst rest, entry # snd rest)
           | _ \<Rightarrow> (fst entry, [entry]))"

definition run_google_retryable_operation ::
  "settings \<Rightarrow> operation_safety \<Rightarrow> rat \<Rightarrow> 'a retry_env \<Rightarrow> (op_failure + 'a) \<times> 'a attempt_trace" where
  "run_google_retryable_operation s safety now env =
     (if safety = AMBIGUOUS_WRITE
      then let entry = run_google_operation no_passthrough (lock_of env 1) (PROVIDER_TIMEOUT_SECONDS s) (outcome env 1)
           in (fst entry, [entry])
      else retry_loop s safety env (now + PROVIDER_RETRY_DEADLINE_SECONDS s) 1
             (nat (PROVIDER_RETRY_MAX_ATTEMPTS s)))"

definition execute_google_request ::
  "settings \<Rightarrow> 'a retry_env \<Rightarrow> (op_failure + 'a) \<times> 'a attempt_trace" where
  "execute_google_request s env =
     (let entry = run_google_operation no_passthrough (lock_of env 1) (PROVIDER_TIMEOUT_SECONDS s) (outcome env 1)
      in (fst entry, [entry]))"

definition execute_google_read_request ::
  "settings \<Rightarrow> rat \<Rightarrow> 'a retry_env \<Rightarrow> (op_failure + 'a) \<times> 'a attempt_trace" where
  "execute_google_read_request s now env = run_google_retryable_operation s READ now env"

definition execute_google_idempotent_request ::
  "settings \<Rightarrow> rat \<Rightarrow> 'a retry_env \<Rightarrow> (op_failure + 'a) \<times> 'a attempt_trace" where
  "execute_google_idempotent_request s now env = run_google_retryable_operation s IDEMPOTENT_WRITE now env"

section \<open>Lemmas\<close>

text \<open>A timeout dispatched by one bounded operation lies within what the operation was given.\<close>

definition lock_sane :: "lock_wait \<Rightarrow> bool" where
  "lock_sane l = (case l of LockAcquiredAfter w \<Rightarrow> 0 \<le> w | _ \<Rightarrow> True)"

lemma dispatch_timeout:
  assumes "run_google_operation p l timeout run = (r, Some t)" and "0 < timeout" and "lock_sane l"
  shows "0 < t \<and> t \<le> timeout"
  using assms by (auto simp: run_google_operation_def Let_def lock_sane_def split: lock_wait.splits if_splits)

lemma retryable_classify:
  "retryable (classify_google_error e safety) \<longleftrightarrow>
     safety \<noteq> AMBIGUOUS_WRITE \<and> (e = GoogleOperationTimeout \<or> is_unavailable e)"
  by (cases e) (auto simp: retryable_def classify_google_error_def)

lemma retry_loop_length: "length (snd (retry_loop s safety env d n left)) \<le> left"
  by (induction left arbitrary: n) (auto simp: Let_def split: sum.splits op_failure.splits)

text \<open>What the loop promises of its trace.\<close>

fun may_retry :: "operation_safety \<Rightarrow> op_failure + 'a \<Rightarrow> bool" where
  "may_retry safety (Inl (GoogleFailure e)) = retryable (classify_google_error e safety)"
| "may_retry safety _ = False"

definition trace_retries_ok :: "operation_safety \<Rightarrow> 'a attempt_trace \<Rightarrow> bool" where
  "trace_retries_ok safety tr = list_all (\<lambda>entry. may_retry safety (fst entry)) (butlast tr)"

definition trace_timeouts_ok :: "rat \<Rightarrow> 'a attempt_trace \<Rightarrow> bool" where
  "trace_timeouts_ok bound tr =
     list_all (\<lambda>entry. case snd entry of None \<Rightarrow> True | Some t \<Rightarrow> 0 < t \<and> t \<le> bound) tr"

lemma retry_loop_retries: "trace_retries_ok safety (snd (retry_loop s safety env d n left))"
  by (induction left arbitrary: n)
     (auto simp: Let_def trace_retries_ok_def split: sum.splits op_failure.splits)

lemma retry_loop_timeouts:
  assumes "0 < PROVIDER_TIMEOUT_SECONDS s" and "\<And>n. lock_sane (lock_of env n)"
  shows "trace_timeouts_ok (PROVIDER_TIMEOUT_SECONDS s) (snd (retry_loop s safety env d n left))"
proof (induction left arbitrary: n)
  case (Suc left)
  define entry where "entry = run_google_operation no_passthrough (lock_of env n)
    (min (PROVIDER_TIMEOUT_SECONDS s) (d - start_time env n)) (outcome env n)"
  have "0 < t \<and> t \<le> PROVIDER_TIMEOUT_SECONDS s"
    if "0 < d - start_time env n" and "snd entry = Some t" for t
  proof -
    have "entry = (fst entry, Some t)" using that(2) by (metis prod.collapse)
    then show ?thesis
      using dispatch_timeout [OF _ _ assms(2), of no_passthrough n _ "outcome env n" "fst entry" t] that(1) assms(1)
      unfolding entry_def by fastforce
  qed
  then show ?case using Suc.IH [of "Suc n"]
    by (auto simp: Let_def trace_timeouts_ok_def entry_def [symmetric] split: sum.splits op_failure.splits option.splits)
qed (simp add: trace_timeouts_ok_def)

lemma retry_loop_result:
  assumes "int n + int left = PROVIDER_RETRY_MAX_ATTEMPTS s + 1" and "0 < left"
  shows "fst (retry_loop s safety env d n left) = Inl (GoogleFailure GoogleOperationTimeout) \<or>
    snd (retry_loop s safety env d n left) \<noteq> [] \<and>
    fst (retry_loop s safety env d n left) = fst (last (snd (retry_loop s safety env d n left)))"
  using assms
proof (induction left arbitrary: n)
  case (Suc left)
  show ?case
  proof (cases "left = 0")
    case True
    then show ?thesis using Suc.prems by (auto simp: Let_def split: sum.splits op_failure.splits)
  next
    case False
    then have "0 < left" by simp
    with Suc.IH [of "Suc n"] Suc.prems show ?thesis
      by (auto simp: Let_def split: sum.splits op_failure.splits)
  qed
qed simp

section \<open>Properties\<close>

text \<open>
  C31. The adapter never retries an ordinary write: whatever the provider does, an ambiguous
  write makes one attempt and hence at most one dispatch. A read or an idempotent write makes at
  most \<open>PROVIDER_RETRY_MAX_ATTEMPTS\<close> attempts, every attempt but the last ended in a failure
  classified as retryable, and every dispatch has a positive timeout within the provider timeout.
\<close>

theorem retry_discipline:
  assumes "settings_ok s" and "\<And>n. lock_sane (lock_of env n)"
  shows "length (snd (run_google_retryable_operation s safety now env))
           \<le> (if safety = AMBIGUOUS_WRITE then 1 else nat (PROVIDER_RETRY_MAX_ATTEMPTS s))
       \<and> trace_retries_ok safety (snd (run_google_retryable_operation s safety now env))
       \<and> trace_timeouts_ok (PROVIDER_TIMEOUT_SECONDS s) (snd (run_google_retryable_operation s safety now env))"
proof -
  have pos: "0 < PROVIDER_TIMEOUT_SECONDS s" using assms(1) by (simp add: settings_defs)
  have "0 < t \<and> t \<le> PROVIDER_TIMEOUT_SECONDS s"
    if "run_google_operation no_passthrough (lock_of env 1) (PROVIDER_TIMEOUT_SECONDS s) (outcome env 1)
          = (r, Some t)" for r t
    using dispatch_timeout [OF that pos assms(2)] .
  then show ?thesis
    using retry_loop_length [of s safety env "now + PROVIDER_RETRY_DEADLINE_SECONDS s" 1]
      retry_loop_retries [of safety s env "now + PROVIDER_RETRY_DEADLINE_SECONDS s" 1]
      retry_loop_timeouts [OF pos assms(2), of safety "now + PROVIDER_RETRY_DEADLINE_SECONDS s" 1]
    by (auto simp: run_google_retryable_operation_def Let_def trace_retries_ok_def trace_timeouts_ok_def
        split: option.splits simp del: retry_loop.simps)
       (metis prod.collapse)+
qed

definition flaky_env :: "str retry_env" where
  "flaky_env = \<lparr>outcome = (\<lambda>n t. if n < 3 then Inl TransportError else Inr ''ok''),
     lock_of = (\<lambda>n. LockAcquiredAfter 1), start_time = of_nat, failed_time = of_nat, jitter = (\<lambda>n. 1 / 2)\<rparr>"

lemma retry_discipline_witness:
  "length (snd (run_google_retryable_operation default_settings AMBIGUOUS_WRITE 0 flaky_env)) \<le> 1"
  using retry_discipline [of default_settings flaky_env AMBIGUOUS_WRITE 0] default_settings_ok
  by (simp add: flaky_env_def lock_sane_def)

text \<open>
  The result of a retried operation is always that of its last attempt, or the timeout
  raised when the deadline had passed before an attempt could start: the closing
  \<open>raise GoogleOperationInternal()\<close> of the loop is unreachable under the settings' bounds.
\<close>

lemma retry_result_is_last_attempt:
  assumes "settings_ok s"
  shows "fst (run_google_retryable_operation s safety now env) = Inl (GoogleFailure GoogleOperationTimeout) \<or>
    snd (run_google_retryable_operation s safety now env) \<noteq> [] \<and>
    fst (run_google_retryable_operation s safety now env)
      = fst (last (snd (run_google_retryable_operation s safety now env)))"
  using retry_loop_result [of 1 "nat (PROVIDER_RETRY_MAX_ATTEMPTS s)" s safety env] assms
  by (auto simp: run_google_retryable_operation_def Let_def settings_defs)

text \<open>
  The backoff before a retry is the capped exponential scaled by the jitter, raised to the
  provider's \<open>Retry-After\<close>: it lies between zero and the larger of the two, and without
  \<open>Retry-After\<close> never exceeds \<open>PROVIDER_RETRY_MAX_SECONDS\<close>.
\<close>

lemma retry_delay_bounds:
  assumes "settings_ok s" and "0 \<le> random_value" and "random_value < 1"
  shows "0 \<le> retry_delay_seconds s attempt retry_after random_value \<and>
    retry_delay_seconds s attempt retry_after random_value
      \<le> max (PROVIDER_RETRY_MAX_SECONDS s) (case retry_after of None \<Rightarrow> 0 | Some r \<Rightarrow> r) \<and>
    (case retry_after of None \<Rightarrow> True | Some r \<Rightarrow> r \<le> retry_delay_seconds s attempt retry_after random_value)"
proof -
  define ex where "ex = min (PROVIDER_RETRY_INITIAL_SECONDS s * 2 ^ nat (max 0 (attempt - 1)))
                            (PROVIDER_RETRY_MAX_SECONDS s)"
  have ex: "0 \<le> ex" "ex \<le> PROVIDER_RETRY_MAX_SECONDS s"
    using assms(1) by (auto simp: ex_def settings_defs)
  have "ex * random_value \<le> ex * 1" using ex(1) assms(3) by (intro mult_left_mono) auto
  then have "0 \<le> ex * random_value" "ex * random_value \<le> PROVIDER_RETRY_MAX_SECONDS s"
    using ex assms(2) by auto
  then show ?thesis
    unfolding retry_delay_seconds_def Let_def ex_def [symmetric] by (auto split: option.splits)
qed

lemma retry_delay_bounds_witness:
  "retry_delay_seconds default_settings 5 (Some 7) (1 / 2) \<le> 7"
  using retry_delay_bounds [OF default_settings_ok, of "1 / 2" 5 "Some 7"]
  by (simp add: default_settings_def)

end
