(* ===== verification/Action_Handlers.thy ===== *)
theory Action_Handlers
  imports Action_Payloads Google_Adapter
begin

text \<open>
  Provider dispatch and reconciliation of one approved command
  (\<open>server/services/action_handlers.py\<close>, with the message builders of
  \<open>tools/utils.py\<close>). The Google services are an oracle that answers each call, possibly
  depending on everything called before; every dispatched call and what its caller saw is appended
  to a history, so that the number and the fate of provider writes can be stated.

  Exceptions other than the two action outcomes and the provider errors keep their Python class
  name. A paging loop that runs in a worker thread takes a bound on the pages the thread reads
  before the operation's deadline: beyond it the caller sees the timeout.
\<close>

section \<open>Library functions and services\<close>

record handler_lib =
  hl_payload :: payload_lib
  sha256_hex :: "str \<Rightarrow> str"
  getaddresses :: "str \<Rightarrow> str list"
  raw_of :: "(str \<times> str) list \<Rightarrow> str \<Rightarrow> str option"

datatype provider_call =
    MessagesSend "str" "str option"
  | EventsInsert json str
  | TasklistsInsert str
  | TasksInsert json json
  | MessagesList str "str option"
  | MessagesGet json
  | EventsGet str
  | TasklistsList "str option"
  | TasksList json "str option"

type_synonym history = "(provider_call \<times> (raw_failure + json)) list"

datatype runner_fate = RunnerCompletes | RunnerTimesOut | RunnerFull

record services =
  sv_settings :: settings
  sv_respond :: "history \<Rightarrow> nat \<Rightarrow> provider_call \<Rightarrow> rat \<Rightarrow> raw_failure + json"
  sv_lock :: "history \<Rightarrow> nat \<Rightarrow> lock_wait"
  sv_clock :: "history \<Rightarrow> rat"
  sv_start :: "history \<Rightarrow> nat \<Rightarrow> rat"
  sv_failed :: "history \<Rightarrow> nat \<Rightarrow> rat"
  sv_jitter :: "history \<Rightarrow> nat \<Rightarrow> rat"
  sv_fate :: "history \<Rightarrow> runner_fate"
  sv_pages :: nat

definition request_env :: "services \<Rightarrow> history \<Rightarrow> provider_call \<Rightarrow> json retry_env" where
  "request_env sv h call = \<lparr>outcome = (\<lambda>n t. sv_respond sv h n call t), lock_of = sv_lock sv h,
     start_time = sv_start sv h, failed_time = sv_failed sv h, jitter = sv_jitter sv h\<rparr>"

text \<open>The calls that reached the runner, with the answers the adapter saw.\<close>

definition dispatched_calls :: "json retry_env \<Rightarrow> provider_call \<Rightarrow> json attempt_trace \<Rightarrow> history" where
  "dispatched_calls env call tr =
     concat (map (\<lambda>(n, entry). case snd entry of None \<Rightarrow> [] | Some t \<Rightarrow> [(call, outcome env n t)])
       (enumerate 1 tr))"

definition call_once :: "services \<Rightarrow> provider_call \<Rightarrow> history \<Rightarrow> (op_failure + json) \<times> history" where
  "call_once sv call h =
     (let env = request_env sv h call; r = execute_google_request (sv_settings sv) env
      in (fst r, h @ dispatched_calls env call (snd r)))"

definition call_read :: "services \<Rightarrow> provider_call \<Rightarrow> history \<Rightarrow> (op_failure + json) \<times> history" where
  "call_read sv call h =
     (let env = request_env sv h call; r = execute_google_read_request (sv_settings sv) (sv_clock sv h) env
      in (fst r, h @ dispatched_calls env call (snd r)))"

text \<open>A call made inside a worker thread.\<close>

definition call_sync :: "services \<Rightarrow> provider_call \<Rightarrow> history \<Rightarrow> (raw_failure + json) \<times> history" where
  "call_sync sv call h =
     (let r = sv_respond sv h 1 call (PROVIDER_TIMEOUT_SECONDS (sv_settings sv)) in (r, h @ [(call, r)]))"

text \<open>
  A whole worker-thread job under \<open>run_google_operation\<close>. When the runner times out the
  caller sees the timeout while the thread goes on: the history is that of the complete job.
\<close>

definition run_job ::
  "services \<Rightarrow> (raw_failure \<Rightarrow> bool) \<Rightarrow> (history \<Rightarrow> (raw_failure + 'a) \<times> history) \<Rightarrow> history \<Rightarrow>
   (op_failure + 'a) \<times> history" where
  "run_job sv passthrough job h =
     (let fate = sv_fate sv h;
          r = run_google_operation passthrough (sv_lock sv h 1) (PROVIDER_TIMEOUT_SECONDS (sv_settings sv))
                (\<lambda>t. case fate of RunnerCompletes \<Rightarrow> fst (job h)
                       | RunnerTimesOut \<Rightarrow> Inl ProviderOperationTimeout
                       | RunnerFull \<Rightarrow> Inl ProviderCapacityExceeded)
      in (fst r, if snd r = None \<or> fate = RunnerFull then h else snd (job h)))"

text \<open>Sequencing of calls that may fail.\<close>

definition bind_call ::
  "('e + 'a) \<times> history \<Rightarrow> ('a \<Rightarrow> history \<Rightarrow> ('e + 'b) \<times> history) \<Rightarrow> ('e + 'b) \<times> history" where
  "bind_call m f = (case m of (Inl e, h) \<Rightarrow> (Inl e, h) | (Inr v, h) \<Rightarrow> f v h)"

section \<open>Reading provider answers\<close>

text \<open>\<open>d.get(k)\<close> and \<open>d[k]\<close> on a value that should be a dictionary.\<close>

definition py_get :: "str \<Rightarrow> json \<Rightarrow> raw_failure + json option" where
  "py_get k j = (if is_jobj j then Inr (jget k j) else Inl (OtherFailure ''AttributeError'' ''get''))"

definition py_item :: "str \<Rightarrow> json \<Rightarrow> raw_failure + json" where
  "py_item k j = (if is_jobj j
     then case jget k j of Some v \<Rightarrow> Inr v | None \<Rightarrow> Inl (OtherFailure ''KeyError'' k)
     else Inl (OtherFailure ''TypeError'' k))"

text \<open>\<open>(response or {}).get(k, [])\<close>, to be read as a list.\<close>

definition or_empty :: "json \<Rightarrow> json" where
  "or_empty j = (if truthy (Some j) then j else JObj [])"

definition get_list :: "str \<Rightarrow> json \<Rightarrow> raw_failure + json list" where
  "get_list k j =
     (case py_get k (or_empty j) of
        Inl e \<Rightarrow> Inl e
      | Inr None \<Rightarrow> Inr []
      | Inr (Some (JArr js)) \<Rightarrow> Inr js
      | Inr (Some _) \<Rightarrow> Inl (OtherFailure ''TypeError'' k))"

text \<open>A page token to follow: \<open>None\<close> when it is absent or false.\<close>

definition next_page_token :: "json \<Rightarrow> str option" where
  "next_page_token j = (case jget ''nextPageToken'' (or_empty j) of
     Some (JStr s) \<Rightarrow> (if s = [] then None else Some s) | _ \<Rightarrow> None)"

fun get_header_value :: "json list \<Rightarrow> str \<Rightarrow> raw_failure + json option" where
  "get_header_value [] name = Inr None"
| "get_header_value (item # hs) name =
     (case item of
        JObj kvs \<Rightarrow>
          (case (case map_of kvs ''name'' of None \<Rightarrow> JStr [] | Some v \<Rightarrow> v) of
             JStr n \<Rightarrow> if lower n = lower name then Inr (map_of kvs ''value'') else get_header_value hs name
           | _ \<Rightarrow> Inl (OtherFailure ''AttributeError'' ''lower''))
      | _ \<Rightarrow> Inl (OtherFailure ''AttributeError'' ''get''))"

section \<open>Markers and messages\<close>

definition provider_for_action :: "str \<Rightarrow> str option" where
  "provider_for_action action_type =
     (if action_type = ''send_email'' \<or> action_type = ''send_reply'' then Some ''gmail''
      else if action_type = ''create_event'' then Some ''calendar''
      else if action_type = ''create_task'' then Some ''tasks''
      else None)"

definition gmail_message_id :: "handler_lib \<Rightarrow> str \<Rightarrow> str" where
  "gmail_message_id lib command_key =
     ''<onebox.'' @ take 32 (sha256_hex lib command_key) @ ''@onebox.invalid>''"

definition calendar_event_id :: "handler_lib \<Rightarrow> str \<Rightarrow> str" where
  "calendar_event_id lib command_key = ''ob'' @ take 40 (sha256_hex lib command_key)"

definition task_marker :: "str \<Rightarrow> str" where
  "task_marker command_key = ''[onebox-command-key:'' @ command_key @ '']''"

definition marker_headers :: "str \<Rightarrow> (str \<times> str) list" where
  "marker_headers command_key = [(''X-OneBox-Command-Key'', command_key)]"

text \<open>
  The header list of a message; \<open>raw_of\<close> flattens and encodes it with its plain-text part,
  or raises (\<open>None\<close>) on a header the \<open>email\<close> package refuses to write.
\<close>

definition create_raw_message ::
  "handler_lib \<Rightarrow> str \<Rightarrow> str list \<Rightarrow> str \<Rightarrow> str \<Rightarrow> str \<Rightarrow> (str \<times> str) list \<Rightarrow> raw_failure + str" where
  "create_raw_message lib sender recipients subject message_text message_id extra_headers =
     (case raw_of lib
        ([(''to'', join '', '' recipients), (''from'', sender), (''subject'', subject),
          (''Message-ID'', message_id)] @ extra_headers) message_text of
        Some raw \<Rightarrow> Inr raw
      | None \<Rightarrow> Inl (OtherFailure ''HeaderWriteError'' []))"

definition reply_subject :: "str \<Rightarrow> str" where
  "reply_subject subject = (if starts_with ''re:'' (lower subject) then subject else ''Re: '' @ subject)"

definition reply_references :: "str \<Rightarrow> str \<Rightarrow> str" where
  "reply_references original_references original_message_id =
     (if contains original_message_id original_references then original_references
      else strip (original_references @ '' '' @ original_message_id))"

definition create_raw_reply_message ::
  "handler_lib \<Rightarrow> str \<Rightarrow> str list \<Rightarrow> str \<Rightarrow> str \<Rightarrow> str \<Rightarrow> str \<Rightarrow> str \<Rightarrow> (str \<times> str) list \<Rightarrow> raw_failure + str" where
  "create_raw_reply_message lib sender recipients subject message_text original_message_id
     original_references message_id extra_headers =
     (case raw_of lib
        ([(''to'', join '', '' recipients), (''from'', sender), (''subject'', reply_subject subject),
          (''In-Reply-To'', original_message_id),
          (''References'', reply_references original_references original_message_id),
          (''Message-ID'', message_id)] @ extra_headers) message_text of
        Some raw \<Rightarrow> Inr raw
      | None \<Rightarrow> Inl (OtherFailure ''HeaderWriteError'' []))"

section \<open>Dispatch\<close>

datatype action_failure =
    ConfirmedActionFailure str
  | AmbiguousActionOutcome str
  | UnexpectedFailure raw_failure

text \<open>The command the handler reads from the action mapping.\<close>

record command =
  cmd_action_type :: str
  cmd_payload :: payload
  cmd_key :: str

definition CONFIRMED :: str where
  "CONFIRMED = ''ConfirmedActionFailure''"

definition AMBIGUOUS :: str where
  "AMBIGUOUS = ''AmbiguousActionOutcome''"

definition action_passthrough :: "raw_failure \<Rightarrow> bool" where
  "action_passthrough f = (case f of OtherFailure cls _ \<Rightarrow> cls = CONFIRMED \<or> cls = AMBIGUOUS | _ \<Rightarrow> False)"

definition pjson :: "payload \<Rightarrow> str \<Rightarrow> json" where
  "pjson p k = (case map_of p k of Some j \<Rightarrow> j | None \<Rightarrow> JNull)"

definition pstr :: "payload \<Rightarrow> str \<Rightarrow> str" where
  "pstr p k = (case map_of p k of Some (JStr s) \<Rightarrow> s | _ \<Rightarrow> [])"

definition str_int :: "int \<Rightarrow> str" where
  "str_int n = (if n < 0 then CHR ''-'' # str_nat (nat (- n)) else str_nat (nat n))"

text \<open>The \<open>except\<close> clauses of \<open>execute_action\<close>.\<close>

definition rejection_code :: "int option \<Rightarrow> str" where
  "rejection_code status = ''provider_rejected_'' @
     (case status of Some n \<Rightarrow> if n = 0 then ''unknown'' else str_int n | None \<Rightarrow> ''unknown'')"

definition dispatch_failure :: "str \<Rightarrow> op_failure \<Rightarrow> action_failure" where
  "dispatch_failure action_type f =
     (case f of
        Propagated (OtherFailure cls code) \<Rightarrow>
          if cls = CONFIRMED then ConfirmedActionFailure code
          else if cls = AMBIGUOUS then AmbiguousActionOutcome code
          else UnexpectedFailure (OtherFailure cls code)
      | Propagated raw \<Rightarrow> UnexpectedFailure raw
      | GoogleFailure e \<Rightarrow>
          if is_rejected e
          then if action_type = ''create_event'' \<and> status_code e = Some 409
               then AmbiguousActionOutcome ''calendar_id_conflict''
               else ConfirmedActionFailure (rejection_code (status_code e))
          else AmbiguousActionOutcome ''provider_outcome_unknown'')"

text \<open>
  One write and the check of its answer: a false answer or one without an id is ambiguous.
\<close>

definition dispatch_write ::
  "services \<Rightarrow> str \<Rightarrow> provider_call \<Rightarrow> str \<Rightarrow> (json \<Rightarrow> (str \<times> json) list) \<Rightarrow> history \<Rightarrow>
   (action_failure + (str \<times> json) list) \<times> history" where
  "dispatch_write sv action_type call unconfirmed result h =
     (case call_once sv call h of
        (Inl f, h') \<Rightarrow> (Inl (dispatch_failure action_type f), h')
      | (Inr answer, h') \<Rightarrow>
          (if \<not> truthy (Some answer) then Inl (AmbiguousActionOutcome unconfirmed)
           else case py_get ''id'' answer of
             Inl e \<Rightarrow> Inl (UnexpectedFailure e)
           | Inr j \<Rightarrow> if truthy j then Inr (result (the j)) else Inl (AmbiguousActionOutcome unconfirmed), h'))"

definition event_body :: "handler_lib \<Rightarrow> command \<Rightarrow> payload \<Rightarrow> json" where
  "event_body lib cmd p =
     (let event_id = calendar_event_id lib (cmd_key cmd);
          attendees = (case pjson p ''attendee_emails'' of JArr es \<Rightarrow> map (\<lambda>e. JObj [(''email'', e)]) es | _ \<Rightarrow> [])
      in JObj
       [(''id'', JStr event_id), (''summary'', pjson p ''title''), (''location'', pjson p ''location''),
        (''description'', pjson p ''description''),
        (''start'', JObj [(''dateTime'', pjson p ''start_time_iso''), (''timeZone'', pjson p ''event_timezone'')]),
        (''end'', JObj [(''dateTime'', pjson p ''end_time_iso''), (''timeZone'', pjson p ''event_timezone'')]),
        (''attendees'', JArr attendees), (''reminders'', JObj [(''useDefault'', JBool True)]),
        (''extendedProperties'', JObj [(''private'', JObj [(''oneboxCommandKey'', JStr (cmd_key cmd))])]),
        (''conferenceData'', JObj [(''createRequest'', JObj [(''requestId'', JStr event_id),
           (''conferenceSolutionKey'', JObj [(''type'', JStr ''hangoutsMeet'')])])])])"

definition send_updates :: "payload \<Rightarrow> str" where
  "send_updates p = (if truthy (Some (pjson p ''attendee_emails'')) then ''all'' else ''none'')"

section \<open>Task creation in the worker thread\<close>

fun list_all_tasklists_sync ::
  "services \<Rightarrow> nat \<Rightarrow> str option \<Rightarrow> history \<Rightarrow> (raw_failure + json list) \<times> history" where
  "list_all_tasklists_sync sv 0 page_token h = (Inl ProviderOperationTimeout, h)"
| "list_all_tasklists_sync sv (Suc pages) page_token h =
     bind_call (call_sync sv (TasklistsList page_token) h) (\<lambda>response h'.
       case get_list ''items'' response of
         Inl e \<Rightarrow> (Inl e, h')
       | Inr items \<Rightarrow>
           (case next_page_token response of
              None \<Rightarrow> (Inr items, h')
            | Some tok \<Rightarrow> bind_call (list_all_tasklists_sync sv pages (Some tok) h')
                           (\<lambda>rest h''. (Inr (items @ rest), h''))))"

fun list_all_tasks_sync ::
  "services \<Rightarrow> json \<Rightarrow> nat \<Rightarrow> str option \<Rightarrow> history \<Rightarrow> (raw_failure + json list) \<times> history" where
  "list_all_tasks_sync sv task_list_id 0 page_token h = (Inl ProviderOperationTimeout, h)"
| "list_all_tasks_sync sv task_list_id (Suc pages) page_token h =
     bind_call (call_sync sv (TasksList task_list_id page_token) h) (\<lambda>response h'.
       case get_list ''items'' response of
         Inl e \<Rightarrow> (Inl e, h')
       | Inr items \<Rightarrow>
           (case next_page_token response of
              None \<Rightarrow> (Inr items, h')
            | Some tok \<Rightarrow> bind_call (list_all_tasks_sync sv task_list_id pages (Some tok) h')
                           (\<lambda>rest h''. (Inr (items @ rest), h''))))"

definition EXECUTIVE_LIST :: str where
  "EXECUTIVE_LIST = ''Executive Agent Tasks''"

definition task_notes :: "payload \<Rightarrow> str \<Rightarrow> str" where
  "task_notes p command_key = pstr p ''notes'' @ [CHR 0x0A, CHR 0x0A] @ task_marker command_key"

text \<open>The answer to the insertion, and the insertion into the selected list.\<close>

definition confirm_task :: "json \<Rightarrow> json \<Rightarrow> raw_failure + (str \<times> json) list" where
  "confirm_task task_list_id task =
     (if \<not> truthy (Some task) then Inl (OtherFailure AMBIGUOUS ''task_unconfirmed'')
      else case py_get ''id'' task of
        Inl e \<Rightarrow> Inl e
      | Inr j \<Rightarrow> if truthy j
          then Inr [(''external_id'', the j), (''task_list_id'', task_list_id), (''provider'', JStr ''tasks'')]
          else Inl (OtherFailure AMBIGUOUS ''task_unconfirmed''))"

definition task_body :: "payload \<Rightarrow> str \<Rightarrow> json" where
  "task_body p command_key =
     JObj [(''title'', pjson p ''title''), (''notes'', JStr (task_notes p command_key))]"

definition insert_task ::
  "services \<Rightarrow> payload \<Rightarrow> str \<Rightarrow> bool \<Rightarrow> json \<Rightarrow> history \<Rightarrow> (raw_failure + (str \<times> json) list) \<times> history" where
  "insert_task sv p command_key created_task_list selected h =
     (case (if truthy (Some selected) then py_get ''id'' selected else Inr None) of
        Inl e \<Rightarrow> (Inl e, h)
      | Inr task_list_id \<Rightarrow>
          if \<not> truthy task_list_id
          then (Inl (if created_task_list then OtherFailure AMBIGUOUS ''task_list_unconfirmed''
                     else OtherFailure CONFIRMED ''task_list_not_confirmed''), h)
          else bind_call (call_sync sv (TasksInsert (the task_list_id) (task_body p command_key)) h)
                 (\<lambda>task h'. (confirm_task (the task_list_id) task, h')))"

definition create_task_sync ::
  "services \<Rightarrow> payload \<Rightarrow> str \<Rightarrow> history \<Rightarrow> (raw_failure + (str \<times> json) list) \<times> history" where
  "create_task_sync sv p command_key h =
     bind_call (list_all_tasklists_sync sv (sv_pages sv) None h) (\<lambda>tasklists h1.
       if \<not> list_all is_jobj tasklists then (Inl (OtherFailure ''AttributeError'' ''get''), h1)
       else
         let matching_lists = filter (\<lambda>item. jget ''title'' item = Some (JStr EXECUTIVE_LIST)) tasklists in
         if length matching_lists > 1 then (Inl (OtherFailure CONFIRMED ''task_list_ambiguous''), h1)
         else case matching_lists of
           [] \<Rightarrow> bind_call (call_sync sv (TasklistsInsert EXECUTIVE_LIST) h1)
                  (\<lambda>selected h2. insert_task sv p command_key True selected h2)
         | selected # _ \<Rightarrow> insert_task sv p command_key False selected h1)"

section \<open>Executing an action\<close>

text \<open>
  \<open>gmail\<close>, \<open>calendar\<close> and \<open>tasks\<close> say whether the caller supplied that service.
\<close>

record availability =
  gmail_service :: bool
  calendar_service :: bool
  tasks_service :: bool

definition send_email_command ::
  "handler_lib \<Rightarrow> services \<Rightarrow> command \<Rightarrow> payload \<Rightarrow> history \<Rightarrow> (action_failure + (str \<times> json) list) \<times> history" where
  "send_email_command lib sv cmd p h =
     (case create_raw_message lib (pstr p ''sender_email'') [pstr p ''recipient_email'']
        (pstr p ''subject'') (pstr p ''email_body'') (gmail_message_id lib (cmd_key cmd))
        (marker_headers (cmd_key cmd)) of
        Inl e \<Rightarrow> (Inl (UnexpectedFailure e), h)
      | Inr raw \<Rightarrow> dispatch_write sv ''send_email'' (MessagesSend raw None) ''gmail_unconfirmed''
          (\<lambda>i. [(''external_id'', i), (''provider'', JStr ''gmail'')]) h)"

definition send_reply_command ::
  "handler_lib \<Rightarrow> services \<Rightarrow> command \<Rightarrow> payload \<Rightarrow> history \<Rightarrow> (action_failure + (str \<times> json) list) \<times> history" where
  "send_reply_command lib sv cmd p h =
     (case create_raw_reply_message lib (pstr p ''sender_email'') [pstr p ''recipient_email'']
        (pstr p ''original_subject'') (pstr p ''reply_message'') (pstr p ''original_rfc_message_id'')
        (pstr p ''original_references'') (gmail_message_id lib (cmd_key cmd)) (marker_headers (cmd_key cmd)) of
        Inl e \<Rightarrow> (Inl (UnexpectedFailure e), h)
      | Inr raw \<Rightarrow> dispatch_write sv ''send_reply'' (MessagesSend raw (Some (pstr p ''thread_id'')))
          ''gmail_unconfirmed''
          (\<lambda>i. [(''external_id'', i), (''original_message_id'', pjson p ''original_message_id''),
                (''provider'', JStr ''gmail'')]) h)"

definition create_event_command ::
  "handler_lib \<Rightarrow> services \<Rightarrow> command \<Rightarrow> payload \<Rightarrow> history \<Rightarrow> (action_failure + (str \<times> json) list) \<times> history" where
  "create_event_command lib sv cmd p h =
     dispatch_write sv ''create_event'' (EventsInsert (event_body lib cmd p) (send_updates p))
       ''calendar_unconfirmed'' (\<lambda>i. [(''external_id'', i), (''provider'', JStr ''calendar'')]) h"

definition create_task_command ::
  "services \<Rightarrow> command \<Rightarrow> payload \<Rightarrow> history \<Rightarrow> (action_failure + (str \<times> json) list) \<times> history" where
  "create_task_command sv cmd p h =
     (case run_job sv action_passthrough (create_task_sync sv p (cmd_key cmd)) h of
        (Inl f, h') \<Rightarrow> (Inl (dispatch_failure ''create_task'' f), h')
      | (Inr v, h') \<Rightarrow> (Inr v, h'))"

definition execute_action ::
  "handler_lib \<Rightarrow> services \<Rightarrow> availability \<Rightarrow> command \<Rightarrow> history \<Rightarrow>
   (action_failure + (str \<times> json) list) \<times> history" where
  "execute_action lib sv av cmd h =
     (case canonicalize_action_payload (hl_payload lib) (cmd_action_type cmd) (cmd_payload cmd) of
        None \<Rightarrow> (Inl (ConfirmedActionFailure ''payload_invalid''), h)
      | Some p \<Rightarrow>
          if cmd_action_type cmd = ''send_email'' then
            (if gmail_service av then send_email_command lib sv cmd p h
             else (Inl (ConfirmedActionFailure ''gmail_unavailable_before_dispatch''), h))
          else if cmd_action_type cmd = ''send_reply'' then
            (if gmail_service av then send_reply_command lib sv cmd p h
             else (Inl (ConfirmedActionFailure ''gmail_unavailable_before_dispatch''), h))
          else if cmd_action_type cmd = ''create_event'' then
            (if calendar_service av then create_event_command lib sv cmd p h
             else (Inl (ConfirmedActionFailure ''calendar_unavailable_before_dispatch''), h))
          else if cmd_action_type cmd = ''create_task'' then
            (if tasks_service av then create_task_command sv cmd p h
             else (Inl (ConfirmedActionFailure ''tasks_unavailable_before_dispatch''), h))
          else (Inl (ConfirmedActionFailure ''unsupported_action''), h))"

section \<open>Reconciliation\<close>

datatype reconcile_status = R_SUCCEEDED | R_FAILED | R_RECONCILIATION_REQUIRED

record reconciliation_result =
  rr_status :: reconcile_status
  rr_result :: "(str \<times> json) list option"
  rr_error_code :: "str option"
  rr_evidence :: "(str \<times> json) list"

definition unresolved :: "str \<Rightarrow> (str \<times> json) list \<Rightarrow> reconciliation_result" where
  "unresolved code evidence = \<lparr>rr_status = R_RECONCILIATION_REQUIRED, rr_result = None,
     rr_error_code = Some code, rr_evidence = evidence\<rparr>"

definition not_found :: reconciliation_result where
  "not_found = \<lparr>rr_status = R_FAILED, rr_result = None, rr_error_code = Some ''provider_not_found'',
     rr_evidence = [(''lookup'', JStr ''not_found'')]\<rparr>"

definition proved :: "(str \<times> json) list \<Rightarrow> reconciliation_result" where
  "proved result = \<lparr>rr_status = R_SUCCEEDED, rr_result = Some result, rr_error_code = None,
     rr_evidence = [(''lookup'', JStr ''exact_marker'')]\<rparr>"

text \<open>
  How a lookup ends: with a result, with a provider error or another exception, or still paging
  when the model's page bound is used up (the code's loop has no bound of its own).
\<close>

datatype lookup_end = LookupDone reconciliation_result | LookupFailed op_failure | LookupUnfinished

text \<open>The search for the marker: the matches when the pages end, or the number seen when there is more than one.\<close>

datatype search_end = SearchDone "json list" | SearchConflict nat | SearchFailed op_failure | SearchUnfinished

fun gmail_search ::
  "services \<Rightarrow> str \<Rightarrow> nat \<Rightarrow> str option \<Rightarrow> json list \<Rightarrow> history \<Rightarrow> search_end \<times> history" where
  "gmail_search sv query 0 page_token matches h = (SearchUnfinished, h)"
| "gmail_search sv query (Suc pages) page_token matches h =
     (case call_read sv (MessagesList query page_token) h of
        (Inl f, h') \<Rightarrow> (SearchFailed f, h')
      | (Inr response, h') \<Rightarrow>
          (case get_list ''messages'' response of
             Inl e \<Rightarrow> (SearchFailed (Propagated e), h')
           | Inr found \<Rightarrow>
               let matches' = matches @ found in
               if length matches' > 1 then (SearchConflict (length matches'), h')
               else case next_page_token response of
                      None \<Rightarrow> (SearchDone matches', h')
                    | Some tok \<Rightarrow> gmail_search sv query pages (Some tok) matches' h'))"

text \<open>\<open>get_header_value(...) or ""\<close>, used as text.\<close>

definition header_text :: "json list \<Rightarrow> str \<Rightarrow> raw_failure + str" where
  "header_text headers name =
     (case get_header_value headers name of
        Inl e \<Rightarrow> Inl e
      | Inr (Some (JStr s)) \<Rightarrow> Inr s
      | Inr v \<Rightarrow> if truthy v then Inl (OtherFailure ''AttributeError'' name) else Inr [])"

definition headers_of :: "json \<Rightarrow> raw_failure + json list" where
  "headers_of message =
     (case py_get ''payload'' message of
        Inl e \<Rightarrow> Inl e
      | Inr None \<Rightarrow> Inr []
      | Inr (Some part) \<Rightarrow>
          (case py_get ''headers'' part of
             Inl e \<Rightarrow> Inl e
           | Inr (Some (JArr hs)) \<Rightarrow> Inr hs
           | Inr v \<Rightarrow> if truthy v then Inl (OtherFailure ''AttributeError'' ''get'') else Inr []))"

definition gmail_valid :: "handler_lib \<Rightarrow> command \<Rightarrow> payload \<Rightarrow> json \<Rightarrow> raw_failure + bool" where
  "gmail_valid lib cmd p message =
     (case headers_of message of
        Inl e \<Rightarrow> Inl e
      | Inr headers \<Rightarrow>
          (case (get_header_value headers ''X-OneBox-Command-Key'', header_text headers ''Message-ID'',
                 header_text headers ''To'') of
             (Inr marker, Inr mid, Inr rcpt) \<Rightarrow>
               let recipients = map casefold (filter (\<lambda>a. a \<noteq> []) (getaddresses lib rcpt)) in
               Inr (marker = Some (JStr (cmd_key cmd)) \<and>
                 filter (\<lambda>c. \<not> is_space c) mid = gmail_message_id lib (cmd_key cmd) \<and>
                 pstr p ''recipient_email'' \<in> set recipients \<and>
                 (cmd_action_type cmd = ''send_reply'' \<longrightarrow>
                    jget ''threadId'' message = Some (pjson p ''thread_id'')))
           | (Inl e, _, _) \<Rightarrow> Inl e
           | (_, Inl e, _) \<Rightarrow> Inl e
           | (_, _, Inl e) \<Rightarrow> Inl e))"

definition reconcile_gmail ::
  "handler_lib \<Rightarrow> services \<Rightarrow> command \<Rightarrow> payload \<Rightarrow> history \<Rightarrow> lookup_end \<times> history" where
  "reconcile_gmail lib sv cmd p h =
     (let query = ''rfc822msgid:'' @ [CHR 0x22] @ gmail_message_id lib (cmd_key cmd) @ [CHR 0x22] in
      case gmail_search sv query (sv_pages sv) None [] h of
        (SearchUnfinished, h') \<Rightarrow> (LookupUnfinished, h')
      | (SearchFailed f, h') \<Rightarrow> (LookupFailed f, h')
      | (SearchConflict n, h') \<Rightarrow>
          (LookupDone (unresolved ''gmail_marker_conflict'' [(''match_count'', JInt (int n))]), h')
      | (SearchDone [], h') \<Rightarrow> (LookupDone not_found, h')
      | (SearchDone (m # _), h') \<Rightarrow>
          (case py_item ''id'' m of
             Inl e \<Rightarrow> (LookupFailed (Propagated e), h')
           | Inr i \<Rightarrow>
               (case call_read sv (MessagesGet i) h' of
                  (Inl f, h'') \<Rightarrow> (LookupFailed f, h'')
                | (Inr message, h'') \<Rightarrow>
                    ((case gmail_valid lib cmd p message of
                       Inl e \<Rightarrow> LookupFailed (Propagated e)
                     | Inr False \<Rightarrow>
                         LookupDone (unresolved ''gmail_marker_mismatch'' [(''lookup'', JStr ''marker_mismatch'')])
                     | Inr True \<Rightarrow>
                         (case py_item ''id'' message of
                            Inl e \<Rightarrow> LookupFailed (Propagated e)
                          | Inr mid \<Rightarrow> LookupDone (proved [(''external_id'', mid), (''provider'', JStr ''gmail'')]))),
                     h''))))"

text \<open>\<open>event.get("extendedProperties", {}).get("private", {}).get("oneboxCommandKey")\<close>,
  the last read only when the event has the expected id.\<close>

definition event_marker :: "str \<Rightarrow> json \<Rightarrow> raw_failure + json option" where
  "event_marker event_id event =
     (case py_get ''extendedProperties'' event of
        Inl e \<Rightarrow> Inl e
      | Inr None \<Rightarrow> Inr None
      | Inr (Some props) \<Rightarrow>
          (case py_get ''private'' props of
             Inl e \<Rightarrow> Inl e
           | Inr None \<Rightarrow> Inr None
           | Inr (Some private) \<Rightarrow>
               if jget ''id'' event \<noteq> Some (JStr event_id) then Inr None else py_get ''oneboxCommandKey'' private))"

definition reconcile_calendar ::
  "handler_lib \<Rightarrow> services \<Rightarrow> command \<Rightarrow> history \<Rightarrow> lookup_end \<times> history" where
  "reconcile_calendar lib sv cmd h =
     (let event_id = calendar_event_id lib (cmd_key cmd);
          mismatch = LookupDone (unresolved ''calendar_marker_mismatch'' [(''lookup'', JStr ''marker_mismatch'')]) in
      case call_read sv (EventsGet event_id) h of
        (Inl f, h') \<Rightarrow> (LookupFailed f, h')
      | (Inr event, h') \<Rightarrow>
          (if \<not> truthy (Some event) then mismatch
           else case event_marker event_id event of
             Inl e \<Rightarrow> LookupFailed (Propagated e)
           | Inr marker \<Rightarrow>
               if jget ''id'' event = Some (JStr event_id) \<and> marker = Some (JStr (cmd_key cmd))
               then LookupDone (proved [(''external_id'', JStr event_id), (''provider'', JStr ''calendar'')])
               else mismatch, h'))"

text \<open>One list of the task scan, and the whole scan.\<close>

fun mark_matches :: "str \<Rightarrow> json \<Rightarrow> json list \<Rightarrow> raw_failure + (json \<times> json) list" where
  "mark_matches marker list_id [] = Inr []"
| "mark_matches marker list_id (task # tasks) =
     (case py_get ''notes'' task of
        Inl e \<Rightarrow> Inl e
      | Inr notes \<Rightarrow>
          (case (if truthy notes then (case notes of Some (JStr s) \<Rightarrow> Inr (contains marker s)
                    | _ \<Rightarrow> Inl (OtherFailure ''TypeError'' ''in'')) else Inr (contains marker [])) of
             Inl e \<Rightarrow> Inl e
           | Inr b \<Rightarrow>
               (case mark_matches marker list_id tasks of
                  Inl e \<Rightarrow> Inl e
                | Inr rest \<Rightarrow> Inr (if b then (task, list_id) # rest else rest))))"

fun scan_task_lists ::
  "services \<Rightarrow> str \<Rightarrow> json list \<Rightarrow> history \<Rightarrow> (raw_failure + (json \<times> json) list) \<times> history" where
  "scan_task_lists sv marker [] h = (Inr [], h)"
| "scan_task_lists sv marker (task_list # tasklists) h =
     (case py_get ''id'' task_list of
        Inl e \<Rightarrow> (Inl e, h)
      | Inr list_id \<Rightarrow>
          if \<not> truthy list_id then scan_task_lists sv marker tasklists h
          else bind_call (list_all_tasks_sync sv (the list_id) (sv_pages sv) None h) (\<lambda>tasks h'.
                 case mark_matches marker (the list_id) tasks of
                   Inl e \<Rightarrow> (Inl e, h')
                 | Inr found \<Rightarrow> bind_call (scan_task_lists sv marker tasklists h')
                                 (\<lambda>rest h''. (Inr (found @ rest), h''))))"

definition scan_task_marker_sync ::
  "services \<Rightarrow> str \<Rightarrow> history \<Rightarrow> (raw_failure + (json \<times> json) list) \<times> history" where
  "scan_task_marker_sync sv marker h =
     bind_call (list_all_tasklists_sync sv (sv_pages sv) None h) (scan_task_lists sv marker)"

definition reconcile_task :: "services \<Rightarrow> command \<Rightarrow> history \<Rightarrow> lookup_end \<times> history" where
  "reconcile_task sv cmd h =
     (case run_job sv no_passthrough (scan_task_marker_sync sv (task_marker (cmd_key cmd))) h of
        (Inl f, h') \<Rightarrow> (LookupFailed f, h')
      | (Inr matches, h') \<Rightarrow>
          (case matches of
             [(task, list_id)] \<Rightarrow>
               (case py_item ''id'' task of
                  Inl e \<Rightarrow> LookupFailed (Propagated e)
                | Inr i \<Rightarrow> LookupDone (proved [(''external_id'', i), (''task_list_id'', list_id),
                             (''provider'', JStr ''tasks'')]))
           | _ \<Rightarrow> LookupDone (unresolved (if matches = [] then ''task_marker_not_found'' else ''task_marker_not_unique'')
                     [(''match_count'', JInt (int (length matches)))]), h'))"

text \<open>The \<open>except\<close> clauses of \<open>reconcile_action\<close>.\<close>

definition lookup_outcome :: "str \<Rightarrow> lookup_end \<Rightarrow> lookup_end" where
  "lookup_outcome action_type e =
     (case e of
        LookupFailed (GoogleFailure g) \<Rightarrow>
          LookupDone
            (if is_rejected g
             then if action_type \<noteq> ''create_task'' \<and> status_code g = Some 404 then not_found
                  else unresolved ''reconciliation_lookup_rejected''
                    [(''status'', case status_code g of None \<Rightarrow> JNull | Some n \<Rightarrow> JInt n)]
             else unresolved ''reconciliation_lookup_unavailable'' [(''lookup'', JStr ''unavailable'')])
      | _ \<Rightarrow> e)"

definition reconcile_action ::
  "handler_lib \<Rightarrow> services \<Rightarrow> availability \<Rightarrow> command \<Rightarrow> history \<Rightarrow> lookup_end \<times> history" where
  "reconcile_action lib sv av cmd h =
     (let ty = cmd_action_type cmd;
          not_started = (\<lambda>code. (LookupDone (unresolved code [(''lookup'', JStr ''not_started'')]), h)) in
      case canonicalize_action_payload (hl_payload lib) ty (cmd_payload cmd) of
        None \<Rightarrow> (LookupDone (unresolved ''payload_invalid'' [(''lookup'', JStr ''payload_invalid'')]), h)
      | Some p \<Rightarrow>
          if ty = ''send_email'' \<or> ty = ''send_reply'' then
            (if gmail_service av then apfst (lookup_outcome ty) (reconcile_gmail lib sv cmd p h)
             else not_started ''gmail_lookup_unavailable'')
          else if ty = ''create_event'' then
            (if calendar_service av then apfst (lookup_outcome ty) (reconcile_calendar lib sv cmd h)
             else not_started ''calendar_lookup_unavailable'')
          else if ty = ''create_task'' then
            (if tasks_service av then apfst (lookup_outcome ty) (reconcile_task sv cmd h)
             else not_started ''tasks_lookup_unavailable'')
          else (LookupDone (unresolved ''unsupported_action'' [(''lookup'', JStr ''invalid'')]), h))"

section \<open>Classifying provider calls\<close>

text \<open>A command write carries out the approved command; creating the task list is a write too.\<close>

fun is_command_write :: "provider_call \<Rightarrow> bool" where
  "is_command_write (MessagesSend _ _) = True"
| "is_command_write (EventsInsert _ _) = True"
| "is_command_write (TasksInsert _ _) = True"
| "is_command_write _ = False"

fun is_write :: "provider_call \<Rightarrow> bool" where
  "is_write (TasklistsInsert _) = True"
| "is_write c = is_command_write c"

fun is_event_insert :: "provider_call \<Rightarrow> bool" where
  "is_event_insert (EventsInsert _ _) = True"
| "is_event_insert _ = False"

definition command_writes :: "history \<Rightarrow> history" where
  "command_writes h = filter (\<lambda>(c, _). is_command_write c) h"

definition list_writes :: "history \<Rightarrow> history" where
  "list_writes h = filter (\<lambda>(c, _). is_write c \<and> \<not> is_command_write c) h"

text \<open>An answer that confirms acceptance, and a call that was definitely refused.\<close>

definition accepted :: "raw_failure + json \<Rightarrow> bool" where
  "accepted r = (case r of Inr a \<Rightarrow> truthy (jget ''id'' a) | Inl _ \<Rightarrow> False)"

definition refused :: "provider_call \<times> (raw_failure + json) \<Rightarrow> bool" where
  "refused entry = (case entry of
     (call, Inl f) \<Rightarrow>
       (case translate_failure no_passthrough f of
          GoogleFailure e \<Rightarrow> is_rejected e \<and> \<not> (is_event_insert call \<and> status_code e = Some 409)
        | Propagated _ \<Rightarrow> False)
   | (call, Inr _) \<Rightarrow> False)"

fun write_ok :: "action_failure + 'a \<Rightarrow> history \<Rightarrow> bool" where
  "write_ok (Inr _) cw = (length cw = 1 \<and> accepted (snd (hd cw)))"
| "write_ok (Inl (ConfirmedActionFailure _)) cw = (length cw \<le> 1 \<and> list_all refused cw)"
| "write_ok (Inl _) cw = (length cw \<le> 1)"

text \<open>The SDK raises its own and transport exceptions, never the two action outcomes.\<close>

definition sdk_failures :: "services \<Rightarrow> bool" where
  "sdk_failures sv \<longleftrightarrow> (\<forall>h n c t f. sv_respond sv h n c t = Inl f \<longrightarrow> \<not> action_passthrough f)"

text \<open>Histories that grow by reads only.\<close>

definition reads_after :: "history \<Rightarrow> history \<Rightarrow> bool" where
  "reads_after h h' \<longleftrightarrow> (\<exists>new. h' = h @ new \<and> list_all (\<lambda>(c, _). \<not> is_write c) new)"

named_theorems read_only "operations whose history grows by reads only"

lemma reads_after_refl [read_only, simp]: "reads_after h h"
  by (simp add: reads_after_def)

lemma reads_after_trans: "reads_after h h' \<Longrightarrow> reads_after h' h'' \<Longrightarrow> reads_after h h''"
  by (force simp: reads_after_def)

lemma reads_after_snoc: "\<not> is_write c \<Longrightarrow> reads_after h (h @ [(c, r)])"
  by (simp add: reads_after_def)

lemma reads_after_bind:
  assumes "reads_after h (snd m)" and "\<And>v h'. reads_after h' (snd (f v h'))"
  shows "reads_after h (snd (bind_call m f))"
  using assms reads_after_trans
  by (fastforce simp: bind_call_def split: prod.splits sum.splits)

lemma call_sync_reads: "\<not> is_write c \<Longrightarrow> reads_after h (snd (call_sync sv c h))"
  by (simp add: call_sync_def Let_def reads_after_snoc)

lemma dispatched_calls_of: "(c, r) \<in> set (dispatched_calls env call tr) \<Longrightarrow> c = call"
  by (auto simp: dispatched_calls_def split: option.splits)

lemma call_read_reads [read_only]: "\<not> is_write c \<Longrightarrow> reads_after h (snd (call_read sv c h))"
  by (auto simp: call_read_def Let_def reads_after_def list_all_iff dest!: dispatched_calls_of)

lemma run_job_reads: "reads_after h (snd (job h)) \<Longrightarrow> reads_after h (snd (run_job sv p job h))"
  by (auto simp: run_job_def Let_def)

lemma list_all_tasklists_reads: "reads_after h (snd (list_all_tasklists_sync sv n tok h))"
  by (induction n arbitrary: tok h)
     (auto intro!: reads_after_bind call_sync_reads split: sum.splits option.splits)

lemma list_all_tasks_reads: "reads_after h (snd (list_all_tasks_sync sv l n tok h))"
  by (induction n arbitrary: tok h)
     (auto intro!: reads_after_bind call_sync_reads split: sum.splits option.splits)

lemma scan_task_lists_reads: "reads_after h (snd (scan_task_lists sv m ls h))"
  by (induction ls arbitrary: h)
     (auto intro!: reads_after_bind list_all_tasks_reads split: sum.splits)

lemma scan_task_marker_reads: "reads_after h (snd (scan_task_marker_sync sv m h))"
  by (simp add: scan_task_marker_sync_def reads_after_bind list_all_tasklists_reads scan_task_lists_reads)

lemma gmail_search_reads: "reads_after h (snd (gmail_search sv q n tok ms h))"
proof (induction n arbitrary: tok ms h)
  case (Suc n)
  have "reads_after h (snd (call_read sv (MessagesList q tok) h))" by (simp add: call_read_reads)
  then show ?case
    using Suc.IH reads_after_trans
    by (auto simp: Let_def split: prod.splits sum.splits option.splits)
qed simp

lemma reconcile_gmail_reads [read_only]: "reads_after h (snd (reconcile_gmail lib sv cmd p h))"
proof -
  have "reads_after h h'" if "gmail_search sv q n tok ms h = (e, h')" for q n tok ms e h'
    using gmail_search_reads [of h sv q n tok ms] that by simp
  moreover have "reads_after h' h''" if "call_read sv (MessagesGet i) h' = (e, h'')" for i e h' h''
    using call_read_reads [of "MessagesGet i" h' sv] that by simp
  ultimately show ?thesis
    using reads_after_trans
    by (auto simp: reconcile_gmail_def Let_def
        split: prod.splits sum.splits search_end.splits list.splits) blast+
qed

lemma reconcile_calendar_reads [read_only]: "reads_after h (snd (reconcile_calendar lib sv cmd h))"
  using call_read_reads [of "EventsGet (calendar_event_id lib (cmd_key cmd))" h sv]
  by (auto simp: reconcile_calendar_def Let_def split: prod.splits sum.splits)

lemma reconcile_task_reads [read_only]: "reads_after h (snd (reconcile_task sv cmd h))"
  using run_job_reads [of h "scan_task_marker_sync sv (task_marker (cmd_key cmd))" sv no_passthrough]
    scan_task_marker_reads
  by (auto simp: reconcile_task_def split: prod.splits sum.splits)

lemma snd_apfst_reads: "reads_after h (snd x) \<Longrightarrow> reads_after h (snd (apfst f x))"
  by simp

section \<open>Lemmas on dispatch\<close>

lemma call_once_dispatch:
  "call_once sv call h =
     (let entry = run_google_operation no_passthrough (sv_lock sv h 1)
                    (PROVIDER_TIMEOUT_SECONDS (sv_settings sv)) (sv_respond sv h 1 call)
      in (fst entry, h @ (case snd entry of None \<Rightarrow> [] | Some t \<Rightarrow> [(call, sv_respond sv h 1 call t)])))"
  by (simp add: call_once_def execute_google_request_def request_env_def dispatched_calls_def Let_def
      split: option.split)

lemma operation_cases:
  obtains (lock_timeout) "run_google_operation no_passthrough l timeout run
      = (Inl (GoogleFailure GoogleOperationTimeout), None)"
  | (dispatched) t where "run_google_operation no_passthrough l timeout run
      = ((case run t of Inr v \<Rightarrow> Inr v | Inl f \<Rightarrow> Inl (translate_failure no_passthrough f)), Some t)"
proof (cases l)
  case (LockAcquiredAfter w)
  then show ?thesis using that
    by (cases "timeout - w \<le> 0") (auto simp: run_google_operation_def translate_failure_def no_passthrough_def)
qed (use that in \<open>auto simp: run_google_operation_def translate_failure_def no_passthrough_def\<close>)

lemma call_once_cases:
  obtains (lock_timeout) "call_once sv call h = (Inl (GoogleFailure GoogleOperationTimeout), h)"
  | (dispatched) raw where
      "call_once sv call h =
        ((case raw of Inr v \<Rightarrow> Inr v | Inl f \<Rightarrow> Inl (translate_failure no_passthrough f)), h @ [(call, raw)])"
proof (cases rule: operation_cases [of "sv_lock sv h 1" "PROVIDER_TIMEOUT_SECONDS (sv_settings sv)" "sv_respond sv h 1 call"])
  case lock_timeout
  then show ?thesis using that(1) by (simp add: call_once_dispatch)
next
  case (dispatched t)
  then show ?thesis using that(2) [of "sv_respond sv h 1 call t"] by (simp add: call_once_dispatch)
qed

lemma rejected_refused:
  assumes "translate_failure no_passthrough f = GoogleFailure e" and "is_rejected e"
    and "\<not> (is_event_insert call \<and> status_code e = Some 409)"
  shows "refused (call, Inl f)"
  using assms by (simp add: refused_def)

lemma not_propagated:
  "\<not> action_passthrough f \<Longrightarrow> translate_failure no_passthrough f = Propagated g \<Longrightarrow> g = CancelledError"
  by (auto simp: translate_failure_def no_passthrough_def split: if_splits raw_failure.splits)

lemma dispatch_failure_confirmed:
  assumes "dispatch_failure ty (translate_failure no_passthrough f) = ConfirmedActionFailure code"
    and "is_event_insert call \<Longrightarrow> ty = ''create_event''"
  shows "refused (call, Inl f)"
proof (cases "translate_failure no_passthrough f")
  case (GoogleFailure e)
  then show ?thesis using assms by (auto simp: dispatch_failure_def refused_def split: if_splits)
next
  case (Propagated g)
  then have "g = CancelledError"
    by (auto simp: translate_failure_def no_passthrough_def split: if_splits raw_failure.splits)
  then show ?thesis using Propagated assms by (simp add: dispatch_failure_def)
qed

lemma dispatch_timeout_ambiguous:
  "dispatch_failure ty (GoogleFailure GoogleOperationTimeout) = AmbiguousActionOutcome ''provider_outcome_unknown''"
  by (simp add: dispatch_failure_def)

lemma py_get_id_truthy: "py_get k a = Inr j \<Longrightarrow> truthy j \<Longrightarrow> truthy (jget k a)"
  by (auto simp: py_get_def split: if_splits)

lemma dispatch_write_ok:
  assumes "is_event_insert call \<Longrightarrow> ty = ''create_event''" and "is_command_write call"
  shows "\<exists>new. snd (dispatch_write sv ty call u res h) = h @ new \<and> command_writes new = new \<and>
    list_writes new = [] \<and> write_ok (fst (dispatch_write sv ty call u res h)) new"
proof (cases rule: call_once_cases [of sv call h])
  case lock_timeout
  then show ?thesis
    by (simp add: dispatch_write_def dispatch_timeout_ambiguous command_writes_def list_writes_def)
next
  case (dispatched raw)
  have w: "command_writes [(call, raw)] = [(call, raw)]" "list_writes [(call, raw)] = []"
    using assms(2) by (simp_all add: command_writes_def list_writes_def)
  show ?thesis
  proof (cases raw)
    case (Inl f)
    show ?thesis
      using Inl w dispatched dispatch_failure_confirmed [OF _ assms(1), of f]
      by (intro exI [of _ "[(call, raw)]"])
         (cases "dispatch_failure ty (translate_failure no_passthrough f)", auto simp: dispatch_write_def)
  next
    case (Inr a)
    then show ?thesis
      using w dispatched assms(2)
      by (intro exI [of _ "[(call, raw)]"])
         (auto simp: dispatch_write_def accepted_def dest: py_get_id_truthy split: sum.split)
  qed
qed

section \<open>Lemmas on task creation\<close>

definition rejected_failure :: "raw_failure \<Rightarrow> bool" where
  "rejected_failure f = (case translate_failure no_passthrough f of
     GoogleFailure e \<Rightarrow> is_rejected e | Propagated _ \<Rightarrow> False)"

fun thread_ok :: "raw_failure + 'a \<Rightarrow> history \<Rightarrow> bool" where
  "thread_ok (Inr _) cw = (length cw = 1 \<and> accepted (snd (hd cw)))"
| "thread_ok (Inl f) cw =
     (length cw \<le> 1 \<and> (action_passthrough f \<and> (\<exists>c. f = OtherFailure CONFIRMED c) \<or> rejected_failure f \<longrightarrow> list_all refused cw))"

lemma command_writes_append [simp]: "command_writes (h @ g) = command_writes h @ command_writes g"
  by (simp add: command_writes_def)

lemma command_writes_Cons [simp]:
  "command_writes ((c, r) # h) = (if is_command_write c then (c, r) # command_writes h else command_writes h)"
  by (simp add: command_writes_def)

lemma list_writes_Cons [simp]:
  "list_writes ((c, r) # h) =
     (if is_write c \<and> \<not> is_command_write c then (c, r) # list_writes h else list_writes h)"
  by (simp add: list_writes_def)

lemma writes_Nil [simp]: "command_writes [] = []" "list_writes [] = []"
  by (simp_all add: command_writes_def list_writes_def)

lemma list_writes_append [simp]: "list_writes (h @ g) = list_writes h @ list_writes g"
  by (simp add: list_writes_def)

lemma reads_no_writes:
  "list_all (\<lambda>(c, _). \<not> is_write c) new \<Longrightarrow> command_writes new = [] \<and> list_writes new = []"
proof -
  have "is_command_write c \<Longrightarrow> is_write c" for c by (cases c) auto
  then show "list_all (\<lambda>(c, _). \<not> is_write c) new \<Longrightarrow> ?thesis"
    by (auto simp: command_writes_def list_writes_def list_all_iff filter_empty_conv)
qed

lemma app_not_rejected: "\<not> rejected_failure (OtherFailure cls c)"
  by (simp add: rejected_failure_def translate_failure_def no_passthrough_def translate_google_error_def)

lemma confirm_task_ok: "thread_ok (confirm_task l task) [(TasksInsert l' b, Inr task)]"
proof -
  have "AMBIGUOUS \<noteq> CONFIRMED" "CONFIRMED \<noteq> ''AttributeError''"
    by (simp_all add: AMBIGUOUS_def CONFIRMED_def)
  moreover have "py_get ''id'' task = Inl e \<Longrightarrow> e = OtherFailure ''AttributeError'' ''get''" for e
    by (auto simp: py_get_def split: if_splits)
  ultimately show ?thesis
    by (auto simp: confirm_task_def app_not_rejected accepted_def dest: py_get_id_truthy split: sum.split)
qed

lemma insert_task_ok:
  assumes "sdk_failures sv"
  shows "\<exists>new. snd (insert_task sv p k b sel h) = h @ new \<and> list_writes new = [] \<and>
    thread_ok (fst (insert_task sv p k b sel h)) (command_writes new)"
proof -
  have "(\<exists>e. insert_task sv p k b sel h = (Inl e, h)) \<or> (\<exists>l. insert_task sv p k b sel h =
      bind_call (call_sync sv (TasksInsert l (task_body p k)) h) (\<lambda>task h'. (confirm_task l task, h')))"
    by (cases "if truthy (Some sel) then py_get ''id'' sel else Inr None") (auto simp: insert_task_def)
  then consider (none) e where "insert_task sv p k b sel h = (Inl e, h)"
    | (called) l where "insert_task sv p k b sel h =
        bind_call (call_sync sv (TasksInsert l (task_body p k)) h) (\<lambda>task h'. (confirm_task l task, h'))"
    by blast
  then show ?thesis
  proof cases
    case none
    then show ?thesis by (simp add: command_writes_def list_writes_def)
  next
    case (called l)
    let ?call = "TasksInsert l (task_body p k)"
    obtain raw where raw: "call_sync sv ?call h = (raw, h @ [(?call, raw)])"
      and ok: "\<And>f. raw = Inl f \<Longrightarrow> \<not> action_passthrough f"
      using assms by (auto simp: call_sync_def sdk_failures_def Let_def)
    have w: "command_writes [(?call, raw)] = [(?call, raw)]" "list_writes [(?call, raw)] = []"
      by (simp_all add: command_writes_def list_writes_def)
    show ?thesis
    proof (cases raw)
      case (Inl f)
      then show ?thesis using called raw w ok [OF Inl]
        by (intro exI [of _ "[(?call, raw)]"])
           (auto simp: bind_call_def rejected_failure_def refused_def split: op_failure.splits)
    next
      case (Inr a)
      then show ?thesis using called raw w confirm_task_ok
        by (intro exI [of _ "[(?call, raw)]"]) (simp add: bind_call_def)
    qed
  qed
qed

lemma create_task_sync_ok:
  assumes "sdk_failures sv"
  shows "\<exists>new. snd (create_task_sync sv p k h) = h @ new \<and> length (list_writes new) \<le> 1 \<and>
    thread_ok (fst (create_task_sync sv p k h)) (command_writes new)"
proof -
  obtain r h1 where l: "list_all_tasklists_sync sv (sv_pages sv) None h = (r, h1)" by fastforce
  obtain rd where h1: "h1 = h @ rd" and rd: "command_writes rd = []" "list_writes rd = []"
    using list_all_tasklists_reads [of h sv "sv_pages sv" None] l reads_no_writes
    by (auto simp: reads_after_def)
  let ?create = "bind_call (call_sync sv (TasklistsInsert EXECUTIVE_LIST) h1)
        (\<lambda>selected h2. insert_task sv p k True selected h2)"
  have "(\<exists>f. create_task_sync sv p k h = (Inl f, h1)) \<or>
      (\<exists>sel. create_task_sync sv p k h = insert_task sv p k False sel h1) \<or>
      create_task_sync sv p k h = ?create"
    unfolding create_task_sync_def l by (cases r) (auto simp: bind_call_def [of "(_, h1)"] Let_def split: list.split)
  then consider (stop) f where "create_task_sync sv p k h = (Inl f, h1)"
    | (found) sel where "create_task_sync sv p k h = insert_task sv p k False sel h1"
    | (create) "create_task_sync sv p k h = ?create"
    by blast
  then show ?thesis
  proof cases
    case stop
    then show ?thesis using h1 rd by (intro exI [of _ rd]) simp
  next
    case (found sel)
    obtain new where "snd (insert_task sv p k False sel h1) = h1 @ new" "list_writes new = []"
      "thread_ok (fst (insert_task sv p k False sel h1)) (command_writes new)"
      using insert_task_ok [OF assms] by blast
    then show ?thesis using found h1 rd by (intro exI [of _ "rd @ new"]) simp
  next
    case create
    obtain raw where raw: "call_sync sv (TasklistsInsert EXECUTIVE_LIST) h1
        = (raw, h1 @ [(TasklistsInsert EXECUTIVE_LIST, raw)])"
      by (auto simp: call_sync_def Let_def)
    let ?e = "(TasklistsInsert EXECUTIVE_LIST, raw)"
    have e: "command_writes [?e] = []" "list_writes [?e] = [?e]"
      by (simp_all add: command_writes_def list_writes_def)
    show ?thesis
    proof (cases raw)
      case (Inl f)
      then show ?thesis using create raw h1 rd e
        by (intro exI [of _ "rd @ [?e]"]) (simp add: bind_call_def)
    next
      case (Inr sel)
      obtain new where "snd (insert_task sv p k True sel (h1 @ [?e])) = (h1 @ [?e]) @ new" "list_writes new = []"
        "thread_ok (fst (insert_task sv p k True sel (h1 @ [?e]))) (command_writes new)"
        using insert_task_ok [OF assms] by blast
      then show ?thesis using create raw h1 rd e Inr
        by (intro exI [of _ "rd @ [?e] @ new"]) (simp add: bind_call_def)
    qed
  qed
qed

lemma run_job_cases:
  obtains (not_started) e where "run_job sv action_passthrough job h = (Inl (GoogleFailure e), h)"
      and "\<not> is_rejected e"
  | (timed_out) "run_job sv action_passthrough job h = (Inl (GoogleFailure GoogleOperationTimeout), snd (job h))"
  | (finished) "run_job sv action_passthrough job h =
      ((case fst (job h) of Inr v \<Rightarrow> Inr v | Inl f \<Rightarrow> Inl (translate_failure action_passthrough f)), snd (job h))"
proof -
  let ?T = "PROVIDER_TIMEOUT_SECONDS (sv_settings sv)"
  have tr: "translate_failure action_passthrough ProviderOperationTimeout = GoogleFailure GoogleOperationTimeout"
    "translate_failure action_passthrough ProviderCapacityExceeded = GoogleFailure (GoogleOperationUnavailable None None)"
    "translate_failure action_passthrough (ProviderError e) = GoogleFailure e" for e
    by (simp_all add: translate_failure_def action_passthrough_def translate_google_error_def)
  consider (lock) "sv_lock sv h 1 = LockTimedOut \<or> (\<exists>w. sv_lock sv h 1 = LockAcquiredAfter w \<and> ?T - w \<le> 0)"
    | (run) "sv_lock sv h 1 = NoLock \<or> (\<exists>w. sv_lock sv h 1 = LockAcquiredAfter w \<and> \<not> ?T - w \<le> 0)"
    by (cases "sv_lock sv h 1") auto
  then show thesis
  proof cases
    case lock
    then have "run_job sv action_passthrough job h = (Inl (GoogleFailure GoogleOperationTimeout), h)"
      by (auto simp: run_job_def run_google_operation_def Let_def tr)
    then show thesis using not_started by simp
  next
    case run
    then show thesis
      using not_started [of "GoogleOperationUnavailable None None"] timed_out finished
      by (cases "sv_fate sv h") (auto simp: run_job_def run_google_operation_def Let_def tr)
  qed
qed

lemma thread_failure_ok:
  assumes "thread_ok (Inl f :: raw_failure + 'a) cw"
  shows "write_ok (Inl (dispatch_failure ''create_task'' (translate_failure action_passthrough f)) :: action_failure + 'b) cw"
proof (cases "action_passthrough f")
  case True
  then obtain cls c where f: "f = OtherFailure cls c" "cls = CONFIRMED \<or> cls = AMBIGUOUS"
    by (auto simp: action_passthrough_def split: raw_failure.splits)
  then have "translate_failure action_passthrough f = Propagated f"
    using True by (simp add: translate_failure_def)
  then show ?thesis using assms f True by (auto simp: dispatch_failure_def CONFIRMED_def AMBIGUOUS_def)
next
  case False
  then have eq: "translate_failure action_passthrough f = translate_failure no_passthrough f"
    by (simp add: translate_failure_def no_passthrough_def)
  show ?thesis
  proof (cases "translate_failure no_passthrough f")
    case (GoogleFailure e)
    then show ?thesis using assms eq by (auto simp: dispatch_failure_def rejected_failure_def)
  next
    case (Propagated g)
    then have "g = CancelledError" using not_propagated [OF False] by simp
    then show ?thesis using assms eq Propagated by (simp add: dispatch_failure_def)
  qed
qed

lemma thread_success_ok: "thread_ok (Inr v :: raw_failure + 'a) cw \<Longrightarrow> write_ok (Inr w :: action_failure + 'b) cw"
  by simp

lemma create_task_command_ok:
  assumes "sdk_failures sv"
  shows "\<exists>new. snd (create_task_command sv cmd p h) = h @ new \<and> length (list_writes new) \<le> 1 \<and>
    write_ok (fst (create_task_command sv cmd p h)) (command_writes new)"
proof -
  let ?job = "create_task_sync sv p (cmd_key cmd)"
  obtain new where new: "snd (?job h) = h @ new" "length (list_writes new) \<le> 1"
    "thread_ok (fst (?job h)) (command_writes new)"
    using create_task_sync_ok [OF assms] by blast
  show ?thesis
  proof (cases rule: run_job_cases [of sv ?job h])
    case (not_started e)
    then show ?thesis by (simp add: create_task_command_def dispatch_failure_def)
  next
    case timed_out
    have "length (command_writes new) \<le> 1" using new(3) by (cases "fst (?job h)") auto
    then show ?thesis using timed_out new by (simp add: create_task_command_def dispatch_failure_def)
  next
    case finished
    then show ?thesis
      using new thread_failure_ok
      by (cases "fst (?job h)") (auto simp: create_task_command_def)
  qed
qed

section \<open>Lemmas on lookups\<close>

lemma retry_loop_success:
  assumes "retry_loop s safety env d n left = (Inr v, tr)"
  shows "\<exists>t m. (m, (Inr v, Some t)) \<in> set (enumerate n tr) \<and> outcome env m t = Inr v"
  using assms
proof (induction left arbitrary: n tr)
  case (Suc left)
  let ?e = "run_google_operation no_passthrough (lock_of env n)
    (min (PROVIDER_TIMEOUT_SECONDS s) (d - start_time env n)) (outcome env n)"
  show ?case
  proof (cases "fst ?e = Inr v")
    case True
    then have "tr = [?e]" using Suc.prems by (auto simp: Let_def split: if_splits)
    moreover obtain t where "?e = (Inr v, Some t)" "outcome env n t = Inr v"
      using True
      by (cases rule: operation_cases [of "lock_of env n"
            "min (PROVIDER_TIMEOUT_SECONDS s) (d - start_time env n)" "outcome env n"])
         (auto split: sum.splits)
    ultimately show ?thesis by auto
  next
    case False
    then obtain tr' where "retry_loop s safety env d (Suc n) left = (Inr v, tr')" "tr = ?e # tr'"
      using Suc.prems by (auto simp: Let_def split: if_splits sum.splits op_failure.splits) (metis surjective_pairing)
    then show ?thesis using Suc.IH by fastforce
  qed
qed simp

text \<open>A value returned by a read is an answer of the provider to that very call.\<close>

lemma call_read_answer:
  assumes "call_read sv call h = (Inr v, h')"
  shows "(call, Inr v) \<in> set h'"
proof -
  let ?env = "request_env sv h call"
  obtain tr where r: "run_google_retryable_operation (sv_settings sv) READ (sv_clock sv h) ?env = (Inr v, tr)"
    and h': "h' = h @ dispatched_calls ?env call tr"
    using assms by (auto simp: call_read_def execute_google_read_request_def Let_def) (metis surjective_pairing)
  obtain t m where "(m, (Inr v, Some t)) \<in> set (enumerate 1 tr)" "outcome ?env m t = Inr v"
    using retry_loop_success r by (fastforce simp: run_google_retryable_operation_def)
  then show ?thesis unfolding h' dispatched_calls_def by force
qed

text \<open>The evidence that a verdict of success rests on.\<close>

definition gmail_evidence :: "handler_lib \<Rightarrow> command \<Rightarrow> history \<Rightarrow> bool" where
  "gmail_evidence lib cmd h \<longleftrightarrow> (\<exists>p i message.
     canonicalize_action_payload (hl_payload lib) (cmd_action_type cmd) (cmd_payload cmd) = Some p \<and>
     (MessagesGet i, Inr message) \<in> set h \<and> gmail_valid lib cmd p message = Inr True)"

definition calendar_evidence :: "handler_lib \<Rightarrow> command \<Rightarrow> history \<Rightarrow> bool" where
  "calendar_evidence lib cmd h \<longleftrightarrow> (let event_id = calendar_event_id lib (cmd_key cmd) in \<exists>event.
     (EventsGet event_id, Inr event) \<in> set h \<and> jget ''id'' event = Some (JStr event_id) \<and>
     event_marker event_id event = Inr (Some (JStr (cmd_key cmd))))"

lemma reconcile_gmail_success:
  assumes "reconcile_gmail lib sv cmd p h = (LookupDone r, h')" and "rr_status r = R_SUCCEEDED"
    and "canonicalize_action_payload (hl_payload lib) (cmd_action_type cmd) (cmd_payload cmd) = Some p"
  shows "gmail_evidence lib cmd h'"
proof -
  obtain i h1 message where "call_read sv (MessagesGet i) h1 = (Inr message, h')"
    and "gmail_valid lib cmd p message = Inr True"
    using assms(1,2)
    by (auto simp: reconcile_gmail_def Let_def unresolved_def not_found_def
        split: prod.splits search_end.splits list.splits sum.splits bool.splits)
  then show ?thesis using assms(3) call_read_answer unfolding gmail_evidence_def by blast
qed

lemma reconcile_calendar_success:
  assumes "reconcile_calendar lib sv cmd h = (LookupDone r, h')" and "rr_status r = R_SUCCEEDED"
  shows "calendar_evidence lib cmd h'"
proof -
  let ?i = "calendar_event_id lib (cmd_key cmd)"
  obtain event where "call_read sv (EventsGet ?i) h = (Inr event, h')"
    and "jget ''id'' event = Some (JStr ?i)" and "event_marker ?i event = Inr (Some (JStr (cmd_key cmd)))"
    using assms
    by (auto simp: reconcile_calendar_def Let_def unresolved_def split: prod.splits sum.splits if_splits)
  then show ?thesis using call_read_answer unfolding calendar_evidence_def Let_def by blast
qed

lemma lookup_outcome_success:
  "lookup_outcome ty e = LookupDone r \<Longrightarrow> rr_status r = R_SUCCEEDED \<Longrightarrow> e = LookupDone r"
  by (auto simp: lookup_outcome_def unresolved_def not_found_def split: lookup_end.splits op_failure.splits if_splits)

lemma reconcile_task_never_failed:
  "reconcile_task sv cmd h = (LookupDone r, h') \<Longrightarrow> rr_status r \<noteq> R_FAILED"
  by (auto simp: reconcile_task_def unresolved_def proved_def
      split: prod.splits sum.splits list.splits if_splits)

lemma lookup_outcome_task_failed:
  "lookup_outcome ''create_task'' e = LookupDone r \<Longrightarrow> rr_status r = R_FAILED \<Longrightarrow> e = LookupDone r"
  by (auto simp: lookup_outcome_def unresolved_def split: lookup_end.splits op_failure.splits if_splits)

section \<open>All commands\<close>

lemma execute_action_dispatch:
  assumes "sdk_failures sv" and "execute_action lib sv av cmd h = (r, h')"
  shows "\<exists>new. h' = h @ new \<and> length (list_writes new) \<le> 1 \<and> write_ok r (command_writes new)"
proof -
  have email: "\<exists>new. snd (send_email_command lib sv cmd p h) = h @ new \<and> length (list_writes new) \<le> 1 \<and>
      write_ok (fst (send_email_command lib sv cmd p h)) (command_writes new)" for p
    using dispatch_write_ok [of "MessagesSend raw th" ty sv u res h for raw th ty u res]
    by (fastforce simp: send_email_command_def split: sum.split)
  have reply: "\<exists>new. snd (send_reply_command lib sv cmd p h) = h @ new \<and> length (list_writes new) \<le> 1 \<and>
      write_ok (fst (send_reply_command lib sv cmd p h)) (command_writes new)" for p
    using dispatch_write_ok [of "MessagesSend raw th" ty sv u res h for raw th ty u res]
    by (fastforce simp: send_reply_command_def split: sum.split)
  have event: "\<exists>new. snd (create_event_command lib sv cmd p h) = h @ new \<and> length (list_writes new) \<le> 1 \<and>
      write_ok (fst (create_event_command lib sv cmd p h)) (command_writes new)" for p
    using dispatch_write_ok [of "EventsInsert b u'" "''create_event''" sv u res h for b u' u res]
    by (fastforce simp: create_event_command_def)
  note parts = email reply event create_task_command_ok [OF assms(1)]
  have "\<exists>new. snd (execute_action lib sv av cmd h) = h @ new \<and> length (list_writes new) \<le> 1 \<and>
      write_ok (fst (execute_action lib sv av cmd h)) (command_writes new)"
    unfolding execute_action_def using parts by (auto split: option.split)
  then show ?thesis using assms(2) by simp
qed

text \<open>Only the creation of a task can create the task list.\<close>

lemma execute_action_lists:
  assumes "cmd_action_type cmd \<noteq> ''create_task''" and "execute_action lib sv av cmd h = (r, h @ new)"
  shows "list_writes new = []"
proof -
  have "\<exists>new. snd (execute_action lib sv av cmd h) = h @ new \<and> list_writes new = []"
    using assms(1)
      dispatch_write_ok [of "MessagesSend raw th" ty sv u res h for raw th ty u res]
      dispatch_write_ok [of "EventsInsert b u'" "''create_event''" sv u res h for b u' u res]
    by (fastforce simp: execute_action_def send_email_command_def send_reply_command_def create_event_command_def
        split: option.split sum.split)
  then show ?thesis using assms(2) by auto
qed

lemma reconcile_reads: "reads_after h (snd (reconcile_action lib sv av cmd h))"
  unfolding reconcile_action_def Let_def
  by (auto split: option.split intro!: snd_apfst_reads read_only)

section \<open>Properties\<close>

text \<open>
  C4. Executing an approved command issues at most one command write (one message, one event or
  one task), besides at most one creation of the task list. It reports success only when the single
  write was answered with an id, and a confirmed failure only when no command write was dispatched
  or the one that was dispatched was definitely refused by the provider; a refusal is never a
  timeout, a transport error, a quota or server error, nor a conflict on the deterministic event id.
\<close>

theorem execute_action_writes:
  assumes "sdk_failures sv" and "execute_action lib sv av cmd h = (r, h')"
  shows "\<exists>new. h' = h @ new \<and> length (list_writes new) \<le> 1 \<and> write_ok r (command_writes new)"
  using assms by (rule execute_action_dispatch)

definition demo_handler_lib :: handler_lib where
  "demo_handler_lib = \<lparr>hl_payload = plain_lib, sha256_hex = (\<lambda>s. s), getaddresses = (\<lambda>s. [s]),
     raw_of = (\<lambda>hs b. Some (join '','' (map snd hs) @ b))\<rparr>"

text \<open>Services on which every call succeeds at once: lists are empty, writes get an id.\<close>

definition demo_services :: services where
  "demo_services = \<lparr>sv_settings = default_settings,
     sv_respond = (\<lambda>h n c t. if is_write c then Inr (JObj [(''id'', JStr ''x1'')]) else Inr (JObj [])),
     sv_lock = (\<lambda>h n. NoLock), sv_clock = (\<lambda>h. 0), sv_start = (\<lambda>h n. 0), sv_failed = (\<lambda>h n. 0),
     sv_jitter = (\<lambda>h n. 0), sv_fate = (\<lambda>h. RunnerCompletes), sv_pages = 3\<rparr>"

definition demo_command :: command where
  "demo_command = \<lparr>cmd_action_type = ''create_task'',
     cmd_payload = demo_payload, cmd_key = ''k1''\<rparr>"

definition all_services :: availability where
  "all_services = \<lparr>gmail_service = True, calendar_service = True, tasks_service = True\<rparr>"

lemma demo_sdk_failures: "sdk_failures demo_services"
  by (simp add: sdk_failures_def demo_services_def)

lemma demo_execution:
  "execute_action demo_handler_lib demo_services all_services demo_command [] =
     (Inr [(''external_id'', JStr ''x1''), (''task_list_id'', JStr ''x1''), (''provider'', JStr ''tasks'')],
      [(TasklistsList None, Inr (JObj [])), (TasklistsInsert EXECUTIVE_LIST, Inr (JObj [(''id'', JStr ''x1'')])),
       (TasksInsert (JStr ''x1'') (task_body demo_canonical ''k1''), Inr (JObj [(''id'', JStr ''x1'')]))])"
  by (simp add: execute_action_def demo_command_def demo_handler_lib_def demo_canonicalize all_services_def
      create_task_command_def run_job_def run_google_operation_def create_task_sync_def demo_services_def
      numeral_3_eq_3 call_sync_def bind_call_def get_list_def or_empty_def py_get_def is_jobj_def jget_def
      truthy_def next_page_token_def insert_task_def confirm_task_def Let_def)

theorem execute_action_writes_witness:
  "let out = execute_action demo_handler_lib demo_services all_services demo_command [] in
   length (command_writes (snd out)) = 1 \<and>
   (\<exists>new. snd out = [] @ new \<and> length (list_writes new) \<le> 1 \<and> write_ok (fst out) (command_writes new))"
  using execute_action_writes [OF demo_sdk_failures demo_execution] by (simp add: demo_execution)

text \<open>
  Reconciliation never writes: whatever the provider answers, the calls it adds to the
  history are reads.
\<close>

lemma reconcile_no_write: "reads_after h (snd (reconcile_action lib sv av cmd h))"
  by (rule reconcile_reads)

text \<open>
  Reconciliation concludes success of a message or an event only from an answer of the
  provider to its own lookup that carries the exact command marker, and it never concludes that a
  task command failed, since Google Tasks may show a created task late.
\<close>

lemma reconcile_verdict_evidence:
  assumes "reconcile_action lib sv av cmd h = (LookupDone r, h')"
  shows "(rr_status r = R_SUCCEEDED \<longrightarrow>
           (cmd_action_type cmd \<in> {''send_email'', ''send_reply''} \<longrightarrow> gmail_evidence lib cmd h') \<and>
           (cmd_action_type cmd = ''create_event'' \<longrightarrow> calendar_evidence lib cmd h')) \<and>
         (rr_status r = R_FAILED \<longrightarrow> cmd_action_type cmd \<noteq> ''create_task'')"
proof (cases "canonicalize_action_payload (hl_payload lib) (cmd_action_type cmd) (cmd_payload cmd)")
  case None
  then show ?thesis using assms by (auto simp: reconcile_action_def unresolved_def)
next
  case (Some p)
  have split_apfst: "apfst f x = (y, z) \<longleftrightarrow> (\<exists>e. x = (e, z) \<and> f e = y)" for f x y z
    by (cases x) auto
  have unres: "rr_status (unresolved c ev) = R_RECONCILIATION_REQUIRED" for c ev
    by (simp add: unresolved_def)
  show ?thesis
    using assms Some reconcile_gmail_success [of lib sv cmd p h] reconcile_calendar_success [of lib sv cmd h]
      reconcile_task_never_failed [of sv cmd h] unres
    by (auto simp: reconcile_action_def Let_def split_apfst split: if_splits
        dest!: lookup_outcome_success lookup_outcome_task_failed)
qed

definition found_services :: services where
  "found_services = demo_services\<lparr>sv_respond := (\<lambda>h n c t. case c of
     EventsGet i \<Rightarrow> Inr (JObj [(''id'', JStr i),
       (''extendedProperties'', JObj [(''private'', JObj [(''oneboxCommandKey'', JStr ''k1'')])])])
   | _ \<Rightarrow> Inr (JObj []))\<rparr>"

definition event_payload :: payload where
  "event_payload = [(''title'', JStr ''t''), (''start_time_iso'', JStr ''p@p''), (''end_time_iso'', JStr ''px@p''),
     (''event_timezone'', JStr ''UTC'')]"

definition event_command :: command where
  "event_command = \<lparr>cmd_action_type = ''create_event'', cmd_payload = event_payload, cmd_key = ''k1''\<rparr>"

lemma strip_UTC: "strip ''UTC'' = ''UTC''"
  by (simp add: text_simps)

lemma event_payload_valid: "canonicalize_action_payload plain_lib ''create_event'' event_payload \<noteq> None"
  by (simp add: payload_eval create_event_payload_def event_payload_def plain_lib_def clean_text_kept strip_letters
      datetime_field_def validate_timezone_def str_field_default_def attendees_field_def strip_UTC
      bind_eq_None_conv Let_def)

definition event_result :: reconciliation_result where
  "event_result = proved [(''external_id'', JStr ''obk1''), (''provider'', JStr ''calendar'')]"

lemma found_reconciliation:
  "fst (reconcile_action demo_handler_lib found_services all_services event_command []) = LookupDone event_result"
  using event_payload_valid
  by (auto simp: reconcile_action_def event_command_def all_services_def demo_handler_lib_def
      reconcile_calendar_def call_read_def execute_google_read_request_def run_google_retryable_operation_def
      request_env_def found_services_def demo_services_def default_settings_def run_google_operation_def
      numeral_3_eq_3 calendar_event_id_def event_marker_def py_get_def is_jobj_def jget_def truthy_def
      lookup_outcome_def event_result_def Let_def)

theorem reconcile_verdict_evidence_witness:
  "fst (reconcile_action demo_handler_lib found_services all_services event_command []) = LookupDone event_result
   \<and> calendar_evidence demo_handler_lib event_command
       (snd (reconcile_action demo_handler_lib found_services all_services event_command []))"
proof -
  let ?out = "reconcile_action demo_handler_lib found_services all_services event_command []"
  have out: "?out = (LookupDone event_result, snd ?out)" using found_reconciliation by (metis prod.collapse)
  have "rr_status event_result = R_SUCCEEDED" "cmd_action_type event_command = ''create_event''"
    by (simp_all add: event_result_def proved_def event_command_def)
  then show ?thesis using reconcile_verdict_evidence [OF out] found_reconciliation by (simp only: simp_thms)
qed

end
