(* ===== verification/Pagination.thy ===== *)
theory Pagination
  imports Onebox_Prelude "HOL-Library.Multiset"
begin

text \<open>
  Keyset pagination (\<open>server/pagination.py\<close>): opaque page tokens, and the page that the
  list services cut out of the rows sorted newest first. Base64 is modelled exactly, as
  \<open>base64.urlsafe_b64encode\<close> and the tolerant decoder behind
  \<open>base64.urlsafe_b64decode\<close> compute it; reading and writing timestamps, UUIDs and JSON text
  are the parameter \<open>page_lib\<close>. A byte is the code of a character.

  The contract of a list service is the locale \<open>keyset_listing\<close>; inside it the traversal of
  all pages is proved complete and free of duplicates, also while newer rows arrive.
\<close>

section \<open>Base64\<close>

definition b64_char :: "nat \<Rightarrow> char" where
  "b64_char n = (if n < 26 then char_of (65 + n) else if n < 52 then char_of (97 + (n - 26))
     else if n < 62 then char_of (48 + (n - 52)) else if n = 62 then CHR ''-'' else CHR ''_'')"

text \<open>The value of a data character; the decoder also takes the standard alphabet.\<close>

definition b64_value :: "char \<Rightarrow> nat option" where
  "b64_value c = (let n = (of_char c :: nat) in
     if 65 \<le> n \<and> n \<le> 90 then Some (n - 65) else if 97 \<le> n \<and> n \<le> 122 then Some (n - 71)
     else if 48 \<le> n \<and> n \<le> 57 then Some (n + 4) else if n = 45 \<or> n = 43 then Some 62
     else if n = 95 \<or> n = 47 then Some 63 else None)"

fun b64_data :: "nat list \<Rightarrow> str" where
  "b64_data [] = []"
| "b64_data [a] = [b64_char (a div 4), b64_char (a mod 4 * 16)]"
| "b64_data [a, b] = [b64_char (a div 4), b64_char (a mod 4 * 16 + b div 16), b64_char (b mod 16 * 4)]"
| "b64_data (a # b # c # bs) =
     [b64_char (a div 4), b64_char (a mod 4 * 16 + b div 16),
      b64_char (b mod 16 * 4 + c div 64), b64_char (c mod 64)] @ b64_data bs"

definition urlsafe_b64encode :: "nat list \<Rightarrow> str" where
  "urlsafe_b64encode bs = b64_data bs @ replicate ((3 - length bs mod 3) mod 3) (CHR ''='')"

text \<open>
  The tolerant decoder: characters outside the alphabet are skipped, and the input ends at a
  complete padding. \<open>quad_pos\<close>, \<open>left\<close> and \<open>pads\<close> are its loop variables.
\<close>

fun a2b_base64 :: "nat \<Rightarrow> nat \<Rightarrow> nat \<Rightarrow> str \<Rightarrow> nat list option" where
  "a2b_base64 quad_pos left pads [] = (if quad_pos = 0 then Some [] else None)"
| "a2b_base64 quad_pos left pads (c # cs) =
     (if c = CHR ''='' then
        (if 2 \<le> quad_pos \<and> 4 \<le> quad_pos + (pads + 1) then Some []
         else a2b_base64 quad_pos left (if 2 \<le> quad_pos then pads + 1 else pads) cs)
      else case b64_value c of
        None \<Rightarrow> a2b_base64 quad_pos left pads cs
      | Some v \<Rightarrow>
          if quad_pos = 0 then a2b_base64 1 v 0 cs
          else if quad_pos = 1 then map_option ((#) (left * 4 + v div 16)) (a2b_base64 2 (v mod 16) 0 cs)
          else if quad_pos = 2 then map_option ((#) (left * 16 + v div 4)) (a2b_base64 3 (v mod 4) 0 cs)
          else map_option ((#) (left * 64 + v)) (a2b_base64 0 0 0 cs))"

definition urlsafe_b64decode :: "str \<Rightarrow> nat list option" where
  "urlsafe_b64decode s = a2b_base64 0 0 0 s"

section \<open>Page tokens\<close>

record page_lib =
  isoformat :: "time \<Rightarrow> str"
  fromisoformat :: "str \<Rightarrow> (time \<times> bool) option"
  str_of_uuid :: "uuid \<Rightarrow> str"
  uuid_of_str :: "str \<Rightarrow> uuid option"
  json_loads :: "nat list \<Rightarrow> json option"

type_synonym cursor = "time \<times> uuid"

text \<open>The text of \<open>json.dumps\<close> for two strings that need no escaping.\<close>

definition token_json :: "str \<Rightarrow> str \<Rightarrow> str" where
  "token_json c i = [CHR 0x7B, CHR 0x22, CHR ''c'', CHR 0x22, CHR '':'', CHR 0x22] @ c @
     [CHR 0x22, CHR '','', CHR 0x22, CHR ''i'', CHR 0x22, CHR '':'', CHR 0x22] @ i @ [CHR 0x22, CHR 0x7D]"

definition rstrip_pad :: "str \<Rightarrow> str" where
  "rstrip_pad s = rev (dropWhile (\<lambda>c. c = CHR ''='') (rev s))"

definition encode_page_token :: "page_lib \<Rightarrow> cursor \<Rightarrow> str" where
  "encode_page_token lib pos =
     rstrip_pad (urlsafe_b64encode (map of_char
       (token_json (isoformat lib (fst pos)) (str_of_uuid lib (snd pos)))))"

text \<open>\<open>None\<close> is \<open>InvalidPageToken\<close>; \<open>fromisoformat\<close> also says whether there is an offset.\<close>

definition decode_page_token :: "page_lib \<Rightarrow> str \<Rightarrow> cursor option" where
  "decode_page_token lib token =
     (if \<not> is_ascii token then None
      else let padded = token @ replicate (nat ((- int (length token)) mod 4)) (CHR ''='') in
        case Option.bind (urlsafe_b64decode padded) (json_loads lib) of
          None \<Rightarrow> None
        | Some data \<Rightarrow>
            (case (jstr (jget ''c'' data), jstr (jget ''i'' data)) of
               (Some c, Some i) \<Rightarrow>
                 (case (fromisoformat lib c, uuid_of_str lib i) of
                    (Some (created_at, aware), Some row_id) \<Rightarrow>
                      if aware then Some (created_at, row_id) else None
                  | _ \<Rightarrow> None)
             | _ \<Rightarrow> None))"

text \<open>What the token functions rely on: written values read back, with their offset.\<close>

definition page_lib_ok :: "page_lib \<Rightarrow> bool" where
  "page_lib_ok lib \<longleftrightarrow>
     (\<forall>t. fromisoformat lib (isoformat lib t) = Some (t, True)) \<and>
     (\<forall>u. uuid_of_str lib (str_of_uuid lib u) = Some u) \<and>
     (\<forall>t u. json_loads lib (map of_char (token_json (isoformat lib t) (str_of_uuid lib u))) =
        Some (JObj [(''c'', JStr (isoformat lib t)), (''i'', JStr (str_of_uuid lib u))]))"

section \<open>One page\<close>

definition before :: "'k :: linorder option \<Rightarrow> 'k \<Rightarrow> bool" where
  "before cur k = (case cur of None \<Rightarrow> True | Some c \<Rightarrow> k < c)"

text \<open>The query: rows after the cursor, newest first.\<close>

definition keyset_rows :: "('r \<Rightarrow> 'k :: linorder) \<Rightarrow> 'r list \<Rightarrow> 'k option \<Rightarrow> 'r list" where
  "keyset_rows key rows cur = rev (sort_key key (filter (\<lambda>r. before cur (key r)) rows))"

text \<open>One row more than the limit is fetched; it tells whether another page exists.\<close>

definition keyset_page ::
  "('r \<Rightarrow> 'k :: linorder) \<Rightarrow> 'r list \<Rightarrow> 'k option \<Rightarrow> nat \<Rightarrow> 'r list \<times> 'k option" where
  "keyset_page key rows cur limit =
     (let fetched = take (limit + 1) (keyset_rows key rows cur); page = take limit fetched
      in (page, if length fetched > limit then Some (key (last page)) else None))"

section \<open>Base64 lemmas\<close>

lemma b64_value_char: "n < 64 \<Longrightarrow> b64_value (b64_char n) = Some n"
  by (auto simp: b64_value_def b64_char_def Let_def)

lemma b64_char_not_pad: "b64_char n \<noteq> CHR ''=''"
proof -
  have "(of_char (b64_char n) :: nat) \<noteq> 61" by (auto simp: b64_char_def)
  then show ?thesis by auto
qed

lemma b64_char_ascii: "(of_char (b64_char n) :: nat) < 128"
  by (auto simp: b64_char_def)

lemma a2b_data_char:
  "n < 64 \<Longrightarrow> a2b_base64 q l p (b64_char n # cs) =
     (if q = 0 then a2b_base64 1 n 0 cs
      else if q = 1 then map_option ((#) (l * 4 + n div 16)) (a2b_base64 2 (n mod 16) 0 cs)
      else if q = 2 then map_option ((#) (l * 16 + n div 4)) (a2b_base64 3 (n mod 4) 0 cs)
      else map_option ((#) (l * 64 + n)) (a2b_base64 0 0 0 cs))"
  by (simp add: b64_char_not_pad b64_value_char)

definition is_bytes :: "nat list \<Rightarrow> bool" where
  "is_bytes bs = list_all (\<lambda>b. b < 256) bs"

lemma b64_decode_encode:
  assumes "is_bytes bs"
  shows "a2b_base64 0 0 p (b64_data bs @ replicate ((3 - length bs mod 3) mod 3) (CHR ''='')) = Some bs"
  using assms
proof (induction bs arbitrary: p rule: b64_data.induct)
  case (2 a)
  then have "a div 4 < 64" "a mod 4 * 16 < 64" by (auto simp: is_bytes_def)
  then show ?case by (simp add: a2b_data_char numeral_2_eq_2 del: a2b_base64.simps(2)) simp
next
  case (3 a b)
  then have "a div 4 < 64" "a mod 4 * 16 + b div 16 < 64" "b mod 16 * 4 < 64" "b div 16 < 16"
    by (auto simp: is_bytes_def)
  then show ?case by (simp add: a2b_data_char del: a2b_base64.simps(2)) simp
next
  case (4 a b c bs)
  then have ab: "a div 4 < 64" "a mod 4 * 16 + b div 16 < 64" "b mod 16 * 4 + c div 64 < 64" "c mod 64 < 64"
      "b div 16 < 16" "c div 64 < 4"
    by (auto simp: is_bytes_def)
  have "(3 - Suc (Suc (Suc (length bs))) mod 3) mod 3 = (3 - length bs mod 3) mod 3"
    by (simp add: mod_Suc)
  then show ?case using ab 4
    by (simp add: a2b_data_char is_bytes_def del: a2b_base64.simps(2))
qed simp

lemma length_b64_data: "length (b64_data bs) = 4 * (length bs div 3) +
    (if length bs mod 3 = 0 then 0 else length bs mod 3 + 1)"
proof (induction bs rule: b64_data.induct)
  case (4 a b c bs)
  have "length (a # b # c # bs) = length bs + 3" by simp
  then have "length (a # b # c # bs) div 3 = Suc (length bs div 3)" "length (a # b # c # bs) mod 3 = length bs mod 3"
    by (simp_all only: mod_add_self2)
  moreover have "length bs mod 3 = 0 \<or> length bs mod 3 = 1 \<or> length bs mod 3 = 2" by linarith
  ultimately show ?case using 4 by (simp only: b64_data.simps length_append) auto
qed simp_all

lemma b64_data_chars: "c \<in> set (b64_data bs) \<Longrightarrow> \<exists>n. c = b64_char n"
  by (induction bs rule: b64_data.induct) auto

lemma rstrip_encoded: "rstrip_pad (urlsafe_b64encode bs) = b64_data bs"
proof -
  have "CHR ''='' \<notin> set (rev (b64_data bs))"
    using b64_char_not_pad b64_data_chars by fastforce
  then have "dropWhile (\<lambda>c. c = CHR ''='') (rev (b64_data bs)) = rev (b64_data bs)"
    by (cases "rev (b64_data bs)") auto
  moreover have "dropWhile (\<lambda>c. c = CHR ''='') (replicate n (CHR ''='') @ s) = dropWhile (\<lambda>c. c = CHR ''='') s" for n s
    by (induction n) auto
  ultimately show ?thesis by (simp add: rstrip_pad_def urlsafe_b64encode_def)
qed

lemma pad_length: "nat ((- int (length (b64_data bs))) mod 4) = (3 - length bs mod 3) mod 3"
proof -
  define q where "q = int (length bs div 3)"
  have "(- (4 * q)) mod 4 = 0" "(- (4 * q + 2)) mod 4 = 2" "(- (4 * q + 3)) mod 4 = 1" by presburger+
  moreover have "length bs mod 3 = 0 \<or> length bs mod 3 = 1 \<or> length bs mod 3 = 2" by linarith
  ultimately show ?thesis
    by (elim disjE) (simp_all add: length_b64_data q_def [symmetric] add.commute)
qed

lemma is_bytes_text: "is_bytes (map of_char (s :: str))"
proof -
  have "(of_char c :: nat) < 256" for c :: char
    by (metis mod_less_divisor of_char_mod_256 zero_less_numeral)
  then show ?thesis by (simp add: is_bytes_def list_all_iff)
qed

lemma decode_encoded:
  assumes "page_lib_ok lib"
  shows "decode_page_token lib (encode_page_token lib pos) = Some pos"
proof -
  obtain t u where pos: "pos = (t, u)" by fastforce
  let ?bs = "map of_char (token_json (isoformat lib t) (str_of_uuid lib u)) :: nat list"
  have tok: "encode_page_token lib pos = b64_data ?bs"
    by (simp add: encode_page_token_def rstrip_encoded pos)
  have "is_ascii (b64_data ?bs)"
    using b64_data_chars b64_char_ascii by (fastforce simp: is_ascii_def list_all_iff)
  moreover have "urlsafe_b64decode (b64_data ?bs @ replicate (nat ((- int (length (b64_data ?bs))) mod 4)) (CHR ''=''))
      = Some ?bs"
    unfolding urlsafe_b64decode_def pad_length by (rule b64_decode_encode [OF is_bytes_text])
  ultimately show ?thesis
    using assms unfolding decode_page_token_def tok Let_def
    by (simp add: page_lib_ok_def jget_def jstr_def pos)
qed

section \<open>Lemmas on pages\<close>

lemma before_None [simp]: "before None k"
  by (simp add: before_def)

lemma length_keyset_rows [simp]: "length (keyset_rows key rows None) = length rows"
  by (simp add: keyset_rows_def)

lemma keyset_rows_filter: "keyset_rows key rows cur = filter (\<lambda>r. before cur (key r)) (keyset_rows key rows None)"
  by (simp add: keyset_rows_def rev_filter [symmetric] filter_sort)

lemma keyset_rows_set [simp]: "set (keyset_rows key rows cur) = {r \<in> set rows. before cur (key r)}"
  by (auto simp: keyset_rows_def)

lemma keyset_rows_desc:
  assumes "keys_distinct key rows"
  shows "sorted_wrt (\<lambda>a b. key b < key a) (keyset_rows key rows cur)"
proof -
  let ?xs = "sort_key key (filter (\<lambda>r. before cur (key r)) rows)"
  have "distinct (map key (filter (\<lambda>r. before cur (key r)) rows))"
    using assms by (simp add: keys_distinct_def distinct_map_filter)
  then have "distinct (map key ?xs)" by (simp add: distinct_map)
  moreover have "sorted (map key ?xs)" by simp
  ultimately have "sorted_wrt (<) (map key ?xs)" by (simp add: strict_sorted_iff)
  then show ?thesis by (simp add: keyset_rows_def sorted_wrt_rev sorted_wrt_map)
qed

lemma desc_filter_drop:
  assumes "sorted_wrt (\<lambda>a b. key b < (key a :: 'k :: linorder)) L" and "0 < k" and "k \<le> length L"
  shows "filter (\<lambda>r. key r < key (L ! (k - 1))) L = drop k L"
  using assms
proof (induction L arbitrary: k)
  case (Cons x L)
  show ?case
  proof (cases "k = 1")
    case True
    then show ?thesis using Cons.prems(1) by (auto simp: filter_id_conv)
  next
    case False
    then have k: "0 < k - 1" "k - 1 \<le> length L" using Cons.prems by auto
    have "(x # L) ! (k - 1) \<in> set L" using k by (simp add: nth_Cons')
    then have "\<not> key x < key ((x # L) ! (k - 1))" using Cons.prems(1) by (meson less_asym sorted_wrt.simps(2))
    then show ?thesis using Cons.IH [of "k - 1"] Cons.prems(1) k by (cases k) (auto simp: nth_Cons')
  qed
qed simp

text \<open>The page at position \<open>k\<close>, and the cursor that leads to the next one.\<close>

definition at_position :: "('r \<Rightarrow> 'k :: linorder) \<Rightarrow> 'r list \<Rightarrow> nat \<Rightarrow> 'k option" where
  "at_position key rows k = (if k = 0 then None else Some (key (keyset_rows key rows None ! (k - 1))))"

lemma keyset_rows_position:
  assumes "keys_distinct key rows" and "k \<le> length rows"
  shows "keyset_rows key rows (at_position key rows k) = drop k (keyset_rows key rows None)"
proof (cases "k = 0")
  case False
  with assms(2) show ?thesis
    using desc_filter_drop [OF keyset_rows_desc [OF assms(1), of None], of k]
    by (subst keyset_rows_filter) (simp add: at_position_def before_def)
qed (simp add: at_position_def)

lemma keyset_page_position:
  assumes "keys_distinct key rows" and "k \<le> length rows" and "0 < limit"
  shows "keyset_page key rows (at_position key rows k) limit =
    (take limit (drop k (keyset_rows key rows None)),
     if k + limit < length rows then at_position key rows (k + limit) else None)"
proof -
  let ?L = "keyset_rows key rows None"
  have len: "length ?L = length rows" by simp
  have "key (last (take limit (drop k ?L))) = key (?L ! (k + limit - 1))" if "k + limit < length rows"
    using that assms(3) len by (subst last_conv_nth) auto
  then show ?thesis
    unfolding keyset_page_def keyset_rows_position [OF assms(1,2)] Let_def
    using assms len by (auto simp: at_position_def min_def)
qed

text \<open>Only the rows before the cursor matter.\<close>

lemma keyset_rows_cong:
  assumes "keys_distinct key rows" and "keys_distinct key rows'"
    and "{r \<in> set rows. before cur (key r)} = {r \<in> set rows'. before cur (key r)}"
  shows "keyset_rows key rows cur = keyset_rows key rows' cur"
proof -
  let ?f = "\<lambda>rows. filter (\<lambda>r. before cur (key r)) rows"
  have d: "distinct (map key (?f rows))" "distinct (map key (?f rows'))"
    using assms(1,2) by (simp_all add: keys_distinct_def distinct_map_filter)
  have s: "set (?f rows) = set (?f rows')" using assms(3) by (simp add: set_filter)
  have "sort_key key (?f rows) = sort_key key (?f rows')"
    using d s by (intro map_sorted_distinct_set_unique [of key]) (auto simp: distinct_map)
  then show ?thesis by (simp add: keyset_rows_def)
qed

section \<open>The contract of a list service\<close>

text \<open>
  \<open>fetch\<close> answers one request with the items of a page and the token of the next one;
  \<open>rows\<close> are the rows the caller may see. The law says the answer is the page of
  \<open>keyset_page\<close>, with the cursor wrapped in a token. \<open>okay\<close> is what the service needs
  of its libraries.
\<close>

locale keyset_listing =
  fixes okay :: "'ctx \<Rightarrow> bool"
    and fetch :: "'ctx \<Rightarrow> 'db \<Rightarrow> 'q \<Rightarrow> nat \<Rightarrow> str option \<Rightarrow> 'e + 'item list \<times> str option"
    and rows :: "'ctx \<Rightarrow> 'db \<Rightarrow> 'q \<Rightarrow> 'r list"
    and key :: "'r \<Rightarrow> 'k :: linorder"
    and item :: "'ctx \<Rightarrow> 'r \<Rightarrow> 'item"
    and tok :: "'ctx \<Rightarrow> 'k \<Rightarrow> str"
  assumes fetch_page: "okay ctx \<Longrightarrow>
      fetch ctx db q limit (map_option (tok ctx) cur) =
        Inr (map (item ctx) (fst (keyset_page key (rows ctx db q) cur limit)),
             map_option (tok ctx) (snd (keyset_page key (rows ctx db q) cur limit)))"
begin

text \<open>Following the page tokens, with the database as it is at each request.\<close>

fun walk :: "'ctx \<Rightarrow> (nat \<Rightarrow> 'db) \<Rightarrow> 'q \<Rightarrow> nat \<Rightarrow> nat \<Rightarrow> nat \<Rightarrow> str option \<Rightarrow> 'item list" where
  "walk ctx dbs q limit i 0 t = []"
| "walk ctx dbs q limit i (Suc n) t =
     (case fetch ctx (dbs i) q limit t of
        Inl e \<Rightarrow> []
      | Inr (page, None) \<Rightarrow> page
      | Inr (page, Some t') \<Rightarrow> page @ walk ctx dbs q limit (Suc i) n (Some t'))"

text \<open>Between the requests only rows with larger keys appear.\<close>

definition grows :: "'ctx \<Rightarrow> (nat \<Rightarrow> 'db) \<Rightarrow> 'q \<Rightarrow> bool" where
  "grows ctx dbs q \<longleftrightarrow> (\<forall>i. keys_distinct key (rows ctx (dbs i) q) \<and>
     set (rows ctx (dbs 0) q) \<subseteq> set (rows ctx (dbs i) q) \<and>
     (\<forall>r \<in> set (rows ctx (dbs i) q) - set (rows ctx (dbs 0) q). \<forall>p \<in> set (rows ctx (dbs 0) q). key p < key r))"

lemma same_page:
  assumes "grows ctx dbs q" and "k \<le> length (rows ctx (dbs 0) q)" and "i = 0 \<or> 0 < k"
  shows "keyset_page key (rows ctx (dbs i) q) (at_position key (rows ctx (dbs 0) q) k) limit =
         keyset_page key (rows ctx (dbs 0) q) (at_position key (rows ctx (dbs 0) q) k) limit"
proof (cases "i = 0")
  case False
  let ?R = "\<lambda>i. rows ctx (dbs i) q"
  let ?L = "keyset_rows key (?R 0) None"
  have k: "0 < k" using assms(3) False by simp
  then have "?L ! (k - 1) \<in> set ?L" using assms(2) by (intro nth_mem) simp
  then have p: "?L ! (k - 1) \<in> set (?R 0)" by simp
  have g: "keys_distinct key (?R i)" "keys_distinct key (?R 0)" "set (?R 0) \<subseteq> set (?R i)"
    "\<And>r. r \<in> set (?R i) \<Longrightarrow> r \<notin> set (?R 0) \<Longrightarrow> key (?L ! (k - 1)) < key r"
    using assms(1) p unfolding grows_def by blast+
  have "{r \<in> set (?R i). before (at_position key (?R 0) k) (key r)}
      = {r \<in> set (?R 0). before (at_position key (?R 0) k) (key r)}"
    using g(3,4) k by (auto simp: before_def at_position_def) (meson less_asym)
  then show ?thesis
    using keyset_rows_cong [OF g(1,2)] by (simp add: keyset_page_def)
qed simp

lemma walk_from:
  assumes "okay ctx" and "grows ctx dbs q" and "0 < limit"
    and "k \<le> length (rows ctx (dbs 0) q)" and "i = 0 \<or> 0 < k" and "length (rows ctx (dbs 0) q) < k + n"
  shows "walk ctx dbs q limit i n (map_option (tok ctx) (at_position key (rows ctx (dbs 0) q) k)) =
    map (item ctx) (drop k (keyset_rows key (rows ctx (dbs 0) q) None))"
  using assms(4-)
proof (induction n arbitrary: i k)
  case (Suc n)
  let ?R = "rows ctx (dbs 0) q" and ?L = "keyset_rows key (rows ctx (dbs 0) q) None"
  have d: "keys_distinct key ?R" using assms(2) by (simp add: grows_def)
  have page: "keyset_page key (rows ctx (dbs i) q) (at_position key ?R k) limit =
      (take limit (drop k ?L), if k + limit < length ?R then at_position key ?R (k + limit) else None)"
    using same_page [OF assms(2) Suc.prems(1,2)] keyset_page_position [OF d Suc.prems(1) assms(3)] by simp
  show ?case
  proof (cases "k + limit < length ?R")
    case True
    have "walk ctx dbs q limit (Suc i) n (map_option (tok ctx) (at_position key ?R (k + limit))) =
        map (item ctx) (drop (k + limit) ?L)"
      using Suc.IH [of "k + limit" "Suc i"] True assms(3) Suc.prems(3) by simp
    moreover have "map (item ctx) (drop k ?L) =
        map (item ctx) (take limit (drop k ?L)) @ map (item ctx) (drop (k + limit) ?L)"
      by (metis add.commute append_take_drop_id drop_drop map_append)
    ultimately show ?thesis
      using True assms(3) unfolding walk.simps fetch_page [OF assms(1)] page
      by (simp add: at_position_def)
  next
    case False
    then show ?thesis unfolding walk.simps fetch_page [OF assms(1)] page by simp
  qed
qed simp

text \<open>All pages together are exactly the rows of the first request, newest first.\<close>

lemma walk_all:
  assumes "okay ctx" and "grows ctx dbs q" and "0 < limit" and "length (rows ctx (dbs 0) q) < n"
  shows "walk ctx dbs q limit 0 n None = map (item ctx) (keyset_rows key (rows ctx (dbs 0) q) None)"
  using walk_from [OF assms(1-3), of 0 0 n] assms(4) by (simp add: at_position_def)

end

section \<open>A concrete library\<close>

definition demo_loads :: "nat list \<Rightarrow> json option" where
  "demo_loads bs =
     (let s = map char_of bs;
          c = takeWhile (\<lambda>x. x \<noteq> CHR 0x22) (drop 6 s);
          i = takeWhile (\<lambda>x. x \<noteq> CHR 0x22) (drop 7 (drop (length c) (drop 6 s)))
      in Some (JObj [(''c'', JStr c), (''i'', JStr i)]))"

definition demo_page_lib :: page_lib where
  "demo_page_lib = \<lparr>isoformat = unary, fromisoformat = (\<lambda>s. Some (of_unary s, True)),
     str_of_uuid = (\<lambda>u. unary (int u)), uuid_of_str = (\<lambda>s. Some (nat (of_unary s))),
     json_loads = demo_loads\<rparr>"

lemma takeWhile_quote: "takeWhile (\<lambda>x. x \<noteq> CHR 0x22) (unary i @ CHR 0x22 # s) = unary i"
  by (subst takeWhile_append2) (use set_unary [of i] in auto)

lemma demo_page_lib_ok: "page_lib_ok demo_page_lib"
proof -
  have codes: "map char_of (map of_char s :: nat list) = s" for s :: str by (induction s) auto
  have "demo_loads (map of_char (token_json (unary t) (unary (int u)))) =
      Some (JObj [(''c'', JStr (unary t)), (''i'', JStr (unary (int u)))])" for t u
    unfolding demo_loads_def codes Let_def
    by (simp add: token_json_def takeWhile_quote del: unary.simps)
  then show ?thesis by (simp add: page_lib_ok_def demo_page_lib_def del: unary.simps)
qed

section \<open>Properties\<close>

text \<open>
  A page token decodes to the position it was made from, whatever the length of the
  encoded text: the padding that \<open>encode_page_token\<close> strips is restored exactly.
\<close>

lemma page_token_roundtrip:
  assumes "page_lib_ok lib"
  shows "decode_page_token lib (encode_page_token lib pos) = Some pos"
  using assms by (rule decode_encoded)

lemma page_token_roundtrip_witness:
  "decode_page_token demo_page_lib (encode_page_token demo_page_lib (5, 7)) = Some (5, 7)"
  by (rule page_token_roundtrip [OF demo_page_lib_ok])

end
