(* ===== verification/Pending_Actions.thy ===== *)
theory Pending_Actions
  imports Action_Handlers Pagination
begin

text \<open>
  The durable pending actions (\<open>server/services/pending_actions.py\<close>, the tables
  \<open>PendingAction\<close> and \<open>PendingActionAuditEvent\<close> of \<open>server/models.py\<close>, the
  hashes of \<open>tools/idempotency.py\<close>). An operation takes the database it finds and returns its
  result with the database it commits; a raised exception is the left summand and leaves the
  database as it was. An operation made of two transactions takes the function that describes what
  other sessions commit between them. A clock argument gives the successive readings of
  \<open>_now()\<close>; generated ids and tokens are arguments.
\<close>

section \<open>State\<close>

datatype action_status =
    PENDING | PROCESSING | SUCCEEDED | FAILED | REJECTED | EXPIRED | RECONCILIATION_REQUIRED

record pending_action =
  pa_id :: uuid
  pa_user_id :: uuid
  pa_action_type :: str
  pa_payload :: payload
  pa_payload_hash :: str
  pa_idempotency_key :: str
  pa_command_key :: str
  pa_summary :: str
  pa_status :: action_status
  pa_result :: "(str \<times> json) list option"
  pa_error_code :: "str option"
  pa_attempt_token :: "str option"
  pa_attempt_count :: nat
  pa_attempt_started_at :: "time option"
  pa_lease_expires_at :: "time option"
  pa_reconciliation_reason :: "str option"
  pa_reconciliation_evidence :: "(str \<times> json) list option"
  pa_reconciliation_required_at :: "time option"
  pa_created_at :: time
  pa_expires_at :: time
  pa_approved_at :: "time option"
  pa_processed_at :: "time option"

record audit_event =
  ae_action_id :: uuid
  ae_actor_user_id :: "uuid option"
  ae_event_type :: str
  ae_old_status :: "action_status option"
  ae_new_status :: action_status
  ae_attempt_token :: "str option"
  ae_reason :: "str option"
  ae_evidence :: "(str \<times> json) list option"

record action_db =
  actions :: "pending_action list"
  audits :: "audit_event list"

record action_lib =
  al_handler :: handler_lib
  al_page :: page_lib
  json_dumps :: "payload \<Rightarrow> str"

datatype service_error =
    ValueError str
  | PendingActionNotFound
  | PendingActionInvalidState str
  | PendingActionCommandConflict
  | PendingActionExecutionError str
  | IntegrityError
  | InvalidPageToken
  | RaisedFailure raw_failure
  | LookupNotFinished

section \<open>Constants, keys and hashes\<close>

definition SUPPORTED_ACTIONS :: "str list" where
  "SUPPORTED_ACTIONS = [''send_email'', ''send_reply'', ''create_event'', ''create_task'']"

definition PENDING_ACTION_TTL :: time where
  "PENDING_ACTION_TTL = minutes 15"

definition PROCESSING_LEASE :: time where
  "PROCESSING_LEASE = minutes 2"

definition EXPIRY_SWEEP_BATCH :: nat where
  "EXPIRY_SWEEP_BATCH = 500"

definition validate_command_key :: "str \<Rightarrow> bool" where
  "validate_command_key k = (list_all is_alnum_id k \<and> 16 \<le> length k \<and> length k \<le> 128)"

definition make_payload_hash :: "action_lib \<Rightarrow> payload \<Rightarrow> str" where
  "make_payload_hash lib p = sha256_hex (al_handler lib) (json_dumps lib p)"

definition make_command_record_key :: "action_lib \<Rightarrow> str \<Rightarrow> str \<Rightarrow> str" where
  "make_command_record_key lib user_id command_key =
     sha256_hex (al_handler lib) (user_id @ '':'' @ command_key)"

definition command_record_key :: "action_lib \<Rightarrow> uuid \<Rightarrow> str \<Rightarrow> str" where
  "command_record_key lib user_id command_key =
     make_command_record_key lib (str_of_uuid (al_page lib) user_id) command_key"

definition quoted :: "str \<Rightarrow> str" where
  "quoted s = CHR 0x27 # s @ [CHR 0x27]"

definition attendee_strs :: "payload \<Rightarrow> str list" where
  "attendee_strs p = (case pjson p ''attendee_emails'' of
     JArr js \<Rightarrow> (case str_items js of Some es \<Rightarrow> es | None \<Rightarrow> []) | _ \<Rightarrow> [])"

definition action_summary :: "str \<Rightarrow> payload \<Rightarrow> str" where
  "action_summary action_type p =
     (if action_type = ''send_email'' then
        ''Send email to '' @ pstr p ''recipient_email'' @ '' with subject '' @ quoted (pstr p ''subject'')
      else if action_type = ''send_reply'' then
        ''Reply to '' @ pstr p ''recipient_email'' @ '' in message '' @ pstr p ''original_message_id''
      else if action_type = ''create_event'' then
        ''Create event '' @ quoted (pstr p ''title'') @ '' from '' @ pstr p ''start_time_iso'' @ '' to '' @
        pstr p ''end_time_iso'' @
        (if attendee_strs p = [] then [] else '' with attendees '' @ join '', '' (attendee_strs p))
      else ''Create task '' @ quoted (pstr p ''title''))"

section \<open>What leaves the service\<close>

record action_view =
  av_id :: uuid
  av_action_type :: str
  av_payload :: payload
  av_payload_hash :: str
  av_summary :: str
  av_status :: action_status
  av_result :: "(str \<times> json) list option"
  av_error_code :: "str option"
  av_created_at :: time
  av_expires_at :: time
  av_approved_at :: "time option"
  av_processed_at :: "time option"
  av_command_key :: str
  av_attempt_token :: "str option"
  av_attempt_count :: nat
  av_attempt_started_at :: "time option"
  av_lease_expires_at :: "time option"
  av_reconciliation_reason :: "str option"
  av_reconciliation_required_at :: "time option"

definition action_to_dict :: "pending_action \<Rightarrow> action_view" where
  "action_to_dict a = \<lparr>av_id = pa_id a, av_action_type = pa_action_type a, av_payload = pa_payload a,
     av_payload_hash = pa_payload_hash a, av_summary = pa_summary a, av_status = pa_status a,
     av_result = pa_result a, av_error_code = pa_error_code a, av_created_at = pa_created_at a,
     av_expires_at = pa_expires_at a, av_approved_at = pa_approved_at a, av_processed_at = pa_processed_at a,
     av_command_key = pa_command_key a, av_attempt_token = pa_attempt_token a,
     av_attempt_count = pa_attempt_count a, av_attempt_started_at = pa_attempt_started_at a,
     av_lease_expires_at = pa_lease_expires_at a, av_reconciliation_reason = pa_reconciliation_reason a,
     av_reconciliation_required_at = pa_reconciliation_required_at a\<rparr>"

definition command_of :: "action_view \<Rightarrow> command" where
  "command_of v = \<lparr>cmd_action_type = av_action_type v, cmd_payload = av_payload v, cmd_key = av_command_key v\<rparr>"

section \<open>Rows\<close>

definition find_action :: "action_db \<Rightarrow> uuid \<Rightarrow> pending_action option" where
  "find_action db i = tbl_get pa_id i (actions db)"

definition find_owned :: "action_db \<Rightarrow> uuid \<Rightarrow> uuid \<Rightarrow> pending_action option" where
  "find_owned db i user_id =
     (case find_action db i of Some a \<Rightarrow> if pa_user_id a = user_id then Some a else None | None \<Rightarrow> None)"

definition command_id :: "pending_action \<Rightarrow> uuid \<times> str" where
  "command_id a = (pa_user_id a, pa_command_key a)"

definition find_command :: "action_db \<Rightarrow> uuid \<Rightarrow> str \<Rightarrow> pending_action option" where
  "find_command db owner_id command_key = tbl_get command_id (owner_id, command_key) (actions db)"

text \<open>An empty mapping is stored as \<open>NULL\<close>.\<close>

definition non_empty :: "'a list \<Rightarrow> 'a list option" where
  "non_empty xs = (if xs = [] then None else Some xs)"

definition audit ::
  "pending_action \<Rightarrow> str \<Rightarrow> action_status \<Rightarrow> action_status \<Rightarrow> uuid option \<Rightarrow> str option \<Rightarrow> (str \<times> json) list \<Rightarrow> audit_event" where
  "audit a event_type old_status new_status actor reason evidence =
     \<lparr>ae_action_id = pa_id a, ae_actor_user_id = actor, ae_event_type = event_type,
      ae_old_status = Some old_status, ae_new_status = new_status, ae_attempt_token = pa_attempt_token a,
      ae_reason = reason, ae_evidence = non_empty evidence\<rparr>"

text \<open>The row as changed in the session, with its audit event, committed together.\<close>

definition commit_row :: "pending_action \<Rightarrow> audit_event \<Rightarrow> action_db \<Rightarrow> action_db" where
  "commit_row a e db = db\<lparr>actions := tbl_put pa_id a (actions db), audits := audits db @ [e]\<rparr>"

definition mark_reconciliation_required ::
  "clock \<Rightarrow> str \<Rightarrow> (str \<times> json) list \<Rightarrow> uuid option \<Rightarrow> str \<Rightarrow> pending_action \<Rightarrow> pending_action \<times> audit_event" where
  "mark_reconciliation_required ck reason evidence actor event_type a =
     (let a' = a\<lparr>pa_status := RECONCILIATION_REQUIRED, pa_error_code := Some reason,
                 pa_reconciliation_reason := Some reason,
                 pa_reconciliation_evidence := non_empty evidence,
                 pa_reconciliation_required_at := Some (ck 0), pa_processed_at := Some (ck 1)\<rparr>
      in (a', audit a' event_type (pa_status a) RECONCILIATION_REQUIRED actor (Some reason) evidence))"

definition commit_reconciliation ::
  "clock \<Rightarrow> str \<Rightarrow> (str \<times> json) list \<Rightarrow> uuid option \<Rightarrow> str \<Rightarrow> pending_action \<Rightarrow> action_db \<Rightarrow> pending_action \<times> action_db" where
  "commit_reconciliation ck reason evidence actor event_type a db =
     (case mark_reconciliation_required ck reason evidence actor event_type a of
        (a', e) \<Rightarrow> (a', commit_row a' e db))"

definition require_canonical_payload :: "action_lib \<Rightarrow> pending_action \<Rightarrow> payload option" where
  "require_canonical_payload lib a =
     (case canonicalize_action_payload (hl_payload (al_handler lib)) (pa_action_type a) (pa_payload a) of
        None \<Rightarrow> None
      | Some p \<Rightarrow> if make_payload_hash lib p \<noteq> pa_payload_hash a then None else Some p)"

section \<open>Creation\<close>

text \<open>The check of an action already stored under the command key.\<close>

definition reuse_existing :: "str \<Rightarrow> str \<Rightarrow> pending_action \<Rightarrow> service_error + action_view" where
  "reuse_existing action_type payload_hash existing =
     (if pa_action_type existing \<noteq> action_type \<or> pa_payload_hash existing \<noteq> payload_hash
      then Inl PendingActionCommandConflict else Inr (action_to_dict existing))"

definition new_action ::
  "action_lib \<Rightarrow> clock \<Rightarrow> uuid \<Rightarrow> uuid \<Rightarrow> str \<Rightarrow> payload \<Rightarrow> str \<Rightarrow> pending_action" where
  "new_action lib ck new_id owner_id action_type p command_key =
     \<lparr>pa_id = new_id, pa_user_id = owner_id, pa_action_type = action_type, pa_payload = p,
      pa_payload_hash = make_payload_hash lib p,
      pa_idempotency_key = command_record_key lib owner_id command_key, pa_command_key = command_key,
      pa_summary = action_summary action_type p, pa_status = PENDING, pa_result = None,
      pa_error_code = None, pa_attempt_token = None, pa_attempt_count = 0, pa_attempt_started_at = None,
      pa_lease_expires_at = None, pa_reconciliation_reason = None, pa_reconciliation_evidence = None,
      pa_reconciliation_required_at = None, pa_created_at = ck 1,
      pa_expires_at = ck 0 + PENDING_ACTION_TTL, pa_approved_at = None, pa_processed_at = None\<rparr>"

text \<open>\<open>INSERT\<close> under the primary key and the unique owner/key index.\<close>

definition insert_action :: "pending_action \<Rightarrow> action_db \<Rightarrow> action_db option" where
  "insert_action a db =
     (if find_action db (pa_id a) \<noteq> None \<or> find_command db (pa_user_id a) (pa_command_key a) \<noteq> None then None
      else Some (db\<lparr>actions := actions db @ [a]\<rparr>))"

definition create_pending_action ::
  "action_lib \<Rightarrow> (action_db \<Rightarrow> action_db) \<Rightarrow> clock \<Rightarrow> uuid \<Rightarrow> str \<Rightarrow> str \<Rightarrow> payload \<Rightarrow> str \<Rightarrow> action_db \<Rightarrow>
   (service_error + action_view) \<times> action_db" where
  "create_pending_action lib interfere ck new_id user_id action_type payload command_key db =
     (if action_type \<notin> set SUPPORTED_ACTIONS then (Inl (ValueError ''Unsupported pending action type''), db)
      else case uuid_of_str (al_page lib) user_id of
        None \<Rightarrow> (Inl (ValueError ''badly formed hexadecimal UUID string''), db)
      | Some owner_id \<Rightarrow>
          if \<not> validate_command_key command_key then (Inl (ValueError ''Invalid server command key''), db)
          else case canonicalize_action_payload (hl_payload (al_handler lib)) action_type payload of
            None \<Rightarrow> (Inl (ValueError ''payload''), db)
          | Some p \<Rightarrow>
              (case find_command db owner_id command_key of
                 Some existing \<Rightarrow> (reuse_existing action_type (make_payload_hash lib p) existing, db)
               | None \<Rightarrow>
                   let action = new_action lib ck new_id owner_id action_type p command_key;
                       db1 = interfere db
                   in case insert_action action db1 of
                        Some db2 \<Rightarrow> (Inr (action_to_dict action), db2)
                      | None \<Rightarrow>
                          (case find_command db1 owner_id command_key of
                             Some existing \<Rightarrow> (reuse_existing action_type (make_payload_hash lib p) existing, db1)
                           | None \<Rightarrow> (Inl IntegrityError, db1))))"

section \<open>Reply targets\<close>

definition query_for_reply :: "str \<Rightarrow> str \<Rightarrow> str" where
  "query_for_reply recipient_email subject_filter =
     ''from:('' @ recipient_email @ '')'' @
     (if subject_filter = [] then []
      else '' subject:'' @ [CHR 0x22] @ filter (\<lambda>c. c \<noteq> CHR 0x22) subject_filter @ [CHR 0x22])"

definition header_addresses :: "handler_lib \<Rightarrow> str \<Rightarrow> str list" where
  "header_addresses lib value = map casefold (filter (\<lambda>a. a \<noteq> []) (getaddresses lib value))"

text \<open>The frozen routing data, from the metadata of the matching message.\<close>

definition reply_target_of ::
  "handler_lib \<Rightarrow> json \<Rightarrow> json \<Rightarrow> service_error + (str \<times> json) list" where
  "reply_target_of lib original_message_id source =
     (case headers_of source of
        Inl e \<Rightarrow> Inl (RaisedFailure e)
      | Inr headers \<Rightarrow>
          (case (header_text headers ''Reply-To'', header_text headers ''From'', header_text headers ''Message-ID'',
                 header_text headers ''Subject'', header_text headers ''References'') of
             (Inr reply_to, Inr sender, Inr rfc_id, Inr subject, Inr references) \<Rightarrow>
               let candidates = (if header_addresses lib reply_to \<noteq> [] then header_addresses lib reply_to
                                 else header_addresses lib sender);
                   thread_id = jget ''threadId'' source
               in if length candidates \<noteq> 1 \<or> \<not> truthy thread_id \<or> rfc_id = []
                  then Inl (PendingActionExecutionError ''Reply target did not include stable recipient/thread metadata.'')
                  else Inr [(''recipient_email'', JStr (hd candidates)),
                            (''original_message_id'', original_message_id), (''thread_id'', the thread_id),
                            (''original_rfc_message_id'', JStr rfc_id),
                            (''original_references'', JStr references),
                            (''original_subject'', JStr (if subject = [] then ''(no subject)'' else subject))]
           | _ \<Rightarrow> Inl (RaisedFailure (OtherFailure ''AttributeError'' ''get''))))"

definition op_error :: "op_failure \<Rightarrow> service_error" where
  "op_error f = RaisedFailure (case f of GoogleFailure e \<Rightarrow> ProviderError e | Propagated r \<Rightarrow> r)"

definition resolve_reply_target ::
  "handler_lib \<Rightarrow> services \<Rightarrow> str \<Rightarrow> str \<Rightarrow> history \<Rightarrow> (service_error + (str \<times> json) list) \<times> history" where
  "resolve_reply_target lib sv recipient_email subject_filter h =
     (case call_read sv (MessagesList (query_for_reply recipient_email subject_filter) None) h of
        (Inl f, h1) \<Rightarrow> (Inl (op_error f), h1)
      | (Inr response, h1) \<Rightarrow>
          (case (if is_jobj response then get_list ''messages'' response
                 else Inl (OtherFailure ''AttributeError'' ''get'')) of
             Inl e \<Rightarrow> (Inl (RaisedFailure e), h1)
           | Inr [] \<Rightarrow> (Inl (PendingActionExecutionError ''No matching email was found for this reply.''), h1)
           | Inr (m # _) \<Rightarrow>
               (case py_get ''id'' m of
                  Inl e \<Rightarrow> (Inl (RaisedFailure e), h1)
                | Inr original_message_id \<Rightarrow>
                    if \<not> truthy original_message_id
                    then (Inl (PendingActionExecutionError ''Reply target did not include a message ID.''), h1)
                    else (case call_read sv (MessagesGet (the original_message_id)) h1 of
                            (Inl f, h2) \<Rightarrow> (Inl (op_error f), h2)
                          | (Inr source, h2) \<Rightarrow> (reply_target_of lib (the original_message_id) source, h2)))))"

section \<open>Reading\<close>

definition get_pending_action :: "uuid \<Rightarrow> uuid \<Rightarrow> action_db \<Rightarrow> service_error + action_view" where
  "get_pending_action action_id user_id db =
     (case find_owned db action_id user_id of None \<Rightarrow> Inl PendingActionNotFound | Some a \<Rightarrow> Inr (action_to_dict a))"

definition get_pending_action_for_reconciliation ::
  "uuid \<Rightarrow> action_db \<Rightarrow> service_error + (action_view \<times> uuid)" where
  "get_pending_action_for_reconciliation action_id db =
     (case find_action db action_id of
        None \<Rightarrow> Inl PendingActionNotFound | Some a \<Rightarrow> Inr (action_to_dict a, pa_user_id a))"

record action_summary_row =
  as_id :: uuid
  as_action_type :: str
  as_summary :: str
  as_status :: action_status
  as_created_at :: time
  as_expires_at :: time
  as_is_expired :: bool

definition action_key :: "pending_action \<Rightarrow> cursor" where
  "action_key a = (pa_created_at a, pa_id a)"

definition summary_row :: "time \<Rightarrow> pending_action \<Rightarrow> action_summary_row" where
  "summary_row now a = \<lparr>as_id = pa_id a, as_action_type = pa_action_type a, as_summary = pa_summary a,
     as_status = pa_status a, as_created_at = pa_created_at a, as_expires_at = pa_expires_at a,
     as_is_expired = (pa_status a = PENDING \<and> pa_expires_at a \<le> now)\<rparr>"

text \<open>The owner's rows in one status.\<close>

definition owned_actions :: "action_db \<Rightarrow> uuid \<times> action_status \<Rightarrow> pending_action list" where
  "owned_actions db q = filter (\<lambda>a. pa_user_id a = fst q \<and> pa_status a = snd q) (actions db)"

definition list_pending_actions ::
  "page_lib \<Rightarrow> time \<Rightarrow> action_db \<Rightarrow> uuid \<times> action_status \<Rightarrow> nat \<Rightarrow> str option \<Rightarrow>
   service_error + action_summary_row list \<times> str option" where
  "list_pending_actions lib now db q limit page_token =
     (case (case page_token of None \<Rightarrow> Some None | Some t \<Rightarrow> map_option Some (decode_page_token lib t)) of
        None \<Rightarrow> Inl InvalidPageToken
      | Some cur \<Rightarrow>
          let fetched = take (limit + 1) (keyset_rows action_key (owned_actions db q) cur);
              page = take limit fetched
          in Inr (map (summary_row now) page,
                  if length fetched > limit
                  then Some (encode_page_token lib (pa_created_at (last page), pa_id (last page))) else None))"

section \<open>Expiry sweep\<close>

definition is_stale :: "time \<Rightarrow> pending_action \<Rightarrow> bool" where
  "is_stale current a = (pa_status a = PENDING \<and> pa_expires_at a \<le> current)"

definition expire_row :: "time \<Rightarrow> pending_action \<Rightarrow> pending_action" where
  "expire_row current a = a\<lparr>pa_status := EXPIRED, pa_processed_at := Some current\<rparr>"

definition swept_event :: "uuid \<Rightarrow> audit_event" where
  "swept_event action_id = \<lparr>ae_action_id = action_id, ae_actor_user_id = None, ae_event_type = ''expired'',
     ae_old_status = Some PENDING, ae_new_status = EXPIRED, ae_attempt_token = None,
     ae_reason = Some ''swept_after_expiry'', ae_evidence = None\<rparr>"

text \<open>
  One batch: the oldest stale rows that no other session has locked are updated, and each
  updated row gets its audit event.
\<close>

definition stale_batch :: "(uuid \<Rightarrow> bool) \<Rightarrow> time \<Rightarrow> action_db \<Rightarrow> uuid list" where
  "stale_batch locked current db =
     map pa_id (take EXPIRY_SWEEP_BATCH (sort_key pa_expires_at
       (filter (\<lambda>a. is_stale current a \<and> \<not> locked (pa_id a)) (actions db))))"

definition expire_batch :: "(uuid \<Rightarrow> bool) \<Rightarrow> time \<Rightarrow> action_db \<Rightarrow> uuid list \<times> action_db" where
  "expire_batch locked current db =
     (let stale = stale_batch locked current db;
          hit = (\<lambda>a. pa_id a \<in> set stale \<and> pa_status a = PENDING);
          action_ids = map pa_id (filter hit (actions db))
      in (action_ids,
          db\<lparr>actions := map (\<lambda>a. if hit a then expire_row current a else a) (actions db),
             audits := audits db @ map swept_event action_ids\<rparr>))"

text \<open>Each batch leaves that many fewer pending rows, so the loop ends.\<close>

definition pending_count :: "action_db \<Rightarrow> nat" where
  "pending_count db = length (filter (\<lambda>a. pa_status a = PENDING) (actions db))"

lemma filter_partial_update:
  assumes "\<And>x. h x \<Longrightarrow> P x \<and> \<not> P (f x)"
  shows "length (filter P (map (\<lambda>x. if h x then f x else x) xs)) + length (filter h xs) = length (filter P xs)"
  using assms by (induction xs) auto

lemma expire_batch_count:
  "pending_count (snd (expire_batch locked current db)) + length (fst (expire_batch locked current db)) = pending_count db"
  using filter_partial_update [of "\<lambda>a. pa_id a \<in> set (stale_batch locked current db) \<and> pa_status a = PENDING"
      "\<lambda>a. pa_status a = PENDING" "expire_row current" "actions db"]
  by (simp add: pending_count_def expire_batch_def Let_def expire_row_def)

function expire_loop :: "(uuid \<Rightarrow> bool) \<Rightarrow> time \<Rightarrow> nat \<Rightarrow> action_db \<Rightarrow> nat \<times> action_db" where
  "expire_loop locked current swept db =
     (let r = expire_batch locked current db; swept' = swept + length (fst r) in
      if length (fst r) < EXPIRY_SWEEP_BATCH then (swept', snd r)
      else expire_loop locked current swept' (snd r))"
  by pat_completeness auto

termination expire_loop
proof (relation "measure (\<lambda>(locked, current, swept, db). pending_count db)")
  fix locked current db and swept :: nat and r swept'
  assume r: "r = expire_batch locked current db" and "\<not> length (fst r) < EXPIRY_SWEEP_BATCH"
  then have "0 < length (fst r)" unfolding EXPIRY_SWEEP_BATCH_def by linarith
  then have "pending_count (snd r) < pending_count db"
    using expire_batch_count [of locked current db] unfolding r by linarith
  then show "((locked, current, swept', snd r), (locked, current, swept, db))
      \<in> measure (\<lambda>(locked, current, swept, db). pending_count db)"
    by simp
qed simp

declare expire_loop.simps [simp del]

definition expire_stale_actions :: "(uuid \<Rightarrow> bool) \<Rightarrow> time \<Rightarrow> action_db \<Rightarrow> nat \<times> action_db" where
  "expire_stale_actions locked now db = expire_loop locked now 0 db"

section \<open>Approval\<close>

definition reject_pending_action ::
  "clock \<Rightarrow> uuid \<Rightarrow> uuid \<Rightarrow> action_db \<Rightarrow> (service_error + action_view) \<times> action_db" where
  "reject_pending_action ck action_id user_id db =
     (case find_owned db action_id user_id of
        None \<Rightarrow> (Inl PendingActionNotFound, db)
      | Some a \<Rightarrow>
          if pa_status a = PENDING then
            let a' = a\<lparr>pa_status := REJECTED, pa_processed_at := Some (ck 0)\<rparr>
            in (Inr (action_to_dict a'),
                commit_row a' (audit a' ''rejected'' PENDING REJECTED (Some user_id) None []) db)
          else if pa_status a \<notin> {REJECTED, EXPIRED}
          then (Inl (PendingActionInvalidState ''Cannot reject action''), db)
          else (Inr (action_to_dict a), db))"

definition lease_expired :: "time \<Rightarrow> pending_action \<Rightarrow> bool" where
  "lease_expired now a = (case pa_lease_expires_at a of None \<Rightarrow> True | Some t \<Rightarrow> t \<le> now)"

definition iso_or_null :: "page_lib \<Rightarrow> time option \<Rightarrow> json" where
  "iso_or_null lib t = (case t of None \<Rightarrow> JNull | Some x \<Rightarrow> JStr (isoformat lib x))"

definition claimed_row :: "time \<Rightarrow> str \<Rightarrow> pending_action \<Rightarrow> pending_action" where
  "claimed_row now token a = a\<lparr>pa_status := PROCESSING, pa_approved_at := Some now,
     pa_attempt_token := Some token, pa_attempt_count := pa_attempt_count a + 1,
     pa_attempt_started_at := Some now, pa_lease_expires_at := Some (now + PROCESSING_LEASE)\<rparr>"

definition claim_pending_action ::
  "action_lib \<Rightarrow> clock \<Rightarrow> str \<Rightarrow> uuid \<Rightarrow> uuid \<Rightarrow> action_db \<Rightarrow>
   (service_error + action_view \<times> bool) \<times> action_db" where
  "claim_pending_action lib ck token action_id user_id db =
     (case find_owned db action_id user_id of
        None \<Rightarrow> (Inl PendingActionNotFound, db)
      | Some a \<Rightarrow>
          let now = ck 0 in
          if pa_status a = PROCESSING \<and> lease_expired now a then
            (case commit_reconciliation (\<lambda>n. ck (n + 1)) ''processing_lease_expired''
                [(''lease_expires_at'', iso_or_null (al_page lib) (pa_lease_expires_at a))] None
                ''reconciliation_required'' a db of
               (a', db') \<Rightarrow> (Inr (action_to_dict a', False), db'))
          else if pa_status a = PENDING \<and> pa_expires_at a \<le> now then
            let a' = expire_row now a
            in (Inr (action_to_dict a', False),
                commit_row a' (audit a' ''expired'' PENDING EXPIRED None None []) db)
          else if pa_status a \<noteq> PENDING then (Inr (action_to_dict a, False), db)
          else case require_canonical_payload lib a of
            None \<Rightarrow>
              (case commit_reconciliation (\<lambda>n. ck (n + 1)) ''payload_integrity_mismatch''
                  [(''payload_hash'', JStr (pa_payload_hash a))] None ''reconciliation_required'' a db of
                 (a', db') \<Rightarrow> (Inr (action_to_dict a', False), db'))
          | Some p \<Rightarrow>
              let a' = claimed_row now token a
              in (Inr (action_to_dict a', True),
                  commit_row a' (audit a' ''claimed'' PENDING PROCESSING (Some user_id) None
                    [(''attempt_count'', JInt (int (pa_attempt_count a')))]) db))"

section \<open>Finalisation\<close>

definition require_attempt_token :: "action_view \<Rightarrow> service_error + str" where
  "require_attempt_token v =
     (case av_attempt_token v of
        Some token \<Rightarrow> if token = [] then Inl (PendingActionInvalidState ''Action claim has no attempt token'') else Inr token
      | None \<Rightarrow> Inl (PendingActionInvalidState ''Action claim has no attempt token''))"

record finalization =
  fz_status :: action_status
  fz_result :: "(str \<times> json) list"
  fz_error_code :: "str option"
  fz_event_type :: str
  fz_evidence :: "(str \<times> json) list"

text \<open>The row that the fence selects: still processing, under the same attempt token.\<close>

definition find_attempt :: "action_db \<Rightarrow> uuid \<Rightarrow> str \<Rightarrow> pending_action option" where
  "find_attempt db action_id token =
     (case find_action db action_id of
        Some a \<Rightarrow> if pa_status a = PROCESSING \<and> pa_attempt_token a = Some token then Some a else None
      | None \<Rightarrow> None)"

definition finalized_row :: "time \<Rightarrow> finalization \<Rightarrow> pending_action \<Rightarrow> pending_action" where
  "finalized_row now f a = a\<lparr>pa_status := fz_status f, pa_result := non_empty (fz_result f),
     pa_error_code := fz_error_code f, pa_processed_at := Some now\<rparr>"

definition finalize_claimed_action ::
  "clock \<Rightarrow> finalization \<Rightarrow> action_view \<Rightarrow> action_db \<Rightarrow> (service_error + action_view) \<times> action_db" where
  "finalize_claimed_action ck f v db =
     (case require_attempt_token v of
        Inl e \<Rightarrow> (Inl e, db)
      | Inr token \<Rightarrow>
          (case find_attempt db (av_id v) token of
             None \<Rightarrow>
               (case find_action db (av_id v) of
                  None \<Rightarrow> (Inl PendingActionNotFound, db)
                | Some current \<Rightarrow> (Inr (action_to_dict current), db))
           | Some row \<Rightarrow>
               if lease_expired (ck 0) row then
                 (case commit_reconciliation (\<lambda>n. ck (n + 1)) ''processing_lease_expired''
                     [(''finalizer'', JStr (fz_event_type f))] None ''reconciliation_required'' row db of
                    (row', db') \<Rightarrow> (Inr (action_to_dict row'), db'))
               else if fz_status f = RECONCILIATION_REQUIRED then
                 (case commit_reconciliation (\<lambda>n. ck (n + 1))
                     (case fz_error_code f of
                        None \<Rightarrow> ''provider_outcome_unknown''
                      | Some c \<Rightarrow> if c = [] then ''provider_outcome_unknown'' else c)
                     (fz_evidence f) None (fz_event_type f) row db of
                    (row', db') \<Rightarrow> (Inr (action_to_dict row'), db'))
               else
                 let row' = finalized_row (ck 1) f row
                 in (Inr (action_to_dict row'),
                     commit_row row' (audit row' (fz_event_type f) (pa_status row) (fz_status f) None
                       (fz_error_code f) (fz_evidence f)) db)))"

definition dispatch_evidence :: "str \<Rightarrow> (str \<times> json) list" where
  "dispatch_evidence what = [(''dispatch'', JStr what)]"

definition finalize_pre_dispatch_failure ::
  "clock \<Rightarrow> str \<Rightarrow> action_view \<Rightarrow> action_db \<Rightarrow> (service_error + action_view) \<times> action_db" where
  "finalize_pre_dispatch_failure ck error_code v db =
     finalize_claimed_action ck \<lparr>fz_status = FAILED, fz_result = [], fz_error_code = Some error_code,
       fz_event_type = ''pre_dispatch_failed'', fz_evidence = dispatch_evidence ''not_started''\<rparr> v db"

text \<open>How the outcome of the dispatch is recorded; a cancellation is not caught.\<close>

fun finalization_of :: "action_failure + (str \<times> json) list \<Rightarrow> finalization option" where
  "finalization_of (Inr result) = Some \<lparr>fz_status = SUCCEEDED, fz_result = result, fz_error_code = None,
     fz_event_type = ''succeeded'', fz_evidence = dispatch_evidence ''confirmed''\<rparr>"
| "finalization_of (Inl (ConfirmedActionFailure code)) = Some \<lparr>fz_status = FAILED, fz_result = [],
     fz_error_code = Some code, fz_event_type = ''confirmed_failure'',
     fz_evidence = dispatch_evidence ''not_accepted''\<rparr>"
| "finalization_of (Inl (AmbiguousActionOutcome code)) = Some \<lparr>fz_status = RECONCILIATION_REQUIRED,
     fz_result = [], fz_error_code = Some code, fz_event_type = ''provider_outcome_ambiguous'',
     fz_evidence = dispatch_evidence ''acceptance_unknown''\<rparr>"
| "finalization_of (Inl (UnexpectedFailure f)) =
     (if f = CancelledError then None
      else Some \<lparr>fz_status = RECONCILIATION_REQUIRED, fz_result = [],
        fz_error_code = Some ''execution_interrupted'', fz_event_type = ''execution_interrupted'',
        fz_evidence = dispatch_evidence ''acceptance_unknown''\<rparr>)"

text \<open>\<open>interfere\<close> is what other sessions commit while the provider is called.\<close>

definition execute_claimed_action ::
  "action_lib \<Rightarrow> services \<Rightarrow> availability \<Rightarrow> (action_db \<Rightarrow> action_db) \<Rightarrow> clock \<Rightarrow> action_view \<Rightarrow> action_db \<Rightarrow> history \<Rightarrow>
   (service_error + action_view) \<times> action_db \<times> history" where
  "execute_claimed_action lib sv av interfere ck v db h =
     (case execute_action (al_handler lib) sv av (command_of v) h of
        (ended, h') \<Rightarrow>
          (case finalization_of ended of
             None \<Rightarrow> (Inl (RaisedFailure CancelledError), interfere db, h')
           | Some f \<Rightarrow> (case finalize_claimed_action ck f v (interfere db) of (r, db') \<Rightarrow> (r, db', h'))))"

section \<open>Reconciliation by an operator\<close>

text \<open>The first transaction: promote an expired lease, or require the explicit state.\<close>

definition begin_reconciliation ::
  "clock \<Rightarrow> uuid \<Rightarrow> uuid \<Rightarrow> action_db \<Rightarrow> (service_error + action_view) \<times> action_db" where
  "begin_reconciliation ck action_id operator_user_id db =
     (case find_action db action_id of
        None \<Rightarrow> (Inl PendingActionNotFound, db)
      | Some row \<Rightarrow>
          if pa_status row = PROCESSING \<and> lease_expired (ck 0) row then
            (case commit_reconciliation (\<lambda>n. ck (n + 1)) ''processing_lease_expired''
                [(''promotion'', JStr ''operator_reconciliation'')] (Some operator_user_id)
                ''operator_promoted_expired_lease'' row db of
               (row', db') \<Rightarrow> (Inr (action_to_dict row'), db'))
          else if pa_status row \<noteq> RECONCILIATION_REQUIRED
          then (Inl (PendingActionInvalidState ''Only ambiguous actions can be reconciled''), db)
          else (Inr (action_to_dict row), db))"

definition reconciled_row :: "time \<Rightarrow> reconciliation_result \<Rightarrow> pending_action \<Rightarrow> pending_action" where
  "reconciled_row now r row =
     (case rr_status r of
        R_SUCCEEDED \<Rightarrow> row\<lparr>pa_status := SUCCEEDED, pa_result := rr_result r, pa_error_code := None,
          pa_processed_at := Some now\<rparr>
      | R_FAILED \<Rightarrow> row\<lparr>pa_status := FAILED, pa_result := None, pa_error_code := rr_error_code r,
          pa_processed_at := Some now\<rparr>
      | R_RECONCILIATION_REQUIRED \<Rightarrow> row\<lparr>pa_error_code := rr_error_code r,
          pa_reconciliation_reason := rr_error_code r, pa_reconciliation_evidence := Some (rr_evidence r),
          pa_reconciliation_required_at := Some now\<rparr>)"

text \<open>The second transaction: record the verdict if the action is still unresolved.\<close>

definition apply_reconciliation ::
  "clock \<Rightarrow> uuid \<Rightarrow> uuid \<Rightarrow> reconciliation_result \<Rightarrow> action_db \<Rightarrow> (service_error + action_view) \<times> action_db" where
  "apply_reconciliation ck action_id operator_user_id r db =
     (case find_action db action_id of
        None \<Rightarrow> (Inl PendingActionNotFound, db)
      | Some row \<Rightarrow>
          if pa_status row \<noteq> RECONCILIATION_REQUIRED then (Inr (action_to_dict row), db)
          else
            let row' = reconciled_row (ck 0) r row
            in (Inr (action_to_dict row'),
                commit_row row' (audit row' ''operator_reconciled'' (pa_status row) (pa_status row')
                  (Some operator_user_id) (rr_error_code r) (rr_evidence r)) db))"

definition reconcile_pending_action ::
  "action_lib \<Rightarrow> services \<Rightarrow> availability \<Rightarrow> (action_db \<Rightarrow> action_db) \<Rightarrow> clock \<Rightarrow> uuid \<Rightarrow> uuid \<Rightarrow> action_db \<Rightarrow> history \<Rightarrow>
   (service_error + action_view) \<times> action_db \<times> history" where
  "reconcile_pending_action lib sv av interfere ck action_id operator_user_id db h =
     (case begin_reconciliation ck action_id operator_user_id db of
        (Inl e, db1) \<Rightarrow> (Inl e, db1, h)
      | (Inr v, db1) \<Rightarrow>
          (case reconcile_action (al_handler lib) sv av (command_of v) h of
             (LookupDone r, h') \<Rightarrow>
               (case apply_reconciliation (\<lambda>n. ck (n + 3)) action_id operator_user_id r (interfere db1) of
                  (res, db2) \<Rightarrow> (res, db2, h'))
           | (LookupFailed f, h') \<Rightarrow> (Inl (op_error f), interfere db1, h')
           | (LookupUnfinished, h') \<Rightarrow> (Inl LookupNotFinished, interfere db1, h')))"

section \<open>Abstract specification\<close>

text \<open>The allowed status changes.\<close>

fun status_edge :: "action_status \<Rightarrow> action_status \<Rightarrow> bool" where
  "status_edge PENDING s = (s \<in> {PROCESSING, REJECTED, EXPIRED, RECONCILIATION_REQUIRED})"
| "status_edge PROCESSING s = (s \<in> {SUCCEEDED, FAILED, RECONCILIATION_REQUIRED})"
| "status_edge RECONCILIATION_REQUIRED s = (s \<in> {SUCCEEDED, FAILED, RECONCILIATION_REQUIRED})"
| "status_edge _ s = False"

text \<open>What no operation may change.\<close>

definition same_command :: "pending_action \<Rightarrow> pending_action \<Rightarrow> bool" where
  "same_command a b \<longleftrightarrow> pa_id a = pa_id b \<and> pa_user_id a = pa_user_id b \<and> pa_action_type a = pa_action_type b \<and>
     pa_payload a = pa_payload b \<and> pa_payload_hash a = pa_payload_hash b \<and>
     pa_idempotency_key a = pa_idempotency_key b \<and> pa_command_key a = pa_command_key b \<and>
     pa_summary a = pa_summary b \<and> pa_created_at a = pa_created_at b \<and> pa_expires_at a = pa_expires_at b"

text \<open>A claim counts one attempt and takes a token; nothing else touches the attempt.\<close>

definition attempt_step :: "pending_action \<Rightarrow> pending_action \<Rightarrow> bool" where
  "attempt_step a b \<longleftrightarrow>
     (if pa_status b = PROCESSING
      then pa_attempt_count b = pa_attempt_count a + 1 \<and> pa_attempt_token b \<noteq> None \<and> pa_lease_expires_at b \<noteq> None \<and>
           pa_processed_at b = pa_processed_at a
      else pa_attempt_count b = pa_attempt_count a \<and> pa_attempt_token b = pa_attempt_token a \<and>
           pa_lease_expires_at b = pa_lease_expires_at a \<and>
           (pa_processed_at b \<noteq> None \<or> pa_status a = RECONCILIATION_REQUIRED \<and> pa_processed_at b = pa_processed_at a))"

definition row_step :: "pending_action \<Rightarrow> pending_action \<Rightarrow> bool" where
  "row_step a b \<longleftrightarrow> same_command a b \<and> status_edge (pa_status a) (pa_status b) \<and> attempt_step a b"

definition records_step :: "audit_event \<Rightarrow> pending_action \<Rightarrow> pending_action \<Rightarrow> bool" where
  "records_step e a b \<longleftrightarrow> ae_action_id e = pa_id a \<and> ae_old_status e = Some (pa_status a) \<and> ae_new_status e = pa_status b"

definition update_rows ::
  "(pending_action \<Rightarrow> bool) \<Rightarrow> (pending_action \<Rightarrow> pending_action) \<Rightarrow> (pending_action \<Rightarrow> audit_event) \<Rightarrow> action_db \<Rightarrow> action_db" where
  "update_rows hit g ev db = db\<lparr>actions := map (\<lambda>a. if hit a then g a else a) (actions db),
     audits := audits db @ map ev (filter hit (actions db))\<rparr>"

definition fresh_action :: "pending_action \<Rightarrow> bool" where
  "fresh_action a \<longleftrightarrow> pa_status a = PENDING \<and> pa_attempt_count a = 0 \<and> pa_attempt_token a = None \<and>
     pa_lease_expires_at a = None \<and> pa_processed_at a = None"

text \<open>
  The specification: an action is added under a new id and a new command key, or rows make
  allowed steps, each recorded by one audit event.
\<close>

inductive spec_step :: "action_db \<Rightarrow> action_db \<Rightarrow> bool" where
  spec_insert: "fresh_action a \<Longrightarrow> insert_action a db = Some db' \<Longrightarrow> spec_step db db'"
| spec_update: "(\<And>a. a \<in> set (actions db) \<Longrightarrow> hit a \<Longrightarrow> row_step a (g a) \<and> records_step (ev a) a (g a)) \<Longrightarrow>
    spec_step db (update_rows hit g ev db)"

inductive_cases spec_stepE: "spec_step db db'"

section \<open>Invariant\<close>

definition row_ok :: "pending_action \<Rightarrow> bool" where
  "row_ok a \<longleftrightarrow>
     pa_attempt_count a \<le> 1 \<and>
     (pa_attempt_count a = 1 \<longleftrightarrow> pa_attempt_token a \<noteq> None) \<and>
     (pa_status a = PENDING \<longrightarrow> pa_attempt_count a = 0 \<and> pa_processed_at a = None) \<and>
     (pa_status a = PROCESSING \<longrightarrow> pa_attempt_token a \<noteq> None \<and> pa_lease_expires_at a \<noteq> None \<and> pa_processed_at a = None) \<and>
     (pa_status a \<in> {REJECTED, EXPIRED} \<longrightarrow> pa_attempt_count a = 0) \<and>
     (pa_status a \<notin> {PENDING, PROCESSING} \<longrightarrow> pa_processed_at a \<noteq> None)"

definition trail :: "action_db \<Rightarrow> uuid \<Rightarrow> audit_event list" where
  "trail db i = filter (\<lambda>e. ae_action_id e = i) (audits db)"

fun replay :: "action_status \<Rightarrow> audit_event list \<Rightarrow> action_status option" where
  "replay s [] = Some s"
| "replay s (e # es) = (if ae_old_status e = Some s then replay (ae_new_status e) es else None)"

definition action_inv :: "action_db \<Rightarrow> bool" where
  "action_inv db \<longleftrightarrow>
     keys_distinct pa_id (actions db) \<and> keys_distinct command_id (actions db) \<and>
     list_all row_ok (actions db) \<and>
     list_all (\<lambda>e. ae_action_id e \<in> pa_id ` set (actions db)) (audits db) \<and>
     list_all (\<lambda>a. replay PENDING (trail db (pa_id a)) = Some (pa_status a)) (actions db)"

definition empty_actions :: "action_db \<Rightarrow> bool" where
  "empty_actions db \<longleftrightarrow> actions db = [] \<and> audits db = []"

lemma row_step_id: "row_step a b \<Longrightarrow> pa_id b = pa_id a"
  by (simp add: row_step_def same_command_def)

lemma row_step_command: "row_step a b \<Longrightarrow> command_id b = command_id a"
  by (simp add: row_step_def same_command_def command_id_def)

lemma edge_to:
  "\<not> status_edge s PENDING"
  "status_edge s PROCESSING \<longleftrightarrow> s = PENDING"
  "status_edge s REJECTED \<longleftrightarrow> s = PENDING"
  "status_edge s EXPIRED \<longleftrightarrow> s = PENDING"
  by (cases s; simp)+

lemma row_step_ok: "row_step a b \<Longrightarrow> row_ok a \<Longrightarrow> row_ok b"
proof -
  assume step: "row_step a b" and ok: "row_ok a"
  have e: "status_edge (pa_status a) (pa_status b)" and c: "attempt_step a b"
    using step by (simp_all add: row_step_def)
  show "row_ok b"
  proof (cases "pa_status b = PROCESSING")
    case True
    then have "pa_status a = PENDING" using e by (simp add: edge_to)
    then show ?thesis using True ok c by (simp add: row_ok_def attempt_step_def)
  next
    case False
    have "pa_status b \<noteq> PENDING" using e by (metis edge_to(1))
    moreover have "pa_status a = PENDING" if "pa_status b \<in> {REJECTED, EXPIRED}"
      using that e by (auto simp: edge_to)
    moreover have "pa_processed_at b \<noteq> None"
      using False c ok by (auto simp: attempt_step_def row_ok_def)
    ultimately show ?thesis using False ok c by (auto simp: row_ok_def attempt_step_def)
  qed
qed

lemma fresh_row_ok: "fresh_action a \<Longrightarrow> row_ok a"
  by (simp add: fresh_action_def row_ok_def)

lemma replay_snoc: "replay s es = Some u \<Longrightarrow> ae_old_status e = Some u \<Longrightarrow> replay s (es @ [e]) = Some (ae_new_status e)"
  by (induction es arbitrary: s) (auto split: if_splits)

lemma map_keep: "(\<And>a. a \<in> set xs \<Longrightarrow> hit a \<Longrightarrow> f (g a) = f a) \<Longrightarrow>
    map f (map (\<lambda>a. if hit a then g a else a) xs) = map f xs"
  by auto

lemma filter_key_single:
  "keys_distinct key xs \<Longrightarrow> a \<in> set xs \<Longrightarrow>
   filter (\<lambda>x. key x = key a) (filter hit xs) = (if hit a then [a] else [])"
  by (induction xs) (auto simp: keys_distinct_def filter_empty_conv image_iff)

lemma trail_update:
  assumes "keys_distinct pa_id (actions db)" and "a \<in> set (actions db)"
    and ev: "\<And>a. a \<in> set (actions db) \<Longrightarrow> hit a \<Longrightarrow> ae_action_id (ev a) = pa_id a"
  shows "trail (update_rows hit g ev db) (pa_id a) = trail db (pa_id a) @ (if hit a then [ev a] else [])"
proof -
  have "filter (\<lambda>e. ae_action_id e = pa_id a) (map ev (filter hit (actions db)))
      = map ev (filter (\<lambda>x. pa_id x = pa_id a) (filter hit (actions db)))"
    using ev by (auto simp: filter_map o_def intro!: arg_cong [where f = "map ev"] filter_cong)
  also have "\<dots> = (if hit a then [ev a] else [])" using filter_key_single [OF assms(1,2)] by simp
  finally show ?thesis by (simp add: trail_def update_rows_def)
qed

lemma spec_insert_inv:
  assumes "action_inv db" and "fresh_action a" and "insert_action a db = Some db'"
  shows "action_inv db'"
proof -
  have db': "db' = db\<lparr>actions := actions db @ [a]\<rparr>" and new: "pa_id a \<notin> pa_id ` set (actions db)"
    "command_id a \<notin> command_id ` set (actions db)"
    using assms(3)
    by (auto simp: insert_action_def find_action_def find_command_def tbl_get_None command_id_def split: if_splits)
  have known: "ae_action_id e \<in> pa_id ` set (actions db)" if "e \<in> set (audits db)" for e
    using assms(1) that by (simp add: action_inv_def list_all_iff)
  have "trail db (pa_id a) = []"
    unfolding trail_def using known new(1) by (metis (mono_tags, lifting) filter_False)
  then have "replay PENDING (trail db' (pa_id a)) = Some (pa_status a)"
    using assms(2) by (simp add: db' trail_def fresh_action_def)
  then show ?thesis
    using assms(1) new fresh_row_ok [OF assms(2)]
    by (simp add: action_inv_def db' keys_distinct_def trail_def list_all_iff)
qed

lemma spec_update_inv:
  assumes inv: "action_inv db"
    and step: "\<And>a. a \<in> set (actions db) \<Longrightarrow> hit a \<Longrightarrow> row_step a (g a) \<and> records_step (ev a) a (g a)"
  shows "action_inv (update_rows hit g ev db)"
proof -
  let ?db' = "update_rows hit g ev db"
  have ids: "map pa_id (actions ?db') = map pa_id (actions db)"
    using step row_step_id by (auto simp: update_rows_def)
  have cmds: "map command_id (actions ?db') = map command_id (actions db)"
    using step row_step_command by (auto simp: update_rows_def)
  have dist: "keys_distinct pa_id (actions db)" using inv by (simp add: action_inv_def)
  have "replay PENDING (trail ?db' (pa_id b)) = Some (pa_status b)" if "b \<in> set (actions ?db')" for b
  proof -
    have "b \<in> (\<lambda>a. if hit a then g a else a) ` set (actions db)"
      using that by (simp add: update_rows_def)
    then obtain a where a: "a \<in> set (actions db)" "b = (if hit a then g a else a)" by (rule imageE)
    have r: "replay PENDING (trail db (pa_id a)) = Some (pa_status a)"
      using inv a(1) by (simp add: action_inv_def list_all_iff)
    have "trail ?db' (pa_id a) = trail db (pa_id a) @ (if hit a then [ev a] else [])"
      using step by (intro trail_update [OF dist a(1)]) (simp add: records_step_def)
    then show ?thesis
      using r a step [OF a(1)] row_step_id [of a "g a"] replay_snoc [OF r, of "ev a"]
      by (auto simp: records_step_def)
  qed
  moreover have "row_ok b" if "b \<in> set (actions ?db')" for b
    using that inv step row_step_ok by (auto simp: update_rows_def action_inv_def list_all_iff)
  moreover have "ae_action_id e \<in> pa_id ` set (actions ?db')" if "e \<in> set (audits ?db')" for e
  proof -
    have "ae_action_id e \<in> pa_id ` set (actions db)"
      using that inv step by (auto simp: update_rows_def action_inv_def list_all_iff records_step_def)
    then show ?thesis using ids by (metis set_map)
  qed
  ultimately show ?thesis
    using inv ids cmds by (auto simp: action_inv_def keys_distinct_def list_all_iff)
qed

interpretation actions_safe: invariant_of empty_actions spec_step action_inv
proof
  show "empty_actions db \<Longrightarrow> action_inv db" for db
    by (simp add: empty_actions_def action_inv_def keys_distinct_def)
  show "action_inv db \<Longrightarrow> spec_step db db' \<Longrightarrow> action_inv db'" for db db'
    by (auto elim!: spec_stepE intro: spec_insert_inv spec_update_inv)
qed

section \<open>The operations implement the specification\<close>

lemma find_actionD: "find_action db i = Some a \<Longrightarrow> a \<in> set (actions db) \<and> pa_id a = i"
  unfolding find_action_def by (rule tbl_get_Some)

lemma find_ownedD: "find_owned db i u = Some a \<Longrightarrow> find_action db i = Some a \<and> pa_user_id a = u"
  by (auto simp: find_owned_def split: option.splits if_splits)

lemma find_attemptD:
  "find_attempt db i tok = Some a \<Longrightarrow> find_action db i = Some a \<and> pa_status a = PROCESSING \<and> pa_attempt_token a = Some tok"
  by (auto simp: find_attempt_def split: option.splits if_splits)

lemma inv_distinct: "action_inv db \<Longrightarrow> keys_distinct pa_id (actions db)"
  by (simp add: action_inv_def)

lemma inv_row_ok: "action_inv db \<Longrightarrow> find_action db i = Some a \<Longrightarrow> row_ok a"
  using find_actionD by (force simp: action_inv_def list_all_iff)

lemma commit_row_update:
  assumes "keys_distinct pa_id (actions db)" and "find_action db (pa_id b) = Some a"
  shows "commit_row b e db = update_rows (\<lambda>x. pa_id x = pa_id b) (\<lambda>_. b) (\<lambda>_. e) db"
proof -
  have "a \<in> set (actions db)" "pa_id a = pa_id b" using find_actionD [OF assms(2)] by auto
  then have "filter (\<lambda>x. pa_id x = pa_id b) (actions db) = [a]"
    using filter_key_single [OF assms(1), of a "\<lambda>_. True"] by simp
  then show ?thesis by (simp add: commit_row_def update_rows_def tbl_put_def)
qed

lemma commit_row_step:
  assumes "action_inv db" and "find_action db i = Some a" and "row_step a b" and "records_step e a b"
  shows "spec_step db (commit_row b e db)"
proof -
  have d: "keys_distinct pa_id (actions db)" by (rule inv_distinct [OF assms(1)])
  have id: "pa_id b = i" using row_step_id [OF assms(3)] find_actionD [OF assms(2)] by simp
  have "x = a" if "x \<in> set (actions db)" "pa_id x = pa_id b" for x
    using tbl_get_unique [OF d that(1)] assms(2) that(2) by (simp add: find_action_def id)
  then show ?thesis
    unfolding commit_row_update [OF d, of b a e, unfolded id, OF assms(2)]
    using assms(3,4) id by (intro spec_update) auto
qed

lemma audit_records [simp]:
  "pa_id b = pa_id a \<Longrightarrow> records_step (audit b ev (pa_status a) (pa_status b) actor reason evidence) a b"
  by (simp add: records_step_def audit_def)

lemma reconciliation_row_step:
  assumes "pa_status a \<in> {PENDING, PROCESSING}" and "mark_reconciliation_required ck r ev actor ty a = (b, e)"
  shows "row_step a b \<and> records_step e a b"
  using assms
  by (auto simp: mark_reconciliation_required_def Let_def row_step_def same_command_def attempt_step_def
      records_step_def audit_def)

lemma commit_reconciliation_step:
  assumes "action_inv db" and "find_action db i = Some a" and "pa_status a \<in> {PENDING, PROCESSING}"
  shows "spec_step db (snd (commit_reconciliation ck r ev actor ty a db))"
proof -
  obtain b e where m: "mark_reconciliation_required ck r ev actor ty a = (b, e)" by fastforce
  then show ?thesis
    using commit_row_step [OF assms(1,2)] reconciliation_row_step [OF assms(3) m]
    by (simp add: commit_reconciliation_def)
qed

text \<open>An operation either leaves the database alone or makes one step of the specification.\<close>

definition refines :: "action_db \<Rightarrow> action_db \<Rightarrow> bool" where
  "refines db db' \<longleftrightarrow> db' = db \<or> spec_step db db'"

lemma refines_refl [simp]: "refines db db"
  by (simp add: refines_def)

lemma reject_refines:
  assumes "action_inv db"
  shows "refines db (snd (reject_pending_action ck i u db))"
proof (cases "find_owned db i u")
  case (Some a)
  have f: "find_action db i = Some a" using find_ownedD [OF Some] by simp
  have "row_step a (a\<lparr>pa_status := REJECTED, pa_processed_at := Some (ck 0)\<rparr>)" if "pa_status a = PENDING"
    using that by (simp add: row_step_def same_command_def attempt_step_def)
  then show ?thesis
    using Some commit_row_step [OF assms f]
    by (auto simp: reject_pending_action_def refines_def Let_def records_step_def audit_def)
qed (simp add: reject_pending_action_def)

lemma expire_row_step: "pa_status a = PENDING \<Longrightarrow> row_step a (expire_row now a)"
  by (simp add: row_step_def same_command_def attempt_step_def expire_row_def)

lemma claimed_row_step: "pa_status a = PENDING \<Longrightarrow> row_step a (claimed_row now tok a)"
  by (simp add: row_step_def same_command_def attempt_step_def claimed_row_def)

lemma claim_refines:
  assumes "action_inv db"
  shows "refines db (snd (claim_pending_action lib ck tok i u db))"
proof (cases "find_owned db i u")
  case (Some a)
  have f: "find_action db i = Some a" using find_ownedD [OF Some] by simp
  note rec = commit_reconciliation_step [OF assms f]
  note com = commit_row_step [OF assms f]
  have lease: "refines db (snd (claim_pending_action lib ck tok i u db))"
    if "pa_status a = PROCESSING" "lease_expired (ck 0) a"
    using Some that rec by (simp add: claim_pending_action_def refines_def Let_def split_beta)
  have expired: "refines db (snd (claim_pending_action lib ck tok i u db))"
    if "pa_status a = PENDING" "pa_expires_at a \<le> ck 0"
    using Some that com [OF expire_row_step]
    by (simp add: claim_pending_action_def refines_def Let_def records_step_def audit_def expire_row_def)
  have mismatch: "refines db (snd (claim_pending_action lib ck tok i u db))"
    if "pa_status a = PENDING" "\<not> pa_expires_at a \<le> ck 0" "require_canonical_payload lib a = None"
    using Some that rec by (simp add: claim_pending_action_def refines_def Let_def split_beta)
  have claimed: "refines db (snd (claim_pending_action lib ck tok i u db))"
    if "pa_status a = PENDING" "\<not> pa_expires_at a \<le> ck 0" "require_canonical_payload lib a = Some p" for p
    using Some that com [OF claimed_row_step]
    by (simp add: claim_pending_action_def refines_def Let_def records_step_def audit_def claimed_row_def)
  have other: "refines db (snd (claim_pending_action lib ck tok i u db))"
    if "pa_status a \<noteq> PENDING" "\<not> (pa_status a = PROCESSING \<and> lease_expired (ck 0) a)"
    using Some that by (cases "pa_status a = PROCESSING") (simp_all add: claim_pending_action_def Let_def)
  show ?thesis
    using lease expired mismatch claimed other by (cases "require_canonical_payload lib a") blast+
qed (simp add: claim_pending_action_def)

definition final_status :: "action_status \<Rightarrow> bool" where
  "final_status s \<longleftrightarrow> s \<in> {SUCCEEDED, FAILED, RECONCILIATION_REQUIRED}"

lemma finalized_row_step:
  "pa_status a = PROCESSING \<Longrightarrow> final_status (fz_status f) \<Longrightarrow> row_step a (finalized_row now f a)"
  by (auto simp: row_step_def same_command_def attempt_step_def finalized_row_def final_status_def)

lemma finalize_refines:
  assumes "action_inv db" and "final_status (fz_status f)"
  shows "refines db (snd (finalize_claimed_action ck f v db))"
proof (cases "\<exists>tok a. require_attempt_token v = Inr tok \<and> find_attempt db (av_id v) tok = Some a")
  case True
  then obtain tok a where t: "require_attempt_token v = Inr tok" and s: "find_attempt db (av_id v) tok = Some a"
    by blast
  have f: "find_action db (av_id v) = Some a" and p: "pa_status a = PROCESSING"
    using find_attemptD [OF s] by auto
  note rec = commit_reconciliation_step [OF assms(1) f]
  show ?thesis
    using rec p commit_row_step [OF assms(1) f finalized_row_step [OF p assms(2)]]
    by (simp add: finalize_claimed_action_def t s refines_def Let_def split_beta records_step_def audit_def
        finalized_row_def)
next
  case False
  then show ?thesis
    by (auto simp: finalize_claimed_action_def refines_def split: sum.split option.split)
qed

lemma begin_reconciliation_refines:
  assumes "action_inv db"
  shows "refines db (snd (begin_reconciliation ck i u db))"
proof (cases "find_action db i")
  case (Some a)
  then show ?thesis
    using commit_reconciliation_step [OF assms Some]
    by (simp add: begin_reconciliation_def refines_def split_beta)
qed (simp add: begin_reconciliation_def)

lemma reconciled_row_step:
  "pa_status a = RECONCILIATION_REQUIRED \<Longrightarrow> row_step a (reconciled_row now r a)"
  by (cases "rr_status r") (simp_all add: row_step_def same_command_def attempt_step_def reconciled_row_def)

lemma apply_reconciliation_refines:
  assumes "action_inv db"
  shows "refines db (snd (apply_reconciliation ck i u r db))"
proof (cases "find_action db i")
  case (Some a)
  have "records_step (audit (reconciled_row (ck 0) r a) ''operator_reconciled'' (pa_status a)
      (pa_status (reconciled_row (ck 0) r a)) (Some u) (rr_error_code r) (rr_evidence r)) a (reconciled_row (ck 0) r a)"
    by (rule audit_records) (simp add: reconciled_row_def split: reconcile_status.split)
  then show ?thesis
    using Some commit_row_step [OF assms Some reconciled_row_step]
    by (cases "pa_status a = RECONCILIATION_REQUIRED") (simp_all add: apply_reconciliation_def refines_def Let_def)
qed (simp add: apply_reconciliation_def)

lemma create_refines: "refines db (snd (create_pending_action lib id ck n u ty p k db))"
proof -
  have "refines db db'" if "insert_action (new_action lib ck n o' ty q k) db = Some db'" for o' q db'
    using that by (auto simp: refines_def new_action_def fresh_action_def intro!: spec_insert)
  then show ?thesis
    by (auto simp: create_pending_action_def Let_def split: option.split)
qed

lemma expire_batch_step: "spec_step db (snd (expire_batch locked now db))"
proof -
  let ?hit = "\<lambda>a. pa_id a \<in> set (stale_batch locked now db) \<and> pa_status a = PENDING"
  have "snd (expire_batch locked now db) = update_rows ?hit (expire_row now) (\<lambda>a. swept_event (pa_id a)) db"
    by (simp add: expire_batch_def update_rows_def Let_def)
  also have "spec_step db \<dots>"
    by (rule spec_update) (simp add: expire_row_step, simp add: records_step_def swept_event_def expire_row_def)
  finally show ?thesis .
qed

lemma expire_loop_steps: "spec_step\<^sup>*\<^sup>* db (snd (expire_loop locked now n db))"
proof (induction locked now n db rule: expire_loop.induct)
  case (1 locked now n db)
  let ?db' = "snd (expire_batch locked now db)"
  have "spec_step\<^sup>*\<^sup>* ?db' (snd (expire_loop locked now (n + length (fst (expire_batch locked now db))) ?db'))"
    if "\<not> length (fst (expire_batch locked now db)) < EXPIRY_SWEEP_BATCH"
    using 1 [OF refl refl that] .
  then show ?case
    using expire_batch_step [of db locked now]
    by (subst expire_loop.simps)
       (simp add: Let_def, blast intro: converse_rtranclp_into_rtranclp)
qed

end
