(* ===== verification/Action_Safety.thy ===== *)
theory Action_Safety
  imports Pending_Actions
begin

text \<open>
  What the pending-action service guarantees over whole runs: the transactions of the service as
  a step relation, its refinement of the abstract specification, the evolution of a single action,
  fencing of finalisers, and the properties that tie the stored status to what was sent to the
  provider.
\<close>

section \<open>The service as a transition system\<close>

text \<open>Every committed transaction of the service; two-transaction operations appear as two steps.\<close>

inductive service_step :: "action_lib \<Rightarrow> action_db \<Rightarrow> action_db \<Rightarrow> bool" for lib :: action_lib where
  step_create: "service_step lib db (snd (create_pending_action lib id ck new_id user_id ty p key db))"
| step_reject: "service_step lib db (snd (reject_pending_action ck i u db))"
| step_claim: "service_step lib db (snd (claim_pending_action lib ck token i u db))"
| step_finalize: "final_status (fz_status f) \<Longrightarrow> service_step lib db (snd (finalize_claimed_action ck f v db))"
| step_begin_reconciliation: "service_step lib db (snd (begin_reconciliation ck i u db))"
| step_apply_reconciliation: "service_step lib db (snd (apply_reconciliation ck i u r db))"
| step_expire: "service_step lib db (snd (expire_stale_actions locked now db))"

inductive_cases service_stepE: "service_step lib db db'"

lemma refines_steps: "refines db db' \<Longrightarrow> spec_step\<^sup>*\<^sup>* db db'"
  by (auto simp: refines_def)

lemmas op_refines = reject_refines claim_refines finalize_refines
  begin_reconciliation_refines apply_reconciliation_refines

lemma service_refines:
  assumes "action_inv db" and "service_step lib db db'"
  shows "spec_step\<^sup>*\<^sup>* db db'"
  using assms(2)
  by (rule service_stepE)
     (auto simp: expire_stale_actions_def intro: refines_steps op_refines [OF assms(1)] create_refines
        expire_loop_steps)

lemma spec_steps_inv: "spec_step\<^sup>*\<^sup>* db db' \<Longrightarrow> action_inv db \<Longrightarrow> action_inv db'"
  by (induction rule: rtranclp_induct) (auto intro: actions_safe.inv_step)

interpretation service_safe: invariant_of empty_actions "service_step lib" action_inv for lib
proof
  show "empty_actions db \<Longrightarrow> action_inv db" for db by (rule actions_safe.inv_init)
  show "action_inv db \<Longrightarrow> service_step lib db db' \<Longrightarrow> action_inv db'" for db db'
    by (rule spec_steps_inv [OF service_refines])
qed

lemma service_steps_spec:
  "(service_step lib)\<^sup>*\<^sup>* db db' \<Longrightarrow> action_inv db \<Longrightarrow> spec_step\<^sup>*\<^sup>* db db' \<and> action_inv db'"
proof (induction rule: rtranclp_induct)
  case (step y z)
  then show ?case using service_refines spec_steps_inv by (meson rtranclp_trans)
qed simp

section \<open>The evolution of one action\<close>

lemma spec_step_row:
  assumes "action_inv db" and "spec_step db db'" and "find_action db i = Some a"
  shows "\<exists>b. find_action db' i = Some b \<and> row_step\<^sup>*\<^sup>* a b"
proof -
  have a: "a \<in> set (actions db)" "pa_id a = i" using find_actionD [OF assms(3)] by auto
  have d': "keys_distinct pa_id (actions db')"
    by (rule inv_distinct [OF actions_safe.inv_step [OF assms(1,2)]])
  have "\<exists>b. b \<in> set (actions db') \<and> row_step\<^sup>*\<^sup>* a b \<and> pa_id b = i"
    using assms(2)
  proof (rule spec_stepE)
    fix n
    assume "insert_action n db = Some db'"
    then have "actions db' = actions db @ [n]" by (auto simp: insert_action_def split: if_splits)
    then show ?thesis using a by auto
  next
    fix hit g ev
    assume db': "db' = update_rows hit g ev db"
      and step: "\<And>a. a \<in> set (actions db) \<Longrightarrow> hit a \<Longrightarrow> row_step a (g a) \<and> records_step (ev a) a (g a)"
    let ?b = "if hit a then g a else a"
    have "?b \<in> set (actions db')" using a(1) by (auto simp: db' update_rows_def)
    moreover have "row_step\<^sup>*\<^sup>* a ?b" "pa_id ?b = i" using step [OF a(1)] a(2) row_step_id by auto
    ultimately show ?thesis by blast
  qed
  then show ?thesis using tbl_get_unique [OF d'] unfolding find_action_def by blast
qed

lemma spec_steps_row:
  assumes "spec_step\<^sup>*\<^sup>* db db'" and "action_inv db" and "find_action db i = Some a"
  shows "\<exists>b. find_action db' i = Some b \<and> row_step\<^sup>*\<^sup>* a b"
  using assms
proof (induction rule: rtranclp_induct)
  case (step y z)
  then obtain b where b: "find_action y i = Some b" "row_step\<^sup>*\<^sup>* a b" by blast
  have "action_inv y" using spec_steps_inv step by blast
  then show ?case using spec_step_row [OF _ step(2) b(1)] b(2) by (meson rtranclp_trans)
qed auto

lemma row_steps_same: "row_step\<^sup>*\<^sup>* a b \<Longrightarrow> same_command a b"
  by (induction rule: rtranclp_induct) (auto simp: row_step_def same_command_def)

lemma row_steps_attempts: "row_step\<^sup>*\<^sup>* a b \<Longrightarrow> pa_attempt_count a \<le> pa_attempt_count b"
  by (induction rule: rtranclp_induct) (auto simp: row_step_def attempt_step_def split: if_splits)

definition terminal :: "action_status \<Rightarrow> bool" where
  "terminal s \<longleftrightarrow> s \<in> {SUCCEEDED, FAILED, REJECTED, EXPIRED}"

lemma terminal_no_step: "terminal (pa_status a) \<Longrightarrow> \<not> row_step a b"
  by (auto simp: terminal_def row_step_def)

lemma row_steps_terminal: "row_step\<^sup>*\<^sup>* a b \<Longrightarrow> terminal (pa_status a) \<Longrightarrow> b = a"
  by (erule converse_rtranclpE) (auto simp: terminal_no_step)

section \<open>Claims\<close>

lemma claim_True:
  assumes "claim_pending_action lib ck tok i u db = (Inr (v, True), db')"
  shows "\<exists>a. find_owned db i u = Some a \<and> pa_status a = PENDING \<and> ck 0 < pa_expires_at a \<and>
    require_canonical_payload lib a \<noteq> None \<and> v = action_to_dict (claimed_row (ck 0) tok a) \<and>
    actions db' = tbl_put pa_id (claimed_row (ck 0) tok a) (actions db)"
proof (cases "find_owned db i u")
  case None
  then show ?thesis using assms by (simp add: claim_pending_action_def)
next
  case (Some a)
  then show ?thesis using assms
    by (cases "require_canonical_payload lib a")
       (auto simp: claim_pending_action_def Let_def commit_row_def split: if_splits prod.splits)
qed

lemma claim_not_pending:
  assumes "\<And>a. find_action db i = Some a \<Longrightarrow> pa_status a \<noteq> PENDING"
  shows "fst (claim_pending_action lib ck tok i u db) \<noteq> Inr (v, True)"
proof
  assume "fst (claim_pending_action lib ck tok i u db) = Inr (v, True)"
  then obtain db' where "claim_pending_action lib ck tok i u db = (Inr (v, True), db')" by (metis surjective_pairing)
  from claim_True [OF this] obtain a where "find_owned db i u = Some a" "pa_status a = PENDING" by blast
  then show False using assms find_ownedD by blast
qed

lemma claim_finds:
  assumes "claim_pending_action lib ck tok i u db = (Inr (v, True), db')"
  shows "\<exists>a. find_action db i = Some a \<and> pa_status a = PENDING \<and>
    find_action db' i = Some (claimed_row (ck 0) tok a)"
proof -
  obtain a where o: "find_owned db i u = Some a" and p: "pa_status a = PENDING"
    and db': "actions db' = tbl_put pa_id (claimed_row (ck 0) tok a) (actions db)"
    using claim_True [OF assms] by blast
  have f: "find_action db i = Some a" using find_ownedD [OF o] by simp
  moreover have "pa_id (claimed_row (ck 0) tok a) = i" using find_actionD [OF f] by (simp add: claimed_row_def)
  ultimately have "find_action db' i = Some (claimed_row (ck 0) tok a)"
    unfolding find_action_def db' by (metis tbl_get_put_same)
  then show ?thesis using f p by blast
qed

section \<open>Fenced finalisers\<close>

text \<open>The finalisations that the service issues for a claim.\<close>

datatype finisher =
    FinishSucceeded "(str \<times> json) list"
  | FinishConfirmedFailure str
  | FinishAmbiguous str
  | FinishInterrupted
  | FinishPreDispatch str

fun run_finisher :: "clock \<times> finisher \<Rightarrow> action_view \<Rightarrow> action_db \<Rightarrow> action_db" where
  "run_finisher (ck, FinishPreDispatch code) v db = snd (finalize_pre_dispatch_failure ck code v db)"
| "run_finisher (ck, FinishSucceeded r) v db = snd (finalize_claimed_action ck (the (finalization_of (Inr r))) v db)"
| "run_finisher (ck, FinishConfirmedFailure c) v db =
     snd (finalize_claimed_action ck (the (finalization_of (Inl (ConfirmedActionFailure c)))) v db)"
| "run_finisher (ck, FinishAmbiguous c) v db =
     snd (finalize_claimed_action ck (the (finalization_of (Inl (AmbiguousActionOutcome c)))) v db)"
| "run_finisher (ck, FinishInterrupted) v db =
     snd (finalize_claimed_action ck (the (finalization_of (Inl (UnexpectedFailure TransportError)))) v db)"

definition holds_lease :: "action_view \<Rightarrow> action_db \<Rightarrow> bool" where
  "holds_lease v db = (case require_attempt_token v of
     Inl _ \<Rightarrow> False | Inr token \<Rightarrow> find_attempt db (av_id v) token \<noteq> None)"

lemma finisher_finalizes:
  "\<exists>ck f. run_finisher x v db = snd (finalize_claimed_action ck f v db) \<and> final_status (fz_status f)"
proof -
  obtain ck y where x: "x = (ck, y)" by fastforce
  show ?thesis unfolding x
    by (cases y) (auto simp: finalize_pre_dispatch_failure_def final_status_def intro!: exI [of _ ck])
qed

lemma finalize_stale: "\<not> holds_lease v db \<Longrightarrow> snd (finalize_claimed_action ck f v db) = db"
  by (auto simp: holds_lease_def finalize_claimed_action_def split: sum.splits option.splits)

lemma find_attempt_commit:
  assumes "find_action db i = Some a" and "pa_id b = i" and "pa_status b \<noteq> PROCESSING"
  shows "find_attempt (commit_row b e db) i tok = None"
proof -
  have "find_action (commit_row b e db) i = Some b"
    using assms(1,2) by (simp add: find_action_def commit_row_def tbl_get_put)
  then show ?thesis using assms(3) by (simp add: find_attempt_def)
qed

lemma finalize_ends:
  assumes "holds_lease v db" and "final_status (fz_status f)"
  shows "\<not> holds_lease v (snd (finalize_claimed_action ck f v db))"
proof -
  obtain tok a where t: "require_attempt_token v = Inr tok" and s: "find_attempt db (av_id v) tok = Some a"
    using assms(1) by (auto simp: holds_lease_def split: sum.splits)
  have f: "find_action db (av_id v) = Some a" and i: "pa_id a = av_id v"
    using find_attemptD [OF s] find_actionD by auto
  have rec: "find_attempt (snd (commit_reconciliation ck' r ev actor ty a db)) (av_id v) tok = None" for ck' r ev actor ty
    using find_attempt_commit [OF f] i
    by (simp add: commit_reconciliation_def mark_reconciliation_required_def Let_def)
  have fin: "find_attempt (commit_row (finalized_row now f a) e db) (av_id v) tok = None" for now e
    using find_attempt_commit [OF f] i assms(2) by (auto simp: finalized_row_def final_status_def)
  have "find_attempt (snd (finalize_claimed_action ck f v db)) (av_id v) tok = None"
    using rec fin by (simp add: finalize_claimed_action_def t s Let_def split_beta)
  then show ?thesis by (simp add: holds_lease_def t)
qed

interpretation action_lease: fenced_lease holds_lease run_finisher action_inv
proof
  fix db :: action_db and v :: action_view and x :: "clock \<times> finisher"
  obtain ck f where x: "run_finisher x v db = snd (finalize_claimed_action ck f v db)" "final_status (fz_status f)"
    using finisher_finalizes by blast
  show "\<not> holds_lease v db \<Longrightarrow> run_finisher x v db = db" by (simp add: x finalize_stale)
  show "holds_lease v db \<Longrightarrow> \<not> holds_lease v (run_finisher x v db)" using finalize_ends x by simp
  assume "action_inv db"
  then show "action_inv (run_finisher x v db)"
    using finalize_refines [OF _ x(2)] refines_steps spec_steps_inv x(1) by metis
qed

section \<open>Listing\<close>

text \<open>The clock reading only marks expired rows, so it belongs to the context of a listing.\<close>

interpretation action_pages: keyset_listing
  "\<lambda>ctx. page_lib_ok (fst ctx)" "\<lambda>ctx. list_pending_actions (fst ctx) (snd ctx)"
  "\<lambda>ctx. owned_actions" action_key "\<lambda>ctx. summary_row (snd ctx)" "\<lambda>ctx. encode_page_token (fst ctx)"
proof
  fix ctx :: "page_lib \<times> time" and db q limit cur
  assume ok: "page_lib_ok (fst ctx)"
  show "list_pending_actions (fst ctx) (snd ctx) db q limit (map_option (encode_page_token (fst ctx)) cur) =
      Inr (map (summary_row (snd ctx)) (fst (keyset_page action_key (owned_actions db q) cur limit)),
        map_option (encode_page_token (fst ctx)) (snd (keyset_page action_key (owned_actions db q) cur limit)))"
    by (cases cur) (simp_all add: list_pending_actions_def keyset_page_def Let_def decode_encoded [OF ok] action_key_def)
qed

lemma listed_rows:
  assumes "list_pending_actions plib now db q limit t = Inr (items, next)" and "x \<in> set items"
  shows "\<exists>b \<in> set (owned_actions db q). x = summary_row now b"
  using assms by (auto simp: list_pending_actions_def Let_def split: option.splits dest!: in_set_takeD) blast+

section \<open>A worked example\<close>

definition demo_lib :: action_lib where
  "demo_lib = \<lparr>al_handler = demo_handler_lib, al_page = demo_page_lib, json_dumps = (\<lambda>p. join '','' (map fst p))\<rparr>"

definition no_actions :: action_db where
  "no_actions = \<lparr>actions = [], audits = []\<rparr>"

definition demo_key :: str where
  "demo_key = ''abcdefghijklmnop''"

definition demo_owner :: str where
  "demo_owner = unary 3"

definition demo_created :: "(service_error + action_view) \<times> action_db" where
  "demo_created = create_pending_action demo_lib id (\<lambda>n. 0) 1 demo_owner ''create_task''
     demo_payload demo_key no_actions"

definition demo_db :: action_db where
  "demo_db = snd demo_created"

definition demo_claimed :: "(service_error + action_view \<times> bool) \<times> action_db" where
  "demo_claimed = claim_pending_action demo_lib (\<lambda>n. 5) ''tok'' 1 3 demo_db"

definition claim_won :: "(service_error + action_view \<times> bool) \<times> action_db \<Rightarrow> bool" where
  "claim_won r = (case fst r of Inr (_, b) \<Rightarrow> b | Inl _ \<Rightarrow> False)"

lemma claim_wonE:
  assumes "claim_won r"
  obtains v db where "r = (Inr (v, True), db)"
  using assms by (cases r) (auto simp: claim_won_def split: sum.splits)

definition demo_row :: pending_action where
  "demo_row = new_action demo_lib (\<lambda>n. 0) 1 3 ''create_task'' demo_canonical demo_key"

lemma demo_lib_parts [simp]: "hl_payload (al_handler demo_lib) = plain_lib"
  "uuid_of_str demo_page_lib demo_owner = Some 3" "al_page demo_lib = demo_page_lib"
  by (simp_all add: demo_lib_def demo_handler_lib_def demo_page_lib_def demo_owner_def)

lemma demo_key_ok: "validate_command_key demo_key"
  by (simp add: validate_command_key_def demo_key_def is_alnum_id_def)

lemma demo_created_row: "demo_created = (Inr (action_to_dict demo_row), \<lparr>actions = [demo_row], audits = []\<rparr>)"
  using demo_key_ok
  by (simp add: demo_created_def create_pending_action_def SUPPORTED_ACTIONS_def no_actions_def
      demo_canonicalize find_command_def insert_action_def find_action_def demo_row_def Let_def)

lemma demo_db_rows: "demo_db = \<lparr>actions = [demo_row], audits = []\<rparr>"
  by (simp add: demo_db_def demo_created_row)

lemma demo_row_fields [simp]: "pa_id demo_row = 1" "pa_user_id demo_row = 3" "pa_status demo_row = PENDING"
  "pa_expires_at demo_row = PENDING_ACTION_TTL" "pa_action_type demo_row = ''create_task''"
  "pa_payload demo_row = demo_canonical" "pa_payload_hash demo_row = make_payload_hash demo_lib demo_canonical"
  by (simp_all add: demo_row_def new_action_def)

lemma demo_row_valid: "require_canonical_payload demo_lib demo_row = Some demo_canonical"
  by (simp add: require_canonical_payload_def demo_canonical_again)

lemma demo_claimed_row: "fst demo_claimed = Inr (action_to_dict (claimed_row 5 ''tok'' demo_row), True)"
  by (simp add: demo_claimed_def claim_pending_action_def find_owned_def find_action_def demo_db_rows
      demo_row_valid PENDING_ACTION_TTL_def time_simps Let_def)

lemma demo_claim_won: "claim_won demo_claimed"
  by (simp add: claim_won_def demo_claimed_row)

lemma demo_reach: "reach empty_actions (service_step demo_lib) no_actions"
  by (rule reach_init) (simp add: empty_actions_def no_actions_def)

lemma demo_db_reach: "reach empty_actions (service_step demo_lib) demo_db"
  unfolding demo_db_def demo_created_def by (rule reach_step [OF demo_reach step_create])

lemma demo_db_inv: "action_inv demo_db"
  by (rule service_safe.reach_inv [OF demo_db_reach])

section \<open>Properties\<close>

text \<open>
  C1. In every state the service can reach, action ids and command keys are unique, the CHECK
  constraints of the table hold, an action has at most one attempt (exactly one if it has a token),
  actions that were rejected or expired were never attempted, and replaying the audit events of an
  action from \<open>pending\<close> gives its current status.
\<close>

theorem service_invariant:
  assumes "reach empty_actions (service_step lib) db"
  shows "action_inv db"
  using assms by (rule service_safe.reach_inv)

lemma service_invariant_witness: "actions demo_db \<noteq> [] \<and> action_inv demo_db"
proof -
  have "actions demo_db \<noteq> []" by (simp add: demo_db_rows)
  then show ?thesis using service_invariant [OF demo_db_reach] by simp
qed

text \<open>
  C5. Every transaction of the service is a sequence of steps of the abstract specification: an
  insertion under fresh keys, or row changes along the allowed status edges that keep the command
  and the attempt data, each recorded by exactly one audit event.
\<close>

theorem service_refines_spec:
  assumes "action_inv db" and "service_step lib db db'"
  shows "spec_step\<^sup>*\<^sup>* db db'"
  using assms by (rule service_refines)

lemma service_refines_spec_witness: "spec_step\<^sup>*\<^sup>* demo_db (snd demo_claimed)"
  unfolding demo_claimed_def by (rule service_refines_spec [OF demo_db_inv step_claim])

lemma claim_once:
  assumes "action_inv db" and "claim_pending_action lib ck tok i u db = (Inr (v, True), db1)"
    and "(service_step lib)\<^sup>*\<^sup>* db1 db2"
  shows "fst (claim_pending_action lib ck' tok' i u' db2) \<noteq> Inr (v', True)"
proof -
  have db1: "db1 = snd (claim_pending_action lib ck tok i u db)" using assms(2) by simp
  have inv1: "action_inv db1"
    unfolding db1 by (rule spec_steps_inv [OF refines_steps [OF claim_refines [OF assms(1)]] assms(1)])
  obtain a where a: "find_action db1 i = Some (claimed_row (ck 0) tok a)"
    using claim_finds [OF assms(2)] by blast
  have s: "spec_step\<^sup>*\<^sup>* db1 db2" and inv2: "action_inv db2" using service_steps_spec [OF assms(3) inv1] by auto
  obtain b where b: "find_action db2 i = Some b" "row_step\<^sup>*\<^sup>* (claimed_row (ck 0) tok a) b"
    using spec_steps_row [OF s inv1 a] by blast
  have "1 \<le> pa_attempt_count b" using row_steps_attempts [OF b(2)] by (simp add: claimed_row_def)
  then have "pa_status b \<noteq> PENDING" using inv_row_ok [OF inv2 b(1)] by (auto simp: row_ok_def)
  then show ?thesis using b(1) by (intro claim_not_pending) simp
qed

text \<open>
  C2. A command is handed out for dispatch at most once: after a claim succeeded, no later claim
  of the same action succeeds, whatever the service did in between and whoever asks.
\<close>

theorem claimed_at_most_once:
  assumes "action_inv db" and "claim_pending_action lib ck tok i u db = (Inr (v, True), db1)"
    and "(service_step lib)\<^sup>*\<^sup>* db1 db2"
  shows "fst (claim_pending_action lib ck' tok' i u' db2) \<noteq> Inr (v', True)"
  using assms by (rule claim_once)

lemma claimed_at_most_once_witness:
  "claim_won demo_claimed \<and>
   (\<forall>v. fst (claim_pending_action demo_lib (\<lambda>n. 6) ''other'' 1 3 (snd demo_claimed)) \<noteq> Inr (v, True))"
proof -
  obtain w db1 where c: "demo_claimed = (Inr (w, True), db1)" using claim_wonE [OF demo_claim_won] by blast
  have "fst (claim_pending_action demo_lib (\<lambda>n. 6) ''other'' 1 3 (snd demo_claimed)) \<noteq> Inr (v, True)" for v
    unfolding c snd_conv by (rule claimed_at_most_once [OF demo_db_inv c [unfolded demo_claimed_def] rtranclp.rtrancl_refl])
  then show ?thesis using demo_claim_won by blast
qed

text \<open>
  The command of an action is immutable and final states are final: whatever the service
  does later, the action is still there with the same owner, type, payload, hash, command key and
  deadlines, its attempt count has not decreased, and if it was succeeded, failed, rejected or
  expired the whole row is unchanged.
\<close>

lemma action_persists:
  assumes "action_inv db" and "find_action db i = Some a" and "(service_step lib)\<^sup>*\<^sup>* db db'"
  shows "\<exists>b. find_action db' i = Some b \<and> same_command a b \<and> pa_attempt_count a \<le> pa_attempt_count b \<and>
    (terminal (pa_status a) \<longrightarrow> b = a)"
proof -
  have "spec_step\<^sup>*\<^sup>* db db'" using service_steps_spec [OF assms(3,1)] by simp
  then obtain b where "find_action db' i = Some b" "row_step\<^sup>*\<^sup>* a b" using spec_steps_row assms(1,2) by blast
  then show ?thesis using row_steps_same row_steps_attempts row_steps_terminal by blast
qed

lemma demo_claim_step: "(service_step demo_lib)\<^sup>*\<^sup>* demo_db (snd demo_claimed)"
  unfolding demo_claimed_def by (rule r_into_rtranclp, rule step_claim)

lemma demo_find: "find_action demo_db 1 = Some demo_row"
  by (simp add: find_action_def demo_db_rows)

lemma action_persists_witness:
  "\<exists>b. find_action (snd demo_claimed) 1 = Some b \<and> same_command demo_row b"
  using action_persists [OF demo_db_inv demo_find demo_claim_step] by blast

text \<open>
  Finalisation is fenced: of all the finalisers that ever run for one claim only the first
  can change the database, and a finaliser whose lease is gone (taken over by an operator, or
  already finished) changes nothing.
\<close>

lemma finalization_fenced:
  assumes "action_inv db"
  shows "fold (\<lambda>x. run_finisher x v) (x # xs) db = run_finisher x v db \<and>
    (\<not> holds_lease v db \<longrightarrow> fold (\<lambda>x. run_finisher x v) (x # xs) db = db)"
  using action_lease.first_wins [OF assms] action_lease.stale_sequence [OF assms] by blast

lemma demo_claimed_inv: "action_inv (snd demo_claimed)"
  using service_steps_spec [OF demo_claim_step demo_db_inv] by simp

definition demo_view :: action_view where
  "demo_view = action_to_dict (claimed_row 5 ''tok'' demo_row)"

lemma demo_claimed_find: "find_action (snd demo_claimed) 1 = Some (claimed_row 5 ''tok'' demo_row)"
  by (simp add: demo_claimed_def claim_pending_action_def find_owned_def find_action_def demo_db_rows
      demo_row_valid PENDING_ACTION_TTL_def time_simps Let_def commit_row_def claimed_row_def)

lemma demo_holds: "holds_lease demo_view (snd demo_claimed)"
proof -
  have "find_attempt (snd demo_claimed) 1 ''tok'' = Some (claimed_row 5 ''tok'' demo_row)"
    unfolding find_attempt_def demo_claimed_find by (simp add: claimed_row_def)
  then show ?thesis
    by (simp add: holds_lease_def demo_view_def require_attempt_token_def action_to_dict_def claimed_row_def)
qed

lemma finalization_fenced_witness:
  "holds_lease demo_view (snd demo_claimed) \<and>
   fold (\<lambda>x. run_finisher x demo_view) [(\<lambda>n. 6, FinishSucceeded []), (\<lambda>n. 7, FinishAmbiguous ''late'')] (snd demo_claimed)
     = run_finisher (\<lambda>n. 6, FinishSucceeded []) demo_view (snd demo_claimed)"
  using finalization_fenced [OF demo_claimed_inv] demo_holds by blast

text \<open>
  An action is invisible to everyone but its owner: reading, rejecting or approving it as
  another user answers not found and changes nothing, and a listing shows only the caller's rows.
\<close>

lemma owner_isolation:
  assumes "find_action db i = Some a" and "pa_user_id a \<noteq> u"
  shows "get_pending_action i u db = Inl PendingActionNotFound \<and>
    reject_pending_action ck i u db = (Inl PendingActionNotFound, db) \<and>
    claim_pending_action lib ck tok i u db = (Inl PendingActionNotFound, db) \<and>
    (action_inv db \<longrightarrow> list_pending_actions plib now db (u, s) limit t = Inr (items, next) \<longrightarrow>
       i \<notin> as_id ` set items)"
proof -
  have "find_owned db i u = None" using assms by (simp add: find_owned_def)
  moreover have "i \<notin> as_id ` set items"
    if inv: "action_inv db" and l: "list_pending_actions plib now db (u, s) limit t = Inr (items, next)"
  proof
    assume "i \<in> as_id ` set items"
    then obtain b where "b \<in> set (actions db)" "pa_user_id b = u" "pa_id b = i"
      using listed_rows [OF l] by (fastforce simp: owned_actions_def summary_row_def)
    then show False
      using assms tbl_get_unique [OF inv_distinct [OF inv]] by (fastforce simp: find_action_def)
  qed
  ultimately show ?thesis
    by (simp add: get_pending_action_def reject_pending_action_def claim_pending_action_def)
qed

lemma owner_isolation_witness: "get_pending_action 1 4 demo_db = Inl PendingActionNotFound"
  using owner_isolation [OF demo_find, of 4] by simp

text \<open>
  Following the page tokens of the action list returns every row of the first request exactly
  once, newest first, even while new actions are created between the requests.
\<close>

lemma action_listing_complete:
  assumes "page_lib_ok plib" and "0 < limit" and "length (owned_actions (dbs 0) q) < n"
    and "action_pages.grows ctx dbs q" and "ctx = (plib, now)"
  shows "action_pages.walk ctx dbs q limit 0 n None =
    map (summary_row now) (keyset_rows action_key (owned_actions (dbs 0) q) None)"
  using action_pages.walk_all [of ctx dbs q limit n] assms by simp

lemma action_listing_complete_witness:
  "action_pages.walk (demo_page_lib, 7) (\<lambda>i. demo_db) (3, PENDING) 1 0 2 None =
    map (summary_row 7) (keyset_rows action_key (owned_actions demo_db (3, PENDING)) None)"
proof -
  have "action_pages.grows (demo_page_lib, 7) (\<lambda>i. demo_db) (3, PENDING)"
    by (simp add: action_pages.grows_def owned_actions_def demo_db_rows keys_distinct_def)
  then show ?thesis
    using action_listing_complete [OF demo_page_lib_ok, of 1 "\<lambda>i. demo_db" "(3, PENDING)" 2]
    by (simp add: owned_actions_def demo_db_rows)
qed

section \<open>Creation\<close>

lemma create_new_row:
  assumes "create_pending_action lib id ck n u ty p key db = (Inr v, db1)"
    and "uuid_of_str (al_page lib) u = Some owner" and "find_command db owner key = None"
  shows "\<exists>q. canonicalize_action_payload (hl_payload (al_handler lib)) ty p = Some q \<and>
    insert_action (new_action lib ck n owner ty q key) db = Some db1 \<and>
    v = action_to_dict (new_action lib ck n owner ty q key)"
  using assms
  by (auto simp: create_pending_action_def Let_def split: if_splits option.splits)

lemma insert_finds:
  "insert_action a db = Some db' \<Longrightarrow> find_action db' (pa_id a) = Some a"
  by (auto simp: insert_action_def find_action_def tbl_get_append split: if_splits option.splits)

lemma insert_command:
  assumes "insert_action a db = Some db'" and "keys_distinct command_id (actions db)"
  shows "find_command db' (pa_user_id a) (pa_command_key a) = Some a \<and> keys_distinct command_id (actions db')"
proof -
  have none: "tbl_get command_id (command_id a) (actions db) = None" and db': "actions db' = actions db @ [a]"
    using assms(1) by (auto simp: insert_action_def find_command_def command_id_def split: if_splits)
  then have "command_id a \<notin> command_id ` set (actions db)" by (simp add: tbl_get_None)
  then show ?thesis
    using none assms(2) by (simp add: find_command_def db' tbl_get_append keys_distinct_def flip: command_id_def)
qed

text \<open>
  A staged command survives approval: when an action was created under a new command key and
  its owner approves it before it expires, the claim succeeds and hands out exactly the canonical
  payload that was hashed when it was staged. The payload hypothesis is the one of the fixed-point
  property of canonicalisation.
\<close>

lemma staged_action_claimable:
  assumes "payload_lib_ok (hl_payload (al_handler lib))"
    and "create_pending_action lib id ck n u ty p key db = (Inr v, db1)"
    and "uuid_of_str (al_page lib) u = Some owner" and "find_command db owner key = None"
    and "emails_fit (av_payload v)" and "ck' 0 < av_expires_at v"
  shows "\<exists>w db2. claim_pending_action lib ck' tok n owner db1 = (Inr (w, True), db2) \<and>
    av_payload w = av_payload v \<and> av_payload_hash w = make_payload_hash lib (av_payload v) \<and>
    canonicalize_action_payload (hl_payload (al_handler lib)) ty p = Some (av_payload w)"
proof -
  obtain q where q: "canonicalize_action_payload (hl_payload (al_handler lib)) ty p = Some q"
    and ins: "insert_action (new_action lib ck n owner ty q key) db = Some db1"
    and v: "v = action_to_dict (new_action lib ck n owner ty q key)"
    using create_new_row [OF assms(2-4)] by blast
  let ?a = "new_action lib ck n owner ty q key"
  have fields: "pa_id ?a = n" "pa_user_id ?a = owner" "pa_status ?a = PENDING" "pa_action_type ?a = ty"
    "pa_payload ?a = q" "pa_payload_hash ?a = make_payload_hash lib q"
    by (simp_all add: new_action_def)
  have "find_owned db1 n owner = Some ?a"
    using insert_finds [OF ins] fields by (simp add: find_owned_def)
  moreover have "require_canonical_payload lib ?a = Some q"
    using canonicalize_again [OF assms(1) q] assms(5) fields
    by (simp add: require_canonical_payload_def v action_to_dict_def)
  moreover have "\<not> pa_expires_at ?a \<le> ck' 0" using assms(6) by (simp add: v action_to_dict_def)
  ultimately show ?thesis
    using fields q by (simp add: claim_pending_action_def Let_def v action_to_dict_def claimed_row_def)
qed

lemma staged_action_claimable_witness:
  "\<exists>w db2. claim_pending_action demo_lib (\<lambda>n. 5) ''tok'' 1 3 (snd demo_created) = (Inr (w, True), db2) \<and>
     av_payload w = demo_canonical"
proof -
  have "payload_lib_ok (hl_payload (al_handler demo_lib))" by (simp add: plain_lib_ok)
  moreover have "create_pending_action demo_lib id (\<lambda>n. 0) 1 demo_owner ''create_task'' demo_payload demo_key no_actions
      = (Inr (action_to_dict demo_row), snd demo_created)"
    using demo_created_row by (simp add: demo_created_def)
  moreover have "find_command no_actions 3 demo_key = None" by (simp add: find_command_def no_actions_def)
  moreover have "emails_fit (av_payload (action_to_dict demo_row))"
    by (simp add: action_to_dict_def demo_emails_fit)
  moreover have "(5 :: time) < av_expires_at (action_to_dict demo_row)"
    by (simp add: action_to_dict_def PENDING_ACTION_TTL_def time_simps)
  ultimately show ?thesis
    using staged_action_claimable [of demo_lib "\<lambda>n. 0" 1 demo_owner "''create_task''" demo_payload demo_key no_actions
        "action_to_dict demo_row" "snd demo_created" 3 "\<lambda>n. 5" "''tok''"]
    by (auto simp: action_to_dict_def)
qed

lemma single_command:
  assumes "keys_distinct command_id (actions d)" "find_command d owner key = Some a"
  shows "filter (\<lambda>b. command_id b = (owner, key)) (actions d) = [a]"
proof -
  have a: "a \<in> set (actions d)" "command_id a = (owner, key)"
    using assms(2) tbl_get_Some unfolding find_command_def by fast+
  then show ?thesis using filter_key_single [OF assms(1) a(1), of "\<lambda>_. True"] by simp
qed



section \<open>The expiry sweep\<close>

definition sweepable :: "(uuid \<Rightarrow> bool) \<Rightarrow> time \<Rightarrow> pending_action \<Rightarrow> bool" where
  "sweepable locked now a \<longleftrightarrow> is_stale now a \<and> \<not> locked (pa_id a)"

text \<open>The reference: one pass over all stale rows that nobody holds.\<close>

definition sweep_once :: "(uuid \<Rightarrow> bool) \<Rightarrow> time \<Rightarrow> pending_action list \<Rightarrow> pending_action list" where
  "sweep_once locked now rows = map (\<lambda>a. if sweepable locked now a then expire_row now a else a) rows"

definition sweep_batch :: "(uuid \<Rightarrow> bool) \<Rightarrow> time \<Rightarrow> pending_action list \<Rightarrow> pending_action list" where
  "sweep_batch locked now rows = take EXPIRY_SWEEP_BATCH (sort_key pa_expires_at (filter (sweepable locked now) rows))"

lemma batch_ids: "stale_batch locked now db = map pa_id (sweep_batch locked now (actions db))"
    by (simp add: stale_batch_def sweep_batch_def sweepable_def [abs_def])

lemma batch_sub: "set (sweep_batch locked now rows) \<subseteq> set (filter (sweepable locked now) rows)"
    using set_take_subset [of EXPIRY_SWEEP_BATCH "sort_key pa_expires_at (filter (sweepable locked now) rows)"]
    unfolding sweep_batch_def set_sort .

lemma batch_pending: "b \<in> set (sweep_batch locked now rows) \<Longrightarrow> b \<in> set rows \<and> pa_status b = PENDING"
    using batch_sub [of locked now rows] by (auto simp: sweepable_def is_stale_def)

lemma keys_distinct_inj: "keys_distinct key rows \<Longrightarrow> a \<in> set rows \<Longrightarrow> b \<in> set rows \<Longrightarrow> key a = key b \<Longrightarrow> a = b"
  by (auto simp: keys_distinct_def distinct_map dest: inj_onD)

lemma batch_hit:
  assumes "keys_distinct pa_id (actions db)" "a \<in> set (actions db)"
  shows "(pa_id a \<in> set (stale_batch locked now db) \<and> pa_status a = PENDING) = (a \<in> set (sweep_batch locked now (actions db)))"
  unfolding batch_ids set_map
  using batch_pending [of _ locked now "actions db"] keys_distinct_inj [OF assms] by blast

lemma batch_filter:
  assumes "keys_distinct pa_id (actions db)"
  shows "filter (\<lambda>a. pa_id a \<in> set (stale_batch locked now db) \<and> pa_status a = PENDING) (actions db)
      = filter (\<lambda>a. a \<in> set (sweep_batch locked now (actions db))) (actions db)"
    by (rule filter_cong) (simp_all only: batch_hit [OF assms])

lemma batch_distinct: "keys_distinct pa_id rows \<Longrightarrow> distinct rows \<and> distinct (sweep_batch locked now rows)"
  by (simp add: keys_distinct_def distinct_map sweep_batch_def)

lemma batch_length:
  assumes "keys_distinct pa_id (actions db)"
  shows "length (filter (\<lambda>a. a \<in> set (sweep_batch locked now (actions db))) (actions db)) = length (sweep_batch locked now (actions db))"
proof -
  let ?B = "sweep_batch locked now (actions db)"
  have d: "distinct ?B" "distinct (filter (\<lambda>a. a \<in> set ?B) (actions db))"
    using batch_distinct [OF assms] by auto
  have "set (filter (\<lambda>a. a \<in> set ?B) (actions db)) = set ?B" unfolding set_filter using batch_pending by blast
  then show ?thesis
    using distinct_card [OF d(1)] distinct_card [OF d(2)] by simp
qed

lemma batch_all: "length (sweep_batch locked now rows) < EXPIRY_SWEEP_BATCH \<Longrightarrow> sweep_batch locked now rows = sort_key pa_expires_at (filter (sweepable locked now) rows)"
  by (simp add: sweep_batch_def)

lemma expire_batch_ids:
  assumes "keys_distinct pa_id (actions db)"
  shows "length (fst (expire_batch locked now db)) = length (sweep_batch locked now (actions db))"
  using batch_length [OF assms, of locked now] by (simp add: expire_batch_def Let_def batch_filter [OF assms])
lemma expire_batch_rows:
  assumes "keys_distinct pa_id (actions db)"
  shows "actions (snd (expire_batch locked now db)) =
    map (\<lambda>a. if a \<in> set (sweep_batch locked now (actions db)) then expire_row now a else a) (actions db)"
  by (simp add: expire_batch_def Let_def batch_hit [OF assms])

lemma not_sweepable_expired [simp]: "\<not> sweepable locked now (expire_row now a)"
  by (simp add: sweepable_def is_stale_def expire_row_def)

lemma filter_after_batch:
  assumes "set B \<subseteq> set (filter P xs)" and "\<And>a. \<not> P (f a)"
  shows "length (filter P (map (\<lambda>a. if a \<in> set B then f a else a) xs)) + length (filter (\<lambda>a. a \<in> set B) xs)
    = length (filter P xs)"
  using assms by (intro filter_partial_update) auto

lemma expire_loop_sweeps:
  "keys_distinct pa_id (actions db) \<Longrightarrow>
   actions (snd (expire_loop locked now n db)) = sweep_once locked now (actions db) \<and>
   fst (expire_loop locked now n db) = n + length (filter (sweepable locked now) (actions db))"
proof (induction locked now n db rule: expire_loop.induct)
  case (1 locked now n db)
  let ?B = "sweep_batch locked now (actions db)" and ?r = "expire_batch locked now db"
  let ?n = "n + length (sweep_batch locked now (actions db))"
  note rows = expire_batch_rows [OF "1.prems", of locked now]
  note len = expire_batch_ids [OF "1.prems", of locked now]
  have sw: "sweepable locked now a" if "a \<in> set ?B" for a using that batch_sub by fastforce
  show ?case
  proof (cases "length ?B < EXPIRY_SWEEP_BATCH")
    case True
    note all = batch_all [OF True]
    have "(a \<in> set ?B) = sweepable locked now a" if "a \<in> set (actions db)" for a
      using that by (simp add: all)
    then have "actions (snd ?r) = sweep_once locked now (actions db)"
      unfolding rows sweep_once_def by simp
    moreover have "length ?B = length (filter (sweepable locked now) (actions db))" by (simp add: all)
    ultimately show ?thesis
      using True len by (simp add: expire_loop.simps [of locked now n db] Let_def)
  next
    case False
    have keys: "map pa_id (actions (snd ?r)) = map pa_id (actions db)"
      unfolding rows by (simp add: expire_row_def)
    have IH: "actions (snd (expire_loop locked now ?n (snd ?r))) = sweep_once locked now (actions (snd ?r)) \<and>
        fst (expire_loop locked now ?n (snd ?r)) = ?n + length (filter (sweepable locked now) (actions (snd ?r)))"
      using "1.IH" [OF refl refl] "1.prems" False keys unfolding len by (simp add: keys_distinct_def)
    have "sweep_once locked now (actions (snd ?r)) = sweep_once locked now (actions db)"
      unfolding rows sweep_once_def using sw by auto
    moreover have "length ?B + length (filter (sweepable locked now) (actions (snd ?r)))
        = length (filter (sweepable locked now) (actions db))"
      using filter_after_batch [OF batch_sub [of locked now "actions db"], of "expire_row now"]
      unfolding rows batch_length [OF "1.prems"] by simp
    ultimately show ?thesis
      using IH False len by (simp add: expire_loop.simps [of locked now n db] Let_def)
  qed
qed

text \<open>
  C39. The batched expiry sweep does what one pass over the whole table would do: exactly the
  pending rows past their deadline that no other session has locked become expired, every other row
  is untouched, and the returned number is how many there were, however many batches it took.
\<close>

lemma sweep_equals_one_pass:
  assumes "action_inv db"
  shows "actions (snd (expire_stale_actions locked now db)) = sweep_once locked now (actions db) \<and>
    fst (expire_stale_actions locked now db) = length (filter (sweepable locked now) (actions db))"
  using expire_loop_sweeps [OF inv_distinct [OF assms], of locked now 0] by (simp add: expire_stale_actions_def)

lemma sweep_equals_one_pass_witness:
  "fst (expire_stale_actions (\<lambda>i. False) (minutes 15) demo_db) = 1"
  using sweep_equals_one_pass [OF demo_db_inv, of "\<lambda>i. False" "minutes 15"]
  by (simp add: demo_db_rows sweepable_def is_stale_def PENDING_ACTION_TTL_def)

section \<open>What is stored and what was sent\<close>

lemma finalize_result:
  assumes "find_attempt db (av_id v) tok = Some row" and "require_attempt_token v = Inr tok"
    and "\<not> lease_expired (ck 0) row"
  shows "\<exists>row'. finalize_claimed_action ck f v db = (Inr (action_to_dict row'), snd (finalize_claimed_action ck f v db)) \<and>
    pa_status row' = fz_status f \<and> find_action (snd (finalize_claimed_action ck f v db)) (av_id v) = Some row'"
proof -
  have f: "find_action db (av_id v) = Some row" and i: "pa_id row = av_id v"
    using find_attemptD [OF assms(1)] find_actionD by auto
  have put: "find_action (commit_row b e db) (av_id v) = Some b" if "pa_id b = av_id v" for b e
    using f that by (simp add: find_action_def commit_row_def tbl_get_put)
  show ?thesis
  proof (cases "fz_status f = RECONCILIATION_REQUIRED")
    case True
    then show ?thesis
      using assms i put
      by (auto simp: finalize_claimed_action_def commit_reconciliation_def mark_reconciliation_required_def Let_def)
  next
    case False
    then show ?thesis
      using assms i put by (auto simp: finalize_claimed_action_def finalized_row_def Let_def)
  qed
qed

lemma finalization_status:
  "finalization_of r = Some f \<Longrightarrow> write_ok r cw \<Longrightarrow>
   (fz_status f = SUCCEEDED \<longrightarrow> length cw = 1 \<and> accepted (snd (hd cw))) \<and>
   (fz_status f = FAILED \<longrightarrow> list_all refused cw) \<and> length cw \<le> 1 \<and> final_status (fz_status f)"
  by (cases r rule: finalization_of.cases) (auto simp: final_status_def split: if_splits)

text \<open>
  C3. The status recorded for an executed command agrees with what the provider saw. While the
  lease is live, executing a claimed action sends at most one command write (a message, an event or
  a task) and, for the creation of a task only, at most one creation of the task list before it; every
  other request is a read. The action is stored as succeeded only if the command write was sent and
  answered with an id, and as failed only if no command write was sent or the provider definitely
  refused it (a task list created before may remain); in every other case it is stored as needing
  reconciliation. Other sessions may commit anything in between that keeps the lease.
\<close>

theorem execution_recorded_truthfully:
  assumes "sdk_failures sv"
    and "require_attempt_token v = Inr tok" and "find_attempt (interfere db) (av_id v) tok = Some row"
    and "\<not> lease_expired (ck 0) row"
    and "execute_claimed_action lib sv av interfere ck v db h = (Inr w, db', h')"
  shows "\<exists>new row'. h' = h @ new \<and> length (command_writes new) \<le> 1 \<and>
    length (list_writes new) \<le> 1 \<and> (av_action_type v \<noteq> ''create_task'' \<longrightarrow> list_writes new = []) \<and>
    (\<forall>(c, a) \<in> set new. is_write c \<longrightarrow> (c, a) \<in> set (command_writes new @ list_writes new)) \<and>
    find_action db' (av_id v) = Some row' \<and> w = action_to_dict row' \<and> final_status (pa_status row') \<and>
    (pa_status row' = SUCCEEDED \<longrightarrow> length (command_writes new) = 1 \<and> accepted (snd (hd (command_writes new)))) \<and>
    (pa_status row' = FAILED \<longrightarrow> list_all refused (command_writes new))"
proof -
  obtain r h1 where e: "execute_action (al_handler lib) sv av (command_of v) h = (r, h1)" by fastforce
  obtain new where new: "h1 = h @ new" "write_ok r (command_writes new)" "length (list_writes new) \<le> 1"
    using execute_action_dispatch [OF assms(1) e] by blast
  have lists: "list_writes new = []" if "av_action_type v \<noteq> ''create_task''"
    using execute_action_lists [of "command_of v"] e new(1) that by (simp add: command_of_def)
  obtain f where f: "finalization_of r = Some f"
    using assms(5) e by (auto simp: execute_claimed_action_def split: option.splits)
  obtain row' where row': "finalize_claimed_action ck f v (interfere db)
      = (Inr (action_to_dict row'), snd (finalize_claimed_action ck f v (interfere db)))"
      "pa_status row' = fz_status f" "find_action (snd (finalize_claimed_action ck f v (interfere db))) (av_id v) = Some row'"
    using finalize_result [where ck = ck, OF assms(3,2,4)] by blast
  have out: "w = action_to_dict row'" "db' = snd (finalize_claimed_action ck f v (interfere db))" "h' = h1"
    using assms(5) e f row'(1) by (auto simp: execute_claimed_action_def split_beta)
  have all: "\<forall>(c, a) \<in> set new. is_write c \<longrightarrow> (c, a) \<in> set (command_writes new @ list_writes new)"
    by (auto simp: command_writes_def list_writes_def)
  have status: "pa_status row' = SUCCEEDED \<longrightarrow> length (command_writes new) = 1 \<and> accepted (snd (hd (command_writes new)))"
    "pa_status row' = FAILED \<longrightarrow> list_all refused (command_writes new)" "length (command_writes new) \<le> 1"
    "final_status (pa_status row')"
    using finalization_status [OF f new(2)] unfolding row'(2) by blast+
  show ?thesis
    unfolding out new(1) using new(3) lists all status row'(3) by (intro exI [of _ new] exI [of _ row'] conjI impI) blast+
qed

lemma execution_recorded_truthfully_witness:
  "\<exists>new row'. snd (snd (execute_claimed_action demo_lib demo_services all_services id (\<lambda>n. 6) demo_view (snd demo_claimed) [])) = [] @ new \<and>
     find_action (fst (snd (execute_claimed_action demo_lib demo_services all_services id (\<lambda>n. 6) demo_view (snd demo_claimed) []))) 1 = Some row' \<and>
     final_status (pa_status row')"
proof -
  let ?out = "execute_claimed_action demo_lib demo_services all_services id (\<lambda>n. 6) demo_view (snd demo_claimed) []"
  have tok: "require_attempt_token demo_view = Inr ''tok''" and vid: "av_id demo_view = 1"
    by (simp_all add: demo_view_def require_attempt_token_def action_to_dict_def claimed_row_def)
  have find: "find_attempt (id (snd demo_claimed)) (av_id demo_view) ''tok'' = Some (claimed_row 5 ''tok'' demo_row)"
    unfolding find_attempt_def vid id_apply demo_claimed_find by (simp add: claimed_row_def)
  have live: "\<not> lease_expired ((\<lambda>n. 6) (0 :: nat)) (claimed_row 5 ''tok'' demo_row)"
    by (simp add: lease_expired_def claimed_row_def PROCESSING_LEASE_def time_simps)
  obtain r h1 where e: "execute_action (al_handler demo_lib) demo_services all_services (command_of demo_view) [] = (r, h1)"
    by fastforce
  have "command_of demo_view = \<lparr>cmd_action_type = ''create_task'', cmd_payload = demo_canonical, cmd_key = demo_key\<rparr>"
    by (simp add: command_of_def demo_view_def action_to_dict_def claimed_row_def) (simp add: demo_row_def new_action_def)
  then have "\<exists>v. r = Inr v"
    using e by (auto simp: execute_action_def demo_lib_def demo_handler_lib_def demo_canonical_again all_services_def
      create_task_command_def run_job_def run_google_operation_def create_task_sync_def demo_services_def
      numeral_3_eq_3 call_sync_def bind_call_def get_list_def or_empty_def py_get_def is_jobj_def jget_def
      truthy_def next_page_token_def insert_task_def confirm_task_def Let_def)
  then obtain f where f: "finalization_of r = Some f" by auto
  obtain row' where "finalize_claimed_action (\<lambda>n. 6) f demo_view (id (snd demo_claimed))
      = (Inr (action_to_dict row'), snd (finalize_claimed_action (\<lambda>n. 6) f demo_view (id (snd demo_claimed))))"
    using finalize_result [where ck = "\<lambda>n. 6", OF find tok live] by blast
  then have "fst (finalize_claimed_action (\<lambda>n. 6) f demo_view (snd demo_claimed)) = Inr (action_to_dict row')"
    unfolding id_apply by (metis fst_conv)
  then have "?out = (Inr (action_to_dict row'), fst (snd ?out), snd (snd ?out))"
    using e f by (simp add: execute_claimed_action_def split_beta)
  from execution_recorded_truthfully [where interfere = id, OF demo_sdk_failures tok find live this]
  show ?thesis unfolding vid by blast
qed

text \<open>
  Reconciling an action by hand never repeats it: the provider history grows by reads only,
  and the database changes only by steps of the specification and by what other sessions commit.
\<close>

lemma reconciliation_repeats_nothing:
  assumes "action_inv db" and "\<And>d. action_inv d \<Longrightarrow> action_inv (interfere d)"
  shows "reads_after h (snd (snd (reconcile_pending_action lib sv av interfere ck i u db h))) \<and>
    action_inv (fst (snd (reconcile_pending_action lib sv av interfere ck i u db h)))"
proof -
  obtain r1 db1 where b: "begin_reconciliation ck i u db = (r1, db1)" by fastforce
  have i1: "action_inv db1"
    using begin_reconciliation_refines [OF assms(1), of ck i u] b refines_steps spec_steps_inv [OF _ assms(1)] by simp
  have i2: "action_inv (snd (apply_reconciliation ck' i u r (interfere db1)))" for ck' r
    using apply_reconciliation_refines [OF assms(2) [OF i1]] refines_steps spec_steps_inv [OF _ assms(2) [OF i1]] by blast
  show ?thesis
  proof (cases r1)
    case (Inl e)
    then show ?thesis using b i1 by (simp add: reconcile_pending_action_def)
  next
    case (Inr v)
    obtain e h1 where l: "reconcile_action (al_handler lib) sv av (command_of v) h = (e, h1)" by fastforce
    have "reads_after h h1" using reconcile_reads [of h "al_handler lib" sv av "command_of v"] l by simp
    then show ?thesis
      using b Inr l i2 assms(2) [OF i1]
      by (cases e) (simp_all add: reconcile_pending_action_def split_beta)
  qed
qed

lemma reconciliation_repeats_nothing_witness:
  "reads_after [] (snd (snd (reconcile_pending_action demo_lib demo_services all_services id (\<lambda>n. 9) 1 8 demo_db [])))"
  using reconciliation_repeats_nothing [OF demo_db_inv, of id] by simp

end
