(* ===== verification/Notification_Jobs.thy ===== *)
theory Notification_Jobs
  imports Settings
begin

text \<open>
  Durable Gmail notification jobs, mailbox recovery state and triage work
  (\<open>server/services/notification_jobs.py\<close>; the tables \<open>GmailNotificationJob\<close>,
  \<open>GmailMailboxState\<close> and \<open>GmailTriageWork\<close> of \<open>server/models.py\<close>). Each
  operation is one transaction on the three tables; row locks make it atomic. Lease tokens and row
  ids are arguments, and a clock gives the successive readings of \<open>_now()\<close>. Base64 and JSON
  decoding and \<open>parseaddr\<close> are the parameter \<open>notify_lib\<close>.
\<close>

section \<open>State\<close>

datatype job_state = JobPending | JobProcessing | JobSucceeded | JobDeadLetter

datatype resync_state = ResyncIdle | ResyncRequired | ResyncProcessing | ResyncManualRequired

datatype triage_state = TriageProcessing | TriageSucceeded | TriageNoop | TriageDeadLetter

record notification_job =
  nj_id :: uuid
  nj_pubsub_message_id :: str
  nj_mailbox_email :: str
  nj_history_id :: int
  nj_state :: job_state
  nj_attempt_count :: nat
  nj_lease_token :: "str option"
  nj_lease_expires_at :: "time option"
  nj_next_attempt_at :: "time option"
  nj_last_error_code :: "str option"
  nj_received_at :: time
  nj_processed_at :: "time option"

record mailbox_state =
  ms_mailbox_email :: str
  ms_user_id :: uuid
  ms_history_cursor :: "int option"
  ms_watch_history_id :: "int option"
  ms_watch_expires_at :: "time option"
  ms_watch_lease_token :: "str option"
  ms_watch_lease_expires_at :: "time option"
  ms_watch_renewal_attempt_count :: nat
  ms_watch_renewal_next_attempt_at :: "time option"
  ms_resync_required :: bool
  ms_resync_state :: resync_state
  ms_resync_generation :: nat
  ms_resync_lease_token :: "str option"
  ms_resync_lease_expires_at :: "time option"
  ms_resync_attempt_count :: nat
  ms_resync_next_attempt_at :: "time option"
  ms_resync_page_token :: "str option"
  ms_resync_message_count :: nat
  ms_worker_heartbeat_at :: "time option"
  ms_watch_last_error_code :: "str option"
  ms_last_error_code :: "str option"

record triage_work =
  tw_id :: uuid
  tw_mailbox_email :: str
  tw_message_id :: str
  tw_source_history_id :: int
  tw_state :: triage_state
  tw_attempt_count :: nat
  tw_lease_token :: "str option"
  tw_lease_expires_at :: "time option"
  tw_next_attempt_at :: "time option"
  tw_triage_summary :: "str option"
  tw_last_error_code :: "str option"
  tw_processed_at :: "time option"
  tw_created_at :: time

record mail_db =
  jobs :: "notification_job list"
  mailboxes :: "mailbox_state list"
  triage :: "triage_work list"

text \<open>The claims handed to a worker.\<close>

record notification_envelope =
  ne_pubsub_message_id :: str
  ne_mailbox_email :: str
  ne_history_id :: int

record claimed_job =
  cj_id :: uuid
  cj_mailbox_email :: str
  cj_history_id :: int
  cj_lease_token :: str
  cj_resync_generation :: nat

record claimed_triage =
  ct_id :: uuid
  ct_lease_token :: str

record claimed_resync =
  cr_mailbox_email :: str
  cr_user_id :: uuid
  cr_lease_token :: str
  cr_generation :: nat
  cr_page_token :: "str option"
  cr_message_count :: nat

datatype notify_error =
    NotificationValidationError str
  | AutomationBaselineUnavailable
  | UncaughtValueError
  | ConnectionUnavailable str
  | NotifyIntegrityError

record notify_lib =
  nl_json_loads :: "nat list \<Rightarrow> json option"
  nl_b64decode :: "str \<Rightarrow> nat list option"
  nl_parseaddr :: "str \<Rightarrow> str"

section \<open>Backoff\<close>

definition retry_at :: "settings \<Rightarrow> time \<Rightarrow> nat \<Rightarrow> time" where
  "retry_at s now attempt_count =
     (let exponent = max 0 (min (int attempt_count - 1) 30);
          delay = min (GMAIL_RETRY_BACKOFF_INITIAL_SECONDS s * 2 ^ nat exponent) (GMAIL_RETRY_BACKOFF_MAX_SECONDS s)
      in now + seconds delay)"

section \<open>Reading an envelope\<close>

definition invalid :: "str \<Rightarrow> notify_error" where
  "invalid what = NotificationValidationError what"

definition normalize_email :: "notify_lib \<Rightarrow> json option \<Rightarrow> notify_error + str" where
  "normalize_email lib value =
     (case value of
        Some (JStr v) \<Rightarrow>
          if strip v = [] \<or> length v > 320 then Inl (invalid ''mailbox email'')
          else let w = strip v; address = nl_parseaddr lib w in
               if address \<noteq> w \<or> count_list address (CHR ''@'') \<noteq> 1 then Inl (invalid ''mailbox email'')
               else Inr (casefold address)
      | _ \<Rightarrow> Inl (invalid ''mailbox email''))"

definition bounded_identifier :: "nat \<Rightarrow> json option \<Rightarrow> notify_error + str" where
  "bounded_identifier maximum value =
     (case value of
        Some (JStr v) \<Rightarrow>
          if strip v = [] \<or> length v > maximum then Inl (invalid ''notification message ID'')
          else let w = strip v in
               if list_ex (\<lambda>c. is_space c \<or> (of_char c :: nat) < 33) w then Inl (invalid ''notification message ID'')
               else Inr w
      | _ \<Rightarrow> Inl (invalid ''notification message ID''))"

text \<open>\<open>int()\<close> refuses more digits than the interpreter's limit with a plain \<open>ValueError\<close>.\<close>

definition INT_MAX_STR_DIGITS :: nat where
  "INT_MAX_STR_DIGITS = 4300"

definition BIGINT_MAX :: int where
  "BIGINT_MAX = 9223372036854775807"

definition envelope_history_id :: "json option \<Rightarrow> notify_error + int" where
  "envelope_history_id value =
     (case value of
        Some (JStr v) \<Rightarrow>
          if \<not> is_ascii v \<or> \<not> is_decimal v then Inl (invalid ''history ID'')
          else if length v > INT_MAX_STR_DIGITS then Inl UncaughtValueError
          else let parsed = int (int_of_decimal v) in
               if parsed \<le> 0 \<or> parsed > BIGINT_MAX then Inl (invalid ''history ID'') else Inr parsed
      | _ \<Rightarrow> Inl (invalid ''history ID''))"

text \<open>\<open>d.get(k)\<close> compared with a value that may be \<open>None\<close>.\<close>

definition get_or_none :: "str \<Rightarrow> json \<Rightarrow> json option" where
  "get_or_none k j = (case jget k j of Some JNull \<Rightarrow> None | v \<Rightarrow> v)"

text \<open>
  The decoder raises a plain \<open>ValueError\<close> for text that is not ASCII, before it looks at
  the alphabet.
\<close>

definition notification_data :: "notify_lib \<Rightarrow> settings \<Rightarrow> json option \<Rightarrow> notify_error + json" where
  "notification_data lib s encoded =
     (case encoded of
        Some (JStr text) \<Rightarrow>
          if int (length text) > PUBSUB_MAX_ENVELOPE_BYTES s * 2 then Inl (invalid ''notification data'')
          else if \<not> is_ascii text then Inl UncaughtValueError
          else (case Option.bind (nl_b64decode lib text) (nl_json_loads lib) of
                  Some (JObj kvs) \<Rightarrow> Inr (JObj kvs)
                | _ \<Rightarrow> Inl (invalid ''notification data''))
      | _ \<Rightarrow> Inl (invalid ''notification data''))"

definition parse_notification_envelope ::
  "notify_lib \<Rightarrow> settings \<Rightarrow> nat list \<Rightarrow> str option \<Rightarrow> notify_error + notification_envelope" where
  "parse_notification_envelope lib s raw_body expected_subscription =
     (if raw_body = [] \<or> int (length raw_body) > PUBSUB_MAX_ENVELOPE_BYTES s
      then Inl (invalid ''notification body'')
      else case nl_json_loads lib raw_body of
        None \<Rightarrow> Inl (invalid ''notification body'')
      | Some envelope \<Rightarrow>
          if \<not> is_jobj envelope \<or> get_or_none ''subscription'' envelope \<noteq> map_option JStr expected_subscription
          then Inl (invalid ''notification subscription'')
          else case jget ''message'' envelope of
            Some (JObj m) \<Rightarrow>
              (case bounded_identifier 255 (map_of m ''messageId'') of
                 Inl e \<Rightarrow> Inl e
               | Inr message_id \<Rightarrow>
                   (case notification_data lib s (map_of m ''data'') of
                      Inl e \<Rightarrow> Inl e
                    | Inr notification \<Rightarrow>
                        (case normalize_email lib (jget ''emailAddress'' notification) of
                           Inl e \<Rightarrow> Inl e
                         | Inr email \<Rightarrow>
                             (case envelope_history_id (jget ''historyId'' notification) of
                                Inl e \<Rightarrow> Inl e
                              | Inr h \<Rightarrow> Inr \<lparr>ne_pubsub_message_id = message_id, ne_mailbox_email = email,
                                            ne_history_id = h\<rparr>))))
          | _ \<Rightarrow> Inl (invalid ''notification message''))"

section \<open>Rows\<close>

definition find_mailbox :: "mail_db \<Rightarrow> str \<Rightarrow> mailbox_state option" where
  "find_mailbox db email = tbl_get ms_mailbox_email email (mailboxes db)"

definition owner_mailbox_state :: "mail_db \<Rightarrow> uuid \<Rightarrow> mailbox_state option" where
  "owner_mailbox_state db owner_id = tbl_get ms_user_id owner_id (mailboxes db)"

definition put_job :: "notification_job \<Rightarrow> mail_db \<Rightarrow> mail_db" where
  "put_job j db = db\<lparr>jobs := tbl_put nj_id j (jobs db)\<rparr>"

definition put_mailbox :: "mailbox_state \<Rightarrow> mail_db \<Rightarrow> mail_db" where
  "put_mailbox m db = db\<lparr>mailboxes := tbl_put ms_mailbox_email m (mailboxes db)\<rparr>"

definition put_triage :: "triage_work \<Rightarrow> mail_db \<Rightarrow> mail_db" where
  "put_triage w db = db\<lparr>triage := tbl_put tw_id w (triage db)\<rparr>"

text \<open>The fenced selections: the row must still be processing under the claim's token.\<close>

definition leased_job :: "mail_db \<Rightarrow> claimed_job \<Rightarrow> notification_job option" where
  "leased_job db c =
     (case tbl_get nj_id (cj_id c) (jobs db) of
        Some j \<Rightarrow> if nj_state j = JobProcessing \<and> nj_lease_token j = Some (cj_lease_token c) then Some j else None
      | None \<Rightarrow> None)"

definition leased_triage :: "mail_db \<Rightarrow> claimed_triage \<Rightarrow> triage_work option" where
  "leased_triage db c =
     (case tbl_get tw_id (ct_id c) (triage db) of
        Some w \<Rightarrow> if tw_state w = TriageProcessing \<and> tw_lease_token w = Some (ct_lease_token c) then Some w else None
      | None \<Rightarrow> None)"

definition locked_resync_state :: "mail_db \<Rightarrow> claimed_resync \<Rightarrow> mailbox_state option" where
  "locked_resync_state db c =
     (case find_mailbox db (cr_mailbox_email c) of
        Some m \<Rightarrow>
          if ms_user_id m = cr_user_id c \<and> ms_resync_state m = ResyncProcessing \<and>
             ms_resync_generation m = cr_generation c \<and> ms_resync_lease_token m = Some (cr_lease_token c)
          then Some m else None
      | None \<Rightarrow> None)"

definition leased_watch :: "mail_db \<Rightarrow> str \<Rightarrow> str \<Rightarrow> mailbox_state option" where
  "leased_watch db email token =
     (case find_mailbox db email of
        Some m \<Rightarrow> if ms_watch_lease_token m = Some token then Some m else None
      | None \<Rightarrow> None)"

section \<open>Enqueueing\<close>

definition configured_automation_mailbox :: "notify_lib \<Rightarrow> notify_error + str \<Rightarrow> notify_error + str" where
  "configured_automation_mailbox lib connection =
     (case connection of Inl e \<Rightarrow> Inl e | Inr google_email \<Rightarrow> normalize_email lib (Some (JStr google_email)))"

definition new_job :: "uuid \<Rightarrow> time \<Rightarrow> notification_envelope \<Rightarrow> notification_job" where
  "new_job i received e = \<lparr>nj_id = i, nj_pubsub_message_id = ne_pubsub_message_id e,
     nj_mailbox_email = ne_mailbox_email e, nj_history_id = ne_history_id e, nj_state = JobPending,
     nj_attempt_count = 0, nj_lease_token = None, nj_lease_expires_at = None, nj_next_attempt_at = None,
     nj_last_error_code = None, nj_received_at = received, nj_processed_at = None\<rparr>"

text \<open>\<open>connection\<close> is the stored Google address of the owner, or why it cannot be loaded.\<close>

definition enqueue_notification ::
  "notify_lib \<Rightarrow> uuid \<Rightarrow> time \<Rightarrow> notify_error + str \<Rightarrow> notification_envelope \<Rightarrow> uuid \<Rightarrow> mail_db \<Rightarrow>
   (notify_error + bool) \<times> mail_db" where
  "enqueue_notification lib new_id received connection e owner_id db =
     (case configured_automation_mailbox lib connection of
        Inl err \<Rightarrow> (Inl err, db)
      | Inr expected_mailbox \<Rightarrow>
          if ne_mailbox_email e \<noteq> expected_mailbox
          then (Inl (NotificationValidationError ''notification mailbox is not configured''), db)
          else case find_mailbox db (ne_mailbox_email e) of
            None \<Rightarrow> (Inl AutomationBaselineUnavailable, db)
          | Some m \<Rightarrow>
              if ms_history_cursor m = None then (Inl AutomationBaselineUnavailable, db)
              else if ms_user_id m \<noteq> owner_id
              then (Inl (NotificationValidationError ''notification mailbox owner is invalid''), db)
              else if tbl_get nj_pubsub_message_id (ne_pubsub_message_id e) (jobs db) \<noteq> None
              then (Inr False, db)
              else if tbl_get nj_id new_id (jobs db) \<noteq> None then (Inl NotifyIntegrityError, db)
              else (Inr True, db\<lparr>jobs := jobs db @ [new_job new_id received e]\<rparr>))"

section \<open>Claiming a job\<close>

definition due :: "time \<Rightarrow> time option \<Rightarrow> bool" where
  "due now t = (case t of None \<Rightarrow> True | Some x \<Rightarrow> x \<le> now)"

text \<open>An SQL comparison with \<open>NULL\<close> is not true.\<close>

definition lapsed :: "time \<Rightarrow> time option \<Rightarrow> bool" where
  "lapsed now t = (case t of None \<Rightarrow> False | Some x \<Rightarrow> x \<le> now)"

definition claimable :: "time \<Rightarrow> uuid \<Rightarrow> mail_db \<Rightarrow> notification_job \<Rightarrow> bool" where
  "claimable now owner_id db j =
     ((case find_mailbox db (nj_mailbox_email j) of Some m \<Rightarrow> ms_user_id m = owner_id | None \<Rightarrow> False) \<and>
      (nj_state j = JobPending \<and> due now (nj_next_attempt_at j) \<or>
       nj_state j = JobProcessing \<and> lapsed now (nj_lease_expires_at j)))"

definition job_order :: "notification_job \<Rightarrow> time \<times> uuid" where
  "job_order j = (nj_received_at j, nj_id j)"

definition next_job :: "(uuid \<Rightarrow> bool) \<Rightarrow> time \<Rightarrow> uuid \<Rightarrow> mail_db \<Rightarrow> notification_job option" where
  "next_job locked now owner_id db =
     (case sort_key job_order (filter (\<lambda>j. claimable now owner_id db j \<and> \<not> locked (nj_id j)) (jobs db)) of
        [] \<Rightarrow> None | j # _ \<Rightarrow> Some j)"

text \<open>The mailbox updates that several operations share.\<close>

definition expire_resync_lease :: "settings \<Rightarrow> time \<Rightarrow> mailbox_state \<Rightarrow> mailbox_state" where
  "expire_resync_lease s now m = m\<lparr>ms_resync_state := ResyncRequired, ms_resync_required := True,
     ms_resync_lease_token := None, ms_resync_lease_expires_at := None,
     ms_resync_attempt_count := ms_resync_attempt_count m + 1,
     ms_resync_next_attempt_at := Some (retry_at s now (ms_resync_attempt_count m + 1)),
     ms_last_error_code := Some ''resync_lease_expired''\<rparr>"

definition back_to_pending :: "str \<Rightarrow> time option \<Rightarrow> notification_job \<Rightarrow> notification_job" where
  "back_to_pending code next_at j = j\<lparr>nj_state := JobPending, nj_lease_token := None, nj_lease_expires_at := None,
     nj_last_error_code := Some code, nj_next_attempt_at := next_at\<rparr>"

definition attempt_limit_mailbox :: "time \<Rightarrow> mailbox_state \<Rightarrow> mailbox_state" where
  "attempt_limit_mailbox now m = m\<lparr>ms_resync_state := ResyncRequired, ms_resync_required := True,
     ms_resync_generation := ms_resync_generation m + 1, ms_resync_page_token := None,
     ms_resync_message_count := 0, ms_resync_attempt_count := 0, ms_resync_next_attempt_at := Some now,
     ms_last_error_code := Some ''attempt_limit_exceeded''\<rparr>"

definition leased_row :: "settings \<Rightarrow> time \<Rightarrow> str \<Rightarrow> notification_job \<Rightarrow> notification_job" where
  "leased_row s now token j = j\<lparr>nj_state := JobProcessing, nj_attempt_count := nj_attempt_count j + 1,
     nj_lease_token := Some token,
     nj_lease_expires_at := Some (now + seconds (GMAIL_NOTIFICATION_LEASE_SECONDS s)), nj_next_attempt_at := None\<rparr>"

definition claim_notification_job ::
  "settings \<Rightarrow> clock \<Rightarrow> str \<Rightarrow> (uuid \<Rightarrow> bool) \<Rightarrow> uuid \<Rightarrow> mail_db \<Rightarrow> claimed_job option \<times> mail_db" where
  "claim_notification_job s ck token locked owner_id db =
     (let now = ck 0 in
      case next_job locked now owner_id db of
        None \<Rightarrow> (None, db)
      | Some j \<Rightarrow>
          (case find_mailbox db (nj_mailbox_email j) of
             None \<Rightarrow> (None, put_job (j\<lparr>nj_state := JobDeadLetter, nj_last_error_code := Some ''mailbox_state_missing'',
                       nj_processed_at := Some now\<rparr>) db)
           | Some m \<Rightarrow>
               if nj_state j = JobProcessing then
                 (None, put_job (back_to_pending ''job_lease_expired''
                      (Some (retry_at s (ck 1) (max 1 (nj_attempt_count j)))) j)
                    (if ms_resync_state m = ResyncProcessing \<and> lapsed now (ms_resync_lease_expires_at m)
                     then put_mailbox (expire_resync_lease s (ck 2) m) db else db))
               else if ms_resync_state m = ResyncManualRequired then
                 (None, put_job (j\<lparr>nj_state := JobDeadLetter, nj_last_error_code := Some ''resync_manual_required'',
                    nj_next_attempt_at := None, nj_processed_at := Some now\<rparr>) db)
               else if int (nj_attempt_count j) \<ge> GMAIL_NOTIFICATION_MAX_ATTEMPTS s \<and> ms_resync_state m = ResyncIdle then
                 (None, put_job (j\<lparr>nj_last_error_code := Some ''attempt_limit_exceeded'', nj_next_attempt_at := Some now\<rparr>)
                    (put_mailbox (attempt_limit_mailbox now m) db))
               else
                 (Some \<lparr>cj_id = nj_id j, cj_mailbox_email = nj_mailbox_email j, cj_history_id = nj_history_id j,
                    cj_lease_token = token, cj_resync_generation = ms_resync_generation m\<rparr>,
                  put_job (leased_row s now token j) db)))"

definition job_mailbox_state :: "claimed_job \<Rightarrow> mail_db \<Rightarrow> mailbox_state option" where
  "job_mailbox_state c db = find_mailbox db (cj_mailbox_email c)"

definition record_worker_heartbeat :: "time \<Rightarrow> uuid \<Rightarrow> mail_db \<Rightarrow> mail_db" where
  "record_worker_heartbeat now owner_id db =
     (case owner_mailbox_state db owner_id of
        None \<Rightarrow> db
      | Some m \<Rightarrow> put_mailbox (m\<lparr>ms_worker_heartbeat_at := Some now\<rparr>) db)"

section \<open>Triage work\<close>

definition triage_terminal :: "triage_state \<Rightarrow> bool" where
  "triage_terminal st = (st \<in> {TriageSucceeded, TriageNoop, TriageDeadLetter})"

definition triage_key :: "triage_work \<Rightarrow> str \<times> str" where
  "triage_key w = (tw_mailbox_email w, tw_message_id w)"

definition find_triage :: "mail_db \<Rightarrow> str \<Rightarrow> str \<Rightarrow> triage_work option" where
  "find_triage db email message_id = tbl_get triage_key (email, message_id) (triage db)"

definition new_triage ::
  "settings \<Rightarrow> clock \<Rightarrow> uuid \<Rightarrow> str \<Rightarrow> str \<Rightarrow> str \<Rightarrow> int \<Rightarrow> triage_work" where
  "new_triage s ck new_id token email message_id source_history_id =
     \<lparr>tw_id = new_id, tw_mailbox_email = email, tw_message_id = message_id,
      tw_source_history_id = source_history_id, tw_state = TriageProcessing, tw_attempt_count = 1,
      tw_lease_token = Some token,
      tw_lease_expires_at = Some (ck 0 + seconds (GMAIL_NOTIFICATION_LEASE_SECONDS s)),
      tw_next_attempt_at = None, tw_triage_summary = None, tw_last_error_code = None,
      tw_processed_at = None, tw_created_at = ck 1\<rparr>"

text \<open>The rules for a row that exists already.\<close>

definition reclaim_triage ::
  "settings \<Rightarrow> time \<Rightarrow> str \<Rightarrow> triage_work \<Rightarrow> mail_db \<Rightarrow> claimed_triage option \<times> mail_db" where
  "reclaim_triage s now token w db =
     (if triage_terminal (tw_state w) then (None, db)
      else if \<not> due now (tw_lease_expires_at w) then (None, db)
      else if \<not> due now (tw_next_attempt_at w) then (None, db)
      else (Some \<lparr>ct_id = tw_id w, ct_lease_token = token\<rparr>,
            put_triage (w\<lparr>tw_attempt_count := tw_attempt_count w + 1, tw_lease_token := Some token,
              tw_lease_expires_at := Some (now + seconds (GMAIL_NOTIFICATION_LEASE_SECONDS s)),
              tw_next_attempt_at := None\<rparr>) db))"

text \<open>
  \<open>interfere\<close> is what other sessions commit between the first read and the insertion. The
  left result is the integrity error that is raised again when no conflicting message row exists.
\<close>

definition claim_triage_work ::
  "settings \<Rightarrow> (mail_db \<Rightarrow> mail_db) \<Rightarrow> clock \<Rightarrow> uuid \<Rightarrow> str \<Rightarrow> str \<Rightarrow> str \<Rightarrow> int \<Rightarrow> mail_db \<Rightarrow>
   (notify_error + claimed_triage option) \<times> mail_db" where
  "claim_triage_work s interfere ck new_id token email message_id source_history_id db =
     (case find_triage db email message_id of
        Some w \<Rightarrow> apfst Inr (reclaim_triage s (ck 0) token w db)
      | None \<Rightarrow>
          let db1 = interfere db in
          (case find_triage db1 email message_id of
             Some w \<Rightarrow> apfst Inr (reclaim_triage s (ck 0) token w db1)
           | None \<Rightarrow>
               if tbl_get tw_id new_id (triage db1) \<noteq> None then (Inl NotifyIntegrityError, db1)
               else (Inr (Some \<lparr>ct_id = new_id, ct_lease_token = token\<rparr>),
                     db1\<lparr>triage := triage db1 @ [new_triage s ck new_id token email message_id source_history_id]\<rparr>)))"

definition finalize_triage_work ::
  "time \<Rightarrow> claimed_triage \<Rightarrow> triage_state \<Rightarrow> str option \<Rightarrow> str option \<Rightarrow> mail_db \<Rightarrow> (notify_error + unit) \<times> mail_db" where
  "finalize_triage_work now c st summary error_code db =
     (if \<not> triage_terminal st then (Inl UncaughtValueError, db)
      else case leased_triage db c of
        None \<Rightarrow> (Inr (), db)
      | Some w \<Rightarrow>
          (Inr (), put_triage (w\<lparr>tw_state := st,
             tw_triage_summary := (case summary of None \<Rightarrow> None | Some t \<Rightarrow> if t = [] then None else Some (take 4000 t)),
             tw_last_error_code := error_code, tw_next_attempt_at := None, tw_processed_at := Some now\<rparr>) db))"

definition release_triage_work :: "settings \<Rightarrow> time \<Rightarrow> claimed_triage \<Rightarrow> str \<Rightarrow> mail_db \<Rightarrow> mail_db" where
  "release_triage_work s now c error_code db =
     (case leased_triage db c of
        None \<Rightarrow> db
      | Some w \<Rightarrow> put_triage (w\<lparr>tw_lease_token := None, tw_lease_expires_at := None,
          tw_next_attempt_at := Some (retry_at s now (max 1 (tw_attempt_count w))),
          tw_last_error_code := Some error_code\<rparr>) db)"

definition triage_work_is_terminal :: "str \<Rightarrow> str \<Rightarrow> mail_db \<Rightarrow> bool" where
  "triage_work_is_terminal email message_id db =
     (case find_triage db email message_id of None \<Rightarrow> False | Some w \<Rightarrow> triage_terminal (tw_state w))"

section \<open>Ending a job\<close>

definition missing_mailbox_job :: "time \<Rightarrow> notification_job \<Rightarrow> notification_job" where
  "missing_mailbox_job now j = j\<lparr>nj_state := JobDeadLetter, nj_last_error_code := Some ''mailbox_state_missing'',
     nj_next_attempt_at := None, nj_processed_at := Some now\<rparr>"

definition recovery_changed_job :: "settings \<Rightarrow> time \<Rightarrow> notification_job \<Rightarrow> notification_job" where
  "recovery_changed_job s now j =
     (back_to_pending ''mailbox_recovery_changed'' (Some (retry_at s now (max 1 (nj_attempt_count j)))) j)
       \<lparr>nj_processed_at := None\<rparr>"

definition recovery_changed :: "claimed_job \<Rightarrow> mailbox_state \<Rightarrow> bool" where
  "recovery_changed c m = (ms_resync_state m \<noteq> ResyncIdle \<or> ms_resync_generation m \<noteq> cj_resync_generation c)"

definition complete_job_and_advance_cursor ::
  "settings \<Rightarrow> time \<Rightarrow> claimed_job \<Rightarrow> int \<Rightarrow> mail_db \<Rightarrow> bool \<times> mail_db" where
  "complete_job_and_advance_cursor s now c history_cursor db =
     (case leased_job db c of
        None \<Rightarrow> (False, db)
      | Some j \<Rightarrow>
          (case find_mailbox db (cj_mailbox_email c) of
             None \<Rightarrow> (False, put_job (missing_mailbox_job now j) db)
           | Some m \<Rightarrow>
               if recovery_changed c m then (False, put_job (recovery_changed_job s now j) db)
               else
                 (True,
                  put_job (j\<lparr>nj_state := JobSucceeded, nj_last_error_code := None, nj_processed_at := Some now,
                             nj_next_attempt_at := None\<rparr>)
                    (put_mailbox (m\<lparr>ms_history_cursor := Some (max (case ms_history_cursor m of None \<Rightarrow> 0 | Some h \<Rightarrow> h) history_cursor),
                       ms_last_error_code := None\<rparr>) db))))"

definition start_resync_locked :: "str \<Rightarrow> time \<Rightarrow> mailbox_state \<Rightarrow> mailbox_state" where
  "start_resync_locked error_code now m =
     (let m1 = (if ms_resync_state m = ResyncIdle
                then m\<lparr>ms_resync_generation := ms_resync_generation m + 1, ms_resync_page_token := None,
                       ms_resync_message_count := 0, ms_resync_attempt_count := 0\<rparr> else m)
      in if ms_resync_state m1 \<noteq> ResyncManualRequired
         then m1\<lparr>ms_resync_state := ResyncRequired, ms_resync_required := True, ms_resync_lease_token := None,
                 ms_resync_lease_expires_at := None, ms_resync_next_attempt_at := Some now,
                 ms_last_error_code := Some error_code\<rparr>
         else m1)"

definition fail_job ::
  "settings \<Rightarrow> clock \<Rightarrow> claimed_job \<Rightarrow> str \<Rightarrow> bool \<Rightarrow> bool \<Rightarrow> mail_db \<Rightarrow> mail_db" where
  "fail_job s ck c error_code dead_letter require_resync db =
     (let now = ck 0 in
      case leased_job db c of
        None \<Rightarrow> db
      | Some j \<Rightarrow>
          (case find_mailbox db (cj_mailbox_email c) of
             None \<Rightarrow> put_job (missing_mailbox_job now j) db
           | Some m \<Rightarrow>
               if recovery_changed c m then put_job (recovery_changed_job s (ck 1) j) db
               else if require_resync \<or> dead_letter \<or> int (nj_attempt_count j) \<ge> GMAIL_NOTIFICATION_MAX_ATTEMPTS s then
                 let m' = start_resync_locked error_code now m in
                 put_job
                   (if ms_resync_state m' = ResyncManualRequired
                    then j\<lparr>nj_state := JobDeadLetter, nj_next_attempt_at := None, nj_processed_at := Some now,
                           nj_last_error_code := Some error_code\<rparr>
                    else (back_to_pending error_code (Some now) j)\<lparr>nj_processed_at := None\<rparr>)
                   (put_mailbox m' db)
               else put_job (back_to_pending error_code (Some (retry_at s (ck 1) (max 1 (nj_attempt_count j)))) j) db))"

definition requeue_job :: "settings \<Rightarrow> time \<Rightarrow> claimed_job \<Rightarrow> str \<Rightarrow> time option \<Rightarrow> mail_db \<Rightarrow> mail_db" where
  "requeue_job s now c error_code next_at db =
     (case leased_job db c of
        None \<Rightarrow> db
      | Some j \<Rightarrow> put_job (back_to_pending error_code
          (Some (case next_at of Some t \<Rightarrow> t | None \<Rightarrow> retry_at s now (max 1 (nj_attempt_count j)))) j) db)"

definition dead_letter_job :: "time \<Rightarrow> claimed_job \<Rightarrow> str \<Rightarrow> mail_db \<Rightarrow> mail_db" where
  "dead_letter_job now c error_code db =
     (case leased_job db c of
        None \<Rightarrow> db
      | Some j \<Rightarrow> put_job (j\<lparr>nj_state := JobDeadLetter, nj_lease_token := None, nj_lease_expires_at := None,
          nj_next_attempt_at := None, nj_last_error_code := Some error_code, nj_processed_at := Some now\<rparr>) db)"

section \<open>Mailbox recovery\<close>

definition claim_mailbox_resync ::
  "settings \<Rightarrow> clock \<Rightarrow> str \<Rightarrow> claimed_job \<Rightarrow> uuid \<Rightarrow> mail_db \<Rightarrow> claimed_resync option \<times> mail_db" where
  "claim_mailbox_resync s ck token c owner_id db =
     (let now = ck 0 in
      case find_mailbox db (cj_mailbox_email c) of
        None \<Rightarrow> (None, db)
      | Some m \<Rightarrow>
          if ms_user_id m \<noteq> owner_id then (None, db)
          else if ms_resync_state m \<in> {ResyncIdle, ResyncManualRequired} then (None, db)
          else if ms_resync_state m = ResyncProcessing then
            (None, if lapsed now (ms_resync_lease_expires_at m)
                   then put_mailbox (expire_resync_lease s (ck 1) m) db else db)
          else if \<not> due now (ms_resync_next_attempt_at m) then (None, db)
          else
            (Some \<lparr>cr_mailbox_email = ms_mailbox_email m, cr_user_id = ms_user_id m, cr_lease_token = token,
               cr_generation = ms_resync_generation m, cr_page_token = ms_resync_page_token m,
               cr_message_count = ms_resync_message_count m\<rparr>,
             put_mailbox (m\<lparr>ms_resync_state := ResyncProcessing, ms_resync_required := True,
               ms_resync_lease_token := Some token,
               ms_resync_lease_expires_at := Some (now + seconds (GMAIL_NOTIFICATION_LEASE_SECONDS s)),
               ms_resync_next_attempt_at := None\<rparr>) db))"

definition on_locked_resync ::
  "(mailbox_state \<Rightarrow> mailbox_state) \<Rightarrow> claimed_resync \<Rightarrow> mail_db \<Rightarrow> bool \<times> mail_db" where
  "on_locked_resync f c db =
     (case locked_resync_state db c of None \<Rightarrow> (False, db) | Some m \<Rightarrow> (True, put_mailbox (f m) db))"

definition checkpoint_bounded_resync ::
  "time \<Rightarrow> str \<Rightarrow> nat \<Rightarrow> claimed_resync \<Rightarrow> mail_db \<Rightarrow> bool \<times> mail_db" where
  "checkpoint_bounded_resync now next_page_token processed_count =
     on_locked_resync (\<lambda>m. m\<lparr>ms_resync_state := ResyncRequired, ms_resync_required := True,
       ms_resync_lease_token := None, ms_resync_lease_expires_at := None,
       ms_resync_page_token := Some next_page_token,
       ms_resync_message_count := ms_resync_message_count m + processed_count,
       ms_resync_next_attempt_at := Some now, ms_last_error_code := None\<rparr>)"

definition complete_bounded_resync :: "int \<Rightarrow> claimed_resync \<Rightarrow> mail_db \<Rightarrow> bool \<times> mail_db" where
  "complete_bounded_resync history_cursor =
     on_locked_resync (\<lambda>m. m\<lparr>ms_history_cursor := Some history_cursor, ms_resync_state := ResyncIdle,
       ms_resync_required := False, ms_resync_lease_token := None, ms_resync_lease_expires_at := None,
       ms_resync_page_token := None, ms_resync_message_count := 0, ms_resync_attempt_count := 0,
       ms_resync_next_attempt_at := None, ms_last_error_code := None\<rparr>)"

definition release_mailbox_resync :: "settings \<Rightarrow> time \<Rightarrow> str \<Rightarrow> claimed_resync \<Rightarrow> mail_db \<Rightarrow> bool \<times> mail_db" where
  "release_mailbox_resync s now error_code =
     on_locked_resync (\<lambda>m. m\<lparr>ms_resync_state := ResyncRequired, ms_resync_required := True,
       ms_resync_lease_token := None, ms_resync_lease_expires_at := None,
       ms_resync_attempt_count := ms_resync_attempt_count m + 1,
       ms_resync_next_attempt_at := Some (retry_at s now (ms_resync_attempt_count m + 1)),
       ms_last_error_code := Some error_code\<rparr>)"

definition require_manual_resync :: "str \<Rightarrow> claimed_resync \<Rightarrow> mail_db \<Rightarrow> bool \<times> mail_db" where
  "require_manual_resync error_code =
     on_locked_resync (\<lambda>m. m\<lparr>ms_resync_state := ResyncManualRequired, ms_resync_required := True,
       ms_resync_lease_token := None, ms_resync_lease_expires_at := None, ms_resync_next_attempt_at := None,
       ms_last_error_code := Some error_code\<rparr>)"

section \<open>Watch renewal\<close>

definition new_mailbox :: "str \<Rightarrow> uuid \<Rightarrow> mailbox_state" where
  "new_mailbox email owner_id = \<lparr>ms_mailbox_email = email, ms_user_id = owner_id, ms_history_cursor = None,
     ms_watch_history_id = None, ms_watch_expires_at = None, ms_watch_lease_token = None,
     ms_watch_lease_expires_at = None, ms_watch_renewal_attempt_count = 0,
     ms_watch_renewal_next_attempt_at = None, ms_resync_required = False, ms_resync_state = ResyncIdle,
     ms_resync_generation = 0, ms_resync_lease_token = None, ms_resync_lease_expires_at = None,
     ms_resync_attempt_count = 0, ms_resync_next_attempt_at = None, ms_resync_page_token = None,
     ms_resync_message_count = 0, ms_worker_heartbeat_at = None, ms_watch_last_error_code = None,
     ms_last_error_code = None\<rparr>"

definition watch_leased :: "settings \<Rightarrow> time \<Rightarrow> str \<Rightarrow> mailbox_state \<Rightarrow> mailbox_state" where
  "watch_leased s now token m = m\<lparr>ms_watch_lease_token := Some token,
     ms_watch_lease_expires_at := Some (now + seconds (GMAIL_NOTIFICATION_LEASE_SECONDS s))\<rparr>"

text \<open>
  A new mailbox row violates the unique owner column when the owner already has a row under
  another address; that commit raises.
\<close>

definition claim_watch_renewal ::
  "settings \<Rightarrow> time \<Rightarrow> str \<Rightarrow> str \<Rightarrow> uuid \<Rightarrow> mail_db \<Rightarrow> (notify_error + str option) \<times> mail_db" where
  "claim_watch_renewal s now token email owner_id db =
     (case find_mailbox db email of
        None \<Rightarrow>
          if owner_mailbox_state db owner_id \<noteq> None then (Inl NotifyIntegrityError, db)
          else (Inr (Some token), db\<lparr>mailboxes := mailboxes db @ [watch_leased s now token (new_mailbox email owner_id)]\<rparr>)
      | Some m \<Rightarrow>
          if ms_user_id m \<noteq> owner_id then (Inr None, db)
          else if \<not> due now (ms_watch_renewal_next_attempt_at m) then (Inr None, db)
          else if \<not> due (now + seconds (GMAIL_WATCH_RENEWAL_SECONDS s)) (ms_watch_expires_at m) then (Inr None, db)
          else if \<not> due now (ms_watch_lease_expires_at m) then (Inr None, db)
          else (Inr (Some token), put_mailbox (watch_leased s now token m) db))"

definition complete_watch_renewal ::
  "str \<Rightarrow> str \<Rightarrow> int \<Rightarrow> time \<Rightarrow> mail_db \<Rightarrow> bool \<times> mail_db" where
  "complete_watch_renewal email token history_id expires_at db =
     (case leased_watch db email token of
        None \<Rightarrow> (False, db)
      | Some m \<Rightarrow>
          (True, put_mailbox (m\<lparr>ms_watch_history_id := Some history_id,
             ms_history_cursor := Some (case ms_history_cursor m of None \<Rightarrow> history_id | Some h \<Rightarrow> if h = 0 then history_id else h),
             ms_watch_expires_at := Some expires_at, ms_watch_lease_token := None,
             ms_watch_lease_expires_at := None, ms_watch_renewal_attempt_count := 0,
             ms_watch_renewal_next_attempt_at := None, ms_watch_last_error_code := None,
             ms_last_error_code := None\<rparr>) db))"

definition fail_watch_renewal :: "settings \<Rightarrow> time \<Rightarrow> str \<Rightarrow> str \<Rightarrow> str \<Rightarrow> mail_db \<Rightarrow> mail_db" where
  "fail_watch_renewal s now email token error_code db =
     (case leased_watch db email token of
        None \<Rightarrow> db
      | Some m \<Rightarrow>
          put_mailbox (m\<lparr>ms_watch_last_error_code := Some error_code, ms_last_error_code := Some error_code,
             ms_watch_lease_token := None, ms_watch_lease_expires_at := None,
             ms_watch_renewal_attempt_count := ms_watch_renewal_attempt_count m + 1,
             ms_watch_renewal_next_attempt_at := Some (retry_at s now (ms_watch_renewal_attempt_count m + 1))\<rparr>) db)"

section \<open>Status\<close>

record automation_report =
  ar_state :: mailbox_state
  ar_watch_valid :: bool
  ar_queue_depth :: nat
  ar_failure_count :: nat

definition automation_status :: "time \<Rightarrow> uuid \<Rightarrow> mail_db \<Rightarrow> automation_report option" where
  "automation_status now owner_id db =
     (case owner_mailbox_state db owner_id of
        None \<Rightarrow> None
      | Some m \<Rightarrow>
          let mine = filter (\<lambda>j. nj_mailbox_email j = ms_mailbox_email m) (jobs db) in
          Some \<lparr>ar_state = m,
            ar_watch_valid = (ms_watch_history_id m \<noteq> None \<and>
              (case ms_watch_expires_at m of None \<Rightarrow> False | Some t \<Rightarrow> t > now)),
            ar_queue_depth = length (filter (\<lambda>j. nj_state j \<in> {JobPending, JobProcessing}) mine),
            ar_failure_count = length (filter (\<lambda>j. nj_state j = JobDeadLetter) mine)\<rparr>)"

end
