(* ===== verification/Notification_Leases.thy ===== *)
theory Notification_Leases
  imports Notification_Safety
begin

text \<open>
  The transition system of the notification tables, whose steps are the transactions of
  \<open>server/services/notification_jobs.py\<close>, and the four leases (job, triage, recovery and
  watch renewal) as instances of the fenced lease contract.
\<close>

section \<open>Steps\<close>

text \<open>
  Every claim is arbitrary here, stale or forged ones included. The history ids that the worker
  passes to \<open>complete_watch_renewal\<close> and \<open>complete_bounded_resync\<close> have gone
  through \<open>_history_id\<close> and are positive.
\<close>

inductive mail_step :: "notify_lib \<Rightarrow> settings \<Rightarrow> mail_db \<Rightarrow> mail_db \<Rightarrow> bool"
  for lib :: notify_lib and s :: settings where
  enqueue: "mail_step lib s db (snd (enqueue_notification lib i t connection e owner db))"
| claim_job: "mail_step lib s db (snd (claim_notification_job s ck tok lk owner db))"
| heartbeat: "mail_step lib s db (record_worker_heartbeat now owner db)"
| claim_triage: "mail_step lib s db (snd (claim_triage_work s id ck i tok email mid h db))"
| finalize_triage: "mail_step lib s db (snd (finalize_triage_work now tc st summary code db))"
| release_triage: "mail_step lib s db (release_triage_work s now tc err db)"
| complete_job: "mail_step lib s db (snd (complete_job_and_advance_cursor s now c h db))"
| fail_job: "mail_step lib s db (fail_job s ck c err dl rr db)"
| requeue: "mail_step lib s db (requeue_job s now c err nx db)"
| dead_letter: "mail_step lib s db (dead_letter_job now c err db)"
| claim_resync: "mail_step lib s db (snd (claim_mailbox_resync s ck tok c owner db))"
| checkpoint: "mail_step lib s db (snd (checkpoint_bounded_resync now page n rc db))"
| complete_resync: "0 < h \<Longrightarrow> mail_step lib s db (snd (complete_bounded_resync h rc db))"
| release_resync: "mail_step lib s db (snd (release_mailbox_resync s now err rc db))"
| manual_resync: "mail_step lib s db (snd (require_manual_resync err rc db))"
| claim_watch: "mail_step lib s db (snd (claim_watch_renewal s now tok email owner db))"
| complete_watch: "0 < h \<Longrightarrow> mail_step lib s db (snd (complete_watch_renewal email tok h x db))"
| fail_watch: "mail_step lib s db (fail_watch_renewal s now email tok err db)"

inductive_cases mail_stepE: "mail_step lib s db db'"

definition empty_mail :: "mail_db \<Rightarrow> bool" where
  "empty_mail db \<longleftrightarrow> jobs db = [] \<and> mailboxes db = [] \<and> triage db = []"

text \<open>Inserting a triage row races with other sessions; the whole operation is still one step.\<close>

lemma claim_triage_linearises:
  "claim_triage_work s interfere ck i tok e mid h db =
     claim_triage_work s id ck i tok e mid h (if find_triage db e mid = None then interfere db else db)"
  by (auto simp: claim_triage_work_def Let_def split: option.split)

lemmas mail_ops_inv = enqueue_inv claim_job_inv heartbeat_inv finalize_triage_inv release_triage_inv
  complete_job_inv fail_job_inv requeue_job_inv dead_letter_job_inv claim_resync_inv resync_ops_inv
  claim_watch_inv watch_ops_inv

lemma mail_step_inv: "mail_inv db \<Longrightarrow> mail_step lib s db db' \<Longrightarrow> mail_inv db'"
  by (erule mail_stepE) (simp_all add: mail_ops_inv claim_triage_inv)

interpretation mail_safe: invariant_of empty_mail "mail_step lib s" mail_inv for lib s
proof
  show "empty_mail db \<Longrightarrow> mail_inv db" for db
    by (simp add: empty_mail_def mail_inv_def jobs_inv_def mailboxes_inv_def triage_inv_def keys_distinct_def)
  show "mail_inv db \<Longrightarrow> mail_step lib s db db' \<Longrightarrow> mail_inv db'" for db db' by (rule mail_step_inv)
qed

section \<open>The four leases\<close>

datatype job_end =
    EndComplete settings time int
  | EndFail settings clock str bool bool
  | EndRequeue settings time str "time option"
  | EndDeadLetter time str

fun end_job :: "job_end \<Rightarrow> claimed_job \<Rightarrow> mail_db \<Rightarrow> mail_db" where
  "end_job (EndComplete s now h) c db = snd (complete_job_and_advance_cursor s now c h db)"
| "end_job (EndFail s ck err dl rr) c db = Notification_Jobs.fail_job s ck c err dl rr db"
| "end_job (EndRequeue s now err nx) c db = requeue_job s now c err nx db"
| "end_job (EndDeadLetter now err) c db = dead_letter_job now c err db"

datatype triage_end =
    EndSucceeded time str
  | EndNoop time "str option"
  | EndTriageDead time str
  | EndRelease settings time str

fun end_triage :: "triage_end \<Rightarrow> claimed_triage \<Rightarrow> mail_db \<Rightarrow> mail_db" where
  "end_triage (EndSucceeded now summary) c db = snd (finalize_triage_work now c TriageSucceeded (Some summary) None db)"
| "end_triage (EndNoop now err) c db = snd (finalize_triage_work now c TriageNoop None err db)"
| "end_triage (EndTriageDead now err) c db = snd (finalize_triage_work now c TriageDeadLetter None (Some err) db)"
| "end_triage (EndRelease s now err) c db = release_triage_work s now c err db"

datatype resync_end =
    EndCheckpoint time str nat
  | EndResync int
  | EndResyncRelease settings time str
  | EndManual str

fun end_resync :: "resync_end \<Rightarrow> claimed_resync \<Rightarrow> mail_db \<Rightarrow> mail_db" where
  "end_resync (EndCheckpoint now page n) c db = snd (checkpoint_bounded_resync now page n c db)"
| "end_resync (EndResync h) c db = snd (complete_bounded_resync h c db)"
| "end_resync (EndResyncRelease s now err) c db = snd (release_mailbox_resync s now err c db)"
| "end_resync (EndManual err) c db = snd (require_manual_resync err c db)"

datatype watch_end =
    EndWatch int time
  | EndWatchFail settings time str

fun end_watch :: "watch_end \<Rightarrow> str \<times> str \<Rightarrow> mail_db \<Rightarrow> mail_db" where
  "end_watch (EndWatch h x) c db = snd (complete_watch_renewal (fst c) (snd c) h x db)"
| "end_watch (EndWatchFail s now err) c db = fail_watch_renewal s now (fst c) (snd c) err db"

lemma put_ends_job:
  assumes "leased_job db c = Some j" and "jobs d = jobs db" and "nj_id k = nj_id j" and "nj_state k \<noteq> JobProcessing"
  shows "leased_job (put_job k d) c = None"
proof -
  have "tbl_get nj_id (cj_id c) (jobs db) = Some j" "nj_id k = cj_id c"
    using leased_jobD [OF assms(1)] assms(3) by auto
  then show ?thesis using assms(2,4) by (simp add: leased_job_def put_job_def tbl_get_put)
qed

lemma put_ends_triage:
  assumes "leased_triage db c = Some w" and "tw_id v = tw_id w"
    and "tw_state v \<noteq> TriageProcessing \<or> tw_lease_token v = None"
  shows "leased_triage (put_triage v db) c = None"
proof -
  have "tbl_get tw_id (ct_id c) (triage db) = Some w" "tw_id v = ct_id c"
    using leased_triageD [OF assms(1)] assms(2) by auto
  then show ?thesis using assms(3) by (auto simp: leased_triage_def put_triage_def tbl_get_put)
qed

lemma find_put_mailbox:
  "find_mailbox (put_mailbox m db) e =
     (if e = ms_mailbox_email m \<and> find_mailbox db e \<noteq> None then Some m else find_mailbox db e)"
  by (auto simp: find_mailbox_def put_mailbox_def tbl_get_put)

lemma end_job_stale: "leased_job db c = None \<Longrightarrow> end_job x c db = db"
  by (cases x) (simp_all add: complete_job_and_advance_cursor_def fail_job_def requeue_job_def dead_letter_job_def)

lemma job_back_states [simp]:
  "nj_state (back_to_pending code nx j) = JobPending" "nj_state (missing_mailbox_job t j) = JobDeadLetter"
  "nj_state (recovery_changed_job s t j) = JobPending" "nj_id (missing_mailbox_job t j) = nj_id j"
  "nj_id (recovery_changed_job s t j) = nj_id j"
  by (simp_all add: back_to_pending_def missing_mailbox_job_def recovery_changed_job_def)

lemma end_job_ends:
  assumes l: "leased_job db c = Some j"
  shows "leased_job (end_job x c db) c = None"
proof -
  note put = put_ends_job [OF l]
  show ?thesis
  proof (cases x)
    case (EndComplete s now h)
    show ?thesis
      by (cases "find_mailbox db (cj_mailbox_email c)")
        (simp_all add: EndComplete complete_job_and_advance_cursor_def l put)
  next
    case (EndFail s ck err dl rr)
    show ?thesis
      by (cases "find_mailbox db (cj_mailbox_email c)") (simp_all add: EndFail fail_job_def Let_def l put)
  qed (simp_all add: requeue_job_def dead_letter_job_def l put)
qed

interpretation job_lease: fenced_lease "\<lambda>c db. leased_job db c \<noteq> None" end_job "\<lambda>_. True"
  by unfold_locales (auto simp: end_job_stale end_job_ends)

lemma end_triage_stale: "leased_triage db c = None \<Longrightarrow> end_triage x c db = db"
  by (cases x) (simp_all add: finalize_triage_work_def release_triage_work_def)

lemma end_triage_ends: "leased_triage db c = Some w \<Longrightarrow> leased_triage (end_triage x c db) c = None"
  by (cases x)
    (simp_all add: finalize_triage_work_def release_triage_work_def triage_terminal_def put_ends_triage)

interpretation triage_lease: fenced_lease "\<lambda>c db. leased_triage db c \<noteq> None" end_triage "\<lambda>_. True"
  by unfold_locales (auto simp: end_triage_stale end_triage_ends)

lemma on_locked_ends:
  assumes "locked_resync_state db c = Some m" and "ms_mailbox_email (f m) = ms_mailbox_email m"
    and "ms_resync_lease_token (f m) = None"
  shows "locked_resync_state (snd (on_locked_resync f c db)) c = None"
proof -
  have "find_mailbox db (cr_mailbox_email c) = Some m" using locked_resyncD [OF assms(1)] by simp
  then have "find_mailbox (put_mailbox (f m) db) (cr_mailbox_email c) = Some (f m)"
    using assms(2) find_mailboxD by (fastforce simp: find_put_mailbox)
  then show ?thesis using assms by (simp add: on_locked_resync_def locked_resync_state_def)
qed

lemmas resync_defs = checkpoint_bounded_resync_def complete_bounded_resync_def release_mailbox_resync_def
  require_manual_resync_def

lemma end_resync_stale: "locked_resync_state db c = None \<Longrightarrow> end_resync x c db = db"
  by (cases x) (simp_all add: resync_defs on_locked_resync_def)

lemma end_resync_ends: "locked_resync_state db c = Some m \<Longrightarrow> locked_resync_state (end_resync x c db) c = None"
  by (cases x) (simp_all add: resync_defs on_locked_ends)

interpretation resync_lease: fenced_lease "\<lambda>c db. locked_resync_state db c \<noteq> None" end_resync "\<lambda>_. True"
  by unfold_locales (auto simp: end_resync_stale end_resync_ends)

lemma end_watch_stale: "leased_watch db (fst c) (snd c) = None \<Longrightarrow> end_watch x c db = db"
  by (cases x) (simp_all add: complete_watch_renewal_def fail_watch_renewal_def)

lemma end_watch_ends:
  assumes "leased_watch db (fst c) (snd c) = Some m"
  shows "leased_watch (end_watch x c db) (fst c) (snd c) = None"
proof -
  have "find_mailbox db (fst c) = Some m" "ms_mailbox_email m = fst c"
    using leased_watchD [OF assms] find_mailboxD by blast+
  then show ?thesis
    using assms
    by (cases x) (simp_all add: complete_watch_renewal_def fail_watch_renewal_def leased_watch_def find_put_mailbox)
qed

interpretation watch_lease: fenced_lease "\<lambda>c db. leased_watch db (fst c) (snd c) \<noteq> None" end_watch "\<lambda>_. True"
  by unfold_locales (auto simp: end_watch_stale end_watch_ends [of _ "(a, b)" for a b, simplified])

section \<open>Fencing\<close>

text \<open>
  C7. The holder of a lease, job, triage, recovery or watch, ends it at most once: of any sequence
  of finishing operations issued under one claim only the first can change a table, and none can
  when the claim is stale because the lease has expired and was taken over.
\<close>

theorem mail_leases_fenced:
  "fold (\<lambda>x. end_job x jc) (j # js) db = (if leased_job db jc = None then db else end_job j jc db) \<and>
   fold (\<lambda>x. end_triage x tc) (t # ts) db = (if leased_triage db tc = None then db else end_triage t tc db) \<and>
   fold (\<lambda>x. end_resync x rc) (r # rs) db = (if locked_resync_state db rc = None then db else end_resync r rc db) \<and>
   fold (\<lambda>x. end_watch x (email, tok)) (w # ws) db =
     (if leased_watch db email tok = None then db else end_watch w (email, tok) db)"
  using job_lease.first_wins [of jc j js db] triage_lease.first_wins [of tc t ts db]
    resync_lease.first_wins [of rc r rs db] watch_lease.first_wins [of "(email, tok)" w ws db]
    end_job_stale [of db jc j] end_triage_stale [of db tc t] end_resync_stale [of db rc r]
    end_watch_stale [of db "(email, tok)" w]
  by simp

end
