(* ===== verification/Notification_Progress.thy ===== *)
theory Notification_Progress
  imports Notification_Leases
begin

text \<open>
  How rows evolve under any interleaving of the notification transactions: jobs and triage rows
  are never lost or reopened, the recovery generation never decreases, manual recovery is never
  left automatically, and the history cursor only moves back when a recovery completes.
\<close>

section \<open>Moves of one row\<close>

definition same_job :: "notification_job \<Rightarrow> notification_job \<Rightarrow> bool" where
  "same_job j k \<longleftrightarrow> nj_id k = nj_id j \<and> nj_pubsub_message_id k = nj_pubsub_message_id j \<and>
     nj_mailbox_email k = nj_mailbox_email j \<and> nj_history_id k = nj_history_id j \<and>
     nj_received_at k = nj_received_at j"

definition job_move :: "notification_job \<Rightarrow> notification_job \<Rightarrow> bool" where
  "job_move j k \<longleftrightarrow> same_job j k \<and> nj_attempt_count j \<le> nj_attempt_count k \<and> (job_terminal (nj_state j) \<longrightarrow> k = j)"

definition triage_move :: "triage_work \<Rightarrow> triage_work \<Rightarrow> bool" where
  "triage_move w v \<longleftrightarrow> tw_id v = tw_id w \<and> triage_key v = triage_key w \<and>
     tw_source_history_id v = tw_source_history_id w \<and> tw_created_at v = tw_created_at w \<and>
     tw_attempt_count w \<le> tw_attempt_count v \<and> (triage_terminal (tw_state w) \<longrightarrow> v = w)"

definition cursor_of :: "mailbox_state \<Rightarrow> int" where
  "cursor_of m = (case ms_history_cursor m of None \<Rightarrow> 0 | Some h \<Rightarrow> h)"

definition mailbox_move :: "mailbox_state \<Rightarrow> mailbox_state \<Rightarrow> bool" where
  "mailbox_move m n \<longleftrightarrow> ms_mailbox_email n = ms_mailbox_email m \<and> ms_user_id n = ms_user_id m \<and>
     ms_resync_generation m \<le> ms_resync_generation n \<and>
     (ms_resync_state m = ResyncManualRequired \<longrightarrow> ms_resync_state n = ResyncManualRequired) \<and>
     (ms_history_cursor m \<noteq> None \<longrightarrow> ms_history_cursor n \<noteq> None) \<and>
     (ms_resync_state m \<noteq> ResyncIdle \<and> ms_resync_state n = ResyncIdle \<longrightarrow>
        ms_resync_state m = ResyncProcessing \<and> ms_resync_generation m = ms_resync_generation n)"

lemmas move_defs = job_move_def same_job_def triage_move_def mailbox_move_def

lemma moves_refl [simp]: "job_move j j" "triage_move w w" "mailbox_move m m"
  by (simp_all add: move_defs)

lemma moves_trans:
  "job_move j k \<Longrightarrow> job_move k l \<Longrightarrow> job_move j l"
  "triage_move w v \<Longrightarrow> triage_move v u \<Longrightarrow> triage_move w u"
  by (auto simp: move_defs)

section \<open>Moves of a table\<close>

definition rows_move :: "('r \<Rightarrow> 'k) \<Rightarrow> ('r \<Rightarrow> 'r \<Rightarrow> bool) \<Rightarrow> 'r list \<Rightarrow> 'r list \<Rightarrow> bool" where
  "rows_move key move rows rows' \<longleftrightarrow>
     (\<forall>k r. tbl_get key k rows = Some r \<longrightarrow> (\<exists>r'. tbl_get key k rows' = Some r' \<and> move r r'))"

lemma rows_move_same: "(\<And>r. move r r) \<Longrightarrow> rows_move key move rows rows"
  by (simp add: rows_move_def)

lemma rows_move_append: "(\<And>r. move r r) \<Longrightarrow> rows_move key move rows (rows @ new)"
  by (simp add: rows_move_def tbl_get_append)

lemma rows_move_put:
  assumes "\<And>r. move r r" and "tbl_get key (key q) rows = Some q" and "key r = key q" and "move q r"
  shows "rows_move key move rows (tbl_put key r rows)"
  unfolding rows_move_def
proof (intro allI impI)
  fix k x
  assume x: "tbl_get key k rows = Some x"
  show "\<exists>r'. tbl_get key k (tbl_put key r rows) = Some r' \<and> move x r'"
  proof (cases "k = key r")
    case True
    then have "x = q" using x assms(2,3) by simp
    then show ?thesis using x True assms(4) by (simp add: tbl_get_put)
  qed (simp add: tbl_get_put x assms(1))
qed

lemma rows_move_trans:
  assumes "\<And>a b c. move a b \<Longrightarrow> move b c \<Longrightarrow> move a c"
    and "rows_move key move xs ys" and "rows_move key move ys zs"
  shows "rows_move key move xs zs"
  unfolding rows_move_def
proof (intro allI impI)
  fix k r
  assume "tbl_get key k xs = Some r"
  then obtain r' where r': "tbl_get key k ys = Some r'" "move r r'" using assms(2) by (auto simp: rows_move_def)
  then obtain r'' where "tbl_get key k zs = Some r''" "move r' r''" using assms(3) by (auto simp: rows_move_def)
  then show "\<exists>r''. tbl_get key k zs = Some r'' \<and> move r r''" using assms(1) r'(2) by blast
qed

lemma rows_moveD: "rows_move key move xs ys \<Longrightarrow> tbl_get key k xs = Some r \<Longrightarrow>
    \<exists>r'. tbl_get key k ys = Some r' \<and> move r r'"
  by (simp add: rows_move_def)

abbreviation jobs_move :: "mail_db \<Rightarrow> mail_db \<Rightarrow> bool" where
  "jobs_move db db' \<equiv> rows_move nj_id job_move (jobs db) (jobs db')"

abbreviation triages_move :: "mail_db \<Rightarrow> mail_db \<Rightarrow> bool" where
  "triages_move db db' \<equiv> rows_move tw_id triage_move (triage db) (triage db')"

abbreviation mailboxes_move :: "mail_db \<Rightarrow> mail_db \<Rightarrow> bool" where
  "mailboxes_move db db' \<equiv> rows_move ms_mailbox_email mailbox_move (mailboxes db) (mailboxes db')"

lemma table_same [simp]: "jobs_move db db" "triages_move db db" "mailboxes_move db db"
  by (simp_all add: rows_move_same)

lemma put_job_moves:
  assumes "tbl_get nj_id (nj_id j) (jobs db) = Some j" and "jobs d = jobs db" and "job_move j k"
  shows "jobs_move db (put_job k d)"
  unfolding put_job_def using assms rows_move_put [of job_move nj_id j "jobs db" k]
  by (simp add: job_move_def same_job_def)

lemma put_triage_moves:
  assumes "tbl_get tw_id (tw_id w) (triage db) = Some w" and "triage_move w v"
  shows "triages_move db (put_triage v db)"
  unfolding put_triage_def using assms rows_move_put [of triage_move tw_id w "triage db" v]
  by (simp add: triage_move_def)

lemma put_mailbox_moves:
  assumes "find_mailbox db e = Some m" and "mailbox_move m n"
  shows "mailboxes_move db (put_mailbox n db)"
  unfolding put_mailbox_def using assms rows_move_put [of mailbox_move ms_mailbox_email m "mailboxes db" n]
    find_mailboxD [OF assms(1)]
  by (simp add: mailbox_move_def find_mailbox_def)

section \<open>Moves made by the operations\<close>

lemma leased_not_terminal: "leased_job db c = Some j \<Longrightarrow> \<not> job_terminal (nj_state j)"
  using leased_jobD by (simp add: job_terminal_def)

lemma put_leased_moves:
  assumes "leased_job db c = Some j" and "jobs d = jobs db" and "same_job j k" and "nj_attempt_count k = nj_attempt_count j"
  shows "jobs_move db (put_job k d)"
proof (rule put_job_moves [OF _ assms(2)])
  show "tbl_get nj_id (nj_id j) (jobs db) = Some j" using leased_jobD [OF assms(1)] by blast
  show "job_move j k" using leased_not_terminal [OF assms(1)] assms(3,4) by (simp add: job_move_def)
qed

lemma same_job_writes [simp]:
  "same_job j (back_to_pending code nx j)" "same_job j (missing_mailbox_job t j)" "same_job j (recovery_changed_job s t j)"
  "same_job j (leased_row s t tok j)" "same_job j j"
  "nj_attempt_count (back_to_pending code nx j) = nj_attempt_count j"
  "nj_attempt_count (missing_mailbox_job t j) = nj_attempt_count j"
  "nj_attempt_count (recovery_changed_job s t j) = nj_attempt_count j"
  "nj_attempt_count (leased_row s t tok j) = nj_attempt_count j + 1"
  by (simp_all add: same_job_def back_to_pending_def missing_mailbox_job_def recovery_changed_job_def leased_row_def)

lemma same_job_updates [simp]:
  "same_job j (k\<lparr>nj_state := st\<rparr>) = same_job j k" "same_job j (k\<lparr>nj_last_error_code := e\<rparr>) = same_job j k"
  "same_job j (k\<lparr>nj_processed_at := t\<rparr>) = same_job j k" "same_job j (k\<lparr>nj_next_attempt_at := t\<rparr>) = same_job j k"
  "same_job j (k\<lparr>nj_lease_token := tok\<rparr>) = same_job j k" "same_job j (k\<lparr>nj_lease_expires_at := t\<rparr>) = same_job j k"
  by (simp_all add: same_job_def)

lemma end_job_moves: "jobs_move db (end_job x c db)"
proof (cases "leased_job db c")
  case (Some j)
  note put = put_leased_moves [OF Some]
  show ?thesis
  proof (cases x)
    case (EndComplete s now h)
    show ?thesis
      by (cases "find_mailbox db (cj_mailbox_email c)")
        (simp_all add: EndComplete complete_job_and_advance_cursor_def Some put)
  next
    case (EndFail s ck err dl rr)
    show ?thesis
      by (cases "find_mailbox db (cj_mailbox_email c)") (simp_all add: EndFail fail_job_def Let_def Some put)
  qed (simp_all add: requeue_job_def dead_letter_job_def Some put)
qed (simp add: end_job_stale)

lemma claim_job_moves:
  assumes "mail_inv db"
  shows "jobs_move db (snd (claim_notification_job s ck tok lk owner db))"
proof (cases "next_job lk (ck 0) owner db")
  case (Some j)
  have "\<not> job_terminal (nj_state j)" using next_jobD [OF Some] by (auto simp: claimable_def job_terminal_def)
  then have put: "jobs_move db (put_job k d)"
    if "jobs d = jobs db" "same_job j k" "nj_attempt_count j \<le> nj_attempt_count k" for k d
    using put_job_moves [OF next_job_row(1) [OF assms Some] that(1), of k] that(2,3) by (simp add: job_move_def)
  show ?thesis
    by (cases "find_mailbox db (nj_mailbox_email j)") (simp_all add: claim_notification_job_def Let_def Some put)
qed (simp add: claim_notification_job_def)

lemma frame_jobs [simp]:
  "jobs (record_worker_heartbeat now owner db) = jobs db"
  "jobs (snd (reclaim_triage s now tok w db)) = jobs db"
  "jobs (snd (claim_triage_work s id ck i tok email mid h db)) = jobs db"
  "jobs (snd (finalize_triage_work now tc st summary code db)) = jobs db"
  "jobs (release_triage_work s now tc err db) = jobs db"
  "jobs (snd (claim_mailbox_resync s ck tok c owner db)) = jobs db"
  "jobs (end_resync r rc db) = jobs db" "jobs (end_watch x wc db) = jobs db"
  "jobs (snd (claim_watch_renewal s now tok email owner db)) = jobs db"
proof -
  show r: "jobs (snd (reclaim_triage s now tok w db)) = jobs db" for s now tok w db
    by (simp add: reclaim_triage_def)
  show "jobs (record_worker_heartbeat now owner db) = jobs db"
    by (simp add: record_worker_heartbeat_def split: option.split)
  show "jobs (snd (claim_triage_work s id ck i tok email mid h db)) = jobs db"
    by (simp add: claim_triage_work_def r split: option.split)
  show "jobs (snd (finalize_triage_work now tc st summary code db)) = jobs db"
    by (simp add: finalize_triage_work_def split: option.split)
  show "jobs (release_triage_work s now tc err db) = jobs db"
    by (simp add: release_triage_work_def split: option.split)
  show "jobs (snd (claim_mailbox_resync s ck tok c owner db)) = jobs db"
    by (simp add: claim_mailbox_resync_def Let_def split: option.split)
  show "jobs (end_resync r rc db) = jobs db"
    by (cases r) (simp_all add: resync_defs on_locked_resync_def split: option.split)
  show "jobs (end_watch x wc db) = jobs db"
    by (cases x) (simp_all add: complete_watch_renewal_def fail_watch_renewal_def split: option.split)
  show "jobs (snd (claim_watch_renewal s now tok email owner db)) = jobs db"
    by (simp add: claim_watch_renewal_def split: option.split)
qed

text \<open>A shorter list of steps: the operations that end a lease are grouped by lease.\<close>

lemma mail_step_grouped:
  assumes "mail_step lib s db db'"
    and "\<And>i t connection e owner. P (snd (enqueue_notification lib i t connection e owner db))"
    and "\<And>ck tok lk owner. P (snd (claim_notification_job s ck tok lk owner db))"
    and "\<And>now owner. P (record_worker_heartbeat now owner db)"
    and "\<And>ck i tok email mid h. P (snd (claim_triage_work s id ck i tok email mid h db))"
    and "\<And>now tc st summary code. P (snd (finalize_triage_work now tc st summary code db))"
    and "\<And>now tc err. P (release_triage_work s now tc err db)"
    and "\<And>x c. P (end_job x c db)"
    and "\<And>ck tok c owner. P (snd (claim_mailbox_resync s ck tok c owner db))"
    and "\<And>x c. (case x of EndResync h \<Rightarrow> 0 < h | _ \<Rightarrow> True) \<Longrightarrow> P (end_resync x c db)"
    and "\<And>now tok email owner. P (snd (claim_watch_renewal s now tok email owner db))"
    and "\<And>x c. (case x of EndWatch h _ \<Rightarrow> 0 < h | _ \<Rightarrow> True) \<Longrightarrow> P (end_watch x c db)"
  shows "P db'"
  using assms(1)
proof cases
  case complete_job then show ?thesis using assms(8) by (metis end_job.simps(1))
next
  case fail_job then show ?thesis using assms(8) by (metis end_job.simps(2))
next
  case requeue then show ?thesis using assms(8) by (metis end_job.simps(3))
next
  case dead_letter then show ?thesis using assms(8) by (metis end_job.simps(4))
next
  case (checkpoint now page n rc) then show ?thesis using assms(10) [of "EndCheckpoint now page n" rc] by simp
next
  case (complete_resync h rc) then show ?thesis using assms(10) [of "EndResync h" rc] by simp
next
  case (release_resync now err rc) then show ?thesis using assms(10) [of "EndResyncRelease s now err" rc] by simp
next
  case (manual_resync err rc) then show ?thesis using assms(10) [of "EndManual err" rc] by simp
next
  case (complete_watch h email tok x) then show ?thesis using assms(12) [of "EndWatch h x" "(email, tok)"] by simp
next
  case (fail_watch now email tok err) then show ?thesis using assms(12) [of "EndWatchFail s now err" "(email, tok)"] by simp
qed (simp_all add: assms)

lemma enqueue_moves: "jobs_move db (snd (enqueue_notification lib i t cn e owner db))"
  by (auto simp: enqueue_notification_def rows_move_append split: sum.split option.split)

lemma step_jobs_move: "mail_inv db \<Longrightarrow> mail_step lib s db db' \<Longrightarrow> jobs_move db db'"
  by (erule mail_step_grouped) (simp_all add: enqueue_moves claim_job_moves end_job_moves)

lemma find_triageD:
  assumes "mail_inv db" and "find_triage db e mid = Some w"
  shows "tbl_get tw_id (tw_id w) (triage db) = Some w" and "triage_key w = (e, mid)"
proof -
  have "w \<in> set (triage db)" using assms(2) unfolding find_triage_def by auto
  then show "tbl_get tw_id (tw_id w) (triage db) = Some w"
    using assms(1) by (auto simp: mail_inv_def triage_inv_def intro: tbl_get_unique)
  show "triage_key w = (e, mid)" using assms(2) unfolding find_triage_def by auto
qed

lemma claim_triage_moves:
  assumes "mail_inv db"
  shows "triages_move db (snd (claim_triage_work s id ck i tok e mid h db))"
proof (cases "find_triage db e mid")
  case (Some w)
  have "triages_move db (snd (reclaim_triage s (ck 0) tok w db))"
    using put_triage_moves [OF find_triageD(1) [OF assms Some]]
    by (simp add: reclaim_triage_def triage_move_def triage_key_def)
  then show ?thesis by (simp add: claim_triage_work_def Some)
qed (simp add: claim_triage_work_def rows_move_append)

lemma end_triage_moves:
  "triages_move db (snd (finalize_triage_work now c st summary code db))"
  "triages_move db (release_triage_work s now c err db)"
proof -
  have put: "triages_move db (put_triage v db)"
    if "leased_triage db c = Some w" "tw_id v = tw_id w" "triage_key v = triage_key w"
      "tw_source_history_id v = tw_source_history_id w" "tw_created_at v = tw_created_at w"
      "tw_attempt_count v = tw_attempt_count w" for v w
  proof -
    have "tbl_get tw_id (tw_id w) (triage db) = Some w" "tw_state w = TriageProcessing"
      using leased_triageD [OF that(1)] by blast+
    then show ?thesis
      using that by (intro put_triage_moves [of w]) (simp_all add: triage_move_def triage_terminal_def)
  qed
  show "triages_move db (snd (finalize_triage_work now c st summary code db))"
    by (auto simp: finalize_triage_work_def triage_key_def intro: put split: option.split)
  show "triages_move db (release_triage_work s now c err db)"
    by (auto simp: release_triage_work_def triage_key_def intro: put split: option.split)
qed

lemma frame_triage [simp]:
  "triage (snd (enqueue_notification lib i t cn e owner db)) = triage db"
  "triage (snd (claim_notification_job s ck tok lk owner db)) = triage db"
  "triage (record_worker_heartbeat now owner db) = triage db"
  "triage (end_job y c db) = triage db"
  "triage (snd (claim_mailbox_resync s ck tok c owner db)) = triage db"
  "triage (end_resync r rc db) = triage db" "triage (end_watch x wc db) = triage db"
  "triage (snd (claim_watch_renewal s now tok email owner db)) = triage db"
proof -
  show "triage (snd (enqueue_notification lib i t cn e owner db)) = triage db"
    by (simp add: enqueue_notification_def split: sum.split option.split)
  show "triage (snd (claim_notification_job s ck tok lk owner db)) = triage db"
    by (simp add: claim_notification_job_def Let_def split: option.split)
  show "triage (record_worker_heartbeat now owner db) = triage db"
    by (simp add: record_worker_heartbeat_def split: option.split)
  show "triage (end_job y c db) = triage db"
    by (cases y) (simp_all add: complete_job_and_advance_cursor_def fail_job_def requeue_job_def dead_letter_job_def
        Let_def split: option.split)
  show "triage (snd (claim_mailbox_resync s ck tok c owner db)) = triage db"
    by (simp add: claim_mailbox_resync_def Let_def split: option.split)
  show "triage (end_resync r rc db) = triage db"
    by (cases r) (simp_all add: resync_defs on_locked_resync_def split: option.split)
  show "triage (end_watch x wc db) = triage db"
    by (cases x) (simp_all add: complete_watch_renewal_def fail_watch_renewal_def split: option.split)
  show "triage (snd (claim_watch_renewal s now tok email owner db)) = triage db"
    by (simp add: claim_watch_renewal_def split: option.split)
qed

lemma step_triages_move: "mail_inv db \<Longrightarrow> mail_step lib s db db' \<Longrightarrow> triages_move db db'"
  by (erule mail_step_grouped) (simp_all add: claim_triage_moves end_triage_moves)

section \<open>Moves of the mailbox row\<close>

text \<open>A quiet move neither lowers the cursor nor ends a recovery; only a completed recovery is not quiet.\<close>

definition quiet_move :: "mailbox_state \<Rightarrow> mailbox_state \<Rightarrow> bool" where
  "quiet_move m n \<longleftrightarrow> mailbox_move m n \<and> cursor_of m \<le> cursor_of n \<and>
     (ms_resync_state n = ResyncIdle \<longrightarrow> ms_resync_state m = ResyncIdle)"

abbreviation quietly :: "mail_db \<Rightarrow> mail_db \<Rightarrow> bool" where
  "quietly db db' \<equiv> rows_move ms_mailbox_email quiet_move (mailboxes db) (mailboxes db')"

lemma quiet_refl [simp]: "quiet_move m m" "quietly db db"
  by (simp_all add: quiet_move_def rows_move_same)

lemma put_quietly:
  assumes "find_mailbox db e = Some m" and "quiet_move m n"
  shows "quietly db (put_mailbox n db)"
proof -
  have "tbl_get ms_mailbox_email (ms_mailbox_email m) (mailboxes db) = Some m"
    using find_mailboxD [OF assms(1)] unfolding find_mailbox_def by blast
  moreover have "ms_mailbox_email n = ms_mailbox_email m"
    using assms(2) by (simp add: quiet_move_def mailbox_move_def)
  ultimately show ?thesis
    using assms(2) rows_move_put [of quiet_move ms_mailbox_email m "mailboxes db" n] by (simp add: put_mailbox_def)
qed

lemmas quiet_defs = quiet_move_def mailbox_move_def cursor_of_def

lemma quiet_writes [simp]:
  "ms_resync_state m = ResyncProcessing \<Longrightarrow> quiet_move m (expire_resync_lease s t m)"
  "ms_resync_state m = ResyncIdle \<Longrightarrow> quiet_move m (attempt_limit_mailbox t m)"
  "quiet_move m (start_resync_locked code t m)"
  "quiet_move m (watch_leased s t tok m)"
  by (auto simp: quiet_defs expire_resync_lease_def attempt_limit_mailbox_def start_resync_locked_def
      watch_leased_def Let_def)

lemma claim_job_quiet: "quietly db (snd (claim_notification_job s ck tok lk owner db))"
proof (cases "next_job lk (ck 0) owner db")
  case (Some j)
  show ?thesis
    by (cases "find_mailbox db (nj_mailbox_email j)")
      (simp_all add: claim_notification_job_def Let_def Some put_quietly)
qed (simp add: claim_notification_job_def)

lemma heartbeat_quiet:
  assumes "mail_inv db"
  shows "quietly db (record_worker_heartbeat now owner db)"
proof (cases "owner_mailbox_state db owner")
  case (Some m)
  have "m \<in> set (mailboxes db)" using Some by (auto simp: owner_mailbox_state_def)
  then have "find_mailbox db (ms_mailbox_email m) = Some m"
    using assms by (auto simp: find_mailbox_def mail_inv_def mailboxes_inv_def intro: tbl_get_unique)
  then show ?thesis
    by (simp add: record_worker_heartbeat_def Some put_quietly quiet_defs)
qed (simp add: record_worker_heartbeat_def)

lemma end_job_quiet: "quietly db (end_job x c db)"
proof (cases "leased_job db c")
  case (Some j)
  show ?thesis
  proof (cases x)
    case (EndComplete s now h)
    have "quiet_move m (m\<lparr>ms_history_cursor := Some (max (case ms_history_cursor m of None \<Rightarrow> 0 | Some h \<Rightarrow> h) h),
        ms_last_error_code := None\<rparr>)" for m
      by (auto simp: quiet_defs split: option.split)
    then show ?thesis
      by (cases "find_mailbox db (cj_mailbox_email c)")
        (simp_all add: EndComplete complete_job_and_advance_cursor_def Some put_quietly)
  next
    case (EndFail s ck err dl rr)
    show ?thesis
      by (cases "find_mailbox db (cj_mailbox_email c)") (simp_all add: EndFail fail_job_def Let_def Some put_quietly)
  qed (simp_all add: requeue_job_def dead_letter_job_def Some)
qed (simp add: end_job_stale)

lemma claim_resync_quiet: "quietly db (snd (claim_mailbox_resync s ck tok c owner db))"
proof (cases "find_mailbox db (cj_mailbox_email c)")
  case (Some m)
  have "quiet_move m (m\<lparr>ms_resync_state := ResyncProcessing, ms_resync_required := True,
      ms_resync_lease_token := tk, ms_resync_lease_expires_at := t, ms_resync_next_attempt_at := None\<rparr>)"
    if "ms_resync_state m \<noteq> ResyncManualRequired" for tk t
    using that by (simp add: quiet_defs)
  then show ?thesis
    using put_quietly [OF Some] by (auto simp: claim_mailbox_resync_def Let_def Some)
qed (simp add: claim_mailbox_resync_def)

lemma claim_watch_quiet: "quietly db (snd (claim_watch_renewal s now tok e owner db))"
  by (cases "find_mailbox db e") (simp_all add: claim_watch_renewal_def put_quietly rows_move_append)

lemma end_watch_quiet:
  assumes "case x of EndWatch h _ \<Rightarrow> 0 < h | _ \<Rightarrow> True"
  shows "quietly db (end_watch x c db)"
proof (cases "leased_watch db (fst c) (snd c)")
  case (Some m)
  have f: "find_mailbox db (fst c) = Some m" using leased_watchD [OF Some] by simp
  show ?thesis
    using assms
    by (cases x)
      (auto simp: complete_watch_renewal_def fail_watch_renewal_def Some quiet_defs split: option.split
        intro!: put_quietly [OF f])
qed (simp add: end_watch_stale)

lemma end_resync_quiet:
  assumes "\<And>h. x \<noteq> EndResync h"
  shows "quietly db (end_resync x c db)"
proof (cases "locked_resync_state db c")
  case (Some m)
  have f: "find_mailbox db (cr_mailbox_email c) = Some m" and p: "ms_resync_state m = ResyncProcessing"
    using locked_resyncD [OF Some] by simp_all
  show ?thesis
    using assms
    by (cases x) (auto simp: resync_defs on_locked_resync_def Some quiet_defs p intro!: put_quietly [OF f])
qed (simp add: end_resync_stale)

lemma frame_mailboxes [simp]:
  "mailboxes (snd (enqueue_notification lib i t cn e owner db)) = mailboxes db"
  "mailboxes (snd (claim_triage_work s id ck i tok email mid h db)) = mailboxes db"
  "mailboxes (snd (finalize_triage_work now tc st summary code db)) = mailboxes db"
  "mailboxes (release_triage_work s now tc err db) = mailboxes db"
  by (simp_all add: enqueue_notification_def claim_triage_work_def finalize_triage_work_def reclaim_triage_def
      release_triage_work_def split: sum.split option.split)

lemma step_quiet:
  assumes "mail_inv db" and "mail_step lib s db db'"
  shows "quietly db db' \<or> (\<exists>h rc m. 0 < h \<and> locked_resync_state db rc = Some m \<and> db' = snd (complete_bounded_resync h rc db))"
  using assms(2)
proof (rule mail_step_grouped)
  fix x c
  assume "case x of EndResync h \<Rightarrow> 0 < h | _ \<Rightarrow> True"
  then show "quietly db (end_resync x c db) \<or>
      (\<exists>h rc m. 0 < h \<and> locked_resync_state db rc = Some m \<and> end_resync x c db = snd (complete_bounded_resync h rc db))"
    by (cases "locked_resync_state db c"; cases x)
      (simp_all add: end_resync_stale end_resync_quiet del: end_resync.simps, metis end_resync.simps(2))
qed (simp_all add: claim_job_quiet heartbeat_quiet [OF assms(1)] end_job_quiet claim_resync_quiet claim_watch_quiet
    end_watch_quiet)

lemma complete_resync_moves:
  assumes "locked_resync_state db rc = Some m"
  shows "mailboxes_move db (snd (complete_bounded_resync h rc db))"
proof -
  have f: "find_mailbox db (cr_mailbox_email rc) = Some m" and p: "ms_resync_state m = ResyncProcessing"
    using locked_resyncD [OF assms] by simp_all
  show ?thesis
    by (simp add: complete_bounded_resync_def on_locked_resync_def assms put_mailbox_moves [OF f] mailbox_move_def p)
qed

lemma quietly_moves: "quietly db db' \<Longrightarrow> mailboxes_move db db'"
  by (fastforce simp: rows_move_def quiet_move_def)

lemma step_mailboxes_move: "mail_inv db \<Longrightarrow> mail_step lib s db db' \<Longrightarrow> mailboxes_move db db'"
  using step_quiet complete_resync_moves quietly_moves by blast

end
