(* ===== verification/Notification_Properties.thy ===== *)
theory Notification_Properties
  imports Notification_Progress
begin

text \<open>
  The properties of the durable notification queue, each with an instance on the life of one
  mailbox: its watch is created, a notification arrives and is claimed.
\<close>

section \<open>A concrete run\<close>

definition demo_body :: "str \<Rightarrow> json" where
  "demo_body encoded = JObj [(''subscription'', JStr ''sub''),
     (''message'', JObj [(''messageId'', JStr ''m1''), (''data'', JStr encoded)])]"

definition demo_notify_lib :: notify_lib where
  "demo_notify_lib = \<lparr>
     nl_json_loads = (\<lambda>b. if b = [1] then Some (demo_body ''ok'') else if b = [2] then Some (demo_body [CHR 0xE9])
       else if b = [3] then Some (JObj [(''emailAddress'', JStr ''o@x''), (''historyId'', JStr ''12'')]) else None),
     nl_b64decode = (\<lambda>t. if t = ''ok'' then Some [3] else None),
     nl_parseaddr = id\<rparr>"

definition demo_mail0 :: mail_db where
  "demo_mail0 = \<lparr>jobs = [], mailboxes = [], triage = []\<rparr>"

definition demo_mail1 :: mail_db where
  "demo_mail1 = snd (claim_watch_renewal default_settings 0 ''w'' ''o@x'' 7 demo_mail0)"

definition demo_mail2 :: mail_db where
  "demo_mail2 = snd (complete_watch_renewal ''o@x'' ''w'' 10 1000000 demo_mail1)"

definition demo_envelope :: notification_envelope where
  "demo_envelope = \<lparr>ne_pubsub_message_id = ''m1'', ne_mailbox_email = ''o@x'', ne_history_id = 12\<rparr>"

definition demo_mail3 :: mail_db where
  "demo_mail3 = snd (enqueue_notification demo_notify_lib 1 3 (Inr ''o@x'') demo_envelope 7 demo_mail2)"

definition demo_job_claim :: "claimed_job option \<times> mail_db" where
  "demo_job_claim = claim_notification_job default_settings (\<lambda>_. 5) ''t'' (\<lambda>_. False) 7 demo_mail3"

definition demo_mailbox :: mailbox_state where
  "demo_mailbox = (new_mailbox ''o@x'' 7)\<lparr>ms_history_cursor := Some 10, ms_watch_history_id := Some 10,
     ms_watch_expires_at := Some 1000000\<rparr>"

definition demo_job :: notification_job where
  "demo_job = new_job 1 3 demo_envelope"

definition demo_claimed_job :: claimed_job where
  "demo_claimed_job = \<lparr>cj_id = 1, cj_mailbox_email = ''o@x'', cj_history_id = 12, cj_lease_token = ''t'',
     cj_resync_generation = 0\<rparr>"

lemma demo_mail2_eq: "demo_mail2 = \<lparr>jobs = [], mailboxes = [demo_mailbox], triage = []\<rparr>"
  by (simp add: demo_mail2_def demo_mail1_def demo_mail0_def demo_mailbox_def claim_watch_renewal_def
      complete_watch_renewal_def leased_watch_def find_mailbox_def owner_mailbox_state_def watch_leased_def
      new_mailbox_def put_mailbox_def)

lemma demo_enqueue:
  "enqueue_notification demo_notify_lib 1 3 (Inr ''o@x'') demo_envelope 7 demo_mail2 =
     (Inr True, \<lparr>jobs = [demo_job], mailboxes = [demo_mailbox], triage = []\<rparr>)"
  by (simp add: enqueue_notification_def configured_automation_mailbox_def normalize_email_def demo_notify_lib_def
      demo_mail2_eq find_mailbox_def demo_mailbox_def new_mailbox_def demo_envelope_def demo_job_def text_simps)

lemma demo_mail3_eq: "demo_mail3 = \<lparr>jobs = [demo_job], mailboxes = [demo_mailbox], triage = []\<rparr>"
  unfolding demo_mail3_def demo_enqueue by simp

lemma demo_claim_eq:
  "claim_notification_job default_settings (\<lambda>_. 5) ''t'' (\<lambda>_. False) 7 demo_mail3 =
     (Some demo_claimed_job, \<lparr>jobs = [leased_row default_settings 5 ''t'' demo_job], mailboxes = [demo_mailbox], triage = []\<rparr>)"
  by (simp add: claim_notification_job_def next_job_def claimable_def demo_mail3_eq find_mailbox_def
      demo_mailbox_def new_mailbox_def demo_job_def new_job_def demo_envelope_def due_def default_settings_def
      demo_claimed_job_def put_job_def)

lemma demo_mail3_reach: "reach empty_mail (mail_step demo_notify_lib default_settings) demo_mail3"
proof -
  have "reach empty_mail (mail_step demo_notify_lib default_settings) demo_mail0"
    by (rule reach_init) (simp add: empty_mail_def demo_mail0_def)
  then have "reach empty_mail (mail_step demo_notify_lib default_settings) demo_mail1"
    unfolding demo_mail1_def by (rule reach_step) (rule claim_watch)
  then have "reach empty_mail (mail_step demo_notify_lib default_settings) demo_mail2"
    unfolding demo_mail2_def by (rule reach_step) (rule complete_watch, simp)
  then show ?thesis
    unfolding demo_mail3_def by (rule reach_step) (rule enqueue)
qed

lemma demo_mail3_inv: "mail_inv demo_mail3"
  by (rule mail_safe.reach_inv [OF demo_mail3_reach])

lemma demo_claim_steps: "(mail_step demo_notify_lib default_settings)\<^sup>*\<^sup>* demo_mail3 (snd demo_job_claim)"
  unfolding demo_job_claim_def by (rule r_into_rtranclp) (rule claim_job)

section \<open>The invariant\<close>

text \<open>
  C6. Every state that the notification service reaches satisfies the table constraints: unique
  ids, Pub/Sub ids, mailboxes, owners and triage keys; a processing job has a token, a lease end and
  at least one attempt, a pending one has no token; a terminal row has its processing time; a
  mailbox is under a recovery lease exactly when its recovery is processing, and is marked as
  needing recovery exactly when its recovery state is not idle.
\<close>

theorem mail_invariant:
  assumes "reach empty_mail (mail_step lib s) db"
  shows "mail_inv db"
  using assms by (rule mail_safe.reach_inv)

lemma mail_invariant_witness: "jobs demo_mail3 \<noteq> [] \<and> mail_inv demo_mail3"
  using mail_invariant [OF demo_mail3_reach] by (simp add: demo_mail3_eq)

section \<open>Rows persist\<close>

lemma steps_rows_move:
  assumes "(mail_step lib s)\<^sup>*\<^sup>* db db'" and "mail_inv db"
  shows "mail_inv db' \<and> jobs_move db db' \<and> triages_move db db'"
  using assms
proof (induction rule: rtranclp_induct)
  case (step d d')
  then have i: "mail_inv d" and m: "jobs_move db d" "triages_move db d" by simp_all
  have "jobs_move d d'" "triages_move d d'" "mail_inv d'"
    using step_jobs_move step_triages_move mail_step_inv i step.hyps(2) by blast+
  then show ?case
    using rows_move_trans [OF moves_trans(1) m(1)] rows_move_trans [OF moves_trans(2) m(2)] by simp
qed simp

text \<open>
  Whatever the interleaving of the service's transactions, an accepted notification and a
  triage row are never lost: the row stays, its identity (Pub/Sub id, mailbox, history id, message)
  is immutable, its attempt count never decreases, and once it is terminal (succeeded,
  dead-lettered, or a no-op) it never changes again, so a triage summary is never overwritten.
\<close>

lemma mail_rows_persist:
  assumes "mail_inv db" and "(mail_step lib s)\<^sup>*\<^sup>* db db'"
  shows "rows_move nj_id job_move (jobs db) (jobs db') \<and> rows_move tw_id triage_move (triage db) (triage db')"
  using steps_rows_move [OF assms(2,1)] by simp

lemma mail_rows_persist_witness:
  "\<exists>j. tbl_get nj_id 1 (jobs (snd demo_job_claim)) = Some j \<and> job_move demo_job j"
  using mail_rows_persist [OF demo_mail3_inv demo_claim_steps]
  by (auto dest!: rows_moveD [where k = 1 and r = demo_job]
      simp: demo_mail3_eq demo_job_def new_job_def demo_envelope_def)

section \<open>Recovery\<close>

lemma steps_mailbox:
  assumes "(mail_step lib s)\<^sup>*\<^sup>* db db'" and "mail_inv db" and "find_mailbox db e = Some m"
  shows "mail_inv db' \<and> (\<exists>n. find_mailbox db' e = Some n \<and> ms_user_id n = ms_user_id m \<and>
    ms_resync_generation m \<le> ms_resync_generation n \<and>
    (ms_resync_state m = ResyncManualRequired \<longrightarrow> ms_resync_state n = ResyncManualRequired) \<and>
    (ms_history_cursor m \<noteq> None \<longrightarrow> ms_history_cursor n \<noteq> None))"
  using assms(1)
proof (induction rule: rtranclp_induct)
  case (step d d')
  then obtain n where n: "mail_inv d" "find_mailbox d e = Some n" "ms_user_id n = ms_user_id m"
    "ms_resync_generation m \<le> ms_resync_generation n"
    "ms_resync_state m = ResyncManualRequired \<Longrightarrow> ms_resync_state n = ResyncManualRequired"
    "ms_history_cursor m \<noteq> None \<Longrightarrow> ms_history_cursor n \<noteq> None"
    by auto
  obtain n' where "find_mailbox d' e = Some n'" "mailbox_move n n'"
    using rows_moveD [OF step_mailboxes_move [OF n(1) step.hyps(2)]] n(2) unfolding find_mailbox_def by blast
  then show ?case
    using n mail_step_inv [OF n(1) step.hyps(2)] by (auto simp: mailbox_move_def)
qed (simp add: assms)

text \<open>
  A mailbox keeps its owner and its history baseline, its recovery generation never decreases,
  and once recovery needs an operator no sequence of transactions of the service leaves that state.
\<close>

lemma recovery_state_monotone:
  assumes "mail_inv db" and "find_mailbox db e = Some m" and "(mail_step lib s)\<^sup>*\<^sup>* db db'"
  shows "\<exists>n. find_mailbox db' e = Some n \<and> ms_user_id n = ms_user_id m \<and>
    ms_resync_generation m \<le> ms_resync_generation n \<and>
    (ms_resync_state m = ResyncManualRequired \<longrightarrow> ms_resync_state n = ResyncManualRequired) \<and>
    (ms_history_cursor m \<noteq> None \<longrightarrow> ms_history_cursor n \<noteq> None)"
  using steps_mailbox [OF assms(3,1,2)] by simp

lemma demo_mailbox_found: "find_mailbox demo_mail3 ''o@x'' = Some demo_mailbox"
  by (simp add: demo_mail3_eq find_mailbox_def demo_mailbox_def new_mailbox_def)

lemma recovery_state_monotone_witness:
  "\<exists>n. find_mailbox (snd demo_job_claim) ''o@x'' = Some n \<and> ms_history_cursor n \<noteq> None"
  using recovery_state_monotone [OF demo_mail3_inv demo_mailbox_found demo_claim_steps]
  by (auto simp: demo_mailbox_def)

text \<open>
  C13. The history cursor of a mailbox only moves forward. The one transaction that may lower it is
  the completion of a recovery, and only by the worker that holds the recovery lease.
\<close>

theorem cursor_monotone:
  assumes "mail_inv db" and "mail_step lib s db db'" and "find_mailbox db e = Some m" and "find_mailbox db' e = Some n"
  shows "cursor_of m \<le> cursor_of n \<or>
    (\<exists>h rc r. locked_resync_state db rc = Some r \<and> db' = snd (complete_bounded_resync h rc db))"
proof -
  have "cursor_of m \<le> cursor_of n" if q: "quietly db db'"
  proof -
    obtain k where "tbl_get ms_mailbox_email e (mailboxes db') = Some k" "quiet_move m k"
      using rows_moveD [OF q, of e m] assms(3) by (auto simp: find_mailbox_def)
    then show ?thesis using assms(4) by (simp add: quiet_move_def find_mailbox_def)
  qed
  then show ?thesis using step_quiet [OF assms(1,2)] by blast
qed

lemma cursor_monotone_witness:
  "find_mailbox (snd demo_job_claim) ''o@x'' = Some demo_mailbox \<and> (cursor_of demo_mailbox \<le> cursor_of demo_mailbox \<or>
    (\<exists>h rc r. locked_resync_state demo_mail3 rc = Some r \<and> snd demo_job_claim = snd (complete_bounded_resync h rc demo_mail3)))"
proof -
  have "mail_step demo_notify_lib default_settings demo_mail3 (snd demo_job_claim)"
    unfolding demo_job_claim_def by (rule claim_job)
  moreover have "find_mailbox (snd demo_job_claim) ''o@x'' = Some demo_mailbox"
    unfolding demo_job_claim_def demo_claim_eq by (simp add: find_mailbox_def demo_mailbox_def new_mailbox_def)
  ultimately show ?thesis using cursor_monotone [OF demo_mail3_inv _ demo_mailbox_found] by blast
qed

section \<open>Completing a job\<close>

lemma jobs_put_job: "jobs (put_job k d) = tbl_put nj_id k (jobs d)"
  by (simp add: put_job_def)

text \<open>
  \<open>complete_job_and_advance_cursor\<close> succeeds exactly when the caller still holds the job's
  lease, the mailbox exists, no recovery is under way and none has started since the job was
  claimed. Then the job is marked as succeeded and the cursor is the larger of the old one and
  the one given; otherwise the cursor of every mailbox is unchanged.
\<close>

lemma job_completion:
  "(case complete_job_and_advance_cursor s now c h db of
     (done, db') \<Rightarrow>
       done = (case (leased_job db c, find_mailbox db (cj_mailbox_email c)) of
                 (Some j, Some m) \<Rightarrow> ms_resync_state m = ResyncIdle \<and> ms_resync_generation m = cj_resync_generation c
               | _ \<Rightarrow> False) \<and>
       (if done
        then (\<exists>j n. tbl_get nj_id (cj_id c) (jobs db') = Some j \<and> nj_state j = JobSucceeded \<and>
               find_mailbox db' (cj_mailbox_email c) = Some n \<and>
               ms_history_cursor n = Some (max (cursor_of (the (find_mailbox db (cj_mailbox_email c)))) h))
        else mailboxes db' = mailboxes db \<and> (leased_job db c = None) = (db' = db)))"
proof (cases "leased_job db c")
  case (Some j)
  have g: "tbl_get nj_id (nj_id j) (jobs db) = Some j" and k: "nj_id j = cj_id c" and st: "nj_state j = JobProcessing"
    using leased_jobD [OF Some] by blast+
  have changed: "put_job x db \<noteq> db" if "nj_id x = nj_id j" "nj_state x \<noteq> JobProcessing" for x
  proof
    assume "put_job x db = db"
    then have "tbl_get nj_id (nj_id j) (jobs (put_job x db)) = Some j" using g by simp
    then show False using that g st by (simp add: put_job_def tbl_get_put)
  qed
  show ?thesis
  proof (cases "find_mailbox db (cj_mailbox_email c)")
    case None
    show ?thesis
      by (simp add: complete_job_and_advance_cursor_def Some None changed)
  next
    case m: (Some m)
    have e: "ms_mailbox_email m = cj_mailbox_email c" using find_mailboxD [OF m] by simp
    show ?thesis
      using g
      by (simp add: complete_job_and_advance_cursor_def Some m changed recovery_changed_def k jobs_put_job tbl_get_put
          find_put_mailbox e cursor_of_def)
  qed
qed (simp add: complete_job_and_advance_cursor_def)

section \<open>Claiming a job\<close>

lemma claim_Some:
  assumes "claim_notification_job s ck tok lk owner db = (Some c, db')"
  obtains j m where "next_job lk (ck 0) owner db = Some j" "find_mailbox db (nj_mailbox_email j) = Some m"
    "nj_state j = JobPending" "ms_resync_state m \<noteq> ResyncManualRequired" "db' = put_job (leased_row s (ck 0) tok j) db"
    "c = \<lparr>cj_id = nj_id j, cj_mailbox_email = nj_mailbox_email j, cj_history_id = nj_history_id j,
          cj_lease_token = tok, cj_resync_generation = ms_resync_generation m\<rparr>"
proof -
  obtain j where j: "next_job lk (ck 0) owner db = Some j"
    using assms by (cases "next_job lk (ck 0) owner db") (simp_all add: claim_notification_job_def)
  obtain m where m: "find_mailbox db (nj_mailbox_email j) = Some m"
    using assms j
    by (cases "find_mailbox db (nj_mailbox_email j)") (simp_all add: claim_notification_job_def Let_def)
  have "nj_state j = JobPending \<or> nj_state j = JobProcessing" using next_jobD [OF j] by (auto simp: claimable_def)
  then show thesis
    using that j m assms by (auto simp: claim_notification_job_def Let_def split: if_splits)
qed

text \<open>A claim touches no row whose lease is still running.\<close>

lemma claim_skips_leased:
  assumes "mail_inv db" and "tbl_get nj_id i (jobs db) = Some r" and "nj_state r = JobProcessing"
    and "nj_lease_expires_at r = Some x" and "ck 0 < x"
  shows "tbl_get nj_id i (jobs (snd (claim_notification_job s ck tok lk owner db))) = Some r"
proof (cases "next_job lk (ck 0) owner db")
  case (Some j)
  note row = next_job_row(1) [OF assms(1) Some]
  have "claimable (ck 0) owner db j" using next_jobD [OF Some] by simp
  then have "j \<noteq> r" using assms(3-5) by (auto simp: claimable_def lapsed_def)
  then have ne: "nj_id j \<noteq> i" using row assms(2) by auto
  show ?thesis
    using ne assms(2)
    by (cases "find_mailbox db (nj_mailbox_email j)")
      (simp_all add: claim_notification_job_def Let_def Some jobs_put_job tbl_get_put)
qed (simp add: claim_notification_job_def assms(2))

text \<open>
  A claim hands out only a pending job that is due, belongs to a mailbox of the owner and is
  not locked by another session; it leaves the job leased under the new token with one more
  attempt. Until the lease ends no other claim hands out or changes that row, and the claim carries
  the recovery generation its completion is checked against.
\<close>

lemma job_claim_exclusive:
  assumes "mail_inv db" and "claim_notification_job s ck tok lk owner db = (Some c, db')"
  shows "\<exists>j r m. tbl_get nj_id (cj_id c) (jobs db) = Some j \<and> nj_state j = JobPending \<and>
      due (ck 0) (nj_next_attempt_at j) \<and> \<not> lk (cj_id c) \<and>
      find_mailbox db (cj_mailbox_email c) = Some m \<and> ms_user_id m = owner \<and>
      cj_resync_generation c = ms_resync_generation m \<and>
      leased_job db' c = Some r \<and> nj_attempt_count r = nj_attempt_count j + 1 \<and>
      (\<forall>ck' tok' lk' owner'. ck' 0 < ck 0 + seconds (GMAIL_NOTIFICATION_LEASE_SECONDS s) \<longrightarrow>
         tbl_get nj_id (cj_id c) (jobs (snd (claim_notification_job s ck' tok' lk' owner' db'))) = Some r)"
proof -
  obtain j m where j: "next_job lk (ck 0) owner db = Some j" "find_mailbox db (nj_mailbox_email j) = Some m"
    "nj_state j = JobPending" "db' = put_job (leased_row s (ck 0) tok j) db"
    "c = \<lparr>cj_id = nj_id j, cj_mailbox_email = nj_mailbox_email j, cj_history_id = nj_history_id j,
          cj_lease_token = tok, cj_resync_generation = ms_resync_generation m\<rparr>"
    using claim_Some [OF assms(2)] by metis
  note row = next_job_row(1) [OF assms(1) j(1)]
  have cl: "claimable (ck 0) owner db j" "\<not> lk (nj_id j)" using next_jobD [OF j(1)] by simp_all
  let ?r = "leased_row s (ck 0) tok j"
  have r: "tbl_get nj_id (nj_id j) (jobs db') = Some ?r" using row j(4) by (simp add: jobs_put_job tbl_get_put)
  have inv': "mail_inv db'" using claim_job_inv [OF assms(1), of s ck tok lk owner] assms(2) by simp
  have "tbl_get nj_id (nj_id j) (jobs (snd (claim_notification_job s ck' tok' lk' owner' db'))) = Some ?r"
    if "ck' 0 < ck 0 + seconds (GMAIL_NOTIFICATION_LEASE_SECONDS s)" for ck' tok' lk' owner'
    using that by (intro claim_skips_leased [OF inv' r]) (simp_all add: leased_row_def)
  moreover have "leased_job db' c = Some ?r" using r j(5) by (simp add: leased_job_def leased_row_def)
  ultimately show ?thesis
    using row cl j by (auto simp: claimable_def split: option.splits)
qed

lemma job_claim_exclusive_witness:
  "\<exists>r. leased_job (snd demo_job_claim) demo_claimed_job = Some r \<and> nj_attempt_count r = 1"
  using job_claim_exclusive [OF demo_mail3_inv demo_claim_eq]
  unfolding demo_job_claim_def demo_claim_eq
  by (auto simp: demo_mail3_eq demo_job_def new_job_def demo_claimed_job_def)

section \<open>Deliveries\<close>

lemma enqueue_TrueD:
  assumes "enqueue_notification lib i t cn e owner db = (Inr b, db')"
  shows "\<exists>j. tbl_get nj_pubsub_message_id (ne_pubsub_message_id e) (jobs db') = Some j \<and>
      nj_pubsub_message_id j = ne_pubsub_message_id e"
  using assms unfolding enqueue_notification_def
  by (auto simp: tbl_get_append new_job_def split: sum.splits option.splits if_splits)

lemma pubsub_id_stays:
  assumes "mail_inv db" and "(mail_step lib s)\<^sup>*\<^sup>* db db'"
    and "tbl_get nj_pubsub_message_id p (jobs db) = Some j"
  shows "tbl_get nj_pubsub_message_id p (jobs db') \<noteq> None"
proof -
  have "tbl_get nj_id (nj_id j) (jobs db) = Some j" and p: "nj_pubsub_message_id j = p"
    using assms(1,3) by (auto simp: mail_inv_def jobs_inv_def intro: tbl_get_unique)
  then obtain k where "tbl_get nj_id (nj_id j) (jobs db') = Some k" "job_move j k"
    using steps_rows_move [OF assms(2,1)] rows_moveD [of nj_id job_move "jobs db" "jobs db'"] by blast
  then have "k \<in> set (jobs db')" "nj_pubsub_message_id k = p" using p by (auto simp: job_move_def same_job_def)
  then show ?thesis unfolding tbl_get_None by blast
qed

text \<open>
  A Pub/Sub message is enqueued at most once: after its delivery has been accepted, a
  redelivery, however late and whatever the worker has done in between, creates no job and changes
  no table.
\<close>

lemma delivery_deduplicated:
  assumes "mail_inv db" and "enqueue_notification lib i t cn e owner db = (Inr b, db1)"
    and "(mail_step lib s)\<^sup>*\<^sup>* db1 db2" and "ne_pubsub_message_id e' = ne_pubsub_message_id e"
  shows "snd (enqueue_notification lib i' t' cn' e' owner' db2) = db2 \<and>
    fst (enqueue_notification lib i' t' cn' e' owner' db2) \<noteq> Inr True"
proof -
  have "mail_inv db1" using enqueue_inv [OF assms(1), of lib i t cn e owner] assms(2) by simp
  moreover obtain j where "tbl_get nj_pubsub_message_id (ne_pubsub_message_id e) (jobs db1) = Some j"
    using enqueue_TrueD [OF assms(2)] by blast
  ultimately have "tbl_get nj_pubsub_message_id (ne_pubsub_message_id e') (jobs db2) \<noteq> None"
    using pubsub_id_stays assms(3,4) by metis
  then show ?thesis by (auto simp: enqueue_notification_def split: sum.split option.split)
qed

lemma demo_mail2_inv: "mail_inv demo_mail2"
  by (simp add: demo_mail2_eq demo_mailbox_def new_mailbox_def mail_inv_def jobs_inv_def mailboxes_inv_def
      triage_inv_def keys_distinct_def mailbox_ok_def)

lemma delivery_deduplicated_witness:
  "snd (enqueue_notification demo_notify_lib 2 9 (Inr ''o@x'') demo_envelope 7 (snd demo_job_claim)) = snd demo_job_claim"
proof -
  have "(mail_step demo_notify_lib default_settings)\<^sup>*\<^sup>*
      \<lparr>jobs = [demo_job], mailboxes = [demo_mailbox], triage = []\<rparr> (snd demo_job_claim)"
    using demo_claim_steps unfolding demo_mail3_eq .
  then show ?thesis using delivery_deduplicated [OF demo_mail2_inv demo_enqueue _ refl] by blast
qed

section \<open>Backoff\<close>

text \<open>
  With valid settings every retry is scheduled at least the initial and at most the maximal
  delay ahead, doubling with the attempt count and never shrinking as attempts grow.
\<close>

lemma retry_at_bounds:
  assumes "settings_ok s"
  shows "now + seconds (GMAIL_RETRY_BACKOFF_INITIAL_SECONDS s) \<le> retry_at s now n \<and>
    retry_at s now n \<le> now + seconds (GMAIL_RETRY_BACKOFF_MAX_SECONDS s) \<and>
    retry_at s now n \<le> retry_at s now (n + 1) \<and>
    (0 < n \<and> GMAIL_RETRY_BACKOFF_INITIAL_SECONDS s * 2 ^ n \<le> GMAIL_RETRY_BACKOFF_MAX_SECONDS s \<and> n \<le> 30 \<longrightarrow>
       retry_at s now (n + 1) - now = 2 * (retry_at s now n - now))"
proof -
  let ?i = "GMAIL_RETRY_BACKOFF_INITIAL_SECONDS s" and ?m = "GMAIL_RETRY_BACKOFF_MAX_SECONDS s"
  have i: "0 < ?i" "?i \<le> ?m" using assms by (simp_all add: settings_defs)
  define k where "k = nat (max 0 (min (int n - 1) 30))"
  define k' where "k' = nat (max 0 (min (int (n + 1) - 1) 30))"
  have r: "retry_at s now n = now + seconds (min (?i * 2 ^ k) ?m)"
    "retry_at s now (n + 1) = now + seconds (min (?i * 2 ^ k') ?m)"
    by (simp_all add: retry_at_def k_def k'_def)
  have lo: "?i \<le> ?i * 2 ^ k" using i by simp
  have "k \<le> k'" by (simp add: k_def k'_def)
  then have "?i * 2 ^ k \<le> ?i * 2 ^ k'" using i by (intro mult_left_mono power_increasing) simp_all
  then have "min (?i * 2 ^ k) ?m \<le> min (?i * 2 ^ k') ?m" by (rule min.mono) simp
  moreover have "retry_at s now (n + 1) - now = 2 * (retry_at s now n - now)"
    if a: "0 < n" "?i * 2 ^ n \<le> ?m" "n \<le> 30"
  proof -
    have k: "k' = n" "n = Suc k" using a by (auto simp: k_def k'_def)
    have "?i * 2 ^ k \<le> ?i * 2 ^ n" using i k(2) by simp
    then show ?thesis using a k r by (simp add: seconds_def)
  qed
  ultimately show ?thesis using i lo unfolding r by simp
qed

lemma retry_at_bounds_witness: "retry_at default_settings 0 3 = seconds 20 \<and> retry_at default_settings 0 3 \<le> seconds 300"
  using retry_at_bounds [OF default_settings_ok, of 0 3]
  by (simp add: retry_at_def default_settings_def)

section \<open>Reading an envelope\<close>

lemma count_at_casefold: "count_list (casefold t) (CHR ''@'') = count_list t (CHR ''@'')"
proof (induction t)
  case (Cons a t)
  have "count_list (if (of_char a :: nat) = 223 then ''ss'' else [lower_char a]) (CHR ''@'') = (if a = CHR ''@'' then 1 else 0)"
  proof (cases "a = CHR ''@''")
    case False
    then have "(of_char a :: nat) \<noteq> of_char (CHR ''@'')" by (simp only: of_char_eq_iff not_False_eq_True)
    then have n: "(of_char a :: nat) \<noteq> 64" by simp
    have "lower_char a \<noteq> CHR ''@''"
    proof
      assume "lower_char a = CHR ''@''"
      then have "(of_char (lower_char a) :: nat) = 64" by simp
      then show False using n by (auto simp: lower_char_def Let_def split: if_splits)
    qed
    then show ?thesis using False by simp
  qed (simp add: lower_char_def)
  then show ?case using Cons.IH by (simp add: casefold_def)
qed (simp add: casefold_def)

lemma normalize_emailD: "normalize_email lib v = Inr e \<Longrightarrow> count_list e (CHR ''@'') = 1"
  by (auto simp: normalize_email_def Let_def count_at_casefold split: option.splits json.splits if_splits)

lemma bounded_identifierD:
  assumes "bounded_identifier n v = Inr w"
  shows "w \<noteq> [] \<and> length w \<le> n \<and> list_all (\<lambda>c. \<not> is_space c) w"
proof -
  obtain t where t: "w = strip t" "strip t \<noteq> []" "length t \<le> n" "\<not> list_ex (\<lambda>c. is_space c \<or> (of_char c :: nat) < 33) w"
    using assms by (auto simp: bounded_identifier_def Let_def split: option.splits json.splits if_splits)
  then show ?thesis using length_strip_le [of t] by (auto simp: list_ex_iff list_all_iff)
qed

lemma envelope_history_idD: "envelope_history_id v = Inr h \<Longrightarrow> 0 < h \<and> h \<le> BIGINT_MAX"
  by (auto simp: envelope_history_id_def Let_def split: option.splits json.splits if_splits)

text \<open>
  An envelope that is accepted came in a non-empty body within the size limit and names the
  configured subscription; its Pub/Sub id is non-empty, at most 255 characters and free of white
  space, its mailbox has exactly one at-sign, and its history id is positive and fits the
  database's 64-bit column.
\<close>

lemma accepted_envelope_bounded:
  assumes "parse_notification_envelope lib s raw sub = Inr e"
  shows "raw \<noteq> [] \<and> int (length raw) \<le> PUBSUB_MAX_ENVELOPE_BYTES s \<and>
    (\<exists>env. nl_json_loads lib raw = Some env \<and> get_or_none ''subscription'' env = map_option JStr sub) \<and>
    ne_pubsub_message_id e \<noteq> [] \<and> length (ne_pubsub_message_id e) \<le> 255 \<and>
    list_all (\<lambda>c. \<not> is_space c) (ne_pubsub_message_id e) \<and>
    count_list (ne_mailbox_email e) (CHR ''@'') = 1 \<and> 0 < ne_history_id e \<and> ne_history_id e \<le> BIGINT_MAX"
proof -
  have body: "raw \<noteq> []" "int (length raw) \<le> PUBSUB_MAX_ENVELOPE_BYTES s"
    using assms by (auto simp: parse_notification_envelope_def split: if_splits)
  obtain env m where env: "nl_json_loads lib raw = Some env" "get_or_none ''subscription'' env = map_option JStr sub"
      "jget ''message'' env = Some (JObj m)"
    using assms body
    by (auto simp: parse_notification_envelope_def split: option.splits if_splits json.splits)
  obtain n where "bounded_identifier 255 (map_of m ''messageId'') = Inr (ne_pubsub_message_id e)"
      "normalize_email lib (jget ''emailAddress'' n) = Inr (ne_mailbox_email e)"
      "envelope_history_id (jget ''historyId'' n) = Inr (ne_history_id e)"
    using assms body env
    by (auto simp: parse_notification_envelope_def split: sum.splits if_splits)
  then show ?thesis
    using body env(1,2) bounded_identifierD normalize_emailD envelope_history_idD by blast
qed

lemma accepted_envelope_bounded_witness:
  "parse_notification_envelope demo_notify_lib default_settings [1] (Some ''sub'') = Inr demo_envelope \<and>
   length (ne_pubsub_message_id demo_envelope) \<le> 255"
proof -
  have "parse_notification_envelope demo_notify_lib default_settings [1] (Some ''sub'') = Inr demo_envelope"
    by (simp add: parse_notification_envelope_def demo_notify_lib_def demo_body_def default_settings_def is_jobj_def
        get_or_none_def jget_def bounded_identifier_def notification_data_def normalize_email_def
        envelope_history_id_def demo_envelope_def text_simps BIGINT_MAX_def INT_MAX_STR_DIGITS_def)
  then show ?thesis using accepted_envelope_bounded by blast
qed

text \<open>
  A message whose \<open>data\<close> is text outside ASCII is not refused as invalid: the base64
  decoder's plain \<open>ValueError\<close> escapes the handler's list of decoding errors, so the delivery
  endpoint treats the malformed message as an outage and it is redelivered.
\<close>

lemma non_ascii_data_parse:
  "parse_notification_envelope demo_notify_lib default_settings [2] (Some ''sub'') = Inl UncaughtValueError"
  by (simp add: parse_notification_envelope_def demo_notify_lib_def demo_body_def default_settings_def is_jobj_def
      get_or_none_def jget_def bounded_identifier_def notification_data_def text_simps)

end
