(* ===== verification/Retention.thy ===== *)
theory Retention
  imports Action_Safety Notification_Properties
begin

text \<open>
  Deletion of old records (\<open>server/services/retention.py\<close>). One cleanup pass is one
  transaction on the action, job and triage tables: stale proposals are expired first, then the
  rows of each table that are in a final state and were finished before the cutoff are deleted,
  an action together with its audit events.
\<close>

section \<open>The cleanup pass\<close>

definition RESOLVED_ACTION_STATUSES :: "action_status list" where
  "RESOLVED_ACTION_STATUSES = [SUCCEEDED, FAILED, REJECTED, EXPIRED]"

definition TERMINAL_JOB_STATES :: "job_state list" where
  "TERMINAL_JOB_STATES = [JobSucceeded, JobDeadLetter]"

definition TERMINAL_TRIAGE_STATES :: "triage_state list" where
  "TERMINAL_TRIAGE_STATES = [TriageSucceeded, TriageNoop, TriageDeadLetter]"

record retention_cleanup_result =
  rc_pending_actions :: nat
  rc_notification_jobs :: nat
  rc_triage_work :: nat
  rc_expired_actions :: nat

text \<open>\<open>processed_at IS NOT NULL AND processed_at < cutoff\<close>.\<close>

definition before_cutoff :: "time \<Rightarrow> time option \<Rightarrow> bool" where
  "before_cutoff cutoff t = (case t of None \<Rightarrow> False | Some x \<Rightarrow> x < cutoff)"

definition old_action :: "time \<Rightarrow> pending_action \<Rightarrow> bool" where
  "old_action cutoff a = (pa_status a \<in> set RESOLVED_ACTION_STATUSES \<and> before_cutoff cutoff (pa_processed_at a))"

definition old_job :: "time \<Rightarrow> notification_job \<Rightarrow> bool" where
  "old_job cutoff j = (nj_state j \<in> set TERMINAL_JOB_STATES \<and> before_cutoff cutoff (nj_processed_at j))"

definition old_triage :: "time \<Rightarrow> triage_work \<Rightarrow> bool" where
  "old_triage cutoff w = (tw_state w \<in> set TERMINAL_TRIAGE_STATES \<and> before_cutoff cutoff (tw_processed_at w))"

text \<open>The foreign key of the audit table cascades.\<close>

definition delete_actions :: "(pending_action \<Rightarrow> bool) \<Rightarrow> action_db \<Rightarrow> action_db" where
  "delete_actions P db =
     db\<lparr>actions := filter (\<lambda>a. \<not> P a) (actions db),
        audits := filter (\<lambda>e. \<not> list_ex (\<lambda>a. P a \<and> pa_id a = ae_action_id e) (actions db)) (audits db)\<rparr>"

definition cleanup_retained_records ::
  "settings \<Rightarrow> (uuid \<Rightarrow> bool) \<Rightarrow> time \<Rightarrow> action_db \<times> mail_db \<Rightarrow> retention_cleanup_result \<times> action_db \<times> mail_db" where
  "cleanup_retained_records s locked current dbs =
     (case expire_stale_actions locked current (fst dbs) of
        (expired_actions, adb) \<Rightarrow>
          let mdb = snd dbs;
              actions_cutoff = current - days (PENDING_ACTION_RETENTION_DAYS s);
              jobs_cutoff = current - days (GMAIL_JOB_RETENTION_DAYS s);
              triage_cutoff = current - days (GMAIL_TRIAGE_RETENTION_DAYS s)
          in (\<lparr>rc_pending_actions = length (filter (old_action actions_cutoff) (actions adb)),
               rc_notification_jobs = length (filter (old_job jobs_cutoff) (jobs mdb)),
               rc_triage_work = length (filter (old_triage triage_cutoff) (triage mdb)),
               rc_expired_actions = expired_actions\<rparr>,
              delete_actions (old_action actions_cutoff) adb,
              mdb\<lparr>jobs := filter (\<lambda>j. \<not> old_job jobs_cutoff j) (jobs mdb),
                  triage := filter (\<lambda>w. \<not> old_triage triage_cutoff w) (triage mdb)\<rparr>))"

text \<open>The transaction of the periodic caller, which reads the clock when it is given no time.\<close>

definition prune_retained_records ::
  "settings \<Rightarrow> (uuid \<Rightarrow> bool) \<Rightarrow> time option \<Rightarrow> time \<Rightarrow> action_db \<times> mail_db \<Rightarrow>
   retention_cleanup_result \<times> action_db \<times> mail_db" where
  "prune_retained_records s locked now clock_now dbs =
     cleanup_retained_records s locked (case now of Some t \<Rightarrow> t | None \<Rightarrow> clock_now) dbs"

section \<open>Deletion keeps the invariants\<close>

lemma keys_distinct_filter: "keys_distinct k rows \<Longrightarrow> keys_distinct k (filter P rows)"
  by (simp add: keys_distinct_def distinct_map_filter)

lemma list_all_filter: "list_all P xs \<Longrightarrow> list_all P (filter Q xs)"
  by (simp add: list_all_iff)

lemma delete_actions_inv:
  assumes inv: "action_inv db"
  shows "action_inv (delete_actions P db)"
proof -
  let ?db = "delete_actions P db"
  have d: "inj_on pa_id (set (actions db))" using inv by (simp add: action_inv_def keys_distinct_def distinct_map)
  have keep: "trail ?db (pa_id a) = trail db (pa_id a)" if "a \<in> set (actions db)" "\<not> P a" for a
    using that by (auto simp: trail_def delete_actions_def list_ex_iff intro!: filter_cong dest: inj_onD [OF d])
  have "ae_action_id e \<in> pa_id ` set (actions ?db)" if ed: "e \<in> set (audits ?db)" for e
  proof -
    obtain a where "a \<in> set (actions db)" "ae_action_id e = pa_id a"
      using ed inv by (auto simp: delete_actions_def action_inv_def list_all_iff)
    moreover from this have "\<not> P a" using ed by (auto simp: delete_actions_def list_ex_iff)
    ultimately show ?thesis by (auto simp: delete_actions_def)
  qed
  moreover have "replay PENDING (trail ?db (pa_id a)) = Some (pa_status a)" if "a \<in> set (actions ?db)" for a
    using that inv keep [of a] by (auto simp: delete_actions_def action_inv_def list_all_iff)
  moreover have "keys_distinct pa_id (actions ?db)" "keys_distinct command_id (actions ?db)" "list_all row_ok (actions ?db)"
    using inv by (simp_all add: delete_actions_def action_inv_def keys_distinct_filter list_all_filter)
  ultimately show ?thesis by (simp add: action_inv_def list_all_iff)
qed

lemma delete_mail_inv:
  assumes "mail_inv db"
  shows "mail_inv (db\<lparr>jobs := filter P (jobs db), triage := filter Q (triage db)\<rparr>)"
  using assms by (simp add: mail_inv_def jobs_inv_def triage_inv_def keys_distinct_filter list_all_filter)

lemma expire_inv: "action_inv db \<Longrightarrow> action_inv (snd (expire_stale_actions locked now db))"
  using spec_steps_inv [OF expire_loop_steps] by (simp add: expire_stale_actions_def)

section \<open>What a pass deletes\<close>

lemma before_cutoffD: "before_cutoff cutoff t \<Longrightarrow> \<exists>x. t = Some x \<and> x < cutoff"
  by (simp add: before_cutoff_def split: option.splits)

lemma swept_row_kept:
  assumes "0 < d"
  shows "\<not> old_action (current - days d) (expire_row current a)"
  using assms by (simp add: old_action_def before_cutoff_def expire_row_def days_def seconds_def)

lemma retained_actions:
  assumes inv: "action_inv db" and d: "0 < d" and a: "a \<in> set (actions db)"
    and e: "expire_stale_actions locked current db = (n, db1)"
  shows "(\<exists>b\<in>set (actions (delete_actions (old_action (current - days d)) db1)). pa_id b = pa_id a) \<or>
    pa_status a \<in> set RESOLVED_ACTION_STATUSES \<and> before_cutoff (current - days d) (pa_processed_at a)"
proof -
  have rows: "actions db1 = sweep_once locked current (actions db)"
    using expire_loop_sweeps [OF inv_distinct [OF inv], of locked current 0] e by (simp add: expire_stale_actions_def)
  have "(if sweepable locked current a then expire_row current a else a) \<in> set (actions db1)"
    unfolding rows sweep_once_def using a by (auto intro!: image_eqI [where x = a])
  moreover have "pa_id (expire_row current a) = pa_id a" by (simp add: expire_row_def)
  ultimately show ?thesis
    using swept_row_kept [OF d, of current a]
    by (cases "sweepable locked current a") (force simp: delete_actions_def old_action_def)+
qed

text \<open>
  C38. One cleanup pass keeps the invariants of all tables and every mailbox row, and deletes only
  records that reached a final state longer ago than the retention period: no action that is
  pending, in execution or waiting for reconciliation is lost (a stale proposal is expired, not
  deleted), no job or triage row that is still open is lost, and the reported numbers are those of
  the deleted rows.
\<close>

theorem retention_keeps_unfinished:
  assumes "action_inv adb" and "mail_inv mdb" and "settings_ok s"
    and "cleanup_retained_records s locked current (adb, mdb) = (r, adb', mdb')"
  shows "action_inv adb' \<and> mail_inv mdb' \<and> mailboxes mdb' = mailboxes mdb \<and>
    (\<forall>a\<in>set (actions adb). (\<exists>b\<in>set (actions adb'). pa_id b = pa_id a) \<or>
       pa_status a \<in> {SUCCEEDED, FAILED, REJECTED, EXPIRED} \<and>
       (\<exists>t. pa_processed_at a = Some t \<and> t < current - days (PENDING_ACTION_RETENTION_DAYS s))) \<and>
    (\<forall>j\<in>set (jobs mdb). j \<in> set (jobs mdb') \<or> nj_state j \<in> {JobSucceeded, JobDeadLetter} \<and>
       (\<exists>t. nj_processed_at j = Some t \<and> t < current - days (GMAIL_JOB_RETENTION_DAYS s))) \<and>
    (\<forall>w\<in>set (triage mdb). w \<in> set (triage mdb') \<or> tw_state w \<noteq> TriageProcessing \<and>
       (\<exists>t. tw_processed_at w = Some t \<and> t < current - days (GMAIL_TRIAGE_RETENTION_DAYS s))) \<and>
    rc_pending_actions r + length (actions adb') = length (actions adb) \<and>
    rc_notification_jobs r + length (jobs mdb') = length (jobs mdb) \<and>
    rc_triage_work r + length (triage mdb') = length (triage mdb)"
proof -
  obtain n db1 where e: "expire_stale_actions locked current adb = (n, db1)" by fastforce
  have pos: "0 < PENDING_ACTION_RETENTION_DAYS s" using assms(3) by (simp add: settings_defs)
  note res = assms(4) [unfolded cleanup_retained_records_def Let_def, simplified, unfolded e, simplified]
  have adb': "adb' = delete_actions (old_action (current - days (PENDING_ACTION_RETENTION_DAYS s))) db1"
    and mdb': "mdb' = mdb\<lparr>jobs := filter (\<lambda>j. \<not> old_job (current - days (GMAIL_JOB_RETENTION_DAYS s)) j) (jobs mdb),
      triage := filter (\<lambda>w. \<not> old_triage (current - days (GMAIL_TRIAGE_RETENTION_DAYS s)) w) (triage mdb)\<rparr>"
    using res by auto
  have len: "length (actions db1) = length (actions adb)"
    using expire_loop_sweeps [OF inv_distinct [OF assms(1)], of locked current 0] e
    by (simp add: expire_stale_actions_def sweep_once_def)
  have "action_inv db1" using expire_inv [OF assms(1), of locked current] by (simp add: e)
  then have "action_inv adb'" unfolding adb' by (rule delete_actions_inv)
  moreover have "mail_inv mdb'" unfolding mdb' by (rule delete_mail_inv [OF assms(2)])
  moreover have "rc_pending_actions r + length (actions adb') = length (actions adb)"
    "rc_notification_jobs r + length (jobs mdb') = length (jobs mdb)"
    "rc_triage_work r + length (triage mdb') = length (triage mdb)"
    using res by (auto simp: adb' mdb' delete_actions_def len [symmetric] sum_length_filter_compl)
  moreover have "w \<in> set (triage mdb') \<or> tw_state w \<noteq> TriageProcessing \<and>
       (\<exists>t. tw_processed_at w = Some t \<and> t < current - days (GMAIL_TRIAGE_RETENTION_DAYS s))" if "w \<in> set (triage mdb)" for w
    using that by (auto simp: mdb' old_triage_def TERMINAL_TRIAGE_STATES_def dest: before_cutoffD)
  moreover have "j \<in> set (jobs mdb') \<or> nj_state j \<in> {JobSucceeded, JobDeadLetter} \<and>
       (\<exists>t. nj_processed_at j = Some t \<and> t < current - days (GMAIL_JOB_RETENTION_DAYS s))" if "j \<in> set (jobs mdb)" for j
    using that by (auto simp: mdb' old_job_def TERMINAL_JOB_STATES_def dest: before_cutoffD)
  moreover have "(\<exists>b\<in>set (actions adb'). pa_id b = pa_id a) \<or>
       pa_status a \<in> {SUCCEEDED, FAILED, REJECTED, EXPIRED} \<and>
       (\<exists>t. pa_processed_at a = Some t \<and> t < current - days (PENDING_ACTION_RETENTION_DAYS s))" if "a \<in> set (actions adb)" for a
    using retained_actions [OF assms(1) pos that e] unfolding adb'
    by (auto simp: RESOLVED_ACTION_STATUSES_def dest: before_cutoffD)
  ultimately show ?thesis unfolding mdb' by simp
qed

lemma retention_keeps_unfinished_witness:
  "\<exists>r adb' mdb'. cleanup_retained_records default_settings (\<lambda>_. False) (minutes 15) (demo_db, demo_mail3) = (r, adb', mdb') \<and>
     actions demo_db \<noteq> [] \<and> (\<forall>a\<in>set (actions demo_db). pa_status a = PENDING \<longrightarrow> (\<exists>b\<in>set (actions adb'). pa_id b = pa_id a)) \<and>
     rc_notification_jobs r + length (jobs mdb') = 1"
proof -
  obtain r adb' mdb' where e:
    "cleanup_retained_records default_settings (\<lambda>_. False) (minutes 15) (demo_db, demo_mail3) = (r, adb', mdb')"
    by (metis prod_cases3)
  note k = retention_keeps_unfinished [OF demo_db_inv demo_mail3_inv default_settings_ok e]
  have "\<exists>b\<in>set (actions adb'). pa_id b = pa_id a" if "a \<in> set (actions demo_db)" "pa_status a = PENDING" for a
    using k that by fastforce
  moreover have "length (jobs demo_mail3) = 1" by (simp add: demo_mail3_eq)
  moreover have "actions demo_db \<noteq> []" by (simp add: demo_db_rows)
  ultimately show ?thesis using e k by metis
qed

end
