(* ===== verification/Mime.thy ===== *)
theory Mime
  imports Pagination
begin

text \<open>
  Bounded extraction of mail bodies and HTML sanitisation (\<open>server/mail/mime.py\<close>). Strict
  base64 decoding and \<open>html.escape\<close> are modelled exactly. The parameter \<open>mime_lib\<close>
  holds what the code takes from the standard library beyond them: UTF-8 decoding with
  replacement, the event stream of \<open>HTMLParser\<close>, \<open>urlsplit\<close> (which raises
  \<open>ValueError\<close> on malformed hosts) and \<open>getaddresses\<close>.
\<close>

section \<open>Bounded decoding\<close>

datatype html_event =
    StartTag str "(str \<times> str option) list"
  | StartEndTag str "(str \<times> str option) list"
  | EndTag str
  | TextData str

record mime_lib =
  ml_utf8_replace :: "nat list \<Rightarrow> str"
  ml_html_events :: "str \<Rightarrow> html_event list"
  ml_urlsplit :: "str \<Rightarrow> (str \<times> str \<times> str) option"
  ml_getaddresses :: "str \<Rightarrow> str list"

definition MAX_BODY_BYTES :: nat where
  "MAX_BODY_BYTES = 256 * 1024"

definition MAX_HEADER_VALUE_CHARS :: nat where
  "MAX_HEADER_VALUE_CHARS = 4096"

definition MAX_MIME_PART_DEPTH :: nat where
  "MAX_MIME_PART_DEPTH = 32"

definition MAX_MIME_PARTS :: nat where
  "MAX_MIME_PARTS = 512"

text \<open>
  The strict decoder: a character outside the alphabet, data after padding has started, and
  anything after a complete padding are errors.
\<close>

fun a2b_strict :: "nat \<Rightarrow> nat \<Rightarrow> nat \<Rightarrow> bool \<Rightarrow> str \<Rightarrow> nat list option" where
  "a2b_strict quad_pos left pads padding [] = (if quad_pos = 0 then Some [] else None)"
| "a2b_strict quad_pos left pads padding (c # cs) =
     (if c = CHR ''='' then
        (if 2 \<le> quad_pos \<and> 4 \<le> quad_pos + (pads + 1) then (if cs = [] then Some [] else None)
         else a2b_strict quad_pos left (if 2 \<le> quad_pos then pads + 1 else pads) True cs)
      else case b64_value c of
        None \<Rightarrow> None
      | Some v \<Rightarrow>
          if padding then None
          else if quad_pos = 0 then a2b_strict 1 v 0 False cs
          else if quad_pos = 1 then map_option ((#) (left * 4 + v div 16)) (a2b_strict 2 (v mod 16) 0 False cs)
          else if quad_pos = 2 then map_option ((#) (left * 16 + v div 4)) (a2b_strict 3 (v mod 4) 0 False cs)
          else map_option ((#) (left * 64 + v)) (a2b_strict 0 0 0 False cs))"

definition b64decode_validate :: "str \<Rightarrow> nat list option" where
  "b64decode_validate s = (if s \<noteq> [] \<and> hd s = CHR ''='' then None else a2b_strict 0 0 0 False s)"

definition decode_base64url_text :: "mime_lib \<Rightarrow> json option \<Rightarrow> nat \<Rightarrow> str option" where
  "decode_base64url_text lib data max_bytes =
     (case data of
        Some (JStr d) \<Rightarrow>
          if d = [] then None
          else let max_encoded = (max_bytes + 2) div 3 * 4 + 4 in
            if length d > max_encoded then None
            else (case b64decode_validate (d @ replicate ((4 - length d mod 4) mod 4) (CHR ''='')) of
                    None \<Rightarrow> None
                  | Some decoded \<Rightarrow> if length decoded > max_bytes then None else Some (ml_utf8_replace lib decoded))
      | _ \<Rightarrow> None)"

section \<open>The sanitizer\<close>

definition ALLOWED_TAGS :: "str list" where
  "ALLOWED_TAGS = [''a'', ''b'', ''blockquote'', ''br'', ''code'', ''div'', ''em'', ''h1'', ''h2'', ''h3'', ''h4'', ''h5'',
     ''h6'', ''i'', ''li'', ''ol'', ''p'', ''pre'', ''span'', ''strong'', ''table'', ''tbody'', ''td'', ''th'', ''thead'',
     ''tr'', ''ul'']"

definition VOID_TAGS :: "str list" where
  "VOID_TAGS = [''br'']"

definition DROP_CONTENT_TAGS :: "str list" where
  "DROP_CONTENT_TAGS = [''form'', ''iframe'', ''math'', ''object'', ''script'', ''style'', ''svg'', ''template'']"

definition TEXT_BREAK_TAGS :: "str list" where
  "TEXT_BREAK_TAGS = [''br'', ''div'', ''li'', ''p'', ''tr'']"

definition escape_char :: "bool \<Rightarrow> char \<Rightarrow> str" where
  "escape_char quote c =
     (if c = CHR ''&'' then ''&amp;'' else if c = CHR ''<'' then ''&lt;'' else if c = CHR ''>'' then ''&gt;''
      else if quote \<and> c = CHR 0x22 then ''&quot;'' else if quote \<and> c = CHR 0x27 then ''&#x27;'' else [c])"

definition html_escape :: "bool \<Rightarrow> str \<Rightarrow> str" where
  "html_escape quote s = concat (map (escape_char quote) s)"

text \<open>The open tags are a stack with the innermost first.\<close>

record sanitizer =
  sz_output :: "str list"
  sz_text :: "str list"
  sz_open_tags :: "str list"
  sz_drop_depth :: nat

definition new_sanitizer :: sanitizer where
  "new_sanitizer = \<lparr>sz_output = [], sz_text = [], sz_open_tags = [], sz_drop_depth = 0\<rparr>"

text \<open>\<open>None\<close> is the exception that \<open>urlsplit\<close> raises.\<close>

definition safe_href :: "mime_lib \<Rightarrow> str \<Rightarrow> str option option" where
  "safe_href lib value =
     (case ml_urlsplit lib (strip value) of
        None \<Rightarrow> None
      | Some (scheme, netloc, path) \<Rightarrow>
          Some (if scheme = ''https'' \<and> netloc \<noteq> [] then Some value
                else if scheme = ''mailto'' \<and> path \<noteq> [] then Some value else None))"

definition first_href :: "(str \<times> str option) list \<Rightarrow> str option" where
  "first_href attrs =
     (case find (\<lambda>(name, value). lower name = ''href'' \<and> value \<noteq> None \<and> value \<noteq> Some []) attrs of
        None \<Rightarrow> None | Some (_, value) \<Rightarrow> value)"

definition rendered_attrs :: "mime_lib \<Rightarrow> str \<Rightarrow> (str \<times> str option) list \<Rightarrow> str option" where
  "rendered_attrs lib tag attrs =
     (if tag \<noteq> ''a'' then Some []
      else case first_href attrs of
        None \<Rightarrow> Some []
      | Some href \<Rightarrow>
          (case safe_href lib href of
             None \<Rightarrow> None
           | Some None \<Rightarrow> Some []
           | Some (Some h) \<Rightarrow> Some ('' href='' @ [CHR 0x22] @ html_escape True h @ [CHR 0x22] @ '' rel='' @ [CHR 0x22]
               @ ''noopener noreferrer'' @ [CHR 0x22])))"

definition handle_starttag :: "mime_lib \<Rightarrow> str \<Rightarrow> (str \<times> str option) list \<Rightarrow> sanitizer \<Rightarrow> sanitizer option" where
  "handle_starttag lib tag0 attrs z =
     (let tag = lower tag0 in
      if sz_drop_depth z \<noteq> 0 then
        Some (if tag \<in> set DROP_CONTENT_TAGS then z\<lparr>sz_drop_depth := sz_drop_depth z + 1\<rparr> else z)
      else if tag \<in> set DROP_CONTENT_TAGS then Some (z\<lparr>sz_drop_depth := 1\<rparr>)
      else if tag \<notin> set ALLOWED_TAGS then Some z
      else case rendered_attrs lib tag attrs of
        None \<Rightarrow> None
      | Some ra \<Rightarrow>
          Some (z\<lparr>sz_output := sz_output z @ [''<'' @ tag @ ra @ ''>''],
                  sz_open_tags := (if tag \<in> set VOID_TAGS then sz_open_tags z else tag # sz_open_tags z),
                  sz_text := (if tag \<in> set TEXT_BREAK_TAGS then sz_text z @ [[CHR 0x0A]] else sz_text z)\<rparr>))"

definition close_tag :: "str \<Rightarrow> str" where
  "close_tag t = ''</'' @ t @ ''>''"

text \<open>The loop that closes open tags up to and including \<open>tag\<close>.\<close>

fun pop_until :: "str \<Rightarrow> str list \<Rightarrow> str list \<times> str list" where
  "pop_until tag [] = ([], [])"
| "pop_until tag (current # opens) =
     (if current = tag then ([close_tag current], opens)
      else apfst ((#) (close_tag current)) (pop_until tag opens))"

definition handle_endtag :: "str \<Rightarrow> sanitizer \<Rightarrow> sanitizer" where
  "handle_endtag tag0 z =
     (let tag = lower tag0 in
      if sz_drop_depth z \<noteq> 0 then
        (if tag \<in> set DROP_CONTENT_TAGS then z\<lparr>sz_drop_depth := sz_drop_depth z - 1\<rparr> else z)
      else if tag \<notin> set ALLOWED_TAGS \<or> tag \<in> set VOID_TAGS \<or> tag \<notin> set (sz_open_tags z) then z
      else let (closed, opens) = pop_until tag (sz_open_tags z) in
        z\<lparr>sz_output := sz_output z @ closed, sz_open_tags := opens,
          sz_text := (if tag \<in> set TEXT_BREAK_TAGS then sz_text z @ [[CHR 0x0A]] else sz_text z)\<rparr>)"

definition handle_startendtag :: "mime_lib \<Rightarrow> str \<Rightarrow> (str \<times> str option) list \<Rightarrow> sanitizer \<Rightarrow> sanitizer option" where
  "handle_startendtag lib tag attrs z =
     map_option (\<lambda>z. if tag \<in> set VOID_TAGS then z else handle_endtag tag z) (handle_starttag lib tag attrs z)"

definition handle_data :: "str \<Rightarrow> sanitizer \<Rightarrow> sanitizer" where
  "handle_data data z =
     (if sz_drop_depth z \<noteq> 0 \<or> data = [] then z
      else z\<lparr>sz_output := sz_output z @ [html_escape False data], sz_text := sz_text z @ [data]\<rparr>)"

fun handle_event :: "mime_lib \<Rightarrow> html_event \<Rightarrow> sanitizer \<Rightarrow> sanitizer option" where
  "handle_event lib (StartTag tag attrs) z = handle_starttag lib tag attrs z"
| "handle_event lib (StartEndTag tag attrs) z = handle_startendtag lib tag attrs z"
| "handle_event lib (EndTag tag) z = Some (handle_endtag tag z)"
| "handle_event lib (TextData data) z = Some (handle_data data z)"

fun feed :: "mime_lib \<Rightarrow> html_event list \<Rightarrow> sanitizer \<Rightarrow> sanitizer option" where
  "feed lib [] z = Some z"
| "feed lib (e # es) z = (case handle_event lib e z of None \<Rightarrow> None | Some z' \<Rightarrow> feed lib es z')"

definition rendered_html :: "sanitizer \<Rightarrow> str" where
  "rendered_html z = concat (sz_output z @ map close_tag (sz_open_tags z))"

definition rendered_text :: "sanitizer \<Rightarrow> str" where
  "rendered_text z = strip (concat (sz_text z))"

section \<open>Walking the parts of a message\<close>

lemma size_map_of: "map_of kvs k = Some v \<Longrightarrow> size v < size (JObj kvs)"
  by (induction kvs) (auto split: if_splits)

text \<open>
  Each element of the stack is what is left of an iterator, with its depth. The result lists the
  parts that the generator yields.
\<close>

function walk_stack :: "nat \<Rightarrow> (json list \<times> nat) list \<Rightarrow> (str \<times> json) list list" where
  "walk_stack visited [] = []"
| "walk_stack visited (([], d) # stack) = walk_stack visited stack"
| "walk_stack visited ((part # siblings, d) # stack) =
     (if visited + 1 > MAX_MIME_PARTS then []
      else case part of
        JObj kvs \<Rightarrow>
          kvs # walk_stack (visited + 1)
            (case map_of kvs ''parts'' of
               Some (JArr children) \<Rightarrow>
                 if d < MAX_MIME_PART_DEPTH then (children, d + 1) # (siblings, d) # stack else (siblings, d) # stack
             | _ \<Rightarrow> (siblings, d) # stack)
      | _ \<Rightarrow> walk_stack (visited + 1) ((siblings, d) # stack))"
  by pat_completeness auto
termination
  by (relation "measure (\<lambda>(visited, stack). sum_list (map (\<lambda>(s, _). 1 + size_list size s) stack))")
    (auto split: json.split option.split dest!: size_map_of)

definition walk_parts :: "json option \<Rightarrow> (str \<times> json) list list" where
  "walk_parts payload = (case payload of Some (JObj kvs) \<Rightarrow> walk_stack 0 [([JObj kvs], 0)] | _ \<Rightarrow> [])"

section \<open>Extraction\<close>

record mail_content =
  mc_body :: str
  mc_sanitized_html :: "str option"

text \<open>The first plain and the first HTML body that decode, in walking order.\<close>

definition part_body :: "mime_lib \<Rightarrow> (str \<times> json) list \<Rightarrow> (str \<times> str) option" where
  "part_body lib part =
     (case map_of part ''mimeType'' of
        Some (JStr mime_type) \<Rightarrow>
          map_option (Pair (lower mime_type))
            (decode_base64url_text lib
               (case map_of part ''body'' of Some (JObj b) \<Rightarrow> map_of b ''data'' | _ \<Rightarrow> None) MAX_BODY_BYTES)
      | _ \<Rightarrow> None)"

fun scan_bodies :: "mime_lib \<Rightarrow> (str \<times> json) list list \<Rightarrow> str option \<Rightarrow> str option \<Rightarrow> str option \<times> str option" where
  "scan_bodies lib [] plain_body html_body = (plain_body, html_body)"
| "scan_bodies lib (part # parts) plain_body html_body =
     (case part_body lib part of
        None \<Rightarrow> scan_bodies lib parts plain_body html_body
      | Some (mime_type, decoded) \<Rightarrow>
          if mime_type = ''text/plain'' \<and> plain_body = None then scan_bodies lib parts (Some decoded) html_body
          else if mime_type = ''text/html'' \<and> html_body = None then scan_bodies lib parts plain_body (Some decoded)
          else scan_bodies lib parts plain_body html_body)"

text \<open>\<open>None\<close> is an exception of the sanitizer that the function lets through.\<close>

definition extract_mail_content :: "mime_lib \<Rightarrow> json option \<Rightarrow> mail_content option" where
  "extract_mail_content lib payload =
     (case scan_bodies lib (walk_parts payload) None None of
        (Some plain_body, _) \<Rightarrow> Some \<lparr>mc_body = plain_body, mc_sanitized_html = None\<rparr>
      | (None, None) \<Rightarrow> Some \<lparr>mc_body = [], mc_sanitized_html = None\<rparr>
      | (None, Some html_body) \<Rightarrow>
          map_option (\<lambda>z. \<lparr>mc_body = rendered_text z,
              mc_sanitized_html = (if rendered_html z = [] then None else Some (rendered_html z))\<rparr>)
            (feed lib (ml_html_events lib html_body) new_sanitizer))"

text \<open>\<open>address.rpartition('@')\<close>: what precedes and follows the last at-sign.\<close>

definition rpartition_at :: "str \<Rightarrow> (str \<times> str) option" where
  "rpartition_at a =
     (if CHR ''@'' \<in> set a
      then Some (rev (tl (dropWhile (\<lambda>c. c \<noteq> CHR ''@'') (rev a))), rev (takeWhile (\<lambda>c. c \<noteq> CHR ''@'') (rev a)))
      else None)"

definition usable_address :: "str \<Rightarrow> bool" where
  "usable_address a =
     (case rpartition_at a of
        None \<Rightarrow> False
      | Some (local, domain) \<Rightarrow> local \<noteq> [] \<and> domain \<noteq> [] \<and> \<not> list_ex is_space a)"

definition parse_recipient_addresses :: "mime_lib \<Rightarrow> json option \<Rightarrow> str list" where
  "parse_recipient_addresses lib value =
     (case value of
        Some (JStr v) \<Rightarrow> filter usable_address (ml_getaddresses lib (take MAX_HEADER_VALUE_CHARS v))
      | _ \<Rightarrow> [])"

definition first_recipient_address :: "mime_lib \<Rightarrow> json option \<Rightarrow> str \<Rightarrow> str" where
  "first_recipient_address lib value fallback =
     (case parse_recipient_addresses lib value of [] \<Rightarrow> fallback | a # _ \<Rightarrow> a)"

section \<open>Bound of the walk\<close>

lemma walk_stack_length: "length (walk_stack visited stack) \<le> MAX_MIME_PARTS - visited"
proof (induction visited stack rule: walk_stack.induct)
  case (3 visited part siblings d stack)
  show ?case
  proof (cases "visited + 1 > MAX_MIME_PARTS")
    case False
    then show ?thesis using 3 by (cases part) fastforce+
  qed simp
qed simp_all

section \<open>What the sanitizer emits\<close>

datatype html_token =
    OpenTok str "str option"
  | CloseTok str
  | CharsTok str

definition href_attr :: "str \<Rightarrow> str" where
  "href_attr h = '' href='' @ [CHR 0x22] @ html_escape True h @ [CHR 0x22] @ '' rel='' @ [CHR 0x22]
     @ ''noopener noreferrer'' @ [CHR 0x22]"

fun render_token :: "html_token \<Rightarrow> str" where
  "render_token (OpenTok t h) = ''<'' @ t @ (case h of None \<Rightarrow> [] | Some h \<Rightarrow> href_attr h) @ ''>''"
| "render_token (CloseTok t) = close_tag t"
| "render_token (CharsTok s) = html_escape False s"

fun nest :: "html_token list \<Rightarrow> str list \<Rightarrow> str list option" where
  "nest [] opens = Some opens"
| "nest (OpenTok t h # ts) opens = nest ts (if t \<in> set VOID_TAGS then opens else t # opens)"
| "nest (CloseTok t # ts) opens =
     (case opens of [] \<Rightarrow> None | s # rest \<Rightarrow> if s = t then nest ts rest else None)"
| "nest (CharsTok s # ts) opens = nest ts opens"

fun token_ok :: "mime_lib \<Rightarrow> html_token \<Rightarrow> bool" where
  "token_ok lib (OpenTok t h) =
     (t \<in> set ALLOWED_TAGS \<and> (case h of None \<Rightarrow> True | Some v \<Rightarrow> t = ''a'' \<and> safe_href lib v = Some (Some v)))"
| "token_ok lib (CloseTok t) = (t \<in> set ALLOWED_TAGS)"
| "token_ok lib (CharsTok s) = True"

lemma nest_append: "nest (ts @ us) opens = Option.bind (nest ts opens) (nest us)"
  by (induction ts opens rule: nest.induct) (auto split: list.split)

lemma escape_no_markup:
  "CHR ''<'' \<notin> set (html_escape q s)" "CHR ''>'' \<notin> set (html_escape q s)" "CHR 0x22 \<notin> set (html_escape True s)"
  by (auto simp: html_escape_def escape_char_def split: if_splits)

text \<open>The sanitizer's output renders a token list that is nested as its stack says.\<close>

definition emits :: "mime_lib \<Rightarrow> sanitizer \<Rightarrow> html_token list \<Rightarrow> bool" where
  "emits lib z ts \<longleftrightarrow> sz_output z = map render_token ts \<and> nest ts [] = Some (sz_open_tags z) \<and>
     list_all (token_ok lib) ts \<and> set (sz_open_tags z) \<subseteq> set ALLOWED_TAGS"

lemma pop_until_tokens:
  "tag \<in> set opens \<Longrightarrow> pop_until tag opens = (closed, rest) \<Longrightarrow>
     \<exists>ts. closed = map render_token ts \<and> nest ts opens = Some rest \<and> set rest \<subseteq> set opens \<and>
       ts = map CloseTok (take (length ts) opens)"
proof (induction opens arbitrary: closed rest)
  case (Cons a opens)
  show ?case
  proof (cases "a = tag")
    case True
    then show ?thesis using Cons.prems by (intro exI [of _ "[CloseTok a]"]) auto
  next
    case False
    then obtain c r where p: "pop_until tag opens = (c, r)" by fastforce
    then obtain ts where "c = map render_token ts" "nest ts opens = Some r" "set r \<subseteq> set opens"
      "ts = map CloseTok (take (length ts) opens)"
      using Cons False by auto
    then show ?thesis
      using Cons.prems False p by (intro exI [of _ "CloseTok a # ts"]) auto
  qed
qed simp

lemma starttag_emits:
  assumes "emits lib z ts" and "handle_starttag lib t attrs z = Some z'"
  shows "\<exists>us. emits lib z' us"
proof -
  let ?t = "lower t"
  have keep: "\<exists>us. emits lib z' us" if "sz_output z' = sz_output z" "sz_open_tags z' = sz_open_tags z"
    using assms(1) that by (auto simp: emits_def)
  show ?thesis
  proof (cases "sz_drop_depth z \<noteq> 0 \<or> ?t \<in> set DROP_CONTENT_TAGS \<or> ?t \<notin> set ALLOWED_TAGS")
    case True
    then show ?thesis
      using assms(2) by (intro keep) (auto simp: handle_starttag_def Let_def split: if_splits option.splits)
  next
    case False
    then obtain ra where ra: "rendered_attrs lib ?t attrs = Some ra"
      and z': "sz_output z' = sz_output z @ [''<'' @ ?t @ ra @ ''>'']"
        "sz_open_tags z' = (if ?t \<in> set VOID_TAGS then sz_open_tags z else ?t # sz_open_tags z)"
      using assms(2) by (auto simp: handle_starttag_def Let_def split: if_splits option.splits)
    obtain h where h: "ra = (case h of None \<Rightarrow> [] | Some h \<Rightarrow> href_attr h)" "token_ok lib (OpenTok ?t h)"
    proof (cases "\<exists>v. ?t = ''a'' \<and> first_href attrs = Some v \<and> safe_href lib v = Some (Some v)")
      case True
      then show thesis
        using ra False that [of "first_href attrs"] by (auto simp: rendered_attrs_def href_attr_def)
    next
      case False
      then have "ra = []"
        using ra by (auto simp: rendered_attrs_def safe_href_def split: if_splits option.splits prod.splits)
      then show thesis using that [of None] \<open>\<not> (sz_drop_depth z \<noteq> 0 \<or> _)\<close> by simp
    qed
    then show ?thesis
      using assms(1) z' False
      by (intro exI [of _ "ts @ [OpenTok ?t h]"]) (auto simp: emits_def nest_append)
  qed
qed

lemma endtag_emits:
  assumes "emits lib z ts"
  shows "\<exists>us. emits lib (handle_endtag t z) us"
proof (cases "sz_drop_depth z = 0 \<and> lower t \<in> set ALLOWED_TAGS \<and> lower t \<notin> set VOID_TAGS \<and> lower t \<in> set (sz_open_tags z)")
  case True
  obtain closed rest where p: "pop_until (lower t) (sz_open_tags z) = (closed, rest)" by fastforce
  obtain us where us: "closed = map render_token us" "nest us (sz_open_tags z) = Some rest"
    "set rest \<subseteq> set (sz_open_tags z)" "us = map CloseTok (take (length us) (sz_open_tags z))"
    using pop_until_tokens [OF _ p] True by blast
  have "list_all (token_ok lib) us"
    using assms by (subst us(4)) (auto simp: list_all_iff emits_def dest: in_set_takeD)
  then show ?thesis
    using assms us(1-3) True p
    by (intro exI [of _ "ts @ us"]) (auto simp: handle_endtag_def emits_def nest_append)
next
  case False
  then show ?thesis
    using assms by (intro exI [of _ ts]) (auto simp: handle_endtag_def emits_def Let_def)
qed

lemma event_emits: "emits lib z ts \<Longrightarrow> handle_event lib e z = Some z' \<Longrightarrow> \<exists>us. emits lib z' us"
proof (cases e)
  case (StartEndTag t attrs)
  assume "emits lib z ts" "handle_event lib e z = Some z'"
  then show ?thesis
    using StartEndTag starttag_emits endtag_emits
    by (auto simp: handle_startendtag_def split: if_splits) metis+
next
  case (TextData d)
  assume "emits lib z ts" "handle_event lib e z = Some z'"
  then show ?thesis
    using TextData
    by (intro exI [of _ "if sz_drop_depth z \<noteq> 0 \<or> d = [] then ts else ts @ [CharsTok d]"])
      (auto simp: handle_data_def emits_def nest_append)
qed (auto intro: starttag_emits endtag_emits)

lemma feed_emits: "emits lib z ts \<Longrightarrow> feed lib es z = Some z' \<Longrightarrow> \<exists>us. emits lib z' us"
proof (induction es arbitrary: z ts)
  case (Cons e es)
  then obtain z1 where "handle_event lib e z = Some z1" "feed lib es z1 = Some z'" by (auto split: option.splits)
  then show ?case using Cons.IH event_emits [OF Cons.prems(1)] by blast
qed auto

lemma nest_close_all: "nest (map CloseTok opens) opens = Some []"
  by (induction opens) auto

section \<open>A concrete library\<close>

definition demo_mime_lib :: mime_lib where
  "demo_mime_lib = \<lparr>ml_utf8_replace = map char_of,
     ml_html_events = (\<lambda>s. [StartTag ''a'' [(''href'', Some s)], TextData ''1 < 2'', EndTag ''a'']),
     ml_urlsplit = (\<lambda>u. if starts_with ''https://'' u
        then (if u = ''https://['' then None else Some (''https'', drop 8 u, [])) else Some ([], [], u)),
     ml_getaddresses = (\<lambda>s. [s])\<rparr>"

definition demo_events :: "html_event list" where
  "demo_events = [StartTag ''P'' [], StartTag ''b'' [], StartTag ''script'' [], TextData ''x'', EndTag ''script'',
     StartTag ''a'' [(''href'', Some ''https://h'')], TextData ''1 < 2'', EndTag ''p'']"

lemmas mime_eval = handle_starttag_def handle_endtag_def handle_data_def handle_startendtag_def rendered_attrs_def
  first_href_def safe_href_def ALLOWED_TAGS_def VOID_TAGS_def DROP_CONTENT_TAGS_def TEXT_BREAK_TAGS_def
  html_escape_def escape_char_def close_tag_def new_sanitizer_def rendered_html_def rendered_text_def
  demo_mime_lib_def Let_def char_of_def bit_Suc_0_iff text_simps

section \<open>Properties\<close>

text \<open>
  C32. Whatever mail HTML the parser reports, the sanitizer's output is a well-nested sequence of
  tags from the fixed allowlist and escaped text: every opened element is closed in order, text
  contributes no angle bracket, the only attributes are those of links whose target passed the
  \<open>https\<close>/\<open>mailto\<close> check, and an attribute value cannot end its quotes.
\<close>

theorem sanitized_html_safe:
  assumes "feed lib events new_sanitizer = Some z"
  shows "\<exists>ts. rendered_html z = concat (map render_token ts) \<and> nest ts [] = Some [] \<and> list_all (token_ok lib) ts \<and>
    (\<forall>s v. CHR ''<'' \<notin> set (render_token (CharsTok s)) \<and> CHR ''>'' \<notin> set (render_token (CharsTok s)) \<and>
       CHR 0x22 \<notin> set (html_escape True v))"
proof -
  have "emits lib new_sanitizer []" by (simp add: emits_def new_sanitizer_def)
  then obtain ts where ts: "emits lib z ts" using feed_emits assms by blast
  let ?us = "map CloseTok (sz_open_tags z)"
  have "rendered_html z = concat (map render_token (ts @ ?us))"
    using ts by (simp add: rendered_html_def emits_def comp_def)
  moreover have "nest (ts @ ?us) [] = Some []" using ts by (simp add: nest_append emits_def nest_close_all)
  moreover have "list_all (token_ok lib) (ts @ ?us)" using ts by (auto simp: emits_def list_all_iff)
  ultimately show ?thesis using escape_no_markup by (metis render_token.simps(3))
qed

lemma sanitized_html_safe_witness:
  "\<exists>z ts. feed demo_mime_lib demo_events new_sanitizer = Some z \<and> ts \<noteq> [] \<and>
    rendered_html z = concat (map render_token ts) \<and> nest ts [] = Some []"
proof -
  obtain z where z: "feed demo_mime_lib demo_events new_sanitizer = Some z" "rendered_html z \<noteq> []"
    by (simp add: demo_events_def mime_eval)
  then obtain ts where "rendered_html z = concat (map render_token ts)" "nest ts [] = Some []"
    using sanitized_html_safe by blast
  then show ?thesis using z by (intro exI [of _ z] exI [of _ ts]) auto
qed

text \<open>The depth of dropped elements after events that never leave the outermost one.\<close>

fun stays_dropped :: "html_event list \<Rightarrow> nat \<Rightarrow> nat option" where
  "stays_dropped [] n = Some n"
| "stays_dropped (StartTag t _ # es) n = stays_dropped es (if lower t \<in> set DROP_CONTENT_TAGS then n + 1 else n)"
| "stays_dropped (EndTag t # es) n =
     (if lower t \<in> set DROP_CONTENT_TAGS then (if n \<le> 1 then None else stays_dropped es (n - 1)) else stays_dropped es n)"
| "stays_dropped (StartEndTag t _ # es) n = stays_dropped es n"
| "stays_dropped (TextData _ # es) n = stays_dropped es n"

lemma void_not_dropped: "t \<in> set VOID_TAGS \<Longrightarrow> lower t \<notin> set DROP_CONTENT_TAGS"
  by (simp add: mime_eval)

lemma dropped_events:
  "stays_dropped es n = Some m \<Longrightarrow> 1 \<le> n \<Longrightarrow>
     feed lib es (z\<lparr>sz_drop_depth := d + n\<rparr>) = Some (z\<lparr>sz_drop_depth := d + m\<rparr>)"
proof (induction es n rule: stays_dropped.induct)
  case (2 t a es n)
  then show ?case by (auto simp: handle_starttag_def Let_def)
next
  case (3 t es n)
  then show ?case by (auto simp: handle_endtag_def Let_def split: if_splits)
next
  case (4 t a es n)
  then show ?case
    using void_not_dropped by (auto simp: handle_startendtag_def handle_starttag_def handle_endtag_def Let_def)
next
  case (5 s es n)
  then show ?case by (auto simp: handle_data_def)
qed simp

lemma feed_append: "feed lib (es @ fs) z = Option.bind (feed lib es z) (feed lib fs)"
  by (induction es arbitrary: z) (auto split: option.split)

text \<open>
  Nothing between the start and the end of a script, style, form, frame, object, template,
  SVG or MathML element leaves a trace: removing the element with all its content, however deeply
  such elements nest inside it, does not change what the sanitizer produces.
\<close>

lemma dropped_content_invisible:
  assumes "lower t \<in> set DROP_CONTENT_TAGS" and "stays_dropped inner 1 = Some 1"
  shows "feed lib (before_it @ StartTag t attrs # inner @ EndTag t # after_it) z = feed lib (before_it @ after_it) z"
proof -
  have "feed lib (StartTag t attrs # inner @ EndTag t # after_it) = feed lib after_it"
  proof (rule ext)
    fix y
    have s: "handle_starttag lib t attrs y = Some (y\<lparr>sz_drop_depth := sz_drop_depth y + 1\<rparr>)"
      using assms(1) by (auto simp: handle_starttag_def Let_def)
    have i: "feed lib inner (y\<lparr>sz_drop_depth := sz_drop_depth y + 1\<rparr>) = Some (y\<lparr>sz_drop_depth := sz_drop_depth y + 1\<rparr>)"
      using dropped_events [OF assms(2), where lib = lib and z = y and d = "sz_drop_depth y"] by simp
    have e: "handle_endtag t (y\<lparr>sz_drop_depth := sz_drop_depth y + 1\<rparr>) = y"
      using assms(1) by (simp add: handle_endtag_def)
    show "feed lib (StartTag t attrs # inner @ EndTag t # after_it) y = feed lib after_it y"
      using s i e by (simp add: feed_append)
  qed
  then show ?thesis by (simp only: feed_append)
qed

lemma dropped_content_invisible_witness:
  "feed demo_mime_lib [StartTag ''SVG'' [], StartTag ''script'' [], TextData ''x'', EndTag ''script'', EndTag ''SVG''] new_sanitizer
     = Some new_sanitizer"
proof -
  have "lower ''SVG'' \<in> set DROP_CONTENT_TAGS" by (simp add: mime_eval)
  moreover have "stays_dropped [StartTag ''script'' [], TextData ''x'', EndTag ''script''] 1 = Some 1"
    by (simp add: mime_eval)
  ultimately have "feed demo_mime_lib ([] @ StartTag ''SVG'' [] # [StartTag ''script'' [], TextData ''x'', EndTag ''script''] @
      EndTag ''SVG'' # []) new_sanitizer = feed demo_mime_lib ([] @ []) new_sanitizer"
    by (rule dropped_content_invisible)
  then show ?thesis by (simp only: append.simps feed.simps(1))
qed

text \<open>
  However a message is structured, at most 512 of its parts are visited, and a decoded body
  never exceeds the limit in bytes: the encoded text is refused before decoding when it could not fit.
\<close>

lemma mime_walk_bounded:
  "length (walk_parts payload) \<le> MAX_MIME_PARTS \<and>
   (case decode_base64url_text lib data n of
      None \<Rightarrow> True
    | Some text \<Rightarrow> \<exists>d bytes. data = Some (JStr d) \<and> text = ml_utf8_replace lib bytes \<and> length bytes \<le> n \<and>
        length d \<le> (n + 2) div 3 * 4 + 4)"
proof
  show "length (walk_parts payload) \<le> MAX_MIME_PARTS"
    using walk_stack_length [of 0] by (simp add: walk_parts_def del: walk_stack.simps split: option.split json.split)
qed (auto simp: decode_base64url_text_def Let_def split: option.splits json.splits if_splits)

text \<open>The payload of an HTML-only message with one link.\<close>

definition demo_html_payload :: json where
  "demo_html_payload = JObj [(''mimeType'', JStr ''text/html''), (''body'', JObj [(''data'', JStr ''aHR0cHM6Ly9b'')])]"

text \<open>
  A link whose host \<open>urlsplit\<close> rejects makes the extraction of the whole message raise: the
  sanitizer does not catch the error, so one crafted mail in a page of messages fails the request.
\<close>

lemma malformed_link_extract: "extract_mail_content demo_mime_lib (Some demo_html_payload) = None"
  by (simp add: extract_mail_content_def demo_html_payload_def walk_parts_def MAX_MIME_PARTS_def part_body_def
      decode_base64url_text_def b64decode_validate_def b64_value_def MAX_BODY_BYTES_def mime_eval)

end
