(* ===== verification/Inbound.thy ===== *)
theory Inbound
  imports Mime
begin

text \<open>
  Reading one inbound message for triage (\<open>server/mail/inbound.py\<close>): the skip policy, the
  bounded extraction of headers, labels and body, and the walk over the MIME tree. The explicit
  stack loops of this module and of \<open>server/mail/mime.py\<close> are shown equal to a recursive
  traversal in document order.
\<close>

section \<open>Skip policy\<close>

definition MAX_INBOUND_MIME_PART_DEPTH :: nat where
  "MAX_INBOUND_MIME_PART_DEPTH = 32"

definition MAX_INBOUND_MIME_PARTS :: nat where
  "MAX_INBOUND_MIME_PARTS = 512"

definition MAX_INBOUND_HEADERS :: nat where
  "MAX_INBOUND_HEADERS = 200"

definition MAX_INBOUND_HEADER_NAME_CHARS :: nat where
  "MAX_INBOUND_HEADER_NAME_CHARS = 128"

definition MAX_INBOUND_LABELS :: nat where
  "MAX_INBOUND_LABELS = 100"

definition MAX_INBOUND_LABEL_CHARS :: nat where
  "MAX_INBOUND_LABEL_CHARS = 128"

definition TRIAGE_HEADERS :: "str list" where
  "TRIAGE_HEADERS = [''subject'', ''from'', ''to'', ''date'']"

record inbound_content =
  ic_id :: json
  ic_threadId :: json
  ic_subject :: str
  ic_from :: str
  ic_to :: str
  ic_date :: str
  ic_labels :: "str list"
  ic_body :: str

text \<open>The dictionary with the single key \<open>error\<close> is the left summand.\<close>

type_synonym inbound_result = "str + inbound_content"

text \<open>Upper case on the Latin-1 letters whose upper case is one Latin-1 letter.\<close>

definition upper_char :: "char \<Rightarrow> char" where
  "upper_char c = (let n = (of_char c :: nat) in
     if 97 \<le> n \<and> n \<le> 122 \<or> 224 \<le> n \<and> n \<le> 254 \<and> n \<noteq> 247 then char_of (n - 32) else c)"

text \<open>The alternatives of the sender pattern \<open>no[-_.]?reply|donotreply|noreply\<close>.\<close>

definition automated_senders :: "str list" where
  "automated_senders = [''noreply'', ''no-reply'', ''no_reply'', ''no.reply'', ''donotreply'']"

definition spam_labels :: "str list" where
  "spam_labels = [''SPAM'', ''CATEGORY_PROMOTIONS'', ''CATEGORY_FORUMS'']"

definition should_process_email :: "inbound_result \<Rightarrow> bool" where
  "should_process_email content =
     (case content of
        Inl _ \<Rightarrow> False
      | Inr c \<Rightarrow>
          if list_ex (\<lambda>p. contains p (lower (ic_from c))) automated_senders then False
          else if list_ex (\<lambda>l. map upper_char l \<in> set spam_labels) (ic_labels c) then False
          else \<not> list_ex (\<lambda>k. contains k (lower (ic_subject c)))
                 [''unsubscribe'', ''newsletter'', ''promotion'', ''discount''])"

section \<open>The body\<close>

text \<open>
  What the loop does with one part: \<open>Inl ()\<close> is the \<open>ValueError\<close>, \<open>Inr None\<close>
  goes on, \<open>Inr (Some s)\<close> returns.
\<close>

definition leaf_text :: "mime_lib \<Rightarrow> (str \<times> json) list \<Rightarrow> unit + str option" where
  "leaf_text lib part =
     (case map_of part ''mimeType'' of
        Some (JStr mime_type) \<Rightarrow>
          if lower mime_type \<notin> {''text/plain'', ''text/html''} then Inr None
          else (case map_of part ''body'' of
                  None \<Rightarrow> Inr None
                | Some JNull \<Rightarrow> Inr None
                | Some (JObj body) \<Rightarrow>
                    (case map_of body ''data'' of
                       None \<Rightarrow> Inr None
                     | Some JNull \<Rightarrow> Inr None
                     | Some (JStr encoded) \<Rightarrow>
                         if encoded = [] then Inr None
                         else (case decode_base64url_text lib (Some (JStr encoded)) MAX_BODY_BYTES of
                                 None \<Rightarrow> Inl ()
                               | Some extracted \<Rightarrow> Inr (if extracted = [] then None else Some extracted))
                     | _ \<Rightarrow> Inl ())
                | _ \<Rightarrow> Inl ())
      | _ \<Rightarrow> Inl ())"

function body_stack :: "mime_lib \<Rightarrow> nat \<Rightarrow> (json list \<times> nat) list \<Rightarrow> unit + str" where
  "body_stack lib visited [] = Inr []"
| "body_stack lib visited (([], d) # stack) = body_stack lib visited stack"
| "body_stack lib visited ((part # siblings, d) # stack) =
     (if visited + 1 > MAX_INBOUND_MIME_PARTS then Inr []
      else case part of
        JObj kvs \<Rightarrow>
          let leaf = (case leaf_text lib kvs of
              Inl e \<Rightarrow> Inl e
            | Inr None \<Rightarrow> body_stack lib (visited + 1) ((siblings, d) # stack)
            | Inr (Some s) \<Rightarrow> Inr s)
          in (case map_of kvs ''parts'' of
                None \<Rightarrow> leaf
              | Some JNull \<Rightarrow> leaf
              | Some (JArr []) \<Rightarrow> leaf
              | Some (JArr (c # cs)) \<Rightarrow>
                  body_stack lib (visited + 1)
                    (if d < MAX_INBOUND_MIME_PART_DEPTH then (c # cs, d + 1) # (siblings, d) # stack
                     else (siblings, d) # stack)
              | Some _ \<Rightarrow> Inl ())
      | _ \<Rightarrow> Inl ())"
  by pat_completeness auto
termination
  by (relation "measure (\<lambda>(lib, visited, stack). sum_list (map (\<lambda>(s, _). 1 + size_list size s) stack))")
    (auto dest!: size_map_of)

definition get_email_body :: "mime_lib \<Rightarrow> (str \<times> json) list \<Rightarrow> unit + str" where
  "get_email_body lib payload = body_stack lib 0 [([JObj payload], 0)]"

section \<open>Extraction\<close>

definition header_pair :: "json \<Rightarrow> (str \<times> str) option" where
  "header_pair item =
     (case item of
        JObj kvs \<Rightarrow>
          (case (map_of kvs ''name'', map_of kvs ''value'') of
             (Some (JStr name), Some (JStr value)) \<Rightarrow>
               if length name > MAX_INBOUND_HEADER_NAME_CHARS \<or> length value > MAX_HEADER_VALUE_CHARS then None
               else Some (casefold name, value)
           | _ \<Rightarrow> None)
      | _ \<Rightarrow> None)"

text \<open>The header dictionary keeps the first value of each triage header.\<close>

fun inbound_headers :: "json list \<Rightarrow> (str \<times> str) list \<Rightarrow> (str \<times> str) list option" where
  "inbound_headers [] headers = Some headers"
| "inbound_headers (item # items) headers =
     (case header_pair item of
        None \<Rightarrow> None
      | Some (name, value) \<Rightarrow>
          inbound_headers items
            (if name \<in> set TRIAGE_HEADERS \<and> map_of headers name = None then headers @ [(name, value)] else headers))"

definition inbound_label :: "json \<Rightarrow> str option" where
  "inbound_label l = (case l of JStr s \<Rightarrow> if s \<noteq> [] \<and> length s \<le> MAX_INBOUND_LABEL_CHARS then Some s else None | _ \<Rightarrow> None)"

definition inbound_labels :: "json option \<Rightarrow> str list option" where
  "inbound_labels labels =
     (case labels of
        None \<Rightarrow> Some []
      | Some (JArr ls) \<Rightarrow>
          if length ls > MAX_INBOUND_LABELS \<or> list_ex (\<lambda>l. inbound_label l = None) ls then None
          else Some (map (\<lambda>l. the (inbound_label l)) ls)
      | _ \<Rightarrow> None)"

definition header_or :: "str \<Rightarrow> str \<Rightarrow> (str \<times> str) list \<Rightarrow> str" where
  "header_or name fallback headers = (case map_of headers name of None \<Rightarrow> fallback | Some v \<Rightarrow> v)"

definition field_or_empty :: "str \<Rightarrow> (str \<times> json) list \<Rightarrow> json" where
  "field_or_empty k kvs = (case map_of kvs k of None \<Rightarrow> JStr [] | Some v \<Rightarrow> v)"

definition extract_email_content :: "mime_lib \<Rightarrow> json \<Rightarrow> inbound_result" where
  "extract_email_content lib email_data =
     (let invalid_payload = Inl ''Invalid message payload'' in
      case email_data of
        JObj m \<Rightarrow>
          (case map_of m ''payload'' of
             Some (JObj payload) \<Rightarrow>
               (case map_of payload ''headers'' of
                  Some (JArr raw_headers) \<Rightarrow>
                    if length raw_headers > MAX_INBOUND_HEADERS then invalid_payload
                    else (case (inbound_headers raw_headers [], inbound_labels (map_of m ''labelIds''), get_email_body lib payload) of
                            (Some headers, Some labels, Inr body) \<Rightarrow>
                              Inr \<lparr>ic_id = field_or_empty ''id'' m, ic_threadId = field_or_empty ''threadId'' m,
                                   ic_subject = header_or ''subject'' ''(No Subject)'' headers,
                                   ic_from = header_or ''from'' ''Unknown'' headers,
                                   ic_to = header_or ''to'' ''Unknown'' headers,
                                   ic_date = header_or ''date'' ''Unknown'' headers,
                                   ic_labels = labels, ic_body = body\<rparr>
                          | _ \<Rightarrow> invalid_payload)
                | _ \<Rightarrow> invalid_payload)
           | _ \<Rightarrow> invalid_payload)
      | _ \<Rightarrow> invalid_payload)"

section \<open>Reference traversal\<close>

text \<open>The parts of a message in document order, down to a remaining depth.\<close>

definition child_parts :: "json \<Rightarrow> json list" where
  "child_parts part =
     (case part of JObj kvs \<Rightarrow> (case map_of kvs ''parts'' of Some (JArr cs) \<Rightarrow> cs | _ \<Rightarrow> []) | _ \<Rightarrow> [])"

primrec preorder :: "nat \<Rightarrow> json \<Rightarrow> json list" where
  "preorder 0 part = [part]"
| "preorder (Suc r) part = part # concat (map (preorder r) (child_parts part))"

definition stack_parts :: "nat \<Rightarrow> (json list \<times> nat) list \<Rightarrow> json list" where
  "stack_parts depth stack = concat (map (\<lambda>(s, d). concat (map (preorder (depth - d)) s)) stack)"

lemma stack_parts_simps [simp]:
  "stack_parts D [] = []"
  "stack_parts D (([], d) # stack) = stack_parts D stack"
  "stack_parts D ((p # s, d) # stack) = preorder (D - d) p @ stack_parts D ((s, d) # stack)"
  by (simp_all add: stack_parts_def)

lemma preorder_unfold:
  "preorder (D - d) p @ stack_parts D stack =
     p # stack_parts D (if d < D then (child_parts p, d + 1) # stack else stack)"
proof (cases "d < D")
  case True
  then have "D - d = Suc (D - (d + 1))" by simp
  then show ?thesis using True by (simp add: stack_parts_def)
qed simp

definition objects :: "json list \<Rightarrow> (str \<times> json) list list" where
  "objects ps = concat (map (\<lambda>p. case p of JObj kvs \<Rightarrow> [kvs] | _ \<Rightarrow> []) ps)"

lemma take_unfold: "n < N \<Longrightarrow> take (N - n) (x # xs) = x # take (N - Suc n) xs"
  by (simp add: Suc_diff_Suc [symmetric])

lemma stack_parts_children:
  "stack_parts D (case map_of kvs ''parts'' of
       Some (JArr children) \<Rightarrow> if d < D then (children, d + 1) # stack else stack
     | _ \<Rightarrow> stack) =
   stack_parts D (if d < D then (child_parts (JObj kvs), d + 1) # stack else stack)"
  by (auto simp: child_parts_def split: option.split json.split)

lemma child_parts_simps:
  "child_parts JNull = []" "child_parts (JBool b) = []" "child_parts (JInt i) = []" "child_parts (JStr s) = []"
  "child_parts (JArr ps) = []"
  by (simp_all add: child_parts_def)

lemma stack_parts_leaf: "child_parts p = [] \<Longrightarrow>
    stack_parts D (if d < D then (child_parts p, d + 1) # stack else stack) = stack_parts D stack"
  by simp

lemma walk_stack_preorder:
  "walk_stack v stack = objects (take (MAX_MIME_PARTS - v) (stack_parts MAX_MIME_PART_DEPTH stack))"
proof (induction v stack rule: walk_stack.induct)
  case (3 v p s d stack)
  show ?case
  proof (cases "v + 1 > MAX_MIME_PARTS")
    case False
    then have "take (MAX_MIME_PARTS - v) (stack_parts MAX_MIME_PART_DEPTH ((p # s, d) # stack)) =
        p # take (MAX_MIME_PARTS - Suc v)
          (stack_parts MAX_MIME_PART_DEPTH (if d < MAX_MIME_PART_DEPTH then (child_parts p, d + 1) # (s, d) # stack
             else (s, d) # stack))"
      by (simp only: stack_parts_simps preorder_unfold take_unfold)
    then show ?thesis
      using False 3
      by (cases p) (simp_all add: objects_def stack_parts_children stack_parts_leaf child_parts_simps del: stack_parts_simps)
  qed (simp add: objects_def)
qed (simp_all add: objects_def)

text \<open>What one part of the inbound walk contributes.\<close>

definition inbound_part :: "mime_lib \<Rightarrow> json \<Rightarrow> unit + str option" where
  "inbound_part lib part =
     (case part of
        JObj kvs \<Rightarrow>
          (case map_of kvs ''parts'' of
             None \<Rightarrow> leaf_text lib kvs
           | Some JNull \<Rightarrow> leaf_text lib kvs
           | Some (JArr cs) \<Rightarrow> if cs = [] then leaf_text lib kvs else Inr None
           | Some _ \<Rightarrow> Inl ())
      | _ \<Rightarrow> Inl ())"

fun first_text :: "(unit + str option) list \<Rightarrow> unit + str" where
  "first_text [] = Inr []"
| "first_text (Inl e # rs) = Inl e"
| "first_text (Inr None # rs) = first_text rs"
| "first_text (Inr (Some s) # rs) = Inr s"

lemma first_text_leaf:
  "first_text (r # rs) = (case r of Inl e \<Rightarrow> Inl e | Inr None \<Rightarrow> first_text rs | Inr (Some s) \<Rightarrow> Inr s)"
  by (auto split: sum.split option.split)

lemma body_stack_preorder:
  "body_stack lib v stack =
     first_text (map (inbound_part lib)
       (take (MAX_INBOUND_MIME_PARTS - v) (stack_parts MAX_INBOUND_MIME_PART_DEPTH stack)))"
proof (induction lib v stack rule: body_stack.induct)
  case (3 lib v p s d stack)
  show ?case
  proof (cases "v + 1 > MAX_INBOUND_MIME_PARTS")
    case False
    let ?X = "(s, d) # stack"
    let ?rest = "\<lambda>st. first_text (map (inbound_part lib)
      (take (MAX_INBOUND_MIME_PARTS - Suc v) (stack_parts MAX_INBOUND_MIME_PART_DEPTH st)))"
    have unfold: "take (MAX_INBOUND_MIME_PARTS - v) (stack_parts MAX_INBOUND_MIME_PART_DEPTH ((p # s, d) # stack)) =
        p # take (MAX_INBOUND_MIME_PARTS - Suc v)
          (stack_parts MAX_INBOUND_MIME_PART_DEPTH (if d < MAX_INBOUND_MIME_PART_DEPTH then (child_parts p, d + 1) # ?X else ?X))"
      using False by (simp only: stack_parts_simps preorder_unfold take_unfold)
    show ?thesis
    proof (cases p)
      case (JObj kvs)
      note ih = 3(1) [OF False JObj] 3(2) [OF False JObj]
      show ?thesis
      proof (cases "\<exists>c cs. map_of kvs ''parts'' = Some (JArr (c # cs))")
        case True
        then obtain c cs where c: "map_of kvs ''parts'' = Some (JArr (c # cs))" by blast
        then have "child_parts p = c # cs" "inbound_part lib p = Inr None"
          by (simp_all add: JObj child_parts_def inbound_part_def)
        then show ?thesis
          using ih c False by (simp add: unfold [unfolded JObj] JObj del: stack_parts_simps)
      next
        case leaf: False
        then have "child_parts p = []"
          by (cases "child_parts p") (auto simp: JObj child_parts_def split: option.splits json.splits)
        then have rhs: "take (MAX_INBOUND_MIME_PARTS - v) (stack_parts MAX_INBOUND_MIME_PART_DEPTH ((p # s, d) # stack)) =
            p # take (MAX_INBOUND_MIME_PARTS - Suc v) (stack_parts MAX_INBOUND_MIME_PART_DEPTH ?X)"
          unfolding unfold by (simp del: stack_parts_simps(3))
        have lhs: "body_stack lib v ((p # s, d) # stack) =
            (case inbound_part lib p of
               Inl e \<Rightarrow> Inl e | Inr None \<Rightarrow> body_stack lib (v + 1) ?X | Inr (Some t) \<Rightarrow> Inr t)"
          using leaf False
          by (auto simp: JObj inbound_part_def Let_def split: option.split json.split list.split)
        have "body_stack lib (v + 1) ?X = ?rest ?X" if "inbound_part lib p = Inr None"
        proof -
          have "leaf_text lib kvs = Inr None"
            using that leaf
            by (auto simp: JObj inbound_part_def neq_Nil_conv split: option.splits json.splits if_splits)
          then show ?thesis using ih(1) by simp
        qed
        then show ?thesis
          unfolding lhs rhs list.map first_text_leaf by (auto split: sum.split option.split)
      qed
    qed (use False unfold in \<open>simp_all add: inbound_part_def\<close>)
  qed simp
qed simp_all

section \<open>Bounds\<close>

lemma header_pair_bound: "header_pair i = Some (n, v) \<Longrightarrow> length v \<le> MAX_HEADER_VALUE_CHARS"
  by (auto simp: header_pair_def split: json.splits option.splits if_splits)

lemma inbound_headers_bound:
  "inbound_headers items hs = Some hs' \<Longrightarrow> list_all (\<lambda>h. length (snd h) \<le> MAX_HEADER_VALUE_CHARS) hs \<Longrightarrow>
     list_all (\<lambda>h. length (snd h) \<le> MAX_HEADER_VALUE_CHARS) hs'"
proof (induction items arbitrary: hs)
  case (Cons i items)
  then obtain n v where i: "header_pair i = Some (n, v)" by (auto split: option.splits)
  then show ?case
    using Cons.IH Cons.prems header_pair_bound [OF i] by (auto split: if_splits)
qed simp

lemma header_or_bound:
  assumes "list_all (\<lambda>h. length (snd h) \<le> MAX_HEADER_VALUE_CHARS) hs" and "length fallback \<le> MAX_HEADER_VALUE_CHARS"
  shows "length (header_or n fallback hs) \<le> MAX_HEADER_VALUE_CHARS"
  using assms by (auto simp: header_or_def list_all_iff dest!: map_of_SomeD split: option.split)

lemma inbound_label_bound: "inbound_label l = Some s \<Longrightarrow> s \<noteq> [] \<and> length s \<le> MAX_INBOUND_LABEL_CHARS"
  by (auto simp: inbound_label_def split: json.splits if_splits)

lemma inbound_labels_bound:
  "inbound_labels j = Some ls \<Longrightarrow> length ls \<le> MAX_INBOUND_LABELS \<and>
     list_all (\<lambda>l. l \<noteq> [] \<and> length l \<le> MAX_INBOUND_LABEL_CHARS) ls"
  using inbound_label_bound
  by (fastforce simp: inbound_labels_def list_all_iff list_ex_iff split: option.splits json.splits if_splits)

definition bounded_text :: "mime_lib \<Rightarrow> str \<Rightarrow> bool" where
  "bounded_text lib s \<longleftrightarrow> s = [] \<or> (\<exists>bytes. length bytes \<le> MAX_BODY_BYTES \<and> s = ml_utf8_replace lib bytes)"

lemma decode_bound: "decode_base64url_text lib d MAX_BODY_BYTES = Some s \<Longrightarrow> bounded_text lib s"
  unfolding bounded_text_def decode_base64url_text_def Let_def
  by (auto simp: not_less split: option.splits json.splits if_splits)

lemma leaf_text_bound: "leaf_text lib kvs = Inr (Some s) \<Longrightarrow> bounded_text lib s"
  by (auto simp: leaf_text_def intro: decode_bound split: option.splits json.splits if_splits)

lemma inbound_part_bound: "inbound_part lib p = Inr (Some s) \<Longrightarrow> bounded_text lib s"
  by (auto simp: inbound_part_def leaf_text_bound split: json.splits option.splits if_splits)

lemma first_text_mem: "first_text rs = Inr s \<Longrightarrow> s = [] \<or> Inr (Some s) \<in> set rs"
  by (induction rs rule: first_text.induct) auto

lemma email_body_bound:
  assumes "get_email_body lib payload = Inr s"
  shows "bounded_text lib s"
proof -
  have "s = [] \<or> Inr (Some s) \<in> inbound_part lib ` set (take MAX_INBOUND_MIME_PARTS
      (stack_parts MAX_INBOUND_MIME_PART_DEPTH [([JObj payload], 0)]))"
    using first_text_mem assms unfolding get_email_body_def body_stack_preorder by fastforce
  then show ?thesis using inbound_part_bound by (metis imageE bounded_text_def)
qed

lemma extractD:
  assumes "extract_email_content lib m = Inr c"
  obtains raw kvs payload headers labels where "m = JObj kvs" "map_of kvs ''payload'' = Some (JObj payload)"
    "inbound_headers raw [] = Some headers" "inbound_labels (map_of kvs ''labelIds'') = Some labels"
    "get_email_body lib payload = Inr (ic_body c)" "ic_labels c = labels"
    "ic_subject c = header_or ''subject'' ''(No Subject)'' headers" "ic_from c = header_or ''from'' ''Unknown'' headers"
    "ic_to c = header_or ''to'' ''Unknown'' headers" "ic_date c = header_or ''date'' ''Unknown'' headers"
proof -
  obtain kvs where m: "m = JObj kvs" using assms by (cases m) (simp_all add: extract_email_content_def)
  obtain payload where p: "map_of kvs ''payload'' = Some (JObj payload)"
    using assms by (auto simp: m extract_email_content_def Let_def split: option.splits json.splits)
  obtain raw where r: "map_of payload ''headers'' = Some (JArr raw)" "\<not> length raw > MAX_INBOUND_HEADERS"
    using assms by (auto simp: m p extract_email_content_def Let_def split: option.splits json.splits if_splits)
  show thesis
    using assms that [of kvs payload raw]
    by (simp add: m p r extract_email_content_def Let_def split: option.splits sum.splits) auto
qed

section \<open>Properties\<close>

text \<open>
  C36. The explicit-stack loops agree with a plain recursive traversal: the reader for the mail API
  visits exactly the objects among the first 512 parts in document order down to depth 32, and the
  triage reader returns the first non-empty text among the same parts, or raises at the first
  malformed one.
\<close>

theorem mime_loops_are_preorder:
  "walk_parts (Some (JObj payload)) = objects (take 512 (preorder 32 (JObj payload))) \<and>
   get_email_body lib payload = first_text (map (inbound_part lib) (take 512 (preorder 32 (JObj payload))))"
proof -
  have "stack_parts 32 [([JObj payload], 0)] = preorder 32 (JObj payload)" by (simp add: stack_parts_def)
  then show ?thesis
    by (simp add: walk_parts_def get_email_body_def walk_stack_preorder body_stack_preorder MAX_MIME_PARTS_def
        MAX_MIME_PART_DEPTH_def MAX_INBOUND_MIME_PARTS_def MAX_INBOUND_MIME_PART_DEPTH_def del: stack_parts_simps)
qed

text \<open>
  Whatever the provider returns, what reaches triage is bounded: four header values of at most
  4096 characters, at most 100 non-empty labels of at most 128 characters, and a body decoded from
  at most 256 KiB.
\<close>

lemma inbound_content_bounded:
  assumes "extract_email_content lib message = Inr c"
  shows "length (ic_subject c) \<le> 4096 \<and> length (ic_from c) \<le> 4096 \<and> length (ic_to c) \<le> 4096 \<and>
    length (ic_date c) \<le> 4096 \<and> length (ic_labels c) \<le> 100 \<and>
    list_all (\<lambda>l. l \<noteq> [] \<and> length l \<le> 128) (ic_labels c) \<and>
    (ic_body c = [] \<or> (\<exists>bytes. length bytes \<le> 262144 \<and> ic_body c = ml_utf8_replace lib bytes))"
proof -
  obtain raw kvs payload headers labels where e: "inbound_headers raw [] = Some headers"
    "inbound_labels (map_of kvs ''labelIds'') = Some labels" "get_email_body lib payload = Inr (ic_body c)"
    "ic_labels c = labels" "ic_subject c = header_or ''subject'' ''(No Subject)'' headers"
    "ic_from c = header_or ''from'' ''Unknown'' headers" "ic_to c = header_or ''to'' ''Unknown'' headers"
    "ic_date c = header_or ''date'' ''Unknown'' headers"
    using extractD [OF assms] by metis
  have "list_all (\<lambda>h. length (snd h) \<le> MAX_HEADER_VALUE_CHARS) headers"
    using inbound_headers_bound [OF e(1)] by simp
  then have h: "length (header_or n f headers) \<le> MAX_HEADER_VALUE_CHARS" if "length f \<le> MAX_HEADER_VALUE_CHARS" for n f
    using header_or_bound that by blast
  show ?thesis
    using h [of "''(No Subject)''"] h [of "''Unknown''"] e(4-8) inbound_labels_bound [OF e(2)] email_body_bound [OF e(3)]
    by (simp add: MAX_HEADER_VALUE_CHARS_def MAX_INBOUND_LABELS_def MAX_INBOUND_LABEL_CHARS_def bounded_text_def
        MAX_BODY_BYTES_def)
qed

definition demo_message :: json where
  "demo_message = JObj [(''id'', JStr ''m1''), (''labelIds'', JArr [JStr ''INBOX'']),
     (''payload'', JObj [(''headers'', JArr [JObj [(''name'', JStr ''Subject''), (''value'', JStr ''Hi'')]]),
        (''mimeType'', JStr ''text/plain''), (''body'', JObj [(''data'', JStr ''SGk'')])])]"

lemma demo_message_content:
  "extract_email_content demo_mime_lib demo_message = Inr \<lparr>ic_id = JStr ''m1'', ic_threadId = JStr [], ic_subject = ''Hi'',
     ic_from = ''Unknown'', ic_to = ''Unknown'', ic_date = ''Unknown'', ic_labels = [''INBOX''], ic_body = ''Hi''\<rparr>"
  by (simp add: extract_email_content_def demo_message_def header_pair_def inbound_labels_def inbound_label_def
      get_email_body_def leaf_text_def header_or_def field_or_empty_def TRIAGE_HEADERS_def decode_base64url_text_def
      b64decode_validate_def b64_value_def MAX_BODY_BYTES_def MAX_INBOUND_MIME_PARTS_def MAX_INBOUND_HEADERS_def
      MAX_INBOUND_HEADER_NAME_CHARS_def MAX_HEADER_VALUE_CHARS_def MAX_INBOUND_LABELS_def MAX_INBOUND_LABEL_CHARS_def
      mime_eval)

lemma inbound_content_bounded_witness:
  "\<exists>c. extract_email_content demo_mime_lib demo_message = Inr c \<and> ic_body c \<noteq> [] \<and> length (ic_subject c) \<le> 4096"
  using inbound_content_bounded [OF demo_message_content] demo_message_content by auto

end
