(* ===== verification/Agent_Tools.thy ===== *)
theory Agent_Tools
  imports Pending_Actions
begin

text \<open>
  Tool authorisation and the tools of the agents (\<open>server/agent_policy.py\<close>,
  \<open>server/agent_tools.py\<close>, \<open>tools/llm_tools.py\<close>). The tools act on a world that
  holds the pending-action tables, the history of Gmail reads that resolve reply targets, and the
  calls that the other tools hand to the Google adapter; \<open>te_answer\<close> is what the adapter
  returns for such a call. Zones, calendar days and Python's \<open>str\<close> are parameters.
\<close>

section \<open>Policies\<close>

datatype agent_run_kind = AUTOMATED_INBOUND | INTERACTIVE_EXECUTIVE | INTERACTIVE_STREAM

datatype agent_tool =
    CREATE_DRAFT | MARK_AS_READ | SEND_EMAIL | SEND_REPLY | CREATE_EVENT | CREATE_TASK | GET_CALENDAR_EVENTS

fun tool_value :: "agent_tool \<Rightarrow> str" where
  "tool_value CREATE_DRAFT = ''create_draft''"
| "tool_value MARK_AS_READ = ''mark_as_read''"
| "tool_value SEND_EMAIL = ''send_email''"
| "tool_value SEND_REPLY = ''send_reply_to_user''"
| "tool_value CREATE_EVENT = ''create_event''"
| "tool_value CREATE_TASK = ''create_task''"
| "tool_value GET_CALENDAR_EVENTS = ''get_calendar_events''"

definition all_tools :: "agent_tool list" where
  "all_tools = [CREATE_DRAFT, MARK_AS_READ, SEND_EMAIL, SEND_REPLY, CREATE_EVENT, CREATE_TASK, GET_CALENDAR_EVENTS]"

text \<open>The enumeration's constructor call: \<open>None\<close> is its \<open>ValueError\<close>.\<close>

definition agent_tool_of :: "str \<Rightarrow> agent_tool option" where
  "agent_tool_of name = find (\<lambda>t. tool_value t = name) all_tools"

definition PRIMARY_MUTATION_TOOLS :: "agent_tool list" where
  "PRIMARY_MUTATION_TOOLS = [CREATE_DRAFT, MARK_AS_READ, SEND_EMAIL, SEND_REPLY, CREATE_EVENT, CREATE_TASK]"

record agent_tool_policy =
  run_kind :: agent_run_kind
  allowed_tools :: "agent_tool list"
  max_primary_mutations :: int

definition policy_allows :: "agent_tool_policy \<Rightarrow> str \<Rightarrow> bool" where
  "policy_allows policy name = (case agent_tool_of name of None \<Rightarrow> False | Some t \<Rightarrow> t \<in> set (allowed_tools policy))"

definition is_primary_mutation :: "str \<Rightarrow> bool" where
  "is_primary_mutation name = (case agent_tool_of name of None \<Rightarrow> False | Some t \<Rightarrow> t \<in> set PRIMARY_MUTATION_TOOLS)"

definition AUTOMATED_INBOUND_POLICY :: agent_tool_policy where
  "AUTOMATED_INBOUND_POLICY = \<lparr>run_kind = AUTOMATED_INBOUND, allowed_tools = [], max_primary_mutations = 0\<rparr>"

definition INTERACTIVE_EXECUTIVE_POLICY :: agent_tool_policy where
  "INTERACTIVE_EXECUTIVE_POLICY = \<lparr>run_kind = INTERACTIVE_EXECUTIVE, allowed_tools = all_tools, max_primary_mutations = 1\<rparr>"

definition INTERACTIVE_STREAM_POLICY :: agent_tool_policy where
  "INTERACTIVE_STREAM_POLICY = \<lparr>run_kind = INTERACTIVE_STREAM, allowed_tools = [SEND_EMAIL, CREATE_TASK],
     max_primary_mutations = 1\<rparr>"

section \<open>World and parameters\<close>

datatype tool_call =
    DraftsCreate str
  | MessagesModify json
  | EventsList str str

record calendar_lib =
  cl_zone :: "str \<Rightarrow> bool option"
  cl_day :: "str \<Rightarrow> str \<Rightarrow> (str \<times> str) option"
  cl_format :: "str \<Rightarrow> json \<Rightarrow> str"
  cl_str :: "json \<Rightarrow> str"

record agent_world =
  aw_db :: action_db
  aw_history :: history
  aw_calls :: "tool_call list"
  aw_ticks :: nat

record tool_env =
  te_lib :: action_lib
  te_services :: services
  te_interfere :: "nat \<Rightarrow> action_db \<Rightarrow> action_db"
  te_clock :: "nat \<Rightarrow> clock"
  te_new_id :: "nat \<Rightarrow> uuid"
  te_issue :: "nat \<Rightarrow> str"
  te_msgid :: "nat \<Rightarrow> str"
  te_answer :: "tool_call list \<Rightarrow> tool_call \<Rightarrow> op_failure + json"
  te_calendar :: calendar_lib

text \<open>The values that \<open>partial\<close> fixes in every bound tool of a run.\<close>

record tool_binding =
  tb_user_id :: str
  tb_email :: str
  tb_timezone :: str

text \<open>What the awaited tool gives back; \<open>ToolRaised\<close> is any exception.\<close>

datatype tool_outcome = ToolRaised | ToolResult json

type_synonym call_arguments = "(str \<times> json) list"

section \<open>The registry\<close>

definition PENDING_ACTION_TOOL_NAMES :: "str list" where
  "PENDING_ACTION_TOOL_NAMES = map tool_value [SEND_EMAIL, SEND_REPLY, CREATE_EVENT, CREATE_TASK]"

definition tool_objects :: "agent_tool_policy \<Rightarrow> str list \<Rightarrow> str list" where
  "tool_objects policy bindings = filter (\<lambda>n. n \<in> set bindings) (map tool_value (allowed_tools policy))"

definition bind_executive_tools :: "agent_tool_policy \<Rightarrow> bool \<Rightarrow> bool \<Rightarrow> bool \<Rightarrow> str \<Rightarrow> str list" where
  "bind_executive_tools policy gmail calendar tasks current_user_email =
     tool_objects policy
       ((if gmail \<and> current_user_email \<noteq> [] then map tool_value [CREATE_DRAFT, MARK_AS_READ, SEND_EMAIL, SEND_REPLY] else []) @
        (if calendar then map tool_value [CREATE_EVENT, GET_CALENDAR_EVENTS] else []) @
        (if tasks then [tool_value CREATE_TASK] else []))"

definition bind_stream_tools :: "agent_tool_policy \<Rightarrow> str \<Rightarrow> str list" where
  "bind_stream_tools policy current_user_email =
     tool_objects policy (tool_value CREATE_TASK # (if current_user_email \<noteq> [] then [tool_value SEND_EMAIL] else []))"

text \<open>Python's binding of keyword arguments to the parameters that \<open>partial\<close> left open.\<close>

definition accepts :: "str list \<Rightarrow> str list \<Rightarrow> call_arguments \<Rightarrow> bool" where
  "accepts required optional args \<longleftrightarrow>
     distinct (map fst args) \<and> set required \<subseteq> fst ` set args \<and> fst ` set args \<subseteq> set (required @ optional)"

fun tool_signature :: "agent_tool \<Rightarrow> str list \<times> str list" where
  "tool_signature SEND_EMAIL = ([''recipient_email'', ''subject'', ''email_body''], [])"
| "tool_signature CREATE_DRAFT = ([''recipient_email'', ''subject'', ''email_body''], [])"
| "tool_signature CREATE_EVENT = ([''title'', ''start_time_iso'', ''end_time_iso'', ''event_timezone''],
     [''description'', ''location'', ''attendee_emails''])"
| "tool_signature CREATE_TASK = ([''title'', ''notes''], [])"
| "tool_signature MARK_AS_READ = ([''message_id''], [])"
| "tool_signature SEND_REPLY = ([''recipient_email'', ''subject_filter'', ''reply_message''], [])"
| "tool_signature GET_CALENDAR_EVENTS = ([''date_strs''], [''target_timezone''])"

definition validate_tool_arguments :: "agent_tool \<Rightarrow> call_arguments \<Rightarrow> bool" where
  "validate_tool_arguments t args = (case tool_signature t of (required, optional) \<Rightarrow> accepts required optional args)"

definition arg :: "str \<Rightarrow> call_arguments \<Rightarrow> json" where
  "arg k args = the (map_of args k)"

definition arg_or :: "str \<Rightarrow> json \<Rightarrow> call_arguments \<Rightarrow> json" where
  "arg_or k v args = (case map_of args k of None \<Rightarrow> v | Some w \<Rightarrow> w)"

section \<open>Staging tools\<close>

fun status_text :: "action_status \<Rightarrow> str" where
  "status_text PENDING = ''pending''"
| "status_text PROCESSING = ''processing''"
| "status_text SUCCEEDED = ''succeeded''"
| "status_text FAILED = ''failed''"
| "status_text REJECTED = ''rejected''"
| "status_text EXPIRED = ''expired''"
| "status_text RECONCILIATION_REQUIRED = ''reconciliation_required''"

definition action_request_response :: "action_lib \<Rightarrow> action_view \<Rightarrow> json" where
  "action_request_response lib v = JObj
     [(''status'', JStr (if av_status v = PENDING then ''pending_approval'' else status_text (av_status v))),
      (''action_id'', JStr (str_of_uuid (al_page lib) (av_id v))), (''action_type'', JStr (av_action_type v)),
      (''summary'', JStr (av_summary v)), (''expires_at'', JStr (isoformat (al_page lib) (av_expires_at v)))]"

definition stage :: "tool_env \<Rightarrow> str \<Rightarrow> str \<Rightarrow> payload \<Rightarrow> str \<Rightarrow> agent_world \<Rightarrow> tool_outcome \<times> agent_world" where
  "stage env user_id action_type payload command_key w =
     (let n = aw_ticks w in
      case create_pending_action (te_lib env) (te_interfere env n) (te_clock env n) (te_new_id env n)
             user_id action_type payload command_key (aw_db w) of
        (r, db) \<Rightarrow>
          ((case r of Inl _ \<Rightarrow> ToolRaised | Inr v \<Rightarrow> ToolResult (action_request_response (te_lib env) v)),
           w\<lparr>aw_db := db, aw_ticks := n + 1\<rparr>))"

definition all_strs :: "json list \<Rightarrow> str list option" where
  "all_strs js = (if list_all (\<lambda>j. case j of JStr _ \<Rightarrow> True | _ \<Rightarrow> False) js
     then Some (map (\<lambda>j. case j of JStr s \<Rightarrow> s | _ \<Rightarrow> []) js) else None)"

text \<open>
  \<open>sorted(attendee_emails or [])\<close>: \<open>None\<close> stands for the exception of the sorting or,
  for a list with other elements than text, of the payload validation right after it.
\<close>

definition sorted_attendees :: "json \<Rightarrow> json option" where
  "sorted_attendees a =
     (if \<not> truthy (Some a) then Some (JArr [])
      else case a of
        JArr js \<Rightarrow> map_option (\<lambda>ss. JArr (map JStr (sort ss))) (all_strs js)
      | JStr s \<Rightarrow> Some (JArr (map (\<lambda>c. JStr [c]) (sort s)))
      | JObj kvs \<Rightarrow> Some (JArr (map JStr (sort (map fst kvs))))
      | _ \<Rightarrow> None)"

definition create_event_tool where
  "create_event_tool env user_id args command_key w =
     (case sorted_attendees (arg_or ''attendee_emails'' JNull args) of
        None \<Rightarrow> (ToolRaised, w)
      | Some attendees \<Rightarrow>
          stage env user_id ''create_event''
            [(''title'', arg ''title'' args), (''start_time_iso'', arg ''start_time_iso'' args),
             (''end_time_iso'', arg ''end_time_iso'' args), (''event_timezone'', arg ''event_timezone'' args),
             (''description'', arg_or ''description'' (JStr []) args), (''location'', arg_or ''location'' (JStr []) args),
             (''attendee_emails'', attendees)] command_key w)"

definition create_task_tool where
  "create_task_tool env user_id args command_key w =
     stage env user_id ''create_task'' [(''title'', arg ''title'' args), (''notes'', arg ''notes'' args)] command_key w"

definition send_email_tool where
  "send_email_tool env user_id current_user_email args command_key w =
     stage env user_id ''send_email''
       [(''sender_email'', JStr current_user_email), (''recipient_email'', arg ''recipient_email'' args),
        (''subject'', arg ''subject'' args), (''email_body'', arg ''email_body'' args)] command_key w"

text \<open>
  The recipient is interpolated into the query whatever its type; a filter that is not text is
  ignored when it is false and otherwise fails on \<open>replace\<close>.
\<close>

definition filter_text :: "json \<Rightarrow> str option" where
  "filter_text j = (case j of JStr s \<Rightarrow> Some s | _ \<Rightarrow> if truthy (Some j) then None else Some [])"

definition send_reply_to_user_tool where
  "send_reply_to_user_tool env user_id current_user_email args command_key w =
     (case filter_text (arg ''subject_filter'' args) of
        None \<Rightarrow> (ToolRaised, w)
      | Some subject_filter \<Rightarrow>
          (case resolve_reply_target (al_handler (te_lib env)) (te_services env)
                  (cl_str (te_calendar env) (arg ''recipient_email'' args)) subject_filter (aw_history w) of
             (r, h) \<Rightarrow>
               let w1 = w\<lparr>aw_history := h\<rparr> in
               (case r of
                  Inl _ \<Rightarrow> (ToolRaised, w1)
                | Inr frozen_target \<Rightarrow>
                    stage env user_id ''send_reply''
                      ((''sender_email'', JStr current_user_email) # frozen_target @
                       [(''reply_message'', arg ''reply_message'' args)]) command_key w1)))"

section \<open>Immediate tools\<close>

definition adapter_call :: "tool_env \<Rightarrow> tool_call \<Rightarrow> agent_world \<Rightarrow> (op_failure + json) \<times> agent_world" where
  "adapter_call env c w = (te_answer env (aw_calls w) c, w\<lparr>aw_calls := aw_calls w @ [c], aw_ticks := aw_ticks w + 1\<rparr>)"

definition create_draft_tool where
  "create_draft_tool env current_user_email args w =
     (case (arg ''recipient_email'' args, arg ''subject'' args, arg ''email_body'' args) of
        (JStr recipient_email, JStr subject, JStr email_body) \<Rightarrow>
          (case create_raw_message (al_handler (te_lib env)) current_user_email [recipient_email] subject email_body
                  (te_msgid env (aw_ticks w)) [] of
             Inl _ \<Rightarrow> (ToolRaised, w)
           | Inr raw \<Rightarrow>
               (case adapter_call env (DraftsCreate raw) w of
                  (Inl (GoogleFailure _), w1) \<Rightarrow> (ToolResult (JBool False), w1)
                | (Inl (Propagated _), w1) \<Rightarrow> (ToolRaised, w1)
                | (Inr draft_result, w1) \<Rightarrow>
                    if \<not> truthy (Some draft_result) then (ToolResult (JBool False), w1)
                    else if is_jobj draft_result then (ToolResult (JBool (truthy (jget ''id'' draft_result))), w1)
                    else (ToolRaised, w1)))
      | _ \<Rightarrow> (ToolRaised, w))"

definition mark_as_read_tool where
  "mark_as_read_tool env args w =
     (case adapter_call env (MessagesModify (arg ''message_id'' args)) w of
        (Inl (GoogleFailure _), w1) \<Rightarrow> (ToolResult (JBool False), w1)
      | (Inl (Propagated _), w1) \<Rightarrow> (ToolRaised, w1)
      | (Inr _, w1) \<Rightarrow> (ToolResult (JBool True), w1))"

definition dict_get_or :: "str \<Rightarrow> json \<Rightarrow> json \<Rightarrow> json option" where
  "dict_get_or k v j = (if is_jobj j then Some (case jget k j of None \<Rightarrow> v | Some x \<Rightarrow> x) else None)"

text \<open>One line of the report for an event; \<open>None\<close> is an exception.\<close>

definition event_line :: "calendar_lib \<Rightarrow> str \<Rightarrow> json \<Rightarrow> str option" where
  "event_line cl tz event =
     (case (dict_get_or ''summary'' (JStr ''No Title'') event, dict_get_or ''start'' (JObj []) event,
            dict_get_or ''end'' (JObj []) event) of
        (Some summary, Some start_data, Some end_data) \<Rightarrow>
          if \<not> is_jobj start_data then None
          else if jget ''dateTime'' start_data \<noteq> None then
            (case (jget ''dateTime'' start_data, jget ''dateTime'' end_data) of
               (Some s, Some e) \<Rightarrow> Some (''- '' @ cl_str cl summary @ '' (from '' @ cl_format cl tz s @ '' to '' @ cl_format cl tz e @ '')'')
             | _ \<Rightarrow> None)
          else if jget ''date'' start_data \<noteq> None then
            Some (''- '' @ cl_str cl summary @ '' (All day on '' @ cl_str cl (the (jget ''date'' start_data)) @ '')'')
          else Some (''- '' @ cl_str cl summary @ '' (Time information unavailable)'')
      | _ \<Rightarrow> None)"

fun traverse_opt :: "('a \<Rightarrow> 'b option) \<Rightarrow> 'a list \<Rightarrow> 'b list option" where
  "traverse_opt f [] = Some []"
| "traverse_opt f (x # xs) =
     (case f x of None \<Rightarrow> None | Some y \<Rightarrow> map_option ((#) y) (traverse_opt f xs))"

definition day_report :: "calendar_lib \<Rightarrow> str \<Rightarrow> str \<Rightarrow> json \<Rightarrow> str option" where
  "day_report cl tz date_str events_result =
     (case dict_get_or ''items'' (JArr []) events_result of
        None \<Rightarrow> None
      | Some events \<Rightarrow>
          if \<not> truthy (Some events) then Some ''No events found for this day.''
          else case events of
            JArr es \<Rightarrow> map_option (\<lambda>ls. join [CHR 0x0A] ((''Events for '' @ date_str @ '':'') # ls))
                         (traverse_opt (event_line cl tz) es)
          | _ \<Rightarrow> None)"

text \<open>A later result for the same date replaces the earlier one.\<close>

definition put_result :: "str \<Rightarrow> str \<Rightarrow> (str \<times> json) list \<Rightarrow> (str \<times> json) list" where
  "put_result k v rs = (if map_of rs k = None then rs @ [(k, JStr v)] else map (\<lambda>(a, b). if a = k then (a, JStr v) else (a, b)) rs)"

fun calendar_loop ::
  "tool_env \<Rightarrow> str \<Rightarrow> json list \<Rightarrow> (str \<times> json) list \<Rightarrow> agent_world \<Rightarrow> tool_outcome \<times> agent_world" where
  "calendar_loop env tz [] results w = (ToolResult (JObj results), w)"
| "calendar_loop env tz (JStr date_str # ds) results w =
     (case cl_day (te_calendar env) tz date_str of
        None \<Rightarrow> calendar_loop env tz ds (put_result date_str (''Invalid date format. Use '' @ [CHR 0x27] @ ''dd-mm-yyyy'' @ [CHR 0x27] @ ''.'') results) w
      | Some (time_min, time_max) \<Rightarrow>
          (case adapter_call env (EventsList time_min time_max) w of
             (Inl (GoogleFailure _), w1) \<Rightarrow>
               calendar_loop env tz ds (put_result date_str ''Calendar service is temporarily unavailable.'' results) w1
           | (Inl (Propagated _), w1) \<Rightarrow> (ToolRaised, w1)
           | (Inr events_result, w1) \<Rightarrow>
               (case day_report (te_calendar env) tz date_str events_result of
                  None \<Rightarrow> (ToolRaised, w1)
                | Some report \<Rightarrow> calendar_loop env tz ds (put_result date_str report results) w1)))"
| "calendar_loop env tz (_ # ds) results w = (ToolRaised, w)"

text \<open>
  Iterating over a value: the items of a list, the characters of a text, the keys of an object; other
  values raise. A key of another type than text in the report of an unknown zone counts as an
  exception too.
\<close>

definition py_iter :: "json \<Rightarrow> json list option" where
  "py_iter j = (case j of JArr js \<Rightarrow> Some js | JStr s \<Rightarrow> Some (map (\<lambda>c. JStr [c]) s)
     | JObj kvs \<Rightarrow> Some (map (\<lambda>(k, _). JStr k) kvs) | _ \<Rightarrow> None)"

definition get_calendar_events_tool where
  "get_calendar_events_tool env bound_timezone args w =
     (case arg_or ''target_timezone'' (JStr bound_timezone) args of
        JStr tz \<Rightarrow>
          (case cl_zone (te_calendar env) tz of
             None \<Rightarrow> (ToolRaised, w)
           | Some known \<Rightarrow>
               (case py_iter (arg ''date_strs'' args) of
                  None \<Rightarrow> (ToolRaised, w)
                | Some ds \<Rightarrow>
                    if known then calendar_loop env tz ds [] w
                    else (case all_strs ds of
                            None \<Rightarrow> (ToolRaised, w)
                          | Some ss \<Rightarrow> (ToolResult (JObj (fold (\<lambda>d. put_result d ''Invalid timezone'') ss [])), w))))
      | _ \<Rightarrow> (ToolRaised, w))"

section \<open>Calling a bound tool\<close>

definition call_tool ::
  "tool_env \<Rightarrow> tool_binding \<Rightarrow> agent_tool \<Rightarrow> call_arguments \<Rightarrow> str \<Rightarrow> agent_world \<Rightarrow> tool_outcome \<times> agent_world" where
  "call_tool env b t args command_key w =
     (if \<not> validate_tool_arguments t args then (ToolRaised, w)
      else case t of
        CREATE_DRAFT \<Rightarrow> create_draft_tool env (tb_email b) args w
      | MARK_AS_READ \<Rightarrow> mark_as_read_tool env args w
      | SEND_EMAIL \<Rightarrow> send_email_tool env (tb_user_id b) (tb_email b) args command_key w
      | SEND_REPLY \<Rightarrow> send_reply_to_user_tool env (tb_user_id b) (tb_email b) args command_key w
      | CREATE_EVENT \<Rightarrow> create_event_tool env (tb_user_id b) args command_key w
      | CREATE_TASK \<Rightarrow> create_task_tool env (tb_user_id b) args command_key w
      | GET_CALENDAR_EVENTS \<Rightarrow> get_calendar_events_tool env (tb_timezone b) args w)"

end
