(* ===== verification/Agents.thy ===== *)
theory Agents
  imports Agent_Tools Action_Safety "HOL-Library.AList"
begin

text \<open>
  The agent runs (\<open>agents.py\<close>): the turn loop of the executive agent with its tool
  authorisation and mutation budget, and the streaming agent. The language model is an oracle:
  \<open>generate\<close> answers from the turn number and everything returned to it before, and a stream
  is a list of chunks that may end in a provider error. A model answer is arbitrary, so every
  statement below covers prompt injection.
\<close>

section \<open>Model answers\<close>

datatype call_args = NoArgs | ArgsMapping call_arguments | ArgsOther

text \<open>\<open>fc_name = None\<close> is a name that is not text.\<close>

record function_call =
  fc_id :: "str option"
  fc_name :: "str option"
  fc_args :: call_args

record response_part =
  rp_text :: "str option"
  rp_call :: "function_call option"

record llm_response =
  lr_parts :: "response_part list option"
  lr_text :: "str option"

datatype llm_error = LlmOperationTimeout | LlmOperationUnavailable | LlmOperationInternal

definition candidate_function_calls :: "llm_response \<Rightarrow> function_call list" where
  "candidate_function_calls response =
     (case lr_parts response of None \<Rightarrow> [] | Some ps \<Rightarrow> List.map_filter rp_call ps)"

definition candidate_text :: "llm_response \<Rightarrow> str" where
  "candidate_text response =
     (let text = (case lr_parts response of None \<Rightarrow> [] | Some ps \<Rightarrow> concat (List.map_filter rp_text ps)) in
      if text \<noteq> [] then text
      else case lr_text response of
        Some t \<Rightarrow> if t \<noteq> [] then t else ''I could not generate a response.''
      | None \<Rightarrow> ''I could not generate a response.'')"

section \<open>Profile\<close>

record user_profile =
  full_name :: str
  title_text :: str
  timezone_name :: str
  priority_contacts :: "str list"
  background :: str
  schedule_preferences :: str
  response_preferences :: str

definition text_or :: "json option \<Rightarrow> str \<Rightarrow> str" where
  "text_or value fallback = (case value of Some (JStr s) \<Rightarrow> if strip s \<noteq> [] then strip s else fallback | _ \<Rightarrow> fallback)"

definition profile_from_config :: "(str \<times> json) list \<Rightarrow> user_profile" where
  "profile_from_config config =
     \<lparr>full_name = text_or (map_of config ''full_name'') ''Account owner'',
      title_text = text_or (map_of config ''title'') [],
      timezone_name = text_or (map_of config ''timezone'') ''UTC'',
      priority_contacts = (case map_of config ''important_contacts'' of
         Some (JArr js) \<Rightarrow> List.map_filter (\<lambda>j. case j of JStr s \<Rightarrow> Some s | _ \<Rightarrow> None) js | _ \<Rightarrow> []),
      background = text_or (map_of config ''background'') ''No profile background provided.'',
      schedule_preferences = text_or (map_of config ''schedule_preferences'') ''No scheduling preferences provided.'',
      response_preferences = text_or (map_of config ''response_preferences'') ''Be concise and professional.''\<rparr>"

section \<open>Command keys\<close>

record run_state =
  rs_world :: agent_world
  rs_command_keys :: "(str \<times> str) list"
  rs_issued :: nat
  rs_mutation_count :: int

text \<open>A key is issued for every call; an identity that has one already keeps it.\<close>

definition command_key_for_tool_call ::
  "tool_env \<Rightarrow> str \<Rightarrow> function_call \<Rightarrow> run_state \<Rightarrow> str \<times> run_state" where
  "command_key_for_tool_call env scope call st =
     (let identity = (case fc_id call of Some i \<Rightarrow> if i \<noteq> [] then ''provider:'' @ i else scope | None \<Rightarrow> scope);
          fresh = te_issue env (rs_issued st);
          st1 = st\<lparr>rs_issued := rs_issued st + 1\<rparr>
      in case map_of (rs_command_keys st) identity of
           Some key \<Rightarrow> (key, st1)
         | None \<Rightarrow> (fresh, st1\<lparr>rs_command_keys := rs_command_keys st @ [(identity, fresh)]\<rparr>))"

section \<open>The executive agent\<close>

datatype tool_part = ToolPart str json

definition tool_error :: "str \<Rightarrow> str \<Rightarrow> tool_part" where
  "tool_error name code = ToolPart name (JObj [(''error'', JStr code)])"

definition approval_message :: "json option \<Rightarrow> (json \<Rightarrow> str) \<Rightarrow> str" where
  "approval_message action_id py_str =
     ''Approval required. Approve action '' @ (case action_id of None \<Rightarrow> ''None'' | Some j \<Rightarrow> py_str j) @ '' to continue.''"

text \<open>What one finished tool call means for the run: a terminal message or a response part.\<close>

definition after_tool :: "(json \<Rightarrow> str) \<Rightarrow> str \<Rightarrow> json \<Rightarrow> str + tool_part" where
  "after_tool py_str name result =
     (if is_jobj result \<and> jget ''status'' result = Some (JStr ''pending_approval'')
      then Inl (approval_message (jget ''action_id'' result) py_str)
      else if name = tool_value CREATE_DRAFT then
        Inl (if result = JBool True then ''Draft created for your review.'' else ''I could not create the draft. Please try again.'')
      else if name = tool_value MARK_AS_READ then
        Inl (if result = JBool True then ''Message marked as read.''
             else ''I could not mark the message as read. Please try again.'')
      else Inr (ToolPart name (JObj [(''result'', result)])))"

definition drop_key :: "str \<Rightarrow> call_arguments \<Rightarrow> call_arguments" where
  "drop_key k args = filter (\<lambda>(a, _). a \<noteq> k) args"

text \<open>The scope of a call without a provider id.\<close>

definition executive_scope :: "nat \<Rightarrow> nat \<Rightarrow> str \<Rightarrow> str" where
  "executive_scope turn index name = ''executive:'' @ str_nat turn @ '':'' @ str_nat index @ '':'' @ name"

text \<open>
  One call of the loop. The left result is a \<open>TypeError\<close> from arguments that are no mapping,
  which leaves the loop; the right one is what is appended, or the terminal message.
\<close>

definition execute_tool_call ::
  "tool_env \<Rightarrow> tool_binding \<Rightarrow> agent_tool_policy \<Rightarrow> str list \<Rightarrow> nat \<Rightarrow> nat \<Rightarrow> function_call \<Rightarrow> run_state \<Rightarrow>
   (unit + (str + tool_part)) \<times> run_state" where
  "execute_tool_call env b policy available turn index call st =
     (case fc_name call of
        None \<Rightarrow> (Inr (Inr (tool_error ''unknown'' ''tool_not_authorized'')), st)
      | Some name \<Rightarrow>
          if \<not> policy_allows policy name \<or> name \<notin> set available
          then (Inr (Inr (tool_error name ''tool_not_authorized'')), st)
          else if is_primary_mutation name \<and> rs_mutation_count st \<ge> max_primary_mutations policy
          then (Inr (Inr (tool_error name ''mutation_limit_reached'')), st)
          else
            let st1 = (if is_primary_mutation name then st\<lparr>rs_mutation_count := rs_mutation_count st + 1\<rparr> else st) in
            (case fc_args call of
               ArgsOther \<Rightarrow> (Inl (), st1)
             | a \<Rightarrow>
                 let args = drop_key ''command_key'' (case a of ArgsMapping kvs \<Rightarrow> kvs | _ \<Rightarrow> []);
                     (key, st2) = (if name \<in> set PENDING_ACTION_TOOL_NAMES
                                   then command_key_for_tool_call env (executive_scope turn index name) call st1
                                   else ([], st1))
                 in case call_tool env b (the (agent_tool_of name)) args key (rs_world st2) of
                      (ToolRaised, w) \<Rightarrow> (Inr (Inr (tool_error name ''tool_unavailable'')), st2\<lparr>rs_world := w\<rparr>)
                    | (ToolResult result, w) \<Rightarrow>
                        (Inr (after_tool (cl_str (te_calendar env)) name result), st2\<lparr>rs_world := w\<rparr>)))"

fun execute_tool_calls ::
  "tool_env \<Rightarrow> tool_binding \<Rightarrow> agent_tool_policy \<Rightarrow> str list \<Rightarrow> nat \<Rightarrow> nat \<Rightarrow> function_call list \<Rightarrow> tool_part list \<Rightarrow>
   run_state \<Rightarrow> (unit + (tool_part list \<times> str option)) \<times> run_state" where
  "execute_tool_calls env b policy available turn index [] responses st = (Inr (responses, None), st)"
| "execute_tool_calls env b policy available turn index (call # calls) responses st =
     (case execute_tool_call env b policy available turn index call st of
        (Inl e, st1) \<Rightarrow> (Inl e, st1)
      | (Inr (Inl message), st1) \<Rightarrow> (Inr (responses, Some message), st1)
      | (Inr (Inr part), st1) \<Rightarrow>
          execute_tool_calls env b policy available turn (index + 1) calls (responses @ [part]) st1)"

text \<open>How a run ends: with text, with a provider error, or with the uncaught \<open>TypeError\<close>.\<close>

datatype run_result = RunText str | RunLlmError llm_error | RunTypeError

type_synonym llm_oracle = "nat \<Rightarrow> tool_part list list \<Rightarrow> llm_error + llm_response"

text \<open>The remaining turns are the recursion argument; five are given.\<close>

fun executive_turns ::
  "tool_env \<Rightarrow> tool_binding \<Rightarrow> agent_tool_policy \<Rightarrow> str list \<Rightarrow> llm_oracle \<Rightarrow> nat \<Rightarrow> nat \<Rightarrow> tool_part list list \<Rightarrow> run_state \<Rightarrow>
   run_result \<times> run_state" where
  "executive_turns env b policy available generate 0 turn history st =
     (RunText ''I could not complete the requested action. Please try again with one clear request.'', st)"
| "executive_turns env b policy available generate (Suc n) turn history st =
     (case generate turn history of
        Inl e \<Rightarrow> (RunLlmError e, st)
      | Inr response \<Rightarrow>
          let calls = candidate_function_calls response in
          if calls = [] then (RunText (candidate_text response), st)
          else (case execute_tool_calls env b policy available turn 0 calls [] st of
                  (Inl _, st1) \<Rightarrow> (RunTypeError, st1)
                | (Inr (_, Some message), st1) \<Rightarrow> (RunText message, st1)
                | (Inr (parts, None), st1) \<Rightarrow>
                    executive_turns env b policy available generate n (turn + 1) (history @ [parts]) st1))"

definition new_run :: "agent_world \<Rightarrow> run_state" where
  "new_run w = \<lparr>rs_world = w, rs_command_keys = [], rs_issued = 0, rs_mutation_count = 0\<rparr>"

definition run_executive ::
  "tool_env \<Rightarrow> tool_binding \<Rightarrow> agent_tool_policy \<Rightarrow> bool \<Rightarrow> bool \<Rightarrow> bool \<Rightarrow> llm_oracle \<Rightarrow> agent_world \<Rightarrow> run_result \<times> agent_world" where
  "run_executive env b policy gmail calendar tasks generate w =
     (case executive_turns env b policy (bind_executive_tools policy gmail calendar tasks (tb_email b)) generate 5 0 []
             (new_run w) of
        (r, st) \<Rightarrow> (r, rs_world st))"

section \<open>The streaming agent\<close>

datatype stream_event = Token str | StreamError str str | ToolEvent str

text \<open>A fragment belongs to the selected call when it is that call or has its id.\<close>

fun coalesce :: "nat \<Rightarrow> function_call \<Rightarrow> (nat \<times> function_call) list \<Rightarrow> call_arguments \<Rightarrow> call_arguments option" where
  "coalesce sel call [] assembled = Some assembled"
| "coalesce sel call ((i, fragment) # fragments) assembled =
     (if i \<noteq> sel \<and> fc_id fragment \<noteq> fc_id call then coalesce sel call fragments assembled
      else if i \<noteq> sel \<and> (case fc_name fragment of Some n \<Rightarrow> n \<noteq> [] \<and> fc_name fragment \<noteq> fc_name call | None \<Rightarrow> False)
      then None
      else case fc_args fragment of
        NoArgs \<Rightarrow> coalesce sel call fragments assembled
      | ArgsOther \<Rightarrow> None
      | ArgsMapping kvs \<Rightarrow>
          coalesce sel call fragments (fold (\<lambda>(k, v) a. AList.update k v a) kvs assembled))"

definition coalesce_stream_function_call :: "nat \<Rightarrow> function_call list \<Rightarrow> call_arguments option" where
  "coalesce_stream_function_call sel calls =
     (let call = calls ! sel in
      if (case fc_id call of Some i \<Rightarrow> i \<noteq> [] | None \<Rightarrow> False) then coalesce sel call (enumerate 0 calls) []
      else coalesce sel call [(sel, call)] [])"

definition eligible :: "agent_tool_policy \<Rightarrow> str list \<Rightarrow> function_call \<Rightarrow> bool" where
  "eligible policy available call =
     (case fc_name call of
        None \<Rightarrow> False
      | Some name \<Rightarrow> policy_allows policy name \<and> name \<in> set available \<and> is_primary_mutation name \<and>
          max_primary_mutations policy \<ge> 1)"

text \<open>Text is streamed until the first function call appears.\<close>

fun stream_tokens :: "llm_response list \<Rightarrow> function_call list \<Rightarrow> stream_event list \<times> function_call list" where
  "stream_tokens [] calls = ([], calls)"
| "stream_tokens (chunk # chunks) calls =
     (let calls' = calls @ candidate_function_calls chunk;
          here = (if calls' = [] then (case lr_text chunk of Some t \<Rightarrow> if t \<noteq> [] then [Token t] else [] | None \<Rightarrow> []) else [])
      in case stream_tokens chunks calls' of (events, all) \<Rightarrow> (here @ events, all))"

definition unavailable_event :: stream_event where
  "unavailable_event = StreamError ''The requested tool could not complete. Please try again.'' ''tool_unavailable''"

definition stream_tool ::
  "tool_env \<Rightarrow> tool_binding \<Rightarrow> agent_tool_policy \<Rightarrow> str list \<Rightarrow> function_call list \<Rightarrow> agent_world \<Rightarrow>
   stream_event list \<times> agent_world" where
  "stream_tool env b policy available calls w =
     (if calls = [] then ([], w)
      else case find (\<lambda>i. eligible policy available (calls ! i)) [0..<length calls] of
        None \<Rightarrow> ([StreamError ''The requested tool is not available for this run.'' ''tool_not_authorized''], w)
      | Some sel \<Rightarrow>
          (case coalesce_stream_function_call sel calls of
             None \<Rightarrow> ([unavailable_event], w)
           | Some assembled \<Rightarrow>
               let name = the (fc_name (calls ! sel)); tool = the (agent_tool_of name);
                   args = drop_key ''command_key'' assembled;
                   key = fst (command_key_for_tool_call env (''stream:'' @ name) (calls ! sel) (new_run w))
               in if \<not> validate_tool_arguments tool args then ([unavailable_event], w)
                  else case call_tool env b tool args key w of
                    (ToolRaised, w1) \<Rightarrow> ([unavailable_event], w1)
                  | (ToolResult result, w1) \<Rightarrow>
                      ([if is_jobj result \<and> jget ''status'' result = Some (JStr ''pending_approval'')
                        then ToolEvent (approval_message (jget ''action_id'' result) (cl_str (te_calendar env)))
                        else ToolEvent ''The requested tool completed.''], w1)))"

fun llm_error_event :: "llm_error \<Rightarrow> stream_event" where
  "llm_error_event LlmOperationTimeout = StreamError ''The agent response timed out. Please try again.'' ''llm_timeout''"
| "llm_error_event LlmOperationUnavailable = StreamError ''The agent is temporarily unavailable.'' ''llm_unavailable''"
| "llm_error_event LlmOperationInternal =
     StreamError ''The agent could not complete the stream. Please try again.'' ''llm_internal''"

definition run_stream ::
  "tool_env \<Rightarrow> tool_binding \<Rightarrow> agent_tool_policy \<Rightarrow> llm_response list \<Rightarrow> llm_error option \<Rightarrow> agent_world \<Rightarrow>
   stream_event list \<times> agent_world" where
  "run_stream env b policy chunks failure w =
     (case stream_tokens chunks [] of
        (tokens, calls) \<Rightarrow>
          (case failure of
             Some e \<Rightarrow> (tokens @ [llm_error_event e], w)
           | None \<Rightarrow>
               (case stream_tool env b policy (bind_stream_tools policy (tb_email b)) calls w of
                  (events, w1) \<Rightarrow> (tokens @ events, w1))))"

section \<open>Effects of a run\<close>

fun mutating_call :: "tool_call \<Rightarrow> bool" where
  "mutating_call (EventsList _ _) = False"
| "mutating_call _ = True"

definition staged_for :: "tool_env \<Rightarrow> tool_binding \<Rightarrow> pending_action \<Rightarrow> bool" where
  "staged_for env b a \<longleftrightarrow> pa_status a = PENDING \<and> uuid_of_str (al_page (te_lib env)) (tb_user_id b) = Some (pa_user_id a)"

text \<open>
  What happens to the table while a run stages \<open>n\<close> actions: other sessions may commit
  anything at any of the points where the run waits for the database, and the run itself only inserts
  pending actions of its user.
\<close>

inductive staged_between :: "tool_env \<Rightarrow> tool_binding \<Rightarrow> nat \<Rightarrow> action_db \<Rightarrow> action_db \<Rightarrow> bool" for env b where
  staged_none: "staged_between env b 0 db db"
| staged_others: "staged_between env b n db db1 \<Longrightarrow> staged_between env b n db (te_interfere env k db1)"
| staged_one: "staged_between env b n db db1 \<Longrightarrow> staged_for env b a \<Longrightarrow> insert_action a db1 = Some db2 \<Longrightarrow>
    staged_between env b (Suc n) db db2"

lemma staged_trans:
  assumes "staged_between env b n v w" and "staged_between env b m u v"
  shows "staged_between env b (m + n) u w"
  using assms by (induction rule: staged_between.induct) (auto intro: staged_between.intros)

text \<open>Without other sessions the run only appends: no existing row and no audit record changes.\<close>

lemma staged_alone:
  assumes "staged_between env b n db db'" and "\<And>k. te_interfere env k = id"
  shows "\<exists>new. actions db' = actions db @ new \<and> audits db' = audits db \<and> length new = n \<and> list_all (staged_for env b) new"
  using assms(1)
proof (induction rule: staged_between.induct)
  case (staged_one n db db1 a db2)
  then obtain new where "actions db1 = actions db @ new" "audits db1 = audits db" "length new = n" "list_all (staged_for env b) new"
    by blast
  then show ?case
    using staged_one.hyps(2,3) by (intro exI [of _ "new @ [a]"]) (auto simp: insert_action_def split: if_splits)
qed (use assms(2) in auto)

text \<open>
  At most \<open>n\<close> mutations: pending actions staged for the user, drafts and label changes;
  besides them Gmail saw only reads of the reply resolution, and the other calls are calendar reads.
\<close>

definition agent_effect :: "tool_env \<Rightarrow> tool_binding \<Rightarrow> nat \<Rightarrow> agent_world \<Rightarrow> agent_world \<Rightarrow> bool" where
  "agent_effect env b n w w' \<longleftrightarrow>
     (\<exists>staged calls. staged_between env b staged (aw_db w) (aw_db w') \<and> aw_calls w' = aw_calls w @ calls \<and>
        reads_after (aw_history w) (aw_history w') \<and> staged + length (filter mutating_call calls) \<le> n)"

lemma agent_effect_refl [simp]: "agent_effect env b n w w"
  unfolding agent_effect_def by (intro exI [of _ 0] exI [of _ "[]"]) (simp add: staged_none)

lemma agent_effect_trans:
  assumes "agent_effect env b m u v" and "agent_effect env b n v w" and "m + n \<le> k"
  shows "agent_effect env b k u w"
proof -
  obtain i calls where a: "staged_between env b i (aw_db u) (aw_db v)" "aw_calls v = aw_calls u @ calls"
    "reads_after (aw_history u) (aw_history v)" "i + length (filter mutating_call calls) \<le> m"
    using assms(1) by (auto simp: agent_effect_def)
  obtain j calls' where c: "staged_between env b j (aw_db v) (aw_db w)" "aw_calls w = aw_calls v @ calls'"
    "reads_after (aw_history v) (aw_history w)" "j + length (filter mutating_call calls') \<le> n"
    using assms(2) by (auto simp: agent_effect_def)
  show ?thesis
    unfolding agent_effect_def
    using a c assms(3) reads_after_trans [OF a(3) c(3)] staged_trans [OF c(1) a(1)]
    by (intro exI [of _ "i + j"] exI [of _ "calls @ calls'"]) auto
qed

lemma agent_effect_calls:
  assumes "aw_db w' = aw_db w" and "aw_calls w' = aw_calls w @ calls" and "reads_after (aw_history w) (aw_history w')"
    and "length (filter mutating_call calls) \<le> n"
  shows "agent_effect env b n w w'"
  unfolding agent_effect_def using assms by (intro exI [of _ 0] exI [of _ calls]) (simp add: staged_none)

lemma create_effect:
  assumes "create_pending_action lib interfere ck i u ty p key db = (r, db')"
  shows "db' = db \<or> db' = interfere db \<or> (\<exists>a. pa_status a = PENDING \<and> uuid_of_str (al_page lib) u = Some (pa_user_id a) \<and>
    insert_action a (interfere db) = Some db')"
  using assms by (auto simp: create_pending_action_def new_action_def Let_def split: if_splits option.splits)

lemma stage_effect: "agent_effect env b 1 w (snd (stage env (tb_user_id b) ty p key w))"
proof -
  let ?n = "aw_ticks w"
  obtain r db where c: "create_pending_action (te_lib env) (te_interfere env ?n) (te_clock env ?n) (te_new_id env ?n)
      (tb_user_id b) ty p key (aw_db w) = (r, db)" by fastforce
  have "\<exists>staged \<le> 1. staged_between env b staged (aw_db w) db"
    using create_effect [OF c]
  proof (elim disjE exE conjE)
    fix a assume "pa_status a = PENDING" "uuid_of_str (al_page (te_lib env)) (tb_user_id b) = Some (pa_user_id a)"
      "insert_action a (te_interfere env ?n (aw_db w)) = Some db"
    then have "staged_between env b (Suc 0) (aw_db w) db"
      by (intro staged_one [OF staged_others [OF staged_none]]) (simp_all add: staged_for_def)
    then show ?thesis by auto
  qed (use staged_none staged_others [OF staged_none] in blast)+
  then show ?thesis
    by (auto simp: stage_def c agent_effect_def Let_def intro!: exI [of _ "[]"])
qed

lemma resolve_reads: "reads_after h (snd (resolve_reply_target lib sv r f h))"
proof -
  have read: "reads_after h (snd (call_read sv (MessagesList q t) h))" "reads_after h (snd (call_read sv (MessagesGet i) h))"
    for q t i h by (simp_all add: call_read_reads)
  obtain a h1 where c: "call_read sv (MessagesList (query_for_reply r f) None) h = (a, h1)" by fastforce
  have h1: "reads_after h h1" using read(1) [of h "query_for_reply r f" None] by (simp add: c)
  have h2: "reads_after h h2" if "call_read sv (MessagesGet i) h1 = (v, h2)" for i v h2
    using reads_after_trans [OF h1] read(2) [of h1 i] that by simp
  show ?thesis
    using h1 h2 by (auto simp: resolve_reply_target_def c split: sum.split list.split prod.split)
qed

lemma adapter_effect: "agent_effect env b (if mutating_call c then 1 else 0) w (snd (adapter_call env c w))"
  by (rule agent_effect_calls [of _ _ "[c]"]) (simp_all add: adapter_call_def)

lemma adapter_mutation: "adapter_call env c w = (r, w1) \<Longrightarrow> agent_effect env b 1 w w1"
  using adapter_effect [of env b c w] agent_effect_trans [of env b _ w w1 0 w1 1] by (auto split: if_splits)

lemma adapter_read: "adapter_call env (EventsList s e) w = (r, w1) \<Longrightarrow> agent_effect env b 0 w w1"
  using adapter_effect [of env b "EventsList s e" w] by simp

lemma calendar_effect: "agent_effect env b 0 w (snd (calendar_loop env tz ds rs w))"
proof (induction env tz ds rs w rule: calendar_loop.induct)
  case (2 env tz d ds rs w)
  show ?case
  proof (cases "cl_day (te_calendar env) tz d")
    case (Some bounds)
    obtain s e where b: "bounds = (s, e)" by fastforce
    obtain r w1 where a: "adapter_call env (EventsList s e) w = (r, w1)" by fastforce
    note first = adapter_read [OF a, of b]
    have rest: "agent_effect env b 0 w w2" if "agent_effect env b 0 w1 w2" for w2
      using agent_effect_trans [OF first that] by simp
    show ?thesis
    proof (cases r)
      case (Inl f)
      show ?thesis
      proof (cases f)
        case (GoogleFailure x)
        show ?thesis
          using rest [OF 2(2) [OF Some b [symmetric] a [symmetric] Inl GoogleFailure]]
          by (simp add: Some b a Inl GoogleFailure)
      qed (use first in \<open>simp add: Some b a Inl\<close>)
    next
      case (Inr v)
      show ?thesis
      proof (cases "day_report (te_calendar env) tz d v")
        case (Some report)
        show ?thesis
          using rest [OF 2(3) [OF \<open>cl_day (te_calendar env) tz d = Some bounds\<close> b [symmetric] a [symmetric] Inr Some]]
          by (simp add: \<open>cl_day (te_calendar env) tz d = Some bounds\<close> b a Inr Some)
      qed (use first Some in \<open>simp add: b a Inr\<close>)
    qed
  qed (use 2(1) in simp)
qed simp_all

lemma effect_weaken: "agent_effect env b m w w' \<Longrightarrow> m \<le> n \<Longrightarrow> agent_effect env b n w w'"
  using agent_effect_trans [of env b m w w' 0 w'] by simp

definition mutation_cost :: "agent_tool \<Rightarrow> nat" where
  "mutation_cost t = (if t \<in> set PRIMARY_MUTATION_TOOLS then 1 else 0)"

lemma reply_tool_effect:
  "agent_effect env b 1 w (snd (send_reply_to_user_tool env (tb_user_id b) email args key w))"
proof (cases "filter_text (arg ''subject_filter'' args)")
  case (Some f)
  obtain r h where r: "resolve_reply_target (al_handler (te_lib env)) (te_services env)
      (cl_str (te_calendar env) (arg ''recipient_email'' args)) f (aw_history w) = (r, h)" by fastforce
  have "reads_after (aw_history w) (snd (resolve_reply_target (al_handler (te_lib env)) (te_services env)
      (cl_str (te_calendar env) (arg ''recipient_email'' args)) f (aw_history w)))"
    by (rule resolve_reads)
  then have first: "agent_effect env b 0 w (w\<lparr>aw_history := h\<rparr>)"
    by (intro agent_effect_calls [of _ _ "[]"]) (simp_all add: r)
  show ?thesis
  proof (cases r)
    case (Inr target)
    then show ?thesis
      using agent_effect_trans [OF first stage_effect] by (simp add: send_reply_to_user_tool_def Some r)
  qed (use effect_weaken [OF first] in \<open>simp add: send_reply_to_user_tool_def Some r\<close>)
qed (simp add: send_reply_to_user_tool_def)

lemma call_tool_effect:
  "agent_effect env b (mutation_cost t) w (snd (call_tool env b t args key w))"
proof (cases "validate_tool_arguments t args")
  case True
  show ?thesis
  proof (cases t)
    case CREATE_DRAFT
    then show ?thesis
      using True
      by (auto simp: call_tool_def create_draft_tool_def mutation_cost_def PRIMARY_MUTATION_TOOLS_def
          split: json.split sum.split op_failure.split prod.split intro: adapter_mutation [unfolded One_nat_def])
  next
    case MARK_AS_READ
    then show ?thesis
      using True
      by (auto simp: call_tool_def mark_as_read_tool_def mutation_cost_def PRIMARY_MUTATION_TOOLS_def
          split: sum.split op_failure.split prod.split intro: adapter_mutation [unfolded One_nat_def])
  next
    case GET_CALENDAR_EVENTS
    then show ?thesis
      using True
      by (auto simp: call_tool_def get_calendar_events_tool_def mutation_cost_def PRIMARY_MUTATION_TOOLS_def
          split: json.split option.split intro: calendar_effect)
  next
    case CREATE_EVENT
    then show ?thesis
      using True stage_effect
      by (auto simp: call_tool_def create_event_tool_def mutation_cost_def PRIMARY_MUTATION_TOOLS_def split: option.split)
  qed (use True stage_effect reply_tool_effect in
      \<open>simp_all add: call_tool_def send_email_tool_def create_task_tool_def mutation_cost_def PRIMARY_MUTATION_TOOLS_def\<close>)
qed (simp add: call_tool_def)

section \<open>The mutation budget\<close>

lemma command_key_frame [simp]:
  "rs_world (snd (command_key_for_tool_call env scope call st)) = rs_world st"
  "rs_mutation_count (snd (command_key_for_tool_call env scope call st)) = rs_mutation_count st"
  by (auto simp: command_key_for_tool_call_def Let_def split: option.split)

text \<open>
  Between two states of a run every mutation of the world was counted, and the count does not
  exceed the budget once it is within it.
\<close>

definition budgeted :: "tool_env \<Rightarrow> tool_binding \<Rightarrow> agent_tool_policy \<Rightarrow> run_state \<Rightarrow> run_state \<Rightarrow> bool" where
  "budgeted env b policy st st' \<longleftrightarrow>
     rs_mutation_count st \<le> rs_mutation_count st' \<and>
     rs_mutation_count st' \<le> max (rs_mutation_count st) (max_primary_mutations policy) \<and>
     agent_effect env b (nat (rs_mutation_count st' - rs_mutation_count st)) (rs_world st) (rs_world st')"

lemma budgeted_refl [simp]: "budgeted env b policy st st"
  by (simp add: budgeted_def)

lemma budgeted_trans: "budgeted env b policy s t \<Longrightarrow> budgeted env b policy t u \<Longrightarrow> budgeted env b policy s u"
  unfolding budgeted_def by (auto intro: agent_effect_trans)

lemma mutation_cost_name:
  "agent_tool_of name = Some t \<Longrightarrow> mutation_cost t = (if is_primary_mutation name then 1 else 0)"
  by (simp add: mutation_cost_def is_primary_mutation_def)

lemma execute_tool_call_budgeted:
  "budgeted env b policy st (snd (execute_tool_call env b policy available turn index call st))"
proof (cases "\<exists>name. fc_name call = Some name \<and> policy_allows policy name \<and> name \<in> set available \<and>
    \<not> (is_primary_mutation name \<and> rs_mutation_count st \<ge> max_primary_mutations policy)")
  case True
  then obtain name where name: "fc_name call = Some name" "policy_allows policy name" "name \<in> set available"
    "\<not> (is_primary_mutation name \<and> rs_mutation_count st \<ge> max_primary_mutations policy)" by blast
  obtain t where t: "agent_tool_of name = Some t" using name(2) by (auto simp: policy_allows_def split: option.splits)
  let ?st1 = "if is_primary_mutation name then st\<lparr>rs_mutation_count := rs_mutation_count st + 1\<rparr> else st"
  have st1: "budgeted env b policy st (?st1\<lparr>rs_world := w\<rparr>)"
    if "agent_effect env b (mutation_cost t) (rs_world st) w" for w
    using that name(4) by (auto simp: budgeted_def mutation_cost_name [OF t])
  have st1': "budgeted env b policy st ?st1" using st1 [of "rs_world st"] by (cases "is_primary_mutation name") auto
  define keyed where "keyed = (if name \<in> set PENDING_ACTION_TOOL_NAMES
    then command_key_for_tool_call env (executive_scope turn index name) call ?st1 else ([], ?st1))"
  have k: "rs_world (snd keyed) = rs_world st" "rs_mutation_count (snd keyed) = rs_mutation_count ?st1"
    by (simp_all add: keyed_def)
  have finish: "budgeted env b policy st ((snd keyed)\<lparr>rs_world := w\<rparr>)"
    if "call_tool env b t args (fst keyed) (rs_world (snd keyed)) = (r, w)" for args r w
    using st1 [of w] call_tool_effect [of env b t "rs_world (snd keyed)" args "fst keyed"] that k
    by (simp add: budgeted_def)
  obtain key st2 where ks: "keyed = (key, st2)" by fastforce
  have run: "execute_tool_call env b policy available turn index call st =
      (case fc_args call of
         ArgsOther \<Rightarrow> (Inl (), ?st1)
       | a \<Rightarrow> (case call_tool env b t (drop_key ''command_key'' (case a of ArgsMapping kvs \<Rightarrow> kvs | _ \<Rightarrow> [])) key (rs_world st2) of
                (ToolRaised, w) \<Rightarrow> (Inr (Inr (tool_error name ''tool_unavailable'')), st2\<lparr>rs_world := w\<rparr>)
              | (ToolResult result, w) \<Rightarrow>
                  (Inr (after_tool (cl_str (te_calendar env)) name result), st2\<lparr>rs_world := w\<rparr>)))"
    unfolding execute_tool_call_def Let_def name(1) option.case keyed_def [symmetric] ks prod.case t option.sel
    using name(2-4) by (simp only: simp_thms if_False)
  have finish': "budgeted env b policy st (snd (case call_tool env b t args key (rs_world st2) of
      (ToolRaised, w) \<Rightarrow> (x, st2\<lparr>rs_world := w\<rparr>) | (ToolResult result, w) \<Rightarrow> (f result, st2\<lparr>rs_world := w\<rparr>)))" for args x f
    using finish [of args] by (auto simp: ks split: prod.split tool_outcome.split)
  show ?thesis
    unfolding run using st1' finish' by (cases "fc_args call") simp_all
qed (auto simp: execute_tool_call_def split: option.split)

lemma execute_tool_calls_budgeted:
  "budgeted env b policy st (snd (execute_tool_calls env b policy available turn index calls responses st))"
proof (induction calls arbitrary: index responses st)
  case (Cons call calls)
  obtain r st1 where c: "execute_tool_call env b policy available turn index call st = (r, st1)" by fastforce
  have "budgeted env b policy st st1"
    using execute_tool_call_budgeted [of env b policy st available turn index call] by (simp add: c)
  then show ?case
    using Cons.IH budgeted_trans by (auto simp: c split: sum.split)
qed simp

lemma executive_turns_budgeted:
  "budgeted env b policy st (snd (executive_turns env b policy available generate n turn history st))"
proof (induction n arbitrary: turn history st)
  case (Suc n)
  show ?case
  proof (cases "generate turn history")
    case (Inr response)
    obtain r st1 where c: "execute_tool_calls env b policy available turn 0 (candidate_function_calls response) [] st = (r, st1)"
      by fastforce
    have "budgeted env b policy st st1"
      using execute_tool_calls_budgeted [of env b policy st available turn 0 "candidate_function_calls response" "[]"]
      by (simp add: c)
    then show ?thesis
      using Suc.IH budgeted_trans by (auto simp: Inr c Let_def split: sum.split option.split prod.split)
  qed simp
qed simp

section \<open>Properties\<close>

lemma automated_call: "execute_tool_call env b AUTOMATED_INBOUND_POLICY available turn index call st = (r, st') \<Longrightarrow> st' = st"
  by (auto simp: execute_tool_call_def policy_allows_def AUTOMATED_INBOUND_POLICY_def split: option.splits)

lemma automated_calls:
  "snd (execute_tool_calls env b AUTOMATED_INBOUND_POLICY available turn index calls responses st) = st"
proof (induction calls arbitrary: index responses)
  case (Cons call calls)
  obtain r st1 where c: "execute_tool_call env b AUTOMATED_INBOUND_POLICY available turn index call st = (r, st1)" by fastforce
  then show ?case using Cons.IH automated_call [OF c] by (auto split: sum.split)
qed simp

lemma automated_turns:
  "snd (executive_turns env b AUTOMATED_INBOUND_POLICY available generate n turn history st) = st"
proof (induction n arbitrary: turn history)
  case (Suc n)
  show ?case
  proof (cases "generate turn history")
    case (Inr response)
    obtain r st1 where c: "execute_tool_calls env b AUTOMATED_INBOUND_POLICY available turn 0
        (candidate_function_calls response) [] st = (r, st1)" by fastforce
    then have "st1 = st" using automated_calls [of env b available turn 0 "candidate_function_calls response" "[]" st] by simp
    then show ?thesis using Suc.IH by (auto simp: Inr c Let_def split: sum.split option.split prod.split)
  qed simp
qed simp

lemma automated_executive: "snd (run_executive env b AUTOMATED_INBOUND_POLICY gmail calendar tasks generate w) = w"
  using automated_turns [of env b "bind_executive_tools AUTOMATED_INBOUND_POLICY gmail calendar tasks (tb_email b)"
      generate 5 0 "[]" "new_run w"]
  by (simp add: run_executive_def new_run_def split: prod.split) (metis run_state.select_convs(1) snd_conv)

lemma not_eligible: "\<not> eligible AUTOMATED_INBOUND_POLICY available call"
  by (simp add: eligible_def policy_allows_def AUTOMATED_INBOUND_POLICY_def split: option.split)

text \<open>
  C33. However the model answers an untrusted inbound message, an automated run changes nothing:
  under the automated policy no tool is bound or executed, so no action is staged, no draft or label
  is written and no provider call is made, in the executive and in the streaming agent.
\<close>

theorem automated_run_changes_nothing:
  "snd (run_executive env b AUTOMATED_INBOUND_POLICY gmail calendar tasks generate w) = w \<and>
   snd (run_stream env b AUTOMATED_INBOUND_POLICY chunks failure w) = w"
proof
  show "snd (run_executive env b AUTOMATED_INBOUND_POLICY gmail calendar tasks generate w) = w"
    by (rule automated_executive)
  have "find (\<lambda>i. eligible AUTOMATED_INBOUND_POLICY available (calls ! i)) is = None" for available calls "is"
    by (simp add: find_None_iff not_eligible)
  then show "snd (run_stream env b AUTOMATED_INBOUND_POLICY chunks failure w) = w"
    by (auto simp: run_stream_def stream_tool_def split: prod.split option.split)
qed

text \<open>
  C34. Whatever the model answers, over all turns of a run and all calls in an answer, and whatever
  other sessions commit meanwhile, the agents perform at most the policy's number of mutations (a
  streamed run at most one), and the only ones are inserting a pending action of the authenticated
  user, creating a draft and marking a message as read: nothing is sent, inserted in a calendar or
  task list, or approved, and the run itself changes no existing row.
\<close>

theorem agent_mutation_budget:
  assumes "0 \<le> max_primary_mutations policy"
  shows "agent_effect env b (nat (max_primary_mutations policy)) w
      (snd (run_executive env b policy gmail calendar tasks generate w)) \<and>
    agent_effect env b (min 1 (nat (max_primary_mutations policy))) w (snd (run_stream env b policy chunks failure w))"
proof
  let ?av = "bind_executive_tools policy gmail calendar tasks (tb_email b)"
  obtain r st where e: "executive_turns env b policy ?av generate 5 0 [] (new_run w) = (r, st)" by fastforce
  have "budgeted env b policy (new_run w) st"
    using executive_turns_budgeted [of env b policy "new_run w" ?av generate 5 0 "[]"] by (simp add: e)
  then show "agent_effect env b (nat (max_primary_mutations policy)) w
      (snd (run_executive env b policy gmail calendar tasks generate w))"
    unfolding run_executive_def e using assms by (auto simp: budgeted_def new_run_def intro: effect_weaken)
next
  obtain tokens calls where s: "stream_tokens chunks [] = (tokens, calls)" by fastforce
  let ?av = "bind_stream_tools policy (tb_email b)"
  have "agent_effect env b (min 1 (nat (max_primary_mutations policy))) w (snd (stream_tool env b policy ?av calls w))"
  proof (cases "find (\<lambda>i. eligible policy ?av (calls ! i)) [0..<length calls]")
    case (Some sel)
    then have "eligible policy ?av (calls ! sel)" by (auto simp: find_Some_iff)
    then obtain name t where n: "fc_name (calls ! sel) = Some name" "agent_tool_of name = Some t" "1 \<le> max_primary_mutations policy"
      by (auto simp: eligible_def policy_allows_def split: option.splits)
    have "agent_effect env b (min 1 (nat (max_primary_mutations policy))) w w1"
      if "call_tool env b t args key w = (r, w1)" for args key r w1
      using effect_weaken [OF call_tool_effect [of env b t w args key], of "min 1 (nat (max_primary_mutations policy))"]
        that n(3) by (simp add: mutation_cost_def)
    then show ?thesis
      by (auto simp: stream_tool_def Some n Let_def split: option.split tool_outcome.split prod.split)
  qed (simp add: stream_tool_def)
  then show "agent_effect env b (min 1 (nat (max_primary_mutations policy))) w (snd (run_stream env b policy chunks failure w))"
    by (auto simp: run_stream_def s split: option.split prod.split)
qed

definition demo_tool_env :: tool_env where
  "demo_tool_env = \<lparr>te_lib = demo_lib, te_services = demo_services, te_interfere = (\<lambda>_. id), te_clock = (\<lambda>_ _. 0),
     te_new_id = (\<lambda>_. 1), te_issue = (\<lambda>_. demo_key), te_msgid = (\<lambda>_. ''<1@x>''), te_answer = (\<lambda>_ _. Inr JNull),
     te_calendar = \<lparr>cl_zone = (\<lambda>_. Some True), cl_day = (\<lambda>_ _. None), cl_format = (\<lambda>_ _. []),
       cl_str = (\<lambda>j. case j of JStr s \<Rightarrow> s | _ \<Rightarrow> [])\<rparr>\<rparr>"

definition demo_binding :: tool_binding where
  "demo_binding = \<lparr>tb_user_id = demo_owner, tb_email = ''o@x'', tb_timezone = ''UTC''\<rparr>"

definition demo_world :: agent_world where
  "demo_world = \<lparr>aw_db = no_actions, aw_history = [], aw_calls = [], aw_ticks = 0\<rparr>"

text \<open>A model answer with two task calls at once.\<close>

definition demo_answer :: llm_response where
  "demo_answer = (let c = \<lparr>fc_id = None, fc_name = Some ''create_task'', fc_args = ArgsMapping demo_payload\<rparr>;
     p = \<lparr>rp_text = None, rp_call = Some c\<rparr> in \<lparr>lr_parts = Some [p, p], lr_text = None\<rparr>)"

lemma demo_stage:
  "create_pending_action demo_lib id (\<lambda>n. 0) 1 demo_owner ''create_task'' demo_payload demo_key no_actions =
     (Inr (action_to_dict demo_row), \<lparr>actions = [demo_row], audits = []\<rparr>)"
  using demo_created_row unfolding demo_created_def .

lemma demo_run_stages:
  "aw_db (snd (run_executive demo_tool_env demo_binding INTERACTIVE_EXECUTIVE_POLICY False False True
     (\<lambda>_ _. Inr demo_answer) demo_world)) = \<lparr>actions = [demo_row], audits = []\<rparr>"
proof -
  have av: "bind_executive_tools INTERACTIVE_EXECUTIVE_POLICY False False True (tb_email demo_binding) = [''create_task'']"
    by (simp add: bind_executive_tools_def tool_objects_def INTERACTIVE_EXECUTIVE_POLICY_def all_tools_def)
  have name: "agent_tool_of ''create_task'' = Some CREATE_TASK" by (simp add: agent_tool_of_def all_tools_def)
  have payload: "demo_payload = [(''title'', JStr ''t''), (''notes'', JStr ''n'')]" by (simp add: demo_payload_def)
  have args: "validate_tool_arguments CREATE_TASK demo_payload" "drop_key ''command_key'' demo_payload = demo_payload"
    by (auto simp: validate_tool_arguments_def accepts_def payload drop_key_def)
  have tool: "call_tool demo_tool_env demo_binding CREATE_TASK demo_payload demo_key demo_world =
      (ToolResult (action_request_response demo_lib (action_to_dict demo_row)),
       demo_world\<lparr>aw_db := \<lparr>actions = [demo_row], audits = []\<rparr>, aw_ticks := 1\<rparr>)"
    using demo_stage args(1)
    by (simp add: call_tool_def create_task_tool_def stage_def demo_tool_env_def demo_binding_def demo_world_def payload arg_def)
  have pol: "policy_allows INTERACTIVE_EXECUTIVE_POLICY ''create_task''" "is_primary_mutation ''create_task''"
    "max_primary_mutations INTERACTIVE_EXECUTIVE_POLICY = 1"
    by (simp_all add: policy_allows_def is_primary_mutation_def name INTERACTIVE_EXECUTIVE_POLICY_def all_tools_def
        PRIMARY_MUTATION_TOOLS_def)
  have resp: "after_tool f ''create_task'' (action_request_response demo_lib (action_to_dict demo_row)) =
      Inl (approval_message (Some (JStr (str_of_uuid demo_page_lib 1))) f)" for f
    by (simp add: after_tool_def action_request_response_def is_jobj_def jget_def action_to_dict_def)
  show ?thesis
    by (simp add: run_executive_def av numeral_eq_Suc demo_answer_def candidate_function_calls_def List.map_filter_def
        Let_def execute_tool_call_def pol new_run_def args name PENDING_ACTION_TOOL_NAMES_def command_key_for_tool_call_def
        tool resp demo_tool_env_def [THEN arg_cong, of te_issue])
qed

lemma agent_mutation_budget_witness:
  "\<exists>w. aw_db w = \<lparr>actions = [demo_row], audits = []\<rparr> \<and> agent_effect demo_tool_env demo_binding 1 demo_world w"
proof -
  have "max_primary_mutations INTERACTIVE_EXECUTIVE_POLICY = 1" by (simp add: INTERACTIVE_EXECUTIVE_POLICY_def)
  then have "agent_effect demo_tool_env demo_binding 1 demo_world (snd (run_executive demo_tool_env demo_binding
      INTERACTIVE_EXECUTIVE_POLICY False False True (\<lambda>_ _. Inr demo_answer) demo_world))"
    using agent_mutation_budget [of INTERACTIVE_EXECUTIVE_POLICY demo_tool_env demo_binding demo_world False False True
        "\<lambda>_ _. Inr demo_answer" "[]" None] by simp
  then show ?thesis using demo_run_stages by blast
qed

end
