(* ===== verification/Worker_Effects.thy ===== *)
theory Worker_Effects
  imports Worker
begin

text \<open>
  How the worker may change its world. A relation between worlds that is a preorder and that the
  basic operations respect is respected by the whole worker; the locales \<open>triage_effect\<close>,
  \<open>worker_effect\<close> and \<open>iteration_effect\<close> state what the operations of growing parts of
  the worker have to respect, and their interpretations give that the worker only takes steps of the
  notification service, only reads mail while it processes jobs, and keeps the table invariants.
\<close>

section \<open>Relations that computations respect\<close>

definition keeps :: "(worker_world \<Rightarrow> worker_world \<Rightarrow> bool) \<Rightarrow> 'a work \<Rightarrow> bool" where
  "keeps R m \<longleftrightarrow> (\<forall>w. R w (snd (m w)))"

locale work_rel =
  fixes R :: "worker_world \<Rightarrow> worker_world \<Rightarrow> bool"
  assumes rel_refl: "R w w"
    and rel_trans: "R u v \<Longrightarrow> R v w \<Longrightarrow> R u w"
begin

lemma keeps_pure: "keeps R (wreturn x)" "keeps R (wraise e)" "keeps R (of_result r)"
  by (simp_all add: keeps_def wreturn_def wraise_def of_result_def rel_refl)

lemma keeps_bind: "keeps R m \<Longrightarrow> (\<And>x. keeps R (f x)) \<Longrightarrow> keeps R (wbind m f)"
  unfolding keeps_def wbind_def
  by (auto split: prod.split sum.split) (metis rel_trans snd_conv)+

lemma keeps_catch: "keeps R m \<Longrightarrow> (\<And>e. keeps R (h e)) \<Longrightarrow> keeps R (wcatch m h)"
  unfolding keeps_def wcatch_def
  by (auto split: prod.split sum.split) (metis rel_trans snd_conv)+

lemma keeps_try: "keeps R m \<Longrightarrow> (\<And>e. keeps R (h e)) \<Longrightarrow> (\<And>x. keeps R (f x)) \<Longrightarrow> keeps R (wtry m h f)"
  unfolding keeps_def wtry_def
  by (auto split: prod.split sum.split) (metis rel_trans snd_conv)+

lemma keeps_result: "(\<And>x. r = Inr x \<Longrightarrow> keeps R (f x)) \<Longrightarrow> keeps R (wbind (of_result r) f)"
  by (auto simp: keeps_def wbind_def of_result_def rel_refl split: sum.split)

lemma keeps_answer: "keeps R (answer_object a)"
  by (simp add: answer_object_def Let_def keeps_pure)

end

section \<open>Transactions of the worker\<close>

definition read_request :: "gmail_request \<Rightarrow> bool" where
  "read_request q \<longleftrightarrow> q \<noteq> Watch"

text \<open>
  A transaction of the worker is a step of the service or changes nothing, possibly after the
  commits that a claim of triage work races with.
\<close>

definition worker_tx :: "worker_env \<Rightarrow> nat \<Rightarrow> mail_db \<Rightarrow> mail_db \<Rightarrow> bool" where
  "worker_tx env n db db' \<longleftrightarrow>
     (\<exists>d. (d = db \<or> d = we_race env n db) \<and> (db' = d \<or> mail_step (we_notify env) (we_settings env) d db'))"

definition triage_tx :: "worker_env \<Rightarrow> nat \<Rightarrow> mail_db \<Rightarrow> mail_db \<Rightarrow> bool" where
  "triage_tx env n db db' \<longleftrightarrow>
     (\<exists>d. (d = db \<or> d = we_race env n db) \<and> jobs db' = jobs d \<and> mailboxes db' = mailboxes d \<and>
        (db' = d \<or> mail_step (we_notify env) (we_settings env) d db'))"

lemma triage_tx_worker: "triage_tx env n db db' \<Longrightarrow> worker_tx env n db db'"
  by (auto simp: triage_tx_def worker_tx_def)

lemma worker_tx_step: "mail_step (we_notify env) (we_settings env) db db' \<Longrightarrow> worker_tx env n db db'"
  by (auto simp: worker_tx_def)

lemma worker_tx_none: "worker_tx env n db db" "triage_tx env n db db"
  by (auto simp: worker_tx_def triage_tx_def)

lemma triage_txs:
  "triage_tx env n db (snd (finalize_triage_work t c st sm ec db))"
  "triage_tx env n db (release_triage_work (we_settings env) t c err db)"
  by (auto simp: triage_tx_def intro: finalize_triage release_triage)

lemma claim_triage_tx:
  "triage_tx env n db (snd (claim_triage_work (we_settings env) (we_race env n) ck i tok e mid h db))"
  unfolding claim_triage_linearises [of _ "we_race env n"] triage_tx_def
  by (intro exI [of _ "if find_triage db e mid = None then we_race env n db else db"]) (simp add: claim_triage)

lemma worker_txs:
  "worker_tx env n db (snd (complete_job_and_advance_cursor (we_settings env) t c h db))"
  "worker_tx env n db (Notification_Jobs.fail_job (we_settings env) ck c err dl rr db)"
  "worker_tx env n db (requeue_job (we_settings env) t c err nx db)"
  "worker_tx env n db (dead_letter_job t c err db)"
  "worker_tx env n db (snd (claim_mailbox_resync (we_settings env) ck tok c owner db))"
  "worker_tx env n db (snd (checkpoint_bounded_resync t page k rc db))"
  "0 < h \<Longrightarrow> worker_tx env n db (snd (complete_bounded_resync h rc db))"
  "worker_tx env n db (snd (release_mailbox_resync (we_settings env) t err rc db))"
  "worker_tx env n db (snd (require_manual_resync err rc db))"
  "worker_tx env n db (snd (claim_notification_job (we_settings env) ck tok lk owner db))"
  "worker_tx env n db (record_worker_heartbeat t owner db)"
  "worker_tx env n db (snd (claim_watch_renewal (we_settings env) t tok email owner db))"
  "0 < h \<Longrightarrow> worker_tx env n db (snd (complete_watch_renewal email tok h x db))"
  "worker_tx env n db (fail_watch_renewal (we_settings env) t email tok err db)"
  by (rule worker_tx_step, rule mail_step.intros, assumption?)+

lemma history_id_pos: "worker_history_id v = Inr (Some h) \<Longrightarrow> 0 < h \<and> h \<le> BIGINT_MAX"
  by (auto simp: worker_history_id_def Let_def split: option.splits json.splits if_splits)

lemma transact_snd:
  "snd (transact env f w) = w\<lparr>ww_mail := snd (f (ww_ticks w) (we_interfere env (ww_ticks w) (ww_mail w))),
     ww_ticks := ww_ticks w + 1\<rparr>"
  by (simp add: transact_def Let_def split: prod.split)

section \<open>Triage\<close>

locale reading_effect = work_rel R for R :: "worker_world \<Rightarrow> worker_world \<Rightarrow> bool" +
  fixes env :: worker_env
  assumes read_kept: "read_request q \<Longrightarrow> keeps R (gmail env q)"
    and agent_kept: "keeps R (run_triage_agent env owner_id mailbox_email content)"

locale triage_effect = reading_effect +
  assumes triage_tx_rel: "triage_tx env (ww_ticks w) (we_interfere env (ww_ticks w) (ww_mail w)) db \<Longrightarrow>
      R w (w\<lparr>ww_mail := db, ww_ticks := ww_ticks w + 1\<rparr>)"
begin

lemma triage_tx_kept:
  assumes "\<And>n db. triage_tx env n db (snd (f n db))"
  shows "keeps R (transact env f)"
  unfolding keeps_def transact_snd using triage_tx_rel [OF assms] by simp

lemma finalize_kept: "keeps R (finalize_triage env c st sm ec)"
  unfolding finalize_triage_def
  by (rule keeps_bind, rule triage_tx_kept) (auto simp: triage_txs keeps_pure split: sum.split)

lemma release_kept: "keeps R (release_triage env c ec)"
  unfolding release_triage_def update_def
  by (rule keeps_bind, rule triage_tx_kept) (auto simp: triage_txs keeps_pure)

lemma analyse_kept: "keeps R (analyse_message env owner_id mailbox_email message_id c)"
  unfolding analyse_message_def
  by (rule keeps_bind, rule read_kept)
    (auto simp: read_request_def finalize_kept split: sum.split intro!: keeps_bind agent_kept)

lemma triage_failure_kept: "keeps R (triage_failure env c e)"
  by (auto simp: triage_failure_def finalize_kept release_kept split: worker_exn.split option.split)

lemma triage_message_kept: "keeps R (triage_message env owner_id mailbox_email message_id h)"
  unfolding triage_message_def
proof (rule keeps_bind)
  show "keeps R (transact env (\<lambda>n. claim_triage_work (we_settings env) (we_race env n) (we_clock env n)
      (we_new_id env n) (we_token env n) mailbox_email message_id h))"
    by (rule triage_tx_kept) (rule claim_triage_tx)
qed (auto simp: keeps_pure worker_tx_none analyse_kept triage_failure_kept
      intro!: triage_tx_kept keeps_catch split: sum.split option.split)

lemma triage_all_kept: "keeps R (triage_all env owner_id mailbox_email h ids)"
  by (induction ids) (auto intro!: keeps_bind triage_message_kept simp: keeps_pure)

end

section \<open>Jobs\<close>

locale worker_effect = reading_effect +
  assumes tick_kept: "R w (w\<lparr>ww_ticks := n\<rparr>)"
    and tx_rel: "worker_tx env (ww_ticks w) (we_interfere env (ww_ticks w) (ww_mail w)) db \<Longrightarrow>
      R w (w\<lparr>ww_mail := db, ww_ticks := ww_ticks w + 1\<rparr>)"

sublocale worker_effect \<subseteq> triage_effect
  by unfold_locales (simp add: tx_rel [simplified] triage_tx_worker)

context worker_effect
begin

lemma tx_kept:
  assumes "\<And>n db. worker_tx env n db (snd (f n db))"
  shows "keeps R (transact env f)"
  unfolding keeps_def transact_snd using tx_rel [OF assms] by simp

lemma update_kept: "(\<And>n db. worker_tx env n db (f n db)) \<Longrightarrow> keeps R (update env f)"
  unfolding update_def by (rule tx_kept) simp

lemma service_kept: "keeps R (gmail_service_for_owner env)"
  by (simp add: keeps_def gmail_service_for_owner_def tick_kept)

lemma job_ends_kept:
  "keeps R (complete_job env c h)" "keeps R (job_fails env c err dl rr)" "keeps R (requeue env c err)"
  "keeps R (dead_letter env c err)" "keeps R (release_resync env rc err)"
  unfolding complete_job_def job_fails_def requeue_def dead_letter_def release_resync_def
  by (auto intro!: keeps_bind tx_kept update_kept simp: worker_txs keeps_pure)

lemma history_pages_kept: "keeps R (history_pages env cursor mx pages tok ids latest)"
proof (induction pages arbitrary: tok ids latest)
  case (Suc pages)
  show ?case
    unfolding history_pages.simps
    by (rule keeps_bind, rule read_kept)
      (auto simp: read_request_def Let_def keeps_pure Suc.IH intro!: keeps_bind [OF keeps_answer] keeps_result)
qed (simp add: keeps_pure)

lemma list_history_kept: "keeps R (list_history env cursor)"
  by (auto simp: list_history_def history_message_ids_def keeps_pure history_pages_kept intro!: keeps_bind service_kept)

lemma manual_kept: "keeps R (manual_required env rc)"
  unfolding manual_required_def by (rule keeps_bind, rule tx_kept) (simp_all add: worker_txs keeps_pure)

lemma finish_resync_kept: "keeps R (finish_resync env rc)"
  unfolding finish_resync_def
proof (rule keeps_bind [OF read_kept], simp add: read_request_def, rule keeps_bind [OF keeps_answer], rule keeps_result)
  fix profile h
  assume "worker_history_id (jget ''historyId'' profile) = Inr h"
  then show "keeps R (case h of None \<Rightarrow> wreturn OutRetryable
      | Some h \<Rightarrow> wbind (transact env (\<lambda>n. complete_bounded_resync h rc))
          (\<lambda>persisted. wreturn (if persisted then OutCompleted else OutLostLease)))"
    using history_id_pos by (auto simp: keeps_pure worker_txs split: option.split intro!: keeps_bind tx_kept)
qed

lemma after_page_kept: "keeps R (after_resync_page env rc response k)"
  unfolding after_resync_page_def
  by (auto simp: finish_resync_kept manual_kept worker_txs keeps_pure split: option.split json.split
      intro!: keeps_bind tx_kept)

lemma bounded_resync_kept: "keeps R (bounded_resync env owner_id mailbox_email h rc)"
  unfolding bounded_resync_def Let_def
  by (auto simp: manual_kept read_request_def keeps_pure after_page_kept triage_all_kept
      intro!: keeps_bind [OF read_kept] keeps_bind [OF keeps_answer] keeps_bind [OF keeps_pure(3)] keeps_bind [OF triage_all_kept])

lemma after_resync_kept: "keeps R (after_resync env c rc r)"
  by (auto simp: after_resync_def job_ends_kept worker_txs split: resync_outcome.split intro!: keeps_bind update_kept)

lemma recover_mailbox_kept: "keeps R (recover_mailbox env c m)"
  unfolding recover_mailbox_def
  by (rule keeps_bind, rule tx_kept)
    (auto simp: worker_txs keeps_pure job_ends_kept after_resync_kept service_kept bounded_resync_kept
      split: option.split intro!: keeps_bind keeps_try)

lemma follow_history_kept: "keeps R (follow_history env c owner_id cursor)"
  unfolding follow_history_def triage_listed_def
  by (rule keeps_try)
    (auto simp: list_history_kept history_failure_def job_ends_kept triage_all_kept
      split: option.split worker_exn.split intro!: keeps_bind)

lemma process_job_kept: "keeps R (process_notification_job env c)"
  unfolding process_notification_job_def
  by (rule keeps_bind, rule tx_kept)
    (auto simp: worker_tx_none job_ends_kept recover_mailbox_kept follow_history_kept split: option.split)

end

section \<open>Iterations\<close>

locale iteration_effect = worker_effect +
  assumes watch_kept: "keeps R (gmail env Watch)"
begin

lemma watch_failure_kept: "keeps R (watch_failure env m t err)"
  unfolding watch_failure_def by (rule keeps_bind, rule update_kept) (simp_all add: worker_txs keeps_pure)

lemma renew_watch_kept: "keeps R (renew_watch env m t)"
  unfolding renew_watch_def
proof (intro keeps_bind [OF service_kept] keeps_bind [OF watch_kept] keeps_bind [OF keeps_answer], rule keeps_result)
  fix response h
  assume "worker_history_id (jget ''historyId'' response) = Inr h"
  then show "keeps R (case (h, watch_expiration env (jget ''expiration'' response)) of
       (Some h, Some expires_at) \<Rightarrow>
         wbind (transact env (\<lambda>n. complete_watch_renewal m t h expires_at)) (\<lambda>r. wreturn (Some r))
     | _ \<Rightarrow> wreturn None)"
    using history_id_pos by (auto simp: keeps_pure worker_txs split: option.split intro!: keeps_bind tx_kept)
qed

lemma tick_then:
  assumes "keeps R m"
  shows "R w (snd (m (w\<lparr>ww_ticks := n\<rparr>)))"
  using rel_trans [OF tick_kept [of w n]] assms unfolding keeps_def by blast

lemma renew_kept: "keeps R (renew_automation_watch env owner_id)"
  unfolding keeps_def
proof
  fix w
  have "keeps R (wbind (transact env (\<lambda>n. claim_watch_renewal (we_settings env) (we_clock env n 0) (we_token env n) m owner_id))
      (\<lambda>r. case r of Inl _ \<Rightarrow> wreturn False | Inr None \<Rightarrow> wreturn False
       | Inr (Some t) \<Rightarrow> wcatch (wbind (renew_watch env m t) (\<lambda>renewed. case renewed of Some b \<Rightarrow> wreturn b
            | None \<Rightarrow> watch_failure env m t ''watch_response_invalid''))
           (\<lambda>e. watch_failure env m t (watch_error_code e))))" for m
    by (rule keeps_bind, rule tx_kept)
      (auto simp: worker_txs keeps_pure watch_failure_kept renew_watch_kept split: sum.split option.split
        intro!: keeps_catch keeps_bind)
  note this [THEN tick_then]
  then show "R w (snd (renew_automation_watch env owner_id w))"
    by (simp add: renew_automation_watch_def tick_kept split: sum.split)
qed

lemma iteration_kept: "keeps R (worker_iteration env owner_id)"
  unfolding worker_iteration_def
  by (rule keeps_bind, rule update_kept, rule worker_txs, rule keeps_bind, rule renew_kept, rule keeps_bind, rule tx_kept)
    (auto simp: worker_txs keeps_pure process_job_kept split: option.split intro!: keeps_catch keeps_bind)

end

end
