(* ===== verification/Worker_Safety.thy ===== *)
theory Worker_Safety
  imports Worker_Effects
begin

text \<open>
  Properties of the worker (\<open>server/workers/mail_notifications.py\<close>): it refines the
  notification service, keeps the invariants of all tables, only reads mail while it processes a
  job, ends the lease of every job it has processed, and advances the cursor only past messages it
  has triaged; with two schedules in which a message is passed over.
\<close>

section \<open>Interpretations\<close>

text \<open>What other sessions commit are steps of the service.\<close>

definition others_step :: "worker_env \<Rightarrow> bool" where
  "others_step env \<longleftrightarrow>
     (\<forall>n db. (mail_step (we_notify env) (we_settings env))\<^sup>*\<^sup>* db (we_interfere env n db) \<and>
             (mail_step (we_notify env) (we_settings env))\<^sup>*\<^sup>* db (we_race env n db))"

text \<open>What other sessions commit keeps the invariant; cleanup passes may be among it.\<close>

definition others_safe :: "worker_env \<Rightarrow> bool" where
  "others_safe env \<longleftrightarrow>
     (\<forall>n db. mail_inv db \<longrightarrow> mail_inv (we_interfere env n db) \<and> mail_inv (we_race env n db))"

lemma gmail_world [simp]:
  "ww_mail (snd (gmail env q w)) = ww_mail w" "ww_agent (snd (gmail env q w)) = ww_agent w"
  "ww_calls (snd (gmail env q w)) = ww_calls w @ [q]"
  by (simp_all add: gmail_def)

lemma agent_world_kept [simp]:
  "ww_mail (snd (run_triage_agent env owner_id m content w)) = ww_mail w"
  "ww_agent (snd (run_triage_agent env owner_id m content w)) = ww_agent w"
  "ww_calls (snd (run_triage_agent env owner_id m content w)) = ww_calls w"
  by (simp_all add: run_triage_agent_def split_beta automated_executive)

lemma worker_tx_steps:
  assumes "others_step env" and "worker_tx env n (we_interfere env n db) db'"
  shows "(mail_step (we_notify env) (we_settings env))\<^sup>*\<^sup>* db db'"
  using assms unfolding others_step_def worker_tx_def by (metis rtranclp.rtrancl_into_rtrancl rtranclp_trans)

lemma worker_tx_inv:
  assumes "others_safe env" and "worker_tx env n (we_interfere env n db) db'" and "mail_inv db"
  shows "mail_inv db'"
  using assms mail_step_inv unfolding others_safe_def worker_tx_def by metis

interpretation worker_steps: iteration_effect
  "\<lambda>w w'. others_step env \<longrightarrow> (mail_step (we_notify env) (we_settings env))\<^sup>*\<^sup>* (ww_mail w) (ww_mail w')" env for env
  by unfold_locales (auto simp: keeps_def worker_tx_steps)

definition reads_only :: "worker_world \<Rightarrow> worker_world \<Rightarrow> bool" where
  "reads_only w w' \<longleftrightarrow> ww_agent w' = ww_agent w \<and> (\<exists>qs. ww_calls w' = ww_calls w @ qs \<and> list_all read_request qs)"

interpretation worker_reads: worker_effect reads_only env for env
  by unfold_locales (auto simp: keeps_def reads_only_def)

interpretation worker_invs: iteration_effect
  "\<lambda>w w'. (others_safe env \<longrightarrow> mail_inv (ww_mail w) \<longrightarrow> mail_inv (ww_mail w')) \<and> ww_agent w' = ww_agent w" env for env
  by unfold_locales (auto simp: keeps_def intro: worker_tx_inv)

section \<open>The worker refines the service and keeps the invariants\<close>

text \<open>
  C10. One iteration of the worker, heartbeat, watch renewal, claim and processing of a job, with
  every triage, recovery and error path inside it, changes the notification tables only by
  transactions of the notification service, interleaved with those of the other sessions.
\<close>

theorem worker_refines_service:
  assumes "others_step env"
  shows "(mail_step (we_notify env) (we_settings env))\<^sup>*\<^sup>* (ww_mail w) (ww_mail (snd (worker_iteration env owner_id w)))"
  using worker_steps.iteration_kept [of env owner_id] assms by (simp add: keeps_def)

lemma cleanup_keeps:
  assumes "others_safe env" and "mail_inv (ww_mail w)" and "action_inv (aw_db (ww_agent w))"
  shows "mail_inv (ww_mail (snd (cleanup_if_due env t w))) \<and> action_inv (aw_db (ww_agent (snd (cleanup_if_due env t w))))"
proof -
  have "mail_inv (we_interfere env (ww_ticks w) (ww_mail w))" using assms(1,2) by (simp add: others_safe_def)
  then show ?thesis
    using assms expire_inv [OF assms(3)]
    by (auto simp: cleanup_if_due_def prune_retained_records_def cleanup_retained_records_def Let_def
        intro!: delete_mail_inv delete_actions_inv split: prod.split) (metis snd_conv)
qed

lemma cleanup_returns: "\<exists>r w1. cleanup_if_due env t w = (Inr r, w1)"
  by (auto simp: cleanup_if_due_def Let_def split: prod.split)

text \<open>
  However long the worker runs, and whatever Gmail and the language model answer, every state it
  leaves behind satisfies the invariants of the notification tables and of the action tables, the
  cleanup passes included.
\<close>

lemma worker_keeps_invariants:
  assumes "others_safe env" and "mail_inv (ww_mail w)" and "action_inv (aw_db (ww_agent w))"
  shows "mail_inv (ww_mail (snd (run_notification_worker env owner_id k last_cleanup w))) \<and>
    action_inv (aw_db (ww_agent (snd (run_notification_worker env owner_id k last_cleanup w))))"
  using assms(2,3)
proof (induction k arbitrary: last_cleanup w)
  case (Suc k)
  obtain r w1 where c: "cleanup_if_due env last_cleanup w = (Inr r, w1)" using cleanup_returns by blast
  have i1: "mail_inv (ww_mail w1)" "action_inv (aw_db (ww_agent w1))"
    using cleanup_keeps [OF assms(1) Suc.prems, of last_cleanup] by (simp_all add: c)
  have "keeps (\<lambda>w w'. (others_safe env \<longrightarrow> mail_inv (ww_mail w) \<longrightarrow> mail_inv (ww_mail w')) \<and> ww_agent w' = ww_agent w)
      (wcatch (worker_iteration env owner_id) (\<lambda>_. wreturn False))"
    by (intro worker_invs.keeps_catch worker_invs.iteration_kept worker_invs.keeps_pure)
  moreover obtain x w2 where it: "wcatch (worker_iteration env owner_id) (\<lambda>_. wreturn False) w1 = (x, w2)" by fastforce
  ultimately have "mail_inv (ww_mail w2)" "action_inv (aw_db (ww_agent w2))"
    using i1 assms(1) unfolding keeps_def by (metis snd_conv)+
  then show ?case using Suc.IH [of w2 r] Suc.prems by (auto simp: wbind_def c it split: sum.split)
qed (simp add: wreturn_def)

section \<open>Reading only\<close>

text \<open>
  C9. Whatever an inbound message contains and whatever the language model answers to it, processing
  a notification job issues only read requests to Gmail and leaves the world of the agent alone: no
  action is staged, nothing is sent, drafted or relabelled.
\<close>

theorem job_processing_reads_only:
  "ww_agent (snd (process_notification_job env c w)) = ww_agent w \<and>
   (\<exists>qs. ww_calls (snd (process_notification_job env c w)) = ww_calls w @ qs \<and> Watch \<notin> set qs)"
  using worker_reads.process_job_kept [of env c]
  by (auto simp: keeps_def reads_only_def read_request_def list_all_iff)

section \<open>Every processed job is released\<close>

definition releases :: "claimed_job \<Rightarrow> unit work \<Rightarrow> bool" where
  "releases c m \<longleftrightarrow> (\<forall>w w'. m w = (Inr (), w') \<longrightarrow> leased_job (ww_mail w') c = None)"

lemma releases_bind: "(\<And>x. releases c (f x)) \<Longrightarrow> releases c (wbind m f)"
  by (auto simp: releases_def wbind_def split: prod.splits sum.splits)

lemma releases_raise: "releases c (wraise e)"
  by (simp add: releases_def wraise_def)

lemma end_job_ended: "leased_job (end_job x c db) c = None"
  using end_job_ends [of db c _ x] end_job_stale [of db c x] by (cases "leased_job db c") auto

lemmas end_job_ops = end_job_ended [of "EndComplete s t h" for s t h, simplified]
  end_job_ended [of "EndFail s ck err dl rr" for s ck err dl rr, simplified]
  end_job_ended [of "EndRequeue s t err nx" for s t err nx, simplified]
  end_job_ended [of "EndDeadLetter t err" for t err, simplified]

lemma releases_update: "(\<And>n db. leased_job (f n db) c = None) \<Longrightarrow> releases c (update env f)"
  by (auto simp: releases_def update_def transact_def Let_def)

lemma job_ends_release:
  "releases c (complete_job env c h)" "releases c (job_fails env c err dl rr)" "releases c (requeue env c err)"
  "releases c (dead_letter env c err)"
  unfolding job_fails_def requeue_def dead_letter_def
  by (auto intro!: releases_update simp: end_job_ops)
    (auto simp: releases_def complete_job_def wbind_def wreturn_def transact_def Let_def split: prod.splits
      dest: arg_cong [of _ _ snd] simp: end_job_ops)

lemma releases_try:
  "(\<And>e. releases c (h e)) \<Longrightarrow> (\<And>x. releases c (f x)) \<Longrightarrow> releases c (wtry m h f)"
  by (auto simp: releases_def wtry_def split: prod.splits sum.splits if_splits)

text \<open>
  C11. When processing a job returns, on whatever path, the lease under which it was claimed has
  ended: the job has succeeded, was put back for a later attempt or was given up, and no path
  leaves it to wait for the lease to lapse.
\<close>

theorem processed_job_released:
  assumes "process_notification_job env c w = (Inr (), w')"
  shows "leased_job (ww_mail w') c = None"
proof -
  have "releases c (history_failure env c e)" for e
    by (auto simp: history_failure_def job_ends_release split: worker_exn.split option.split)
  moreover have "releases c (after_resync env c rc r)" for rc r
    by (auto simp: after_resync_def job_ends_release end_job_ops split: resync_outcome.split
        intro!: releases_bind releases_update)
  ultimately have "releases c (process_notification_job env c)"
    unfolding process_notification_job_def recover_mailbox_def follow_history_def triage_listed_def
    by (auto simp: job_ends_release split: option.split intro!: releases_bind releases_try)
  then show ?thesis using assms by (simp add: releases_def)
qed

end
