(* ===== verification/Worker_Coverage.thy ===== *)
theory Worker_Coverage
  imports Worker_Safety
begin

text \<open>
  What the worker has done with the listed messages when it completes a job: the bounds of the
  history listing, and that a job whose lease and triage rows no other session touches succeeds
  only after every listed message has a final triage result.
\<close>

section \<open>Bounds of the listing\<close>

definition listing_ok :: "int \<Rightarrow> str list \<Rightarrow> bool" where
  "listing_ok mx ids \<longleftrightarrow> distinct ids \<and> [] \<notin> set ids \<and> int (length ids) \<le> mx"

lemma added_messages_ok: "added_messages mx js ids = Inr ids' \<Longrightarrow> listing_ok mx ids \<Longrightarrow> listing_ok mx ids'"
proof (induction mx js ids rule: added_messages.induct)
  case (2 mx added rest ids)
  have ne: "added_message_id added \<noteq> Some []"
    by (auto simp: added_message_id_def split: option.split json.split)
  show ?case
    using 2 ne by (auto simp: listing_ok_def split: option.splits if_splits)
qed simp

lemma history_entries_ok:
  "history_entries mx hs ids latest = Inr (ids', latest') \<Longrightarrow> listing_ok mx ids \<Longrightarrow> listing_ok mx ids' \<and> latest \<le> latest'"
proof (induction mx hs ids latest rule: history_entries.induct)
  case (2 mx h rest ids latest)
  show ?case
    using 2 by (fastforce split: if_splits sum.splits option.splits dest: added_messages_ok)
qed simp

lemma history_page_ok:
  "history_page mx r ids latest = Inr (ids', latest') \<Longrightarrow> listing_ok mx ids \<Longrightarrow> listing_ok mx ids' \<and> latest \<le> latest'"
  by (fastforce simp: history_page_def split: sum.splits option.splits dest: history_entries_ok)

lemma answer_object_world [simp]: "snd (answer_object a w) = w"
  by (simp add: answer_object_def Let_def wreturn_def wraise_def)

lemma history_pages_ok:
  assumes "history_pages env cursor mx pages tok ids latest w = (r, w')" and "listing_ok mx ids"
  shows "ww_mail w' = ww_mail w \<and> length (ww_calls w') \<le> length (ww_calls w) + pages \<and>
    (\<forall>ids' latest'. r = Inr (ids', latest') \<longrightarrow> listing_ok mx ids' \<and> latest \<le> latest')"
  using assms
proof (induction pages arbitrary: tok ids latest w r w')
  case (Suc pages)
  obtain a w1 where g: "gmail env (HistoryList cursor tok) w = (a, w1)" by fastforce
  have w1: "ww_mail w1 = ww_mail w" "length (ww_calls w1) = length (ww_calls w) + 1"
    using gmail_world [of env "HistoryList cursor tok" w] by (simp_all add: g)
  show ?case
  proof (cases a)
    case (Inl e)
    then show ?thesis using Suc.prems(1) w1 by (auto simp: wbind_def g)
  next
    case (Inr v)
    note start = Suc.prems(1) [unfolded history_pages.simps wbind_def g, simplified, unfolded Inr, simplified]
    obtain o' where o: "answer_object v w1 = (o', w1)" using answer_object_world [of v w1] by (metis prod.collapse)
    show ?thesis
    proof (cases o')
      case (Inl e)
      then show ?thesis using start w1 by (auto simp: o)
    next
      case (Inr response)
      show ?thesis
      proof (cases "history_page mx response ids latest")
        case (Inl e)
        then show ?thesis using start w1 Inr o by (auto simp: of_result_def)
      next
        case page: (Inr p)
        obtain ids1 latest1 where p: "p = (ids1, latest1)" by fastforce
        note ok = history_page_ok [OF page [unfolded p] Suc.prems(2)]
        let ?next = "jget ''nextPageToken'' response"
        consider "\<not> truthy ?next" | "truthy ?next" "pages = 0 \<or> int (length ids1) \<ge> mx"
          | "truthy ?next" "\<not> (pages = 0 \<or> int (length ids1) \<ge> mx)" by blast
        then show ?thesis
        proof cases
          case 3
          then have "history_pages env cursor mx pages ?next ids1 latest1 w1 = (r, w')"
            using start Inr o page p by (auto simp: of_result_def Let_def)
          from Suc.IH [OF this] ok w1 show ?thesis by fastforce
        qed (use start Inr o page p ok w1 in \<open>auto simp: of_result_def Let_def wreturn_def wraise_def\<close>)
      qed
    qed
  qed
qed (simp add: wraise_def)

text \<open>
  C37. Listing the history of a mailbox ends after at most the configured number of requests and
  touches no table; a list that it returns names each message once, is no longer than the configured
  limit, and its final cursor is not behind the one it started from. Everything beyond the limits is
  the exception that sends the mailbox into recovery.
\<close>

theorem history_listing_bounded:
  assumes "history_message_ids env cursor max_messages max_pages w = (r, w')"
  shows "ww_mail w' = ww_mail w \<and> length (ww_calls w') \<le> length (ww_calls w) + nat max_pages \<and>
    (\<forall>ids final. r = Inr (ids, final) \<longrightarrow>
       distinct ids \<and> [] \<notin> set ids \<and> int (length ids) \<le> max_messages \<and> cursor \<le> final)"
proof (cases "max_messages < 1 \<or> max_pages < 1")
  case False
  then show ?thesis
    using history_pages_ok [of env cursor max_messages "nat max_pages" None "[]" cursor w r w'] assms
    by (auto simp: history_message_ids_def listing_ok_def)
qed (use assms in \<open>auto simp: history_message_ids_def wraise_def\<close>)

section \<open>Final triage results stay\<close>

lemma triage_by_key:
  assumes "mail_inv db" and "tbl_get tw_id i (triage db) = Some w" and "triage_key w = (e, mid)"
  shows "find_triage db e mid = Some w"
proof -
  have "w \<in> set (triage db)" using assms(2) by auto
  then show ?thesis
    using assms(1,3) tbl_get_unique [of triage_key "triage db" w] by (simp add: find_triage_def mail_inv_def triage_inv_def)
qed

lemma terminal_stays:
  assumes "mail_inv db" and "(mail_step lib s)\<^sup>*\<^sup>* db db'" and "triage_work_is_terminal e mid db"
  shows "triage_work_is_terminal e mid db'"
proof -
  obtain w where w: "find_triage db e mid = Some w" "triage_terminal (tw_state w)"
    using assms(3) by (auto simp: triage_work_is_terminal_def split: option.splits)
  note row = find_triageD [OF assms(1) w(1)]
  have m: "mail_inv db'" "triages_move db db'" using steps_rows_move [OF assms(2,1)] by simp_all
  from rows_moveD [OF m(2) row(1)] w(2) have "tbl_get tw_id (tw_id w) (triage db') = Some w"
    by (auto simp: triage_move_def)
  from triage_by_key [OF m(1) this row(2)] w(2) show ?thesis by (simp add: triage_work_is_terminal_def)
qed

section \<open>A held triage lease ends in a final result\<close>

definition held :: "str \<Rightarrow> str \<Rightarrow> claimed_triage \<Rightarrow> mail_db \<Rightarrow> bool" where
  "held e mid c db \<longleftrightarrow> mail_inv db \<and> (\<exists>row. leased_triage db c = Some row \<and> triage_key row = (e, mid))"

lemma held_cong: "held e mid c db \<Longrightarrow> triage d = triage db \<Longrightarrow> mail_inv d \<Longrightarrow> held e mid c d"
  by (simp add: held_def leased_triage_def)

lemma claim_held:
  assumes "mail_inv db" and "claim_triage_work s id ck i tok e mid h db = (Inr (Some c), db')"
  shows "held e mid c db'"
proof -
  have inv: "mail_inv db'" using claim_triage_inv [OF assms(1), of id s ck i tok e mid h] assms(1,2) by simp
  show ?thesis
  proof (cases "find_triage db e mid")
    case None
    have "tbl_get tw_id i (triage db) = None" using assms(2) None by (auto simp: claim_triage_work_def split: if_splits)
    then show ?thesis
      using assms(2) None inv
      by (auto simp: claim_triage_work_def held_def leased_triage_def tbl_get_append new_triage_def triage_key_def)
  next
    case (Some w)
    note row = find_triageD [OF assms(1) Some]
    have "tw_state w = TriageProcessing" if "\<not> triage_terminal (tw_state w)"
      using that by (cases "tw_state w") (simp_all add: triage_terminal_def)
    then show ?thesis
      using assms(2) Some inv row
      by (auto simp: claim_triage_work_def reclaim_triage_def held_def leased_triage_def put_triage_def tbl_get_put
          triage_key_def split: if_splits)
  qed
qed

lemma finalize_held:
  assumes "held e mid c db" and "triage_terminal st"
  shows "fst (finalize_triage_work t c st sm ec db) = Inr () \<and>
    triage_work_is_terminal e mid (snd (finalize_triage_work t c st sm ec db))"
proof -
  obtain row where l: "leased_triage db c = Some row" "triage_key row = (e, mid)" and inv: "mail_inv db"
    using assms(1) by (auto simp: held_def)
  let ?db = "snd (finalize_triage_work t c st sm ec db)"
  have r: "tbl_get tw_id (ct_id c) (triage db) = Some row" "tw_id row = ct_id c" using leased_triageD [OF l(1)] by auto
  then obtain row' where "tbl_get tw_id (ct_id c) (triage ?db) = Some row'" "triage_key row' = (e, mid)" "tw_state row' = st"
    using l assms(2) by (auto simp: finalize_triage_work_def put_triage_def tbl_get_put triage_key_def)
  with triage_by_key [OF finalize_triage_inv [OF inv]] have "find_triage ?db e mid = Some row'" "tw_state row' = st" by auto
  moreover have "fst (finalize_triage_work t c st sm ec db) = Inr ()"
    using assms(2) by (simp add: finalize_triage_work_def l)
  ultimately show ?thesis using assms(2) by (simp add: triage_work_is_terminal_def)
qed

section \<open>Undisturbed triage\<close>

text \<open>
  Until the leases lapse no other session touches the claimed job or the triage rows; new jobs and
  changes of the mailbox row are allowed.
\<close>

definition undisturbed :: "worker_env \<Rightarrow> claimed_job \<Rightarrow> bool" where
  "undisturbed env c \<longleftrightarrow> others_step env \<and>
     (\<forall>n db. tbl_get nj_id (cj_id c) (jobs (we_interfere env n db)) = tbl_get nj_id (cj_id c) (jobs db) \<and>
             triage (we_interfere env n db) = triage db \<and>
             tbl_get nj_id (cj_id c) (jobs (we_race env n db)) = tbl_get nj_id (cj_id c) (jobs db))"

lemma undisturbed_parts:
  assumes "undisturbed env c"
  shows "others_step env" and "triage (we_interfere env n db) = triage db"
    and "tbl_get nj_id (cj_id c) (jobs (we_interfere env n db)) = tbl_get nj_id (cj_id c) (jobs db)"
    and "tbl_get nj_id (cj_id c) (jobs (we_race env n db)) = tbl_get nj_id (cj_id c) (jobs db)"
  using assms by (simp_all add: undisturbed_def)

lemma others_inv:
  assumes "others_step env" and "mail_inv db"
  shows "mail_inv (we_interfere env n db)" and "mail_inv (we_race env n db)"
  using assms steps_rows_move unfolding others_step_def by blast+

text \<open>The claimed job keeps its row while messages are triaged.\<close>

interpretation triage_jobs: triage_effect
  "\<lambda>w w'. undisturbed env c \<longrightarrow>
     tbl_get nj_id (cj_id c) (jobs (ww_mail w')) = tbl_get nj_id (cj_id c) (jobs (ww_mail w))" env for c env
  by unfold_locales (auto simp: keeps_def triage_tx_def undisturbed_parts)

lemma finalize_triage_held:
  assumes "undisturbed env c" and "held e mid tc (ww_mail w)" and "triage_terminal st"
  shows "\<exists>w'. finalize_triage env tc st sm ec w = (Inr True, w') \<and> triage_work_is_terminal e mid (ww_mail w')"
proof -
  let ?db = "we_interfere env (ww_ticks w) (ww_mail w)"
  have "held e mid tc ?db"
    using held_cong [OF assms(2)] others_inv(1) [OF undisturbed_parts(1) [OF assms(1)]] assms(2)
    by (simp add: undisturbed_parts [OF assms(1)] held_def)
  from finalize_held [OF this assms(3), of "we_clock env (ww_ticks w) 0" sm ec] show ?thesis
    by (auto simp: finalize_triage_def wbind_def transact_def wreturn_def Let_def split: prod.split sum.split)
qed

text \<open>
  Analysing a held message ends in a final result, or raises with the lease still held.
\<close>

lemma analyse_held:
  assumes "undisturbed env c" and "held e mid tc (ww_mail w)" and "analyse_message env owner_id e mid tc w = (r, w')"
  shows "case r of Inr _ \<Rightarrow> triage_work_is_terminal e mid (ww_mail w') | Inl _ \<Rightarrow> held e mid tc (ww_mail w')"
proof -
  note fin = finalize_triage_held [OF assms(1)]
  obtain a w1 where g: "gmail env (MessagesGet mid) w = (a, w1)" by fastforce
  have h1: "held e mid tc (ww_mail w1)" using assms(2) gmail_world [of env "MessagesGet mid" w] by (simp add: g)
  show ?thesis
  proof (cases a)
    case (Inl x)
    then show ?thesis using assms(3) h1 by (auto simp: analyse_message_def wbind_def g)
  next
    case (Inr message)
    note run = assms(3) [unfolded analyse_message_def wbind_def g, simplified, unfolded Inr, simplified]
    show ?thesis
    proof (cases "extract_email_content (we_mime env) message")
      case (Inl x)
      then show ?thesis
        using run fin [OF h1, of TriageDeadLetter None "Some ''message_payload_invalid''"]
        by (auto simp: triage_terminal_def)
    next
      case content: (Inr content)
      show ?thesis
      proof (cases "should_process_email (Inr content)")
        case False
        then show ?thesis
          using run content fin [OF h1, of TriageNoop None None] by (auto simp: triage_terminal_def)
      next
        case True
        obtain t w2 where ag: "run_triage_agent env owner_id e content w1 = (t, w2)" by fastforce
        have h2: "held e mid tc (ww_mail w2)" using h1 agent_world_kept(1) [of env owner_id e content w1] by (simp add: ag)
        show ?thesis
          using run content True h2 fin [OF h2, of TriageSucceeded "Some (projr t)" None]
          by (cases t) (auto simp: ag wbind_def triage_terminal_def)
      qed
    qed
  qed
qed

lemma failure_held:
  assumes "undisturbed env c" and "held e mid tc (ww_mail w)" and "triage_failure env tc x w = (Inr True, w')"
  shows "triage_work_is_terminal e mid (ww_mail w')"
proof -
  have "release_triage env tc code w \<noteq> (Inr True, w')" for code
    by (auto simp: release_triage_def wbind_def wreturn_def split: prod.split sum.split)
  then show ?thesis
    using assms(3) finalize_triage_held [OF assms(1,2), of TriageNoop None "Some ''message_not_found''"]
      finalize_triage_held [OF assms(1,2), of TriageDeadLetter None "Some ''triage_failed''"]
    by (auto simp: triage_failure_def triage_terminal_def split: worker_exn.splits option.splits if_splits)
qed

lemma triage_message_terminal:
  assumes u: "undisturbed env c" and inv: "mail_inv (ww_mail w)"
    and t: "triage_message env owner_id e mid h w = (Inr True, w')"
  shows "triage_work_is_terminal e mid (ww_mail w')"
proof -
  let ?db = "we_interfere env (ww_ticks w) (ww_mail w)"
  define d where "d = (if find_triage ?db e mid = None then we_race env (ww_ticks w) ?db else ?db)"
  obtain r db' where cl: "claim_triage_work (we_settings env) id (we_clock env (ww_ticks w)) (we_new_id env (ww_ticks w))
      (we_token env (ww_ticks w)) e mid h d = (r, db')" by fastforce
  have "mail_inv d" unfolding d_def using others_inv [OF undisturbed_parts(1) [OF u]] inv by auto
  note held = claim_held [OF this]
  define w1 where "w1 = w\<lparr>ww_mail := db', ww_ticks := ww_ticks w + 1\<rparr>"
  have tx: "transact env (\<lambda>n. claim_triage_work (we_settings env) (we_race env n) (we_clock env n) (we_new_id env n)
      (we_token env n) e mid h) w = (Inr r, w1)"
    using cl unfolding transact_def Let_def claim_triage_linearises [of _ "we_race env (ww_ticks w)"] d_def w1_def by simp
  note run = t [unfolded triage_message_def wbind_def tx, simplified]
  consider (err) x where "r = Inl x" | (none) "r = Inr None" | (some) tc where "r = Inr (Some tc)"
    by (metis old.sum.exhaust option.exhaust)
  then show ?thesis
  proof cases
    case (some tc)
    have h: "held e mid tc (ww_mail w1)" using held cl some by (simp add: w1_def)
    obtain a w2 where an: "analyse_message env owner_id e mid tc w1 = (a, w2)" by fastforce
    from analyse_held [OF u h an] run some show ?thesis
      by (auto simp: wcatch_def an split: sum.splits if_splits dest: failure_held [OF u])
  qed (use run in \<open>auto simp: wraise_def transact_def Let_def\<close>)
qed

lemma triage_all_terminal:
  assumes "undisturbed env c" and "mail_inv (ww_mail w)" and "triage_all env owner_id e h ids w = (Inr True, w')"
  shows "\<forall>mid\<in>set ids. triage_work_is_terminal e mid (ww_mail w')"
  using assms(2,3)
proof (induction ids arbitrary: w)
  case (Cons mid ids)
  obtain b w1 where m: "triage_message env owner_id e mid h w = (b, w1)" by fastforce
  have b: "b = Inr True" and rest: "triage_all env owner_id e h ids w1 = (Inr True, w')"
    using Cons.prems(2) by (auto simp: wbind_def m wreturn_def split: sum.splits if_splits)
  note os = undisturbed_parts(1) [OF assms(1)]
  have "(mail_step (we_notify env) (we_settings env))\<^sup>*\<^sup>* (ww_mail w) (ww_mail w1)"
    using worker_steps.triage_message_kept [of env owner_id e mid h] os unfolding keeps_def by (metis m snd_conv)
  then have inv1: "mail_inv (ww_mail w1)" using steps_rows_move Cons.prems(1) by blast
  have "(mail_step (we_notify env) (we_settings env))\<^sup>*\<^sup>* (ww_mail w1) (ww_mail w')"
    using worker_steps.triage_all_kept [of env owner_id e h ids] os unfolding keeps_def by (metis rest snd_conv)
  from terminal_stays [OF inv1 this] triage_message_terminal [OF assms(1) Cons.prems(1) m [unfolded b]]
    Cons.IH [OF inv1 rest] show ?case by simp
qed simp

section \<open>Completed jobs have triaged what they listed\<close>

lemma fail_not_succeeded:
  assumes "tbl_get nj_id (cj_id c) (jobs db) = Some j" and "nj_state j \<noteq> JobSucceeded"
    and "tbl_get nj_id (cj_id c) (jobs (Notification_Jobs.fail_job s ck c err dl rr db)) = Some k"
  shows "nj_state k \<noteq> JobSucceeded"
proof (cases "leased_job db c")
  case None
  then show ?thesis using assms by (simp add: fail_job_def Let_def)
next
  case (Some i)
  have i: "tbl_get nj_id (cj_id c) (jobs db) = Some i" "nj_id i = cj_id c" using leased_jobD [OF Some] by auto
  have "\<exists>q d. Notification_Jobs.fail_job s ck c err dl rr db = put_job q d \<and> jobs d = jobs db \<and> nj_id q = nj_id i \<and>
      nj_state q \<noteq> JobSucceeded"
  proof (cases "find_mailbox db (cj_mailbox_email c)")
    case None
    then show ?thesis by (auto simp: fail_job_def Let_def Some intro!: exI [of _ db])
  next
    case m: (Some m)
    let ?now = "ck 0"
    let ?m = "start_resync_locked err ?now m"
    show ?thesis
      unfolding fail_job_def Let_def Some option.case m
      by (auto intro!: exI [of _ db] exI [of _ "put_mailbox ?m db"])
        (auto simp: put_mailbox_def back_to_pending_def intro!: exI [of _ "put_mailbox ?m db"] exI)
  qed
  then show ?thesis using assms(3) i by (auto simp: put_job_def tbl_get_put)
qed

definition succeeded :: "claimed_job \<Rightarrow> mail_db \<Rightarrow> bool" where
  "succeeded c db \<longleftrightarrow> (\<exists>k. tbl_get nj_id (cj_id c) (jobs db) = Some k \<and> nj_state k = JobSucceeded)"

lemma job_fails_not_succeeded:
  assumes "undisturbed env c" and "\<not> succeeded c (ww_mail w)" and "job_fails env c err dl rr w = (r, w')"
    and "tbl_get nj_id (cj_id c) (jobs (ww_mail w)) \<noteq> None"
  shows "\<not> succeeded c (ww_mail w')"
proof -
  let ?db = "we_interfere env (ww_ticks w) (ww_mail w)"
  obtain j where j: "tbl_get nj_id (cj_id c) (jobs ?db) = Some j" "nj_state j \<noteq> JobSucceeded"
    using assms(2,4) undisturbed_parts(3) [OF assms(1)] by (auto simp: succeeded_def)
  have "ww_mail w' = Notification_Jobs.fail_job (we_settings env) (we_clock env (ww_ticks w)) c err dl rr ?db"
    using assms(3) by (auto simp: job_fails_def update_def transact_def Let_def)
  then show ?thesis using fail_not_succeeded [OF j] by (auto simp: succeeded_def)
qed

lemma history_failure_fails: "\<exists>err dl rr. history_failure env c e = job_fails env c err dl rr"
  by (auto simp: history_failure_def split: worker_exn.split option.split)

lemma listed_job_row:
  assumes "list_history env cursor w = (r, w1)"
  shows "ww_mail w1 = ww_mail w"
proof -
  obtain u w0 where g: "gmail_service_for_owner env w = (u, w0)" by fastforce
  then have "ww_mail w0 = ww_mail w" by (auto simp: gmail_service_for_owner_def)
  then show ?thesis
    using assms history_pages_ok [where ids = "[]"]
    by (cases u) (auto simp: list_history_def wbind_def g history_message_ids_def wraise_def listing_ok_def split: if_splits)
qed

lemma follow_history_covers:
  assumes u: "undisturbed env c" and inv: "mail_inv (ww_mail w)"
    and j: "tbl_get nj_id (cj_id c) (jobs (ww_mail w)) = Some j" "nj_state j \<noteq> JobSucceeded"
    and f: "follow_history env c owner_id cursor w = (r, w')" and s: "succeeded c (ww_mail w')"
  shows "\<exists>ids final w1. list_history env cursor w = (Inr (ids, final), w1) \<and>
    (\<forall>mid\<in>set ids. triage_work_is_terminal (cj_mailbox_email c) mid (ww_mail w'))"
proof -
  obtain l w1 where l: "list_history env cursor w = (l, w1)" by fastforce
  note w1 = listed_job_row [OF l]
  have ns: "\<not> succeeded c (ww_mail w1)" "tbl_get nj_id (cj_id c) (jobs (ww_mail w1)) \<noteq> None"
    using j by (auto simp: succeeded_def w1)
  note fails = job_fails_not_succeeded [OF u]
  show ?thesis
  proof (cases l)
    case (Inl e)
    have "(if e = Cancelled then (Inl e, w1) else history_failure env c e w1) = (r, w')"
      using f by (simp add: follow_history_def wtry_def l Inl)
    then have "\<not> succeeded c (ww_mail w')"
      using ns fails [OF ns(1) _ ns(2)] history_failure_fails [of env c e] by (auto split: if_splits)
    then show ?thesis using s by simp
  next
    case (Inr p)
    obtain ids final where p: "p = (ids, final)" by fastforce
    obtain t w2 where t: "triage_all env owner_id (cj_mailbox_email c) final ids w1 = (t, w2)" by fastforce
    have row: "tbl_get nj_id (cj_id c) (jobs (ww_mail w2)) = tbl_get nj_id (cj_id c) (jobs (ww_mail w1))"
      using triage_jobs.triage_all_kept [of env c owner_id "cj_mailbox_email c" final ids] u
      unfolding keeps_def by (metis t snd_conv)
    have run: "wbind (triage_all env owner_id (cj_mailbox_email c) final ids) (\<lambda>completed.
        if completed then complete_job env c (max final (cj_history_id c))
        else job_fails env c ''triage_in_progress'' False False) w1 = (r, w')"
      using f by (simp add: follow_history_def wtry_def l Inr p triage_listed_def)
    have ns2: "\<not> succeeded c (ww_mail w2)" "tbl_get nj_id (cj_id c) (jobs (ww_mail w2)) \<noteq> None"
      using ns row by (simp_all add: succeeded_def)
    have True: "t = Inr True"
      using run s ns2 fails [OF ns2(1) _ ns2(2)] by (auto simp: wbind_def t split: sum.splits if_splits)
    have inv1: "mail_inv (ww_mail w1)" using inv w1 by simp
    have os: "others_step env" by (rule undisturbed_parts(1) [OF u])
    have st2: "(mail_step (we_notify env) (we_settings env))\<^sup>*\<^sup>* (ww_mail w1) (ww_mail w2)"
      using worker_steps.triage_all_kept [of env owner_id "cj_mailbox_email c" final ids] os
      unfolding keeps_def by (metis t snd_conv)
    have "complete_job env c (max final (cj_history_id c)) w2 = (r, w')"
      using run by (simp add: wbind_def t True)
    then have "(mail_step (we_notify env) (we_settings env))\<^sup>*\<^sup>* (ww_mail w2) (ww_mail w')"
      using worker_steps.job_ends_kept(1) [of env c "max final (cj_history_id c)"] os
      unfolding keeps_def by (metis snd_conv)
    from terminal_stays [OF _ this] triage_all_terminal [OF u inv1 t [unfolded True]] st2 inv1 steps_rows_move
    have "\<forall>mid\<in>set ids. triage_work_is_terminal (cj_mailbox_email c) mid (ww_mail w')" by blast
    then show ?thesis using l Inr p by blast
  qed
qed

text \<open>
  C8. A notification is only marked done when its messages are, provided that while it is processed
  no other session touches the claimed job or the triage rows (the leases are not taken over; other
  jobs and the mailbox row may change): if processing a leased job of an idle mailbox ends with the
  job succeeded, then its history id was already covered by the cursor, or every message that the
  listing of the history returned has a final triage result. So under that proviso the cursor never
  moves past a message that was listed but not triaged, whichever provider call failed on the way.
\<close>

theorem succeeded_job_triaged_everything:
  assumes "undisturbed env c" and "mail_inv (ww_mail w)" and "leased_job (ww_mail w) c \<noteq> None"
    and "find_mailbox (we_interfere env (ww_ticks w) (ww_mail w)) (cj_mailbox_email c) = Some m"
    and "ms_resync_state m = ResyncIdle" and "\<not> ms_resync_required m" and "ms_history_cursor m = Some cursor"
    and "process_notification_job env c w = (r, w')"
    and "tbl_get nj_id (cj_id c) (jobs (ww_mail w')) = Some k" and "nj_state k = JobSucceeded"
  shows "cj_history_id c \<le> cursor \<or>
    (\<exists>ids final w1. list_history env cursor (snd (transact env (\<lambda>n db. (job_mailbox_state c db, db)) w)) = (Inr (ids, final), w1) \<and>
       (\<forall>mid\<in>set ids. triage_work_is_terminal (cj_mailbox_email c) mid (ww_mail w')))"
proof (cases "cj_history_id c \<le> cursor")
  case False
  let ?w = "snd (transact env (\<lambda>n db. (job_mailbox_state c db, db)) w)"
  have mail: "ww_mail ?w = we_interfere env (ww_ticks w) (ww_mail w)" by (simp add: transact_snd)
  obtain j where l: "leased_job (ww_mail w) c = Some j" using assms(3) by blast
  from leased_jobD [OF this] have j: "tbl_get nj_id (cj_id c) (jobs (ww_mail ?w)) = Some j" "nj_state j \<noteq> JobSucceeded"
    by (auto simp: mail undisturbed_parts(3) [OF assms(1)])
  have inv: "mail_inv (ww_mail ?w)" using others_inv(1) [OF undisturbed_parts(1) [OF assms(1)] assms(2)] by (simp add: mail)
  have "follow_history env c (ms_user_id m) cursor ?w = (r, w')"
    using assms(4-8) False
    by (simp add: process_notification_job_def wbind_def transact_def Let_def job_mailbox_state_def)
  from follow_history_covers [OF assms(1) inv j this] assms(9,10) show ?thesis by (auto simp: succeeded_def)
qed simp

end
