(* ===== verification/Worker_Scenarios.thy ===== *)
theory Worker_Scenarios
  imports Worker_Coverage
begin

text \<open>
  Concrete runs of the worker: witnesses for its properties, and two schedules in which a message
  is passed over although its notification is marked done.
\<close>

section \<open>A mailbox with one notification\<close>

definition demo_worker_env :: "(gmail_request list \<Rightarrow> gmail_request \<Rightarrow> op_failure + json) \<Rightarrow> worker_env" where
  "demo_worker_env answer =
     \<lparr>we_notify = demo_notify_lib, we_settings = default_settings, we_mime = demo_mime_lib, we_tools = demo_tool_env,
      we_interfere = (\<lambda>n db. db), we_race = (\<lambda>n db. db), we_clock = (\<lambda>n k. 5), we_token = (\<lambda>n. ''t2''),
      we_new_id = (\<lambda>n. n + 100), we_locked = (\<lambda>n i. False), we_connection = (\<lambda>n. Inr ''o@x''),
      we_service = (\<lambda>n. None), we_answer = answer, we_llm = (\<lambda>n q k h. Inl LlmOperationTimeout),
      we_dumps = (\<lambda>c. []), we_fromtimestamp = (\<lambda>n. Some (int n)), we_zone = ''UTC'', we_monotonic = (\<lambda>n. 0),
      we_stopped = (\<lambda>n. False)\<rparr>"

text \<open>The history lists one message, which has been deleted since.\<close>

fun demo_gmail :: "gmail_request list \<Rightarrow> gmail_request \<Rightarrow> op_failure + json" where
  "demo_gmail calls (HistoryList _ _) = Inr (JObj [(''historyId'', JStr ''12''),
     (''history'', JArr [JObj [(''id'', JStr ''11''), (''messagesAdded'', JArr [JObj [(''message'', JObj [(''id'', JStr ''a'')])]])]])])"
| "demo_gmail calls (MessagesGet _) = Inl (GoogleFailure (GoogleOperationRejected (Some 404)))"
| "demo_gmail calls _ = Inr (JObj [])"

definition demo_worker_world :: worker_world where
  "demo_worker_world = \<lparr>ww_mail = \<lparr>jobs = [leased_row default_settings 5 ''t'' demo_job], mailboxes = [demo_mailbox], triage = []\<rparr>,
     ww_agent = demo_world, ww_calls = [], ww_ticks = 0\<rparr>"

text \<open>What a run has left: the jobs, the mailboxes, the triage rows and the requests to Gmail.\<close>

definition worker_report ::
  "worker_world \<Rightarrow> job_state list \<times> (resync_state \<times> int option) list \<times> (str \<times> triage_state \<times> str option) list \<times>
     gmail_request list" where
  "worker_report w =
     (map nj_state (jobs (ww_mail w)), map (\<lambda>m. (ms_resync_state m, ms_history_cursor m)) (mailboxes (ww_mail w)),
      map (\<lambda>t. (tw_message_id t, tw_state t, tw_lease_token t)) (triage (ww_mail w)), ww_calls w)"

lemma demo_env_quiet: "others_step (demo_worker_env answer)" "others_safe (demo_worker_env answer)"
  "undisturbed (demo_worker_env answer) c"
  by (simp_all add: others_step_def others_safe_def undisturbed_def demo_worker_env_def)

lemma demo_worker_mail: "ww_mail demo_worker_world = snd demo_job_claim"
  by (simp add: demo_worker_world_def demo_job_claim_def demo_claim_eq)

lemma demo_worker_inv: "mail_inv (ww_mail demo_worker_world)"
  unfolding demo_worker_mail using demo_claim_steps demo_mail3_inv steps_rows_move by blast

abbreviation demo_job_run :: "(worker_exn + unit) \<times> worker_world" where
  "demo_job_run \<equiv> process_notification_job (demo_worker_env demo_gmail) demo_claimed_job demo_worker_world"

lemma demo_job_run_result:
  "(case demo_job_run of (r, w) \<Rightarrow> (r, map (\<lambda>j. (nj_id j, nj_state j)) (jobs (ww_mail w)))) = (Inr (), [(1, JobSucceeded)])"
  by code_simp

section \<open>Witnesses\<close>

lemma worker_refines_service_witness:
  "(mail_step demo_notify_lib default_settings)\<^sup>*\<^sup>* (ww_mail demo_worker_world)
     (ww_mail (snd (worker_iteration (demo_worker_env demo_gmail) 7 demo_worker_world)))"
  using worker_refines_service [OF demo_env_quiet(1) [of demo_gmail], of demo_worker_world 7] by (simp add: demo_worker_env_def)

lemma worker_keeps_invariants_witness:
  "mail_inv (ww_mail (snd (run_notification_worker (demo_worker_env demo_gmail) 7 3 0 demo_worker_world)))"
proof -
  have "action_inv (aw_db (ww_agent demo_worker_world))"
    by (simp add: demo_worker_world_def demo_world_def no_actions_def action_inv_def keys_distinct_def)
  with worker_keeps_invariants [OF demo_env_quiet(2) [of demo_gmail] demo_worker_inv, of 7 3 0] show ?thesis by simp
qed

lemma processed_job_released_witness: "leased_job (ww_mail (snd demo_job_run)) demo_claimed_job = None"
proof (rule processed_job_released)
  show "demo_job_run = (Inr (), snd demo_job_run)" using demo_job_run_result by (auto split: prod.splits)
qed

lemma history_listing_bounded_witness:
  "\<exists>ids final w'. history_message_ids (demo_worker_env demo_gmail) 10 100 10 demo_worker_world = (Inr (ids, final), w') \<and>
     ids = [''a''] \<and> distinct ids \<and> 10 \<le> final \<and> length (ww_calls w') \<le> 10"
proof -
  let ?r = "history_message_ids (demo_worker_env demo_gmail) 10 100 10 demo_worker_world"
  have f: "fst ?r = Inr ([''a''], 12)" by code_simp
  then have e: "?r = (Inr ([''a''], 12), snd ?r)" by (simp add: prod_eq_iff)
  have "length (ww_calls demo_worker_world) = 0" by (simp add: demo_worker_world_def)
  then show ?thesis using history_listing_bounded [OF e] e by (metis add_0 nat_numeral)
qed

lemma succeeded_job_triaged_everything_witness:
  "\<exists>ids final w1. list_history (demo_worker_env demo_gmail) 10
       (snd (transact (demo_worker_env demo_gmail) (\<lambda>n db. (job_mailbox_state demo_claimed_job db, db)) demo_worker_world))
         = (Inr (ids, final), w1) \<and>
     (\<forall>mid\<in>set ids. triage_work_is_terminal ''o@x'' mid (ww_mail (snd demo_job_run)))"
proof -
  have l: "leased_job (ww_mail demo_worker_world) demo_claimed_job \<noteq> None"
    by (simp add: demo_worker_world_def leased_job_def demo_claimed_job_def leased_row_def demo_job_def new_job_def)
  have m: "find_mailbox (we_interfere (demo_worker_env demo_gmail) (ww_ticks demo_worker_world) (ww_mail demo_worker_world))
      (cj_mailbox_email demo_claimed_job) = Some demo_mailbox"
    by (simp add: demo_worker_env_def demo_worker_world_def find_mailbox_def demo_claimed_job_def demo_mailbox_def new_mailbox_def)
  have s: "ms_resync_state demo_mailbox = ResyncIdle" "\<not> ms_resync_required demo_mailbox" "ms_history_cursor demo_mailbox = Some 10"
    by (simp_all add: demo_mailbox_def new_mailbox_def)
  obtain k where k: "jobs (ww_mail (snd demo_job_run)) = [k]" "nj_state k = JobSucceeded" "nj_id k = 1"
    using demo_job_run_result by (auto split: prod.splits)
  have "tbl_get nj_id (cj_id demo_claimed_job) (jobs (ww_mail (snd demo_job_run))) = Some k"
    unfolding k by (simp add: k demo_claimed_job_def)
  from succeeded_job_triaged_everything [OF demo_env_quiet(3) demo_worker_inv l m s _ this k(2), of "fst demo_job_run"]
  show ?thesis by (simp add: demo_claimed_job_def)
qed

section \<open>A message that arrives during recovery\<close>

text \<open>
  Gmail as the recovery sees it: the inbox is empty when it is listed; the message \<open>late\<close>
  arrives right after that, with history id 15; the profile then reports history id 20.
\<close>

definition was_listed :: "gmail_request list \<Rightarrow> bool" where
  "was_listed calls = list_ex (\<lambda>q. case q of MessagesList _ _ \<Rightarrow> True | _ \<Rightarrow> False) calls"

definition late_entry :: json where
  "late_entry = JObj [(''id'', JStr ''late'')]"

fun late_gmail :: "gmail_request list \<Rightarrow> gmail_request \<Rightarrow> op_failure + json" where
  "late_gmail calls (MessagesList _ _) = Inr (JObj [(''messages'', JArr (if was_listed calls then [late_entry] else []))])"
| "late_gmail calls (HistoryList h _) = Inr (JObj [(''historyId'', JStr ''20''),
     (''history'', JArr (if was_listed calls \<and> h < 15
        then [JObj [(''id'', JStr ''15''), (''messagesAdded'', JArr [JObj [(''message'', late_entry)]])]] else []))])"
| "late_gmail calls GetProfile = Inr (JObj [(''historyId'', JStr (if was_listed calls then ''20'' else ''14''))])"
| "late_gmail calls _ = Inr (JObj [])"

text \<open>The history has expired, so the mailbox needs recovery; the job is claimed again for it.\<close>

definition late_claim :: "claimed_job option \<times> mail_db" where
  "late_claim = claim_notification_job default_settings (\<lambda>_. 6) ''t3'' (\<lambda>_. False) 7
     (Notification_Jobs.fail_job default_settings (\<lambda>_. 5) demo_claimed_job ''history_cursor_expired'' False True
        (ww_mail demo_worker_world))"

definition late_recovered :: worker_world where
  "late_recovered = snd (process_notification_job (demo_worker_env late_gmail) (the (fst late_claim))
     (demo_worker_world\<lparr>ww_mail := snd late_claim\<rparr>))"

text \<open>Then the notification for \<open>late\<close> arrives and is processed.\<close>

definition late_notified :: "worker_world \<Rightarrow> claimed_job option \<times> mail_db" where
  "late_notified w = claim_notification_job default_settings (\<lambda>_. 8) ''t4'' (\<lambda>_. False) 7
     (snd (enqueue_notification demo_notify_lib 2 7 (Inr ''o@x'')
        \<lparr>ne_pubsub_message_id = ''m2'', ne_mailbox_email = ''o@x'', ne_history_id = 15\<rparr> 7 (ww_mail w)))"

definition late_processed :: "worker_world \<Rightarrow> worker_world" where
  "late_processed w = (let n = late_notified w in
     snd (process_notification_job (demo_worker_env late_gmail) (the (fst n)) (w\<lparr>ww_mail := snd n\<rparr>)))"

text \<open>
  Recovery takes the new cursor from the profile after it has listed the inbox. In this run the
  message that arrives in between is in the inbox, both jobs end as succeeded and the mailbox is idle
  with the cursor past the message, and yet the worker never fetched the message and there is no
  triage row for it.
\<close>

lemma recovery_skips_late_message:
  "worker_report (late_processed late_recovered) =
     ([JobSucceeded, JobSucceeded], [(ResyncIdle, Some 20)], [], [MessagesList 100 None, GetProfile]) \<and>
   late_gmail [MessagesList 100 None, GetProfile] (MessagesList 100 None) = Inr (JObj [(''messages'', JArr [late_entry])])"
  by code_simp

section \<open>A triage lease that is taken over\<close>

text \<open>
  While this worker waits for Gmail its triage lease lapses, and just before it records its result
  another worker claims the message.
\<close>

definition takeover_env :: worker_env where
  "takeover_env = (demo_worker_env demo_gmail)\<lparr>we_interfere := (\<lambda>n db. if n = 5
     then snd (claim_triage_work default_settings id (\<lambda>_. seconds 500) 999 ''other'' ''o@x'' ''a'' 12 db) else db)\<rparr>"

definition takeover_run :: worker_world where
  "takeover_run = snd (process_notification_job takeover_env demo_claimed_job demo_worker_world)"

text \<open>
  A lost triage lease goes unnoticed: in this run the worker's result for message \<open>a\<close>
  is discarded because another worker has taken the row over, but the worker still counts the
  message as done, the job succeeds and the cursor moves past the message while its triage row is
  still open under the other lease.
\<close>

lemma lost_triage_lease_unnoticed:
  "worker_report takeover_run =
     ([JobSucceeded], [(ResyncIdle, Some 12)], [(''a'', TriageProcessing, Some ''other'')],
      [HistoryList 10 None, MessagesGet ''a''])"
  by code_simp

end
