(* ===== verification/Triage_Results.thy ===== *)
theory Triage_Results
  imports Action_Safety Notification_Properties
begin

text \<open>
  Reading the triage results (\<open>server/services/triage_results.py\<close>). The caller's mailbox
  is looked up in the credential table, here the list of user ids with their normalised Google
  address; the list service is the second instance of the contract \<open>keyset_listing\<close>.
\<close>

section \<open>Operations\<close>

type_synonym token_table = "(uuid \<times> str option) list"

definition PREVIEW_CHARS :: nat where
  "PREVIEW_CHARS = 280"

record triage_view =
  tr_id :: uuid
  tr_message_id :: str
  tr_state :: triage_state
  tr_summary :: "str option"
  tr_last_error_code :: "str option"
  tr_created_at :: time
  tr_processed_at :: "time option"

datatype triage_error = TriageResultNotFound | InvalidTriagePageToken

text \<open>\<open>None\<close> is \<open>NULL\<close>, with which no comparison is true.\<close>

definition owner_mailbox :: "token_table \<Rightarrow> uuid \<Rightarrow> str option" where
  "owner_mailbox tokens user_id = Option.bind (map_of tokens user_id) id"

definition owns_triage :: "token_table \<Rightarrow> uuid \<Rightarrow> triage_work \<Rightarrow> bool" where
  "owns_triage tokens user_id w = (owner_mailbox tokens user_id = Some (tw_mailbox_email w))"

definition owned_triage :: "token_table \<times> mail_db \<Rightarrow> uuid \<times> triage_state \<Rightarrow> triage_work list" where
  "owned_triage d q = filter (\<lambda>w. owns_triage (fst d) (fst q) w \<and> tw_state w = snd q) (triage (snd d))"

definition triage_row_key :: "triage_work \<Rightarrow> time \<times> uuid" where
  "triage_row_key w = (tw_created_at w, tw_id w)"

definition triage_row :: "(str \<Rightarrow> str) \<Rightarrow> triage_work \<Rightarrow> triage_view" where
  "triage_row shorten w = \<lparr>tr_id = tw_id w, tr_message_id = tw_message_id w, tr_state = tw_state w,
     tr_summary = map_option shorten (tw_triage_summary w), tr_last_error_code = tw_last_error_code w,
     tr_created_at = tw_created_at w, tr_processed_at = tw_processed_at w\<rparr>"

definition triage_preview :: "triage_work \<Rightarrow> triage_view" where
  "triage_preview w = triage_row (take PREVIEW_CHARS) w"

definition list_triage_results ::
  "page_lib \<Rightarrow> token_table \<times> mail_db \<Rightarrow> uuid \<times> triage_state \<Rightarrow> nat \<Rightarrow> str option \<Rightarrow>
   triage_error + triage_view list \<times> str option" where
  "list_triage_results lib d q limit page_token =
     (case (case page_token of None \<Rightarrow> Some None | Some t \<Rightarrow> map_option Some (decode_page_token lib t)) of
        None \<Rightarrow> Inl InvalidTriagePageToken
      | Some cur \<Rightarrow>
          let rows = take (limit + 1) (keyset_rows triage_row_key (owned_triage d q) cur);
              page = take limit rows
          in Inr (map triage_preview page,
                  if length rows > limit
                  then Some (encode_page_token lib (tw_created_at (last page), tw_id (last page))) else None))"

definition get_triage_result :: "token_table \<times> mail_db \<Rightarrow> uuid \<Rightarrow> uuid \<Rightarrow> triage_error + triage_view" where
  "get_triage_result d result_id user_id =
     (case find (\<lambda>w. tw_id w = result_id \<and> owns_triage (fst d) user_id w) (triage (snd d)) of
        None \<Rightarrow> Inl TriageResultNotFound
      | Some w \<Rightarrow> Inr (triage_row id w))"

section \<open>Listing\<close>

interpretation triage_pages: keyset_listing
  page_lib_ok list_triage_results "\<lambda>lib. owned_triage" triage_row_key "\<lambda>lib. triage_preview" encode_page_token
proof
  fix lib db q limit cur
  assume ok: "page_lib_ok lib"
  show "list_triage_results lib db q limit (map_option (encode_page_token lib) cur) =
      Inr (map triage_preview (fst (keyset_page triage_row_key (owned_triage db q) cur limit)),
        map_option (encode_page_token lib) (snd (keyset_page triage_row_key (owned_triage db q) cur limit)))"
    by (cases cur) (simp_all add: list_triage_results_def keyset_page_def Let_def decode_encoded [OF ok] triage_row_key_def)
qed

lemma owned_triage_rows: "w \<in> set (owned_triage d q) \<Longrightarrow> w \<in> set (triage (snd d)) \<and> owns_triage (fst d) (fst q) w"
  by (simp add: owned_triage_def)

lemma listed_triage:
  assumes "list_triage_results lib d q limit t = Inr (items, tok)" and "x \<in> set items"
  shows "\<exists>w\<in>set (owned_triage d q). x = triage_preview w"
  using assms by (auto simp: list_triage_results_def Let_def split: option.splits dest!: in_set_takeD) blast+

lemma triage_keys_distinct: "mail_inv (snd d) \<Longrightarrow> keys_distinct triage_row_key (owned_triage d q)"
proof -
  assume "mail_inv (snd d)"
  then have "distinct (map tw_id (triage (snd d)))" by (simp add: mail_inv_def triage_inv_def keys_distinct_def)
  then have "distinct (map tw_id (owned_triage d q))" by (simp add: owned_triage_def distinct_map_filter)
  then have "distinct (map (snd \<circ> triage_row_key) (owned_triage d q))" by (simp add: triage_row_key_def comp_def)
  then show ?thesis unfolding keys_distinct_def by (metis distinct_map map_map)
qed

text \<open>
  C35. A user sees the triage results of the own mailbox, all of them and no others: following the
  page tokens lists every result in the asked state exactly once, newest first; a result of another
  mailbox is neither listed nor readable by its id; and a user without a connected account sees
  nothing.
\<close>

theorem triage_results_complete_and_private:
  assumes "page_lib_ok lib" and "mail_inv (snd d)" and "0 < limit" and "length (owned_triage d (user, st)) < n"
  shows "triage_pages.walk lib (\<lambda>i. d) (user, st) limit 0 n None =
      map triage_preview (keyset_rows triage_row_key (owned_triage d (user, st)) None) \<and>
    (\<forall>w\<in>set (triage (snd d)). owner_mailbox (fst d) user \<noteq> Some (tw_mailbox_email w) \<longrightarrow>
       get_triage_result d (tw_id w) user = Inl TriageResultNotFound) \<and>
    (owner_mailbox (fst d) user = None \<longrightarrow> list_triage_results lib d (user, st) limit None = Inr ([], None))"
proof -
  have "triage_pages.grows lib (\<lambda>i. d) (user, st)"
    using triage_keys_distinct [OF assms(2)] by (simp add: triage_pages.grows_def)
  then have "triage_pages.walk lib (\<lambda>i. d) (user, st) limit 0 n None =
      map triage_preview (keyset_rows triage_row_key (owned_triage d (user, st)) None)"
    using triage_pages.walk_all [OF assms(1) _ assms(3)] assms(4) by simp
  moreover have "get_triage_result d (tw_id w) user = Inl TriageResultNotFound"
    if "w \<in> set (triage (snd d))" "owner_mailbox (fst d) user \<noteq> Some (tw_mailbox_email w)" for w
  proof -
    have "v = w" if "v \<in> set (triage (snd d))" "tw_id v = tw_id w" for v
      using that \<open>w \<in> set (triage (snd d))\<close> assms(2)
      by (auto simp: mail_inv_def triage_inv_def keys_distinct_def distinct_map dest: inj_onD)
    then have "find (\<lambda>v. tw_id v = tw_id w \<and> owns_triage (fst d) user v) (triage (snd d)) = None"
      using \<open>owner_mailbox (fst d) user \<noteq> Some (tw_mailbox_email w)\<close> by (auto simp: find_None_iff owns_triage_def)
    then show ?thesis by (simp add: get_triage_result_def)
  qed
  moreover have "list_triage_results lib d (user, st) limit None = Inr ([], None)" if "owner_mailbox (fst d) user = None"
    using that by (simp add: list_triage_results_def owned_triage_def owns_triage_def keyset_rows_def)
  ultimately show ?thesis by blast
qed

definition demo_triage_db :: mail_db where
  "demo_triage_db = snd (claim_triage_work default_settings id (\<lambda>_. 5) 9 ''t'' ''o@x'' ''a'' 12 demo_mail3)"

lemma triage_results_complete_and_private_witness:
  "map tr_message_id (triage_pages.walk demo_page_lib (\<lambda>i. ([(7, Some ''o@x''), (8, Some ''p@x'')], demo_triage_db))
       (7, TriageProcessing) 1 0 2 None) = [''a''] \<and>
   get_triage_result ([(7, Some ''o@x''), (8, Some ''p@x'')], demo_triage_db) 9 8 = Inl TriageResultNotFound"
proof -
  let ?d = "([(7, Some ''o@x''), (8, Some ''p@x'')], demo_triage_db)" and ?w = "new_triage default_settings (\<lambda>_. 5) 9 ''t'' ''o@x'' ''a'' 12"
  have t: "triage demo_triage_db = [?w]"
    by (simp add: demo_triage_db_def claim_triage_work_def demo_mail3_eq find_triage_def)
  have w: "tw_id ?w = 9" "tw_mailbox_email ?w = ''o@x''" "tw_message_id ?w = ''a''" "tw_state ?w = TriageProcessing"
    by (simp_all add: new_triage_def)
  have i: "mail_inv (snd ?d)"
    unfolding demo_triage_db_def snd_conv by (rule claim_triage_inv) (simp_all add: demo_mail3_inv)
  have o: "owned_triage ?d (7, TriageProcessing) = [?w]" "owned_triage ?d (8, TriageProcessing) = []"
    by (simp_all add: owned_triage_def owns_triage_def owner_mailbox_def t w)
  have "triage_pages.walk demo_page_lib (\<lambda>i. ?d) (7, TriageProcessing) 1 0 2 None = [triage_preview ?w]"
    using triage_results_complete_and_private [OF demo_page_lib_ok i, of 1 7 TriageProcessing 2]
    by (simp add: o keyset_rows_def)
  moreover have "get_triage_result ?d (tw_id ?w) 8 = Inl TriageResultNotFound"
    using triage_results_complete_and_private [OF demo_page_lib_ok i, of 1 8 TriageProcessing 1]
    by (simp add: o t w owner_mailbox_def)
  ultimately show ?thesis by (simp add: triage_preview_def triage_row_def w)
qed

end
