(* ===== verification/Credential_Codec.thy ===== *)
theory Credential_Codec
  imports Mime
begin

text \<open>
  Authenticated encryption of stored credentials (\<open>server/security/oauth_credentials.py\<close>): the
  keyring, the associated data that binds a ciphertext to one user and one Google address, and the
  codec. Base64, UTF-8 and the text of a UUID are computed exactly; AES-GCM and JSON text are the
  parameter \<open>codec_lib\<close>, and \<open>codec_lib_ok\<close> states what is relied on: opening inverts
  sealing, and nothing opens but what was sealed with the same associated data.
\<close>

section \<open>Text as bytes\<close>

type_synonym bytes = "nat list"

definition utf8_char :: "char \<Rightarrow> bytes" where
  "utf8_char c = (let n = (of_char c :: nat) in if n < 128 then [n] else [192 + n div 64, 128 + n mod 64])"

definition utf8 :: "str \<Rightarrow> bytes" where
  "utf8 s = concat (map utf8_char s)"

definition hex_char :: "nat \<Rightarrow> char" where
  "hex_char d = (if d < 10 then char_of (48 + d) else char_of (87 + d))"

fun hex_text :: "nat \<Rightarrow> nat \<Rightarrow> str" where
  "hex_text 0 n = []"
| "hex_text (Suc k) n = hex_text k (n div 16) @ [hex_char (n mod 16)]"

text \<open>\<open>str\<close> of a UUID: 32 hexadecimal digits in five groups.\<close>

definition uuid_text :: "uuid \<Rightarrow> str" where
  "uuid_text u = (let h = hex_text 32 u in
     take 8 h @ ''-'' @ take 4 (drop 8 h) @ ''-'' @ take 4 (drop 12 h) @ ''-'' @ take 4 (drop 16 h) @ ''-'' @ drop 20 h)"

section \<open>The codec\<close>

record codec_lib =
  co_dumps :: "json \<Rightarrow> str option"
  co_loads :: "bytes \<Rightarrow> json option"
  co_seal :: "bytes \<Rightarrow> bytes \<Rightarrow> bytes \<Rightarrow> bytes \<Rightarrow> bytes"
  co_open :: "bytes \<Rightarrow> bytes \<Rightarrow> bytes \<Rightarrow> bytes \<Rightarrow> bytes option"

datatype codec_error = CredentialCodecError

record encrypted_payload =
  ep_ciphertext :: str
  ep_key_id :: str
  ep_format_version :: str

record codec =
  cc_keyring :: "(str \<times> bytes) list"
  cc_active_key_id :: str

definition NONCE_BYTES :: nat where
  "NONCE_BYTES = 12"

definition KEY_BYTES :: nat where
  "KEY_BYTES = 32"

definition FORMAT_VERSION :: str where
  "FORMAT_VERSION = ''v1''"

definition CREDENTIAL_AAD_DOMAIN :: str where
  "CREDENTIAL_AAD_DOMAIN = ''onebox.oauth-credentials''"

definition keyring_entry :: "str \<times> json \<Rightarrow> codec_error + str \<times> bytes" where
  "keyring_entry entry =
     (case entry of
        (key_id, JStr encoded_key) \<Rightarrow>
          (if strip key_id = [] then Inl CredentialCodecError
           else case b64decode_validate encoded_key of
             None \<Rightarrow> Inl CredentialCodecError
           | Some key \<Rightarrow> if length key \<noteq> KEY_BYTES then Inl CredentialCodecError else Inr (key_id, key))
      | _ \<Rightarrow> Inl CredentialCodecError)"

fun keyring_entries :: "(str \<times> json) list \<Rightarrow> codec_error + (str \<times> bytes) list" where
  "keyring_entries [] = Inr []"
| "keyring_entries (e # es) =
     (case keyring_entry e of
        Inl x \<Rightarrow> Inl x
      | Inr k \<Rightarrow> (case keyring_entries es of Inl x \<Rightarrow> Inl x | Inr ks \<Rightarrow> Inr (k # ks)))"

text \<open>The keyring file as parsed JSON; \<open>None\<close> if it cannot be read or parsed.\<close>

definition load_keyring :: "json option \<Rightarrow> codec_error + (str \<times> bytes) list" where
  "load_keyring raw =
     (case raw of
        Some (JObj entries) \<Rightarrow> (if entries = [] then Inl CredentialCodecError else keyring_entries entries)
      | _ \<Rightarrow> Inl CredentialCodecError)"

definition make_codec :: "(str \<times> bytes) list \<Rightarrow> str \<Rightarrow> codec_error + codec" where
  "make_codec keyring active_key_id =
     (if map_of keyring active_key_id = None \<or> list_ex (\<lambda>(i, key). length key \<noteq> KEY_BYTES) keyring
      then Inl CredentialCodecError
      else Inr \<lparr>cc_keyring = keyring, cc_active_key_id = active_key_id\<rparr>)"

definition from_keyring_file :: "json option \<Rightarrow> str \<Rightarrow> codec_error + codec" where
  "from_keyring_file raw active_key_id =
     (case load_keyring raw of Inl e \<Rightarrow> Inl e | Inr keyring \<Rightarrow> make_codec keyring active_key_id)"

definition canonical_payload :: "codec_lib \<Rightarrow> json \<Rightarrow> codec_error + bytes" where
  "canonical_payload L payload =
     (if \<not> is_jobj payload then Inl CredentialCodecError
      else case co_dumps L payload of None \<Rightarrow> Inl CredentialCodecError | Some t \<Rightarrow> Inr (utf8 t))"

definition aad :: "uuid \<Rightarrow> str \<Rightarrow> str \<Rightarrow> bytes" where
  "aad user_id normalized_google_email format_version =
     utf8 CREDENTIAL_AAD_DOMAIN @ [0] @ utf8 format_version @ [0] @ utf8 (uuid_text user_id) @ [0] @ utf8 normalized_google_email"

text \<open>The nonce is what \<open>os.urandom\<close> returns.\<close>

definition encrypt ::
  "codec_lib \<Rightarrow> codec \<Rightarrow> bytes \<Rightarrow> json \<Rightarrow> uuid \<Rightarrow> str \<Rightarrow> codec_error + encrypted_payload" where
  "encrypt L codec nonce payload user_id normalized_google_email =
     (case canonical_payload L payload of
        Inl e \<Rightarrow> Inl e
      | Inr plaintext \<Rightarrow>
          (case map_of (cc_keyring codec) (cc_active_key_id codec) of
             None \<Rightarrow> Inl CredentialCodecError
           | Some key \<Rightarrow>
               Inr \<lparr>ep_ciphertext = urlsafe_b64encode (nonce @ co_seal L key nonce plaintext (aad user_id normalized_google_email FORMAT_VERSION)),
                    ep_key_id = cc_active_key_id codec, ep_format_version = FORMAT_VERSION\<rparr>))"

definition decrypt ::
  "codec_lib \<Rightarrow> codec \<Rightarrow> str \<Rightarrow> str \<Rightarrow> str \<Rightarrow> uuid \<Rightarrow> str \<Rightarrow> codec_error + json" where
  "decrypt L codec ciphertext key_id format_version user_id normalized_google_email =
     (case map_of (cc_keyring codec) key_id of
        None \<Rightarrow> Inl CredentialCodecError
      | Some key \<Rightarrow>
          (if format_version \<noteq> FORMAT_VERSION then Inl CredentialCodecError
           else case b64decode_validate ciphertext of
             None \<Rightarrow> Inl CredentialCodecError
           | Some encrypted \<Rightarrow>
               (if length encrypted \<le> NONCE_BYTES then Inl CredentialCodecError
                else case co_open L key (take NONCE_BYTES encrypted) (drop NONCE_BYTES encrypted)
                            (aad user_id normalized_google_email format_version) of
                  None \<Rightarrow> Inl CredentialCodecError
                | Some plaintext \<Rightarrow>
                    (case co_loads L plaintext of
                       Some (JObj kvs) \<Rightarrow> Inr (JObj kvs)
                     | _ \<Rightarrow> Inl CredentialCodecError))))"

section \<open>What is relied on\<close>

text \<open>Serialisation sorts the keys, so what is read back is the same object up to their order.\<close>

definition same_object :: "json \<Rightarrow> json \<Rightarrow> bool" where
  "same_object p q = (is_jobj p \<and> is_jobj q \<and> (\<forall>k. jget k p = jget k q))"

definition codec_lib_ok :: "codec_lib \<Rightarrow> bool" where
  "codec_lib_ok L =
     ((\<forall>p t. is_jobj p \<and> co_dumps L p = Some t \<longrightarrow> (\<exists>q. co_loads L (utf8 t) = Some q \<and> same_object p q)) \<and>
      (\<forall>k n p a. is_bytes p \<and> is_bytes a \<longrightarrow> is_bytes (co_seal L k n p a) \<and> co_seal L k n p a \<noteq> []) \<and>
      (\<forall>k n p a. co_open L k n (co_seal L k n p a) a = Some p) \<and>
      (\<forall>k n c a p. co_open L k n c a = Some p \<longrightarrow> c = co_seal L k n p a) \<and>
      (\<forall>k n p a p' a'. co_seal L k n p a = co_seal L k n p' a' \<longrightarrow> a = a'))"

section \<open>Lemmas\<close>

lemma of_char_bound: "(of_char c :: nat) < 256"
  by (metis mod_less_divisor of_char_mod_256 zero_less_numeral)

lemma utf8_Cons: "utf8 (c # s) = utf8_char c @ utf8 s"
  by (simp add: utf8_def)

lemma utf8_Nil [simp]: "utf8 [] = []"
  by (simp add: utf8_def)

lemma utf8_append: "utf8 (s @ t) = utf8 s @ utf8 t"
  by (simp add: utf8_def)

lemma utf8_char_bytes: "is_bytes (utf8_char c)"
proof -
  have "(of_char c :: nat) div 64 < 4" using of_char_bound [of c] by (rule less_mult_imp_div_less [of _ 4 64, simplified])
  moreover have "(of_char c :: nat) mod 64 < 64" by simp
  ultimately show ?thesis by (auto simp: utf8_char_def is_bytes_def Let_def simp del: of_char_mod_256)
qed

lemma is_bytes_append [simp]: "is_bytes (s @ t) \<longleftrightarrow> is_bytes s \<and> is_bytes t"
  by (simp add: is_bytes_def)

lemma is_bytes_Cons [simp]: "is_bytes (b # s) \<longleftrightarrow> b < 256 \<and> is_bytes s"
  by (simp add: is_bytes_def)

lemma is_bytes_Nil [simp]: "is_bytes []"
  by (simp add: is_bytes_def)

lemma is_bytes_utf8 [simp]: "is_bytes (utf8 s)"
  by (induction s) (simp_all add: utf8_Cons utf8_char_bytes)

text \<open>UTF-8 is self-delimiting.\<close>

lemma utf8_char_inj: "utf8_char c @ x = utf8_char d @ y \<Longrightarrow> c = d \<and> x = y"
proof -
  assume same: "utf8_char c @ x = utf8_char d @ y"
  define m n where "m = (of_char c :: nat)" and "n = (of_char d :: nat)"
  have "x = y \<and> (m = n \<or> m div 64 = n div 64 \<and> m mod 64 = n mod 64)"
    using same unfolding utf8_char_def Let_def m_def [symmetric] n_def [symmetric] by (auto split: if_splits)
  then have "m = n \<and> x = y" by (metis div_mult_mod_eq)
  then show ?thesis by (simp add: m_def n_def)
qed

lemma utf8_inj: "utf8 s = utf8 t \<Longrightarrow> s = t"
proof (induction s arbitrary: t)
  case Nil
  then show ?case by (cases t) (auto simp: utf8_Cons utf8_char_def Let_def split: if_splits)
next
  case (Cons c s)
  then obtain d t' where t: "t = d # t'" by (cases t) (auto simp: utf8_Cons utf8_char_def Let_def split: if_splits)
  then show ?case using Cons utf8_char_inj [of c "utf8 s" d "utf8 t'"] by (simp add: utf8_Cons)
qed

lemma hex_char_code: "d < 16 \<Longrightarrow> (of_char (hex_char d) :: nat) = (if d < 10 then 48 + d else 87 + d)"
  by (simp add: hex_char_def)

lemma hex_char_inj: "c < 16 \<Longrightarrow> d < 16 \<Longrightarrow> hex_char c = hex_char d \<Longrightarrow> c = d"
proof -
  assume cd: "c < 16" "d < 16" "hex_char c = hex_char d"
  then have "(if c < 10 then 48 + c else 87 + c) = (if d < 10 then 48 + d else 87 + d)"
    using hex_char_code [of c] hex_char_code [of d] by metis
  then show "c = d" using cd(1,2) by (cases "c < 10"; cases "d < 10") simp_all
qed

lemma length_hex_text [simp]: "length (hex_text k n) = k"
  by (induction k arbitrary: n) auto

lemma hex_text_inj: "m < 16 ^ k \<Longrightarrow> n < 16 ^ k \<Longrightarrow> hex_text k m = hex_text k n \<Longrightarrow> m = n"
proof (induction k arbitrary: m n)
  case (Suc k)
  have "m div 16 = n div 16"
    using Suc by (intro Suc.IH) (auto simp: less_mult_imp_div_less mult.commute)
  moreover have "m mod 16 = n mod 16" using Suc.prems(3) hex_char_inj [of "m mod 16" "n mod 16"] by simp
  ultimately show ?case by (metis div_mult_mod_eq)
qed simp

lemma five_groups: "take 8 h @ take 4 (drop 8 h) @ take 4 (drop 12 h) @ take 4 (drop 16 h) @ drop 20 h = h"
proof -
  have "take 4 (drop n h) @ drop (n + 4) h = drop n h" for n
    by (metis add.commute append_take_drop_id drop_drop)
  from this [of 8] this [of 12] this [of 16] show ?thesis by simp
qed

lemma uuid_text_inj:
  assumes "u < 2 ^ 128" and "v < 2 ^ 128" and "uuid_text u = uuid_text v"
  shows "u = v"
proof -
  let ?g = "hex_text 32 u" and ?h = "hex_text 32 v"
  have "take 8 ?g = take 8 ?h \<and> take 4 (drop 8 ?g) = take 4 (drop 8 ?h) \<and> take 4 (drop 12 ?g) = take 4 (drop 12 ?h) \<and>
      take 4 (drop 16 ?g) = take 4 (drop 16 ?h) \<and> drop 20 ?g = drop 20 ?h"
    using assms(3) by (simp add: uuid_text_def Let_def)
  then have "?g = ?h" using five_groups [of ?g] five_groups [of ?h] by metis
  moreover have "u < 16 ^ 32" "v < 16 ^ 32" using assms(1,2) by simp_all
  ultimately show ?thesis using hex_text_inj by blast
qed

lemma hex_text_ascii: "c \<in> set (hex_text k n) \<Longrightarrow> (of_char c :: nat) < 128"
  using hex_char_code by (induction k arbitrary: n) (auto split: if_splits)

lemma uuid_text_ascii: "c \<in> set (uuid_text u) \<Longrightarrow> (of_char c :: nat) < 128"
  using hex_text_ascii [of c 32 u]
  by (auto simp: uuid_text_def Let_def dest!: in_set_takeD in_set_dropD)

lemma length_utf8_ascii: "(\<And>c. c \<in> set s \<Longrightarrow> (of_char c :: nat) < 128) \<Longrightarrow> length (utf8 s) = length s"
  by (induction s) (auto simp: utf8_Cons utf8_char_def)

lemma length_uuid_text: "length (uuid_text u) = 36"
  by (simp add: uuid_text_def Let_def)

lemma aad_inj:
  assumes "u < 2 ^ 128" and "v < 2 ^ 128" and "aad u e f = aad v e' f"
  shows "u = v \<and> e = e'"
proof -
  have "length (utf8 (uuid_text u)) = length (utf8 (uuid_text v))"
    using length_utf8_ascii [OF uuid_text_ascii] by (simp add: length_uuid_text)
  then have "utf8 (uuid_text u) = utf8 (uuid_text v) \<and> utf8 e = utf8 e'"
    using assms(3) by (simp add: aad_def)
  then show ?thesis using utf8_inj uuid_text_inj [OF assms(1,2)] by blast
qed

lemma is_bytes_aad: "is_bytes (aad u e f)"
  by (simp add: aad_def)

lemma a2b_strict_char:
  "n < 64 \<Longrightarrow> a2b_strict q l p False (b64_char n # cs) =
     (if q = 0 then a2b_strict 1 n 0 False cs
      else if q = 1 then map_option ((#) (l * 4 + n div 16)) (a2b_strict 2 (n mod 16) 0 False cs)
      else if q = 2 then map_option ((#) (l * 16 + n div 4)) (a2b_strict 3 (n mod 4) 0 False cs)
      else map_option ((#) (l * 64 + n)) (a2b_strict 0 0 0 False cs))"
  by (simp add: b64_char_not_pad b64_value_char)

lemma strict_decode_encode:
  assumes "is_bytes bs"
  shows "a2b_strict 0 0 p False (b64_data bs @ replicate ((3 - length bs mod 3) mod 3) (CHR ''='')) = Some bs"
  using assms
proof (induction bs arbitrary: p rule: b64_data.induct)
  case (2 a)
  then have "a div 4 < 64" "a mod 4 * 16 < 64" by (auto simp: is_bytes_def)
  then show ?case by (simp add: a2b_strict_char numeral_2_eq_2 del: a2b_strict.simps(2)) simp
next
  case (3 a b)
  then have "a div 4 < 64" "a mod 4 * 16 + b div 16 < 64" "b mod 16 * 4 < 64" "b div 16 < 16"
    by (auto simp: is_bytes_def)
  then show ?case by (simp add: a2b_strict_char del: a2b_strict.simps(2)) simp
next
  case (4 a b c bs)
  then have ab: "a div 4 < 64" "a mod 4 * 16 + b div 16 < 64" "b mod 16 * 4 + c div 64 < 64" "c mod 64 < 64"
      "b div 16 < 16" "c div 64 < 4"
    by (auto simp: is_bytes_def)
  have "(3 - Suc (Suc (Suc (length bs))) mod 3) mod 3 = (3 - length bs mod 3) mod 3"
    by (simp add: mod_Suc)
  then show ?case using ab 4
    by (simp add: a2b_strict_char is_bytes_def del: a2b_strict.simps(2))
qed simp

lemma b64_encode_hd: "bs \<noteq> [] \<Longrightarrow> hd (urlsafe_b64encode bs) \<noteq> CHR ''=''"
  using b64_char_not_pad by (cases bs rule: b64_data.cases) (auto simp: urlsafe_b64encode_def)

lemma b64decode_validate_encode: "is_bytes bs \<Longrightarrow> bs \<noteq> [] \<Longrightarrow> b64decode_validate (urlsafe_b64encode bs) = Some bs"
  using strict_decode_encode [of bs 0] b64_encode_hd [of bs]
  by (simp add: b64decode_validate_def urlsafe_b64encode_def)

lemmas codec_laws = codec_lib_ok_def [THEN iffD1]
lemmas codec_loads = codec_laws [THEN conjunct1, rule_format, OF _ conjI]
lemmas codec_sealed = codec_laws [THEN conjunct2, THEN conjunct1, rule_format, OF _ conjI]
lemmas codec_opens = codec_laws [THEN conjunct2, THEN conjunct2, THEN conjunct1, rule_format]
lemmas codec_opened = codec_laws [THEN conjunct2, THEN conjunct2, THEN conjunct2, THEN conjunct1, rule_format]
lemmas codec_same_aad = codec_laws [THEN conjunct2, THEN conjunct2, THEN conjunct2, THEN conjunct2, rule_format]

lemma encrypted_opens:
  assumes "codec_lib_ok L" and "length nonce = 12" and "is_bytes nonce" and "encrypt L codec nonce payload u email = Inr e"
  obtains key plaintext where "canonical_payload L payload = Inr plaintext"
    and "\<And>v m. decrypt L codec (ep_ciphertext e) (ep_key_id e) (ep_format_version e) v m =
      (case co_open L key nonce (co_seal L key nonce plaintext (aad u email FORMAT_VERSION)) (aad v m FORMAT_VERSION) of
         None \<Rightarrow> Inl CredentialCodecError
       | Some p \<Rightarrow> (case co_loads L p of Some (JObj kvs) \<Rightarrow> Inr (JObj kvs) | _ \<Rightarrow> Inl CredentialCodecError))"
    and "ep_ciphertext e \<noteq> []"
proof -
  obtain plaintext key where p: "canonical_payload L payload = Inr plaintext"
    and k: "map_of (cc_keyring codec) (cc_active_key_id codec) = Some key"
    and e: "ep_key_id e = cc_active_key_id codec" "ep_format_version e = FORMAT_VERSION"
      "ep_ciphertext e = urlsafe_b64encode (nonce @ co_seal L key nonce plaintext (aad u email FORMAT_VERSION))"
    using assms(4) by (auto simp: encrypt_def split: sum.splits option.splits)
  let ?c = "co_seal L key nonce plaintext (aad u email FORMAT_VERSION)"
  have "is_bytes plaintext" using p by (auto simp: canonical_payload_def split: if_splits option.splits)
  then have c: "is_bytes ?c" "?c \<noteq> []" using codec_sealed [OF assms(1)] is_bytes_aad by auto
  have "is_bytes (nonce @ ?c)" "nonce @ ?c \<noteq> []" using c assms(3) by simp_all
  then have b: "b64decode_validate (ep_ciphertext e) = Some (nonce @ ?c)"
    unfolding e(3) by (rule b64decode_validate_encode)
  have len: "\<not> length (nonce @ ?c) \<le> NONCE_BYTES" using c(2) assms(2) by (simp add: NONCE_BYTES_def)
  have parts: "take NONCE_BYTES (nonce @ ?c) = nonce" "drop NONCE_BYTES (nonce @ ?c) = ?c"
    using assms(2) by (simp_all add: NONCE_BYTES_def)
  have "decrypt L codec (ep_ciphertext e) (ep_key_id e) (ep_format_version e) v m =
      (case co_open L key nonce ?c (aad v m FORMAT_VERSION) of
         None \<Rightarrow> Inl CredentialCodecError
       | Some p \<Rightarrow> (case co_loads L p of Some (JObj kvs) \<Rightarrow> Inr (JObj kvs) | _ \<Rightarrow> Inl CredentialCodecError))" for v m
    unfolding decrypt_def e(1,2) k b option.case parts using len by simp
  moreover have "ep_ciphertext e \<noteq> []" using b c(2) by (auto simp: b64decode_validate_def)
  ultimately show ?thesis using that p by blast
qed

lemma decrypt_encrypt:
  assumes "codec_lib_ok L" and "length nonce = 12" and "is_bytes nonce" and "encrypt L codec nonce payload u email = Inr e"
  shows "\<exists>q. decrypt L codec (ep_ciphertext e) (ep_key_id e) (ep_format_version e) u email = Inr q \<and> same_object payload q"
    and "ep_ciphertext e \<noteq> []"
proof -
  obtain key plaintext where p: "canonical_payload L payload = Inr plaintext"
    and d: "\<And>v m. decrypt L codec (ep_ciphertext e) (ep_key_id e) (ep_format_version e) v m =
      (case co_open L key nonce (co_seal L key nonce plaintext (aad u email FORMAT_VERSION)) (aad v m FORMAT_VERSION) of
         None \<Rightarrow> Inl CredentialCodecError
       | Some p \<Rightarrow> (case co_loads L p of Some (JObj kvs) \<Rightarrow> Inr (JObj kvs) | _ \<Rightarrow> Inl CredentialCodecError))"
    and ne: "ep_ciphertext e \<noteq> []"
    by (rule encrypted_opens [OF assms], rule that; assumption)
  show "ep_ciphertext e \<noteq> []" by (rule ne)
  obtain t where t: "is_jobj payload" "co_dumps L payload = Some t" "plaintext = utf8 t"
    using p by (auto simp: canonical_payload_def split: if_splits option.splits)
  obtain q where q: "co_loads L plaintext = Some q" "same_object payload q"
    using codec_loads [OF assms(1) t(1,2)] t(3) by blast
  then obtain kvs where "q = JObj kvs" by (auto simp: same_object_def is_jobj_def split: json.splits)
  then have "decrypt L codec (ep_ciphertext e) (ep_key_id e) (ep_format_version e) u email = Inr q"
    using q(1) by (simp add: d codec_opens [OF assms(1)])
  then show "\<exists>q. decrypt L codec (ep_ciphertext e) (ep_key_id e) (ep_format_version e) u email = Inr q \<and> same_object payload q"
    using q(2) by blast
qed

text \<open>
  C28. The codec inverts itself for the row it was used for and for no other: what it encrypts for a
  user and an address decrypts to the same payload for that user and address, and is refused for
  every other user or address, so a stored ciphertext cannot be moved to another row.
\<close>

theorem codec_binds_row:
  assumes "codec_lib_ok L" and "length nonce = 12" and "is_bytes nonce" and "u < 2 ^ 128" and "v < 2 ^ 128"
    and "encrypt L codec nonce payload u email = Inr e"
  shows "case decrypt L codec (ep_ciphertext e) (ep_key_id e) (ep_format_version e) v email' of
      Inr q \<Rightarrow> v = u \<and> email' = email \<and> same_object payload q
    | Inl _ \<Rightarrow> \<not> (v = u \<and> email' = email)"
proof (cases "v = u \<and> email' = email")
  case True
  then show ?thesis using decrypt_encrypt(1) [OF assms(1,2,3,6)] by auto
next
  case False
  obtain key plaintext where d: "\<And>v m. decrypt L codec (ep_ciphertext e) (ep_key_id e) (ep_format_version e) v m =
      (case co_open L key nonce (co_seal L key nonce plaintext (aad u email FORMAT_VERSION)) (aad v m FORMAT_VERSION) of
         None \<Rightarrow> Inl CredentialCodecError
       | Some p \<Rightarrow> (case co_loads L p of Some (JObj kvs) \<Rightarrow> Inr (JObj kvs) | _ \<Rightarrow> Inl CredentialCodecError))"
    by (rule encrypted_opens [OF assms(1,2,3,6)], rule that; assumption)
  have "co_open L key nonce (co_seal L key nonce plaintext (aad u email FORMAT_VERSION)) (aad v email' FORMAT_VERSION) = None"
    using codec_opened [OF assms(1)] codec_same_aad [OF assms(1)] aad_inj [OF assms(4,5)] False
    by (metis not_None_eq)
  then show ?thesis using False by (simp add: d)
qed

text \<open>A concrete library: sealing prefixes the associated data with its length.\<close>

definition toy_frame :: "bytes \<Rightarrow> bytes" where
  "toy_frame a = replicate (length a) 1 @ 0 # a"

definition toy_json :: json where
  "toy_json = JObj [(''refresh_token'', JStr ''r''), (''scopes'', JArr [JStr ''https://mail.google.com/'',
     JStr ''https://www.googleapis.com/auth/calendar'', JStr ''https://www.googleapis.com/auth/tasks'',
     JStr ''https://www.googleapis.com/auth/userinfo.email'', JStr ''openid''])]"

definition toy_codec_lib :: codec_lib where
  "toy_codec_lib = \<lparr>co_dumps = (\<lambda>j. if j = toy_json then Some ''R'' else None),
     co_loads = (\<lambda>b. if b = utf8 ''R'' then Some toy_json else None),
     co_seal = (\<lambda>k n p a. toy_frame a @ p),
     co_open = (\<lambda>k n c a. if take (length (toy_frame a)) c = toy_frame a then Some (drop (length (toy_frame a)) c) else None)\<rparr>"

lemma toy_frame_inj: "toy_frame a @ p = toy_frame b @ q \<Longrightarrow> a = b"
proof -
  assume same: "toy_frame a @ p = toy_frame b @ q"
  have "takeWhile (\<lambda>x. x = 1) (toy_frame c @ r) = replicate (length c) 1" for c r
    by (simp add: toy_frame_def takeWhile_append takeWhile_replicate)
  then have "length a = length b" using same by (metis length_replicate)
  then show "a = b" using same by (simp add: toy_frame_def)
qed

lemma toy_codec_lib_ok: "codec_lib_ok toy_codec_lib"
  unfolding codec_lib_ok_def
proof (intro conjI allI impI)
  show "c = co_seal toy_codec_lib k n p a" if "co_open toy_codec_lib k n c a = Some p" for k n c a p
  proof -
    have "take (length (toy_frame a)) c = toy_frame a" "p = drop (length (toy_frame a)) c"
      using that by (auto simp: toy_codec_lib_def split: if_splits)
    then have "toy_frame a @ p = c" by (metis append_take_drop_id)
    then show ?thesis by (simp add: toy_codec_lib_def)
  qed
  show "a = a'" if "co_seal toy_codec_lib k n p a = co_seal toy_codec_lib k n p' a'" for k n p a p' a'
    using that toy_frame_inj by (simp add: toy_codec_lib_def)
qed (auto simp: toy_codec_lib_def toy_frame_def same_object_def is_bytes_def list_all_iff split: if_splits)

definition toy_codec :: codec where
  "toy_codec = \<lparr>cc_keyring = [(''k'', replicate 32 7)], cc_active_key_id = ''k''\<rparr>"

definition toy_encrypted :: encrypted_payload where
  "toy_encrypted = (case encrypt toy_codec_lib toy_codec (replicate 12 0) toy_json 7 ''a@b'' of Inr e \<Rightarrow> e)"

theorem codec_binds_row_witness:
  "decrypt toy_codec_lib toy_codec (ep_ciphertext toy_encrypted) (ep_key_id toy_encrypted) (ep_format_version toy_encrypted) 7 ''a@b'' =
     Inr toy_json \<and>
   isl (decrypt toy_codec_lib toy_codec (ep_ciphertext toy_encrypted) (ep_key_id toy_encrypted) (ep_format_version toy_encrypted) 8 ''a@b'')"
proof -
  obtain e where e: "encrypt toy_codec_lib toy_codec (replicate 12 0) toy_json 7 ''a@b'' = Inr e"
    by (simp add: encrypt_def canonical_payload_def toy_codec_lib_def toy_codec_def toy_json_def is_jobj_def)
  have nonce: "length (replicate 12 (0 :: nat)) = 12" "is_bytes (replicate 12 0)" "(7 :: nat) < 2 ^ 128" "(8 :: nat) < 2 ^ 128"
    by (simp_all add: is_bytes_def list_all_iff)
  note binds = codec_binds_row [OF toy_codec_lib_ok nonce(1,2,3) _ e, of _ "''a@b''"]
  have other: "isl (decrypt toy_codec_lib toy_codec (ep_ciphertext e) (ep_key_id e) (ep_format_version e) 8 ''a@b'')"
    using binds [OF nonce(4)] by (auto split: sum.splits)
  obtain q where q: "decrypt toy_codec_lib toy_codec (ep_ciphertext e) (ep_key_id e) (ep_format_version e) 7 ''a@b'' = Inr q"
    using binds [OF nonce(3)] by (auto split: sum.splits)
  then have "q = toy_json"
    by (auto simp: decrypt_def toy_codec_lib_def toy_json_def split: option.splits if_splits json.splits)
  then show ?thesis using other q e by (simp add: toy_encrypted_def)
qed

end
