(* ===== verification/Redis_Store.thy ===== *)
theory Redis_Store
  imports Onebox_Prelude
begin

text \<open>
  The Redis side of the service: the bounded transport (\<open>server/integrations/redis.py\<close>), the
  one-time OAuth states (\<open>server/oauth_state.py\<close>) and the mail cache with one generation per
  user (\<open>server/redis_cache.py\<close>).

  The Redis client is a parameter over an arbitrary state. What the code relies on is
  \<open>documented_redis\<close>: a call that is answered has taken effect once, at some moment during the
  call, as the command reference says; a call that fails or times out may have taken effect or not.
  Every function of the two policy modules issues exactly one command, so sequences of
  \<open>store_op\<close>s are the interleavings of all sessions.
\<close>

section \<open>The Redis commands the code uses\<close>

text \<open>A cell has a value and possibly a time at which it expires.\<close>

type_synonym cells = "str \<Rightarrow> (str \<times> time option) option"
type_synonym 'a redis_command = "time \<Rightarrow> cells \<Rightarrow> ('a \<times> cells) option"

definition alive :: "time \<Rightarrow> (str \<times> time option) option \<Rightarrow> (str \<times> time option) option" where
  "alive t x = (case x of Some (v, Some e) \<Rightarrow> (if t < e then x else None) | _ \<Rightarrow> x)"

text \<open>The cells that have not expired at time \<open>t\<close>, and the value a reader gets.\<close>

definition visible :: "time \<Rightarrow> cells \<Rightarrow> cells" where
  "visible t c k = alive t (c k)"

definition live :: "time \<Rightarrow> cells \<Rightarrow> str \<Rightarrow> str option" where
  "live t c k = map_option fst (visible t c k)"

definition canonical_digits :: "str \<Rightarrow> bool" where
  "canonical_digits v = (is_decimal v \<and> (v = ''0'' \<or> hd v \<noteq> CHR ''0''))"

text \<open>The texts that Redis reads as integers, before its check of the 64-bit range.\<close>

definition redis_int :: "str \<Rightarrow> int option" where
  "redis_int v =
     (if canonical_digits v then Some (int (int_of_decimal v))
      else if v \<noteq> [] \<and> hd v = CHR ''-'' \<and> canonical_digits (tl v) \<and> tl v \<noteq> ''0'' then Some (- int (int_of_decimal (tl v)))
      else None)"

definition int_text :: "int \<Rightarrow> str" where
  "int_text i = (if i < 0 then CHR ''-'' # str_nat (nat (- i)) else str_nat (nat i))"

definition cmd_get :: "str \<Rightarrow> str option redis_command" where
  "cmd_get k t c = Some (live t c k, c)"

definition cmd_setex :: "str \<Rightarrow> int \<Rightarrow> str \<Rightarrow> unit redis_command" where
  "cmd_setex k ttl v t c = (if 0 < ttl then Some ((), c(k \<mapsto> (v, Some (t + seconds ttl)))) else None)"

definition cmd_delete :: "str list \<Rightarrow> int redis_command" where
  "cmd_delete ks t c =
     Some (int (length (filter (\<lambda>k. live t c k \<noteq> None) (remdups ks))), \<lambda>k. if k \<in> set ks then None else c k)"

text \<open>\<open>INCR\<close>: a missing key counts as 0; an unreadable value or an overflow is an error.\<close>

definition cmd_incr :: "str \<Rightarrow> int redis_command" where
  "cmd_incr k t c =
     (case visible t c k of
        None \<Rightarrow> Some (1, c(k \<mapsto> (''1'', None)))
      | Some (v, e) \<Rightarrow>
          (case redis_int v of
             None \<Rightarrow> None
           | Some n \<Rightarrow> (if - (2 ^ 63) \<le> n \<and> n + 1 < 2 ^ 63 then Some (n + 1, c(k \<mapsto> (int_text (n + 1), e))) else None)))"

text \<open>The Lua script \<open>_GETDEL_LUA\<close>, which Redis runs atomically.\<close>

definition getdel_script :: "str \<Rightarrow> str option redis_command" where
  "getdel_script k t c = Some (live t c k, if live t c k = None then c else c(k := None))"

section \<open>The client and its transport\<close>

datatype 'a client_outcome = Replied 'a | RedisTimeout | RedisFailed | CallCancelled

datatype slot_outcome = Acquired | SlotTimeout | SlotCancelled

record 's redis =
  rd_now :: "'s \<Rightarrow> time"
  rd_cells :: "'s \<Rightarrow> cells"
  rd_idle :: "nat \<Rightarrow> 's \<Rightarrow> 's"
  rd_acquire :: "'s \<Rightarrow> slot_outcome \<times> 's"
  rd_ping :: "'s \<Rightarrow> bool client_outcome \<times> 's"
  rd_get :: "str \<Rightarrow> 's \<Rightarrow> str option client_outcome \<times> 's"
  rd_setex :: "str \<Rightarrow> int \<Rightarrow> str \<Rightarrow> 's \<Rightarrow> unit client_outcome \<times> 's"
  rd_delete :: "str list \<Rightarrow> 's \<Rightarrow> int client_outcome \<times> 's"
  rd_incr :: "str \<Rightarrow> 's \<Rightarrow> int client_outcome \<times> 's"
  rd_eval :: "str \<Rightarrow> 's \<Rightarrow> str option client_outcome \<times> 's"
  rd_scan :: "str \<Rightarrow> 's \<Rightarrow> str list client_outcome \<times> 's"

datatype redis_error = RedisAdapterError | RedisCancelled

definition acquire_slot :: "'s redis \<Rightarrow> 's \<Rightarrow> (redis_error + unit) \<times> 's" where
  "acquire_slot R s = (case rd_acquire R s of
      (Acquired, s1) \<Rightarrow> (Inr (), s1)
    | (SlotTimeout, s1) \<Rightarrow> (Inl RedisAdapterError, s1)
    | (SlotCancelled, s1) \<Rightarrow> (Inl RedisCancelled, s1))"

text \<open>\<open>RedisAdapter._run\<close>: a slot, then the call under its deadline.\<close>

definition run_call :: "'s redis \<Rightarrow> ('s \<Rightarrow> 'a client_outcome \<times> 's) \<Rightarrow> 's \<Rightarrow> (redis_error + 'a) \<times> 's" where
  "run_call R call s = (case acquire_slot R s of
      (Inl e, s1) \<Rightarrow> (Inl e, s1)
    | (Inr _, s1) \<Rightarrow>
        (case call s1 of
           (Replied v, s2) \<Rightarrow> (Inr v, s2)
         | (CallCancelled, s2) \<Rightarrow> (Inl RedisCancelled, s2)
         | (RedisTimeout, s2) \<Rightarrow> (Inl RedisAdapterError, s2)
         | (RedisFailed, s2) \<Rightarrow> (Inl RedisAdapterError, s2)))"

definition redis_ping :: "'s redis \<Rightarrow> 's \<Rightarrow> (redis_error + bool) \<times> 's" where
  "redis_ping R s = run_call R (rd_ping R) s"

definition redis_get :: "'s redis \<Rightarrow> str \<Rightarrow> 's \<Rightarrow> (redis_error + str option) \<times> 's" where
  "redis_get R key s = run_call R (rd_get R key) s"

definition redis_setex :: "'s redis \<Rightarrow> str \<Rightarrow> int \<Rightarrow> str \<Rightarrow> 's \<Rightarrow> (redis_error + unit) \<times> 's" where
  "redis_setex R key ttl v s = run_call R (rd_setex R key ttl v) s"

definition redis_delete :: "'s redis \<Rightarrow> str list \<Rightarrow> 's \<Rightarrow> (redis_error + int) \<times> 's" where
  "redis_delete R ks s = (if ks = [] then (Inr 0, s) else run_call R (rd_delete R ks) s)"

definition redis_incr :: "'s redis \<Rightarrow> str \<Rightarrow> 's \<Rightarrow> (redis_error + int) \<times> 's" where
  "redis_incr R key s = run_call R (rd_incr R key) s"

definition redis_consume :: "'s redis \<Rightarrow> str \<Rightarrow> 's \<Rightarrow> (redis_error + str option) \<times> 's" where
  "redis_consume R key s = run_call R (rd_eval R key) s"

text \<open>
  \<open>scan_delete\<close>: all keys are collected before any is deleted, and more than \<open>max_keys\<close> of
  them abort the operation.
\<close>

fun scan_keys :: "'s redis \<Rightarrow> nat \<Rightarrow> str list \<Rightarrow> str list \<Rightarrow> 's \<Rightarrow> (redis_error + str list) \<times> 's" where
  "scan_keys R max_keys [] ks s = (Inr ks, s)"
| "scan_keys R max_keys (p # ps) ks s =
     (case rd_scan R p s of
        (Replied found, s1) \<Rightarrow>
          (if max_keys < length (ks @ found) then (Inl RedisAdapterError, s1) else scan_keys R max_keys ps (ks @ found) s1)
      | (CallCancelled, s1) \<Rightarrow> (Inl RedisCancelled, s1)
      | (RedisTimeout, s1) \<Rightarrow> (Inl RedisAdapterError, s1)
      | (RedisFailed, s1) \<Rightarrow> (Inl RedisAdapterError, s1))"

definition scan_delete :: "'s redis \<Rightarrow> nat \<Rightarrow> str list \<Rightarrow> 's \<Rightarrow> (redis_error + nat) \<times> 's" where
  "scan_delete R max_keys patterns s = (case acquire_slot R s of
      (Inl e, s1) \<Rightarrow> (Inl e, s1)
    | (Inr _, s1) \<Rightarrow>
        (case scan_keys R max_keys patterns [] s1 of
           (Inl e, s2) \<Rightarrow> (Inl e, s2)
         | (Inr ks, s2) \<Rightarrow>
             (if ks = [] then (Inr 0, s2)
              else (case rd_delete R ks s2 of
                      (Replied _, s3) \<Rightarrow> (Inr (length ks), s3)
                    | (CallCancelled, s3) \<Rightarrow> (Inl RedisCancelled, s3)
                    | (RedisTimeout, s3) \<Rightarrow> (Inl RedisAdapterError, s3)
                    | (RedisFailed, s3) \<Rightarrow> (Inl RedisAdapterError, s3)))))"

section \<open>One-time OAuth states\<close>

text \<open>\<open>json.dumps\<close> with compact separators and \<open>json.loads\<close>; \<open>None\<close> stands for the
  \<open>TypeError\<close> or \<open>ValueError\<close> they raise.\<close>

record json_lib =
  jl_dumps :: "json \<Rightarrow> str option"
  jl_loads :: "str \<Rightarrow> json option"

record oauth_state_binding =
  sb_user_id :: str
  sb_expected_email :: str

datatype state_error = OAuthStateStoreUnavailable | StateValueError | StateCancelled

definition normalize_account_email :: "str \<Rightarrow> str option" where
  "normalize_account_email email = (let normalized = casefold (strip email) in if normalized = [] then None else Some normalized)"

definition state_key :: "str \<Rightarrow> str" where
  "state_key state = ''oauth_state:'' @ state"

definition binding_json :: "str \<Rightarrow> str \<Rightarrow> json" where
  "binding_json user_id email = JObj [(''user_id'', JStr user_id), (''expected_email'', JStr email)]"

definition STATE_TTL_SECONDS :: int where
  "STATE_TTL_SECONDS = 600"

text \<open>The token that \<open>secrets.token_urlsafe\<close> returns is the argument \<open>state\<close>.\<close>

definition create_oauth_state ::
  "json_lib \<Rightarrow> 's redis \<Rightarrow> str \<Rightarrow> str \<Rightarrow> str \<Rightarrow> 's \<Rightarrow> (state_error + str) \<times> 's" where
  "create_oauth_state J R state user_id expected_email s =
     (case normalize_account_email expected_email of
        None \<Rightarrow> (Inl StateValueError, s)
      | Some e \<Rightarrow>
          (case jl_dumps J (binding_json user_id e) of
             None \<Rightarrow> (Inl StateValueError, s)
           | Some raw \<Rightarrow>
               (case redis_setex R (state_key state) STATE_TTL_SECONDS raw s of
                  (Inl RedisAdapterError, s1) \<Rightarrow> (Inl OAuthStateStoreUnavailable, s1)
                | (Inl RedisCancelled, s1) \<Rightarrow> (Inl StateCancelled, s1)
                | (Inr _, s1) \<Rightarrow> (Inr state, s1))))"

definition decode_binding :: "json_lib \<Rightarrow> str \<Rightarrow> oauth_state_binding option" where
  "decode_binding J raw =
     (case jl_loads J raw of
        Some (JObj kvs) \<Rightarrow>
          (case (map_of kvs ''user_id'', map_of kvs ''expected_email'') of
             (Some u, Some (JStr email)) \<Rightarrow>
               (case normalize_account_email email of
                  None \<Rightarrow> None
                | Some e \<Rightarrow>
                    (case u of
                       JStr user_id \<Rightarrow>
                         (if user_id = [] then None else Some \<lparr>sb_user_id = user_id, sb_expected_email = e\<rparr>)
                     | _ \<Rightarrow> None))
           | _ \<Rightarrow> None)
      | _ \<Rightarrow> None)"

definition consume_oauth_state ::
  "json_lib \<Rightarrow> 's redis \<Rightarrow> str \<Rightarrow> 's \<Rightarrow> (state_error + oauth_state_binding option) \<times> 's" where
  "consume_oauth_state J R state s =
     (if state = [] then (Inr None, s)
      else (case redis_consume R (state_key state) s of
              (Inl RedisAdapterError, s1) \<Rightarrow> (Inl OAuthStateStoreUnavailable, s1)
            | (Inl RedisCancelled, s1) \<Rightarrow> (Inl StateCancelled, s1)
            | (Inr None, s1) \<Rightarrow> (Inr None, s1)
            | (Inr (Some raw), s1) \<Rightarrow> (Inr (if raw = [] then None else decode_binding J raw), s1)))"

section \<open>The mail cache\<close>

datatype cancelled = Cancelled

definition MAIL_PAGE_CACHE_TTL_SECONDS :: int where
  "MAIL_PAGE_CACHE_TTL_SECONDS = 60"

definition MAIL_DETAIL_CACHE_TTL_SECONDS :: int where
  "MAIL_DETAIL_CACHE_TTL_SECONDS = 300"

definition generation_key :: "str \<Rightarrow> str" where
  "generation_key user_id = ''user:'' @ user_id @ '':mail:cache-generation''"

definition cache_set :: "json_lib \<Rightarrow> 's redis \<Rightarrow> str \<Rightarrow> json \<Rightarrow> int \<Rightarrow> 's \<Rightarrow> (cancelled + bool) \<times> 's" where
  "cache_set J R key v ttl s =
     (case jl_dumps J v of
        None \<Rightarrow> (Inr False, s)
      | Some serialized \<Rightarrow>
          (case redis_setex R key ttl serialized s of
             (Inl RedisAdapterError, s1) \<Rightarrow> (Inr False, s1)
           | (Inl RedisCancelled, s1) \<Rightarrow> (Inl Cancelled, s1)
           | (Inr _, s1) \<Rightarrow> (Inr True, s1)))"

text \<open>A cached \<open>null\<close> decodes to Python's \<open>None\<close>, which callers cannot tell from a miss.\<close>

definition cached_value :: "json_lib \<Rightarrow> str option \<Rightarrow> json option" where
  "cached_value J data = (case data of
      None \<Rightarrow> None
    | Some raw \<Rightarrow> (if raw = [] then None else (case jl_loads J raw of Some JNull \<Rightarrow> None | v \<Rightarrow> v)))"

definition cache_get :: "json_lib \<Rightarrow> 's redis \<Rightarrow> str \<Rightarrow> 's \<Rightarrow> (cancelled + json option) \<times> 's" where
  "cache_get J R key s =
     (case redis_get R key s of
        (Inl RedisAdapterError, s1) \<Rightarrow> (Inr None, s1)
      | (Inl RedisCancelled, s1) \<Rightarrow> (Inl Cancelled, s1)
      | (Inr data, s1) \<Rightarrow> (Inr (cached_value J data), s1))"

definition cache_delete :: "'s redis \<Rightarrow> str \<Rightarrow> 's \<Rightarrow> (cancelled + bool) \<times> 's" where
  "cache_delete R key s =
     (case redis_delete R [key] s of
        (Inl RedisAdapterError, s1) \<Rightarrow> (Inr False, s1)
      | (Inl RedisCancelled, s1) \<Rightarrow> (Inl Cancelled, s1)
      | (Inr _, s1) \<Rightarrow> (Inr True, s1))"

text \<open>Python's \<open>int\<close> on text: surrounding space, a sign, single underscores between digits.\<close>

definition py_digits :: "str \<Rightarrow> nat option" where
  "py_digits r =
     (if r \<noteq> [] \<and> is_digit (hd r) \<and> is_digit (last r) \<and> list_all (\<lambda>c. is_digit c \<or> c = CHR ''_'') r \<and> \<not> contains ''__'' r \<and>
         length (filter is_digit r) \<le> 4300
      then Some (int_of_decimal (filter is_digit r)) else None)"

definition py_int :: "str \<Rightarrow> int option" where
  "py_int v = (case strip v of
      [] \<Rightarrow> None
    | c # r \<Rightarrow>
        (if c = CHR ''-'' then map_option (\<lambda>n. - int n) (py_digits r)
         else if c = CHR ''+'' then map_option int (py_digits r)
         else map_option int (py_digits (c # r))))"

definition read_generation :: "str option \<Rightarrow> int" where
  "read_generation v = (case v of
      None \<Rightarrow> 0
    | Some raw \<Rightarrow> (case py_int raw of None \<Rightarrow> 0 | Some g \<Rightarrow> (if 0 \<le> g then g else 0)))"

definition get_user_mail_cache_generation :: "'s redis \<Rightarrow> str \<Rightarrow> 's \<Rightarrow> (cancelled + int) \<times> 's" where
  "get_user_mail_cache_generation R user_id s =
     (case redis_get R (generation_key user_id) s of
        (Inl RedisAdapterError, s1) \<Rightarrow> (Inr 0, s1)
      | (Inl RedisCancelled, s1) \<Rightarrow> (Inl Cancelled, s1)
      | (Inr v, s1) \<Rightarrow> (Inr (read_generation v), s1))"

definition mail_key :: "str \<Rightarrow> int \<Rightarrow> str \<Rightarrow> str" where
  "mail_key user_id generation namespace =
     ''user:'' @ user_id @ '':mail:g'' @ int_text generation @ '':'' @ namespace"

definition user_mail_cache_key :: "'s redis \<Rightarrow> str \<Rightarrow> str \<Rightarrow> 's \<Rightarrow> (cancelled + str) \<times> 's" where
  "user_mail_cache_key R user_id namespace s =
     (case get_user_mail_cache_generation R user_id s of
        (Inl e, s1) \<Rightarrow> (Inl e, s1)
      | (Inr generation, s1) \<Rightarrow> (Inr (mail_key user_id generation namespace), s1))"

definition invalidate_user_mail_cache :: "'s redis \<Rightarrow> str \<Rightarrow> 's \<Rightarrow> (cancelled + bool) \<times> 's" where
  "invalidate_user_mail_cache R user_id s =
     (case redis_incr R (generation_key user_id) s of
        (Inl RedisAdapterError, s1) \<Rightarrow> (Inr False, s1)
      | (Inl RedisCancelled, s1) \<Rightarrow> (Inl Cancelled, s1)
      | (Inr _, s1) \<Rightarrow> (Inr True, s1))"

section \<open>Documented behaviour of the server\<close>

text \<open>Two sets of cells that no reader can tell apart from time \<open>t\<close> on.\<close>

definition same_from :: "time \<Rightarrow> cells \<Rightarrow> cells \<Rightarrow> bool" where
  "same_from t c c' = (visible t c = visible t c')"

definition passes :: "'s redis \<Rightarrow> 's \<Rightarrow> 's \<Rightarrow> bool" where
  "passes R s s' = (rd_now R s \<le> rd_now R s' \<and> same_from (rd_now R s') (rd_cells R s) (rd_cells R s'))"

definition applied :: "'s redis \<Rightarrow> 'a redis_command \<Rightarrow> 's \<Rightarrow> 'a \<Rightarrow> 's \<Rightarrow> bool" where
  "applied R cmd s v s' =
     (\<exists>t c. rd_now R s \<le> t \<and> t \<le> rd_now R s' \<and> cmd t (rd_cells R s) = Some (v, c) \<and> same_from (rd_now R s') c (rd_cells R s'))"

definition serves :: "'s redis \<Rightarrow> ('s \<Rightarrow> 'a client_outcome \<times> 's) \<Rightarrow> 'a redis_command \<Rightarrow> bool" where
  "serves R call cmd =
     (\<forall>s. case call s of
        (Replied v, s') \<Rightarrow> applied R cmd s v s'
      | (_, s') \<Rightarrow> passes R s s' \<or> (\<exists>v. applied R cmd s v s'))"

definition documented_redis :: "'s redis \<Rightarrow> bool" where
  "documented_redis R =
     ((\<forall>n s. passes R s (rd_idle R n s)) \<and> (\<forall>s. passes R s (snd (rd_acquire R s))) \<and>
      (\<forall>k. serves R (rd_get R k) (cmd_get k)) \<and> (\<forall>k ttl v. serves R (rd_setex R k ttl v) (cmd_setex k ttl v)) \<and>
      (\<forall>ks. serves R (rd_delete R ks) (cmd_delete ks)) \<and> (\<forall>k. serves R (rd_incr R k) (cmd_incr k)) \<and>
      (\<forall>k. serves R (rd_eval R k) (getdel_script k)))"

section \<open>Interleavings\<close>

text \<open>
  What sessions do with the store: the functions of the two modules, and time that passes. A cache
  write or read uses a key made of some user, generation and namespace.
\<close>

datatype store_op =
    OpIdle nat
  | OpCreate str str str
  | OpConsume str
  | OpCacheSet str int str json int
  | OpCacheGet str int str
  | OpCacheDelete str int str
  | OpGeneration str
  | OpInvalidate str

fun perform :: "json_lib \<Rightarrow> 's redis \<Rightarrow> store_op \<Rightarrow> 's \<Rightarrow> oauth_state_binding option \<times> 's" where
  "perform J R (OpIdle n) s = (None, rd_idle R n s)"
| "perform J R (OpCreate state user_id email) s = (None, snd (create_oauth_state J R state user_id email s))"
| "perform J R (OpConsume state) s =
     (case consume_oauth_state J R state s of (Inr b, s1) \<Rightarrow> (b, s1) | (Inl _, s1) \<Rightarrow> (None, s1))"
| "perform J R (OpCacheSet u g ns v ttl) s = (None, snd (cache_set J R (mail_key u g ns) v ttl s))"
| "perform J R (OpCacheGet u g ns) s = (None, snd (cache_get J R (mail_key u g ns) s))"
| "perform J R (OpCacheDelete u g ns) s = (None, snd (cache_delete R (mail_key u g ns) s))"
| "perform J R (OpGeneration u) s = (None, snd (get_user_mail_cache_generation R u s))"
| "perform J R (OpInvalidate u) s = (None, snd (invalidate_user_mail_cache R u s))"

text \<open>The operations with the bindings they returned, and the state afterwards.\<close>

fun run_ops :: "json_lib \<Rightarrow> 's redis \<Rightarrow> store_op list \<Rightarrow> 's \<Rightarrow> (store_op \<times> oauth_state_binding option) list \<times> 's" where
  "run_ops J R [] s = ([], s)"
| "run_ops J R (x # xs) s =
     (let (b, s1) = perform J R x s; (rest, s2) = run_ops J R xs s1 in ((x, b) # rest, s2))"

section \<open>What a call does to the cells in view\<close>

definition view :: "'s redis \<Rightarrow> 's \<Rightarrow> cells" where
  "view R s = visible (rd_now R s) (rd_cells R s)"

definition happened :: "'s redis \<Rightarrow> 'a redis_command \<Rightarrow> 's \<Rightarrow> 'a \<Rightarrow> 's \<Rightarrow> bool" where
  "happened R cmd s v s' = (\<exists>s1. passes R s s1 \<and> applied R cmd s1 v s')"

definition outcome :: "'s redis \<Rightarrow> 'a redis_command \<Rightarrow> 's \<Rightarrow> (redis_error + 'a) \<times> 's \<Rightarrow> bool" where
  "outcome R cmd s r = (case r of
      (Inr v, s') \<Rightarrow> happened R cmd s v s'
    | (Inl _, s') \<Rightarrow> passes R s s' \<or> (\<exists>v. happened R cmd s v s'))"

lemma alive_None [simp]: "alive t None = None"
  by (simp add: alive_def)

lemma alive_forever [simp]: "alive t (Some (v, None)) = Some (v, None)"
  by (simp add: alive_def)

lemma alive_until [simp]: "alive t (Some (v, Some e)) = (if t < e then Some (v, Some e) else None)"
  by (simp add: alive_def)

lemma alive_later [simp]: "t \<le> u \<Longrightarrow> alive u (alive t x) = alive u x"
  by (auto simp: alive_def split: option.splits prod.splits)

lemma alive_SomeD: "alive t x = Some y \<Longrightarrow> x = Some y"
  by (auto simp: alive_def split: option.splits prod.splits if_splits)

lemma passes_view: "passes R s s' \<Longrightarrow> view R s' k = alive (rd_now R s') (view R s k)"
  unfolding passes_def same_from_def view_def by (auto simp: fun_eq_iff visible_def)

lemma passes_trans:
  assumes "passes R s s1" and "passes R s1 s2"
  shows "passes R s s2"
proof -
  have "visible (rd_now R s2) (rd_cells R s) k = visible (rd_now R s2) (rd_cells R s2) k" for k
  proof -
    have "view R s2 k = alive (rd_now R s2) (alive (rd_now R s1) (view R s k))"
      using passes_view [OF assms(2)] passes_view [OF assms(1)] by simp
    moreover have "rd_now R s \<le> rd_now R s1" "rd_now R s1 \<le> rd_now R s2" using assms by (auto simp: passes_def)
    ultimately show ?thesis by (simp add: view_def visible_def)
  qed
  then show ?thesis using assms by (auto simp: passes_def same_from_def)
qed

lemma passes_now: "passes R s s' \<Longrightarrow> rd_now R s \<le> rd_now R s'"
  by (simp add: passes_def)

lemma happened_view:
  assumes "happened R cmd s v s'"
  obtains t c0 c where "rd_now R s \<le> t" "t \<le> rd_now R s'" "cmd t c0 = Some (v, c)"
    "\<And>k. alive t (c0 k) = alive t (view R s k)" "\<And>k. view R s' k = alive (rd_now R s') (c k)"
    "\<And>k. alive (rd_now R s') (c0 k) = alive (rd_now R s') (view R s k)"
proof -
  obtain s1 t c where s1: "passes R s s1" and t: "rd_now R s1 \<le> t" "t \<le> rd_now R s'"
    and c: "cmd t (rd_cells R s1) = Some (v, c)" and same: "same_from (rd_now R s') c (rd_cells R s')"
    using assms unfolding happened_def applied_def by blast
  have c0: "alive t (rd_cells R s1 k) = alive t (view R s k)" for k
  proof -
    have "alive t (view R s1 k) = alive t (view R s k)"
      using passes_view [OF s1, of k] t(1) by simp
    then show ?thesis using t(1) by (simp add: view_def visible_def)
  qed
  have "view R s' k = alive (rd_now R s') (c k)" for k
    using same unfolding view_def visible_def same_from_def by (metis visible_def)
  moreover have "alive (rd_now R s') (rd_cells R s1 k) = alive (rd_now R s') (view R s k)" for k
    using arg_cong [OF c0 [of k], of "alive (rd_now R s')"] t(2) by simp
  moreover have "rd_now R s \<le> t" using passes_now [OF s1] t(1) by simp
  ultimately show ?thesis using that t(2) c c0 by blast
qed

lemma happened_now: "happened R cmd s v s' \<Longrightarrow> rd_now R s \<le> rd_now R s'"
  by (rule happened_view) auto

lemma run_call_outcome:
  assumes "documented_redis R" and "serves R call cmd"
  shows "outcome R cmd s (run_call R call s)"
proof -
  obtain a s1 where a: "rd_acquire R s = (a, s1)" by fastforce
  have "passes R s (snd (rd_acquire R s))" using assms(1) unfolding documented_redis_def by blast
  then have s1: "passes R s s1" using a by simp
  show ?thesis
  proof (cases a)
    case Acquired
    obtain q s2 where q: "call s1 = (q, s2)" by fastforce
    have run: "run_call R call s = (case q of Replied v \<Rightarrow> (Inr v, s2) | CallCancelled \<Rightarrow> (Inl RedisCancelled, s2)
        | _ \<Rightarrow> (Inl RedisAdapterError, s2))"
      using a q Acquired by (cases q) (simp_all add: run_call_def acquire_slot_def)
    have served: "case call s1 of (Replied v, s') \<Rightarrow> applied R cmd s1 v s'
        | (_, s') \<Rightarrow> passes R s1 s' \<or> (\<exists>v. applied R cmd s1 v s')"
      using assms(2) unfolding serves_def by (rule spec)
    have late: "happened R cmd s v s2" if "applied R cmd s1 v s2" for v
      using s1 that unfolding happened_def by blast
    show ?thesis
      using served late passes_trans [OF s1, of s2] q run unfolding outcome_def by (cases q) auto
  qed (use a s1 in \<open>simp_all add: run_call_def acquire_slot_def outcome_def\<close>)
qed

text \<open>The effect of each command on one cell in view.\<close>

lemma happened_get:
  assumes "happened R (cmd_get k) s v s'"
  shows "view R s' j = alive (rd_now R s') (view R s j)"
    and "\<exists>t. rd_now R s \<le> t \<and> t \<le> rd_now R s' \<and> v = map_option fst (alive t (view R s k))"
  by (rule happened_view [OF assms]; auto simp: cmd_get_def live_def visible_def)+

lemma happened_setex:
  assumes "happened R (cmd_setex k ttl v) s u s'"
  shows "j \<noteq> k \<Longrightarrow> view R s' j = alive (rd_now R s') (view R s j)"
    and "\<exists>t. rd_now R s \<le> t \<and> t \<le> rd_now R s' \<and> view R s' k = alive (rd_now R s') (Some (v, Some (t + seconds ttl)))"
  by (rule happened_view [OF assms]; auto simp: cmd_setex_def split: if_splits)+

lemma happened_delete:
  assumes "happened R (cmd_delete ks) s v s'"
  shows "view R s' j = (if j \<in> set ks then None else alive (rd_now R s') (view R s j))"
  by (rule happened_view [OF assms]) (auto simp: cmd_delete_def)

lemma happened_getdel:
  assumes "happened R (getdel_script k) s v s'"
  shows "view R s' j = (if j = k then None else alive (rd_now R s') (view R s j))"
    and "\<exists>t. rd_now R s \<le> t \<and> t \<le> rd_now R s' \<and> v = map_option fst (alive t (view R s k))"
proof -
  obtain t c0 c where t: "rd_now R s \<le> t" "t \<le> rd_now R s'" and c: "getdel_script k t c0 = Some (v, c)"
    and c0: "\<And>k. alive t (c0 k) = alive t (view R s k)" and s': "\<And>k. view R s' k = alive (rd_now R s') (c k)"
    and same: "\<And>k. alive (rd_now R s') (c0 k) = alive (rd_now R s') (view R s k)"
    by (rule happened_view [OF assms], rule that; assumption)
  have v: "v = map_option fst (alive t (view R s k))" and
    cc: "c = (if v = None then c0 else c0(k := None))"
    using c c0 unfolding getdel_script_def live_def visible_def by auto
  show "\<exists>t. rd_now R s \<le> t \<and> t \<le> rd_now R s' \<and> v = map_option fst (alive t (view R s k))"
    using t v by blast
  have "alive (rd_now R s') (view R s k) = None" if "v = None"
    using v that alive_later [OF t(2), of "view R s k"] by simp
  then show "view R s' j = (if j = k then None else alive (rd_now R s') (view R s j))"
    using s' [of j] same [of j] cc by auto
qed

lemma happened_incr:
  assumes "happened R (cmd_incr k) s v s'"
  shows "j \<noteq> k \<Longrightarrow> view R s' j = alive (rd_now R s') (view R s j)"
    and "view R s k = None \<Longrightarrow> v = 1 \<and> view R s' k = Some (''1'', None)"
    and "view R s k = Some (raw, None) \<Longrightarrow>
      (\<exists>n. redis_int raw = Some n \<and> n + 1 < 2 ^ 63 \<and> v = n + 1 \<and> view R s' k = Some (int_text (n + 1), None))"
proof -
  obtain t c0 c where t: "rd_now R s \<le> t" "t \<le> rd_now R s'" and c: "cmd_incr k t c0 = Some (v, c)"
    and c0: "\<And>k. alive t (c0 k) = alive t (view R s k)" and s': "\<And>k. view R s' k = alive (rd_now R s') (c k)"
    and same: "\<And>k. alive (rd_now R s') (c0 k) = alive (rd_now R s') (view R s k)"
    by (rule happened_view [OF assms], rule that; assumption)
  show "view R s' j = alive (rd_now R s') (view R s j)" if "j \<noteq> k"
    using c s' same [of j] that unfolding cmd_incr_def
    by (auto split: option.splits prod.splits if_splits)
  show "v = 1 \<and> view R s' k = Some (''1'', None)" if "view R s k = None"
    using c c0 [of k] s' [of k] that unfolding cmd_incr_def visible_def by auto
  show "\<exists>n. redis_int raw = Some n \<and> n + 1 < 2 ^ 63 \<and> v = n + 1 \<and> view R s' k = Some (int_text (n + 1), None)"
    if "view R s k = Some (raw, None)"
    using c c0 [of k] s' [of k] that unfolding cmd_incr_def visible_def
    by (auto split: option.splits if_splits)
qed

end
