(* ===== verification/Credentials.thy ===== *)
theory Credentials
  imports Credential_Codec Redis_Store
begin

text \<open>
  The stored Google credentials: \<open>server/services/credentials.py\<close>, the table
  \<open>onebox_tokens\<close> of \<open>server/models.py\<close> and the conversion of legacy rows in
  \<open>server/commands/backfill_oauth_credentials.py\<close>. One definition per transaction; a
  transaction that raises leaves the table as it was. The Google client library and the way the JSON
  column stores Python's \<open>None\<close> are the parameter \<open>cred_lib\<close>.
\<close>

section \<open>Data\<close>

datatype connection_status = ConnPending | ConnConnected | ConnReconnectRequired | ConnQuarantined

text \<open>In \<open>at_token_json\<close>, \<open>None\<close> is SQL \<open>NULL\<close> and \<open>Some JNull\<close> the JSON value null.\<close>

record agent_token =
  at_user_id :: uuid
  at_user_email :: "str option"
  at_token_json :: "json option"
  at_encrypted :: "str option"
  at_key_id :: "str option"
  at_format_version :: "str option"
  at_google_email :: "str option"
  at_status :: connection_status

type_synonym token_db = "agent_token list"

datatype credential_error =
    CredentialEncryptionUnavailable
  | GoogleReconnectRequired
  | GoogleCredentialsUnavailable
  | OAuthExchangeFailed
  | OAuthAccountMismatch
  | OAuthConnectionAlreadyExists
  | CodecFailure
  | LifecycleCancelled
  | InvalidBatchSize

record 'c google_connection =
  gc_user_id :: uuid
  gc_google_email :: str
  gc_credentials :: 'c

record oauth_exchange_result =
  ox_google_email :: str
  ox_normalized_google_email :: str
  ox_token_payload :: json

text \<open>What refreshing does: \<open>RefreshedTo\<close> carries the new token as parsed JSON, if it can be parsed.\<close>

datatype refresh_outcome = RefreshedTo "json option" | RefreshRejected | RefreshFailed | RefreshCancelled

record 'c cred_lib =
  cr_codec :: codec_lib
  cr_none :: "json option"
  cr_from_info :: "json \<Rightarrow> 'c option"
  cr_expired :: "'c \<Rightarrow> bool"
  cr_refresh :: "'c \<Rightarrow> refresh_outcome"
  cr_fetch_token :: "str \<Rightarrow> json option"
  cr_userinfo :: "str \<Rightarrow> json option"

section \<open>The codec in use\<close>

definition get_credential_codec :: "bool \<Rightarrow> json option \<Rightarrow> str \<Rightarrow> credential_error + codec" where
  "get_credential_codec configured keyring_file active_key_id =
     (if \<not> configured then Inl CredentialEncryptionUnavailable
      else case from_keyring_file keyring_file active_key_id of
        Inl _ \<Rightarrow> Inl CredentialEncryptionUnavailable
      | Inr codec \<Rightarrow> Inr codec)"

section \<open>Token payloads\<close>

definition dict_put :: "str \<Rightarrow> json \<Rightarrow> (str \<times> json) list \<Rightarrow> (str \<times> json) list" where
  "dict_put k v kvs = (if map_of kvs k = None then kvs @ [(k, v)]
     else map (\<lambda>(i, x). if i = k then (i, v) else (i, x)) kvs)"

definition merge_oauth_token_payload :: "json option \<Rightarrow> json \<Rightarrow> credential_error + json" where
  "merge_oauth_token_payload existing_token returned_token =
     (case returned_token of
        JObj merged \<Rightarrow>
          Inr (case Option.bind existing_token (jget ''refresh_token'') of
                 Some (JStr existing) \<Rightarrow>
                   (if truthy (map_of merged ''refresh_token'') then JObj merged
                    else JObj (dict_put ''refresh_token'' (JStr existing) merged))
               | _ \<Rightarrow> JObj merged)
      | _ \<Rightarrow> Inl GoogleReconnectRequired)"

text \<open>\<open>str.split\<close> without arguments.\<close>

fun split_words :: "str \<Rightarrow> str \<Rightarrow> str list" where
  "split_words w [] = (if w = [] then [] else [rev w])"
| "split_words w (c # cs) =
     (if is_space c then (if w = [] then split_words [] cs else rev w # split_words [] cs) else split_words (c # w) cs)"

fun all_texts :: "json list \<Rightarrow> str list option" where
  "all_texts [] = Some []"
| "all_texts (JStr s # js) = map_option ((#) s) (all_texts js)"
| "all_texts (_ # js) = None"

definition granted_scopes :: "json \<Rightarrow> str list" where
  "granted_scopes payload =
     (case (case jget ''scopes'' payload of Some v \<Rightarrow> Some v | None \<Rightarrow> jget ''scope'' payload) of
        Some (JStr s) \<Rightarrow> split_words [] s
      | Some (JArr js) \<Rightarrow> (case all_texts js of Some ss \<Rightarrow> ss | None \<Rightarrow> [])
      | _ \<Rightarrow> [])"

definition required_scope_groups :: "str list list" where
  "required_scope_groups =
     [[''https://mail.google.com/'', ''https://www.googleapis.com/auth/gmail.modify''],
      [''https://www.googleapis.com/auth/calendar''], [''https://www.googleapis.com/auth/tasks''],
      [''https://www.googleapis.com/auth/userinfo.email''], [''openid'']]"

definition validate_token_payload :: "json \<Rightarrow> credential_error + json" where
  "validate_token_payload payload =
     (case (is_jobj payload, jget ''refresh_token'' payload) of
        (True, Some (JStr refresh_token)) \<Rightarrow>
          (if strip refresh_token = [] then Inl GoogleReconnectRequired
           else if list_ex (\<lambda>accepted. \<not> list_ex (\<lambda>s. s \<in> set accepted) (granted_scopes payload)) required_scope_groups
           then Inl GoogleReconnectRequired
           else Inr payload)
      | _ \<Rightarrow> Inl GoogleReconnectRequired)"

section \<open>Rows\<close>

definition text_or_empty :: "str option \<Rightarrow> str" where
  "text_or_empty t = (case t of Some s \<Rightarrow> s | None \<Rightarrow> [])"

definition legacy_email :: "agent_token \<Rightarrow> str option" where
  "legacy_email r =
     (if text_or_empty (at_google_email r) \<noteq> [] then normalize_account_email (text_or_empty (at_google_email r))
      else if text_or_empty (at_user_email r) \<noteq> [] then normalize_account_email (text_or_empty (at_user_email r))
      else None)"

definition token_value :: "agent_token \<Rightarrow> json" where
  "token_value r = (case at_token_json r of None \<Rightarrow> JNull | Some j \<Rightarrow> j)"

definition read_token_payload :: "'c cred_lib \<Rightarrow> codec \<Rightarrow> agent_token \<Rightarrow> str \<Rightarrow> credential_error + json \<times> bool" where
  "read_token_payload L codec r normalized_google_email =
     (if text_or_empty (at_encrypted r) \<noteq> [] then
        (case decrypt (cr_codec L) codec (text_or_empty (at_encrypted r)) (text_or_empty (at_key_id r))
                (text_or_empty (at_format_version r)) (at_user_id r) normalized_google_email of
           Inl _ \<Rightarrow> Inl GoogleReconnectRequired
         | Inr payload \<Rightarrow> map_sum id (\<lambda>p. (p, False)) (validate_token_payload payload))
      else if truthy (Some (token_value r)) then map_sum id (\<lambda>p. (p, True)) (validate_token_payload (token_value r))
      else Inl GoogleReconnectRequired)"

text \<open>
  Assigning \<open>None\<close> to the JSON column: nothing is written when the attribute is \<open>None\<close> already,
  otherwise the column gets what the library stores for \<open>None\<close>.
\<close>

definition clear_token_json :: "'c cred_lib \<Rightarrow> agent_token \<Rightarrow> agent_token" where
  "clear_token_json L r = (if token_value r = JNull then r else r\<lparr>at_token_json := cr_none L\<rparr>)"

definition write_encrypted_token ::
  "'c cred_lib \<Rightarrow> codec \<Rightarrow> bytes \<Rightarrow> agent_token \<Rightarrow> json \<Rightarrow> str \<Rightarrow> credential_error + agent_token" where
  "write_encrypted_token L codec nonce r payload normalized_google_email =
     (case encrypt (cr_codec L) codec nonce payload (at_user_id r) normalized_google_email of
        Inl _ \<Rightarrow> Inl CodecFailure
      | Inr e \<Rightarrow>
          Inr (clear_token_json L (r\<lparr>at_encrypted := Some (ep_ciphertext e), at_key_id := Some (ep_key_id e),
            at_format_version := Some (ep_format_version e), at_google_email := Some normalized_google_email,
            at_status := ConnConnected\<rparr>)))"

definition mark_reconnect_required :: "agent_token \<Rightarrow> agent_token" where
  "mark_reconnect_required r = r\<lparr>at_status := ConnReconnectRequired\<rparr>"

section \<open>Loading a connection\<close>

datatype 'c refresh_result = Refreshed json 'c | RefreshReconnect | RefreshUnavailable | RefreshAborted

definition refresh_credentials :: "'c cred_lib \<Rightarrow> json \<Rightarrow> 'c \<Rightarrow> 'c refresh_result" where
  "refresh_credentials L payload credentials =
     (case cr_refresh L credentials of
        RefreshRejected \<Rightarrow> RefreshReconnect
      | RefreshFailed \<Rightarrow> RefreshUnavailable
      | RefreshCancelled \<Rightarrow> RefreshAborted
      | RefreshedTo None \<Rightarrow> RefreshReconnect
      | RefreshedTo (Some returned) \<Rightarrow>
          (case merge_oauth_token_payload (Some payload) returned of
             Inl _ \<Rightarrow> RefreshReconnect
           | Inr merged \<Rightarrow>
               (case validate_token_payload merged of
                  Inl _ \<Rightarrow> RefreshReconnect
                | Inr p \<Rightarrow> (case cr_from_info L p of None \<Rightarrow> RefreshReconnect | Some c \<Rightarrow> Refreshed p c))))"

datatype 'c load_verdict = LoadConnected "'c google_connection" | LoadReconnect | LoadUnavailable | LoadRaised credential_error

definition connected_load :: "agent_token \<Rightarrow> str \<Rightarrow> 'c \<Rightarrow> 'c load_verdict" where
  "connected_load r email c = LoadConnected \<lparr>gc_user_id = at_user_id r, gc_google_email = email, gc_credentials = c\<rparr>"

definition store_payload ::
  "'c cred_lib \<Rightarrow> codec \<Rightarrow> bytes \<Rightarrow> agent_token \<Rightarrow> json \<Rightarrow> str \<Rightarrow> 'c \<Rightarrow> 'c load_verdict \<times> agent_token" where
  "store_payload L codec nonce r payload email c =
     (case write_encrypted_token L codec nonce r payload email of
        Inl e \<Rightarrow> (LoadRaised e, r)
      | Inr r' \<Rightarrow> (connected_load r email c, r'))"

definition load_row :: "'c cred_lib \<Rightarrow> codec \<Rightarrow> bytes \<Rightarrow> agent_token \<Rightarrow> 'c load_verdict \<times> agent_token" where
  "load_row L codec nonce r =
     (if at_status r \<noteq> ConnConnected then (LoadReconnect, r)
      else case legacy_email r of
        None \<Rightarrow> (LoadReconnect, mark_reconnect_required r)
      | Some email \<Rightarrow>
          (case read_token_payload L codec r email of
             Inl _ \<Rightarrow> (LoadReconnect, mark_reconnect_required r)
           | Inr (payload, used_legacy_payload) \<Rightarrow>
               (case cr_from_info L payload of
                  None \<Rightarrow> (LoadReconnect, mark_reconnect_required r)
                | Some credentials \<Rightarrow>
                    (if cr_expired L credentials then
                       (case refresh_credentials L payload credentials of
                          RefreshReconnect \<Rightarrow> (LoadReconnect, mark_reconnect_required r)
                        | RefreshUnavailable \<Rightarrow> (LoadUnavailable, r)
                        | RefreshAborted \<Rightarrow> (LoadRaised LifecycleCancelled, r)
                        | Refreshed p c \<Rightarrow> store_payload L codec nonce r p email c)
                     else if used_legacy_payload then store_payload L codec nonce r payload email credentials
                     else (connected_load r email credentials, r)))))"

definition load_connected_google_connection ::
  "'c cred_lib \<Rightarrow> credential_error + codec \<Rightarrow> bytes \<Rightarrow> uuid \<Rightarrow> token_db \<Rightarrow> (credential_error + 'c google_connection) \<times> token_db" where
  "load_connected_google_connection L codec_result nonce user_id db =
     (case codec_result of
        Inl e \<Rightarrow> (Inl e, db)
      | Inr codec \<Rightarrow>
          (case tbl_get at_user_id user_id db of
             None \<Rightarrow> (Inl GoogleReconnectRequired, db)
           | Some r \<Rightarrow>
               (case load_row L codec nonce r of
                  (LoadConnected connection, r') \<Rightarrow> (Inr connection, tbl_put at_user_id r' db)
                | (LoadReconnect, r') \<Rightarrow> (Inl GoogleReconnectRequired, tbl_put at_user_id r' db)
                | (LoadUnavailable, r') \<Rightarrow> (Inl GoogleCredentialsUnavailable, tbl_put at_user_id r' db)
                | (LoadRaised e, r') \<Rightarrow> (Inl e, db))))"

section \<open>Connecting an account\<close>

definition exchange_oauth_code :: "'c cred_lib \<Rightarrow> str \<Rightarrow> credential_error + oauth_exchange_result" where
  "exchange_oauth_code L code =
     (case cr_fetch_token L code of
        None \<Rightarrow> Inl OAuthExchangeFailed
      | Some returned \<Rightarrow>
          (case validate_token_payload returned of
             Inl _ \<Rightarrow> Inl OAuthExchangeFailed
           | Inr payload \<Rightarrow>
               (case cr_userinfo L code of
                  Some (JStr email) \<Rightarrow>
                    (case normalize_account_email email of
                       None \<Rightarrow> Inl OAuthExchangeFailed
                     | Some normalized \<Rightarrow>
                         Inr \<lparr>ox_google_email = strip email, ox_normalized_google_email = normalized, ox_token_payload = payload\<rparr>)
                | _ \<Rightarrow> Inl OAuthExchangeFailed)))"

definition pending_row :: "'c cred_lib \<Rightarrow> uuid \<Rightarrow> agent_token" where
  "pending_row L user_id = \<lparr>at_user_id = user_id, at_user_email = None, at_token_json = cr_none L, at_encrypted = None,
     at_key_id = None, at_format_version = None, at_google_email = None, at_status = ConnPending\<rparr>"

definition insert_pending :: "'c cred_lib \<Rightarrow> uuid \<Rightarrow> token_db \<Rightarrow> token_db" where
  "insert_pending L user_id db = (if tbl_get at_user_id user_id db = None then db @ [pending_row L user_id] else db)"

text \<open>The payload already stored, which may contribute its refresh token.\<close>

definition existing_payload ::
  "'c cred_lib \<Rightarrow> codec \<Rightarrow> agent_token \<Rightarrow> oauth_exchange_result \<Rightarrow> credential_error + json option" where
  "existing_payload L codec r exchange =
     (if text_or_empty (at_encrypted r) \<noteq> [] then
        (case read_token_payload L codec r (ox_normalized_google_email exchange) of
           Inr (payload, _) \<Rightarrow> Inr (Some payload)
         | Inl e \<Rightarrow> (if truthy (jget ''refresh_token'' (ox_token_payload exchange)) then Inr None else Inl e))
      else if truthy (Some (token_value r)) then
        (case validate_token_payload (token_value r) of Inr payload \<Rightarrow> Inr (Some payload) | Inl _ \<Rightarrow> Inr None)
      else Inr None)"

definition persist_row ::
  "'c cred_lib \<Rightarrow> codec \<Rightarrow> bytes \<Rightarrow> agent_token \<Rightarrow> oauth_exchange_result \<Rightarrow> credential_error + agent_token" where
  "persist_row L codec nonce r exchange =
     (if legacy_email r \<noteq> None \<and> legacy_email r \<noteq> Some (ox_normalized_google_email exchange) then Inl OAuthAccountMismatch
     else case existing_payload L codec r exchange of
       Inl e \<Rightarrow> Inl e
     | Inr existing \<Rightarrow>
         (case merge_oauth_token_payload existing (ox_token_payload exchange) of
            Inl e \<Rightarrow> Inl e
          | Inr merged \<Rightarrow>
              (case validate_token_payload merged of
                 Inl e \<Rightarrow> Inl e
               | Inr payload \<Rightarrow>
                   write_encrypted_token L codec nonce (r\<lparr>at_user_email := Some (ox_google_email exchange)\<rparr>) payload
                     (ox_normalized_google_email exchange))))"

definition persist_oauth_connection ::
  "'c cred_lib \<Rightarrow> credential_error + codec \<Rightarrow> bytes \<Rightarrow> uuid \<Rightarrow> str \<Rightarrow> oauth_exchange_result \<Rightarrow> token_db \<Rightarrow>
   (credential_error + unit) \<times> token_db" where
  "persist_oauth_connection L codec_result nonce user_id expected_google_email exchange db =
     (if ox_normalized_google_email exchange \<noteq> expected_google_email then (Inl OAuthAccountMismatch, db)
      else case codec_result of
        Inl e \<Rightarrow> (Inl e, db)
      | Inr codec \<Rightarrow>
          (case tbl_get at_user_id user_id (insert_pending L user_id db) of
             None \<Rightarrow> (Inl GoogleCredentialsUnavailable, db)
           | Some r \<Rightarrow>
               (case persist_row L codec nonce r exchange of
                  Inl e \<Rightarrow> (Inl e, db)
                | Inr r' \<Rightarrow> (Inr (), tbl_put at_user_id r' (insert_pending L user_id db)))))"

definition create_pending_oauth_connection :: "'c cred_lib \<Rightarrow> uuid \<Rightarrow> token_db \<Rightarrow> (credential_error + unit) \<times> token_db" where
  "create_pending_oauth_connection L user_id db =
     (if tbl_get at_user_id user_id db = None then (Inr (), insert_pending L user_id db)
      else (Inl OAuthConnectionAlreadyExists, db))"

section \<open>Converting legacy rows\<close>

datatype backfill_result = BackfillPending | BackfillQuarantined | BackfillEncrypted

definition quarantine :: "'c cred_lib \<Rightarrow> agent_token \<Rightarrow> agent_token" where
  "quarantine L r = clear_token_json L (r\<lparr>at_status := ConnQuarantined\<rparr>)"

definition backfill_legacy_row ::
  "'c cred_lib \<Rightarrow> codec \<Rightarrow> bytes \<Rightarrow> agent_token \<Rightarrow> credential_error + backfill_result \<times> agent_token" where
  "backfill_legacy_row L codec nonce r =
     (if token_value r = JObj [(''status'', JStr ''pending_oauth'')]
      then Inr (BackfillPending, clear_token_json L (r\<lparr>at_status := ConnPending\<rparr>))
      else case legacy_email r of
        None \<Rightarrow> Inr (BackfillQuarantined, quarantine L r)
      | Some email \<Rightarrow>
          (if \<not> is_jobj (token_value r) then Inr (BackfillQuarantined, quarantine L r)
           else case validate_token_payload (token_value r) of
             Inl _ \<Rightarrow> Inr (BackfillQuarantined, quarantine L r)
           | Inr payload \<Rightarrow> map_sum id (\<lambda>r'. (BackfillEncrypted, r')) (write_encrypted_token L codec nonce r payload email)))"

text \<open>
  One transaction: the first \<open>batch_size\<close> rows, by user, that have a token column and are not
  locked by another session. Every row gets its own nonce.
\<close>

definition batch_rows :: "(uuid \<Rightarrow> bool) \<Rightarrow> nat \<Rightarrow> token_db \<Rightarrow> agent_token list" where
  "batch_rows locked batch_size db =
     take batch_size (sort_key at_user_id (filter (\<lambda>r. at_token_json r \<noteq> None \<and> \<not> locked (at_user_id r)) db))"

fun backfill_rows ::
  "'c cred_lib \<Rightarrow> codec \<Rightarrow> (uuid \<Rightarrow> bytes) \<Rightarrow> agent_token list \<Rightarrow> token_db \<Rightarrow> credential_error + backfill_result list \<times> token_db" where
  "backfill_rows L codec nonces [] db = Inr ([], db)"
| "backfill_rows L codec nonces (r # rs) db =
     (case backfill_legacy_row L codec (nonces (at_user_id r)) r of
        Inl e \<Rightarrow> Inl e
      | Inr (res, r') \<Rightarrow>
          (case backfill_rows L codec nonces rs (tbl_put at_user_id r' db) of
             Inl e \<Rightarrow> Inl e
           | Inr (results, db') \<Rightarrow> Inr (res # results, db')))"

text \<open>
  The loop, observed for \<open>fuel\<close> transactions: \<open>None\<close> if it is still running then. An error in a
  batch undoes that batch and ends the command.
\<close>

fun backfill_loop ::
  "'c cred_lib \<Rightarrow> codec \<Rightarrow> (nat \<Rightarrow> uuid \<Rightarrow> bytes) \<Rightarrow> (nat \<Rightarrow> uuid \<Rightarrow> bool) \<Rightarrow> nat \<Rightarrow> nat \<Rightarrow> token_db \<Rightarrow>
   (credential_error + backfill_result list) option \<times> token_db" where
  "backfill_loop L codec nonces locked batch_size 0 db = (None, db)"
| "backfill_loop L codec nonces locked batch_size (Suc fuel) db =
     (case batch_rows (locked fuel) batch_size db of
        [] \<Rightarrow> (Some (Inr []), db)
      | rows \<Rightarrow>
          (case backfill_rows L codec (nonces fuel) rows db of
             Inl e \<Rightarrow> (Some (Inl e), db)
           | Inr (results, db') \<Rightarrow>
               (case backfill_loop L codec nonces locked batch_size fuel db' of
                  (Some (Inr later), db'') \<Rightarrow> (Some (Inr (results @ later)), db'')
                | out \<Rightarrow> out)))"

definition backfill_legacy_oauth_credentials ::
  "'c cred_lib \<Rightarrow> credential_error + codec \<Rightarrow> (nat \<Rightarrow> uuid \<Rightarrow> bytes) \<Rightarrow> (nat \<Rightarrow> uuid \<Rightarrow> bool) \<Rightarrow> nat \<Rightarrow> nat \<Rightarrow> token_db \<Rightarrow>
   (credential_error + backfill_result list) option \<times> token_db" where
  "backfill_legacy_oauth_credentials L codec_result nonces locked batch_size fuel db =
     (if batch_size < 1 \<or> 1000 < batch_size then (Some (Inl InvalidBatchSize), db)
      else case codec_result of
        Inl e \<Rightarrow> (Some (Inl e), db)
      | Inr codec \<Rightarrow> backfill_loop L codec nonces locked batch_size fuel db)"

end
