(* ===== verification/Redis_Safety.thy ===== *)
theory Redis_Safety
  imports Redis_Store Action_Payloads
begin

text \<open>
  The properties of the OAuth states and of the mail cache, for every interleaving of sessions and
  every fault of the transport: a state is redeemed at most once and only for the user it was
  created for, it can be redeemed while it is fresh, and no request that began before an
  invalidation can write a page that a later request reads.
\<close>

section \<open>Frame\<close>

text \<open>The cell \<open>k\<close> is left alone: all that happens to it is expiry.\<close>

definition undisturbed :: "'s redis \<Rightarrow> str \<Rightarrow> 's \<Rightarrow> 's \<Rightarrow> bool" where
  "undisturbed R k s s' = (rd_now R s \<le> rd_now R s' \<and> view R s' k = alive (rd_now R s') (view R s k))"

lemma keeps_refl [simp]: "undisturbed R k s s"
  by (simp add: undisturbed_def view_def visible_def)

lemma keeps_trans: "undisturbed R k s s1 \<Longrightarrow> undisturbed R k s1 s2 \<Longrightarrow> undisturbed R k s s2"
  by (auto simp: undisturbed_def)

lemma keeps_passes: "passes R s s' \<Longrightarrow> undisturbed R k s s'"
  by (simp add: undisturbed_def passes_view passes_now)

lemma outcome_keeps:
  assumes "outcome R cmd s q"
    and "\<And>v. happened R cmd s v (snd q) \<Longrightarrow> view R (snd q) k = alive (rd_now R (snd q)) (view R s k)"
  shows "undisturbed R k s (snd q)"
  using assms keeps_passes happened_now unfolding outcome_def undisturbed_def
  by (cases q) (fastforce split: sum.splits)

lemma outcome_now: "outcome R cmd s q \<Longrightarrow> rd_now R s \<le> rd_now R (snd q)"
  unfolding outcome_def using happened_now passes_now by (cases q) (fastforce split: sum.splits)

lemma redis_outcomes:
  assumes "documented_redis R"
  shows "outcome R (cmd_get k) s (redis_get R k s)"
    and "outcome R (cmd_setex k ttl v) s (redis_setex R k ttl v s)"
    and "outcome R (cmd_delete [k]) s (redis_delete R [k] s)"
    and "outcome R (cmd_incr k) s (redis_incr R k s)"
    and "outcome R (getdel_script k) s (redis_consume R k s)"
  unfolding redis_get_def redis_setex_def redis_delete_def redis_incr_def redis_consume_def
  using assms by (auto simp: documented_redis_def intro!: run_call_outcome [OF assms])

text \<open>The states after the operations, in terms of the one command each of them issues.\<close>

lemma create_state:
  "snd (create_oauth_state J R state u email s) =
     (case Option.bind (normalize_account_email email) (\<lambda>e. jl_dumps J (binding_json u e)) of
        None \<Rightarrow> s | Some raw \<Rightarrow> snd (redis_setex R (state_key state) STATE_TTL_SECONDS raw s))"
  by (auto simp: create_oauth_state_def split: option.splits prod.splits sum.splits redis_error.splits)

lemma consume_state:
  "snd (consume_oauth_state J R state s) = (if state = [] then s else snd (redis_consume R (state_key state) s))"
  by (auto simp: consume_oauth_state_def split: option.splits prod.splits sum.splits redis_error.splits)

lemma cache_set_state:
  "snd (cache_set J R k v ttl s) = (case jl_dumps J v of None \<Rightarrow> s | Some raw \<Rightarrow> snd (redis_setex R k ttl raw s))"
  by (auto simp: cache_set_def split: option.splits prod.splits sum.splits redis_error.splits)

lemma cache_other_states:
  "snd (cache_get J R k s) = snd (redis_get R k s)"
  "snd (cache_delete R k s) = snd (redis_delete R [k] s)"
  "snd (get_user_mail_cache_generation R u s) = snd (redis_get R (generation_key u) s)"
  "snd (invalidate_user_mail_cache R u s) = snd (redis_incr R (generation_key u) s)"
  by (auto simp: cache_get_def cache_delete_def get_user_mail_cache_generation_def invalidate_user_mail_cache_def
      split: prod.splits sum.splits redis_error.splits)

lemma perform_state:
  "snd (perform J R (OpConsume state) s) = snd (consume_oauth_state J R state s)"
  by (auto split: prod.splits sum.splits)

fun touched :: "store_op \<Rightarrow> str set" where
  "touched (OpCreate state _ _) = {state_key state}"
| "touched (OpConsume state) = {state_key state}"
| "touched (OpCacheSet u g ns _ _) = {mail_key u g ns}"
| "touched (OpCacheDelete u g ns) = {mail_key u g ns}"
| "touched (OpInvalidate u) = {generation_key u}"
| "touched _ = {}"

lemma redis_keeps:
  assumes "documented_redis R"
  shows "undisturbed R k s (snd (redis_get R j s))"
    and "k \<noteq> j \<Longrightarrow> undisturbed R k s (snd (redis_setex R j ttl v s))"
    and "k \<noteq> j \<Longrightarrow> undisturbed R k s (snd (redis_delete R [j] s))"
    and "k \<noteq> j \<Longrightarrow> undisturbed R k s (snd (redis_incr R j s))"
    and "k \<noteq> j \<Longrightarrow> undisturbed R k s (snd (redis_consume R j s))"
  by (rule outcome_keeps, rule redis_outcomes [OF assms],
      simp add: happened_get(1) happened_setex(1) happened_delete happened_incr(1) happened_getdel(1))+

lemma perform_keeps:
  assumes "documented_redis R" and "k \<notin> touched x"
  shows "undisturbed R k s (snd (perform J R x s))"
proof -
  have "undisturbed R k s (rd_idle R n s)" for n using assms(1) by (simp add: documented_redis_def keeps_passes)
  then show ?thesis using assms(2) redis_keeps [OF assms(1)]
    by (cases x) (simp_all add: perform_state create_state consume_state cache_set_state cache_other_states
        del: perform.simps(3) split: option.splits)
qed

lemma perform_now: "documented_redis R \<Longrightarrow> rd_now R s \<le> rd_now R (snd (perform J R x s))"
proof -
  assume doc: "documented_redis R"
  have "finite (touched x)" by (cases x) auto
  then obtain k where "k \<notin> touched x" using ex_new_if_finite infinite_UNIV_listI by metis
  then show ?thesis using perform_keeps [OF doc] unfolding undisturbed_def by blast
qed

section \<open>OAuth states\<close>

fun creates :: "str \<Rightarrow> store_op \<Rightarrow> bool" where
  "creates state (OpCreate st _ _) = (st = state)"
| "creates state _ = False"

definition redeemed :: "str \<Rightarrow> store_op \<times> oauth_state_binding option \<Rightarrow> bool" where
  "redeemed state entry = (fst entry = OpConsume state \<and> snd entry \<noteq> None)"

text \<open>\<open>json.loads\<close> inverts \<open>json.dumps\<close> on the bindings, and JSON text is not empty.\<close>

definition bindings_round_trip :: "json_lib \<Rightarrow> bool" where
  "bindings_round_trip J = (\<forall>u e raw. jl_dumps J (binding_json u e) = Some raw \<longrightarrow>
     raw \<noteq> [] \<and> jl_loads J raw = Some (binding_json u e))"

definition store_empty :: "'s redis \<Rightarrow> 's \<Rightarrow> bool" where
  "store_empty R s = (\<forall>k. rd_cells R s k = None)"

lemma casefold_hd_space: "s \<noteq> [] \<Longrightarrow> is_space (hd (casefold s)) = is_space (hd s)"
  by (cases s) auto

lemma casefold_last_space: "s \<noteq> [] \<Longrightarrow> is_space (last (casefold s)) = is_space (last s)"
  by (cases s rule: rev_cases) (auto simp: casefold_append)

lemma trimmed_ends:
  "strip s = s \<longleftrightarrow> s = [] \<or> \<not> is_space (hd s) \<and> \<not> is_space (last s)"
proof (cases "s = []")
  case False
  then obtain c cs where s: "s = c # cs" by (cases s) auto
  have *: "lstrip t = t \<longleftrightarrow> t = [] \<or> \<not> is_space (hd t)" for t
    using lstrip_fixed by (cases t) auto
  show ?thesis
  proof
    assume "strip s = s"
    then have 1: "rev (lstrip (rev (lstrip s))) = s" by (simp add: strip_def)
    have "lstrip s = s" using lstrip_rev_lstrip [of s] 1 by simp
    moreover from this have "lstrip (rev s) = rev s" using 1 by (metis rev_rev_ident)
    ultimately show "s = [] \<or> \<not> is_space (hd s) \<and> \<not> is_space (last s)"
      using * [of s] * [of "rev s"] False by (simp add: hd_rev)
  next
    assume "s = [] \<or> \<not> is_space (hd s) \<and> \<not> is_space (last s)"
    then have "lstrip s = s" "lstrip (rev s) = rev s" using * [of s] * [of "rev s"] False by (auto simp: hd_rev)
    then show "strip s = s" by (simp add: strip_def)
  qed
qed (simp add: strip_def lstrip_def)

lemma normalize_account_email_idem: "normalize_account_email email = Some e \<Longrightarrow> normalize_account_email e = Some e"
proof -
  assume e: "normalize_account_email email = Some e"
  define s where "s = strip email"
  have s: "e = casefold s" "s \<noteq> []" "strip s = s"
    using e by (auto simp: normalize_account_email_def Let_def s_def split: if_splits)
  then have "strip e = e" by (auto simp: trimmed_ends casefold_hd_space casefold_last_space)
  then show ?thesis using s by (simp add: normalize_account_email_def)
qed

lemma decode_binding_created:
  assumes "bindings_round_trip J" and "normalize_account_email email = Some e" and "jl_dumps J (binding_json u e) = Some raw"
  shows "raw \<noteq> []"
    and "decode_binding J raw = (if u = [] then None else Some \<lparr>sb_user_id = u, sb_expected_email = e\<rparr>)"
proof -
  have "raw \<noteq> []" "jl_loads J raw = Some (binding_json u e)" using assms unfolding bindings_round_trip_def by blast+
  then show "raw \<noteq> []" "decode_binding J raw = (if u = [] then None else Some \<lparr>sb_user_id = u, sb_expected_email = e\<rparr>)"
    using normalize_account_email_idem [OF assms(2)] by (simp_all add: decode_binding_def binding_json_def)
qed

text \<open>One operation: redeeming needs the stored cell and removes it, only creation stores it.\<close>

definition stored :: "'s redis \<Rightarrow> str \<Rightarrow> 's \<Rightarrow> nat" where
  "stored R state s = (if view R s (state_key state) = None then 0 else 1)"

lemma keeps_stored: "undisturbed R (state_key state) s s' \<Longrightarrow> stored R state s' \<le> stored R state s"
  by (simp add: undisturbed_def stored_def)

lemma consume_result:
  assumes "documented_redis R" and "consume_oauth_state J R state s = (r, s')"
  shows "r = Inr (Some b) \<Longrightarrow>
      \<exists>raw e. view R s (state_key state) = Some (raw, e) \<and> decode_binding J raw = Some b \<and> view R s' (state_key state) = None"
    and "stored R state s' \<le> stored R state s"
proof -
  have out: "outcome R (getdel_script (state_key state)) s (redis_consume R (state_key state) s)"
    by (rule redis_outcomes [OF assms(1)])
  have gone: "view R s1 (state_key state) = None" if "happened R (getdel_script (state_key state)) s v s1" for v s1
    using happened_getdel(1) [OF that] by simp
  show "\<exists>raw e. view R s (state_key state) = Some (raw, e) \<and> decode_binding J raw = Some b \<and> view R s' (state_key state) = None"
    if r: "r = Inr (Some b)"
  proof -
    obtain raw where raw: "redis_consume R (state_key state) s = (Inr (Some raw), s')" "decode_binding J raw = Some b"
      using assms(2) r by (auto simp: consume_oauth_state_def split: if_splits prod.splits sum.splits redis_error.splits option.splits)
    have h: "happened R (getdel_script (state_key state)) s (Some raw) s'" using out raw by (simp add: outcome_def)
    obtain t where "Some raw = map_option fst (alive t (view R s (state_key state)))" using happened_getdel(2) [OF h] by blast
    then obtain e where "alive t (view R s (state_key state)) = Some (raw, e)"
      by (cases "alive t (view R s (state_key state))") auto
    then show ?thesis using alive_SomeD gone [OF h] raw(2) by blast
  qed
  show "stored R state s' \<le> stored R state s"
  proof (cases "state = []")
    case True
    then show ?thesis using assms(2) by (simp add: consume_oauth_state_def)
  next
    case False
    then have s': "s' = snd (redis_consume R (state_key state) s)" using consume_state [of J R state s] assms(2) by simp
    have "passes R s s' \<or> (\<exists>v. happened R (getdel_script (state_key state)) s v s')"
      using out s' unfolding outcome_def by (auto split: prod.splits sum.splits)
    then show ?thesis using keeps_stored [OF keeps_passes [of R s s']] gone by (metis le0 stored_def)
  qed
qed

lemma perform_counts:
  assumes "documented_redis R" and "perform J R x s = (b, s')"
  shows "(if redeemed state (x, b) then 1 else 0) + stored R state s' \<le> (if creates state x then 1 else 0) + stored R state s"
proof (cases "state_key state \<in> touched x")
  case False
  then have "undisturbed R (state_key state) s s'" using perform_keeps [OF assms(1)] assms(2) by (metis snd_conv)
  moreover have "\<not> redeemed state (x, b)" using False by (auto simp: redeemed_def)
  ultimately show ?thesis using keeps_stored [of R state s s'] by (simp add: le_SucI)
next
  case True
  then consider u email where "x = OpCreate state u email" | "x = OpConsume state"
    by (cases x) (auto simp: state_key_def mail_key_def generation_key_def)
  then show ?thesis
  proof cases
    case 1
    then show ?thesis by (simp add: redeemed_def stored_def)
  next
    case 2
    obtain r where r: "consume_oauth_state J R state s = (r, s')"
      using assms(2) 2 by (auto split: prod.splits sum.splits)
    show ?thesis
    proof (cases b)
      case None
      then show ?thesis using consume_result(2) [OF assms(1) r] 2 by (simp add: redeemed_def)
    next
      case (Some b')
      then have "r = Inr (Some b')" using assms(2) 2 r by (auto split: sum.splits)
      then show ?thesis using consume_result(1) [OF assms(1) r] 2 by (fastforce simp: redeemed_def stored_def)
    qed
  qed
qed

lemma run_ops_counts:
  assumes "documented_redis R" and "run_ops J R xs s = (log, s')"
  shows "length (filter (redeemed state) log) + stored R state s' \<le> length (filter (creates state) xs) + stored R state s"
  using assms(2)
proof (induction xs arbitrary: s log)
  case (Cons x xs)
  obtain b s1 rest where x: "perform J R x s = (b, s1)" and rest: "run_ops J R xs s1 = (rest, s')" and log: "log = (x, b) # rest"
    using Cons.prems by (auto simp: Let_def split: prod.splits)
  show ?case using Cons.IH [OF rest] perform_counts [OF assms(1) x, of state] log by auto
qed simp

text \<open>Where the stored cell comes from.\<close>

definition binds :: "json_lib \<Rightarrow> str \<Rightarrow> store_op \<Rightarrow> str \<Rightarrow> bool" where
  "binds J state x raw = (case x of
      OpCreate st u email \<Rightarrow> st = state \<and> Option.bind (normalize_account_email email) (\<lambda>e. jl_dumps J (binding_json u e)) = Some raw
    | _ \<Rightarrow> False)"

definition originates :: "json_lib \<Rightarrow> 's redis \<Rightarrow> str \<Rightarrow> store_op set \<Rightarrow> 's \<Rightarrow> bool" where
  "originates J R state past s =
     (\<forall>raw e. view R s (state_key state) = Some (raw, e) \<longrightarrow> (\<exists>x \<in> past. binds J state x raw))"

lemma keeps_originates: "undisturbed R (state_key state) s s' \<Longrightarrow> originates J R state past s \<Longrightarrow> originates J R state past s'"
  unfolding undisturbed_def originates_def by (metis alive_SomeD)

lemma originates_mono: "originates J R state past s \<Longrightarrow> past \<subseteq> past' \<Longrightarrow> originates J R state past' s"
  unfolding originates_def by blast

lemma create_originates:
  assumes "documented_redis R" and "originates J R state past s"
  shows "originates J R state (insert (OpCreate state u email) past) (snd (create_oauth_state J R state u email s))"
proof (cases "Option.bind (normalize_account_email email) (\<lambda>e. jl_dumps J (binding_json u e))")
  case None
  then show ?thesis using originates_mono [OF assms(2)] by (auto simp: create_state)
next
  case (Some raw)
  let ?k = "state_key state" and ?past = "insert (OpCreate state u email) past"
  define s' where "s' = snd (redis_setex R ?k STATE_TTL_SECONDS raw s)"
  have s': "snd (create_oauth_state J R state u email s) = s'" using Some by (simp add: create_state s'_def)
  have "passes R s s' \<or> (\<exists>v. happened R (cmd_setex ?k STATE_TTL_SECONDS raw) s v s')"
    using redis_outcomes(2) [OF assms(1), of ?k STATE_TTL_SECONDS raw s] unfolding outcome_def s'_def
    by (auto split: prod.splits sum.splits)
  then show ?thesis
  proof
    assume "passes R s s'"
    then show ?thesis
      using keeps_originates [OF keeps_passes originates_mono [OF assms(2), of ?past]] s' by auto
  next
    assume "\<exists>v. happened R (cmd_setex ?k STATE_TTL_SECONDS raw) s v s'"
    then obtain v where h: "happened R (cmd_setex ?k STATE_TTL_SECONDS raw) s v s'" by blast
    obtain t where "view R s' ?k = alive (rd_now R s') (Some (raw, t))" using happened_setex(2) [OF h] by blast
    moreover have "binds J state (OpCreate state u email) raw" using Some by (simp add: binds_def)
    ultimately show ?thesis using s' unfolding originates_def by (auto dest: alive_SomeD)
  qed
qed

lemma consume_keeps:
  assumes "documented_redis R" and "originates J R state past s"
  shows "originates J R state past (snd (consume_oauth_state J R state s))"
proof -
  obtain r s' where r: "consume_oauth_state J R state s = (r, s')" by fastforce
  have "view R s' (state_key state) = None \<or> s' = s \<or> passes R s s'"
    using redis_outcomes(5) [OF assms(1), of "state_key state" s] consume_state [of J R state s] happened_getdel(1) r
    unfolding outcome_def by (fastforce split: prod.splits sum.splits if_splits)
  then show ?thesis using assms(2) keeps_originates [OF keeps_passes assms(2)] r by (auto simp: originates_def)
qed

lemma perform_originates:
  assumes "documented_redis R" and "originates J R state past s"
  shows "originates J R state (insert x past) (snd (perform J R x s))"
proof (cases "state_key state \<in> touched x")
  case False
  then show ?thesis
    using keeps_originates [OF perform_keeps [OF assms(1)] originates_mono [OF assms(2)]] by blast
next
  case True
  then consider u email where "x = OpCreate state u email" | "x = OpConsume state"
    by (cases x) (auto simp: state_key_def mail_key_def generation_key_def)
  then show ?thesis
    using create_originates [OF assms] originates_mono [OF consume_keeps [OF assms], of "insert x past"]
    by cases (auto simp del: perform.simps(3) simp: perform_state)
qed

lemma run_ops_origin:
  assumes "documented_redis R" and "run_ops J R xs s = (log, s')" and "originates J R state past s"
    and "log = pre @ (OpConsume state, Some b) # post"
  shows "\<exists>x raw. x \<in> past \<union> fst ` set pre \<and> binds J state x raw \<and> decode_binding J raw = Some b"
  using assms(2-)
proof (induction xs arbitrary: s log pre past)
  case (Cons x xs)
  obtain r s1 rest where x: "perform J R x s = (r, s1)" and rest: "run_ops J R xs s1 = (rest, s')" and log: "log = (x, r) # rest"
    using Cons.prems(1) by (auto simp: Let_def split: prod.splits)
  show ?case
  proof (cases pre)
    case Nil
    then have "perform J R (OpConsume state) s = (Some b, s1)" using x log Cons.prems(3) by simp
    then have "consume_oauth_state J R state s = (Inr (Some b), s1)" by (auto split: prod.splits sum.splits)
    then obtain raw e where "view R s (state_key state) = Some (raw, e)" "decode_binding J raw = Some b"
      using consume_result(1) [OF assms(1)] by blast
    then show ?thesis using Cons.prems(2) unfolding originates_def by blast
  next
    case (Cons p pre')
    then have p: "p = (x, r)" "rest = pre' @ (OpConsume state, Some b) # post" using log Cons.prems(3) by auto
    have "originates J R state (insert x past) s1"
      using perform_originates [OF assms(1) Cons.prems(2), of x] x by simp
    from Cons.IH [OF rest this p(2)] show ?thesis using p(1) Cons by auto
  qed
qed simp

lemma binds_decode:
  assumes "bindings_round_trip J" and "binds J state x raw" and "decode_binding J raw = Some b"
  shows "\<exists>email. x = OpCreate state (sb_user_id b) email \<and> normalize_account_email email = Some (sb_expected_email b)"
  using assms(2,3) decode_binding_created(2) [OF assms(1)]
  by (auto simp: binds_def bind_eq_Some_conv split: store_op.splits if_splits)

lemma store_empty_view [simp]: "store_empty R s \<Longrightarrow> view R s k = None"
  by (simp add: store_empty_def view_def visible_def)

lemma run_ops_keeps:
  assumes "documented_redis R" and "run_ops J R xs s = (log, s')" and "\<And>x. x \<in> set xs \<Longrightarrow> k \<notin> touched x"
  shows "undisturbed R k s s'"
  using assms(2,3)
proof (induction xs arbitrary: s log)
  case (Cons x xs)
  obtain b s1 rest where x: "perform J R x s = (b, s1)" and rest: "run_ops J R xs s1 = (rest, s')"
    using Cons.prems(1) by (auto simp: Let_def split: prod.splits)
  have "undisturbed R k s1 s'" using Cons.IH [OF rest] Cons.prems(2) by simp
  moreover have "undisturbed R k s s1" using perform_keeps [OF assms(1), of k x s J] Cons.prems(2) x by simp
  ultimately show ?case by (rule keeps_trans [rotated])
qed simp

text \<open>
  C19. A one-time OAuth state is what it says. In every interleaving of all sessions' operations on
  an initially empty store, and whatever calls fail or take effect unacknowledged, a state is
  redeemed at most as often as it was created (once, for a fresh token), and whoever redeems it
  obtains the user and the normalised address of an earlier creation of that very state.
\<close>

theorem oauth_state_single_use:
  assumes "documented_redis R" and "bindings_round_trip J" and "store_empty R s"
    and "run_ops J R xs s = (log, s')"
  shows "length (filter (redeemed state) log) \<le> length (filter (creates state) xs) \<and>
    (\<forall>pre b post. log = pre @ (OpConsume state, Some b) # post \<longrightarrow>
       (\<exists>email. OpCreate state (sb_user_id b) email \<in> fst ` set pre \<and> normalize_account_email email = Some (sb_expected_email b)))"
proof (intro conjI allI impI)
  show "length (filter (redeemed state) log) \<le> length (filter (creates state) xs)"
    using run_ops_counts [OF assms(1,4), of state] assms(3) by (simp add: stored_def)
  fix pre b post
  assume "log = pre @ (OpConsume state, Some b) # post"
  moreover have "originates J R state {} s" using assms(3) by (simp add: originates_def)
  ultimately obtain x raw where "x \<in> fst ` set pre" "binds J state x raw" "decode_binding J raw = Some b"
    using run_ops_origin [OF assms(1,4)] by blast
  then show "\<exists>email. OpCreate state (sb_user_id b) email \<in> fst ` set pre \<and> normalize_account_email email = Some (sb_expected_email b)"
    using binds_decode [OF assms(2), of state x raw b] by metis
qed

text \<open>
  A state can be redeemed. If its creation succeeded, nobody else uses the token, and the
  consuming call is answered less than ten minutes after the creation began, it returns the binding
  that was stored, whatever other sessions did to the store in between.
\<close>

lemma oauth_state_redeemable:
  assumes "documented_redis R" and "bindings_round_trip J" and "state \<noteq> []" and "user_id \<noteq> []"
    and "create_oauth_state J R state user_id email s = (Inr state, s1)"
    and "run_ops J R xs s1 = (log, s2)" and "\<And>x. x \<in> set xs \<Longrightarrow> state_key state \<notin> touched x"
    and "consume_oauth_state J R state s2 = (Inr r, s3)" and "rd_now R s3 < rd_now R s + seconds 600"
  shows "\<exists>e. normalize_account_email email = Some e \<and> r = Some \<lparr>sb_user_id = user_id, sb_expected_email = e\<rparr>"
proof -
  let ?k = "state_key state"
  obtain e raw where e: "normalize_account_email email = Some e" and raw: "jl_dumps J (binding_json user_id e) = Some raw"
    and set: "redis_setex R ?k STATE_TTL_SECONDS raw s = (Inr (), s1)"
    using assms(5) by (auto simp: create_oauth_state_def split: option.splits prod.splits sum.splits redis_error.splits)
  have stored: "happened R (cmd_setex ?k STATE_TTL_SECONDS raw) s () s1"
    using redis_outcomes(2) [OF assms(1), of ?k STATE_TTL_SECONDS raw s] set by (simp add: outcome_def)
  obtain t where t: "rd_now R s \<le> t" and s1: "view R s1 ?k = alive (rd_now R s1) (Some (raw, Some (t + seconds 600)))"
    using happened_setex(2) [OF stored] unfolding STATE_TTL_SECONDS_def by blast
  have s2: "rd_now R s1 \<le> rd_now R s2" "view R s2 ?k = alive (rd_now R s2) (view R s1 ?k)"
    using run_ops_keeps [OF assms(1,6,7)] by (auto simp: undisturbed_def)
  obtain d where d: "redis_consume R ?k s2 = (Inr d, s3)" "r = (case d of None \<Rightarrow> None | Some x \<Rightarrow> if x = [] then None else decode_binding J x)"
    using assms(3,8) by (auto simp: consume_oauth_state_def split: if_splits prod.splits sum.splits redis_error.splits option.splits)
  have taken: "happened R (getdel_script ?k) s2 d s3"
    using redis_outcomes(5) [OF assms(1), of ?k s2] d(1) by (simp add: outcome_def)
  obtain u where u: "rd_now R s2 \<le> u" "u \<le> rd_now R s3" "d = map_option fst (alive u (view R s2 ?k))"
    using happened_getdel(2) [OF taken] by blast
  have "d = Some raw" using u s1 s2 t assms(9) by simp
  then show ?thesis using d(2) e raw decode_binding_created [OF assms(2) e raw] assms(4) by simp
qed

section \<open>Generations of the mail cache\<close>

text \<open>Decimal text of a natural number, as Python and Redis write it, and what reading it back gives.\<close>

lemma digit_char: "d < 10 \<Longrightarrow> is_digit (char_of (48 + d)) \<and> (of_char (char_of (48 + d :: nat)) :: nat) = 48 + d"
  by (simp add: is_digit_def)

lemma is_decimal_str_nat: "is_decimal (str_nat n)"
proof (induction n rule: str_nat.induct)
  case (1 n)
  then show ?case
    by (subst str_nat.simps) (auto simp: is_decimal_def digit_char list_all_append)
qed

lemma int_of_decimal_str_nat [simp]: "int_of_decimal (str_nat n) = n"
proof (induction n rule: str_nat.induct)
  case (1 n)
  then show ?case by (subst str_nat.simps) (auto simp: int_of_decimal_def digit_char)
qed

lemma length_str_nat: "n < 10 ^ k \<Longrightarrow> 0 < k \<Longrightarrow> length (str_nat n) \<le> k"
proof (induction n arbitrary: k rule: str_nat.induct)
  case (1 n)
  show ?case
  proof (cases "n < 10")
    case True
    then show ?thesis using "1.prems"(2) by (simp add: str_nat.simps)
  next
    case False
    obtain m where k: "k = Suc m" using "1.prems"(2) by (cases k) auto
    have "0 < m" using False "1.prems"(1) k by (cases m) auto
    moreover have "n div 10 < 10 ^ m" using "1.prems"(1) k by (simp add: less_mult_imp_div_less mult.commute)
    ultimately show ?thesis using "1.IH" [of m] False k by (subst str_nat.simps) simp
  qed
qed

lemma str_nat_hd: "0 < n \<Longrightarrow> hd (str_nat n) \<noteq> CHR ''0''"
proof (induction n rule: str_nat.induct)
  case (1 n)
  show ?case
  proof (cases "n < 10")
    case True
    then have "(of_char (char_of (48 + n)) :: nat) \<noteq> of_char (CHR ''0'')" using "1.prems" digit_char [of n] by simp
    then have "char_of (48 + n) \<noteq> CHR ''0''" by metis
    then show ?thesis using True by (subst str_nat.simps) simp
  next
    case False
    have "str_nat (n div 10) \<noteq> []" using is_decimal_str_nat by (simp add: is_decimal_def)
    then show ?thesis using 1 False by (subst str_nat.simps) simp
  qed
qed

lemma str_nat_0: "str_nat 0 = ''0''"
  by code_simp

lemma redis_int_str_nat: "redis_int (str_nat n) = Some (int n)"
  using str_nat_hd [of n] is_decimal_str_nat [of n] int_of_decimal_str_nat [of n] str_nat_0
  by (cases "n = 0") (simp_all add: redis_int_def canonical_digits_def)

lemma digit_free: "list_all is_digit s \<Longrightarrow> \<not> is_digit c \<Longrightarrow> c \<notin> set s"
  by (auto simp: list_all_iff)

lemma is_digit_not_space: "is_digit c \<Longrightarrow> \<not> is_space c"
  by (auto simp: is_digit_def is_space_def Let_def)

lemma contains_hd: "contains (p # ps) s \<Longrightarrow> p \<in> set s"
proof (induction s)
  case (Cons c s)
  then show ?case by (auto elim: starts_with.elims)
qed simp

lemma py_int_str_nat: "length (str_nat n) \<le> 4300 \<Longrightarrow> py_int (str_nat n) = Some (int n)"
proof -
  assume n: "length (str_nat n) \<le> 4300"
  let ?s = "str_nat n"
  have d: "?s \<noteq> []" "list_all is_digit ?s" using is_decimal_str_nat [of n] by (auto simp: is_decimal_def)
  have "strip ?s = ?s"
    using d is_digit_not_space by (intro strip_no_space) (auto simp: list_ex_iff list_all_iff)
  moreover have "hd ?s \<noteq> CHR ''-''" "hd ?s \<noteq> CHR ''+''"
    using digit_free [OF d(2)] d(1) hd_in_set [OF d(1)] by (fastforce simp: is_digit_def)+
  moreover have "py_digits ?s = Some n"
  proof -
    have "\<not> contains ''__'' ?s" using contains_hd digit_free [OF d(2)] by (fastforce simp: is_digit_def)
    moreover have "filter is_digit ?s = ?s" using d(2) by (simp add: list_all_iff)
    ultimately show ?thesis using d n by (simp add: py_digits_def list_all_iff)
  qed
  ultimately show ?thesis using d(1) by (cases ?s) (simp_all add: py_int_def)
qed

text \<open>User ids are the text of UUIDs; all that matters is that they contain no colon.\<close>

definition colon_free :: "str \<Rightarrow> bool" where
  "colon_free u = (CHR '':'' \<notin> set u)"

fun users_ok :: "store_op \<Rightarrow> bool" where
  "users_ok (OpCacheSet u _ _ _ _) = colon_free u"
| "users_ok (OpCacheDelete u _ _) = colon_free u"
| "users_ok (OpInvalidate u) = colon_free u"
| "users_ok _ = True"

lemma split_at_colon:
  assumes "colon_free u" and "colon_free w" and "u @ CHR '':'' # x = w @ CHR '':'' # y"
  shows "u = w \<and> x = y"
proof -
  have "takeWhile (\<lambda>c. c \<noteq> CHR '':'') (u @ CHR '':'' # x) = u" "takeWhile (\<lambda>c. c \<noteq> CHR '':'') (w @ CHR '':'' # y) = w"
    using assms(1,2) by (subst takeWhile_append2; fastforce simp: colon_free_def)+
  then have "u = w" using assms(3) by metis
  then show ?thesis using assms(3) by simp
qed

lemma generation_key_inj: "colon_free u \<Longrightarrow> colon_free w \<Longrightarrow> generation_key u = generation_key w \<longleftrightarrow> u = w"
  using split_at_colon [of u w "''mail:cache-generation''" "''mail:cache-generation''"]
  by (auto simp: generation_key_def)

lemma state_key_not_generation: "generation_key u \<noteq> state_key state"
  by (simp add: generation_key_def state_key_def)

lemma mail_key_not_generation: "colon_free u \<Longrightarrow> colon_free w \<Longrightarrow> mail_key u g ns \<noteq> generation_key w"
  using split_at_colon [of u w "''mail:g'' @ int_text g @ CHR '':'' # ns" "''mail:cache-generation''"]
  by (auto simp: generation_key_def mail_key_def)

lemma str_nat_colon_free: "colon_free (str_nat n)"
  using digit_free is_decimal_str_nat [of n] unfolding colon_free_def is_decimal_def by (fastforce simp: is_digit_def)

lemma mail_key_generation:
  assumes "colon_free u" and "0 \<le> g" and "0 \<le> h" and "mail_key u g ns = mail_key u h ns'"
  shows "g = h"
proof -
  have "str_nat (nat g) @ CHR '':'' # ns = str_nat (nat h) @ CHR '':'' # ns'"
    using assms(2-4) by (simp add: mail_key_def int_text_def)
  then have "str_nat (nat g) = str_nat (nat h)" using split_at_colon str_nat_colon_free by blast
  then have "nat g = nat h" by (metis int_of_decimal_str_nat)
  then show ?thesis using assms(2,3) by simp
qed

definition at_generation :: "'s redis \<Rightarrow> str \<Rightarrow> 's \<Rightarrow> nat \<Rightarrow> bool" where
  "at_generation R u s n = (n < 2 ^ 63 \<and>
     (view R s (generation_key u) = Some (str_nat n, None) \<or> n = 0 \<and> view R s (generation_key u) = None))"

lemma keeps_generation: "undisturbed R (generation_key u) s s' \<Longrightarrow> at_generation R u s n \<Longrightarrow> at_generation R u s' n"
  by (auto simp: undisturbed_def at_generation_def)

lemma incr_generation:
  assumes "happened R (cmd_incr (generation_key u)) s v s'" and "at_generation R u s n"
  shows "at_generation R u s' (Suc n)"
proof -
  have one: "str_nat (Suc 0) = ''1''" by code_simp
  consider "view R s (generation_key u) = Some (str_nat n, None)" | "n = 0" "view R s (generation_key u) = None"
    using assms(2) by (auto simp: at_generation_def)
  then show ?thesis
  proof cases
    case 1
    then obtain m where "redis_int (str_nat n) = Some m" "m + 1 < 2 ^ 63" "view R s' (generation_key u) = Some (int_text (m + 1), None)"
      using happened_incr(3) [OF assms(1)] by blast
    then show ?thesis
      by (auto simp: redis_int_str_nat at_generation_def int_text_def nat_add_distrib)
  next
    case 2
    then show ?thesis using happened_incr(2) [OF assms(1)] one by (simp add: at_generation_def)
  qed
qed

lemma invalidate_generation:
  assumes "documented_redis R" and "at_generation R u s n"
  shows "at_generation R u (snd (invalidate_user_mail_cache R u s)) n \<or> at_generation R u (snd (invalidate_user_mail_cache R u s)) (Suc n)"
    and "invalidate_user_mail_cache R u s = (Inr True, s') \<Longrightarrow> at_generation R u s' (Suc n)"
proof -
  have out: "outcome R (cmd_incr (generation_key u)) s (redis_incr R (generation_key u) s)"
    by (rule redis_outcomes [OF assms(1)])
  then show "at_generation R u (snd (invalidate_user_mail_cache R u s)) n \<or> at_generation R u (snd (invalidate_user_mail_cache R u s)) (Suc n)"
    using incr_generation [OF _ assms(2)] keeps_generation [OF keeps_passes assms(2)]
    unfolding outcome_def cache_other_states by (fastforce split: prod.splits sum.splits)
  show "at_generation R u s' (Suc n)" if "invalidate_user_mail_cache R u s = (Inr True, s')"
    using out that incr_generation [OF _ assms(2)] unfolding outcome_def invalidate_user_mail_cache_def
    by (auto split: prod.splits sum.splits redis_error.splits)
qed

lemma perform_generation:
  assumes "documented_redis R" and "colon_free u" and "users_ok x" and "at_generation R u s n"
  shows "\<exists>m. n \<le> m \<and> at_generation R u (snd (perform J R x s)) m"
proof (cases "generation_key u \<in> touched x")
  case False
  then show ?thesis using keeps_generation [OF perform_keeps [OF assms(1) False] assms(4)] by blast
next
  case True
  then have "x = OpInvalidate u"
    using assms(2,3) generation_key_inj [of u] mail_key_not_generation [THEN not_sym]
    by (cases x) (auto simp: state_key_not_generation)
  then show ?thesis
    using invalidate_generation(1) [OF assms(1,4)] by (auto intro: exI [of _ n] exI [of _ "Suc n"])
qed

lemma run_ops_generation:
  assumes "documented_redis R" and "colon_free u" and "run_ops J R xs s = (log, s')" and "list_all users_ok xs"
    and "at_generation R u s n"
  shows "\<exists>m. n \<le> m \<and> at_generation R u s' m"
  using assms(3-)
proof (induction xs arbitrary: s log n)
  case (Cons x xs)
  obtain b s1 rest where x: "perform J R x s = (b, s1)" and rest: "run_ops J R xs s1 = (rest, s')"
    using Cons.prems(1) by (auto simp: Let_def split: prod.splits)
  obtain k where k: "n \<le> k" "at_generation R u s1 k"
    using perform_generation [OF assms(1,2) _ Cons.prems(3), of x J] Cons.prems(2) x by auto
  obtain m where "k \<le> m" "at_generation R u s' m" using Cons.IH [OF rest _ k(2)] Cons.prems(2) by auto
  then show ?case using k(1) by (meson order_trans)
qed auto

lemma read_generation_text: "n < 2 ^ 63 \<Longrightarrow> read_generation (Some (str_nat n)) = int n"
proof -
  assume "n < 2 ^ 63"
  then have "length (str_nat n) \<le> 19" by (intro length_str_nat) simp_all
  then show ?thesis by (simp add: read_generation_def py_int_str_nat)
qed

lemma cache_key_generation:
  assumes "documented_redis R" and "at_generation R u s n" and "user_mail_cache_key R u ns s = (Inr k, s')"
  shows "\<exists>g. 0 \<le> g \<and> g \<le> int n \<and> k = mail_key u g ns" and "at_generation R u s' n"
    and "redis_get R (generation_key u) s = (Inr v, s') \<Longrightarrow> k = mail_key u (int n) ns"
proof -
  have s': "s' = snd (redis_get R (generation_key u) s)"
    using assms(3) by (auto simp: user_mail_cache_key_def get_user_mail_cache_generation_def
        split: prod.splits sum.splits redis_error.splits)
  show "at_generation R u s' n"
    using keeps_generation [OF redis_keeps(1) [OF assms(1)] assms(2)] s' by simp
  have answered: "k = mail_key u (int n) ns" if v: "redis_get R (generation_key u) s = (Inr v, s')" for v
  proof -
    have "happened R (cmd_get (generation_key u)) s v s'"
      using redis_outcomes(1) [OF assms(1), of "generation_key u" s] v by (simp add: outcome_def)
    then have "v = map_option fst (view R s (generation_key u))"
      using happened_get(2) assms(2) unfolding at_generation_def by fastforce
    then have "read_generation v = int n"
      using assms(2) read_generation_text [of n] by (auto simp: at_generation_def) (simp add: read_generation_def)
    then show ?thesis
      using assms(3) v by (simp add: user_mail_cache_key_def get_user_mail_cache_generation_def)
  qed
  then show "redis_get R (generation_key u) s = (Inr v, s') \<Longrightarrow> k = mail_key u (int n) ns" by blast
  show "\<exists>g. 0 \<le> g \<and> g \<le> int n \<and> k = mail_key u g ns"
  proof (cases "fst (redis_get R (generation_key u) s)")
    case (Inl e)
    then have "k = mail_key u 0 ns"
      using assms(3) by (auto simp: user_mail_cache_key_def get_user_mail_cache_generation_def
          split: prod.splits sum.splits redis_error.splits)
    then show ?thesis by auto
  next
    case (Inr v)
    then show ?thesis using answered [of v] s' by (metis of_nat_0_le_iff order_refl prod.collapse)
  qed
qed

text \<open>
  Invalidation reaches every cached mail view. Take a request that has computed its cache key at
  any moment, and an invalidation for the same user that succeeds later. Then a request that
  computes its key still later, and whose generation read is answered, never gets the key of the
  first request, for any two views: what an in-flight request writes after the invalidation is
  unreachable. This holds for every interleaving of other operations and every fault in them.
\<close>

lemma invalidated_pages_unreachable:
  assumes "documented_redis R" and "store_empty R s0" and "colon_free u" and "list_all users_ok (xs @ ys @ zs)"
    and "run_ops J R xs s0 = (log1, s1)" and "user_mail_cache_key R u ns s1 = (Inr old_key, s2)"
    and "run_ops J R ys s2 = (log2, s3)" and "invalidate_user_mail_cache R u s3 = (Inr True, s4)"
    and "run_ops J R zs s4 = (log3, s5)" and "redis_get R (generation_key u) s5 = (Inr v, s6)"
    and "user_mail_cache_key R u ns' s5 = (Inr new_key, s6)"
  shows "new_key \<noteq> old_key"
proof -
  note ops = run_ops_generation [OF assms(1,3)] and oks = assms(4) [simplified]
  have "at_generation R u s0 0" using assms(2) by (simp add: at_generation_def)
  then obtain n where n: "at_generation R u s1 n" using ops [OF assms(5)] oks by blast
  obtain g where g: "0 \<le> g" "g \<le> int n" "old_key = mail_key u g ns"
    using cache_key_generation(1) [OF assms(1) n assms(6)] by blast
  obtain m where m: "n \<le> m" "at_generation R u s3 m"
    using ops [OF assms(7)] cache_key_generation(2) [OF assms(1) n assms(6)] oks by blast
  have "at_generation R u s4 (Suc m)" using invalidate_generation(2) [OF assms(1) m(2) assms(8)] .
  then obtain q where q: "Suc m \<le> q" "at_generation R u s5 q" using ops [OF assms(9)] oks by blast
  have "new_key = mail_key u (int q) ns'" using cache_key_generation(3) [OF assms(1) q(2) assms(11,10)] .
  then show ?thesis using mail_key_generation [OF assms(3), of "int q" g ns' ns] g m(1) q(1) by auto
qed

section \<open>A concrete server\<close>

text \<open>
  A server with a clock that moves only while it idles, and a schedule of faults: a call is
  answered, is lost before it reaches the server, or takes effect and is not answered.
\<close>

datatype fault = Answered | Lost | Unacknowledged

type_synonym demo_store = "time \<times> cells \<times> fault list"

fun demo_call :: "'a redis_command \<Rightarrow> demo_store \<Rightarrow> 'a client_outcome \<times> demo_store" where
  "demo_call cmd (t, c, Lost # fs) = (RedisTimeout, (t, c, fs))"
| "demo_call cmd (t, c, Unacknowledged # fs) =
     (RedisTimeout, (t, case cmd t c of None \<Rightarrow> c | Some (v, c') \<Rightarrow> c', fs))"
| "demo_call cmd (t, c, fs) =
     (case cmd t c of None \<Rightarrow> (RedisFailed, (t, c, tl fs)) | Some (v, c') \<Rightarrow> (Replied v, (t, c', tl fs)))"

definition demo_redis :: "demo_store redis" where
  "demo_redis = \<lparr>rd_now = fst, rd_cells = (\<lambda>s. fst (snd s)), rd_idle = (\<lambda>n s. (fst s + seconds (int n), snd s)),
     rd_acquire = (\<lambda>s. (Acquired, s)), rd_ping = (\<lambda>s. (Replied True, s)), rd_get = (\<lambda>k. demo_call (cmd_get k)),
     rd_setex = (\<lambda>k ttl v. demo_call (cmd_setex k ttl v)), rd_delete = (\<lambda>ks. demo_call (cmd_delete ks)),
     rd_incr = (\<lambda>k. demo_call (cmd_incr k)), rd_eval = (\<lambda>k. demo_call (getdel_script k)),
     rd_scan = (\<lambda>p s. (Replied [], s))\<rparr>"

definition demo_page :: "json" where
  "demo_page = JObj [(''emails'', JArr [])]"

definition demo_json :: json_lib where
  "demo_json = \<lparr>jl_dumps = (\<lambda>j. if j = binding_json ''7'' ''a@b.c'' then Some ''B'' else if j = demo_page then Some ''P'' else None),
     jl_loads = (\<lambda>raw. if raw = ''B'' then Some (binding_json ''7'' ''a@b.c'') else if raw = ''P'' then Some demo_page else None)\<rparr>"

abbreviation demo_start :: "fault list \<Rightarrow> demo_store" where
  "demo_start fs \<equiv> (0, (\<lambda>_. None), fs)"

lemma demo_redis_simps [simp]:
  "rd_now demo_redis = fst" "rd_cells demo_redis = (\<lambda>s. fst (snd s))"
  "rd_idle demo_redis = (\<lambda>n s. (fst s + seconds (int n), snd s))" "rd_acquire demo_redis = (\<lambda>s. (Acquired, s))"
  "rd_get demo_redis k = demo_call (cmd_get k)" "rd_setex demo_redis k ttl v = demo_call (cmd_setex k ttl v)"
  "rd_delete demo_redis ks = demo_call (cmd_delete ks)" "rd_incr demo_redis k = demo_call (cmd_incr k)"
  "rd_eval demo_redis k = demo_call (getdel_script k)"
  by (simp_all add: demo_redis_def)

lemma demo_serves: "serves demo_redis (demo_call cmd) cmd"
  unfolding serves_def
proof
  fix s :: demo_store
  obtain t c fs where s: "s = (t, c, fs)" by (rule prod_cases3)
  show "case demo_call cmd s of (Replied v, s') \<Rightarrow> applied demo_redis cmd s v s'
    | (_, s') \<Rightarrow> passes demo_redis s s' \<or> (\<exists>v. applied demo_redis cmd s v s')"
    unfolding s
    by (cases "(cmd, (t, c, fs))" rule: demo_call.cases)
      (auto simp: applied_def passes_def same_from_def split: option.splits)
qed

lemma demo_documented: "documented_redis demo_redis"
  unfolding documented_redis_def
  by (simp add: demo_serves passes_def same_from_def)

lemma demo_bindings: "bindings_round_trip demo_json"
  by (auto simp: bindings_round_trip_def demo_json_def binding_json_def demo_page_def)

lemma demo_empty: "store_empty demo_redis (demo_start fs)"
  by (simp add: store_empty_def demo_redis_def)

theorem oauth_state_single_use_witness:
  "length (filter (redeemed ''t'') (fst (run_ops demo_json demo_redis
       [OpCreate ''t'' ''7'' '' A@b.c'', OpIdle 9, OpConsume ''t'', OpConsume ''t'', OpConsume ''t''] (demo_start [Answered, Lost])))) = 1 \<and>
   length (filter (creates ''t'') [OpCreate ''t'' ''7'' '' A@b.c'', OpIdle 9, OpConsume ''t'', OpConsume ''t'', OpConsume ''t'']) = 1"
proof -
  let ?xs = "[OpCreate ''t'' ''7'' '' A@b.c'', OpIdle 9, OpConsume ''t'', OpConsume ''t'', OpConsume ''t'']"
  obtain log s' where run: "run_ops demo_json demo_redis ?xs (demo_start [Answered, Lost]) = (log, s')" by (meson surj_pair)
  have "length (filter (redeemed ''t'') log) \<le> length (filter (creates ''t'') ?xs)"
    using oauth_state_single_use [OF demo_documented demo_bindings demo_empty run, of "''t''"] by (rule conjunct1)
  moreover have "length (filter (creates ''t'') ?xs) = 1" by simp
  moreover have "(OpConsume ''t'', Some \<lparr>sb_user_id = ''7'', sb_expected_email = ''a@b.c''\<rparr>) \<in>
      set (fst (run_ops demo_json demo_redis ?xs (demo_start [Answered, Lost])))" by code_simp
  ultimately show ?thesis using run by (auto simp: redeemed_def filter_empty_conv le_Suc_eq)
qed

abbreviation demo_state_created :: demo_store where
  "demo_state_created \<equiv> snd (create_oauth_state demo_json demo_redis ''t'' ''7'' '' A@b.c'' (demo_start []))"

abbreviation demo_waited :: demo_store where
  "demo_waited \<equiv> snd (run_ops demo_json demo_redis [OpInvalidate ''7'', OpIdle 599] demo_state_created)"

theorem oauth_state_redeemable_witness:
  "fst (consume_oauth_state demo_json demo_redis ''t'' demo_waited) =
     Inr (Some \<lparr>sb_user_id = ''7'', sb_expected_email = ''a@b.c''\<rparr>)"
proof -
  let ?xs = "[OpInvalidate ''7'', OpIdle 599]"
  let ?c = "consume_oauth_state demo_json demo_redis ''t'' demo_waited"
  have 1: "create_oauth_state demo_json demo_redis ''t'' ''7'' '' A@b.c'' (demo_start []) = (Inr ''t'', demo_state_created)"
    by (rule prod_eqI) (code_simp, simp)
  have 2: "run_ops demo_json demo_redis ?xs demo_state_created = (fst (run_ops demo_json demo_redis ?xs demo_state_created), demo_waited)"
    by (rule prod.collapse [symmetric])
  have 3: "\<And>x. x \<in> set ?xs \<Longrightarrow> state_key ''t'' \<notin> touched x"
    by (auto simp: state_key_def generation_key_def)
  have "\<not> isl (fst ?c)" by code_simp
  then obtain r where r: "?c = (Inr r, snd ?c)" by (metis prod.collapse sum.collapse(2))
  have 4: "rd_now demo_redis (snd ?c) < rd_now demo_redis (demo_start []) + seconds 600" by code_simp
  have 5: "normalize_account_email '' A@b.c'' = Some ''a@b.c''" by code_simp
  show ?thesis
    using oauth_state_redeemable [OF demo_documented demo_bindings _ _ 1 2 3 r 4] r 5 by (simp, metis fst_conv)
qed

abbreviation demo_keyed :: demo_store where
  "demo_keyed \<equiv> snd (user_mail_cache_key demo_redis ''7'' ''page'' (demo_start []))"

abbreviation demo_invalidated :: demo_store where
  "demo_invalidated \<equiv> snd (invalidate_user_mail_cache demo_redis ''7'' demo_keyed)"

abbreviation demo_written :: demo_store where
  "demo_written \<equiv> snd (run_ops demo_json demo_redis [OpCacheSet ''7'' 0 ''page'' demo_page 60] demo_invalidated)"

theorem invalidated_pages_unreachable_witness:
  "fst (user_mail_cache_key demo_redis ''7'' ''page'' (demo_start [])) = Inr (mail_key ''7'' 0 ''page'') \<and>
   fst (user_mail_cache_key demo_redis ''7'' ''page'' demo_written) = Inr (mail_key ''7'' 1 ''page'') \<and>
   mail_key ''7'' 1 ''page'' \<noteq> mail_key ''7'' 0 ''page''"
proof -
  let ?set = "[OpCacheSet ''7'' 0 ''page'' demo_page 60]"
  let ?get = "redis_get demo_redis (generation_key ''7'') demo_written"
  have key1: "user_mail_cache_key demo_redis ''7'' ''page'' (demo_start []) = (Inr (mail_key ''7'' 0 ''page''), demo_keyed)"
    by (rule prod_eqI) (code_simp, simp)
  have inv: "invalidate_user_mail_cache demo_redis ''7'' demo_keyed = (Inr True, demo_invalidated)"
    by (rule prod_eqI) (code_simp, simp)
  have set: "run_ops demo_json demo_redis ?set demo_invalidated = (fst (run_ops demo_json demo_redis ?set demo_invalidated), demo_written)"
    by (rule prod.collapse [symmetric])
  have "fst ?get = Inr (Some ''1'')" by code_simp
  then have got: "?get = (Inr (Some ''1''), snd ?get)" by (metis prod.collapse)
  have "fst (user_mail_cache_key demo_redis ''7'' ''page'' demo_written) = Inr (mail_key ''7'' 1 ''page'')" by code_simp
  then have key2: "user_mail_cache_key demo_redis ''7'' ''page'' demo_written = (Inr (mail_key ''7'' 1 ''page''), snd ?get)"
    using got by (auto simp: user_mail_cache_key_def get_user_mail_cache_generation_def split: prod.splits)
  have "list_all users_ok ([] @ [] @ ?set)" "colon_free ''7''" by (simp_all add: colon_free_def)
  then have "mail_key ''7'' 1 ''page'' \<noteq> mail_key ''7'' 0 ''page''"
    using invalidated_pages_unreachable [OF demo_documented demo_empty _ _ run_ops.simps(1) key1 run_ops.simps(1) inv set got key2] by blast
  then show ?thesis using key1 key2 by (metis fst_conv)
qed

text \<open>
  A failed read of the generation is not a cache miss. Once a page has been cached in
  generation 0 and then invalidated, a request whose generation read fails falls back to
  generation 0 and is served the invalidated page.
\<close>

lemma generation_failure_serves_stale:
  "let s1 = snd (cache_set demo_json demo_redis (mail_key ''7'' 0 ''page'') demo_page MAIL_PAGE_CACHE_TTL_SECONDS
                   (demo_start [Answered, Answered, Lost]));
       (invalidated, s2) = invalidate_user_mail_cache demo_redis ''7'' s1;
       (key, s3) = user_mail_cache_key demo_redis ''7'' ''page'' s2
   in invalidated = Inr True \<and> key = Inr (mail_key ''7'' 0 ''page'') \<and>
      fst (cache_get demo_json demo_redis (mail_key ''7'' 0 ''page'') s3) = Inr (Some demo_page)"
  by code_simp

end
