(* ===== verification/Credential_Safety.thy ===== *)
theory Credential_Safety
  imports Credentials Action_Payloads Redis_Safety
begin

text \<open>
  Properties of the stored credentials: what is stored is encrypted and can be read back, a row that
  is marked connected can be loaded, no operation switches the Google account of a user, and what the
  conversion of legacy rows does.
\<close>

section \<open>Payloads\<close>

lemma validate_Inr: "validate_token_payload p = Inr q \<Longrightarrow> q = p \<and> is_jobj p"
  by (auto simp: validate_token_payload_def split: bool.splits option.splits json.splits if_splits)

lemma validate_same_object:
  assumes "same_object p q"
  shows "validate_token_payload q = (case validate_token_payload p of Inr _ \<Rightarrow> Inr q | Inl e \<Rightarrow> Inl e)"
proof -
  have jo: "is_jobj p" "is_jobj q" and get: "\<And>k. jget k q = jget k p" using assms by (simp_all add: same_object_def)
  have "granted_scopes q = granted_scopes p" unfolding granted_scopes_def get ..
  then show ?thesis
    by (simp add: validate_token_payload_def jo get split: option.splits json.splits)
qed

lemma read_encrypted:
  assumes "text_or_empty (at_encrypted r) \<noteq> []"
    and "decrypt (cr_codec L) codec (text_or_empty (at_encrypted r)) (text_or_empty (at_key_id r))
      (text_or_empty (at_format_version r)) (at_user_id r) e = Inr q" and "validate_token_payload q = Inr q"
  shows "read_token_payload L codec r e = Inr (q, False)"
  using assms by (simp add: read_token_payload_def)

lemma map_sum_Inr: "map_sum f g x = Inr y \<longleftrightarrow> (\<exists>z. x = Inr z \<and> y = g z)"
  by (cases x) auto

lemma read_token_valid: "read_token_payload L codec r e = Inr (p, b) \<Longrightarrow> validate_token_payload p = Inr p"
  by (auto simp: read_token_payload_def map_sum_Inr split: if_splits sum.splits dest: validate_Inr)

section \<open>Rows in order\<close>

text \<open>The JSON column stores \<open>None\<close> as SQL \<open>NULL\<close> or as the JSON value null.\<close>

definition none_ok :: "'c cred_lib \<Rightarrow> bool" where
  "none_ok L = (cr_none L = None \<or> cr_none L = Some JNull)"

definition nonce_ok :: "bytes \<Rightarrow> bool" where
  "nonce_ok nonce = (length nonce = 12 \<and> is_bytes nonce)"

definition token_row_ok :: "'c cred_lib \<Rightarrow> codec \<Rightarrow> agent_token \<Rightarrow> bool" where
  "token_row_ok L codec r = (token_value r = JNull \<and> (at_status r = ConnConnected \<longrightarrow>
     (\<exists>e p. legacy_email r = Some e \<and> read_token_payload L codec r e = Inr (p, False))))"

lemma clear_token_value: "none_ok L \<Longrightarrow> token_value (clear_token_json L r) = JNull"
  by (auto simp: none_ok_def clear_token_json_def token_value_def)

lemma clear_token_fields [simp]:
  "at_user_id (clear_token_json L r) = at_user_id r" "at_user_email (clear_token_json L r) = at_user_email r"
  "at_encrypted (clear_token_json L r) = at_encrypted r" "at_key_id (clear_token_json L r) = at_key_id r"
  "at_format_version (clear_token_json L r) = at_format_version r" "at_google_email (clear_token_json L r) = at_google_email r"
  "at_status (clear_token_json L r) = at_status r"
  by (simp_all add: clear_token_json_def)

lemma normalized_nonempty: "normalize_account_email e = Some e \<Longrightarrow> e \<noteq> []"
  by (auto simp: normalize_account_email_def Let_def split: if_splits)

lemma legacy_email_normal: "legacy_email r = Some e \<Longrightarrow> normalize_account_email e = Some e"
  by (auto simp: legacy_email_def intro: normalize_account_email_idem split: if_splits)

text \<open>Writing a token: the row is connected to the given address and holds the payload, encrypted.\<close>

lemma written_row:
  assumes "write_encrypted_token L codec nonce r payload e = Inr r'"
  shows "at_user_id r' = at_user_id r" "at_status r' = ConnConnected" "at_google_email r' = Some e"
    "none_ok L \<Longrightarrow> token_value r' = JNull"
  using assms clear_token_value by (auto simp: write_encrypted_token_def split: sum.splits)

lemma written_legacy_email:
  assumes "write_encrypted_token L codec nonce r payload e = Inr r'" and "normalize_account_email e = Some e"
  shows "legacy_email r' = Some e"
  using written_row(3) [OF assms(1)] assms(2) normalized_nonempty [OF assms(2)] by (simp add: legacy_email_def text_or_empty_def)

lemma written_readable:
  assumes "codec_lib_ok (cr_codec L)" and "nonce_ok nonce" and "write_encrypted_token L codec nonce r payload e = Inr r'"
    and "validate_token_payload payload = Inr payload"
  shows "\<exists>q. read_token_payload L codec r' e = Inr (q, False) \<and> same_object payload q"
proof -
  obtain x where x: "encrypt (cr_codec L) codec nonce payload (at_user_id r) e = Inr x"
    and r': "r' = clear_token_json L (r\<lparr>at_encrypted := Some (ep_ciphertext x), at_key_id := Some (ep_key_id x),
            at_format_version := Some (ep_format_version x), at_google_email := Some e, at_status := ConnConnected\<rparr>)"
    using assms(3) by (auto simp: write_encrypted_token_def split: sum.splits)
  note codec = decrypt_encrypt [OF assms(1) _ _ x]
  obtain q where q: "decrypt (cr_codec L) codec (ep_ciphertext x) (ep_key_id x) (ep_format_version x) (at_user_id r) e = Inr q"
    "same_object payload q"
    using codec(1) assms(2) by (auto simp: nonce_ok_def)
  have "validate_token_payload q = Inr q" using validate_same_object [OF q(2)] assms(4) by simp
  then have "read_token_payload L codec r' e = Inr (q, False)"
    using q(1) codec(2) assms(2) by (intro read_encrypted) (auto simp: r' text_or_empty_def nonce_ok_def)
  then show ?thesis using q(2) by blast
qed

lemma written_ok:
  assumes "codec_lib_ok (cr_codec L)" and "none_ok L" and "nonce_ok nonce" and "normalize_account_email e = Some e"
    and "validate_token_payload payload = Inr payload" and "write_encrypted_token L codec nonce r payload e = Inr r'"
  shows "token_row_ok L codec r'"
  using written_row(4) [OF assms(6,2)] written_legacy_email [OF assms(6,4)] written_readable [OF assms(1,3,6,5)]
  by (auto simp: token_row_ok_def)

section \<open>Loading\<close>

lemma stored_payload:
  assumes "store_payload L codec nonce r p e c = (v, r')"
  shows "(\<exists>x. v = LoadRaised x) \<and> r' = r \<or> v = connected_load r e c \<and> write_encrypted_token L codec nonce r p e = Inr r'"
  using assms by (auto simp: store_payload_def split: sum.splits)

lemma refreshed_valid: "refresh_credentials L p c = Refreshed q d \<Longrightarrow> validate_token_payload q = Inr q"
  by (auto simp: refresh_credentials_def split: refresh_outcome.splits option.splits sum.splits dest: validate_Inr)

text \<open>What loading can do to a row: nothing, mark it, or write a valid payload for the same address.\<close>

lemma load_row_effect:
  assumes "load_row L codec nonce r = (v, r')"
  shows "r' = r \<or> r' = mark_reconnect_required r \<or>
    (\<exists>e p. legacy_email r = Some e \<and> validate_token_payload p = Inr p \<and> write_encrypted_token L codec nonce r p e = Inr r')"
proof (cases "at_status r = ConnConnected \<and> (\<exists>e. legacy_email r = Some e)")
  case False
  then show ?thesis using assms by (auto simp: load_row_def split: if_splits option.splits)
next
  case True
  then obtain e where s: "at_status r = ConnConnected" and e: "legacy_email r = Some e" by blast
  note run = assms [unfolded load_row_def, simplified s e, simplified]
  show ?thesis
  proof (cases "read_token_payload L codec r e")
    case (Inl x)
    then show ?thesis using run by simp
  next
    case (Inr pb)
    then obtain p b where p: "read_token_payload L codec r e = Inr (p, b)" by (cases pb) auto
    have ok: "validate_token_payload p = Inr p" using read_token_valid [OF p] .
    show ?thesis
    proof (cases "cr_from_info L p")
      case None
      then show ?thesis using run p by simp
    next
      case (Some c)
      have store: "r' = r \<or> (\<exists>q. validate_token_payload q = Inr q \<and> write_encrypted_token L codec nonce r q e = Inr r')"
        if "store_payload L codec nonce r q e d = (v, r')" "validate_token_payload q = Inr q" for q d
        using stored_payload [OF that(1)] that(2) by blast
      show ?thesis
        using run p Some ok e store refreshed_valid [of L p c]
        by (auto split: if_splits refresh_result.splits)
    qed
  qed
qed

lemma load_keeps_ok:
  assumes "codec_lib_ok (cr_codec L)" and "none_ok L" and "nonce_ok nonce" and "token_row_ok L codec r"
    and "load_row L codec nonce r = (v, r')"
  shows "token_row_ok L codec r' \<and> at_user_id r' = at_user_id r"
proof -
  consider "r' = r" | "r' = mark_reconnect_required r" | e p where "legacy_email r = Some e" "validate_token_payload p = Inr p"
      "write_encrypted_token L codec nonce r p e = Inr r'"
    using load_row_effect [OF assms(5)] by blast
  then show ?thesis
  proof cases
    case 2
    then show ?thesis using assms(4) by (simp add: token_row_ok_def mark_reconnect_required_def token_value_def)
  next
    case 3
    then show ?thesis using written_ok [OF assms(1,2,3) legacy_email_normal] written_row(1) by blast
  qed (use assms(4) in simp)
qed

section \<open>The table\<close>

definition tokens_ok :: "'c cred_lib \<Rightarrow> codec \<Rightarrow> token_db \<Rightarrow> bool" where
  "tokens_ok L codec db = (keys_distinct at_user_id db \<and> (\<forall>r \<in> set db. token_row_ok L codec r))"

inductive cred_step :: "'c cred_lib \<Rightarrow> codec \<Rightarrow> token_db \<Rightarrow> token_db \<Rightarrow> bool" for L codec where
  step_load: "nonce_ok nonce \<Longrightarrow> cred_step L codec db (snd (load_connected_google_connection L (Inr codec) nonce u db))"
| step_persist: "nonce_ok nonce \<Longrightarrow> exchange_oauth_code L code = Inr ex \<Longrightarrow>
    cred_step L codec db (snd (persist_oauth_connection L (Inr codec) nonce u expected ex db))"
| step_pending: "cred_step L codec db (snd (create_pending_oauth_connection L u db))"

lemma load_tokens:
  "snd (load_connected_google_connection L (Inr codec) nonce u db) = db \<or>
   (\<exists>r v r'. tbl_get at_user_id u db = Some r \<and> load_row L codec nonce r = (v, r') \<and>
      snd (load_connected_google_connection L (Inr codec) nonce u db) = tbl_put at_user_id r' db)"
proof (cases "tbl_get at_user_id u db")
  case (Some r)
  obtain v r' where "load_row L codec nonce r = (v, r')" by fastforce
  then show ?thesis using Some by (cases v) (auto simp: load_connected_google_connection_def)
qed (simp add: load_connected_google_connection_def)

lemma persist_tokens:
  "snd (persist_oauth_connection L (Inr codec) nonce u expected ex db) = db \<or>
   (\<exists>r r'. tbl_get at_user_id u (insert_pending L u db) = Some r \<and> persist_row L codec nonce r ex = Inr r' \<and>
      snd (persist_oauth_connection L (Inr codec) nonce u expected ex db) = tbl_put at_user_id r' (insert_pending L u db))"
  by (auto simp: persist_oauth_connection_def split: option.splits sum.splits)

lemma persisted_row:
  assumes "persist_row L codec nonce r ex = Inr r'"
  shows "\<exists>p. validate_token_payload p = Inr p \<and> (legacy_email r = None \<or> legacy_email r = Some (ox_normalized_google_email ex)) \<and>
    write_encrypted_token L codec nonce (r\<lparr>at_user_email := Some (ox_google_email ex)\<rparr>) p (ox_normalized_google_email ex) = Inr r'"
proof -
  obtain merged p where p: "validate_token_payload merged = Inr p"
    and w: "write_encrypted_token L codec nonce (r\<lparr>at_user_email := Some (ox_google_email ex)\<rparr>) p (ox_normalized_google_email ex) = Inr r'"
    and e: "legacy_email r = None \<or> legacy_email r = Some (ox_normalized_google_email ex)"
    using assms by (auto simp: persist_row_def split: if_splits sum.splits)
  then show ?thesis using validate_Inr [OF p] by auto
qed

lemma exchange_normal: "exchange_oauth_code L code = Inr ex \<Longrightarrow>
    normalize_account_email (ox_normalized_google_email ex) = Some (ox_normalized_google_email ex)"
  by (auto simp: exchange_oauth_code_def split: option.splits sum.splits json.splits intro: normalize_account_email_idem)

lemma put_tokens_ok:
  assumes "tokens_ok L codec db" and "tbl_get at_user_id u db = Some r" and "at_user_id r' = at_user_id r" and "token_row_ok L codec r'"
  shows "tokens_ok L codec (tbl_put at_user_id r' db)"
proof -
  have "keys_distinct at_user_id (tbl_put at_user_id r' db)" using assms(1) by (simp add: tokens_ok_def)
  moreover have "x \<in> set db \<or> x = r'" if "x \<in> set (tbl_put at_user_id r' db)" for x
    using that by (auto simp: tbl_put_def split: if_splits)
  ultimately show ?thesis using assms(1,4) unfolding tokens_ok_def by blast
qed

lemma insert_pending_ok:
  assumes "none_ok L" and "tokens_ok L codec db"
  shows "tokens_ok L codec (insert_pending L u db)"
proof -
  have "token_row_ok L codec (pending_row L u)"
    using assms(1) by (auto simp: token_row_ok_def pending_row_def token_value_def none_ok_def)
  then show ?thesis using assms(2)
    by (auto simp: tokens_ok_def insert_pending_def keys_distinct_def tbl_get_None pending_row_def)
qed

lemma cred_step_ok:
  assumes "codec_lib_ok (cr_codec L)" and "none_ok L" and "cred_step L codec db db'" and "tokens_ok L codec db"
  shows "tokens_ok L codec db'"
  using assms(3)
proof cases
  case (step_load nonce u)
  from load_tokens [of L codec nonce u db] show ?thesis
  proof (elim disjE exE conjE)
    fix r v r'
    assume r: "tbl_get at_user_id u db = Some r" "load_row L codec nonce r = (v, r')"
      and db': "snd (load_connected_google_connection L (Inr codec) nonce u db) = tbl_put at_user_id r' db"
    have "token_row_ok L codec r" using r(1) assms(4) tbl_get_Some unfolding tokens_ok_def by fast
    from load_keeps_ok [OF assms(1,2) step_load(2) this r(2)]
    show ?thesis using put_tokens_ok [OF assms(4) r(1)] db' step_load(1) by simp
  qed (use assms(4) step_load(1) in simp)
next
  case (step_persist nonce code ex u expected)
  note ok = insert_pending_ok [OF assms(2,4), of u]
  from persist_tokens [of L codec nonce u expected ex db] show ?thesis
  proof (elim disjE exE conjE)
    fix r r'
    assume r: "tbl_get at_user_id u (insert_pending L u db) = Some r" "persist_row L codec nonce r ex = Inr r'"
      and db': "snd (persist_oauth_connection L (Inr codec) nonce u expected ex db) = tbl_put at_user_id r' (insert_pending L u db)"
    obtain p where p: "validate_token_payload p = Inr p"
      "write_encrypted_token L codec nonce (r\<lparr>at_user_email := Some (ox_google_email ex)\<rparr>) p (ox_normalized_google_email ex) = Inr r'"
      using persisted_row [OF r(2)] by blast
    have "token_row_ok L codec r'" using written_ok [OF assms(1,2) step_persist(2) exchange_normal [OF step_persist(3)] p] .
    moreover have "at_user_id r' = at_user_id r" using written_row(1) [OF p(2)] by simp
    ultimately show ?thesis using put_tokens_ok [OF ok r(1)] db' step_persist(1) by simp
  qed (use assms(4) step_persist(1) in simp)
next
  case (step_pending u)
  then show ?thesis using insert_pending_ok [OF assms(2,4)] assms(4) by (simp add: create_pending_oauth_connection_def)
qed

lemma reachable_tokens_ok:
  assumes "codec_lib_ok (cr_codec L)" and "none_ok L" and "reach (\<lambda>db. db = []) (cred_step L codec) db"
  shows "tokens_ok L codec db"
proof -
  have "invariant_of (\<lambda>db. db = []) (cred_step L codec) (tokens_ok L codec)"
    using cred_step_ok [OF assms(1,2)] by unfold_locales (auto simp: tokens_ok_def keys_distinct_def)
  from invariant_of.reach_inv [OF this assms(3)] show ?thesis .
qed

lemma ok_row_loads:
  assumes "tokens_ok L codec db" and "r \<in> set db" and "at_status r = ConnConnected"
  shows "\<exists>e p. legacy_email r = Some e \<and> read_token_payload L codec r e = Inr (p, False) \<and> validate_token_payload p = Inr p \<and>
      (\<forall>c nonce. cr_from_info L p = Some c \<and> \<not> cr_expired L c \<longrightarrow>
         load_connected_google_connection L (Inr codec) nonce (at_user_id r) db =
           (Inr \<lparr>gc_user_id = at_user_id r, gc_google_email = e, gc_credentials = c\<rparr>, db))"
proof -
  have kd: "keys_distinct at_user_id db" using assms(1) by (simp add: tokens_ok_def)
  obtain e p where e: "legacy_email r = Some e" and p: "read_token_payload L codec r e = Inr (p, False)"
    using assms by (auto simp: tokens_ok_def token_row_ok_def)
  have g: "tbl_get at_user_id (at_user_id r) db = Some r" using tbl_get_unique [OF kd assms(2)] by simp
  have "load_row L codec nonce r = (connected_load r e c, r)" if "cr_from_info L p = Some c" "\<not> cr_expired L c" for c nonce
    using that e p assms(3) by (simp add: load_row_def)
  then have "load_connected_google_connection L (Inr codec) nonce (at_user_id r) db =
         (Inr \<lparr>gc_user_id = at_user_id r, gc_google_email = e, gc_credentials = c\<rparr>, db)"
    if "cr_from_info L p = Some c" "\<not> cr_expired L c" for c nonce
    using that g tbl_put_idem [OF kd g] by (simp add: load_connected_google_connection_def connected_load_def)
  then show ?thesis using e p read_token_valid [OF p] by blast
qed

text \<open>A concrete library: every exchange is for \<open>a@b.com\<close> and nothing expires.\<close>

definition toy_cred_lib :: "unit cred_lib" where
  "toy_cred_lib = \<lparr>cr_codec = toy_codec_lib, cr_none = Some JNull, cr_from_info = (\<lambda>_. Some ()), cr_expired = (\<lambda>_. False),
     cr_refresh = (\<lambda>_. RefreshFailed), cr_fetch_token = (\<lambda>_. Some toy_json), cr_userinfo = (\<lambda>_. Some (JStr ''A@b.com''))\<rparr>"

definition toy_nonce :: bytes where
  "toy_nonce = replicate 12 0"

definition toy_exchange :: oauth_exchange_result where
  "toy_exchange = \<lparr>ox_google_email = ''A@b.com'', ox_normalized_google_email = ''a@b.com'', ox_token_payload = toy_json\<rparr>"

definition toy_tokens :: "uuid \<Rightarrow> token_db" where
  "toy_tokens u = snd (persist_oauth_connection toy_cred_lib (Inr toy_codec) toy_nonce u ''a@b.com'' toy_exchange [])"

lemma toy_accepts: "cr_from_info toy_cred_lib p = Some ()" "\<not> cr_expired toy_cred_lib c"
  by (simp_all add: toy_cred_lib_def)

lemma toy_valid: "validate_token_payload toy_json = Inr toy_json"
  by code_simp

lemma toy_encrypts: "\<exists>e. encrypt toy_codec_lib toy_codec toy_nonce toy_json u email = Inr e"
  by (simp add: encrypt_def canonical_payload_def toy_codec_lib_def toy_codec_def toy_json_def is_jobj_def)

lemma toy_exchanged: "exchange_oauth_code toy_cred_lib code = Inr toy_exchange"
proof -
  have "normalize_account_email ''A@b.com'' = Some ''a@b.com''" "strip ''A@b.com'' = ''A@b.com''" by code_simp+
  then show ?thesis by (simp add: exchange_oauth_code_def toy_cred_lib_def toy_valid toy_exchange_def)
qed

lemma toy_persisted: "\<exists>r. persist_oauth_connection toy_cred_lib (Inr toy_codec) toy_nonce u ''a@b.com'' toy_exchange [] = (Inr (), [r]) \<and>
    at_user_id r = u \<and> at_status r = ConnConnected \<and> legacy_email r = Some ''a@b.com''"
proof -
  obtain e where "encrypt toy_codec_lib toy_codec toy_nonce toy_json u ''a@b.com'' = Inr e" using toy_encrypts by blast
  moreover have "normalize_account_email ''a@b.com'' = Some ''a@b.com''" "merge_oauth_token_payload None toy_json = Inr toy_json" by code_simp+
  ultimately show ?thesis
    by (simp add: persist_oauth_connection_def toy_exchange_def insert_pending_def pending_row_def persist_row_def
        legacy_email_def text_or_empty_def existing_payload_def token_value_def truthy_def toy_cred_lib_def toy_valid
        write_encrypted_token_def clear_token_json_def)
qed

lemma toy_reachable: "codec_lib_ok (cr_codec toy_cred_lib)" "none_ok toy_cred_lib"
    "reach (\<lambda>db. db = []) (cred_step toy_cred_lib toy_codec) (toy_tokens u)"
proof -
  show "codec_lib_ok (cr_codec toy_cred_lib)" using toy_codec_lib_ok by (simp add: toy_cred_lib_def)
  show "none_ok toy_cred_lib" by (simp add: none_ok_def toy_cred_lib_def)
  have "nonce_ok toy_nonce" by (simp add: nonce_ok_def toy_nonce_def is_bytes_def list_all_iff)
  then show "reach (\<lambda>db. db = []) (cred_step toy_cred_lib toy_codec) (toy_tokens u)"
    using step_persist [OF _ toy_exchanged] unfolding toy_tokens_def by (auto intro: reach.intros)
qed

lemma toy_row: "\<exists>r. toy_tokens u = [r] \<and> at_user_id r = u \<and> at_status r = ConnConnected \<and> legacy_email r = Some ''a@b.com''"
  using toy_persisted [of u] by (auto simp: toy_tokens_def)

lemma toy_loads:
  "load_connected_google_connection toy_cred_lib (Inr toy_codec) nonce u (toy_tokens u) =
     (Inr \<lparr>gc_user_id = u, gc_google_email = ''a@b.com'', gc_credentials = ()\<rparr>, toy_tokens u)"
proof -
  obtain r where r: "toy_tokens u = [r]" "at_user_id r = u" "at_status r = ConnConnected" "legacy_email r = Some ''a@b.com''"
    using toy_row by blast
  have "r \<in> set (toy_tokens u)" unfolding r(1) by simp
  from ok_row_loads [OF reachable_tokens_ok [OF toy_reachable] this r(3)] show ?thesis using r(2,4) toy_accepts by fastforce
qed

section \<open>One account per user\<close>

inductive token_step :: "'c cred_lib \<Rightarrow> codec \<Rightarrow> token_db \<Rightarrow> token_db \<Rightarrow> bool" for L codec where
  step_cred: "cred_step L codec db db' \<Longrightarrow> token_step L codec db db'"
| step_backfill: "backfill_rows L codec nonces (batch_rows locked batch_size db) db = Inr (results, db') \<Longrightarrow> token_step L codec db db'"

definition keeps_account :: "agent_token \<Rightarrow> agent_token \<Rightarrow> bool" where
  "keeps_account r r' = (at_user_id r' = at_user_id r \<and> (\<forall>e. legacy_email r = Some e \<longrightarrow> legacy_email r' = Some e))"

lemma keeps_account_refl [simp]: "keeps_account r r"
  by (simp add: keeps_account_def)

lemma clear_account [simp]: "legacy_email (clear_token_json L r) = legacy_email r"
  by (simp add: legacy_email_def)

lemma status_account [simp]: "legacy_email (r\<lparr>at_status := s\<rparr>) = legacy_email r"
  by (simp add: legacy_email_def)

lemma status_keeps_account: "keeps_account r (r\<lparr>at_status := s\<rparr>)"
  by (simp add: keeps_account_def)

lemma cleared_keeps_account: "keeps_account r (clear_token_json L (r\<lparr>at_status := s\<rparr>))"
  by (simp add: keeps_account_def)

lemma written_account: "write_encrypted_token L codec nonce r p e = Inr r' \<Longrightarrow> legacy_email r = Some e \<Longrightarrow> keeps_account r r'"
  using written_row(1) written_legacy_email legacy_email_normal unfolding keeps_account_def by fastforce

lemma load_account: "load_row L codec nonce r = (v, r') \<Longrightarrow> keeps_account r r'"
  using load_row_effect [of L codec nonce r v r'] written_account keeps_account_refl status_keeps_account
  unfolding mark_reconnect_required_def by blast

lemma persist_account:
  assumes "persist_row L codec nonce r ex = Inr r'" and "exchange_oauth_code L code = Inr ex"
  shows "keeps_account r r'"
proof -
  obtain p where e: "legacy_email r = None \<or> legacy_email r = Some (ox_normalized_google_email ex)"
    and w: "write_encrypted_token L codec nonce (r\<lparr>at_user_email := Some (ox_google_email ex)\<rparr>) p (ox_normalized_google_email ex) = Inr r'"
    using persisted_row [OF assms(1)] by blast
  show ?thesis
    using e written_legacy_email [OF w exchange_normal [OF assms(2)]] written_row(1) [OF w] by (auto simp: keeps_account_def)
qed

lemma backfill_account: "backfill_legacy_row L codec nonce r = Inr (res, r') \<Longrightarrow> keeps_account r r'"
  using written_account cleared_keeps_account
  by (auto simp: backfill_legacy_row_def quarantine_def map_sum_Inr simp del: clear_account
      split: if_splits option.splits sum.splits)

text \<open>All rows are kept, each with its account.\<close>

definition accounts_kept :: "token_db \<Rightarrow> token_db \<Rightarrow> bool" where
  "accounts_kept db db' = (keys_distinct at_user_id db' \<and>
     (\<forall>u r. tbl_get at_user_id u db = Some r \<longrightarrow> (\<exists>r'. tbl_get at_user_id u db' = Some r' \<and> keeps_account r r')))"

lemma accounts_kept_trans: "accounts_kept db db1 \<Longrightarrow> accounts_kept db1 db2 \<Longrightarrow> accounts_kept db db2"
  unfolding accounts_kept_def keeps_account_def by metis

lemma put_accounts:
  assumes "keys_distinct at_user_id db" and "tbl_get at_user_id u db = Some r" and "keeps_account r r'"
  shows "accounts_kept db (tbl_put at_user_id r' db)"
proof -
  have id: "at_user_id r' = u" using assms(2,3) by (auto simp: keeps_account_def)
  have "\<exists>x'. tbl_get at_user_id w (tbl_put at_user_id r' db) = Some x' \<and> keeps_account x x'"
    if "tbl_get at_user_id w db = Some x" for w x
    using that assms(2,3) id by (cases "w = u") (auto simp: tbl_simps)
  then show ?thesis using assms(1) by (simp add: accounts_kept_def)
qed

lemma insert_pending_accounts: "keys_distinct at_user_id db \<Longrightarrow> accounts_kept db (insert_pending L u db)"
  by (auto simp: accounts_kept_def insert_pending_def keys_distinct_def tbl_get_None pending_row_def tbl_get_append)

lemma cred_step_accounts:
  assumes "cred_step L codec db db'" and "keys_distinct at_user_id db"
  shows "accounts_kept db db'"
  using assms(1)
proof cases
  case (step_load nonce u)
  have "accounts_kept db db" using assms(2) by (simp add: accounts_kept_def)
  then show ?thesis
    using load_tokens [of L codec nonce u db] load_account put_accounts [OF assms(2)] step_load(1) by metis
next
  case (step_persist nonce code ex u expected)
  note ins = insert_pending_accounts [OF assms(2), of L u]
  then have kd: "keys_distinct at_user_id (insert_pending L u db)" by (simp add: accounts_kept_def)
  have "accounts_kept db db" using assms(2) by (simp add: accounts_kept_def)
  then show ?thesis
    using persist_tokens [of L codec nonce u expected ex db] persist_account [OF _ step_persist(3)]
      put_accounts [OF kd] accounts_kept_trans [OF ins] step_persist(1) by metis
next
  case (step_pending u)
  then show ?thesis using insert_pending_accounts [OF assms(2)] assms(2)
    by (auto simp: create_pending_oauth_connection_def accounts_kept_def)
qed

text \<open>A batch replaces each of its rows by the converted row, and no other.\<close>

lemma backfill_rows_get:
  assumes "backfill_rows L codec nonces rs db = Inr (results, db')"
    and "\<And>r. r \<in> set rs \<Longrightarrow> tbl_get at_user_id (at_user_id r) db = Some r" and "distinct (map at_user_id rs)"
  shows "map at_user_id db' = map at_user_id db \<and>
    (\<forall>r \<in> set rs. \<exists>res r'. backfill_legacy_row L codec (nonces (at_user_id r)) r = Inr (res, r') \<and>
       tbl_get at_user_id (at_user_id r) db' = Some r') \<and>
    (\<forall>u. u \<notin> at_user_id ` set rs \<longrightarrow> tbl_get at_user_id u db' = tbl_get at_user_id u db)"
  using assms
proof (induction rs arbitrary: db results)
  case Nil
  then show ?case by simp
next
  case (Cons r rs)
  obtain res r' results' where r': "backfill_legacy_row L codec (nonces (at_user_id r)) r = Inr (res, r')"
    and rest: "backfill_rows L codec nonces rs (tbl_put at_user_id r' db) = Inr (results', db')"
    using Cons.prems(1) by (auto split: sum.splits)
  have id: "at_user_id r' = at_user_id r" using backfill_account [OF r'] by (simp add: keeps_account_def)
  have there: "tbl_get at_user_id (at_user_id r) db = Some r" using Cons.prems(2) by simp
  have new: "at_user_id r \<notin> at_user_id ` set rs" using Cons.prems(3) by simp
  have "tbl_get at_user_id (at_user_id q) (tbl_put at_user_id r' db) = Some q" if "q \<in> set rs" for q
    using that Cons.prems(2) new id by (auto simp: tbl_simps image_iff)
  note later = Cons.IH [OF rest this]
  have "tbl_get at_user_id (at_user_id r) db' = Some r'"
    using later new there id Cons.prems(3) by (simp add: tbl_simps)
  moreover have "tbl_get at_user_id u db' = tbl_get at_user_id u db" if "u \<notin> at_user_id ` set (r # rs)" for u
    using that later id Cons.prems(3) by (simp add: tbl_simps)
  ultimately show ?case using later r' Cons.prems(3) by simp
qed

lemma batch_rows_of:
  assumes "keys_distinct at_user_id db"
  shows "r \<in> set (batch_rows locked n db) \<Longrightarrow> tbl_get at_user_id (at_user_id r) db = Some r"
    and "distinct (map at_user_id (batch_rows locked n db))"
proof -
  show "tbl_get at_user_id (at_user_id r) db = Some r" if "r \<in> set (batch_rows locked n db)"
    using that tbl_get_unique [OF assms] by (auto simp: batch_rows_def dest: in_set_takeD)
  have "distinct (map at_user_id (filter (\<lambda>r. at_token_json r \<noteq> None \<and> \<not> locked (at_user_id r)) db))"
    using assms by (simp add: keys_distinct_def distinct_map_filter)
  then have "distinct (map at_user_id (sort_key at_user_id (filter (\<lambda>r. at_token_json r \<noteq> None \<and> \<not> locked (at_user_id r)) db)))"
    by (simp only: distinct_map distinct_sort set_sort)
  then show "distinct (map at_user_id (batch_rows locked n db))"
    unfolding batch_rows_def take_map [symmetric] by (rule distinct_take)
qed

lemma backfill_batch_get:
  assumes "backfill_rows L codec nonces (batch_rows locked n db) db = Inr (results, db')" and "keys_distinct at_user_id db"
  shows "map at_user_id db' = map at_user_id db"
    and "r \<in> set (batch_rows locked n db) \<Longrightarrow>
      \<exists>res r'. backfill_legacy_row L codec (nonces (at_user_id r)) r = Inr (res, r') \<and> tbl_get at_user_id (at_user_id r) db' = Some r'"
    and "u \<notin> at_user_id ` set (batch_rows locked n db) \<Longrightarrow> tbl_get at_user_id u db' = tbl_get at_user_id u db"
proof -
  have "tbl_get at_user_id (at_user_id q) db = Some q" if "q \<in> set (batch_rows locked n db)" for q
    using batch_rows_of(1) [OF assms(2) that] .
  note get = backfill_rows_get [OF assms(1) this batch_rows_of(2) [OF assms(2)]]
  show "map at_user_id db' = map at_user_id db" using get by blast
  show "r \<in> set (batch_rows locked n db) \<Longrightarrow>
      \<exists>res r'. backfill_legacy_row L codec (nonces (at_user_id r)) r = Inr (res, r') \<and> tbl_get at_user_id (at_user_id r) db' = Some r'"
    using get by blast
  show "u \<notin> at_user_id ` set (batch_rows locked n db) \<Longrightarrow> tbl_get at_user_id u db' = tbl_get at_user_id u db"
    using get by blast
qed

lemma backfill_batch_accounts:
  assumes "backfill_rows L codec nonces (batch_rows locked n db) db = Inr (results, db')" and "keys_distinct at_user_id db"
  shows "accounts_kept db db'"
proof -
  note get = backfill_batch_get [OF assms]
  have "\<exists>r'. tbl_get at_user_id u db' = Some r' \<and> keeps_account r r'" if u: "tbl_get at_user_id u db = Some r" for u r
  proof (cases "u \<in> at_user_id ` set (batch_rows locked n db)")
    case True
    then have "r \<in> set (batch_rows locked n db)" "at_user_id r = u" using batch_rows_of(1) [OF assms(2)] u by auto
    then show ?thesis using get(2) backfill_account by blast
  qed (use get(3) u in auto)
  moreover have "keys_distinct at_user_id db'" using get(1) assms(2) by (simp add: keys_distinct_def)
  ultimately show ?thesis by (simp add: accounts_kept_def)
qed

lemma backfill_tokens_ok:
  assumes "none_ok L" and "tokens_ok L codec db"
    and "backfill_rows L codec nonces (batch_rows locked n db) db = Inr (results, db')"
  shows "tokens_ok L codec db'"
proof -
  have kd: "keys_distinct at_user_id db" using assms(2) by (simp add: tokens_ok_def)
  note get = backfill_batch_get [OF assms(3) kd]
  have kd': "keys_distinct at_user_id db'" using get(1) kd by (simp add: keys_distinct_def)
  have "token_row_ok L codec r'" if r': "r' \<in> set db'" for r'
  proof -
    have "at_user_id r' \<in> set (map at_user_id db)" unfolding get(1) [symmetric] using r' by simp
    then obtain r where r: "r \<in> set db" "at_user_id r = at_user_id r'" by auto
    have here: "tbl_get at_user_id (at_user_id r) db' = Some r'" using tbl_get_unique [OF kd' r'] r(2) by simp
    have ok: "token_row_ok L codec r" using assms(2) r(1) by (simp add: tokens_ok_def)
    show ?thesis
    proof (cases "at_user_id r \<in> at_user_id ` set (batch_rows locked n db)")
      case True
      then have "r \<in> set (batch_rows locked n db)"
        using batch_rows_of(1) [OF kd] tbl_get_unique [OF kd r(1)] by fastforce
      from get(2) [OF this] here obtain res where "backfill_legacy_row L codec (nonces (at_user_id r)) r = Inr (res, r')" by auto
      then have "r' = quarantine L r"
        using ok by (auto simp: backfill_legacy_row_def token_row_ok_def is_jobj_def split: option.splits)
      then show ?thesis using clear_token_value [OF assms(1)] by (simp add: token_row_ok_def quarantine_def)
    next
      case False
      then show ?thesis using get(3) here tbl_get_unique [OF kd r(1)] ok by simp
    qed
  qed
  then show ?thesis using kd' by (simp add: tokens_ok_def)
qed

lemma stepped_tokens_ok:
  assumes "codec_lib_ok (cr_codec L)" and "none_ok L" and "reach (\<lambda>db. db = []) (token_step L codec) db"
  shows "tokens_ok L codec db"
proof -
  have "tokens_ok L codec d'" if "token_step L codec d d'" "tokens_ok L codec d" for d d'
    using that(1)
  proof cases
    case step_cred
    then show ?thesis using cred_step_ok [OF assms(1,2)] that(2) by blast
  next
    case (step_backfill nonces locked n results)
    show ?thesis by (rule backfill_tokens_ok [OF assms(2) that(2) step_backfill])
  qed
  then have "invariant_of (\<lambda>db. db = []) (token_step L codec) (tokens_ok L codec)"
    by unfold_locales (auto simp: tokens_ok_def keys_distinct_def)
  from invariant_of.reach_inv [OF this assms(3)] show ?thesis .
qed

text \<open>
  C27. What the table says holds. Starting from an empty table and through any sequence of pending
  rows, completed OAuth exchanges, loads and conversion batches, whatever Google answers and whoever
  acts: every user has at most one row, no row holds a token in plain text, and for a row that is
  marked connected the stored token decrypts, for the user and the address of the row, to a payload
  with a refresh token and the required scopes; if Google's library accepts that payload and it has
  not expired, loading returns the connection of that user and address with those credentials and
  changes nothing.
\<close>

theorem connected_means_loadable:
  assumes "codec_lib_ok (cr_codec L)" and "none_ok L" and "reach (\<lambda>db. db = []) (token_step L codec) db"
  shows "keys_distinct at_user_id db \<and> (\<forall>r \<in> set db. token_value r = JNull) \<and>
    (\<forall>r \<in> set db. at_status r = ConnConnected \<longrightarrow>
       (\<exists>e p. legacy_email r = Some e \<and> validate_token_payload p = Inr p \<and>
          decrypt (cr_codec L) codec (text_or_empty (at_encrypted r)) (text_or_empty (at_key_id r))
            (text_or_empty (at_format_version r)) (at_user_id r) e = Inr p \<and>
          (\<forall>c nonce. cr_from_info L p = Some c \<and> \<not> cr_expired L c \<longrightarrow>
             load_connected_google_connection L (Inr codec) nonce (at_user_id r) db =
               (Inr \<lparr>gc_user_id = at_user_id r, gc_google_email = e, gc_credentials = c\<rparr>, db))))"
proof -
  have ok: "tokens_ok L codec db" using stepped_tokens_ok [OF assms] .
  have "decrypt (cr_codec L) codec (text_or_empty (at_encrypted r)) (text_or_empty (at_key_id r))
      (text_or_empty (at_format_version r)) (at_user_id r) e = Inr p"
    if "read_token_payload L codec r e = Inr (p, False)" for r e p
    using that by (auto simp: read_token_payload_def validate_token_payload_def map_sum_Inr
        split: if_splits sum.splits option.splits json.splits bool.splits)
  moreover have "keys_distinct at_user_id db \<and> (\<forall>r \<in> set db. token_value r = JNull)"
    using ok by (simp add: tokens_ok_def token_row_ok_def)
  ultimately show ?thesis using ok_row_loads [OF ok] by meson
qed

lemma toy_stepped: "reach (\<lambda>db. db = []) (token_step toy_cred_lib toy_codec) (toy_tokens u)"
  using toy_reachable(3) by (induction rule: reach.induct) (auto intro: reach.intros step_cred)

theorem connected_means_loadable_witness:
  "\<exists>r. toy_tokens 7 = [r] \<and> at_status r = ConnConnected \<and>
    load_connected_google_connection toy_cred_lib (Inr toy_codec) toy_nonce 7 (toy_tokens 7) =
      (Inr \<lparr>gc_user_id = 7, gc_google_email = ''a@b.com'', gc_credentials = ()\<rparr>, toy_tokens 7)"
proof -
  obtain r where r: "toy_tokens 7 = [r]" "at_user_id r = 7" "at_status r = ConnConnected" "legacy_email r = Some ''a@b.com''"
    using toy_row by blast
  have "r \<in> set (toy_tokens 7)" unfolding r(1) by simp
  then have "load_connected_google_connection toy_cred_lib (Inr toy_codec) toy_nonce (at_user_id r) (toy_tokens 7) =
      (Inr \<lparr>gc_user_id = at_user_id r, gc_google_email = ''a@b.com'', gc_credentials = ()\<rparr>, toy_tokens 7)"
    using connected_means_loadable [OF toy_reachable(1,2) toy_stepped] r(3,4) toy_accepts by fastforce
  then show ?thesis using r by auto
qed

text \<open>
  C29. A user keeps the Google account. From any table with one row per user, legacy rows and rows
  without an address included, through any sequence of loads, completed exchanges, pending rows and
  conversion batches: the row of a user never disappears, and once it belongs to an address it
  belongs to that address for ever.
\<close>

theorem account_never_switched:
  assumes "(token_step L codec)\<^sup>*\<^sup>* db db'" and "keys_distinct at_user_id db" and "tbl_get at_user_id u db = Some r"
  shows "keys_distinct at_user_id db' \<and>
    (\<exists>r'. tbl_get at_user_id u db' = Some r' \<and> (\<forall>e. legacy_email r = Some e \<longrightarrow> legacy_email r' = Some e))"
proof -
  have one: "accounts_kept d d'" if "token_step L codec d d'" "keys_distinct at_user_id d" for d d'
    using that(1)
  proof cases
    case step_cred
    then show ?thesis using cred_step_accounts that(2) by blast
  next
    case (step_backfill nonces locked n results)
    show ?thesis by (rule backfill_batch_accounts [OF step_backfill that(2)])
  qed
  have "accounts_kept db db'"
    using assms(1)
  proof (induction rule: rtranclp_induct)
    case base
    show ?case using assms(2) by (simp add: accounts_kept_def)
  next
    case (step d d')
    then have "keys_distinct at_user_id d" by (simp add: accounts_kept_def)
    from accounts_kept_trans [OF step.IH one [OF step.hyps(2) this]] show ?case .
  qed
  then show ?thesis using assms(3) unfolding accounts_kept_def keeps_account_def by blast
qed

text \<open>A legacy row: a plain token and the address in mixed case.\<close>

definition toy_legacy :: agent_token where
  "toy_legacy = \<lparr>at_user_id = 7, at_user_email = Some ''A@b.com'', at_token_json = Some toy_json, at_encrypted = None,
     at_key_id = None, at_format_version = None, at_google_email = None, at_status = ConnConnected\<rparr>"

lemma toy_converted:
  "\<exists>r1. backfill_rows toy_cred_lib toy_codec (\<lambda>_. toy_nonce) (batch_rows (\<lambda>_. False) 100 [toy_legacy]) [toy_legacy] =
     Inr ([BackfillEncrypted], [r1]) \<and> at_status r1 = ConnConnected \<and> at_user_id r1 = 7 \<and> at_token_json r1 = Some JNull \<and>
     legacy_email r1 = Some ''a@b.com''"
proof -
  obtain e where "encrypt toy_codec_lib toy_codec toy_nonce toy_json 7 ''a@b.com'' = Inr e" using toy_encrypts by blast
  moreover have "normalize_account_email ''A@b.com'' = Some ''a@b.com''" "normalize_account_email ''a@b.com'' = Some ''a@b.com''" by code_simp+
  moreover have "is_jobj toy_json" "toy_json \<noteq> JNull" "toy_json \<noteq> JObj [(''status'', JStr ''pending_oauth'')]"
    by (simp_all add: toy_json_def is_jobj_def)
  ultimately show ?thesis
    by (simp add: batch_rows_def backfill_legacy_row_def toy_legacy_def legacy_email_def text_or_empty_def token_value_def toy_valid
        toy_cred_lib_def write_encrypted_token_def clear_token_json_def)
qed

theorem account_never_switched_witness:
  "\<exists>r1. token_step toy_cred_lib toy_codec [toy_legacy] [r1] \<and> at_status r1 = ConnConnected \<and>
     (\<exists>r'. tbl_get at_user_id 7 [r1] = Some r' \<and> legacy_email r' = Some ''a@b.com'')"
proof -
  obtain r1 where r1: "backfill_rows toy_cred_lib toy_codec (\<lambda>_. toy_nonce) (batch_rows (\<lambda>_. False) 100 [toy_legacy]) [toy_legacy] =
      Inr ([BackfillEncrypted], [r1])" "at_status r1 = ConnConnected"
    using toy_converted by blast
  have step: "token_step toy_cred_lib toy_codec [toy_legacy] [r1]" using step_backfill [OF r1(1)] .
  have "legacy_email toy_legacy = Some ''a@b.com''" by code_simp
  moreover have "keys_distinct at_user_id [toy_legacy]" "tbl_get at_user_id 7 [toy_legacy] = Some toy_legacy"
    by (simp_all add: keys_distinct_def toy_legacy_def)
  moreover have "(token_step toy_cred_lib toy_codec)\<^sup>*\<^sup>* [toy_legacy] [r1]" using step by (rule r_into_rtranclp)
  ultimately show ?thesis using account_never_switched step r1(2) by blast
qed

section \<open>The conversion of legacy rows\<close>

text \<open>
  What SQLAlchemy documents for a column declared \<open>JSON\<close> without \<open>none_as_null\<close>: \<open>None\<close> is
  stored as the JSON value null, which is not SQL \<open>NULL\<close>.
\<close>

lemma cleared_column:
  assumes "cr_none L = Some JNull" and "at_token_json r \<noteq> None"
  shows "at_token_json (clear_token_json L r) = Some JNull"
  using assms by (auto simp: clear_token_json_def token_value_def split: option.splits)

lemma converted_column:
  assumes "cr_none L = Some JNull" and "at_token_json r \<noteq> None" and "backfill_legacy_row L codec nonce r = Inr (res, r')"
  shows "at_token_json r' = Some JNull"
  using assms(3) cleared_column [OF assms(1)] assms(2)
  by (auto simp: backfill_legacy_row_def quarantine_def write_encrypted_token_def map_sum_Inr
      split: if_splits option.splits sum.splits)

lemma converted_again:
  assumes "at_token_json r = Some JNull" and "backfill_legacy_row L codec nonce r = Inr (res, r')"
  shows "at_status r' = ConnQuarantined"
  using assms by (auto simp: backfill_legacy_row_def quarantine_def token_value_def is_jobj_def split: option.splits)

lemma batch_nonempty:
  assumes "1 \<le> n" and "r \<in> set db" and "at_token_json r \<noteq> None"
  shows "batch_rows (\<lambda>_. False) n db \<noteq> []"
  using assms by (auto simp: batch_rows_def filter_empty_conv dest: arg_cong [of _ "[]" set])

text \<open>Rows with a token column keep one.\<close>

lemma batch_keeps_columns:
  assumes "cr_none L = Some JNull" and "keys_distinct at_user_id db"
    and "backfill_rows L codec nonces (batch_rows locked n db) db = Inr (results, db')"
    and "tbl_get at_user_id u db = Some r" and "at_token_json r \<noteq> None"
  shows "\<exists>r'. tbl_get at_user_id u db' = Some r' \<and> at_token_json r' \<noteq> None"
proof (cases "u \<in> at_user_id ` set (batch_rows locked n db)")
  case True
  then have "r \<in> set (batch_rows locked n db)" "at_user_id r = u" using batch_rows_of(1) [OF assms(2)] assms(4) by auto
  then obtain res r' where "backfill_legacy_row L codec (nonces u) r = Inr (res, r')" "tbl_get at_user_id u db' = Some r'"
    using backfill_batch_get(2) [OF assms(3,2)] by blast
  then show ?thesis using converted_column [OF assms(1,5)] by auto
next
  case False
  then show ?thesis using backfill_batch_get(3) [OF assms(3,2)] assms(4,5) by auto
qed

lemma backfill_loop_runs_on:
  assumes "cr_none L = Some JNull" and "1 \<le> n" and "keys_distinct at_user_id db"
    and "tbl_get at_user_id u db = Some r" and "at_token_json r \<noteq> None"
  shows "fst (backfill_loop L codec nonces (\<lambda>_ _. False) n fuel db) \<noteq> Some (Inr results)"
  using assms(3-5)
proof (induction fuel arbitrary: db r results)
  case (Suc fuel)
  have rows: "batch_rows (\<lambda>_. False) n db \<noteq> []" using batch_nonempty [OF assms(2)] Suc.prems by blast
  show ?case
  proof (cases "backfill_rows L codec (nonces fuel) (batch_rows (\<lambda>_. False) n db) db")
    case (Inl e)
    then show ?thesis using rows by (auto split: list.splits)
  next
    case (Inr out)
    obtain res db' where out: "backfill_rows L codec (nonces fuel) (batch_rows (\<lambda>_. False) n db) db = Inr (res, db')"
      using Inr by (cases out) auto
    obtain r' where r': "tbl_get at_user_id u db' = Some r'" "at_token_json r' \<noteq> None"
      using batch_keeps_columns [OF assms(1) Suc.prems(1) out Suc.prems(2,3)] by blast
    have "keys_distinct at_user_id db'" using backfill_batch_accounts [OF out Suc.prems(1)] by (simp add: accounts_kept_def)
    from Suc.IH [OF this r'] have "fst (backfill_loop L codec nonces (\<lambda>_ _. False) n fuel db') \<noteq> Some (Inr x)" for x .
    then show ?thesis using rows out by (auto split: list.splits prod.splits option.splits sum.splits) (metis fst_conv)
  qed
qed simp

text \<open>
  C40. On a table that fits one batch of the conversion command (of at most 1000 rows), with no row
  locked by another session and at least one row that has something in the token column, and with
  the column as it is declared (\<open>None\<close> is stored as JSON null, which is not SQL
  \<open>NULL\<close>): the command never reports completion, however many batches it runs; and if two
  batches in a row succeed, every such row is quarantined after the second, the rows that the first
  one encrypted and connected included.
\<close>

theorem backfill_quarantines_connected:
  assumes "cr_none L = Some JNull" and "keys_distinct at_user_id db" and "length db \<le> n" and "n \<le> 1000"
    and "tbl_get at_user_id u db = Some r" and "at_token_json r \<noteq> None"
  shows "fst (backfill_legacy_oauth_credentials L (Inr codec) nonces (\<lambda>_ _. False) n fuel db) \<noteq> Some (Inr results) \<and>
    (backfill_rows L codec nonces1 (batch_rows (\<lambda>_. False) n db) db = Inr (results1, db1) \<longrightarrow>
     backfill_rows L codec nonces2 (batch_rows (\<lambda>_. False) n db1) db1 = Inr (results2, db2) \<longrightarrow>
       (\<exists>r2. tbl_get at_user_id u db2 = Some r2 \<and> at_status r2 = ConnQuarantined))"
proof (intro conjI impI)
  have "0 < length db" using assms(5) by (cases db) auto
  then have n: "1 \<le> n" using assms(3) by linarith
  then show "fst (backfill_legacy_oauth_credentials L (Inr codec) nonces (\<lambda>_ _. False) n fuel db) \<noteq> Some (Inr results)"
    using backfill_loop_runs_on [OF assms(1) n assms(2,5,6)] assms(4) by (simp add: backfill_legacy_oauth_credentials_def)
next
  have all: "set (batch_rows (\<lambda>_. False) n d) = {q \<in> set d. at_token_json q \<noteq> None}" if "length d \<le> n" for d
  proof -
    have "length (filter (\<lambda>r. at_token_json r \<noteq> None) d) \<le> n" using that le_trans [OF length_filter_le] by blast
    then show ?thesis by (auto simp: batch_rows_def)
  qed
  assume b1: "backfill_rows L codec nonces1 (batch_rows (\<lambda>_. False) n db) db = Inr (results1, db1)"
    and b2: "backfill_rows L codec nonces2 (batch_rows (\<lambda>_. False) n db1) db1 = Inr (results2, db2)"
  note get1 = backfill_batch_get [OF b1 assms(2)]
  have kd1: "keys_distinct at_user_id db1" using get1(1) assms(2) by (simp add: keys_distinct_def)
  have len: "length db1 \<le> n" using arg_cong [OF get1(1), of length] assms(3) by simp
  note get2 = backfill_batch_get [OF b2 kd1]
  have "r \<in> set (batch_rows (\<lambda>_. False) n db)" "at_user_id r = u" using all [OF assms(3)] assms(5,6) by auto
  then obtain res r1 where r1: "backfill_legacy_row L codec (nonces1 u) r = Inr (res, r1)" "tbl_get at_user_id u db1 = Some r1"
    using get1(2) by blast
  have j: "at_token_json r1 = Some JNull" using converted_column [OF assms(1,6) r1(1)] .
  then have "r1 \<in> set (batch_rows (\<lambda>_. False) n db1)" "at_user_id r1 = u" using all [OF len] r1(2) by auto
  then obtain res2 r2 where "backfill_legacy_row L codec (nonces2 u) r1 = Inr (res2, r2)" "tbl_get at_user_id u db2 = Some r2"
    using get2(2) by blast
  then show "\<exists>r2. tbl_get at_user_id u db2 = Some r2 \<and> at_status r2 = ConnQuarantined"
    using converted_again [OF j] by blast
qed

theorem backfill_quarantines_connected_witness:
  "\<exists>r1 r2 db2. backfill_rows toy_cred_lib toy_codec (\<lambda>_. toy_nonce) (batch_rows (\<lambda>_. False) 100 [toy_legacy]) [toy_legacy] =
       Inr ([BackfillEncrypted], [r1]) \<and> at_status r1 = ConnConnected \<and>
     backfill_rows toy_cred_lib toy_codec (\<lambda>_. toy_nonce) (batch_rows (\<lambda>_. False) 100 [r1]) [r1] = Inr ([BackfillQuarantined], db2) \<and>
     tbl_get at_user_id 7 db2 = Some r2 \<and> at_status r2 = ConnQuarantined"
proof -
  obtain r1 where r1: "backfill_rows toy_cred_lib toy_codec (\<lambda>_. toy_nonce) (batch_rows (\<lambda>_. False) 100 [toy_legacy]) [toy_legacy] =
      Inr ([BackfillEncrypted], [r1])" "at_status r1 = ConnConnected" "at_user_id r1 = 7" "at_token_json r1 = Some JNull"
      "legacy_email r1 = Some ''a@b.com''"
    using toy_converted by blast
  have b2: "backfill_rows toy_cred_lib toy_codec (\<lambda>_. toy_nonce) (batch_rows (\<lambda>_. False) 100 [r1]) [r1] =
      Inr ([BackfillQuarantined], [quarantine toy_cred_lib r1])"
    using r1(3-5) by (simp add: batch_rows_def backfill_legacy_row_def token_value_def is_jobj_def quarantine_def)
  have "cr_none toy_cred_lib = Some JNull" "keys_distinct at_user_id [toy_legacy]" "length [toy_legacy] \<le> 100" "(100 :: nat) \<le> 1000"
      "tbl_get at_user_id 7 [toy_legacy] = Some toy_legacy" "at_token_json toy_legacy \<noteq> None"
    by (simp_all add: toy_cred_lib_def keys_distinct_def toy_legacy_def)
  from backfill_quarantines_connected [OF this, THEN conjunct2, rule_format, OF r1(1) b2] show ?thesis using r1(1,2) b2 by blast
qed

end
