(* ===== verification/Push_Router.thy ===== *)
theory Push_Router
  imports Worker Credential_Safety
begin

text \<open>
  The Pub/Sub push endpoint and the operator endpoints (\<open>server/routes/push_router.py\<close>).
  Verification of the signed token and Python's \<open>int()\<close> are the parameter
  \<open>push_lib\<close>. The state of the push route is the notification tables together with
  \<open>onebox_tokens\<close>, which loading the connection of the owner may change; a response is \<open>Inl\<close> an error status or the value the handler returns.
\<close>

section \<open>Authentication\<close>

record push_settings =
  PUBSUB_PUSH_AUDIENCE :: "str option"
  PUBSUB_PUSH_SERVICE_ACCOUNT_EMAIL :: "str option"
  PUBSUB_SUBSCRIPTION :: "str option"
  AUTOMATION_ENABLED :: bool
  AUTOMATION_OWNER_ID :: "uuid option"

record push_lib =
  pl_verify :: "str \<Rightarrow> str \<Rightarrow> op_failure + json"
  pl_int :: "str \<Rightarrow> int option"

record push_request =
  pr_authorization :: "str option"
  pr_content_length :: "str option"
  pr_chunks :: "nat list list"

datatype http_error = HttpError int | RequestCancelled

definition text_setting :: "str option \<Rightarrow> str" where
  "text_setting v = strip (case v of None \<Rightarrow> [] | Some t \<Rightarrow> t)"

text \<open>\<open>authorization.partition(' ')\<close>.\<close>

definition partition_space :: "str \<Rightarrow> str \<times> str" where
  "partition_space s = (takeWhile (\<lambda>c. c \<noteq> CHR '' '') s, drop 1 (dropWhile (\<lambda>c. c \<noteq> CHR '' '') s))"

definition authorized_claims :: "str \<Rightarrow> json \<Rightarrow> bool" where
  "authorized_claims expected_email claims =
     (jget ''email_verified'' claims = Some (JBool True) \<and>
      (case jget ''email'' claims of Some (JStr email) \<Rightarrow> casefold (strip email) = expected_email | _ \<Rightarrow> False))"

definition require_pubsub_push_auth :: "push_settings \<Rightarrow> push_lib \<Rightarrow> str option \<Rightarrow> http_error + json" where
  "require_pubsub_push_auth ps lib authorization =
     (let expected_audience = text_setting (PUBSUB_PUSH_AUDIENCE ps);
          expected_email = casefold (text_setting (PUBSUB_PUSH_SERVICE_ACCOUNT_EMAIL ps))
      in if expected_audience = [] \<or> expected_email = [] then Inl (HttpError 503)
         else case partition_space (case authorization of None \<Rightarrow> [] | Some a \<Rightarrow> a) of
           (scheme, token) \<Rightarrow>
             if casefold scheme \<noteq> ''bearer'' \<or> token = [] then Inl (HttpError 401)
             else case pl_verify lib token expected_audience of
               Inl (GoogleFailure _) \<Rightarrow> Inl (HttpError 503)
             | Inl (Propagated f) \<Rightarrow> Inl (if f = CancelledError then RequestCancelled else HttpError 401)
             | Inr claims \<Rightarrow>
                 if \<not> is_jobj claims then Inl (HttpError 401)
                 else if \<not> authorized_claims expected_email claims then Inl (HttpError 403)
                 else Inr claims)"

definition require_global_gmail_operator :: "push_settings \<Rightarrow> uuid \<Rightarrow> http_error + uuid" where
  "require_global_gmail_operator ps user_id =
     (case AUTOMATION_OWNER_ID ps of
        None \<Rightarrow> Inl (HttpError 503)
      | Some owner_id \<Rightarrow> if user_id \<noteq> owner_id then Inl (HttpError 403) else Inr user_id)"

section \<open>Receiving a notification\<close>

fun read_chunks :: "int \<Rightarrow> int \<Rightarrow> nat list list \<Rightarrow> nat list list \<Rightarrow> http_error + nat list" where
  "read_chunks limit received_bytes [] chunks = Inr (concat chunks)"
| "read_chunks limit received_bytes (chunk # rest) chunks =
     (if received_bytes + int (length chunk) > limit then Inl (HttpError 413)
      else read_chunks limit (received_bytes + int (length chunk)) rest (chunks @ [chunk]))"

definition length_refused :: "settings \<Rightarrow> push_lib \<Rightarrow> str option \<Rightarrow> http_error option" where
  "length_refused s lib raw_length =
     (case raw_length of
        None \<Rightarrow> None
      | Some l \<Rightarrow>
          if l = [] then None
          else case pl_int lib l of
            None \<Rightarrow> Some (HttpError 400)
          | Some n \<Rightarrow> if n > PUBSUB_MAX_ENVELOPE_BYTES s then Some (HttpError 413) else None)"

definition bounded_body :: "settings \<Rightarrow> push_lib \<Rightarrow> push_request \<Rightarrow> http_error + nat list" where
  "bounded_body s lib req =
     (case length_refused s lib (pr_content_length req) of
        Some e \<Rightarrow> Inl e
      | None \<Rightarrow> read_chunks (PUBSUB_MAX_ENVELOPE_BYTES s) 0 (pr_chunks req) [])"

definition notification_http_error :: "notify_error \<Rightarrow> http_error" where
  "notification_http_error e = (case e of NotificationValidationError _ \<Rightarrow> HttpError 400 | _ \<Rightarrow> HttpError 503)"

text \<open>
  What the route works with: the credential library, the configured codec and the nonce drawn if a
  token has to be written, and the tables of its sessions.
\<close>

record 'c push_credentials =
  pc_lib :: "'c cred_lib"
  pc_codec :: "credential_error + codec"
  pc_nonce :: bytes

record push_tables =
  pt_mail :: mail_db
  pt_tokens :: token_db

definition stored_address :: "credential_error + 'c google_connection \<Rightarrow> notify_error + str" where
  "stored_address loaded =
     (case loaded of Inl e \<Rightarrow> Inl (ConnectionUnavailable ''credentials'') | Inr connection \<Rightarrow> Inr (gc_google_email connection))"

text \<open>
  Enqueueing runs two transactions: loading the connection of the owner commits to
  \<open>onebox_tokens\<close>, whatever becomes of the notification; then the job is inserted.
\<close>

definition enqueue_for_owner ::
  "notify_lib \<Rightarrow> 'c push_credentials \<Rightarrow> uuid \<Rightarrow> time \<Rightarrow> notification_envelope \<Rightarrow> uuid \<Rightarrow> push_tables \<Rightarrow>
   (http_error + bool) \<times> push_tables" where
  "enqueue_for_owner nlib C new_id received envelope owner_id st =
     (case load_connected_google_connection (pc_lib C) (pc_codec C) (pc_nonce C) owner_id (pt_tokens st) of
        (loaded, tokens) \<Rightarrow>
          if loaded = Inl LifecycleCancelled then (Inl RequestCancelled, st\<lparr>pt_tokens := tokens\<rparr>)
          else case enqueue_notification nlib new_id received (stored_address loaded) envelope owner_id (pt_mail st) of
            (r, db) \<Rightarrow> (map_sum notification_http_error id r, \<lparr>pt_mail = db, pt_tokens = tokens\<rparr>))"

definition receive_gmail_notification ::
  "notify_lib \<Rightarrow> push_lib \<Rightarrow> 'c push_credentials \<Rightarrow> settings \<Rightarrow> push_settings \<Rightarrow> uuid \<Rightarrow> time \<Rightarrow> push_request \<Rightarrow> push_tables \<Rightarrow>
   (http_error + unit) \<times> push_tables" where
  "receive_gmail_notification nlib lib C s ps new_id received req st =
     (case (AUTOMATION_ENABLED ps, AUTOMATION_OWNER_ID ps) of
        (True, Some owner_id) \<Rightarrow>
          (case bounded_body s lib req of
             Inl e \<Rightarrow> (Inl e, st)
           | Inr body \<Rightarrow>
               (case parse_notification_envelope nlib s body (PUBSUB_SUBSCRIPTION ps) of
                  Inl e \<Rightarrow> (Inl (notification_http_error e), st)
                | Inr envelope \<Rightarrow>
                    (case enqueue_for_owner nlib C new_id received envelope owner_id st of
                       (Inl e, st') \<Rightarrow> (Inl e, st')
                     | (Inr inserted, st') \<Rightarrow> (Inr (), st'))))
      | _ \<Rightarrow> (Inl (HttpError 503), st))"

text \<open>The route: its dependency is resolved before the handler runs.\<close>

definition notifications_route ::
  "notify_lib \<Rightarrow> push_lib \<Rightarrow> 'c push_credentials \<Rightarrow> settings \<Rightarrow> push_settings \<Rightarrow> uuid \<Rightarrow> time \<Rightarrow> push_request \<Rightarrow> push_tables \<Rightarrow>
   (http_error + unit) \<times> push_tables" where
  "notifications_route nlib lib C s ps new_id received req st =
     (case require_pubsub_push_auth ps lib (pr_authorization req) of
        Inl e \<Rightarrow> (Inl e, st)
      | Inr claims \<Rightarrow> receive_gmail_notification nlib lib C s ps new_id received req st)"

section \<open>Operator endpoints\<close>

record health_report =
  hr_status :: str
  hr_detail :: str
  hr_gmail_service_status :: str

definition heartbeat_fresh :: "settings \<Rightarrow> time \<Rightarrow> mailbox_state \<Rightarrow> bool" where
  "heartbeat_fresh s now m =
     (case ms_worker_heartbeat_at m of None \<Rightarrow> False | Some t \<Rightarrow> now - t \<le> seconds (GMAIL_WORKER_LIVENESS_SECONDS s))"

definition healthy :: "settings \<Rightarrow> time \<Rightarrow> automation_report \<Rightarrow> bool" where
  "healthy s now r = (ar_watch_valid r \<and> ms_watch_last_error_code (ar_state r) = None \<and> heartbeat_fresh s now (ar_state r) \<and>
     ms_resync_state (ar_state r) = ResyncIdle \<and> ar_failure_count r = 0)"

definition health_detail :: "settings \<Rightarrow> time \<Rightarrow> automation_report \<Rightarrow> str" where
  "health_detail s now r =
     (if healthy s now r then ''Durable Gmail automation watch and worker are healthy.''
      else if \<not> ar_watch_valid r then ''Gmail watch is missing or expired.''
      else if ms_watch_last_error_code (ar_state r) \<noteq> None then ''Gmail watch renewal is failing.''
      else if \<not> heartbeat_fresh s now (ar_state r) then ''Gmail automation worker heartbeat is stale.''
      else if ms_resync_state (ar_state r) = ResyncManualRequired then ''Gmail recovery requires operator intervention.''
      else if ms_resync_state (ar_state r) \<noteq> ResyncIdle then ''Gmail recovery is in progress or deferred.''
      else ''Gmail notification queue has terminal failures.'')"

definition health_check :: "settings \<Rightarrow> push_settings \<Rightarrow> time \<Rightarrow> time \<Rightarrow> uuid \<Rightarrow> mail_db \<Rightarrow> http_error + health_report" where
  "health_check s ps status_now now user_id db =
     (case require_global_gmail_operator ps user_id of
        Inl e \<Rightarrow> Inl e
      | Inr owner_id \<Rightarrow>
          (case automation_status status_now owner_id db of
             None \<Rightarrow> Inr \<lparr>hr_status = ''unavailable'', hr_detail = ''No durable Gmail mailbox state exists yet.'',
                          hr_gmail_service_status = ''unavailable''\<rparr>
           | Some r \<Rightarrow> Inr \<lparr>hr_status = (if healthy s now r then ''healthy'' else ''degraded''),
                            hr_detail = health_detail s now r,
                            hr_gmail_service_status = (if healthy s now r then ''ready'' else ''degraded'')\<rparr>))"

definition automation_status_endpoint :: "push_settings \<Rightarrow> time \<Rightarrow> uuid \<Rightarrow> mail_db \<Rightarrow> http_error + automation_report" where
  "automation_status_endpoint ps now user_id db =
     (case require_global_gmail_operator ps user_id of
        Inl e \<Rightarrow> Inl e
      | Inr owner_id \<Rightarrow>
          (case automation_status now owner_id db of None \<Rightarrow> Inl (HttpError 404) | Some r \<Rightarrow> Inr r))"

definition renew_watch_endpoint :: "worker_env \<Rightarrow> push_settings \<Rightarrow> uuid \<Rightarrow> worker_world \<Rightarrow> (http_error + str) \<times> worker_world" where
  "renew_watch_endpoint env ps user_id w =
     (case require_global_gmail_operator ps user_id of
        Inl e \<Rightarrow> (Inl e, w)
      | Inr owner_id \<Rightarrow>
          (case renew_automation_watch env owner_id w of
             (Inl _, w1) \<Rightarrow> (Inl RequestCancelled, w1)
           | (Inr renewed, w1) \<Rightarrow> (Inr (if renewed then ''renewed'' else ''not_due_or_unavailable''), w1)))"

definition check_inbox :: "push_settings \<Rightarrow> uuid \<Rightarrow> http_error + unit" where
  "check_inbox ps user_id =
     (case require_global_gmail_operator ps user_id of Inl e \<Rightarrow> Inl e | Inr _ \<Rightarrow> Inl (HttpError 409))"

section \<open>Acknowledged notifications are durable\<close>

lemma read_chunks_bounded:
  "read_chunks limit received_bytes todo chunks = Inr body \<Longrightarrow>
     body = concat chunks @ concat todo \<and> (todo \<noteq> [] \<longrightarrow> received_bytes + int (length (concat todo)) \<le> limit)"
proof (induction limit received_bytes todo chunks rule: read_chunks.induct)
  case (2 limit received_bytes chunk rest chunks)
  then show ?case by (cases "rest = []") (auto split: if_splits)
qed simp

lemma enqueue_durable:
  assumes "enqueue_notification nlib i t cn e owner db = (r, db')"
  shows "db' = db \<and> (\<forall>b. r = Inr b \<longrightarrow> tbl_get nj_pubsub_message_id (ne_pubsub_message_id e) (jobs db) \<noteq> None) \<or>
    r = Inr True \<and> db' = db\<lparr>jobs := jobs db @ [new_job i t e]\<rparr>"
  using assms unfolding enqueue_notification_def by (auto split: sum.splits option.splits if_splits)

lemma load_frame:
  assumes "u' \<noteq> u"
  shows "tbl_get at_user_id u' (snd (load_connected_google_connection L c nonce u db)) = tbl_get at_user_id u' db"
proof (cases c)
  case (Inr codec)
  from load_tokens [of L codec nonce u db] show ?thesis
  proof (elim disjE exE conjE)
    fix r v r' assume r: "tbl_get at_user_id u db = Some r" "load_row L codec nonce r = (v, r')"
      and s: "snd (load_connected_google_connection L (Inr codec) nonce u db) = tbl_put at_user_id r' db"
    have "at_user_id r' = u"
      using load_row_effect [OF r(2)] written_row(1) tbl_get_Some [OF r(1)] by (fastforce simp: mark_reconnect_required_def)
    then show ?thesis using s assms Inr by simp
  qed (simp add: Inr)
qed (simp add: load_connected_google_connection_def)

text \<open>What the two transactions of an enqueue leave behind.\<close>

lemma enqueue_for_owner_effect:
  assumes "enqueue_for_owner nlib C i t e owner st = (r, st')"
  shows "pt_tokens st' = snd (load_connected_google_connection (pc_lib C) (pc_codec C) (pc_nonce C) owner (pt_tokens st)) \<and>
    set (jobs (pt_mail st)) \<subseteq> set (jobs (pt_mail st')) \<and> mailboxes (pt_mail st') = mailboxes (pt_mail st) \<and>
    triage (pt_mail st') = triage (pt_mail st) \<and> ((\<nexists>b. r = Inr b) \<longrightarrow> pt_mail st' = pt_mail st) \<and>
    (\<forall>b. r = Inr b \<longrightarrow> (\<exists>j\<in>set (jobs (pt_mail st')). nj_pubsub_message_id j = ne_pubsub_message_id e) \<and>
      (\<exists>connection. fst (load_connected_google_connection (pc_lib C) (pc_codec C) (pc_nonce C) owner (pt_tokens st)) = Inr connection \<and>
        normalize_email nlib (Some (JStr (gc_google_email connection))) = Inr (ne_mailbox_email e)))"
proof -
  obtain loaded tokens where l: "load_connected_google_connection (pc_lib C) (pc_codec C) (pc_nonce C) owner (pt_tokens st) = (loaded, tokens)"
    by fastforce
  show ?thesis
  proof (cases "loaded = Inl LifecycleCancelled")
    case True
    then show ?thesis using assms l by (auto simp: enqueue_for_owner_def)
  next
    case False
    obtain q d where q: "enqueue_notification nlib i t (stored_address loaded) e owner (pt_mail st) = (q, d)" by fastforce
    have r: "r = map_sum notification_http_error id q" "st' = \<lparr>pt_mail = d, pt_tokens = tokens\<rparr>"
      using assms l False q by (auto simp: enqueue_for_owner_def)
    have ex: "\<exists>j\<in>set (jobs d). nj_pubsub_message_id j = ne_pubsub_message_id e" if "q = Inr x" for x
      using enqueue_TrueD [of nlib i t "stored_address loaded" e owner "pt_mail st" x d] q that tbl_get_mem by fastforce
    have conn: "\<exists>connection. loaded = Inr connection \<and>
        normalize_email nlib (Some (JStr (gc_google_email connection))) = Inr (ne_mailbox_email e)" if "q = Inr x" for x
      using q that unfolding enqueue_notification_def configured_automation_mailbox_def stored_address_def
      by (auto split: sum.splits if_splits)
    show ?thesis
      unfolding r l using enqueue_durable [OF q] ex conn by (cases q) auto
  qed
qed

lemma route_cases:
  assumes "notifications_route nlib lib C s ps i t req st = (r, st')"
  obtains (refused) "st' = st" "r \<noteq> Inr ()"
  | (enqueued) claims e owner q where "require_pubsub_push_auth ps lib (pr_authorization req) = Inr claims"
      "parse_notification_envelope nlib s (concat (pr_chunks req)) (PUBSUB_SUBSCRIPTION ps) = Inr e"
      "AUTOMATION_OWNER_ID ps = Some owner" "enqueue_for_owner nlib C i t e owner st = (q, st')"
      "r = Inr () \<longleftrightarrow> (\<exists>b. q = Inr b)"
proof (cases "\<exists>claims owner body e. require_pubsub_push_auth ps lib (pr_authorization req) = Inr claims \<and> AUTOMATION_ENABLED ps \<and>
    AUTOMATION_OWNER_ID ps = Some owner \<and> bounded_body s lib req = Inr body \<and>
    parse_notification_envelope nlib s body (PUBSUB_SUBSCRIPTION ps) = Inr e")
  case True
  then obtain claims owner body e where p: "require_pubsub_push_auth ps lib (pr_authorization req) = Inr claims" "AUTOMATION_ENABLED ps"
    "AUTOMATION_OWNER_ID ps = Some owner" "bounded_body s lib req = Inr body"
    "parse_notification_envelope nlib s body (PUBSUB_SUBSCRIPTION ps) = Inr e" by blast
  obtain q d where q: "enqueue_for_owner nlib C i t e owner st = (q, d)" by fastforce
  have "read_chunks (PUBSUB_MAX_ENVELOPE_BYTES s) 0 (pr_chunks req) [] = Inr body"
    using p(4) by (simp add: bounded_body_def split: option.splits)
  from read_chunks_bounded [OF this] have b: "body = concat (pr_chunks req)" by simp
  have "st' = d \<and> (r = Inr () \<longleftrightarrow> (\<exists>b. q = Inr b))"
    using assms by (auto simp: notifications_route_def receive_gmail_notification_def p q split: sum.splits)
  with enqueued [OF p(1) p(5) [unfolded b] p(3)] q show thesis by blast
next
  case False
  then have "st' = st \<and> r \<noteq> Inr ()"
    using assms by (auto simp: notifications_route_def receive_gmail_notification_def split: sum.splits option.splits bool.splits)
  with refused show thesis by blast
qed

text \<open>
  C12. Pub/Sub is only told to forget a notification that is safely stored: when the route answers
  success, the push token was verified for the configured principal, the body is a valid envelope for
  the configured subscription, its mailbox is that of the stored connection of the automation owner,
  and the job table holds a job for its message; on any other answer no table of the notification
  service has changed. In either case stored jobs stay, and mailboxes and triage rows are untouched.
  The token table changes only in what loading the connection of the automation owner does to his own
  row, on any answer, and only after the push token and the envelope were accepted.
\<close>

theorem acknowledged_is_durable:
  assumes "notifications_route nlib lib C s ps i t req st = (r, st')"
  shows "(r = Inr () \<longrightarrow> (\<exists>claims e owner connection. require_pubsub_push_auth ps lib (pr_authorization req) = Inr claims \<and>
       parse_notification_envelope nlib s (concat (pr_chunks req)) (PUBSUB_SUBSCRIPTION ps) = Inr e \<and>
       AUTOMATION_OWNER_ID ps = Some owner \<and>
       fst (load_connected_google_connection (pc_lib C) (pc_codec C) (pc_nonce C) owner (pt_tokens st)) = Inr connection \<and>
       normalize_email nlib (Some (JStr (gc_google_email connection))) = Inr (ne_mailbox_email e) \<and>
       (\<exists>j\<in>set (jobs (pt_mail st')). nj_pubsub_message_id j = ne_pubsub_message_id e))) \<and>
    (r \<noteq> Inr () \<longrightarrow> pt_mail st' = pt_mail st) \<and>
    set (jobs (pt_mail st)) \<subseteq> set (jobs (pt_mail st')) \<and> mailboxes (pt_mail st') = mailboxes (pt_mail st) \<and>
    triage (pt_mail st') = triage (pt_mail st) \<and>
    (pt_tokens st' \<noteq> pt_tokens st \<longrightarrow> (\<exists>claims e owner. require_pubsub_push_auth ps lib (pr_authorization req) = Inr claims \<and>
       parse_notification_envelope nlib s (concat (pr_chunks req)) (PUBSUB_SUBSCRIPTION ps) = Inr e \<and>
       AUTOMATION_OWNER_ID ps = Some owner \<and>
       pt_tokens st' = snd (load_connected_google_connection (pc_lib C) (pc_codec C) (pc_nonce C) owner (pt_tokens st)) \<and>
       (\<forall>u. u \<noteq> owner \<longrightarrow> tbl_get at_user_id u (pt_tokens st') = tbl_get at_user_id u (pt_tokens st))))"
  using assms
proof (cases rule: route_cases)
  case (enqueued claims e owner q)
  note eff = enqueue_for_owner_effect [OF enqueued(4)]
  note tokens = eff [THEN conjunct1] and mail = eff [THEN conjunct2]
  have others: "\<forall>u. u \<noteq> owner \<longrightarrow> tbl_get at_user_id u (pt_tokens st') = tbl_get at_user_id u (pt_tokens st)"
    by (simp add: tokens load_frame)
  show ?thesis
  proof (intro conjI)
    show "r \<noteq> Inr () \<longrightarrow> pt_mail st' = pt_mail st" "set (jobs (pt_mail st)) \<subseteq> set (jobs (pt_mail st'))"
      "mailboxes (pt_mail st') = mailboxes (pt_mail st)" "triage (pt_mail st') = triage (pt_mail st)"
      using mail enqueued(5) by simp_all
  qed (use mail enqueued(1-3,5) tokens others in metis)+
qed simp

definition demo_push_settings :: push_settings where
  "demo_push_settings = \<lparr>PUBSUB_PUSH_AUDIENCE = Some ''aud'', PUBSUB_PUSH_SERVICE_ACCOUNT_EMAIL = Some ''sa@x'',
     PUBSUB_SUBSCRIPTION = Some ''sub'', AUTOMATION_ENABLED = True, AUTOMATION_OWNER_ID = Some 7\<rparr>"

definition demo_push_lib :: push_lib where
  "demo_push_lib = \<lparr>pl_verify = (\<lambda>t a. Inr (JObj [(''email'', JStr ''sa@x''), (''email_verified'', JBool True)])),
     pl_int = (\<lambda>l. Some 1)\<rparr>"

definition demo_push :: "nat list list \<Rightarrow> push_request" where
  "demo_push chunks = \<lparr>pr_authorization = Some ''Bearer tok'', pr_content_length = Some ''1'', pr_chunks = chunks\<rparr>"

text \<open>The connection of the owner as a row that still holds its token unencrypted.\<close>

definition demo_owner_token :: agent_token where
  "demo_owner_token = \<lparr>at_user_id = 7, at_user_email = None, at_token_json = Some toy_json, at_encrypted = None,
     at_key_id = None, at_format_version = None, at_google_email = Some ''o@x'', at_status = ConnConnected\<rparr>"

definition demo_push_credentials :: "unit push_credentials" where
  "demo_push_credentials = \<lparr>pc_lib = toy_cred_lib, pc_codec = Inr toy_codec, pc_nonce = toy_nonce\<rparr>"

abbreviation demo_push_route :: "nat list list \<Rightarrow> mail_db \<Rightarrow> (http_error + unit) \<times> push_tables" where
  "demo_push_route chunks db \<equiv> notifications_route demo_notify_lib demo_push_lib demo_push_credentials default_settings
     demo_push_settings 1 3 (demo_push chunks) \<lparr>pt_mail = db, pt_tokens = [demo_owner_token]\<rparr>"

lemma demo_owner_loads:
  "fst (load_connected_google_connection toy_cred_lib (Inr toy_codec) toy_nonce 7 [demo_owner_token]) =
     Inr \<lparr>gc_user_id = 7, gc_google_email = ''o@x'', gc_credentials = ()\<rparr>"
proof -
  have email: "legacy_email demo_owner_token = Some ''o@x''" by code_simp
  have "truthy (Some toy_json)" by (simp add: toy_json_def truthy_def)
  then have payload: "read_token_payload toy_cred_lib toy_codec demo_owner_token ''o@x'' = Inr (toy_json, True)"
    by (simp add: read_token_payload_def demo_owner_token_def text_or_empty_def token_value_def toy_valid)
  obtain e where "encrypt toy_codec_lib toy_codec toy_nonce toy_json 7 ''o@x'' = Inr e" using toy_encrypts by blast
  with email payload have "fst (load_row toy_cred_lib toy_codec toy_nonce demo_owner_token) = connected_load demo_owner_token ''o@x'' ()"
    by (simp add: load_row_def toy_accepts store_payload_def write_encrypted_token_def demo_owner_token_def)
       (simp add: toy_cred_lib_def)
  then show ?thesis
    by (cases "load_row toy_cred_lib toy_codec toy_nonce demo_owner_token")
       (simp add: load_connected_google_connection_def connected_load_def demo_owner_token_def)
qed

lemma demo_acknowledged: "fst (demo_push_route [[], [1]] demo_mail2) = Inr ()"
proof -
  have a: "require_pubsub_push_auth demo_push_settings demo_push_lib (pr_authorization (demo_push [[], [1]])) =
      Inr (JObj [(''email'', JStr ''sa@x''), (''email_verified'', JBool True)])" by code_simp
  have b: "bounded_body default_settings demo_push_lib (demo_push [[], [1]]) = Inr [1]" by code_simp
  have c: "parse_notification_envelope demo_notify_lib default_settings [1] (Some ''sub'') = Inr demo_envelope" by code_simp
  obtain tokens where l: "load_connected_google_connection toy_cred_lib (Inr toy_codec) toy_nonce 7 [demo_owner_token] =
      (Inr \<lparr>gc_user_id = 7, gc_google_email = ''o@x'', gc_credentials = ()\<rparr>, tokens)"
    using demo_owner_loads by (metis prod.collapse)
  show ?thesis
    unfolding notifications_route_def a receive_gmail_notification_def sum.case b
    by (simp add: demo_push_settings_def c [simplified] enqueue_for_owner_def demo_push_credentials_def l stored_address_def demo_enqueue [simplified])
qed

lemma acknowledged_is_durable_witness:
  "fst (demo_push_route [[], [1]] demo_mail2) = Inr () \<and>
   (\<exists>j\<in>set (jobs (pt_mail (snd (demo_push_route [[], [1]] demo_mail2)))). True)"
proof -
  have "demo_push_route [[], [1]] demo_mail2 = (Inr (), snd (demo_push_route [[], [1]] demo_mail2))"
    by (metis demo_acknowledged prod.collapse)
  from acknowledged_is_durable [OF this] demo_acknowledged show ?thesis by blast
qed

text \<open>
  A notification whose \<open>data\<close> is text outside ASCII is answered with 503 instead of the
  400 for invalid notifications, so Pub/Sub keeps redelivering a message that can never be accepted:
  the plain \<open>ValueError\<close> of the base64 decoder is not among the errors that the parser
  turns into a validation error.
\<close>

lemma malformed_notification_redelivered:
  "demo_push_route [[2]] db = (Inl (HttpError 503), \<lparr>pt_mail = db, pt_tokens = [demo_owner_token]\<rparr>)"
proof -
  have a: "require_pubsub_push_auth demo_push_settings demo_push_lib (pr_authorization (demo_push [[2]])) =
      Inr (JObj [(''email'', JStr ''sa@x''), (''email_verified'', JBool True)])" by code_simp
  have b: "bounded_body default_settings demo_push_lib (demo_push [[2]]) = Inr [2]" by code_simp
  show ?thesis
    unfolding notifications_route_def a receive_gmail_notification_def sum.case b
    by (simp add: demo_push_settings_def non_ascii_data_parse notification_http_error_def)
qed

end
