(* ===== verification/Mailbox.thy ===== *)
theory Mailbox
  imports Inbound Agent_Tools
begin

text \<open>
  Message details and pages for the API (\<open>server/services/mailbox.py\<close>,
  \<open>server/integrations/gmail.py\<close> and the date of \<open>server/mail/mime.py\<close>). The answers of
  the Google adapter are the parameter \<open>mail_provider\<close>: one list request, one batch request
  that calls back once per detail, and single detail requests.
\<close>

section \<open>Errors\<close>

datatype page_error = PageHttp int | PageUncaught | PageCancelled

definition rejected_http_status :: "int option \<Rightarrow> int" where
  "rejected_http_status code = (case code of Some n \<Rightarrow> if 400 \<le> n \<and> n < 500 then n else 502 | None \<Rightarrow> 502)"

definition mail_provider_http_error :: "google_error \<Rightarrow> int" where
  "mail_provider_http_error e =
     (case e of
        GoogleOperationTimeout \<Rightarrow> 504
      | GoogleOperationUnavailable _ _ \<Rightarrow> 503
      | GoogleOperationQuota _ _ \<Rightarrow> 503
      | GoogleOperationRejected c \<Rightarrow> rejected_http_status c
      | GoogleOperationAuthentication c \<Rightarrow> rejected_http_status c
      | GoogleOperationInternal \<Rightarrow> 502)"

definition execute_gmail_request :: "op_failure + 'a \<Rightarrow> page_error + 'a" where
  "execute_gmail_request r =
     (case r of
        Inr v \<Rightarrow> Inr v
      | Inl (GoogleFailure e) \<Rightarrow> Inl (PageHttp (mail_provider_http_error e))
      | Inl (Propagated _) \<Rightarrow> Inl PageCancelled)"

section \<open>One message\<close>

record date_lib =
  dl_parse :: "str \<Rightarrow> str option"
  dl_fromtimestamp :: "json option \<Rightarrow> str option"
  dl_now :: str

definition parse_message_date :: "date_lib \<Rightarrow> str option \<Rightarrow> json option \<Rightarrow> str" where
  "parse_message_date lib value internal_date =
     (let fallback = (case dl_fromtimestamp lib internal_date of Some d \<Rightarrow> d | None \<Rightarrow> dl_now lib) in
      case value of
        None \<Rightarrow> fallback
      | Some v \<Rightarrow> (case dl_parse lib (take MAX_HEADER_VALUE_CHARS v) of Some d \<Rightarrow> d | None \<Rightarrow> fallback))"

record email_detail =
  ed_id :: "json option"
  ed_thread_id :: "json option"
  ed_subject :: str
  ed_sender :: str
  ed_to :: "str list"
  ed_cc :: "str list"
  ed_snippet :: str
  ed_body :: str
  ed_sanitized_html :: "str option"
  ed_is_read :: bool
  ed_is_starred :: bool
  ed_labels :: json
  ed_date :: str

record email_list_item =
  li_id :: "json option"
  li_thread_id :: "json option"
  li_subject :: str
  li_sender :: str
  li_to :: "str list"
  li_snippet :: str
  li_is_read :: bool
  li_is_starred :: bool
  li_labels :: json
  li_date :: str

text \<open>A later header of the same name replaces the earlier one.\<close>

fun message_headers :: "json list \<Rightarrow> (str \<times> str) list \<Rightarrow> (str \<times> str) list" where
  "message_headers [] headers = headers"
| "message_headers (header # rest) headers =
     message_headers rest
       (case (jget ''name'' header, jget ''value'' header) of
          (Some (JStr name), Some (JStr value)) \<Rightarrow> (lower name, take MAX_HEADER_VALUE_CHARS value) # headers
        | _ \<Rightarrow> headers)"

text \<open>The operator \<open>in\<close> on a JSON value; \<open>None\<close> is the \<open>TypeError\<close>.\<close>

definition py_in :: "str \<Rightarrow> json \<Rightarrow> bool option" where
  "py_in s j =
     (case j of
        JArr js \<Rightarrow> Some (JStr s \<in> set js)
      | JStr t \<Rightarrow> Some (contains s t)
      | JObj kvs \<Rightarrow> Some (s \<in> fst ` set kvs)
      | _ \<Rightarrow> None)"

definition header_text :: "str \<Rightarrow> (str \<times> str) list \<Rightarrow> json option" where
  "header_text k headers = map_option JStr (map_of headers k)"

definition parse_message :: "mime_lib \<Rightarrow> date_lib \<Rightarrow> json \<Rightarrow> email_detail option" where
  "parse_message lib dl msg =
     (let payload = (case jget ''payload'' msg of Some (JObj kvs) \<Rightarrow> JObj kvs | _ \<Rightarrow> JObj []);
          labels = (case jget ''labelIds'' msg of Some l \<Rightarrow> l | None \<Rightarrow> JArr [])
      in case Option.bind (dict_get_or ''headers'' (JArr []) payload) py_iter of
           None \<Rightarrow> None
         | Some raw_headers \<Rightarrow>
             (case (extract_mail_content lib (Some payload), py_in ''UNREAD'' labels, py_in ''STARRED'' labels) of
                (Some content, Some unread, Some starred) \<Rightarrow>
                  let headers = message_headers raw_headers [];
                      safe_snippet = (case jget ''snippet'' msg of Some (JStr t) \<Rightarrow> take MAX_HEADER_VALUE_CHARS t | _ \<Rightarrow> []);
                      sender_fallback = (case map_of headers ''from'' of
                          Some f \<Rightarrow> if f = [] then ''Unknown Sender'' else f | None \<Rightarrow> ''Unknown Sender'')
                  in Some \<lparr>ed_id = jget ''id'' msg, ed_thread_id = jget ''threadId'' msg,
                       ed_subject = (case map_of headers ''subject'' of Some t \<Rightarrow> t | None \<Rightarrow> ''(No Subject)''),
                       ed_sender = first_recipient_address lib (header_text ''from'' headers) sender_fallback,
                       ed_to = parse_recipient_addresses lib (header_text ''to'' headers),
                       ed_cc = parse_recipient_addresses lib (header_text ''cc'' headers),
                       ed_snippet = safe_snippet,
                       ed_body = (if mc_body content = [] then safe_snippet else mc_body content),
                       ed_sanitized_html = mc_sanitized_html content,
                       ed_is_read = (\<not> unread), ed_is_starred = starred, ed_labels = labels,
                       ed_date = parse_message_date dl (map_of headers ''date'') (jget ''internalDate'' msg)\<rparr>
              | _ \<Rightarrow> None))"

definition to_email_list_item :: "email_detail \<Rightarrow> email_list_item" where
  "to_email_list_item e = \<lparr>li_id = ed_id e, li_thread_id = ed_thread_id e, li_subject = ed_subject e,
     li_sender = ed_sender e, li_to = ed_to e, li_snippet = ed_snippet e, li_is_read = ed_is_read e,
     li_is_starred = ed_is_starred e, li_labels = ed_labels e, li_date = ed_date e\<rparr>"

section \<open>One page\<close>

record mail_provider =
  mp_list :: "op_failure + json"
  mp_batch :: "str list \<Rightarrow> (str \<times> json option) list \<times> op_failure option"
  mp_get :: "str \<Rightarrow> op_failure + json"

text \<open>The ids of the listed metadata; \<open>None\<close> is the refusal of an entry without one.\<close>

definition metadata_id :: "json \<Rightarrow> str option" where
  "metadata_id m = (case jget ''id'' m of Some (JStr i) \<Rightarrow> Some i | _ \<Rightarrow> None)"

definition requested_message_ids :: "json list \<Rightarrow> str list option" where
  "requested_message_ids ms = traverse_opt metadata_id ms"

text \<open>\<open>parse_batch_response\<close>: a detail is filed under the id it carries.\<close>

definition parse_batch_response :: "str \<times> json option \<Rightarrow> (str \<times> json) list \<Rightarrow> (str \<times> json) list" where
  "parse_batch_response call details =
     (case snd call of
        Some (JObj kvs) \<Rightarrow> (case map_of kvs ''id'' of Some (JStr i) \<Rightarrow> (i, JObj kvs) # details | _ \<Rightarrow> details)
      | _ \<Rightarrow> details)"

fun retry_details :: "mail_provider \<Rightarrow> str list \<Rightarrow> (str \<times> json) list \<Rightarrow> page_error + (str \<times> json) list" where
  "retry_details mp [] details = Inr details"
| "retry_details mp (i # ids) details =
     (if map_of details i \<noteq> None then retry_details mp ids details
      else case execute_gmail_request (mp_get mp i) of
        Inl e \<Rightarrow> Inl e
      | Inr detail \<Rightarrow>
          if jget ''id'' detail \<noteq> Some (JStr i) then Inl (PageHttp 502)
          else retry_details mp ids ((i, detail) # details))"

definition page_details :: "mail_provider \<Rightarrow> str list \<Rightarrow> page_error + (str \<times> json) list" where
  "page_details mp ids =
     (case mp_batch mp ids of
        (calls, result) \<Rightarrow>
          (case execute_gmail_request (case result of None \<Rightarrow> Inr () | Some f \<Rightarrow> Inl f) of
             Inl PageCancelled \<Rightarrow> Inl PageCancelled
           | _ \<Rightarrow> retry_details mp ids (fold parse_batch_response calls [])))"

text \<open>Adding two requests with one id to a batch raises.\<close>

definition fetch_message_page ::
  "mime_lib \<Rightarrow> date_lib \<Rightarrow> mail_provider \<Rightarrow> nat \<Rightarrow> page_error + email_list_item list \<times> json option" where
  "fetch_message_page lib dl mp limit =
     (case execute_gmail_request (mp_list mp) of
        Inl e \<Rightarrow> Inl e
      | Inr response \<Rightarrow>
          (case dict_get_or ''messages'' (JArr []) response of
             None \<Rightarrow> Inl PageUncaught
           | Some (JArr (m # ms)) \<Rightarrow>
               (case requested_message_ids (take limit (m # ms)) of
                  None \<Rightarrow> Inl (PageHttp 502)
                | Some ids \<Rightarrow>
                    if \<not> distinct ids then Inl PageUncaught
                    else case page_details mp ids of
                      Inl e \<Rightarrow> Inl e
                    | Inr details \<Rightarrow>
                        (case traverse_opt (\<lambda>i. parse_message lib dl (the (map_of details i))) ids of
                           None \<Rightarrow> Inl PageUncaught
                         | Some emails \<Rightarrow> Inr (map to_email_list_item emails, jget ''nextPageToken'' response)))
           | Some _ \<Rightarrow> Inr ([], jget ''nextPageToken'' response)))"

definition search_emails ::
  "mime_lib \<Rightarrow> date_lib \<Rightarrow> mail_provider \<Rightarrow> nat \<Rightarrow> page_error + email_list_item list \<times> json option" where
  "search_emails lib dl mp limit =
     (case fetch_message_page lib dl mp limit of
        Inl PageUncaught \<Rightarrow> Inl (PageHttp 500)
      | r \<Rightarrow> r)"

section \<open>A page is exactly what was listed\<close>

definition filed :: "(str \<times> json) list \<Rightarrow> bool" where
  "filed details \<longleftrightarrow> (\<forall>i d. map_of details i = Some d \<longrightarrow> jget ''id'' d = Some (JStr i))"

lemma filed_batch: "filed details \<Longrightarrow> filed (parse_batch_response call details)"
  by (auto simp: filed_def parse_batch_response_def jget_def split: option.split json.split)

lemma filed_fold: "filed details \<Longrightarrow> filed (fold parse_batch_response calls details)"
  by (induction calls arbitrary: details) (simp_all add: filed_batch)

lemma retry_details_complete:
  "retry_details mp ids details = Inr out \<Longrightarrow> filed details \<Longrightarrow>
     filed out \<and> (\<forall>i\<in>set ids. map_of out i \<noteq> None) \<and> (\<forall>i. map_of details i \<noteq> None \<longrightarrow> map_of out i \<noteq> None)"
proof (induction mp ids details rule: retry_details.induct)
  case (2 mp i ids details)
  show ?case
  proof (cases "map_of details i = None")
    case False
    then show ?thesis using 2 by fastforce
  next
    case True
    then obtain d where d: "execute_gmail_request (mp_get mp i) = Inr d" "jget ''id'' d = Some (JStr i)"
      and r: "retry_details mp ids ((i, d) # details) = Inr out"
      using "2.prems"(1) by (auto split: sum.splits if_splits)
    have "filed ((i, d) # details)" using "2.prems"(2) d(2) by (simp add: filed_def)
    then show ?thesis using "2.IH"(2) [OF _ d(1) _ r] True d(2) by (auto split: if_splits)
  qed
qed simp

lemma page_details_complete:
  assumes "page_details mp ids = Inr out"
  shows "filed out \<and> (\<forall>i\<in>set ids. map_of out i \<noteq> None)"
proof -
  obtain calls result where b: "mp_batch mp ids = (calls, result)" by fastforce
  have "retry_details mp ids (fold parse_batch_response calls []) = Inr out"
    using assms by (auto simp: page_details_def b split: sum.splits page_error.splits)
  from retry_details_complete [OF this filed_fold] show ?thesis by (simp add: filed_def)
qed

lemma traverse_opt_map:
  "traverse_opt f xs = Some ys \<Longrightarrow> list_all2 (\<lambda>x y. f x = Some y) xs ys"
  by (induction xs arbitrary: ys) (auto split: option.splits)

lemma parse_message_id: "parse_message lib dl msg = Some e \<Longrightarrow> ed_id e = jget ''id'' msg"
  by (auto simp: parse_message_def Let_def split: option.splits)

lemma requested_ids: "requested_message_ids ms = Some ids \<Longrightarrow> map (jget ''id'') ms = map (Some \<circ> JStr) ids"
  unfolding requested_message_ids_def
  by (induction ms arbitrary: ids) (auto simp: metadata_id_def split: option.splits json.splits)

lemma parsed_ids:
  assumes "traverse_opt (\<lambda>i. parse_message lib dl (the (map_of details i))) ids = Some emails"
    and "filed details" and "\<forall>i\<in>set ids. map_of details i \<noteq> None"
  shows "map (li_id \<circ> to_email_list_item) emails = map (Some \<circ> JStr) ids"
  using traverse_opt_map [OF assms(1)] assms(3)
proof (induction rule: list_all2_induct)
  case (Cons i ids e es)
  obtain d where "map_of details i = Some d" using Cons.prems by auto
  moreover from this have "jget ''id'' d = Some (JStr i)" using assms(2) by (simp add: filed_def)
  ultimately show ?case using Cons parse_message_id [of lib dl d e] by (auto simp: to_email_list_item_def)
qed simp

text \<open>
  A page that is returned is exactly what Gmail listed: the items are those of the first
  \<open>limit\<close> listed messages, in the listed order, none missing, none twice and none
  replaced by the detail of another message, whether a detail came from the batch or from a retry; and
  the token for the next page is the one of the listing.
\<close>

lemma message_page_exact:
  assumes "fetch_message_page lib dl mp limit = Inr (emails, tok)"
  shows "\<exists>response. mp_list mp = Inr response \<and> tok = jget ''nextPageToken'' response \<and> length emails \<le> limit \<and>
    distinct (map li_id emails) \<and>
    (\<forall>ms. jget ''messages'' response = Some (JArr ms) \<longrightarrow> map li_id emails = map (jget ''id'') (take limit ms))"
proof -
  obtain response where r: "execute_gmail_request (mp_list mp) = Inr response"
    using assms by (auto simp: fetch_message_page_def split: sum.splits)
  then have l: "mp_list mp = Inr response"
    by (auto simp: execute_gmail_request_def split: sum.splits op_failure.splits)
  note run = assms [unfolded fetch_message_page_def r, simplified]
  obtain j where j: "dict_get_or ''messages'' (JArr []) response = Some j" using run by (auto split: option.splits)
  then have jm: "jget ''messages'' response = None \<and> j = JArr [] \<or> jget ''messages'' response = Some j"
    by (auto simp: dict_get_or_def split: if_splits option.splits)
  show ?thesis
  proof (cases "\<exists>m ms. j = JArr (m # ms)")
    case False
    then have "emails = [] \<and> tok = jget ''nextPageToken'' response" using run j by (auto split: json.splits list.splits)
    then show ?thesis using l jm False by (auto simp: neq_Nil_conv)
  next
    case True
    then obtain m ms where c: "j = JArr (m # ms)" by blast
    obtain ids where i: "requested_message_ids (take limit (m # ms)) = Some ids" using run j c by (auto split: option.splits)
    have d: "distinct ids" using run j c i by (auto split: if_splits)
    obtain details where p: "page_details mp ids = Inr details" using run j c i d by (auto split: sum.splits)
    obtain es where e: "traverse_opt (\<lambda>i. parse_message lib dl (the (map_of details i))) ids = Some es"
      using run j c i d p by (auto split: option.splits)
    have out: "emails = map to_email_list_item es" "tok = jget ''nextPageToken'' response" using run j c i d p e by auto
    note ids = parsed_ids [OF e] page_details_complete [OF p] requested_ids [OF i]
    have em: "map li_id emails = map (Some \<circ> JStr) ids" using ids(1,2) by (simp add: out comp_def)
    then have "distinct (map li_id emails)" using d by (simp add: distinct_map inj_on_def)
    moreover have "length emails \<le> limit" using arg_cong [OF em, of length] arg_cong [OF ids(3), of length] by simp
    moreover have "map li_id emails = map (jget ''id'') (take limit (m # ms))" using em ids(3) by simp
    ultimately show ?thesis using l out jm c by auto
  qed
qed

section \<open>A page with one malformed link\<close>

definition demo_date_lib :: date_lib where
  "demo_date_lib = \<lparr>dl_parse = (\<lambda>_. None), dl_fromtimestamp = (\<lambda>_. None), dl_now = ''now''\<rparr>"

definition demo_detail :: "str \<Rightarrow> json \<Rightarrow> json" where
  "demo_detail i payload = JObj [(''id'', JStr i), (''payload'', payload)]"

text \<open>Two listed messages; the batch answers the first one and fails for the second.\<close>

definition demo_provider :: "json \<Rightarrow> mail_provider" where
  "demo_provider payload = \<lparr>mp_list = Inr (JObj [(''messages'', JArr [JObj [(''id'', JStr ''a'')], JObj [(''id'', JStr ''b'')]])]),
     mp_batch = (\<lambda>ids. ([(''a'', Some (demo_detail ''a'' (JObj []))), (''b'', None)], None)),
     mp_get = (\<lambda>i. Inr (demo_detail i payload))\<rparr>"

lemma message_page_exact_witness:
  "\<exists>emails tok. fetch_message_page demo_mime_lib demo_date_lib (demo_provider (JObj [])) 5 = Inr (emails, tok) \<and>
     map li_id emails = [Some (JStr ''a''), Some (JStr ''b'')]"
proof -
  let ?r = "fetch_message_page demo_mime_lib demo_date_lib (demo_provider (JObj [])) 5"
  have "isl ?r = False" by code_simp
  then obtain emails tok where e: "?r = Inr (emails, tok)" by (cases ?r) auto
  from message_page_exact [OF this] show ?thesis
    using e by (auto simp: demo_provider_def jget_def)
qed

text \<open>
  One crafted message makes a whole page unreadable: a link whose host \<open>urlsplit\<close>
  rejects raises out of the sanitizer, so the search over two messages of which the other is
  harmless is answered with an internal error.
\<close>

lemma malformed_link_fails_page:
  "search_emails demo_mime_lib demo_date_lib (demo_provider demo_html_payload) 5 = Inl (PageHttp 500)"
proof -
  have p: "parse_message demo_mime_lib demo_date_lib (demo_detail ''b'' demo_html_payload) = None"
    using malformed_link_extract by (simp add: parse_message_def demo_detail_def jget_def demo_html_payload_def Let_def split: option.split)
  have d: "page_details (demo_provider demo_html_payload) [''a'', ''b''] =
      Inr [(''b'', demo_detail ''b'' demo_html_payload), (''a'', demo_detail ''a'' (JObj []))]"
    by code_simp
  have i: "requested_message_ids [JObj [(''id'', JStr ''a'')], JObj [(''id'', JStr ''b'')]] = Some [''a'', ''b'']" by code_simp
  have "fetch_message_page demo_mime_lib demo_date_lib (demo_provider demo_html_payload) 5 = Inl PageUncaught"
    unfolding fetch_message_page_def
    by (simp add: demo_provider_def execute_gmail_request_def dict_get_or_def is_jobj_def jget_def
        i [simplified] d [unfolded demo_provider_def] p split: option.split)
  then show ?thesis by (simp add: search_emails_def)
qed

end
