(* ===== verification/Mail_Routes.thy ===== *)
theory Mail_Routes
  imports Mailbox Redis_Safety
begin

text \<open>
  The mail endpoints of \<open>server/routes/google_mail.py\<close>: three cached reads (folder page,
  message detail, search page) and the mutations, which invalidate the user's cache. Gmail and the
  store share one state, on which other sessions act whenever the handler waits; \<open>re_pause\<close> is
  what they do at a suspension point. The main result is that the cache is transparent: as long as
  the mailbox does not change, a cached read answers what the uncached read would.
\<close>

section \<open>Responses as JSON\<close>

definition jopt :: "json option \<Rightarrow> json" where
  "jopt j = (case j of None \<Rightarrow> JNull | Some v \<Rightarrow> v)"

definition list_item_json :: "email_list_item \<Rightarrow> json" where
  "list_item_json e = JObj [(''id'', jopt (li_id e)), (''threadId'', jopt (li_thread_id e)), (''subject'', JStr (li_subject e)),
     (''sender'', JStr (li_sender e)), (''to'', JArr (map JStr (li_to e))), (''snippet'', JStr (li_snippet e)),
     (''is_read'', JBool (li_is_read e)), (''is_starred'', JBool (li_is_starred e)), (''labels'', li_labels e),
     (''date'', JStr (li_date e))]"

definition detail_json :: "email_detail \<Rightarrow> json" where
  "detail_json e = JObj [(''id'', jopt (ed_id e)), (''threadId'', jopt (ed_thread_id e)), (''subject'', JStr (ed_subject e)),
     (''sender'', JStr (ed_sender e)), (''to'', JArr (map JStr (ed_to e))), (''cc'', JArr (map JStr (ed_cc e))),
     (''snippet'', JStr (ed_snippet e)), (''body'', JStr (ed_body e)),
     (''sanitized_html'', (case ed_sanitized_html e of None \<Rightarrow> JNull | Some h \<Rightarrow> JStr h)),
     (''is_read'', JBool (ed_is_read e)), (''is_starred'', JBool (ed_is_starred e)), (''labels'', ed_labels e),
     (''date'', JStr (ed_date e))]"

definition page_json :: "email_list_item list \<times> json option \<Rightarrow> json" where
  "page_json p = JObj [(''emails'', JArr (map list_item_json (fst p))), (''next_page_token'', jopt (snd p))]"

section \<open>Environment\<close>

text \<open>
  The requests a route hands to the Gmail adapter. A page is fetched with several requests; its
  provider is chosen by the parameters of the list request.
\<close>

datatype route_request =
    GetMessage str
  | ModifyLabels str "str list" "str list"
  | TrashMessage str
  | UntrashMessage str
  | DeleteMessage str
  | SendMessage str
  | UpdateDraft str str
  | CreateDraft str
  | GetInboxLabel

record 's route_env =
  re_redis :: "'s redis"
  re_json :: json_lib
  re_sha256 :: "str \<Rightarrow> str"
  re_mime :: mime_lib
  re_dates :: date_lib
  re_raw :: "str \<Rightarrow> str \<Rightarrow> str \<Rightarrow> str option"
  re_pause :: "nat \<Rightarrow> 's \<Rightarrow> 's"
  re_pages :: "str \<Rightarrow> json \<Rightarrow> 's \<Rightarrow> mail_provider \<times> 's"
  re_gmail :: "str \<Rightarrow> route_request \<Rightarrow> operation_safety \<Rightarrow> 's \<Rightarrow> (op_failure + json) \<times> 's"

text \<open>The last handler of every route turns an unexpected exception into a 500 response.\<close>

definition route_error :: "page_error \<Rightarrow> page_error" where
  "route_error e = (case e of PageUncaught \<Rightarrow> PageHttp 500 | _ \<Rightarrow> e)"

section \<open>Cached reads\<close>

text \<open>The keyword arguments of the list request.\<close>

definition list_params :: "nat \<Rightarrow> str option \<Rightarrow> str list \<Rightarrow> str option \<Rightarrow> json" where
  "list_params limit page_token label_ids query = JObj
     ([(''userId'', JStr ''me''), (''maxResults'', JInt (int limit))] @
      (case page_token of Some t \<Rightarrow> if t = [] then [] else [(''pageToken'', JStr t)] | None \<Rightarrow> []) @
      (if label_ids = [] then [] else [(''labelIds'', JArr (map JStr label_ids))]) @
      (case query of Some q \<Rightarrow> if q = [] then [] else [(''q'', JStr q)] | None \<Rightarrow> []))"

definition label_map :: "str \<Rightarrow> str list option" where
  "label_map folder = map_of [(''inbox'', [''INBOX'']), (''sent'', [''SENT'']), (''spam'', [''SPAM'']), (''trash'', [''TRASH'']),
     (''starred'', [''STARRED'']), (''all'', [])] folder"

definition token_text :: "str option \<Rightarrow> str" where
  "token_text page_token = (case page_token of Some t \<Rightarrow> if t = [] then ''first'' else t | None \<Rightarrow> ''first'')"

definition page_namespace :: "(str \<Rightarrow> str) \<Rightarrow> str \<Rightarrow> nat \<Rightarrow> str option \<Rightarrow> str" where
  "page_namespace sha folder limit page_token =
     ''page:'' @ folder @ '':'' @ str_nat limit @ '':'' @ sha (token_text page_token)"

definition detail_namespace :: "str \<Rightarrow> str" where
  "detail_namespace email_id = ''detail:'' @ email_id"

definition search_namespace :: "(str \<Rightarrow> str) \<Rightarrow> str \<Rightarrow> nat \<Rightarrow> str option \<Rightarrow> str" where
  "search_namespace sha q limit page_token =
     ''search:'' @ sha q @ '':'' @ str_nat limit @ '':'' @ sha (token_text page_token)"

text \<open>The part the three reads share: key, lookup, and on a miss fetch and store.\<close>

definition read_through ::
  "'s route_env \<Rightarrow> str \<Rightarrow> str \<Rightarrow> (json option \<Rightarrow> bool) \<Rightarrow> int \<Rightarrow> ('s \<Rightarrow> (page_error + json) \<times> 's) \<Rightarrow> 's \<Rightarrow> (page_error + json) \<times> 's" where
  "read_through E user_id namespace serve ttl fetch s =
     (case user_mail_cache_key (re_redis E) user_id namespace (re_pause E 0 s) of
        (Inl _, s1) \<Rightarrow> (Inl PageCancelled, s1)
      | (Inr key, s1) \<Rightarrow>
          (case cache_get (re_json E) (re_redis E) key (re_pause E 1 s1) of
             (Inl _, s2) \<Rightarrow> (Inl PageCancelled, s2)
           | (Inr cached, s2) \<Rightarrow>
               (if serve cached then (Inr (jopt cached), s2)
                else (case fetch (re_pause E 2 s2) of
                        (Inl e, s3) \<Rightarrow> (Inl (route_error e), s3)
                      | (Inr result, s3) \<Rightarrow>
                          (case cache_set (re_json E) (re_redis E) key result ttl (re_pause E 3 s3) of
                             (Inl _, s4) \<Rightarrow> (Inl PageCancelled, s4)
                           | (Inr _, s4) \<Rightarrow> (Inr result, s4))))))"

definition is_dict :: "json option \<Rightarrow> bool" where
  "is_dict j = (case j of Some v \<Rightarrow> is_jobj v | None \<Rightarrow> False)"

definition query_token_ok :: "str option \<Rightarrow> bool" where
  "query_token_ok t = (case t of None \<Rightarrow> True | Some x \<Rightarrow> 1 \<le> length x \<and> length x \<le> 512)"

definition fetch_page :: "'s route_env \<Rightarrow> str \<Rightarrow> nat \<Rightarrow> str option \<Rightarrow> str list \<Rightarrow> 's \<Rightarrow> (page_error + json) \<times> 's" where
  "fetch_page E user_id limit page_token label_ids s =
     (case re_pages E user_id (list_params limit page_token label_ids None) s of
        (mp, s1) \<Rightarrow> (map_sum id page_json (fetch_message_page (re_mime E) (re_dates E) mp limit), s1))"

definition fetch_emails :: "'s route_env \<Rightarrow> str \<Rightarrow> str \<Rightarrow> nat \<Rightarrow> str option \<Rightarrow> 's \<Rightarrow> (page_error + json) \<times> 's" where
  "fetch_emails E user_id folder limit page_token s =
     (if \<not> (1 \<le> length folder \<and> length folder \<le> 32 \<and> 1 \<le> limit \<and> limit \<le> 100 \<and> query_token_ok page_token)
      then (Inl (PageHttp 422), s)
      else case label_map folder of
        None \<Rightarrow> (Inl (PageHttp 400), s)
      | Some label_ids \<Rightarrow>
          read_through E user_id (page_namespace (re_sha256 E) folder limit page_token) is_dict MAIL_PAGE_CACHE_TTL_SECONDS
            (fetch_page E user_id limit page_token label_ids) s)"

definition email_id_ok :: "str \<Rightarrow> bool" where
  "email_id_ok i = (1 \<le> length i \<and> length i \<le> 256 \<and> list_all is_alnum_id i)"

definition fetch_detail :: "'s route_env \<Rightarrow> str \<Rightarrow> str \<Rightarrow> 's \<Rightarrow> (page_error + json) \<times> 's" where
  "fetch_detail E user_id email_id s =
     (case re_gmail E user_id (GetMessage email_id) READ s of
        (r, s1) \<Rightarrow>
          (case execute_gmail_request r of
             Inl e \<Rightarrow> (Inl e, s1)
           | Inr msg \<Rightarrow>
               (case parse_message (re_mime E) (re_dates E) msg of
                  None \<Rightarrow> (Inl PageUncaught, s1)
                | Some e \<Rightarrow> (Inr (detail_json e), s1))))"

definition fetch_email_by_id :: "'s route_env \<Rightarrow> str \<Rightarrow> str \<Rightarrow> 's \<Rightarrow> (page_error + json) \<times> 's" where
  "fetch_email_by_id E user_id email_id s =
     (if \<not> email_id_ok email_id then (Inl (PageHttp 422), s)
      else read_through E user_id (detail_namespace email_id) truthy MAIL_DETAIL_CACHE_TTL_SECONDS
             (fetch_detail E user_id email_id) s)"

definition fetch_search :: "'s route_env \<Rightarrow> str \<Rightarrow> str \<Rightarrow> nat \<Rightarrow> str option \<Rightarrow> 's \<Rightarrow> (page_error + json) \<times> 's" where
  "fetch_search E user_id q limit page_token s =
     (case re_pages E user_id (list_params limit page_token [] (Some q)) s of
        (mp, s1) \<Rightarrow> (map_sum id page_json (search_emails (re_mime E) (re_dates E) mp limit), s1))"

definition search_endpoint :: "'s route_env \<Rightarrow> str \<Rightarrow> str \<Rightarrow> nat \<Rightarrow> str option \<Rightarrow> 's \<Rightarrow> (page_error + json) \<times> 's" where
  "search_endpoint E user_id q limit page_token s =
     (if \<not> (1 \<le> length q \<and> length q \<le> 512 \<and> 1 \<le> limit \<and> limit \<le> 100 \<and> query_token_ok page_token)
      then (Inl (PageHttp 422), s)
      else read_through E user_id (search_namespace (re_sha256 E) q limit page_token) is_dict MAIL_PAGE_CACHE_TTL_SECONDS
             (fetch_search E user_id q limit page_token) s)"

section \<open>Mutations\<close>

text \<open>One request to Gmail, then the invalidation, whose failure does not change the response.\<close>

definition mutate ::
  "'s route_env \<Rightarrow> str \<Rightarrow> route_request \<Rightarrow> operation_safety \<Rightarrow> (json \<Rightarrow> json option) \<Rightarrow> 's \<Rightarrow> (page_error + json) \<times> 's" where
  "mutate E user_id request safety respond s =
     (case re_gmail E user_id request safety s of
        (r, s1) \<Rightarrow>
          (case execute_gmail_request r of
             Inl e \<Rightarrow> (Inl (route_error e), s1)
           | Inr message \<Rightarrow>
               (case respond message of
                  None \<Rightarrow> (Inl (PageHttp 500), s1)
                | Some response \<Rightarrow>
                    (case invalidate_user_mail_cache (re_redis E) user_id (re_pause E 4 s1) of
                       (Inl _, s2) \<Rightarrow> (Inl PageCancelled, s2)
                     | (Inr _, s2) \<Rightarrow> (Inr response, s2)))))"

definition mutation_response :: "str \<Rightarrow> str \<Rightarrow> json" where
  "mutation_response email_id status = JObj [(''id'', JStr email_id), (''status'', JStr status)]"

definition mutate_email ::
  "'s route_env \<Rightarrow> str \<Rightarrow> str \<Rightarrow> route_request \<Rightarrow> operation_safety \<Rightarrow> json \<Rightarrow> 's \<Rightarrow> (page_error + json) \<times> 's" where
  "mutate_email E user_id email_id request safety response s =
     (if \<not> email_id_ok email_id then (Inl (PageHttp 422), s)
      else mutate E user_id request safety (\<lambda>_. Some response) s)"

definition mark_as_read :: "'s route_env \<Rightarrow> str \<Rightarrow> str \<Rightarrow> 's \<Rightarrow> (page_error + json) \<times> 's" where
  "mark_as_read E user_id email_id =
     mutate_email E user_id email_id (ModifyLabels email_id [] [''UNREAD'']) IDEMPOTENT_WRITE
       (mutation_response email_id ''marked as read'')"

definition mark_as_unread :: "'s route_env \<Rightarrow> str \<Rightarrow> str \<Rightarrow> 's \<Rightarrow> (page_error + json) \<times> 's" where
  "mark_as_unread E user_id email_id =
     mutate_email E user_id email_id (ModifyLabels email_id [''UNREAD''] []) IDEMPOTENT_WRITE
       (mutation_response email_id ''marked as unread'')"

definition move_to_trash :: "'s route_env \<Rightarrow> str \<Rightarrow> str \<Rightarrow> 's \<Rightarrow> (page_error + json) \<times> 's" where
  "move_to_trash E user_id email_id =
     mutate_email E user_id email_id (TrashMessage email_id) AMBIGUOUS_WRITE (mutation_response email_id ''moved to trash'')"

definition restore_from_trash :: "'s route_env \<Rightarrow> str \<Rightarrow> str \<Rightarrow> 's \<Rightarrow> (page_error + json) \<times> 's" where
  "restore_from_trash E user_id email_id =
     mutate_email E user_id email_id (UntrashMessage email_id) AMBIGUOUS_WRITE (mutation_response email_id ''restored from trash'')"

definition delete_email :: "'s route_env \<Rightarrow> str \<Rightarrow> str \<Rightarrow> 's \<Rightarrow> (page_error + json) \<times> 's" where
  "delete_email E user_id email_id =
     mutate_email E user_id email_id (DeleteMessage email_id) AMBIGUOUS_WRITE (mutation_response email_id ''permanently deleted'')"

definition set_star_state :: "'s route_env \<Rightarrow> str \<Rightarrow> bool \<Rightarrow> str \<Rightarrow> 's \<Rightarrow> (page_error + json) \<times> 's" where
  "set_star_state E user_id starred email_id =
     mutate_email E user_id email_id
       (if starred then ModifyLabels email_id [''STARRED''] [] else ModifyLabels email_id [] [''STARRED'']) IDEMPOTENT_WRITE
       (JObj [(''id'', JStr email_id), (''status'', JStr (if starred then ''starred'' else ''unstarred'')), (''action'', JStr ''set'')])"

record email_draft =
  dr_to :: "str list"
  dr_subject :: str
  dr_body :: str
  dr_draft_id :: "str option"

definition draft_raw :: "'s route_env \<Rightarrow> email_draft \<Rightarrow> str option" where
  "draft_raw E email = re_raw E (dr_body email) (join '', '' (dr_to email)) (dr_subject email)"

text \<open>\<open>message.get\<close> raises on anything but a dictionary, after the mail has been sent.\<close>

definition send_email_api :: "'s route_env \<Rightarrow> str \<Rightarrow> email_draft \<Rightarrow> 's \<Rightarrow> (page_error + json) \<times> 's" where
  "send_email_api E user_id email s =
     (case draft_raw E email of
        None \<Rightarrow> (Inl (PageHttp 500), s)
      | Some raw \<Rightarrow>
          mutate E user_id (SendMessage raw) AMBIGUOUS_WRITE
            (\<lambda>message. if is_jobj message then Some (JObj [(''id'', jopt (jget ''id'' message)), (''status'', JStr ''sent'')]) else None) s)"

definition save_draft_api :: "'s route_env \<Rightarrow> str \<Rightarrow> email_draft \<Rightarrow> 's \<Rightarrow> (page_error + json) \<times> 's" where
  "save_draft_api E user_id email s =
     (case draft_raw E email of
        None \<Rightarrow> (Inl (PageHttp 500), s)
      | Some raw \<Rightarrow>
          (let (request, status) = (case dr_draft_id email of
                 Some i \<Rightarrow> if i = [] then (CreateDraft raw, ''draft saved'') else (UpdateDraft i raw, ''draft updated'')
               | None \<Rightarrow> (CreateDraft raw, ''draft saved''))
           in case re_gmail E user_id request AMBIGUOUS_WRITE s of
                (r, s1) \<Rightarrow>
                  (case execute_gmail_request r of
                     Inl e \<Rightarrow> (Inl (route_error e), s1)
                   | Inr draft \<Rightarrow>
                       (case jget ''id'' draft of
                          None \<Rightarrow> (Inl (PageHttp 500), s1)
                        | Some i \<Rightarrow> (Inr (JObj [(''id'', i), (''status'', JStr status), (''draft_id'', i)]), s1)))))"

definition check_inbox_api :: "'s route_env \<Rightarrow> str \<Rightarrow> 's \<Rightarrow> (page_error + json) \<times> 's" where
  "check_inbox_api E user_id s =
     (case re_gmail E user_id GetInboxLabel READ s of
        (r, s1) \<Rightarrow>
          (case execute_gmail_request r of
             Inl e \<Rightarrow> (Inl (route_error e), s1)
           | Inr response \<Rightarrow>
               (case dict_get_or ''messagesTotal'' (JInt 0) response of
                  None \<Rightarrow> (Inl (PageHttp 500), s1)
                | Some n \<Rightarrow> (Inr (JObj [(''status'', JStr ''checked''), (''inbox_message_count_estimate'', n)]), s1))))"

section \<open>Transparency of the cache\<close>

datatype mail_read =
    ReadPage str nat "str option"
  | ReadDetail str
  | ReadSearch str nat "str option"

fun read_route :: "'s route_env \<Rightarrow> str \<Rightarrow> mail_read \<Rightarrow> 's \<Rightarrow> (page_error + json) \<times> 's" where
  "read_route E u (ReadPage folder limit tok) s = fetch_emails E u folder limit tok s"
| "read_route E u (ReadDetail i) s = fetch_email_by_id E u i s"
| "read_route E u (ReadSearch q limit tok) s = search_endpoint E u q limit tok s"

fun uncached :: "'s route_env \<Rightarrow> str \<Rightarrow> mail_read \<Rightarrow> 's \<Rightarrow> (page_error + json) \<times> 's" where
  "uncached E u (ReadPage folder limit tok) s = fetch_page E u limit tok (the (label_map folder)) s"
| "uncached E u (ReadDetail i) s = fetch_detail E u i s"
| "uncached E u (ReadSearch q limit tok) s = fetch_search E u q limit tok s"

fun namespace_of :: "(str \<Rightarrow> str) \<Rightarrow> mail_read \<Rightarrow> str" where
  "namespace_of sha (ReadPage folder limit tok) = page_namespace sha folder limit tok"
| "namespace_of sha (ReadDetail i) = detail_namespace i"
| "namespace_of sha (ReadSearch q limit tok) = search_namespace sha q limit tok"

text \<open>
  The requests that the routes accept, with tokens and queries from a set \<open>T\<close> of texts. The token
  \<open>first\<close> is excluded, because its key is that of the request without a token.
\<close>

fun admissible :: "str set \<Rightarrow> mail_read \<Rightarrow> bool" where
  "admissible T (ReadPage folder limit tok) =
     (label_map folder \<noteq> None \<and> 1 \<le> limit \<and> limit \<le> 100 \<and> query_token_ok tok \<and> tok \<noteq> Some ''first'' \<and> token_text tok \<in> T)"
| "admissible T (ReadDetail i) = email_id_ok i"
| "admissible T (ReadSearch q limit tok) =
     (1 \<le> length q \<and> length q \<le> 512 \<and> q \<in> T \<and> 1 \<le> limit \<and> limit \<le> 100 \<and> query_token_ok tok \<and> tok \<noteq> Some ''first'' \<and> token_text tok \<in> T)"

text \<open>Hexadecimal digests of different texts of \<open>T\<close> differ.\<close>

definition collision_free :: "(str \<Rightarrow> str) \<Rightarrow> str set \<Rightarrow> bool" where
  "collision_free sha T = (inj_on sha T \<and> (\<forall>x \<in> T. colon_free (sha x)))"

text \<open>The mailbox does not change: an uncached read gives the same answer in every state.\<close>

definition stable_mailbox :: "'s route_env \<Rightarrow> (str \<Rightarrow> mail_read \<Rightarrow> page_error + json) \<Rightarrow> bool" where
  "stable_mailbox E answer = (\<forall>u r s. fst (uncached E u r s) = answer u r)"

definition answers_round_trip :: "json_lib \<Rightarrow> (str \<Rightarrow> mail_read \<Rightarrow> page_error + json) \<Rightarrow> bool" where
  "answers_round_trip J answer = (\<forall>u r j raw. answer u r = Inr j \<and> jl_dumps J j = Some raw \<longrightarrow>
     raw \<noteq> [] \<and> jl_loads J raw = Some j)"

text \<open>Operations on the store that write nothing but answers to the cache.\<close>

definition right_op :: "(str \<Rightarrow> str) \<Rightarrow> str set \<Rightarrow> (str \<Rightarrow> mail_read \<Rightarrow> page_error + json) \<Rightarrow> store_op \<Rightarrow> bool" where
  "right_op sha T answer x = (case x of
      OpCacheSet u g ns v _ \<Rightarrow> colon_free u \<and> 0 \<le> g \<and> (\<exists>r. admissible T r \<and> ns = namespace_of sha r \<and> answer u r = Inr v)
    | OpInvalidate u \<Rightarrow> colon_free u
    | _ \<Rightarrow> True)"

definition follows :: "'s route_env \<Rightarrow> str set \<Rightarrow> (str \<Rightarrow> mail_read \<Rightarrow> page_error + json) \<Rightarrow> 's \<Rightarrow> 's \<Rightarrow> bool" where
  "follows E T answer s s' =
     (\<exists>xs. list_all (right_op (re_sha256 E) T answer) xs \<and> s' = snd (run_ops (re_json E) (re_redis E) xs s))"

definition readers_only :: "'s route_env \<Rightarrow> str set \<Rightarrow> (str \<Rightarrow> mail_read \<Rightarrow> page_error + json) \<Rightarrow> bool" where
  "readers_only E T answer =
     ((\<forall>n s. follows E T answer s (re_pause E n s)) \<and> (\<forall>u r s. follows E T answer s (snd (uncached E u r s))))"

lemma run_ops_step: "snd (run_ops J R (x # xs) s) = snd (run_ops J R xs (snd (perform J R x s)))"
  by (simp add: Let_def split: prod.splits)

lemma run_ops_append: "snd (run_ops J R (xs @ ys) s) = snd (run_ops J R ys (snd (run_ops J R xs s)))"
  by (induction xs arbitrary: s) (simp_all only: append.simps run_ops_step run_ops.simps(1) snd_conv)

lemma follows_refl: "follows E T answer s s"
  unfolding follows_def by (rule exI [of _ "[]"]) simp

lemma follows_trans: "follows E T answer s s1 \<Longrightarrow> follows E T answer s1 s2 \<Longrightarrow> follows E T answer s s2"
  unfolding follows_def by (metis list_all_append run_ops_append)

lemma follows_op: "right_op (re_sha256 E) T answer x \<Longrightarrow> follows E T answer s (snd (perform (re_json E) (re_redis E) x s))"
  unfolding follows_def by (rule exI [of _ "[x]"]) (simp add: Let_def split: prod.splits)

subsection \<open>Keys identify requests\<close>

lemma label_map_colon_free: "label_map folder \<noteq> None \<Longrightarrow> colon_free folder"
  by (auto simp: label_map_def colon_free_def split: if_splits)

lemma token_text_inj:
  "query_token_ok t \<Longrightarrow> query_token_ok t' \<Longrightarrow> t \<noteq> Some ''first'' \<Longrightarrow> t' \<noteq> Some ''first'' \<Longrightarrow> token_text t = token_text t' \<Longrightarrow> t = t'"
  by (auto simp: token_text_def query_token_ok_def split: option.splits if_splits)

lemma str_nat_inj: "str_nat m = str_nat n \<longleftrightarrow> m = n"
  by (metis int_of_decimal_str_nat)

lemma page_namespace_parts:
  assumes "colon_free f" and "colon_free f'" and "f @ '':'' @ str_nat n @ '':'' @ h = f' @ '':'' @ str_nat n' @ '':'' @ h'"
  shows "f = f' \<and> n = n' \<and> h = h'"
proof -
  have f: "f = f' \<and> str_nat n @ CHR '':'' # h = str_nat n' @ CHR '':'' # h'"
    using split_at_colon [OF assms(1,2), of "str_nat n @ CHR '':'' # h" "str_nat n' @ CHR '':'' # h'"] assms(3) by simp
  then have "str_nat n = str_nat n' \<and> h = h'" using split_at_colon [OF str_nat_colon_free str_nat_colon_free] by blast
  then show ?thesis using f by (simp add: str_nat_inj)
qed

lemma namespace_inj:
  assumes "collision_free sha T" and "admissible T r" and "admissible T r'" and "namespace_of sha r = namespace_of sha r'"
  shows "r = r'"
proof -
  have sha: "x = y" if "sha x = sha y" "x \<in> T" "y \<in> T" for x y
    using assms(1) that by (auto simp: collision_free_def dest: inj_onD)
  have free: "colon_free (sha x)" if "x \<in> T" for x using assms(1) that by (simp add: collision_free_def)
  have pages: "f = f' \<and> n = n' \<and> t = t'" if "f @ '':'' @ str_nat n @ '':'' @ sha (token_text t) = f' @ '':'' @ str_nat n' @ '':'' @ sha (token_text t')"
    and "colon_free f" "colon_free f'" "query_token_ok t" "query_token_ok t'" "t \<noteq> Some ''first''" "t' \<noteq> Some ''first''" "token_text t \<in> T" "token_text t' \<in> T"
    for f f' n n' t t'
  proof -
    have "f = f' \<and> n = n' \<and> sha (token_text t) = sha (token_text t')" using page_namespace_parts that(1-3) by blast
    then show ?thesis using sha token_text_inj that(4-9) by blast
  qed
  show ?thesis
  proof (cases r)
    case (ReadPage f n t)
    then obtain f' n' t' where r': "r' = ReadPage f' n' t'"
      using assms(4) by (cases r') (auto simp: page_namespace_def detail_namespace_def search_namespace_def)
    show ?thesis using pages [of f n t f' n' t'] ReadPage r' assms(2-4) label_map_colon_free
      by (simp add: page_namespace_def)
  next
    case (ReadDetail i)
    then show ?thesis
      using assms(4) by (cases r') (auto simp: page_namespace_def detail_namespace_def search_namespace_def)
  next
    case (ReadSearch q n t)
    then obtain q' n' t' where r': "r' = ReadSearch q' n' t'"
      using assms(4) by (cases r') (auto simp: page_namespace_def detail_namespace_def search_namespace_def)
    show ?thesis using pages [of "sha q" n t "sha q'" n' t'] ReadSearch r' assms(2-4) free sha [of q q']
      by (simp add: search_namespace_def)
  qed
qed

lemma mail_key_inj:
  assumes "colon_free u" and "colon_free w" and "0 \<le> g" and "0 \<le> h" and "mail_key u g ns = mail_key w h ns'"
  shows "u = w \<and> g = h \<and> ns = ns'"
proof -
  have "u = w" using split_at_colon [OF assms(1,2)] assms(5) by (auto simp: mail_key_def)
  moreover from this have "g = h" using mail_key_generation [OF assms(1,3,4)] assms(5) by simp
  ultimately show ?thesis using assms(5) by (simp add: mail_key_def)
qed

subsection \<open>The cache holds answers\<close>

definition cache_right :: "'s route_env \<Rightarrow> str set \<Rightarrow> (str \<Rightarrow> mail_read \<Rightarrow> page_error + json) \<Rightarrow> 's \<Rightarrow> bool" where
  "cache_right E T answer s =
     (\<forall>u g r raw e. colon_free u \<and> 0 \<le> g \<and> admissible T r \<and>
        view (re_redis E) s (mail_key u g (namespace_of (re_sha256 E) r)) = Some (raw, e) \<longrightarrow>
        (\<exists>j. answer u r = Inr j \<and> jl_dumps (re_json E) j = Some raw))"

lemma cache_set_view:
  assumes "documented_redis R" and "view R (snd (cache_set J R k v ttl s)) k = Some (raw, e)"
  shows "view R s k = Some (raw, e) \<or> jl_dumps J v = Some raw"
proof (cases "jl_dumps J v")
  case None
  then show ?thesis using assms(2) by (simp add: cache_set_state)
next
  case (Some raw')
  define s' where "s' = snd (redis_setex R k ttl raw' s)"
  have s': "view R s' k = Some (raw, e)" using assms(2) Some by (simp add: cache_set_state s'_def)
  have "passes R s s' \<or> (\<exists>v. happened R (cmd_setex k ttl raw') s v s')"
    using redis_outcomes(2) [OF assms(1), of k ttl raw' s] unfolding outcome_def s'_def by (auto split: prod.splits sum.splits)
  then show ?thesis
  proof
    assume "passes R s s'"
    then show ?thesis using passes_view [of R s s' k] s' by (metis alive_SomeD)
  next
    assume "\<exists>v. happened R (cmd_setex k ttl raw') s v s'"
    then obtain v where h: "happened R (cmd_setex k ttl raw') s v s'" by blast
    show ?thesis using happened_setex(2) [OF h] s' Some by (auto dest: alive_SomeD split: if_splits)
  qed
qed

lemma cache_delete_view:
  assumes "documented_redis R" and "view R (snd (cache_delete R j s)) k = Some (raw, e)"
  shows "view R s k = Some (raw, e)"
proof -
  define s' where "s' = snd (redis_delete R [j] s)"
  have s': "view R s' k = Some (raw, e)" using assms(2) by (simp add: cache_other_states s'_def)
  have "passes R s s' \<or> (\<exists>v. happened R (cmd_delete [j]) s v s')"
    using redis_outcomes(3) [OF assms(1), of j s] unfolding outcome_def s'_def by (auto split: prod.splits sum.splits)
  then have "view R s' k = alive (rd_now R s') (view R s k) \<or> view R s' k = None"
    using passes_view happened_delete by metis
  then show ?thesis using s' by (metis alive_SomeD option.distinct(1))
qed

lemma state_key_not_mail: "mail_key u g ns \<noteq> state_key state"
  by (simp add: mail_key_def state_key_def)

lemma perform_right:
  assumes "documented_redis (re_redis E)" and "collision_free (re_sha256 E) T" and "cache_right E T answer s"
    and "right_op (re_sha256 E) T answer x"
  shows "cache_right E T answer (snd (perform (re_json E) (re_redis E) x s))"
  unfolding cache_right_def
proof (intro allI impI, elim conjE)
  fix u g r raw e
  let ?k = "mail_key u g (namespace_of (re_sha256 E) r)" and ?s' = "snd (perform (re_json E) (re_redis E) x s)"
  assume u: "colon_free u" "0 \<le> g" "admissible T r" and v: "view (re_redis E) ?s' ?k = Some (raw, e)"
  have before: "\<exists>j. answer u r = Inr j \<and> jl_dumps (re_json E) j = Some raw" if "view (re_redis E) s ?k = Some (raw, e)"
    using that assms(3) u unfolding cache_right_def by blast
  show "\<exists>j. answer u r = Inr j \<and> jl_dumps (re_json E) j = Some raw"
  proof (cases "?k \<in> touched x")
    case False
    then show ?thesis using perform_keeps [OF assms(1) False, of s "re_json E"] v before
      unfolding undisturbed_def by (metis alive_SomeD)
  next
    case True
    then consider (set) w h ns j ttl where "x = OpCacheSet w h ns j ttl" "?k = mail_key w h ns"
      | (delete) w h ns where "x = OpCacheDelete w h ns"
    proof (cases x)
      case (OpInvalidate w)
      then show ?thesis using True assms(4) mail_key_not_generation [OF u(1)] by (simp add: right_op_def)
    qed (use True in \<open>auto simp: state_key_not_mail\<close>)
    then show ?thesis
    proof cases
      case set
      then obtain r' where r': "colon_free w" "0 \<le> h" "admissible T r'" "ns = namespace_of (re_sha256 E) r'" "answer w r' = Inr j"
        using assms(4) by (auto simp: right_op_def)
      have "w = u \<and> ns = namespace_of (re_sha256 E) r" using mail_key_inj [OF r'(1) u(1) r'(2) u(2) set(2) [symmetric]] by simp
      then have "w = u" "r' = r" using namespace_inj [OF assms(2) r'(3) u(3)] r'(4) by auto
      moreover have "view (re_redis E) s ?k = Some (raw, e) \<or> jl_dumps (re_json E) j = Some raw"
        using cache_set_view [OF assms(1), of "re_json E" ?k j ttl s raw e] v set by simp
      ultimately show ?thesis using before r'(5) by blast
    next
      case delete
      then have "view (re_redis E) s ?k = Some (raw, e)"
        using cache_delete_view [OF assms(1), of "mail_key w h ns" s ?k raw e] v by simp
      then show ?thesis by (rule before)
    qed
  qed
qed

lemma follows_right:
  assumes "documented_redis (re_redis E)" and "collision_free (re_sha256 E) T" and "cache_right E T answer s"
    and "follows E T answer s s'"
  shows "cache_right E T answer s'"
proof -
  obtain xs where "list_all (right_op (re_sha256 E) T answer) xs" and s': "s' = snd (run_ops (re_json E) (re_redis E) xs s)"
    using assms(4) unfolding follows_def by blast
  then show ?thesis using assms(3)
  proof (induction xs arbitrary: s)
    case (Cons x xs)
    then show ?case using perform_right [OF assms(1,2)] by (simp add: run_ops_step del: run_ops.simps)
  qed simp
qed

lemma store_empty_right: "store_empty (re_redis E) s \<Longrightarrow> cache_right E T answer s"
  by (simp add: cache_right_def)

subsection \<open>Reading through the cache\<close>

lemma read_generation_nonneg: "0 \<le> read_generation v"
  by (simp add: read_generation_def split: option.splits)

lemma cache_key_made:
  assumes "user_mail_cache_key R u ns s = (Inr k, s')"
  shows "\<exists>g. 0 \<le> g \<and> k = mail_key u g ns" and "s' = snd (perform J R (OpGeneration u) s)"
  using assms read_generation_nonneg
  by (auto simp: user_mail_cache_key_def get_user_mail_cache_generation_def
      split: prod.splits sum.splits redis_error.splits)

lemma cache_key_state: "snd (user_mail_cache_key R u ns s) = snd (perform J R (OpGeneration u) s)"
  by (auto simp: user_mail_cache_key_def split: prod.splits sum.splits)

lemma cache_get_hit:
  assumes "documented_redis R" and "cache_get J R k s = (Inr (Some j), s')"
  shows "\<exists>raw e. view R s k = Some (raw, e) \<and> jl_loads J raw = Some j"
proof -
  obtain data where d: "redis_get R k s = (Inr data, s')" "cached_value J data = Some j"
    using assms(2) by (auto simp: cache_get_def split: prod.splits sum.splits redis_error.splits)
  then obtain raw where raw: "data = Some raw" "jl_loads J raw = Some j"
    by (auto simp: cached_value_def split: option.splits if_splits json.splits)
  have h: "happened R (cmd_get k) s data s'" using redis_outcomes(1) [OF assms(1), of k s] d(1) by (simp add: outcome_def)
  obtain t where "Some raw = map_option fst (alive t (view R s k))" using happened_get(2) [OF h] raw(1) by metis
  then obtain e where "alive t (view R s k) = Some (raw, e)" by (cases "alive t (view R s k)") auto
  then show ?thesis using raw(2) by (blast dest: alive_SomeD)
qed

lemma read_through_transparent:
  assumes doc: "documented_redis (re_redis E)" and cf: "collision_free (re_sha256 E) T" and right: "cache_right E T answer s"
    and json: "answers_round_trip (re_json E) answer" and stable: "stable_mailbox E answer" and only: "readers_only E T answer"
    and u: "colon_free u" and r: "admissible T r" and serve: "\<not> serve None"
    and run: "read_through E u (namespace_of (re_sha256 E) r) serve ttl (uncached E u r) s = (out, s')"
  shows "(out = map_sum route_error id (answer u r) \<or> out = Inl PageCancelled) \<and> follows E T answer s s'"
proof -
  let ?R = "re_redis E" and ?J = "re_json E" and ?ns = "namespace_of (re_sha256 E) r"
  note trans = follows_trans [of E T answer s]
  have pause: "follows E T answer s (re_pause E n s1)" if "follows E T answer s s1" for n s1
    using trans [OF that] only by (simp add: readers_only_def)
  have op: "follows E T answer s (snd (perform ?J ?R x s1))" if "follows E T answer s s1" "right_op (re_sha256 E) T answer x" for x s1
    using trans [OF that(1) follows_op [OF that(2)]] .
  have still: "cache_right E T answer s1" if "follows E T answer s s1" for s1
    using follows_right [OF doc cf right that] .
  define s0 where "s0 = re_pause E 0 s"
  have f0: "follows E T answer s s0" unfolding s0_def by (rule pause [OF follows_refl])
  obtain k s1 where key: "user_mail_cache_key ?R u ?ns s0 = (k, s1)" by fastforce
  have f1: "follows E T answer s (re_pause E 1 s1)"
    using pause [OF op [OF f0, of "OpGeneration u"]] cache_key_state [of ?R u ?ns s0 ?J] key by (simp add: right_op_def)
  show ?thesis
  proof (cases k)
    case (Inl c)
    then show ?thesis using run key s0_def cache_key_state [of ?R u ?ns s0 ?J] op [OF f0, of "OpGeneration u"]
      by (auto simp: read_through_def right_op_def)
  next
    case (Inr key')
    then obtain g where g: "0 \<le> g" "key' = mail_key u g ?ns" using cache_key_made(1) [OF key [unfolded Inr]] by blast
    obtain c s2 where get: "cache_get ?J ?R key' (re_pause E 1 s1) = (c, s2)" by fastforce
    have f2: "follows E T answer s s2"
      using op [OF f1, of "OpCacheGet u g ?ns"] get g by (simp add: right_op_def)
    show ?thesis
    proof (cases c)
      case (Inl e)
      then show ?thesis using run key get Inr f2 by (simp add: read_through_def s0_def)
    next
      case c: (Inr cached)
      show ?thesis
      proof (cases "serve cached")
        case True
        then obtain j where j: "cached = Some j" using serve by (cases cached) auto
        obtain raw e where v: "view ?R (re_pause E 1 s1) key' = Some (raw, e)" "jl_loads ?J raw = Some j"
          using cache_get_hit [OF doc] get c j by blast
        then obtain j' where "answer u r = Inr j'" "jl_dumps ?J j' = Some raw"
          using still [OF f1] u g r unfolding cache_right_def by blast
        then have hit: "map_sum route_error id (answer u r) = Inr j" using json v(2) unfolding answers_round_trip_def by fastforce
        have "out = Inr j \<and> s' = s2" using run key get Inr c True j by (simp add: read_through_def s0_def jopt_def)
        then show ?thesis using hit f2 by simp
      next
        case False
        obtain a s3 where fetch: "uncached E u r (re_pause E 2 s2) = (a, s3)" by fastforce
        have a: "a = answer u r" using stable fetch unfolding stable_mailbox_def by (metis fst_conv)
        have f3: "follows E T answer s s3"
          using trans [OF pause [OF f2]] only fetch unfolding readers_only_def by (metis snd_conv)
        show ?thesis
        proof (cases a)
          case (Inl e)
          then show ?thesis using run key get Inr c False fetch a f3 by (simp add: read_through_def s0_def)
        next
          case j: (Inr j)
          have ok: "right_op (re_sha256 E) T answer (OpCacheSet u g ?ns j ttl)"
            using u g r a j by (auto simp: right_op_def)
          show ?thesis
            using run key get Inr c False fetch a j g op [OF pause [OF f3, of 3] ok]
            by (auto simp: read_through_def s0_def split: prod.splits sum.splits)
        qed
      qed
    qed
  qed
qed

lemma uncached_eqs:
  "label_map folder = Some labels \<Longrightarrow> uncached E u (ReadPage folder limit tok) = fetch_page E u limit tok labels"
  "uncached E u (ReadDetail i) = fetch_detail E u i"
  "uncached E u (ReadSearch q limit tok) = fetch_search E u q limit tok"
  by (simp_all add: fun_eq_iff)

lemma read_route_through:
  assumes "admissible T r"
  shows "\<exists>serve ttl. \<not> serve None \<and>
    read_route E u r s = read_through E u (namespace_of (re_sha256 E) r) serve ttl (uncached E u r) s"
proof (cases r)
  case (ReadPage folder limit tok)
  then obtain labels where l: "label_map folder = Some labels" using assms by auto
  then have "1 \<le> length folder \<and> length folder \<le> 32" by (auto simp: label_map_def split: if_splits)
  then have "read_route E u r s = read_through E u (namespace_of (re_sha256 E) r) is_dict MAIL_PAGE_CACHE_TTL_SECONDS (uncached E u r) s"
    using ReadPage assms l by (simp add: fetch_emails_def uncached_eqs)
  then show ?thesis by (intro exI [of _ is_dict]) (auto simp: is_dict_def)
next
  case (ReadDetail i)
  then have "read_route E u r s = read_through E u (namespace_of (re_sha256 E) r) truthy MAIL_DETAIL_CACHE_TTL_SECONDS (uncached E u r) s"
    using assms by (simp add: fetch_email_by_id_def uncached_eqs)
  then show ?thesis by (intro exI [of _ truthy]) (auto simp: truthy_def)
next
  case (ReadSearch q limit tok)
  then have "read_route E u r s = read_through E u (namespace_of (re_sha256 E) r) is_dict MAIL_PAGE_CACHE_TTL_SECONDS (uncached E u r) s"
    using assms by (simp add: search_endpoint_def uncached_eqs)
  then show ?thesis by (intro exI [of _ is_dict]) (auto simp: is_dict_def)
qed

text \<open>
  C20. The mail cache is transparent to all reads but those with the page token \<open>first\<close>.
  Start from an empty store and let sessions create and consume OAuth states, invalidate caches and
  read mail in any interleaving, with any faults of Redis, none of them with that page token. While
  the mailbox does not change and the digests of the texts in use do not collide, every accepted read
  (folder page, message detail, search page) with another page token or none answers exactly what the
  same read without a cache would answer, unless it is cancelled; and it leaves a store for which the
  same holds. A read with the token \<open>first\<close> shares the cache key of the read without a token.
\<close>

theorem cached_reads_transparent:
  assumes "documented_redis (re_redis E)" and "collision_free (re_sha256 E) T"
    and "answers_round_trip (re_json E) answer" and "stable_mailbox E answer" and "readers_only E T answer"
    and "store_empty (re_redis E) s0" and "follows E T answer s0 s"
    and "colon_free u" and "admissible T r" and "read_route E u r s = (out, s')"
  shows "(out = map_sum route_error id (answer u r) \<or> out = Inl PageCancelled) \<and> follows E T answer s0 s'"
proof -
  have right: "cache_right E T answer s"
    using follows_right [OF assms(1,2) store_empty_right [OF assms(6)] assms(7)] .
  obtain serve ttl where "\<not> serve None"
    and "read_through E u (namespace_of (re_sha256 E) r) serve ttl (uncached E u r) s = (out, s')"
    using read_route_through [OF assms(9)] assms(10) by metis
  from read_through_transparent [OF assms(1,2) right assms(3,4,5,8,9) this]
  show ?thesis using follows_trans [OF assms(7)] by blast
qed

section \<open>A concrete environment\<close>

definition plain_provider :: "op_failure + json \<Rightarrow> mail_provider" where
  "plain_provider r = \<lparr>mp_list = r, mp_batch = (\<lambda>_. ([], None)), mp_get = (\<lambda>_. Inr (JObj []))\<rparr>"

text \<open>An empty mailbox; Gmail refuses every page token.\<close>

definition empty_page :: json where
  "empty_page = page_json ([], None)"

definition demo_pages :: json_lib where
  "demo_pages = \<lparr>jl_dumps = (\<lambda>j. if j = empty_page then Some ''P'' else None),
     jl_loads = (\<lambda>raw. if raw = ''P'' then Some empty_page else None)\<rparr>"

definition demo_route_env :: "demo_store route_env" where
  "demo_route_env = \<lparr>re_redis = demo_redis, re_json = demo_pages, re_sha256 = (\<lambda>x. x), re_mime = demo_mime_lib, re_dates = demo_date_lib,
     re_raw = (\<lambda>_ _ _. None), re_pause = (\<lambda>_ s. s),
     re_pages = (\<lambda>_ params s. (plain_provider (if jget ''pageToken'' params = None then Inr (JObj [])
                                              else Inl (GoogleFailure (GoogleOperationRejected (Some 400)))), s)),
     re_gmail = (\<lambda>_ _ _ s. (Inl (GoogleFailure GoogleOperationInternal), s))\<rparr>"

definition mailbox_answer :: "str \<Rightarrow> mail_read \<Rightarrow> page_error + json" where
  "mailbox_answer u r = fst (uncached demo_route_env u r (demo_start []))"

lemma demo_route_simps [simp]:
  "re_redis demo_route_env = demo_redis" "re_json demo_route_env = demo_pages" "re_sha256 demo_route_env = (\<lambda>x. x)"
  "re_pause demo_route_env n s = s"
  by (simp_all add: demo_route_env_def)

lemma demo_uncached: "uncached demo_route_env u r s = (mailbox_answer u r, s)"
  by (cases r) (auto simp: mailbox_answer_def fetch_page_def fetch_detail_def fetch_search_def demo_route_env_def
      execute_gmail_request_def)

lemma demo_stable: "stable_mailbox demo_route_env mailbox_answer"
  by (simp add: stable_mailbox_def demo_uncached)

lemma demo_readers: "readers_only demo_route_env T mailbox_answer"
  by (simp add: readers_only_def demo_uncached follows_refl)

lemma demo_answers_round_trip: "answers_round_trip demo_pages mailbox_answer"
  by (simp add: answers_round_trip_def demo_pages_def)

lemma demo_collision_free: "collision_free (\<lambda>x. x) {''first''}"
  by (simp add: collision_free_def colon_free_def)

theorem cached_reads_transparent_witness:
  "fst (read_route demo_route_env ''7'' (ReadPage ''inbox'' 5 None)
     (snd (read_route demo_route_env ''7'' (ReadPage ''inbox'' 5 None) (demo_start [])))) = Inr empty_page"
proof -
  let ?r = "ReadPage ''inbox'' 5 None" and ?E = demo_route_env
  obtain out1 s1 where r1: "read_route ?E ''7'' ?r (demo_start []) = (out1, s1)" by (meson surj_pair)
  obtain out2 s2 where r2: "read_route ?E ''7'' ?r s1 = (out2, s2)" by (meson surj_pair)
  have ok: "admissible {''first''} ?r" "colon_free ''7''"
    by (simp_all add: label_map_def query_token_ok_def token_text_def colon_free_def)
  note transparent = cached_reads_transparent [of ?E "{''first''}" mailbox_answer "demo_start []",
      simplified demo_route_simps, OF demo_documented demo_collision_free demo_answers_round_trip demo_stable demo_readers demo_empty]
  have "follows ?E {''first''} mailbox_answer (demo_start []) s1"
    using transparent [OF follows_refl ok(2,1) r1] by simp
  from transparent [OF this ok(2,1) r2]
  have "out2 = map_sum route_error id (mailbox_answer ''7'' ?r) \<or> out2 = Inl PageCancelled" by simp
  moreover have "mailbox_answer ''7'' ?r = Inr empty_page" by code_simp
  moreover have "fst (read_route ?E ''7'' ?r (snd (read_route ?E ''7'' ?r (demo_start [])))) \<noteq> Inl PageCancelled" by code_simp
  ultimately show ?thesis using r1 r2 by auto
qed

text \<open>
  The key of a page does not identify the request: the token \<open>first\<close> is cached under the key
  of the request without a token. Gmail refuses that token, and so does the route at first; once the
  first page has been read, the route answers the refused request with the first page.
\<close>

lemma first_token_served_from_cache:
  "fst (fetch_emails demo_route_env ''7'' ''inbox'' 5 (Some ''first'') (demo_start [])) = Inl (PageHttp 400) \<and>
   fst (fetch_emails demo_route_env ''7'' ''inbox'' 5 (Some ''first'')
     (snd (fetch_emails demo_route_env ''7'' ''inbox'' 5 None (demo_start [])))) = Inr empty_page"
  by (rule conjI; code_simp)

end
