(* ===== verification/Identity.thy ===== *)
theory Identity
  imports Credentials Redis_Safety Push_Router
begin

text \<open>
  Who is acting: the principal of a verified JWT (\<open>server/auth.py\<close>) and the dependencies that
  resolve the principal's Google connection (\<open>server/services/setup_google.py\<close>). The reading of
  a UUID is computed exactly; verifying a JWT and building an API client are library parameters.
\<close>

section \<open>Reading a UUID\<close>

text \<open>\<open>str.replace\<close> with the empty string: leftmost occurrences, not overlapping.\<close>

function remove_all :: "str \<Rightarrow> str \<Rightarrow> str" where
  "remove_all p s =
     (if s = [] then []
      else if p \<noteq> [] \<and> starts_with p s then remove_all p (drop (length p) s)
      else hd s # remove_all p (tl s))"
  by pat_completeness auto
termination by (relation "measure (\<lambda>(p, s). length s)") auto

declare remove_all.simps [simp del]

definition strip_braces :: "str \<Rightarrow> str" where
  "strip_braces s = (let brace = (\<lambda>c. c = CHR ''{'' \<or> c = CHR ''}'') in rev (dropWhile brace (rev (dropWhile brace s))))"

definition hex_value :: "char \<Rightarrow> nat option" where
  "hex_value c = (let n = of_char c in
     if 48 \<le> n \<and> n \<le> 57 then Some (n - 48)
     else if 97 \<le> n \<and> n \<le> 102 then Some (n - 87)
     else if 65 \<le> n \<and> n \<le> 70 then Some (n - 55)
     else None)"

definition is_hex :: "char \<Rightarrow> bool" where
  "is_hex c = (hex_value c \<noteq> None)"

definition hex_number :: "str \<Rightarrow> nat" where
  "hex_number s = foldl (\<lambda>n c. n * 16 + the (hex_value c)) 0 s"

text \<open>Digits with single underscores between them, or after the prefix.\<close>

definition hex_digits :: "bool \<Rightarrow> str \<Rightarrow> nat option" where
  "hex_digits prefixed r =
     (if r \<noteq> [] \<and> (prefixed \<or> hd r \<noteq> CHR ''_'') \<and> last r \<noteq> CHR ''_'' \<and>
         list_all (\<lambda>c. is_hex c \<or> c = CHR ''_'') r \<and> \<not> contains ''__'' r
      then Some (hex_number (filter is_hex r)) else None)"

text \<open>Python's \<open>int\<close> with base 16.\<close>

definition unsigned16 :: "str \<Rightarrow> nat option" where
  "unsigned16 r = (if starts_with ''0x'' r \<or> starts_with ''0X'' r then hex_digits True (drop 2 r) else hex_digits False r)"

definition int16 :: "str \<Rightarrow> int option" where
  "int16 v = (case strip v of
      [] \<Rightarrow> None
    | c # r \<Rightarrow>
        (if c = CHR ''-'' then map_option (\<lambda>n. - int n) (unsigned16 r)
         else if c = CHR ''+'' then map_option int (unsigned16 r)
         else map_option int (unsigned16 (c # r))))"

definition uuid_of_text :: "str \<Rightarrow> uuid option" where
  "uuid_of_text t =
     (let h = filter (\<lambda>c. c \<noteq> CHR ''-'') (strip_braces (remove_all ''uuid:'' (remove_all ''urn:'' t))) in
      if length h \<noteq> 32 then None
      else case int16 h of None \<Rightarrow> None | Some n \<Rightarrow> (if 0 \<le> n \<and> n < 2 ^ 128 then Some (nat n) else None))"

section \<open>Principals\<close>

text \<open>Claims behind read-only views: mappings, tuples and plain values.\<close>

datatype frozen = FrozenMapping "(str \<times> frozen) list" | FrozenTuple "frozen list" | FrozenValue json

fun freeze_claim_value :: "json \<Rightarrow> frozen" where
  "freeze_claim_value (JObj kvs) = FrozenMapping (map (\<lambda>kv. (fst kv, freeze_claim_value (snd kv))) kvs)"
| "freeze_claim_value (JArr js) = FrozenTuple (map freeze_claim_value js)"
| "freeze_claim_value v = FrozenValue v"

record principal =
  pr_user_id :: uuid
  pr_email :: str
  pr_claims :: frozen

definition normalize_email_claim :: "json option \<Rightarrow> str option" where
  "normalize_email_claim v = (case v of
      Some (JStr t) \<Rightarrow> (let normalized = casefold (strip t) in if normalized = [] then None else Some normalized)
    | _ \<Rightarrow> None)"

definition parse_subject :: "json option \<Rightarrow> uuid option" where
  "parse_subject v = (case v of
      Some (JStr t) \<Rightarrow> (if strip t = [] then None else uuid_of_text (strip t))
    | _ \<Rightarrow> None)"

definition from_verified_claims :: "json \<Rightarrow> principal option" where
  "from_verified_claims claims =
     (case (parse_subject (jget ''sub'' claims), normalize_email_claim (jget ''email'' claims)) of
        (Some user_id, Some email) \<Rightarrow>
          Some \<lparr>pr_user_id = user_id, pr_email = email, pr_claims = freeze_claim_value claims\<rparr>
      | _ \<Rightarrow> None)"

text \<open>Keyed access: the two keys of \<open>__getitem__\<close>; there is no \<open>get\<close>.\<close>

datatype principal_value = PrincipalId uuid | PrincipalEmail str

definition principal_getitem :: "principal \<Rightarrow> str \<Rightarrow> principal_value option" where
  "principal_getitem p key =
     (if key = ''user_id'' then Some (PrincipalId (pr_user_id p))
      else if key = ''email'' then Some (PrincipalEmail (pr_email p))
      else None)"

section \<open>Dependencies\<close>

text \<open>What \<open>jwt.decode\<close> is asked to check.\<close>

record jwt_request =
  jw_secret_key :: str
  jw_algorithms :: "str list"
  jw_audience :: str
  jw_issuer :: str
  jw_require_exp :: bool

record jwt_settings =
  js_secret_key :: str
  js_algorithm :: str
  js_audience :: str
  js_issuer :: str

text \<open>\<open>au_decode\<close> is \<open>None\<close> when \<open>jwt.decode\<close> raises; \<open>au_build\<close> is \<open>None\<close> when no client can be built.\<close>

record ('c, 'v) auth_lib =
  au_decode :: "jwt_request \<Rightarrow> str \<Rightarrow> json option"
  au_build :: "str \<Rightarrow> str \<Rightarrow> 'c \<Rightarrow> 'v option"

definition jwt_request_of :: "jwt_settings \<Rightarrow> jwt_request" where
  "jwt_request_of st = \<lparr>jw_secret_key = js_secret_key st, jw_algorithms = [js_algorithm st], jw_audience = js_audience st,
     jw_issuer = js_issuer st, jw_require_exp = True\<rparr>"

text \<open>\<open>creds\<close> is the bearer token of the request, if there is one. Every failure is a 401.\<close>

definition get_current_user_info :: "('c, 'v) auth_lib \<Rightarrow> jwt_settings \<Rightarrow> str option \<Rightarrow> http_error + principal" where
  "get_current_user_info A st creds =
     (case creds of
        None \<Rightarrow> Inl (HttpError 401)
      | Some token \<Rightarrow>
          (if strip token = [] then Inl (HttpError 401)
           else case au_decode A (jwt_request_of st) token of
             None \<Rightarrow> Inl (HttpError 401)
           | Some payload \<Rightarrow> (case from_verified_claims payload of None \<Rightarrow> Inl (HttpError 401) | Some p \<Rightarrow> Inr p)))"

text \<open>An error that no handler expects is answered by the framework with 500.\<close>

definition credential_http_error :: "credential_error \<Rightarrow> http_error" where
  "credential_http_error e = (case e of
      GoogleReconnectRequired \<Rightarrow> HttpError 409
    | CredentialEncryptionUnavailable \<Rightarrow> HttpError 503
    | GoogleCredentialsUnavailable \<Rightarrow> HttpError 503
    | LifecycleCancelled \<Rightarrow> RequestCancelled
    | _ \<Rightarrow> HttpError 500)"

definition get_connected_google_connection ::
  "'c cred_lib \<Rightarrow> credential_error + codec \<Rightarrow> bytes \<Rightarrow> principal \<Rightarrow> token_db \<Rightarrow> (http_error + 'c google_connection) \<times> token_db" where
  "get_connected_google_connection L codec_result nonce p db =
     (case load_connected_google_connection L codec_result nonce (pr_user_id p) db of
        (Inl e, db') \<Rightarrow> (Inl (credential_http_error e), db')
      | (Inr connection, db') \<Rightarrow> (Inr connection, db'))"

definition build_google_api_service ::
  "('c, 'v) auth_lib \<Rightarrow> 'c google_connection \<Rightarrow> str \<Rightarrow> str \<Rightarrow> credential_error + 'v" where
  "build_google_api_service A connection service_name version =
     (case au_build A service_name version (gc_credentials connection) of
        None \<Rightarrow> Inl GoogleCredentialsUnavailable
      | Some service \<Rightarrow> Inr service)"

definition build_service :: "('c, 'v) auth_lib \<Rightarrow> 'c google_connection \<Rightarrow> str \<Rightarrow> str \<Rightarrow> http_error + 'v" where
  "build_service A connection service_name version =
     map_sum credential_http_error id (build_google_api_service A connection service_name version)"

definition get_gmail_service :: "('c, 'v) auth_lib \<Rightarrow> 'c google_connection \<Rightarrow> http_error + 'v" where
  "get_gmail_service A connection = build_service A connection ''gmail'' ''v1''"

definition get_calendar_service :: "('c, 'v) auth_lib \<Rightarrow> 'c google_connection \<Rightarrow> http_error + 'v" where
  "get_calendar_service A connection = build_service A connection ''calendar'' ''v3''"

definition get_tasks_service :: "('c, 'v) auth_lib \<Rightarrow> 'c google_connection \<Rightarrow> http_error + 'v" where
  "get_tasks_service A connection = build_service A connection ''tasks'' ''v1''"

section \<open>A UUID survives its text\<close>

lemma starts_with_subset: "starts_with p s \<Longrightarrow> set p \<subseteq> set s"
  by (induction p s rule: starts_with.induct) auto

lemma contains_subset: "contains p s \<Longrightarrow> set p \<subseteq> set s"
  using starts_with_subset by (induction p s rule: contains.induct) fastforce+

lemma remove_all_absent: "c \<in> set p \<Longrightarrow> c \<notin> set s \<Longrightarrow> remove_all p s = s"
proof (induction s)
  case (Cons x s)
  have "\<not> starts_with p (x # s)" using starts_with_subset [of p "x # s"] Cons.prems by blast
  then show ?case using Cons by (subst remove_all.simps) simp
qed (simp add: remove_all.simps)

lemma hex_value_char: "d < 16 \<Longrightarrow> hex_value (hex_char d) = Some d"
  using hex_char_code [of d] by (auto simp: hex_value_def Let_def)

lemma hex_text_chars: "c \<in> set (hex_text k n) \<Longrightarrow> \<exists>d < 16. c = hex_char d"
proof (induction k arbitrary: n)
  case (Suc k)
  have "n mod 16 < 16" by simp
  moreover have "c = hex_char (n mod 16) \<or> c \<in> set (hex_text k (n div 16))" using Suc.prems by auto
  ultimately show ?case using Suc.IH by blast
qed simp

lemma hex_number_text: "n < 16 ^ k \<Longrightarrow> hex_number (hex_text k n) = n"
proof (induction k arbitrary: n)
  case (Suc k)
  have "hex_number (hex_text k (n div 16)) = n div 16"
    using Suc.prems by (intro Suc.IH) (auto simp: less_mult_imp_div_less mult.commute)
  then show ?case by (simp add: hex_number_def hex_value_char)
qed (simp add: hex_number_def)

lemma hex_not_space: "is_hex c \<Longrightarrow> \<not> is_space c"
  by (auto simp: is_hex_def hex_value_def is_space_def Let_def split: if_splits)

lemma not_hex: "c \<in> set ''urn:id{}-_xX+'' \<Longrightarrow> c \<noteq> CHR ''d'' \<Longrightarrow> \<not> is_hex c"
  by (auto simp: is_hex_def hex_value_def)

lemma hex_text_hex: "c \<in> set (hex_text k n) \<Longrightarrow> is_hex c"
  using hex_text_chars [of c k n] hex_value_char by (auto simp: is_hex_def)

lemma hex_text_free: "c \<in> set ''urn:id{}-_xX+'' \<Longrightarrow> c \<noteq> CHR ''d'' \<Longrightarrow> c \<notin> set (hex_text k n)"
  using not_hex hex_text_hex by blast

lemma uuid_text_chars: "c \<in> set (uuid_text u) \<Longrightarrow> is_hex c \<or> c = CHR ''-''"
  using hex_text_hex [of c 32 u] by (auto simp: uuid_text_def Let_def dest!: in_set_takeD in_set_dropD)

lemma uuid_text_digits: "filter (\<lambda>c. c \<noteq> CHR ''-'') (uuid_text u) = hex_text 32 u"
proof -
  let ?h = "hex_text 32 u" and ?f = "filter (\<lambda>c. c \<noteq> CHR ''-'')"
  have all: "c \<noteq> CHR ''-''" if "c \<in> set ?h" for c using that hex_text_free [of "CHR ''-''" 32 u] by auto
  have "?f (take i ?h) = take i ?h" "?f (drop i ?h) = drop i ?h" "?f (take j (drop i ?h)) = take j (drop i ?h)" for i j
    using all by (auto simp: filter_id_conv dest!: in_set_takeD in_set_dropD)
  then show ?thesis using five_groups [of ?h] by (simp add: uuid_text_def Let_def)
qed

lemma dropWhile_head: "s \<noteq> [] \<Longrightarrow> \<not> P (hd s) \<Longrightarrow> dropWhile P s = s"
  by (cases s) auto

lemma strip_braces_absent: "CHR ''{'' \<notin> set s \<Longrightarrow> CHR ''}'' \<notin> set s \<Longrightarrow> strip_braces s = s"
proof (cases "s = []")
  case False
  assume "CHR ''{'' \<notin> set s" "CHR ''}'' \<notin> set s"
  then have "hd s \<noteq> CHR ''{''" "hd s \<noteq> CHR ''}''" "hd (rev s) \<noteq> CHR ''{''" "hd (rev s) \<noteq> CHR ''}''"
    using False hd_in_set [of s] last_in_set [of s] unfolding hd_rev by metis+
  then show ?thesis using False by (simp add: strip_braces_def Let_def dropWhile_head)
qed (simp add: strip_braces_def)

lemma int16_hex_text:
  assumes "u < 2 ^ 128"
  shows "int16 (hex_text 32 u) = Some (int u)"
proof -
  let ?h = "hex_text 32 u"
  have free: "c \<notin> set ?h" if "c \<in> set ''urn:id{}-_xX+''" "c \<noteq> CHR ''d''" for c using hex_text_free [OF that] .
  have ne: "?h \<noteq> []" using length_hex_text [of 32 u] by (metis length_0_conv zero_neq_numeral)
  obtain c r where h: "?h = c # r" using ne by (cases ?h) auto
  have "strip ?h = ?h" using hex_text_hex hex_not_space by (intro strip_no_space) (auto simp: list_ex_iff)
  moreover have "c \<noteq> CHR ''-''" "c \<noteq> CHR ''+''" using free [of "CHR ''-''"] free [of "CHR ''+''"] h by auto
  moreover have "\<not> starts_with ''0x'' ?h" "\<not> starts_with ''0X'' ?h"
    using starts_with_subset [of "''0x''" ?h] starts_with_subset [of "''0X''" ?h] free [of "CHR ''x''"] free [of "CHR ''X''"] by auto
  moreover have "hex_digits False ?h = Some u"
  proof -
    have "CHR ''_'' \<notin> set ?h" using free by simp
    then have "hd ?h \<noteq> CHR ''_''" "last ?h \<noteq> CHR ''_''" "\<not> contains ''__'' ?h"
      using hd_in_set [OF ne] last_in_set [OF ne] contains_subset by fastforce+
    moreover have "filter is_hex ?h = ?h" using hex_text_hex by (auto simp: filter_id_conv)
    moreover have "hex_number ?h = u" using assms by (intro hex_number_text) simp
    ultimately show ?thesis using ne hex_text_hex by (simp add: hex_digits_def list_all_iff)
  qed
  ultimately have "strip (c # r) = c # r" "c \<noteq> CHR ''-''" "c \<noteq> CHR ''+''" "unsigned16 (c # r) = Some u"
    unfolding h [symmetric] by (simp_all add: unsigned16_def)
  then show ?thesis unfolding h by (simp add: int16_def)
qed

lemma uuid_text_free: "c \<in> set ''urn:i{}_xX+'' \<Longrightarrow> c \<notin> set (uuid_text u)"
proof -
  assume c: "c \<in> set ''urn:i{}_xX+''"
  then have "\<not> is_hex c" by (auto simp: is_hex_def hex_value_def)
  moreover have "c \<noteq> CHR ''-''" using c by auto
  ultimately show ?thesis using uuid_text_chars by blast
qed

lemma uuid_of_text_text:
  assumes "u < 2 ^ 128"
  shows "uuid_of_text (uuid_text u) = Some u"
proof -
  have colon: "CHR '':'' \<notin> set (uuid_text u)" by (rule uuid_text_free) simp
  have "remove_all ''urn:'' (uuid_text u) = uuid_text u" "remove_all ''uuid:'' (uuid_text u) = uuid_text u"
    by (rule remove_all_absent [OF _ colon], simp)+
  moreover have "strip_braces (uuid_text u) = uuid_text u"
    by (rule strip_braces_absent; rule uuid_text_free; simp)
  moreover have "0 \<le> int u \<and> int u < 2 ^ 128 \<and> nat (int u) = u" using assms by simp
  ultimately show ?thesis
    unfolding uuid_of_text_def Let_def by (simp only: uuid_text_digits length_hex_text int16_hex_text [OF assms] option.case simp_thms if_False if_True)
qed

lemma strip_uuid_text: "strip (uuid_text u) = uuid_text u"
  using uuid_text_chars hex_not_space by (intro strip_no_space) (fastforce simp: list_ex_iff is_space_def)

lemma uuid_text_nonempty: "uuid_text u \<noteq> []"
  using length_uuid_text [of u] by auto

lemma uuid_of_text_bound: "uuid_of_text t = Some u \<Longrightarrow> u < 2 ^ 128"
  by (auto simp: uuid_of_text_def Let_def split: if_splits option.splits)

lemma claim_normalized: "normalize_email_claim v = Some e \<Longrightarrow> normalize_account_email e = Some e"
  using normalize_account_email_idem
  by (fastforce simp: normalize_email_claim_def normalize_account_email_def Let_def split: option.splits json.splits if_splits)

lemma principal_normal:
  assumes "get_current_user_info A st creds = Inr p"
  shows "pr_user_id p < 2 ^ 128" and "normalize_account_email (pr_email p) = Some (pr_email p)"
  using assms uuid_of_text_bound normalize_account_email_idem claim_normalized
  by (auto simp: get_current_user_info_def from_verified_claims_def parse_subject_def
      split: option.splits if_splits json.splits)

end
