(* ===== verification/OAuth_Routes.thy ===== *)
theory OAuth_Routes
  imports Identity Credential_Safety
begin

text \<open>
  The OAuth endpoints of \<open>server/routes/agent_oauth.py\<close>, each with the dependencies it declares,
  over the shared store of one-time states and the table of connections. They are composed into runs
  of arbitrary requests by arbitrary callers; the main result says where a connection comes from.
\<close>

section \<open>Responses\<close>

text \<open>A redirect carries the query parameters appended to the configured address of the frontend.\<close>

datatype oauth_response = RedirectTo "(str \<times> str) list" | Responded json | Refused http_error

definition frontend_redirect :: "str \<Rightarrow> str \<Rightarrow> uuid option \<Rightarrow> oauth_response" where
  "frontend_redirect status_value error_message user_id =
     RedirectTo ([(''status'', status_value)] @
       (if error_message = [] then [] else [(''error_message'', error_message)]) @
       (case user_id of None \<Rightarrow> [] | Some u \<Rightarrow> [(''user_id'', uuid_text u)]))"

definition failure_redirect :: "str \<Rightarrow> oauth_response" where
  "failure_redirect message = frontend_redirect ''failure'' message None"

section \<open>Environment\<close>

datatype url_outcome = UrlBuilt str | UrlFailed | UrlCancelled

record ('s, 'c, 'v) oauth_env =
  oe_auth :: "('c, 'v) auth_lib"
  oe_jwt :: jwt_settings
  oe_json :: json_lib
  oe_redis :: "'s redis"
  oe_cred :: "'c cred_lib"
  oe_codec :: "credential_error + codec"
  oe_url :: "str \<Rightarrow> str \<Rightarrow> url_outcome"

section \<open>Endpoints\<close>

text \<open>The argument \<open>fresh\<close> is the token that \<open>secrets.token_urlsafe\<close> returns.\<close>

definition start_oauth :: "('s, 'c, 'v) oauth_env \<Rightarrow> str option \<Rightarrow> str \<Rightarrow> 's \<Rightarrow> oauth_response \<times> 's" where
  "start_oauth E creds fresh s =
     (case get_current_user_info (oe_auth E) (oe_jwt E) creds of
        Inl e \<Rightarrow> (Refused e, s)
      | Inr p \<Rightarrow>
          (case create_oauth_state (oe_json E) (oe_redis E) fresh (uuid_text (pr_user_id p)) (pr_email p) s of
             (Inl StateCancelled, s1) \<Rightarrow> (Refused RequestCancelled, s1)
           | (Inl _, s1) \<Rightarrow> (Refused (HttpError 503), s1)
           | (Inr state, s1) \<Rightarrow>
               (case oe_url E state (pr_email p) of
                  UrlFailed \<Rightarrow> (Refused (HttpError 503), s1)
                | UrlCancelled \<Rightarrow> (Refused RequestCancelled, s1)
                | UrlBuilt url \<Rightarrow> (Responded (JObj [(''authorization_url'', JStr url), (''state'', JStr state)]), s1))))"

definition at_most :: "nat \<Rightarrow> str option \<Rightarrow> bool" where
  "at_most n t = (case t of None \<Rightarrow> True | Some x \<Rightarrow> length x \<le> n)"

record callback_query =
  cq_code :: "str option"
  cq_state :: str
  cq_error :: "str option"
  cq_scope :: "str option"

definition callback_query_ok :: "callback_query \<Rightarrow> bool" where
  "callback_query_ok q = (cq_code q \<noteq> Some [] \<and> at_most 4096 (cq_code q) \<and> 1 \<le> length (cq_state q) \<and> length (cq_state q) \<le> 512 \<and>
     at_most 256 (cq_error q) \<and> at_most 2048 (cq_scope q))"

definition finish_callback ::
  "('s, 'c, 'v) oauth_env \<Rightarrow> bytes \<Rightarrow> uuid \<Rightarrow> str \<Rightarrow> str \<Rightarrow> token_db \<Rightarrow> oauth_response \<times> token_db" where
  "finish_callback E nonce user_id expected_email code db =
     (case exchange_oauth_code (oe_cred E) code of
        Inl _ \<Rightarrow> (failure_redirect ''Authentication failed'', db)
      | Inr exchange \<Rightarrow>
          (if ox_normalized_google_email exchange \<noteq> expected_email
           then (failure_redirect ''The selected Google account does not match the signed-in account.'', db)
           else case persist_oauth_connection (oe_cred E) (oe_codec E) nonce user_id expected_email exchange db of
             (Inl OAuthAccountMismatch, db') \<Rightarrow> (failure_redirect ''This Google account does not match the account already connected.'', db')
           | (Inl LifecycleCancelled, db') \<Rightarrow> (Refused RequestCancelled, db')
           | (Inl _, db') \<Rightarrow> (failure_redirect ''Authentication failed'', db')
           | (Inr _, db') \<Rightarrow> (frontend_redirect ''success'' [] (Some user_id), db')))"

definition oauth_callback ::
  "('s, 'c, 'v) oauth_env \<Rightarrow> bytes \<Rightarrow> callback_query \<Rightarrow> 's \<Rightarrow> token_db \<Rightarrow> oauth_response \<times> 's \<times> token_db" where
  "oauth_callback E nonce q s db =
     (if \<not> callback_query_ok q then (Refused (HttpError 422), s, db)
      else case consume_oauth_state (oe_json E) (oe_redis E) (cq_state q) s of
        (Inl StateCancelled, s1) \<Rightarrow> (Refused RequestCancelled, s1, db)
      | (Inl _, s1) \<Rightarrow> (failure_redirect ''OAuth is temporarily unavailable. Please try again.'', s1, db)
      | (Inr None, s1) \<Rightarrow> (failure_redirect ''Invalid or expired OAuth state'', s1, db)
      | (Inr (Some binding), s1) \<Rightarrow>
          (case uuid_of_text (sb_user_id binding) of
             None \<Rightarrow> (failure_redirect ''Invalid OAuth state'', s1, db)
           | Some user_id \<Rightarrow>
               (if text_or_empty (cq_error q) \<noteq> [] then (failure_redirect ''OAuth authorization was not completed.'', s1, db)
                else case cq_code q of
                  None \<Rightarrow> (failure_redirect ''Invalid OAuth callback'', s1, db)
                | Some code \<Rightarrow>
                    (case finish_callback E nonce user_id (sb_expected_email binding) code db of
                       (response, db') \<Rightarrow> (response, s1, db')))))"

definition verify_and_create_agent_entry ::
  "('s, 'c, 'v) oauth_env \<Rightarrow> str option \<Rightarrow> token_db \<Rightarrow> oauth_response \<times> token_db" where
  "verify_and_create_agent_entry E creds db =
     (case get_current_user_info (oe_auth E) (oe_jwt E) creds of
        Inl e \<Rightarrow> (Refused e, db)
      | Inr p \<Rightarrow>
          (case create_pending_oauth_connection (oe_cred E) (pr_user_id p) db of
             (Inl OAuthConnectionAlreadyExists, db') \<Rightarrow> (Refused (HttpError 409), db')
           | (Inl e, db') \<Rightarrow> (Refused (credential_http_error e), db')
           | (Inr _, db') \<Rightarrow>
               (Responded (JObj [(''message'', JStr ''Entry created successfully''), (''user_id'', JStr (uuid_text (pr_user_id p))),
                  (''email'', JStr (pr_email p))]), db')))"

definition get_agent_status :: "('s, 'c, 'v) oauth_env \<Rightarrow> str option \<Rightarrow> token_db \<Rightarrow> oauth_response" where
  "get_agent_status E creds db =
     (case get_current_user_info (oe_auth E) (oe_jwt E) creds of
        Inl e \<Rightarrow> Refused e
      | Inr p \<Rightarrow>
          (let is_connected = (case tbl_get at_user_id (pr_user_id p) db of None \<Rightarrow> False | Some r \<Rightarrow> at_status r = ConnConnected) in
           Responded (JObj [(''user_id'', JStr (uuid_text (pr_user_id p))), (''email'', JStr (pr_email p)),
             (''is_gmail_connected'', JBool is_connected),
             (''status'', JStr (if is_connected then ''connected'' else ''not_connected''))])))"

section \<open>Runs\<close>

text \<open>
  Requests in the order in which they reach the store and the table. \<open>EvConnection\<close> is any
  endpoint that needs the caller's Google connection, and \<open>EvStore\<close> other traffic on the store.
\<close>

datatype oauth_event =
    EvStart "str option" str
  | EvCallback bytes callback_query
  | EvVerify "str option"
  | EvStatus "str option"
  | EvConnection bytes "str option"
  | EvStore store_op

fun oauth_step :: "('s, 'c, 'v) oauth_env \<Rightarrow> oauth_event \<Rightarrow> 's \<times> token_db \<Rightarrow> oauth_response \<times> 's \<times> token_db" where
  "oauth_step E (EvStart creds fresh) (s, db) = (case start_oauth E creds fresh s of (r, s1) \<Rightarrow> (r, s1, db))"
| "oauth_step E (EvCallback nonce q) (s, db) = oauth_callback E nonce q s db"
| "oauth_step E (EvVerify creds) (s, db) = (case verify_and_create_agent_entry E creds db of (r, db1) \<Rightarrow> (r, s, db1))"
| "oauth_step E (EvStatus creds) (s, db) = (get_agent_status E creds db, s, db)"
| "oauth_step E (EvConnection nonce creds) (s, db) =
     (case get_current_user_info (oe_auth E) (oe_jwt E) creds of
        Inl e \<Rightarrow> (Refused e, s, db)
      | Inr p \<Rightarrow>
          (case get_connected_google_connection (oe_cred E) (oe_codec E) nonce p db of
             (Inl e, db1) \<Rightarrow> (Refused e, s, db1)
           | (Inr connection, db1) \<Rightarrow> (Responded (JStr (gc_google_email connection)), s, db1)))"
| "oauth_step E (EvStore x) (s, db) = (Responded JNull, snd (perform (oe_json E) (oe_redis E) x s), db)"

fun oauth_run :: "('s, 'c, 'v) oauth_env \<Rightarrow> oauth_event list \<Rightarrow> 's \<times> token_db \<Rightarrow> (oauth_event \<times> oauth_response) list \<times> 's \<times> token_db" where
  "oauth_run E [] st = ([], st)"
| "oauth_run E (ev # evs) st =
     (let (r, st1) = oauth_step E ev st; (rest, st2) = oauth_run E evs st1 in ((ev, r) # rest, st2))"

text \<open>The operation on the store that a request performs, if any.\<close>

fun event_op :: "('s, 'c, 'v) oauth_env \<Rightarrow> oauth_event \<Rightarrow> store_op option" where
  "event_op E (EvStart creds fresh) =
     (case get_current_user_info (oe_auth E) (oe_jwt E) creds of
        Inl _ \<Rightarrow> None | Inr p \<Rightarrow> Some (OpCreate fresh (uuid_text (pr_user_id p)) (pr_email p)))"
| "event_op E (EvCallback nonce q) = (if callback_query_ok q then Some (OpConsume (cq_state q)) else None)"
| "event_op E (EvStore x) = Some x"
| "event_op E _ = None"

fun starts :: "str \<Rightarrow> oauth_event \<Rightarrow> bool" where
  "starts state (EvStart creds fresh) = (fresh = state)"
| "starts state _ = False"

definition succeeded :: "str \<Rightarrow> oauth_event \<times> oauth_response \<Rightarrow> bool" where
  "succeeded state x = (\<exists>nonce q u. x = (EvCallback nonce q, frontend_redirect ''success'' [] (Some u)) \<and> cq_state q = state)"

section \<open>Steps on the store\<close>

lemma oauth_step_store:
  "fst (snd (oauth_step E ev (s, db))) =
     (case event_op E ev of None \<Rightarrow> s | Some x \<Rightarrow> snd (perform (oe_json E) (oe_redis E) x s))"
proof (cases ev)
  case (EvStart creds fresh)
  then show ?thesis
    by (auto simp: start_oauth_def split: sum.splits prod.splits state_error.splits url_outcome.splits)
next
  case (EvCallback nonce q)
  then show ?thesis
    by (auto simp: oauth_callback_def split: sum.splits prod.splits state_error.splits option.splits)
qed (auto split: prod.splits sum.splits)

lemma failed_not_success [simp]: "failure_redirect m \<noteq> frontend_redirect ''success'' [] (Some u)"
  by (auto simp: failure_redirect_def frontend_redirect_def)

lemma refused_not_success [simp]: "Refused e \<noteq> frontend_redirect ''success'' x v"
  by (simp add: frontend_redirect_def)

text \<open>A callback that succeeds has redeemed its state, exchanged its code and stored the connection.\<close>

lemma callback_success:
  assumes "oauth_callback E nonce q s db = (frontend_redirect ''success'' [] (Some u), s', db')"
  obtains b v code ex where "callback_query_ok q" "consume_oauth_state (oe_json E) (oe_redis E) (cq_state q) s = (Inr (Some b), s')"
    "uuid_of_text (sb_user_id b) = Some v" "uuid_text v = uuid_text u" "cq_code q = Some code"
    "exchange_oauth_code (oe_cred E) code = Inr ex" "ox_normalized_google_email ex = sb_expected_email b"
    "persist_oauth_connection (oe_cred E) (oe_codec E) nonce v (sb_expected_email b) ex db = (Inr (), db')"
  using assms
  by (auto simp: oauth_callback_def finish_callback_def frontend_redirect_def failure_redirect_def
      split: if_splits sum.splits prod.splits state_error.splits option.splits credential_error.splits)

lemma callback_redeems:
  assumes "oauth_callback E nonce q s db = (frontend_redirect ''success'' [] (Some u), s', db')"
  shows "\<exists>b. perform (oe_json E) (oe_redis E) (OpConsume (cq_state q)) s = (Some b, s')"
  by (rule callback_success [OF assms]) simp

section \<open>Runs on the store\<close>

lemma oauth_run_cases:
  assumes "oauth_run E (ev # evs) (s, db) = (served, s2, db2)"
  obtains r s1 db1 rest where "oauth_step E ev (s, db) = (r, s1, db1)" "oauth_run E evs (s1, db1) = (rest, s2, db2)" "served = (ev, r) # rest"
  using assms by (auto simp: Let_def split: prod.splits)

lemma run_originates:
  assumes "documented_redis (oe_redis E)" and "oauth_run E evs (s, db) = (served, s', db')"
    and "originates (oe_json E) (oe_redis E) state past s"
  shows "originates (oe_json E) (oe_redis E) state (past \<union> {x. \<exists>ev \<in> set evs. event_op E ev = Some x}) s'"
  using assms(2,3)
proof (induction evs arbitrary: s db past served)
  case (Cons ev evs)
  obtain r s1 db1 rest where step: "oauth_step E ev (s, db) = (r, s1, db1)" and rest: "oauth_run E evs (s1, db1) = (rest, s', db')"
    using oauth_run_cases [OF Cons.prems(1)] .
  have "originates (oe_json E) (oe_redis E) state (past \<union> {x. event_op E ev = Some x}) s1"
  proof (cases "event_op E ev")
    case None
    then have "s1 = s" using oauth_step_store [of E ev s db] step by simp
    with Cons.prems(2) show ?thesis by (auto intro: originates_mono)
  next
    case (Some x)
    then have "s1 = snd (perform (oe_json E) (oe_redis E) x s)" using oauth_step_store [of E ev s db] step by simp
    then show ?thesis using perform_originates [OF assms(1) Cons.prems(2), of x] Some by (auto intro: originates_mono)
  qed
  from Cons.IH [OF rest this] show ?case by (rule originates_mono) auto
qed simp

lemma step_counts:
  assumes "documented_redis (oe_redis E)" and "oauth_step E ev (s, db) = (r, s1, db1)"
    and "\<And>x. ev = EvStore x \<Longrightarrow> state_key state \<notin> touched x"
  shows "(if succeeded state (ev, r) then 1 else 0) + stored (oe_redis E) state s1 \<le>
    (if starts state ev then 1 else 0) + stored (oe_redis E) state s"
proof (cases "event_op E ev")
  case None
  then have "s1 = s" using oauth_step_store [of E ev s db] assms(2) by simp
  moreover have "\<not> succeeded state (ev, r)"
  proof
    assume "succeeded state (ev, r)"
    then obtain n q u where "ev = EvCallback n q" "oauth_callback E n q s db = (frontend_redirect ''success'' [] (Some u), s1, db1)"
      using assms(2) by (auto simp: succeeded_def)
    then show False using None callback_success [of E n q s db u s1 db1] by (auto split: if_splits)
  qed
  ultimately show ?thesis by simp
next
  case (Some x)
  obtain b where x: "perform (oe_json E) (oe_redis E) x s = (b, s1)"
    using oauth_step_store [of E ev s db] assms(2) Some by (cases "perform (oe_json E) (oe_redis E) x s") auto
  have "redeemed state (x, b)" if ok: "succeeded state (ev, r)"
  proof -
    obtain nonce q u where q: "ev = EvCallback nonce q" "r = frontend_redirect ''success'' [] (Some u)" "cq_state q = state"
      using ok by (auto simp: succeeded_def)
    then have "x = OpConsume state" using Some by (auto split: if_splits)
    then show ?thesis using callback_redeems [of E nonce q s db u s1 db1] assms(2) q x by (auto simp: redeemed_def)
  qed
  moreover have "starts state ev" if "creates state x"
    using that Some assms(3) by (cases ev) (auto split: sum.splits if_splits elim!: creates.elims)
  ultimately show ?thesis using perform_counts [OF assms(1) x, of state] by (auto split: if_splits)
qed

lemma run_counts:
  assumes "documented_redis (oe_redis E)" and "oauth_run E evs (s, db) = (served, s', db')"
    and "\<And>x. EvStore x \<in> set evs \<Longrightarrow> state_key state \<notin> touched x"
  shows "length (filter (succeeded state) served) + stored (oe_redis E) state s' \<le>
    length (filter (starts state) evs) + stored (oe_redis E) state s"
  using assms(2,3)
proof (induction evs arbitrary: s db served)
  case (Cons ev evs)
  obtain r s1 db1 rest where step: "oauth_step E ev (s, db) = (r, s1, db1)" and rest: "oauth_run E evs (s1, db1) = (rest, s', db')"
    and served: "served = (ev, r) # rest"
    using oauth_run_cases [OF Cons.prems(1)] .
  have "length (filter (succeeded state) rest) + stored (oe_redis E) state s' \<le>
      length (filter (starts state) evs) + stored (oe_redis E) state s1"
    using Cons.IH [OF rest] Cons.prems(2) by simp
  moreover have "(if succeeded state (ev, r) then 1 else 0) + stored (oe_redis E) state s1 \<le>
      (if starts state ev then 1 else 0) + stored (oe_redis E) state s"
    using step_counts [OF assms(1) step] Cons.prems(2) by simp
  ultimately show ?case unfolding served by (auto split: if_splits)
qed simp

section \<open>Where a connection comes from\<close>

lemma persisted_rows:
  assumes "persist_oauth_connection L codec_result nonce u expected ex db = (Inr (), db')" and "exchange_oauth_code L code = Inr ex"
  shows "\<exists>r. tbl_get at_user_id u db' = Some r \<and> at_status r = ConnConnected \<and> legacy_email r = Some (ox_normalized_google_email ex)"
    and "w \<noteq> u \<Longrightarrow> tbl_get at_user_id w db' = tbl_get at_user_id w db"
proof -
  obtain codec r r' where r: "tbl_get at_user_id u (insert_pending L u db) = Some r" and r': "persist_row L codec nonce r ex = Inr r'"
    and db': "db' = tbl_put at_user_id r' (insert_pending L u db)"
    using assms(1) by (auto simp: persist_oauth_connection_def split: if_splits sum.splits option.splits)
  obtain p where w: "write_encrypted_token L codec nonce (r\<lparr>at_user_email := Some (ox_google_email ex)\<rparr>) p (ox_normalized_google_email ex) = Inr r'"
    using persisted_row [OF r'] by blast
  have id: "at_user_id r' = u" using written_row(1) [OF w] r by auto
  then have "tbl_get at_user_id u db' = Some r'" using r by (simp add: db' tbl_simps)
  then show "\<exists>r. tbl_get at_user_id u db' = Some r \<and> at_status r = ConnConnected \<and> legacy_email r = Some (ox_normalized_google_email ex)"
    using written_row(2) [OF w] written_legacy_email [OF w exchange_normal [OF assms(2)]] by blast
  show "tbl_get at_user_id w db' = tbl_get at_user_id w db" if "w \<noteq> u"
    using that id by (auto simp: db' tbl_simps insert_pending_def pending_row_def tbl_get_append split: option.splits)
qed

text \<open>
  C22. A connection is made only by its owner. Whatever requests, by whoever, were handled since the
  store was empty, and whatever the table holds: if a callback reports success for a user, then an
  earlier start request with exactly this state carried a JWT that was verified for that user, the
  code belongs to the Google account of the e-mail in that JWT, the user's row is connected to that
  account and no other row has changed. And the state is spent: successful callbacks with it,
  this one included, are no more than the starts that issued it.
\<close>

theorem connection_provenance:
  assumes "documented_redis (oe_redis E)" and "bindings_round_trip (oe_json E)" and "store_empty (oe_redis E) s0"
    and "oauth_run E evs (s0, db0) = (served, s1, db1)" and "\<And>x. EvStore x \<in> set evs \<Longrightarrow> state_key (cq_state q) \<notin> touched x"
    and "oauth_callback E nonce q s1 db = (frontend_redirect ''success'' [] (Some u), s2, db2)" and "u < 2 ^ 128"
  shows "(\<exists>creds p code ex r. EvStart creds (cq_state q) \<in> set evs \<and>
      get_current_user_info (oe_auth E) (oe_jwt E) creds = Inr p \<and> pr_user_id p = u \<and>
      cq_code q = Some code \<and> exchange_oauth_code (oe_cred E) code = Inr ex \<and> ox_normalized_google_email ex = pr_email p \<and>
      tbl_get at_user_id u db2 = Some r \<and> at_status r = ConnConnected \<and> legacy_email r = Some (pr_email p)) \<and>
    (\<forall>w. w \<noteq> u \<longrightarrow> tbl_get at_user_id w db2 = tbl_get at_user_id w db) \<and>
    length (filter (succeeded (cq_state q)) served) < length (filter (starts (cq_state q)) evs)"
proof -
  let ?R = "oe_redis E" and ?J = "oe_json E" and ?state = "cq_state q"
  obtain b v code ex where ok: "callback_query_ok q" and b: "consume_oauth_state ?J ?R ?state s1 = (Inr (Some b), s2)"
    and v: "uuid_of_text (sb_user_id b) = Some v" "uuid_text v = uuid_text u" and code: "cq_code q = Some code"
    and ex: "exchange_oauth_code (oe_cred E) code = Inr ex" "ox_normalized_google_email ex = sb_expected_email b"
    and db: "persist_oauth_connection (oe_cred E) (oe_codec E) nonce v (sb_expected_email b) ex db = (Inr (), db2)"
    using callback_success [OF assms(6)] .
  have u: "v = u" using uuid_text_inj [OF uuid_of_text_bound [OF v(1)] assms(7) v(2)] .
  obtain raw e where raw: "view ?R s1 (state_key ?state) = Some (raw, e)" "decode_binding ?J raw = Some b"
    using consume_result(1) [OF assms(1) b] by blast
  have "originates ?J ?R ?state {} s0" using assms(3) by (simp add: originates_def)
  from run_originates [OF assms(1,4) this] raw(1)
  obtain ev x where ev: "ev \<in> set evs" "event_op E ev = Some x" "binds ?J ?state x raw"
    unfolding originates_def by blast
  obtain email where x: "x = OpCreate ?state (sb_user_id b) email" "normalize_account_email email = Some (sb_expected_email b)"
    using binds_decode [OF assms(2) ev(3) raw(2)] by blast
  have "state_key ?state \<in> touched x" using x(1) by simp
  then have "\<nexists>y. ev = EvStore y" using assms(5) ev(1,2) by fastforce
  then obtain creds p where p: "ev = EvStart creds ?state" "get_current_user_info (oe_auth E) (oe_jwt E) creds = Inr p"
      "sb_user_id b = uuid_text (pr_user_id p)" "email = pr_email p"
    using ev(2) x(1) by (cases ev) (auto split: sum.splits if_splits)
  note normal = principal_normal [OF p(2)]
  have "pr_user_id p = u" using uuid_of_text_text [OF normal(1)] v(1) p(3) u by simp
  moreover have "sb_expected_email b = pr_email p" using normal(2) x(2) p(4) by simp
  moreover have "0 < stored ?R ?state s1" using raw(1) by (simp add: stored_def)
  then have "length (filter (succeeded ?state) served) < length (filter (starts ?state) evs)"
    using run_counts [OF assms(1,4,5)] assms(3) by (simp add: stored_def split: if_splits)
  ultimately show ?thesis
    using ev(1) p(1,2) code ex persisted_rows(1) [OF db [unfolded u] ex(1)] persisted_rows(2) [OF db [unfolded u] ex(1)] by auto
qed

text \<open>A concrete deployment: one JWT, for user 7 with the address of the exchange.\<close>

definition demo_state_json :: json where
  "demo_state_json = binding_json (uuid_text 7) ''a@b.com''"

definition demo_env :: "(demo_store, unit, unit) oauth_env" where
  "demo_env = \<lparr>oe_auth = \<lparr>au_decode = (\<lambda>_ token. if token = ''jwt'' then
         Some (JObj [(''sub'', JStr (uuid_text 7)), (''email'', JStr '' A@b.com'')]) else None), au_build = (\<lambda>_ _ _. None)\<rparr>,
     oe_jwt = \<lparr>js_secret_key = ''k'', js_algorithm = ''HS256'', js_audience = ''a'', js_issuer = ''i''\<rparr>,
     oe_json = \<lparr>jl_dumps = (\<lambda>j. if j = demo_state_json then Some ''B'' else None),
       jl_loads = (\<lambda>raw. if raw = ''B'' then Some demo_state_json else None)\<rparr>,
     oe_redis = demo_redis, oe_cred = toy_cred_lib, oe_codec = Inr toy_codec, oe_url = (\<lambda>state _. UrlBuilt state)\<rparr>"

definition demo_query :: callback_query where
  "demo_query = \<lparr>cq_code = Some ''c'', cq_state = ''t'', cq_error = None, cq_scope = None\<rparr>"

abbreviation demo_started :: demo_store where
  "demo_started \<equiv> fst (snd (oauth_run demo_env [EvStart (Some ''jwt'') ''t''] (demo_start [], [])))"

lemma demo_env_redis: "documented_redis (oe_redis demo_env)" "bindings_round_trip (oe_json demo_env)"
    "store_empty (oe_redis demo_env) (demo_start [])"
  using demo_documented demo_empty [of "[]"]
  by (auto simp: demo_env_def bindings_round_trip_def demo_state_json_def binding_json_def)

definition demo_principal :: principal where
  "demo_principal = \<lparr>pr_user_id = 7, pr_email = ''a@b.com'',
     pr_claims = freeze_claim_value (JObj [(''sub'', JStr (uuid_text 7)), (''email'', JStr '' A@b.com'')])\<rparr>"

lemma demo_authenticated: "get_current_user_info (oe_auth demo_env) (oe_jwt demo_env) (Some ''jwt'') = Inr demo_principal"
proof -
  have "strip ''jwt'' = ''jwt''" "casefold (strip '' A@b.com'') = ''a@b.com''" by code_simp+
  then show ?thesis
    by (simp add: get_current_user_info_def demo_env_def from_verified_claims_def parse_subject_def normalize_email_claim_def jget_def
        strip_uuid_text uuid_text_nonempty uuid_of_text_text demo_principal_def)
qed

lemma demo_callback:
  obtains s2 db2 where "oauth_run demo_env [EvStart (Some ''jwt'') ''t''] (demo_start [], []) =
      ([(EvStart (Some ''jwt'') ''t'', Responded (JObj [(''authorization_url'', JStr ''t''), (''state'', JStr ''t'')]))], demo_started, [])"
    "oauth_callback demo_env toy_nonce demo_query demo_started [] = (frontend_redirect ''success'' [] (Some 7), s2, db2)"
proof -
  have norm: "normalize_account_email ''a@b.com'' = Some ''a@b.com''" by code_simp
  have env: "oe_redis demo_env = demo_redis" "oe_cred demo_env = toy_cred_lib" "oe_codec demo_env = Inr toy_codec"
      "jl_dumps (oe_json demo_env) demo_state_json = Some ''B''" "jl_loads (oe_json demo_env) ''B'' = Some demo_state_json" "oe_url demo_env x y = UrlBuilt x" for x y
    by (simp_all add: demo_env_def)
  let ?cells = "(\<lambda>_. None)(state_key ''t'' := Some (''B'', Some (seconds 600)))"
  have created: "create_oauth_state (oe_json demo_env) demo_redis ''t'' (uuid_text 7) ''a@b.com'' (demo_start []) = (Inr ''t'', (0, ?cells, []))"
    using env(4) by (simp add: create_oauth_state_def norm demo_state_json_def redis_setex_def run_call_def acquire_slot_def cmd_setex_def STATE_TTL_SECONDS_def)
  have run: "oauth_run demo_env [EvStart (Some ''jwt'') ''t''] (demo_start [], []) =
      ([(EvStart (Some ''jwt'') ''t'', Responded (JObj [(''authorization_url'', JStr ''t''), (''state'', JStr ''t'')]))], (0, ?cells, []), [])"
    using created by (simp add: start_oauth_def demo_authenticated env demo_principal_def)
  have "decode_binding (oe_json demo_env) ''B'' = Some \<lparr>sb_user_id = uuid_text 7, sb_expected_email = ''a@b.com''\<rparr>"
    using length_uuid_text [of 7] norm by (auto simp: decode_binding_def env(5) demo_state_json_def binding_json_def)
  then have "\<exists>s2. consume_oauth_state (oe_json demo_env) demo_redis ''t'' (0, ?cells, []) =
      (Inr (Some \<lparr>sb_user_id = uuid_text 7, sb_expected_email = ''a@b.com''\<rparr>), s2)"
    by (simp add: consume_oauth_state_def redis_consume_def run_call_def acquire_slot_def getdel_script_def live_def visible_def alive_def)
  moreover obtain db2 where "persist_oauth_connection toy_cred_lib (Inr toy_codec) toy_nonce 7 ''a@b.com'' toy_exchange [] = (Inr (), db2)"
    using toy_persisted by blast
  moreover have "callback_query_ok demo_query" by code_simp
  ultimately have "\<exists>s2. oauth_callback demo_env toy_nonce demo_query (0, ?cells, []) [] = (frontend_redirect ''success'' [] (Some 7), s2, db2)"
    by (auto simp: oauth_callback_def demo_query_def env uuid_of_text_text text_or_empty_def finish_callback_def toy_exchanged toy_exchange_def)
  then show thesis using that run by auto
qed

theorem connection_provenance_witness:
  "\<exists>s2 db2 p r. oauth_callback demo_env toy_nonce demo_query demo_started [] = (frontend_redirect ''success'' [] (Some 7), s2, db2) \<and>
     get_current_user_info (oe_auth demo_env) (oe_jwt demo_env) (Some ''jwt'') = Inr p \<and> pr_user_id p = 7 \<and>
     tbl_get at_user_id 7 db2 = Some r \<and> legacy_email r = Some (pr_email p)"
proof -
  obtain s2 db2 where run: "oauth_run demo_env [EvStart (Some ''jwt'') ''t''] (demo_start [], []) =
      ([(EvStart (Some ''jwt'') ''t'', Responded (JObj [(''authorization_url'', JStr ''t''), (''state'', JStr ''t'')]))], demo_started, [])"
    and ok: "oauth_callback demo_env toy_nonce demo_query demo_started [] = (frontend_redirect ''success'' [] (Some 7), s2, db2)"
    by (rule demo_callback)
  have u: "(7 :: nat) < 2 ^ 128" by simp
  have none: "\<And>x. EvStore x \<in> set [EvStart (Some ''jwt'') ''t''] \<Longrightarrow> state_key (cq_state demo_query) \<notin> touched x" by simp
  from connection_provenance [OF demo_env_redis run none ok u, THEN conjunct1]
  obtain creds p r where "EvStart creds (cq_state demo_query) \<in> set [EvStart (Some ''jwt'') ''t'']"
    and "get_current_user_info (oe_auth demo_env) (oe_jwt demo_env) creds = Inr p" "pr_user_id p = 7"
      "tbl_get at_user_id 7 db2 = Some r" "legacy_email r = Some (pr_email p)"
    by blast
  moreover from this(1) have "creds = Some ''jwt''" by simp
  ultimately show ?thesis using ok by blast
qed

end
