(* ===== verification/Agent_Router.thy ===== *)
theory Agent_Router
  imports OAuth_Routes Agents Action_Safety
begin

text \<open>
  The endpoints of \<open>server/routes/agent_router.py\<close>: listing, approving, rejecting and reconciling
  pending actions, and the interactive agents with their event stream. Each endpoint is composed from
  the authentication, the stored credentials and the action service of the other theories. Other
  sessions' commits between two transactions of a request are an argument, the provider behind a
  connection is an arbitrary \<open>services\<close>.
\<close>

section \<open>Operators\<close>

text \<open>\<open>str.split\<close> with a separator.\<close>

fun split_on :: "char \<Rightarrow> str \<Rightarrow> str list" where
  "split_on sep [] = [[]]"
| "split_on sep (c # cs) =
     (if c = sep then [] # split_on sep cs
      else case split_on sep cs of [] \<Rightarrow> [[c]] | w # ws \<Rightarrow> (c # w) # ws)"

fun operator_identities :: "str list \<Rightarrow> str list \<Rightarrow> str list option" where
  "operator_identities [] identities = Some identities"
| "operator_identities (raw # raws) identities =
     (if strip raw = [] then operator_identities raws identities
      else case uuid_of_text (strip raw) of
        None \<Rightarrow> None
      | Some parsed \<Rightarrow>
          (if uuid_text parsed \<in> set identities then None
           else operator_identities raws (identities @ [uuid_text parsed])))"

text \<open>The validated setting; \<open>None\<close> is a \<open>ValueError\<close>.\<close>

definition validate_pending_action_operator_ids :: "json \<Rightarrow> str option" where
  "validate_pending_action_operator_ids v = (case v of
      JNull \<Rightarrow> Some []
    | JStr t \<Rightarrow> map_option (join '','') (operator_identities (split_on (CHR '','') t) [])
    | _ \<Rightarrow> None)"

fun parse_uuids :: "str list \<Rightarrow> uuid list option" where
  "parse_uuids [] = Some []"
| "parse_uuids (t # ts) =
     (if t = [] then parse_uuids ts
      else case (uuid_of_text t, parse_uuids ts) of (Some u, Some us) \<Rightarrow> Some (u # us) | _ \<Rightarrow> None)"

definition pending_action_operator_ids :: "str \<Rightarrow> uuid list option" where
  "pending_action_operator_ids setting = parse_uuids (split_on (CHR '','') setting)"

section \<open>Responses\<close>

text \<open>
  \<open>RouterHttp\<close> is an \<open>HTTPException\<close> with its status and the code of its structured detail, if
  it has one; \<open>RouterUnhandled\<close> is any other exception that leaves the endpoint.
\<close>

datatype router_error = RouterHttp int str | RouterUnhandled | RouterCancelled

fun router_error_of :: "http_error \<Rightarrow> router_error" where
  "router_error_of (HttpError n) = (if n = 500 then RouterUnhandled else RouterHttp n [])"
| "router_error_of RequestCancelled = RouterCancelled"

fun agent_provider_http_error :: "llm_error \<Rightarrow> router_error" where
  "agent_provider_http_error LlmOperationTimeout = RouterHttp 504 ''llm_timeout''"
| "agent_provider_http_error LlmOperationUnavailable = RouterHttp 503 ''llm_unavailable''"
| "agent_provider_http_error LlmOperationInternal = RouterHttp 502 ''llm_internal''"

definition service_http_error :: "service_error \<Rightarrow> router_error" where
  "service_http_error e = (case e of
      PendingActionNotFound \<Rightarrow> RouterHttp 404 []
    | PendingActionInvalidState _ \<Rightarrow> RouterHttp 409 []
    | RaisedFailure CancelledError \<Rightarrow> RouterCancelled
    | _ \<Rightarrow> RouterUnhandled)"

section \<open>Environment\<close>

text \<open>
  \<open>rt_services\<close> is Google as seen through a connection, \<open>rt_idle\<close> stands where no client is
  built, and \<open>rt_others\<close> is what other sessions commit to the actions while the request waits.
\<close>

record ('c, 'v) router_env =
  rt_auth :: "('c, 'v) auth_lib"
  rt_jwt :: jwt_settings
  rt_cred :: "'c cred_lib"
  rt_codec :: "credential_error + codec"
  rt_nonce :: bytes
  rt_lib :: action_lib
  rt_services :: "'c google_connection \<Rightarrow> services"
  rt_idle :: services
  rt_others :: "nat \<Rightarrow> action_db \<Rightarrow> action_db"
  rt_clock :: "nat \<Rightarrow> clock"
  rt_token :: str
  rt_operators :: "uuid list"
  rt_tools :: "'c google_connection \<Rightarrow> tool_env"
  rt_timezone :: str
  rt_generate :: "str \<Rightarrow> llm_oracle"

record router_state =
  st_actions :: action_db
  st_tokens :: token_db
  st_history :: history

section \<open>Provider clients for one action\<close>

datatype provider_error = ProviderHttp int | ProviderRaised | ProviderCancelled

definition no_services :: availability where
  "no_services = \<lparr>gmail_service = False, calendar_service = False, tasks_service = False\<rparr>"

definition providers :: "str \<Rightarrow> (str \<times> str \<times> availability) option" where
  "providers action_type = map_of
     [(''send_email'', (''gmail'', ''v1'', no_services\<lparr>gmail_service := True\<rparr>)),
      (''send_reply'', (''gmail'', ''v1'', no_services\<lparr>gmail_service := True\<rparr>)),
      (''create_event'', (''calendar'', ''v3'', no_services\<lparr>calendar_service := True\<rparr>)),
      (''create_task'', (''tasks'', ''v1'', no_services\<lparr>tasks_service := True\<rparr>))] action_type"

fun provider_error_of :: "credential_error \<Rightarrow> provider_error" where
  "provider_error_of GoogleReconnectRequired = ProviderHttp 409"
| "provider_error_of CredentialEncryptionUnavailable = ProviderHttp 503"
| "provider_error_of GoogleCredentialsUnavailable = ProviderHttp 503"
| "provider_error_of LifecycleCancelled = ProviderCancelled"
| "provider_error_of _ = ProviderRaised"

definition action_provider_services ::
  "('c, 'v) router_env \<Rightarrow> str \<Rightarrow> uuid \<Rightarrow> token_db \<Rightarrow> (provider_error + availability \<times> services) \<times> token_db" where
  "action_provider_services E action_type user_id tdb =
     (case providers action_type of
        None \<Rightarrow> (Inr (no_services, rt_idle E), tdb)
      | Some (name, version, av) \<Rightarrow>
          (case load_connected_google_connection (rt_cred E) (rt_codec E) (rt_nonce E) user_id tdb of
             (Inl e, tdb1) \<Rightarrow> (Inl (provider_error_of e), tdb1)
           | (Inr connection, tdb1) \<Rightarrow>
               (case build_google_api_service (rt_auth E) connection name version of
                  Inl e \<Rightarrow> (Inl (provider_error_of e), tdb1)
                | Inr _ \<Rightarrow> (Inr (av, rt_services E connection), tdb1))))"

section \<open>Action endpoints\<close>

definition authenticated :: "('c, 'v) router_env \<Rightarrow> str option \<Rightarrow> router_error + principal" where
  "authenticated E creds = map_sum router_error_of id (get_current_user_info (rt_auth E) (rt_jwt E) creds)"

definition require_pending_action_operator :: "('c, 'v) router_env \<Rightarrow> str option \<Rightarrow> router_error + principal" where
  "require_pending_action_operator E creds =
     (case authenticated E creds of
        Inl e \<Rightarrow> Inl e
      | Inr p \<Rightarrow>
          (if rt_operators E = [] then Inl (RouterHttp 503 [])
           else if pr_user_id p \<notin> set (rt_operators E) then Inl (RouterHttp 403 [])
           else Inr p))"

definition list_pending_actions_endpoint ::
  "('c, 'v) router_env \<Rightarrow> str option \<Rightarrow> action_status \<Rightarrow> nat \<Rightarrow> str option \<Rightarrow> time \<Rightarrow> action_db \<Rightarrow>
   router_error + action_summary_row list \<times> str option" where
  "list_pending_actions_endpoint E creds status limit page_token now db =
     (case authenticated E creds of
        Inl e \<Rightarrow> Inl e
      | Inr p \<Rightarrow>
          (if \<not> (1 \<le> limit \<and> limit \<le> 100 \<and> page_token \<noteq> Some [] \<and> at_most 512 page_token) then Inl (RouterHttp 422 [])
           else case list_pending_actions (al_page (rt_lib E)) now db (pr_user_id p, status) limit page_token of
             Inl InvalidPageToken \<Rightarrow> Inl (RouterHttp 422 ''validation_error'')
           | Inl e \<Rightarrow> Inl (service_http_error e)
           | Inr page \<Rightarrow> Inr page))"

definition get_pending_action_endpoint ::
  "('c, 'v) router_env \<Rightarrow> str option \<Rightarrow> uuid \<Rightarrow> action_db \<Rightarrow> router_error + action_view" where
  "get_pending_action_endpoint E creds action_id db =
     (case authenticated E creds of
        Inl e \<Rightarrow> Inl e
      | Inr p \<Rightarrow> map_sum service_http_error id (get_pending_action action_id (pr_user_id p) db))"

definition pre_dispatch_code :: "int \<Rightarrow> str" where
  "pre_dispatch_code n = (if n = 409 then ''google_reconnect_required'' else ''credentials_unavailable_before_dispatch'')"

text \<open>After the claim: resolve the client, then either record that nothing was sent, or dispatch.\<close>

definition dispatch_claimed ::
  "('c, 'v) router_env \<Rightarrow> action_view \<Rightarrow> uuid \<Rightarrow> router_state \<Rightarrow> (router_error + action_view) \<times> router_state" where
  "dispatch_claimed E v user_id st =
     (case action_provider_services E (av_action_type v) user_id (st_tokens st) of
        (Inl (ProviderHttp n), tdb) \<Rightarrow>
          (case finalize_pre_dispatch_failure (rt_clock E 1) (pre_dispatch_code n) v (rt_others E 0 (st_actions st)) of
             (r, db) \<Rightarrow> (map_sum service_http_error id r, st\<lparr>st_actions := db, st_tokens := tdb\<rparr>))
      | (Inl ProviderRaised, tdb) \<Rightarrow> (Inl RouterUnhandled, st\<lparr>st_tokens := tdb\<rparr>)
      | (Inl ProviderCancelled, tdb) \<Rightarrow> (Inl RouterCancelled, st\<lparr>st_tokens := tdb\<rparr>)
      | (Inr (av, sv), tdb) \<Rightarrow>
          (case execute_claimed_action (rt_lib E) sv av (rt_others E 0) (rt_clock E 1) v (st_actions st) (st_history st) of
             (r, db, h) \<Rightarrow> (map_sum service_http_error id r, \<lparr>st_actions = db, st_tokens = tdb, st_history = h\<rparr>)))"

definition approve_pending_action_endpoint ::
  "('c, 'v) router_env \<Rightarrow> str option \<Rightarrow> uuid \<Rightarrow> router_state \<Rightarrow> (router_error + action_view) \<times> router_state" where
  "approve_pending_action_endpoint E creds action_id st =
     (case authenticated E creds of
        Inl e \<Rightarrow> (Inl e, st)
      | Inr p \<Rightarrow>
          (case claim_pending_action (rt_lib E) (rt_clock E 0) (rt_token E) action_id (pr_user_id p) (st_actions st) of
             (Inl e, db) \<Rightarrow> (Inl (service_http_error e), st\<lparr>st_actions := db\<rparr>)
           | (Inr (v, claimed), db) \<Rightarrow>
               (if \<not> claimed then (Inr v, st\<lparr>st_actions := db\<rparr>)
                else dispatch_claimed E v (pr_user_id p) (st\<lparr>st_actions := db\<rparr>))))"

definition reject_pending_action_endpoint ::
  "('c, 'v) router_env \<Rightarrow> str option \<Rightarrow> uuid \<Rightarrow> router_state \<Rightarrow> (router_error + action_view) \<times> router_state" where
  "reject_pending_action_endpoint E creds action_id st =
     (case authenticated E creds of
        Inl e \<Rightarrow> (Inl e, st)
      | Inr p \<Rightarrow>
          (case reject_pending_action (rt_clock E 0) action_id (pr_user_id p) (st_actions st) of
             (r, db) \<Rightarrow> (map_sum service_http_error id r, st\<lparr>st_actions := db\<rparr>)))"

definition reconcile_with ::
  "('c, 'v) router_env \<Rightarrow> availability \<Rightarrow> services \<Rightarrow> uuid \<Rightarrow> uuid \<Rightarrow> router_state \<Rightarrow> (router_error + action_view) \<times> router_state" where
  "reconcile_with E av sv action_id operator_id st =
     (case reconcile_pending_action (rt_lib E) sv av (rt_others E 1) (rt_clock E 0) action_id operator_id
             (rt_others E 0 (st_actions st)) (st_history st) of
        (r, db, h) \<Rightarrow> (map_sum service_http_error id r, st\<lparr>st_actions := db, st_history := h\<rparr>))"

definition reconcile_pending_action_endpoint ::
  "('c, 'v) router_env \<Rightarrow> str option \<Rightarrow> uuid \<Rightarrow> router_state \<Rightarrow> (router_error + action_view) \<times> router_state" where
  "reconcile_pending_action_endpoint E creds action_id st =
     (case require_pending_action_operator E creds of
        Inl e \<Rightarrow> (Inl e, st)
      | Inr operator \<Rightarrow>
          (case get_pending_action_for_reconciliation action_id (st_actions st) of
             Inl e \<Rightarrow> (Inl (service_http_error e), st)
           | Inr (v, owner) \<Rightarrow>
               (case action_provider_services E (av_action_type v) owner (st_tokens st) of
                  (Inl (ProviderHttp _), tdb) \<Rightarrow>
                    reconcile_with E no_services (rt_idle E) action_id (pr_user_id operator) (st\<lparr>st_tokens := tdb\<rparr>)
                | (Inl ProviderRaised, tdb) \<Rightarrow> (Inl RouterUnhandled, st\<lparr>st_tokens := tdb\<rparr>)
                | (Inl ProviderCancelled, tdb) \<Rightarrow> (Inl RouterCancelled, st\<lparr>st_tokens := tdb\<rparr>)
                | (Inr (av, sv), tdb) \<Rightarrow> reconcile_with E av sv action_id (pr_user_id operator) (st\<lparr>st_tokens := tdb\<rparr>))))"

section \<open>Interactive agents\<close>

definition agent_query_ok :: "str \<Rightarrow> bool" where
  "agent_query_ok input = (1 \<le> length input \<and> length input \<le> 8000)"

text \<open>
  The last handler of the agent endpoints logs \<open>user_info.get(...)\<close>. A principal has keyed access
  but no attribute \<open>get\<close>, so evaluating the argument raises \<open>AttributeError\<close>.
\<close>

datatype attribute_error = AttributeError str

definition principal_get :: "principal \<Rightarrow> str \<Rightarrow> attribute_error + principal_value option" where
  "principal_get p key = Inl (AttributeError ''get'')"

definition last_handler :: "principal \<Rightarrow> str \<Rightarrow> router_error" where
  "last_handler p code = (case principal_get p ''user_id'' of Inl _ \<Rightarrow> RouterUnhandled | Inr _ \<Rightarrow> RouterHttp 500 code)"

definition agent_response :: "principal \<Rightarrow> str \<Rightarrow> run_result \<Rightarrow> router_error + str" where
  "agent_response p code r = (case r of
      RunText t \<Rightarrow> Inr t
    | RunLlmError e \<Rightarrow> Inl (agent_provider_http_error e)
    | RunTypeError \<Rightarrow> Inl (last_handler p code))"

text \<open>The dependencies of the executive endpoint: the connection, resolved once, and its three clients.\<close>

definition connected_services ::
  "('c, 'v) router_env \<Rightarrow> principal \<Rightarrow> token_db \<Rightarrow> (router_error + 'c google_connection) \<times> token_db" where
  "connected_services E p tdb =
     (case get_connected_google_connection (rt_cred E) (rt_codec E) (rt_nonce E) p tdb of
        (Inl e, tdb1) \<Rightarrow> (Inl (router_error_of e), tdb1)
      | (Inr connection, tdb1) \<Rightarrow>
          (case (get_gmail_service (rt_auth E) connection, get_calendar_service (rt_auth E) connection,
                 get_tasks_service (rt_auth E) connection) of
             (Inr _, Inr _, Inr _) \<Rightarrow> (Inr connection, tdb1)
           | (Inl e, _, _) \<Rightarrow> (Inl (router_error_of e), tdb1)
           | (_, Inl e, _) \<Rightarrow> (Inl (router_error_of e), tdb1)
           | (_, _, Inl e) \<Rightarrow> (Inl (router_error_of e), tdb1)))"

definition tool_binding_of :: "('c, 'v) router_env \<Rightarrow> principal \<Rightarrow> 'c google_connection \<Rightarrow> tool_binding" where
  "tool_binding_of E p connection =
     \<lparr>tb_user_id = uuid_text (pr_user_id p), tb_email = gc_google_email connection, tb_timezone = rt_timezone E\<rparr>"

definition invoke_executive_agent_endpoint ::
  "('c, 'v) router_env \<Rightarrow> str option \<Rightarrow> str \<Rightarrow> agent_world \<Rightarrow> token_db \<Rightarrow> (router_error + str) \<times> agent_world \<times> token_db" where
  "invoke_executive_agent_endpoint E creds input w tdb =
     (case authenticated E creds of
        Inl e \<Rightarrow> (Inl e, w, tdb)
      | Inr p \<Rightarrow>
          (case connected_services E p tdb of
             (Inl e, tdb1) \<Rightarrow> (Inl e, w, tdb1)
           | (Inr connection, tdb1) \<Rightarrow>
               (if \<not> agent_query_ok input then (Inl (RouterHttp 422 []), w, tdb1)
                else case run_executive (rt_tools E connection) (tool_binding_of E p connection) INTERACTIVE_EXECUTIVE_POLICY
                            True True True (rt_generate E input) w of
                  (r, w1) \<Rightarrow> (agent_response p ''executive_agent_failed'' r, w1, tdb1))))"

text \<open>The agent without tools: one request to the model.\<close>

datatype general_outcome = GeneralAnswered llm_response | GeneralLlmError llm_error | GeneralRaised

definition run_general :: "general_outcome \<Rightarrow> run_result" where
  "run_general answer = (case answer of
      GeneralAnswered response \<Rightarrow> RunText (candidate_text response)
    | GeneralLlmError e \<Rightarrow> RunLlmError e
    | GeneralRaised \<Rightarrow> RunTypeError)"

definition invoke_general_agent_endpoint ::
  "('c, 'v) router_env \<Rightarrow> str option \<Rightarrow> str \<Rightarrow> (str \<Rightarrow> general_outcome) \<Rightarrow> router_error + str" where
  "invoke_general_agent_endpoint E creds input generate =
     (case authenticated E creds of
        Inl e \<Rightarrow> Inl e
      | Inr p \<Rightarrow>
          (if \<not> agent_query_ok input then Inl (RouterHttp 422 [])
           else agent_response p ''general_agent_failed'' (run_general (generate input))))"

section \<open>The event stream\<close>

text \<open>One event of the agent: its type, its content and its error code.\<close>

type_synonym stream_item = "str \<times> str \<times> str option"

definition format_stream_event :: "(json \<Rightarrow> str) \<Rightarrow> stream_item \<Rightarrow> str" where
  "format_stream_event dumps item = (case item of (event, content, error_code) \<Rightarrow>
     ''data: '' @ dumps (JObj ([(''event'', JStr event), (''content'', JStr content)] @
       (case error_code of None \<Rightarrow> [] | Some c \<Rightarrow> [(''error_code'', JStr c)]))) @ [CHR 10, CHR 10])"

text \<open>
  What the generator meets each time it waits: the heartbeat interval passes, the agent produces an
  event, the agent is finished, the agent raises, or the request is cancelled. The flag says whether
  the client has disconnected when the generator looks next.
\<close>

datatype stream_tick = Waited bool | Produced stream_item bool | Finished bool | Raised bool | Interrupted

datatype stream_frame = Heartbeat | Frame stream_item

datatype stream_end = StreamRunning | StreamReturned | StreamRaised

definition terminal_type :: "str \<Rightarrow> bool" where
  "terminal_type t = (t = ''done'' \<or> t = ''error'')"

fun stream_frames :: "principal \<Rightarrow> stream_tick list \<Rightarrow> stream_frame list \<times> stream_end" where
  "stream_frames p [] = ([], StreamRunning)"
| "stream_frames p (Waited gone # ticks) =
     (if gone then ([], StreamReturned)
      else case stream_frames p ticks of (frames, e) \<Rightarrow> (Heartbeat # frames, e))"
| "stream_frames p (Produced item gone # ticks) =
     (if gone then ([], StreamReturned)
      else if terminal_type (fst item) then ([Frame item], StreamReturned)
      else case stream_frames p ticks of (frames, e) \<Rightarrow> (Frame item # frames, e))"
| "stream_frames p (Finished gone # ticks) =
     (if gone then ([], StreamReturned) else ([Frame (''done'', [], None)], StreamReturned))"
| "stream_frames p (Raised gone # ticks) =
     (case principal_get p ''user_id'' of
        Inl _ \<Rightarrow> ([], StreamRaised)
      | Inr _ \<Rightarrow>
          (if gone then ([], StreamReturned)
           else ([Frame (''error'', ''The agent stream failed unexpectedly.'', Some ''llm_internal'')], StreamReturned)))"
| "stream_frames p (Interrupted # ticks) = ([], StreamRaised)"

text \<open>The events of the streaming agent as items.\<close>

fun item_of_event :: "stream_event \<Rightarrow> stream_item" where
  "item_of_event (Token t) = (''token'', t, None)"
| "item_of_event (StreamError m c) = (''error'', m, Some c)"
| "item_of_event (ToolEvent m) = (''tool_result'', m, None)"

text \<open>
  The endpoint: \<open>stream\<close> is what the model streams, with the failure it ends in, \<open>ticks\<close>
  turns the events of the run into what the generator meets, and \<open>stopped\<close> says that the run was
  stopped by a disconnect before its tool had an effect.
\<close>

definition invoke_general_agent_stream_endpoint ::
  "('c, 'v) router_env \<Rightarrow> str option \<Rightarrow> str \<Rightarrow> (str \<Rightarrow> llm_response list \<times> llm_error option) \<Rightarrow>
   (stream_item list \<Rightarrow> stream_tick list) \<Rightarrow> bool \<Rightarrow> agent_world \<Rightarrow> token_db \<Rightarrow>
   (router_error + stream_frame list \<times> stream_end) \<times> agent_world \<times> token_db" where
  "invoke_general_agent_stream_endpoint E creds input stream ticks stopped w tdb =
     (case authenticated E creds of
        Inl e \<Rightarrow> (Inl e, w, tdb)
      | Inr p \<Rightarrow>
          (case get_connected_google_connection (rt_cred E) (rt_codec E) (rt_nonce E) p tdb of
             (Inl e, tdb1) \<Rightarrow> (Inl (router_error_of e), w, tdb1)
           | (Inr connection, tdb1) \<Rightarrow>
               (if \<not> agent_query_ok input then (Inl (RouterHttp 422 []), w, tdb1)
                else case run_stream (rt_tools E connection) (tool_binding_of E p connection) INTERACTIVE_STREAM_POLICY
                            (fst (stream input)) (snd (stream input)) w of
                  (events, w1) \<Rightarrow> (Inr (stream_frames p (ticks (map item_of_event events))), if stopped then w else w1, tdb1))))"

end
