(* ===== verification/Router_Safety.thy ===== *)
theory Router_Safety
  imports Agent_Router
begin

text \<open>
  Properties of the agent endpoints: an approved action is dispatched once and only through the
  connection of its owner, reconciliation is for operators and reads only, the event stream ends with
  one terminal event, and what happens when an agent raises.
\<close>

section \<open>Approval\<close>

lemma execute_without_services: "snd (execute_action lib sv no_services cmd h) = h"
  by (auto simp: execute_action_def no_services_def split: option.splits)

lemma loaded_connection_owner:
  assumes "load_connected_google_connection L c nonce u db = (Inr connection, db')"
  shows "gc_user_id connection = u"
proof -
  have "v = connected_load r e k" if "store_payload L codec n r p e k = (v, r')" "v = LoadConnected x" for codec n r p e k v r' x
    using stored_payload [OF that(1)] that(2) by auto
  moreover obtain codec r r' where "load_row L codec nonce r = (LoadConnected connection, r')" "at_user_id r = u"
    using assms by (auto simp: load_connected_google_connection_def split: sum.splits option.splits prod.splits load_verdict.splits)
  ultimately show ?thesis
    by (fastforce simp: load_row_def connected_load_def split: if_splits option.splits sum.splits prod.splits refresh_result.splits)
qed

text \<open>The clients that an action gets belong to the given user.\<close>

lemma provider_services_cases:
  assumes "action_provider_services E ty u tdb = (Inr (av, sv), tdb')"
  shows "av = no_services \<or>
    (\<exists>connection. fst (load_connected_google_connection (rt_cred E) (rt_codec E) (rt_nonce E) u tdb) = Inr connection \<and>
       gc_user_id connection = u \<and> sv = rt_services E connection)"
  using assms loaded_connection_owner
  by (fastforce simp: action_provider_services_def split: option.splits prod.splits sum.splits)

definition others_ok :: "('c, 'v) router_env \<Rightarrow> bool" where
  "others_ok E = (\<forall>n db. (service_step (rt_lib E))\<^sup>*\<^sup>* db (rt_others E n db))"

lemma finalized_step:
  "finalization_of ended = Some f \<Longrightarrow> service_step lib db (snd (finalize_claimed_action ck f v db))"
  by (rule step_finalize) (cases ended rule: finalization_of.cases; auto simp: final_status_def split: if_splits)

lemma dispatch_steps:
  assumes "others_ok E"
  shows "(service_step (rt_lib E))\<^sup>*\<^sup>* (st_actions st) (st_actions (snd (dispatch_claimed E v u st)))"
proof -
  let ?S = "service_step (rt_lib E)" and ?db = "rt_others E 0 (st_actions st)"
  have o: "?S\<^sup>*\<^sup>* (st_actions st) ?db" using assms by (simp add: others_ok_def)
  have one: "?S\<^sup>*\<^sup>* (st_actions st) db" if "?S ?db db" for db using o that by (rule rtranclp.rtrancl_into_rtrancl)
  have pre: "?S ?db (snd (finalize_pre_dispatch_failure ck code v ?db))" for ck code
    unfolding finalize_pre_dispatch_failure_def by (rule step_finalize) (simp add: final_status_def)
  obtain x tdb where x: "action_provider_services E (av_action_type v) u (st_tokens st) = (x, tdb)" by fastforce
  show ?thesis
  proof (cases x)
    case (Inl e)
    then show ?thesis using x one [OF pre] by (cases e) (simp_all add: dispatch_claimed_def split_beta)
  next
    case (Inr y)
    obtain av sv where y: "y = (av, sv)" by fastforce
    obtain ended h where run: "execute_action (al_handler (rt_lib E)) sv av (command_of v) (st_history st) = (ended, h)" by fastforce
    show ?thesis
      using x Inr y run o one [OF finalized_step [of ended]]
      by (cases "finalization_of ended")
        (simp_all add: dispatch_claimed_def execute_claimed_action_def split_beta)
  qed
qed

lemma dispatch_history:
  assumes "st_history (snd (dispatch_claimed E v u st)) \<noteq> st_history st"
  shows "\<exists>connection av. fst (load_connected_google_connection (rt_cred E) (rt_codec E) (rt_nonce E) u (st_tokens st)) = Inr connection \<and>
    gc_user_id connection = u \<and>
    st_history (snd (dispatch_claimed E v u st)) =
      snd (execute_action (al_handler (rt_lib E)) (rt_services E connection) av (command_of v) (st_history st))"
proof -
  obtain av sv tdb where s: "action_provider_services E (av_action_type v) u (st_tokens st) = (Inr (av, sv), tdb)"
    using assms by (auto simp: dispatch_claimed_def split: prod.splits sum.splits provider_error.splits)
  then have h: "st_history (snd (dispatch_claimed E v u st)) =
      snd (execute_action (al_handler (rt_lib E)) sv av (command_of v) (st_history st))"
    by (auto simp: dispatch_claimed_def execute_claimed_action_def split: prod.splits option.splits)
  then have "av \<noteq> no_services" using assms execute_without_services by metis
  then show ?thesis using provider_services_cases [OF s] h by blast
qed

lemma approve_claims:
  assumes "st_history (snd (approve_pending_action_endpoint E creds i st)) \<noteq> st_history st"
  obtains p v db where "get_current_user_info (rt_auth E) (rt_jwt E) creds = Inr p"
    "claim_pending_action (rt_lib E) (rt_clock E 0) (rt_token E) i (pr_user_id p) (st_actions st) = (Inr (v, True), db)"
    "approve_pending_action_endpoint E creds i st = dispatch_claimed E v (pr_user_id p) (st\<lparr>st_actions := db\<rparr>)"
  using assms
  by (auto simp: approve_pending_action_endpoint_def authenticated_def map_sum_Inr split: sum.splits prod.splits if_splits)

text \<open>
  C21. Approval acts for the owner, once. If approving an action leads to any call of a provider, then
  the caller presented a valid JWT, the action is pending and belongs to the caller, and the calls are
  those of the action's handler through the caller's own stored Google connection. From then on, no
  later approval of the action calls a provider, whoever asks, with whatever connection, and whatever
  all sessions did in between.
\<close>

theorem approval_acts_for_owner_once:
  fixes E E' :: "('c, 'v) router_env"
  assumes "action_inv (st_actions st)" and "others_ok E"
    and "approve_pending_action_endpoint E creds i st = (r, st1)" and "st_history st1 \<noteq> st_history st"
  shows "(\<exists>p a connection av. get_current_user_info (rt_auth E) (rt_jwt E) creds = Inr p \<and>
      find_action (st_actions st) i = Some a \<and> pa_user_id a = pr_user_id p \<and> pa_status a = PENDING \<and>
      fst (load_connected_google_connection (rt_cred E) (rt_codec E) (rt_nonce E) (pr_user_id p) (st_tokens st)) = Inr connection \<and>
      gc_user_id connection = pr_user_id p \<and>
      st_history st1 = snd (execute_action (al_handler (rt_lib E)) (rt_services E connection) av
        \<lparr>cmd_action_type = pa_action_type a, cmd_payload = pa_payload a, cmd_key = pa_command_key a\<rparr> (st_history st))) \<and>
    (rt_lib E' = rt_lib E \<and> (service_step (rt_lib E))\<^sup>*\<^sup>* (st_actions st1) (st_actions st2) \<longrightarrow>
      st_history (snd (approve_pending_action_endpoint E' creds' i st2)) = st_history st2)"
proof -
  have h: "st_history (snd (approve_pending_action_endpoint E creds i st)) \<noteq> st_history st" using assms(3,4) by simp
  obtain p v db where p: "get_current_user_info (rt_auth E) (rt_jwt E) creds = Inr p"
    and claim: "claim_pending_action (rt_lib E) (rt_clock E 0) (rt_token E) i (pr_user_id p) (st_actions st) = (Inr (v, True), db)"
    and st1: "st1 = snd (dispatch_claimed E v (pr_user_id p) (st\<lparr>st_actions := db\<rparr>))"
    using approve_claims [OF h] assms(3) by (metis snd_conv)
  obtain a where a: "find_owned (st_actions st) i (pr_user_id p) = Some a" "pa_status a = PENDING"
      "v = action_to_dict (claimed_row (rt_clock E 0 0) (rt_token E) a)"
    using claim_True [OF claim] by blast
  have own: "find_action (st_actions st) i = Some a" "pa_user_id a = pr_user_id p"
    using a(1) by (auto simp: find_owned_def split: option.splits if_splits)
  have cmd: "command_of v = \<lparr>cmd_action_type = pa_action_type a, cmd_payload = pa_payload a, cmd_key = pa_command_key a\<rparr>"
    using a(3) by (simp add: command_of_def action_to_dict_def claimed_row_def)
  have "st_history st1 \<noteq> st_history (st\<lparr>st_actions := db\<rparr>)" using assms(4) by simp
  from dispatch_history [OF this [unfolded st1]] obtain connection av where
    "fst (load_connected_google_connection (rt_cred E) (rt_codec E) (rt_nonce E) (pr_user_id p) (st_tokens st)) = Inr connection"
    "gc_user_id connection = pr_user_id p"
    "st_history st1 = snd (execute_action (al_handler (rt_lib E)) (rt_services E connection) av (command_of v) (st_history st))"
    unfolding st1 by auto
  moreover have "st_history (snd (approve_pending_action_endpoint E' creds' i st2)) = st_history st2"
    if lib: "rt_lib E' = rt_lib E" and later: "(service_step (rt_lib E))\<^sup>*\<^sup>* (st_actions st1) (st_actions st2)"
  proof (rule ccontr)
    assume again: "\<not> ?thesis"
    have "(service_step (rt_lib E))\<^sup>*\<^sup>* db (st_actions st2)"
      using dispatch_steps [OF assms(2), of "st\<lparr>st_actions := db\<rparr>" v "pr_user_id p"] later unfolding st1 by simp
    from claim_once [OF assms(1) claim this] show False using approve_claims [OF again] lib by (metis fst_conv)
  qed
  ultimately show ?thesis using p own a(2) unfolding cmd by blast
qed

text \<open>A concrete deployment: user 3 is connected and approves the pending task of the demonstration table.\<close>

definition demo_router :: "(unit, unit) router_env" where
  "demo_router = \<lparr>rt_auth = \<lparr>au_decode = (\<lambda>_ token. if token = ''jwt'' then
         Some (JObj [(''sub'', JStr (uuid_text 3)), (''email'', JStr ''a@b.com'')]) else None), au_build = (\<lambda>_ _ _. Some ())\<rparr>,
     rt_jwt = \<lparr>js_secret_key = ''k'', js_algorithm = ''HS256'', js_audience = ''a'', js_issuer = ''i''\<rparr>,
     rt_cred = toy_cred_lib, rt_codec = Inr toy_codec, rt_nonce = toy_nonce, rt_lib = demo_lib,
     rt_services = (\<lambda>_. demo_services), rt_idle = demo_services, rt_others = (\<lambda>_ db. db), rt_clock = (\<lambda>_ _. 5), rt_token = ''tok'',
     rt_operators = [], rt_tools = (\<lambda>_. demo_tool_env), rt_timezone = ''UTC'', rt_generate = (\<lambda>_ _ _. Inl LlmOperationTimeout)\<rparr>"

definition demo_router_state :: router_state where
  "demo_router_state = \<lparr>st_actions = demo_db, st_tokens = toy_tokens 3, st_history = []\<rparr>"

lemma demo_caller: "\<exists>p. get_current_user_info (rt_auth demo_router) (rt_jwt demo_router) (Some ''jwt'') = Inr p \<and> pr_user_id p = 3"
proof -
  have "strip ''jwt'' = ''jwt''" "casefold (strip ''a@b.com'') = ''a@b.com''" by code_simp+
  then show ?thesis
    by (simp add: get_current_user_info_def demo_router_def from_verified_claims_def parse_subject_def normalize_email_claim_def jget_def
        uuid_of_text_text strip_uuid_text uuid_text_nonempty)
qed

lemma demo_dispatch:
  "snd (execute_action (al_handler demo_lib) demo_services (no_services\<lparr>tasks_service := True\<rparr>) (command_of demo_view) []) \<noteq> []"
proof -
  have "command_of demo_view = \<lparr>cmd_action_type = ''create_task'', cmd_payload = demo_canonical, cmd_key = demo_key\<rparr>"
    by (simp add: command_of_def demo_view_def action_to_dict_def claimed_row_def) (simp add: demo_row_def new_action_def)
  then show ?thesis
    by (simp add: execute_action_def demo_lib_def demo_handler_lib_def demo_canonical_again no_services_def
      create_task_command_def run_job_def run_google_operation_def create_task_sync_def demo_services_def
      numeral_3_eq_3 call_sync_def bind_call_def get_list_def Action_Handlers.or_empty_def py_get_def is_jobj_def jget_def
      truthy_def Action_Handlers.next_page_token_def insert_task_def confirm_task_def Let_def)
qed

lemma demo_approved: "st_history (snd (approve_pending_action_endpoint demo_router (Some ''jwt'') 1 demo_router_state)) \<noteq> []"
proof -
  obtain p where p: "authenticated demo_router (Some ''jwt'') = Inr p" "pr_user_id p = 3"
    using demo_caller by (auto simp: authenticated_def)
  obtain db where claim: "claim_pending_action demo_lib (\<lambda>n. 5) ''tok'' 1 3 demo_db = (Inr (demo_view, True), db)"
    using demo_claimed_row unfolding demo_claimed_def demo_view_def by (metis prod.collapse)
  have "providers (av_action_type demo_view) = Some (''tasks'', ''v1'', no_services\<lparr>tasks_service := True\<rparr>)"
    by (simp add: providers_def demo_view_def action_to_dict_def claimed_row_def)
  then have "action_provider_services demo_router (av_action_type demo_view) 3 (toy_tokens 3) =
      (Inr (no_services\<lparr>tasks_service := True\<rparr>, demo_services), toy_tokens 3)"
    using toy_loads [of toy_nonce 3] by (simp add: action_provider_services_def demo_router_def build_google_api_service_def)
  then have "st_history (snd (dispatch_claimed demo_router demo_view 3 (demo_router_state\<lparr>st_actions := db\<rparr>))) =
      snd (execute_action (al_handler demo_lib) demo_services (no_services\<lparr>tasks_service := True\<rparr>) (command_of demo_view) [])"
    by (simp add: dispatch_claimed_def demo_router_state_def execute_claimed_action_def split_beta demo_router_def split: option.splits)
  then show ?thesis
    using p claim demo_dispatch by (simp add: approve_pending_action_endpoint_def demo_router_state_def demo_router_def)
qed

theorem approval_acts_for_owner_once_witness:
  "let st1 = snd (approve_pending_action_endpoint demo_router (Some ''jwt'') 1 demo_router_state) in
   st_history st1 \<noteq> [] \<and>
   st_history (snd (approve_pending_action_endpoint demo_router (Some ''jwt'') 1 st1)) = st_history st1"
proof -
  define r st1 where "r = fst (approve_pending_action_endpoint demo_router (Some ''jwt'') 1 demo_router_state)"
    and "st1 = snd (approve_pending_action_endpoint demo_router (Some ''jwt'') 1 demo_router_state)"
  have run: "approve_pending_action_endpoint demo_router (Some ''jwt'') 1 demo_router_state = (r, st1)" by (simp add: r_def st1_def)
  have pre: "action_inv (st_actions demo_router_state)" "others_ok demo_router" "st_history st1 \<noteq> st_history demo_router_state"
    using demo_db_inv demo_approved by (simp_all add: demo_router_state_def others_ok_def demo_router_def st1_def)
  have "st_history (snd (approve_pending_action_endpoint demo_router (Some ''jwt'') 1 st1)) = st_history st1"
    using approval_acts_for_owner_once [OF pre(1,2) run pre(3), THEN conjunct2, of demo_router st1 "Some ''jwt''"] by simp
  then show ?thesis using demo_approved unfolding Let_def st1_def [symmetric] by simp
qed

section \<open>Reconciliation\<close>

lemma others_keep_inv: "others_ok E \<Longrightarrow> action_inv db \<Longrightarrow> action_inv (rt_others E n db)"
  unfolding others_ok_def using service_steps_spec by blast

lemma reconcile_with_reads:
  assumes "action_inv (st_actions st)" and "others_ok E"
  shows "reads_after (st_history st) (st_history (snd (reconcile_with E av sv i u st))) \<and>
    action_inv (st_actions (snd (reconcile_with E av sv i u st)))"
  using reconciliation_repeats_nothing [where interfere = "rt_others E 1" and h = "st_history st" and lib = "rt_lib E" and sv = sv
      and av = av and ck = "rt_clock E 0" and i = i and u = u, OF others_keep_inv [OF assms(2,1), of 0] others_keep_inv [OF assms(2)]]
  by (simp add: reconcile_with_def split_beta)

lemma operator_cases:
  "require_pending_action_operator E creds = Inr p \<longleftrightarrow>
     get_current_user_info (rt_auth E) (rt_jwt E) creds = Inr p \<and> pr_user_id p \<in> set (rt_operators E)"
  by (auto simp: require_pending_action_operator_def authenticated_def map_sum_Inr split: sum.splits)

text \<open>
  Reconciliation is for operators, and only looks. A caller that is not a configured operator with
  a valid JWT changes nothing, neither rows nor credentials, and causes no call; for an operator,
  whatever Google answers and whatever other sessions commit meanwhile, every call made is a read and
  the table of actions keeps its invariant.
\<close>

lemma reconciliation_for_operators:
  assumes "action_inv (st_actions st)" and "others_ok E"
    and "reconcile_pending_action_endpoint E creds i st = (r, st')"
  shows "(st' \<noteq> st \<longrightarrow> (\<exists>p. get_current_user_info (rt_auth E) (rt_jwt E) creds = Inr p \<and> pr_user_id p \<in> set (rt_operators E))) \<and>
    reads_after (st_history st) (st_history st') \<and> action_inv (st_actions st')"
proof (cases "require_pending_action_operator E creds")
  case (Inl e)
  then show ?thesis using assms(1,3) by (auto simp: reconcile_pending_action_endpoint_def reads_after_def)
next
  case (Inr p)
  have reads: "reads_after (st_history st) (st_history (snd (reconcile_with E av sv i u (st\<lparr>st_tokens := tdb\<rparr>)))) \<and>
      action_inv (st_actions (snd (reconcile_with E av sv i u (st\<lparr>st_tokens := tdb\<rparr>))))" for av sv u tdb
    using reconcile_with_reads [of "st\<lparr>st_tokens := tdb\<rparr>" E] assms(1,2) by simp
  have "reads_after (st_history st) (st_history (snd (reconcile_pending_action_endpoint E creds i st))) \<and>
      action_inv (st_actions (snd (reconcile_pending_action_endpoint E creds i st)))"
    using Inr reads assms(1)
    by (auto simp: reconcile_pending_action_endpoint_def reads_after_def split: sum.splits prod.splits provider_error.splits)
  then show ?thesis using assms(3) Inr operator_cases [of E creds p] by auto
qed

theorem reconciliation_for_operators_witness:
  "snd (reconcile_pending_action_endpoint demo_router (Some ''jwt'') 1 demo_router_state) = demo_router_state"
proof -
  have pre: "action_inv (st_actions demo_router_state)" "others_ok demo_router"
    using demo_db_inv by (simp_all add: demo_router_state_def others_ok_def demo_router_def)
  obtain r st' where run: "reconcile_pending_action_endpoint demo_router (Some ''jwt'') 1 demo_router_state = (r, st')" by fastforce
  have "set (rt_operators demo_router) = {}" by (simp add: demo_router_def)
  then show ?thesis using reconciliation_for_operators [OF pre run] run by auto
qed

section \<open>The event stream\<close>

fun attentive :: "stream_tick \<Rightarrow> bool" where
  "attentive (Waited gone) = (\<not> gone)"
| "attentive (Produced _ gone) = (\<not> gone)"
| "attentive (Finished gone) = (\<not> gone)"
| "attentive (Raised gone) = (\<not> gone)"
| "attentive Interrupted = True"

lemma stream_nothing_after:
  assumes "stream_frames p ticks = (frames, e)" and "frames = pre @ Frame item # post" and "terminal_type (fst item)"
  shows "post = [] \<and> e = StreamReturned"
  using assms
proof (induction p ticks arbitrary: frames pre rule: stream_frames.induct)
  case (2 p gone ticks)
  obtain fs where "\<not> gone" "stream_frames p ticks = (fs, e)" "frames = Heartbeat # fs"
    using 2(2,3) by (auto split: if_splits prod.splits)
  then show ?case using 2 by (cases pre) auto
next
  case (3 p it gone ticks)
  show ?case
  proof (cases "terminal_type (fst it)")
    case True
    then show ?thesis using 3(2,3) by (cases pre) (auto split: if_splits)
  next
    case False
    obtain fs where "\<not> gone" "stream_frames p ticks = (fs, e)" "frames = Frame it # fs"
      using 3(2,3) False by (auto split: if_splits prod.splits)
    then show ?thesis using 3 False by (cases pre) auto
  qed
qed (auto simp: Cons_eq_append_conv principal_get_def split: if_splits)

lemma stream_closed:
  assumes "stream_frames p ticks = (frames, e)" and "e = StreamReturned" and "list_all attentive ticks"
  shows "\<exists>pre item. frames = pre @ [Frame item] \<and> terminal_type (fst item)"
  using assms
proof (induction p ticks arbitrary: frames rule: stream_frames.induct)
  case (2 p gone ticks)
  then obtain fs where "stream_frames p ticks = (fs, e)" "frames = Heartbeat # fs" "\<not> gone" by (auto split: prod.splits)
  then show ?case using 2 by (metis append_Cons list.pred_inject(2))
next
  case (3 p it gone ticks)
  show ?case
  proof (cases "terminal_type (fst it)")
    case False
    then obtain fs where "stream_frames p ticks = (fs, e)" "frames = Frame it # fs" "\<not> gone"
      using 3 by (auto split: prod.splits)
    then show ?thesis using 3 False by (metis append_Cons list.pred_inject(2))
  next
    case True
    then have "frames = [] @ [Frame it]" using 3 by auto
    then show ?thesis using True by blast
  qed
qed (auto simp: terminal_type_def principal_get_def)

text \<open>
  The event stream has one terminal event at most, at its end: nothing follows an event
  \<open>done\<close> or \<open>error\<close>, whatever the agent goes on to produce, and a stream that was closed
  normally while the client stayed connected ends with such an event.
\<close>

lemma stream_ends_with_terminal:
  assumes "stream_frames p ticks = (frames, e)"
  shows "(\<forall>pre item post. frames = pre @ Frame item # post \<and> terminal_type (fst item) \<longrightarrow> post = [] \<and> e = StreamReturned) \<and>
    (e = StreamReturned \<and> list_all attentive ticks \<longrightarrow> (\<exists>pre item. frames = pre @ [Frame item] \<and> terminal_type (fst item)))"
  using stream_nothing_after [OF assms] stream_closed [OF assms] by blast

lemma stream_ends_with_terminal_witness:
  "\<exists>pre item. fst (stream_frames demo_principal [Waited False, Produced (''token'', ''a'', None) False, Finished False]) = pre @ [Frame item] \<and>
     terminal_type (fst item)"
proof -
  let ?ticks = "[Waited False, Produced (''token'', ''a'', None) False, Finished False]"
  have run: "stream_frames demo_principal ?ticks = ([Heartbeat, Frame (''token'', ''a'', None), Frame (''done'', [], None)], StreamReturned)"
    by (simp add: terminal_type_def)
  have "StreamReturned = StreamReturned \<and> list_all attentive ?ticks" by simp
  from stream_ends_with_terminal [OF run, THEN conjunct2, rule_format, OF this] show ?thesis unfolding run by simp
qed

text \<open>
  An agent that raises is not reported. The handlers for an unexpected exception log the caller
  with \<open>user_info.get\<close>, which a principal does not have: the exception this raises replaces the
  handler's work. The stream breaks off after the events it has sent, without the terminal error
  event, and the other agent endpoints do not send the structured error.
\<close>

lemma raised_agent_not_reported:
  assumes "list_all (\<lambda>item. \<not> terminal_type (fst item)) items"
  shows "stream_frames p (map (\<lambda>item. Produced item False) items @ [Raised False]) = (map Frame items, StreamRaised) \<and>
    agent_response p code RunTypeError = Inl RouterUnhandled"
  using assms by (induction items) (auto simp: principal_get_def agent_response_def last_handler_def)

theorem raised_agent_not_reported_witness:
  "stream_frames demo_principal [Produced (''token'', ''a'', None) False, Raised False] = ([Frame (''token'', ''a'', None)], StreamRaised)"
  using raised_agent_not_reported [of "[(''token'', ''a'', None)]" demo_principal] by (simp add: terminal_type_def)

section \<open>Operators\<close>

lemma split_on_word: "sep \<notin> set w \<Longrightarrow> split_on sep (w @ sep # t) = w # split_on sep t"
  by (induction w) auto

lemma split_on_single: "sep \<notin> set w \<Longrightarrow> split_on sep w = [w]"
  by (induction w) auto

lemma split_on_join: "ws \<noteq> [] \<Longrightarrow> (\<And>w. w \<in> set ws \<Longrightarrow> sep \<notin> set w) \<Longrightarrow> split_on sep (join [sep] ws) = ws"
  by (induction "[sep]" ws rule: join.induct) (auto simp: split_on_single split_on_word)

lemma operator_identities_texts:
  assumes "operator_identities raws ids = Some out" and "\<exists>us. ids = map uuid_text us \<and> distinct us \<and> list_all (\<lambda>u. u < 2 ^ 128) us"
  shows "\<exists>us. out = map uuid_text us \<and> distinct us \<and> list_all (\<lambda>u. u < 2 ^ 128) us"
  using assms
proof (induction raws ids rule: operator_identities.induct)
  case (2 raw raws ids)
  show ?case
  proof (cases "strip raw = []")
    case False
    obtain u where u: "uuid_of_text (strip raw) = Some u" "uuid_text u \<notin> set ids"
      "operator_identities raws (ids @ [uuid_text u]) = Some out"
      using 2(3) False by (auto split: option.splits if_splits)
    obtain us where us: "ids = map uuid_text us" "distinct us" "list_all (\<lambda>u. u < 2 ^ 128) us" using 2(4) by blast
    have "ids @ [uuid_text u] = map uuid_text (us @ [u])" "distinct (us @ [u])" "list_all (\<lambda>u. u < 2 ^ 128) (us @ [u])"
      using us u(2) uuid_of_text_bound [OF u(1)] by auto
    then show ?thesis using 2(2) [OF False u(1,2,3)] by blast
  qed (use 2 in auto)
qed simp

lemma parse_uuid_texts: "list_all (\<lambda>u. u < 2 ^ 128) us \<Longrightarrow> parse_uuids (map uuid_text us) = Some us"
  by (induction us) (auto simp: uuid_of_text_text uuid_text_nonempty)

text \<open>The validated operator setting always parses, to distinct identities.\<close>

lemma operator_setting_parses:
  assumes "validate_pending_action_operator_ids v = Some setting"
  shows "\<exists>us. pending_action_operator_ids setting = Some us \<and> distinct us"
proof -
  have "\<exists>us. setting = join '','' (map uuid_text us) \<and> distinct us \<and> list_all (\<lambda>u. u < 2 ^ 128) us"
  proof (cases v)
    case JNull
    then show ?thesis using assms by (intro exI [of _ "[]"]) (simp add: validate_pending_action_operator_ids_def)
  next
    case (JStr t)
    then obtain out where "operator_identities (split_on (CHR '','') t) [] = Some out" "setting = join '','' out"
      using assms by (auto simp: validate_pending_action_operator_ids_def)
    then show ?thesis using operator_identities_texts [of _ "[]" out] by fastforce
  qed (use assms in \<open>auto simp: validate_pending_action_operator_ids_def\<close>)
  then obtain us where us: "setting = join '','' (map uuid_text us)" "distinct us" "list_all (\<lambda>u. u < 2 ^ 128) us" by blast
  have comma: "CHR '','' \<notin> set (uuid_text u)" for u
    using uuid_text_chars [of "CHR '',''" u] by (auto simp: is_hex_def hex_value_def)
  have "parse_uuids (split_on (CHR '','') setting) = Some us"
  proof (cases us)
    case (Cons u rest)
    then have "split_on (CHR '','') setting = map uuid_text us"
      unfolding us(1) using comma by (intro split_on_join) auto
    then show ?thesis using parse_uuid_texts [OF us(3)] by simp
  qed (simp add: us(1))
  then show ?thesis using us(2) by (auto simp: pending_action_operator_ids_def)
qed

end
