(* ===== verification/Configuration.thy ===== *)
theory Configuration
  imports Router_Safety Push_Router
begin

text \<open>
  The process configuration of \<open>server/config.py\<close>: the validators of the text settings with the
  parts of \<open>urllib.parse\<close> they use, the checks between settings, and what a configuration that a
  process has accepted guarantees. The conversion of environment text to numbers, booleans, UUIDs and
  enumerations belongs to pydantic: those settings arrive typed.
\<close>

section \<open>Splitting a URL\<close>

text \<open>
  \<open>ul_brackets\<close> is the check of an address in brackets by the \<open>ipaddress\<close> module,
  \<open>ul_decode\<close> the UTF-8 decoding of bytes outside ASCII, with replacement characters.
\<close>

record url_lib =
  ul_brackets :: "str \<Rightarrow> bool"
  ul_decode :: "str \<Rightarrow> str"

record split_url =
  us_scheme :: str
  us_netloc :: str
  us_path :: str
  us_query :: str
  us_fragment :: str

definition before_char :: "char \<Rightarrow> str \<Rightarrow> str" where
  "before_char c s = takeWhile (\<lambda>d. d \<noteq> c) s"

definition after_char :: "char \<Rightarrow> str \<Rightarrow> str" where
  "after_char c s = drop 1 (dropWhile (\<lambda>d. d \<noteq> c) s)"

definition is_alpha :: "char \<Rightarrow> bool" where
  "is_alpha c = (let n = (of_char c :: nat) in 65 \<le> n \<and> n \<le> 90 \<or> 97 \<le> n \<and> n \<le> 122)"

definition scheme_char :: "char \<Rightarrow> bool" where
  "scheme_char c = (is_alpha c \<or> is_digit c \<or> c \<in> set ''+-.'')"

definition clean_url :: "str \<Rightarrow> str" where
  "clean_url url = filter (\<lambda>c. (of_char c :: nat) \<notin> {9, 10, 13}) (dropWhile (\<lambda>c. (of_char c :: nat) \<le> 32) url)"

definition split_scheme :: "str \<Rightarrow> str \<times> str" where
  "split_scheme url =
     (let s = before_char (CHR '':'') url in
      if CHR '':'' \<in> set url \<and> s \<noteq> [] \<and> is_alpha (hd s) \<and> list_all scheme_char s
      then (lower s, after_char (CHR '':'') url) else ([], url))"

definition split_netloc :: "str \<Rightarrow> str \<times> str" where
  "split_netloc url =
     (if starts_with ''//'' url
      then (takeWhile (\<lambda>c. c \<notin> set ''/?#'') (drop 2 url), dropWhile (\<lambda>c. c \<notin> set ''/?#'') (drop 2 url))
      else ([], url))"

text \<open>\<open>None\<close> is the \<open>ValueError\<close> of a malformed address in brackets.\<close>

definition urlsplit :: "url_lib \<Rightarrow> str \<Rightarrow> split_url option" where
  "urlsplit lib url =
     (let (scheme, rest) = split_scheme (clean_url url);
          (netloc, tail) = split_netloc rest;
          hierarchy = before_char (CHR ''#'') tail
      in if (CHR ''['' \<in> set netloc) \<noteq> (CHR '']'' \<in> set netloc) \<or> CHR ''['' \<in> set netloc \<and> \<not> ul_brackets lib netloc
         then None
         else Some \<lparr>us_scheme = scheme, us_netloc = netloc, us_path = before_char (CHR ''?'') hierarchy,
                    us_query = after_char (CHR ''?'') hierarchy, us_fragment = after_char (CHR ''#'') tail\<rparr>)"

text \<open>The parts of the network location; the empty text stands for \<open>None\<close> too.\<close>

definition userinfo :: "split_url \<Rightarrow> str" where
  "userinfo u = (if CHR ''@'' \<in> set (us_netloc u) then rev (after_char (CHR ''@'') (rev (us_netloc u))) else [])"

definition username :: "split_url \<Rightarrow> str" where
  "username u = before_char (CHR '':'') (userinfo u)"

definition password :: "split_url \<Rightarrow> str" where
  "password u = after_char (CHR '':'') (userinfo u)"

definition hostname :: "split_url \<Rightarrow> str" where
  "hostname u =
     (let hostinfo = rev (before_char (CHR ''@'') (rev (us_netloc u))) in
      if CHR ''['' \<in> set hostinfo then before_char (CHR '']'') (after_char (CHR ''['') hostinfo) else before_char (CHR '':'') hostinfo)"

section \<open>Query parameters\<close>

fun unquote_to_bytes :: "str \<Rightarrow> str" where
  "unquote_to_bytes (p # a # b # r) =
     (case (hex_value a, hex_value b) of
        (Some x, Some y) \<Rightarrow>
          (if p = CHR ''%'' then char_of (16 * x + y) # unquote_to_bytes r else p # unquote_to_bytes (a # b # r))
      | _ \<Rightarrow> p # unquote_to_bytes (a # b # r))"
| "unquote_to_bytes r = r"

definition unquote_run :: "url_lib \<Rightarrow> str \<Rightarrow> str" where
  "unquote_run lib run = (let b = unquote_to_bytes run in if is_ascii b then b else ul_decode lib b)"

fun unquote_runs :: "url_lib \<Rightarrow> str \<Rightarrow> str \<Rightarrow> str" where
  "unquote_runs lib run [] = unquote_run lib run"
| "unquote_runs lib run (c # cs) =
     (if (of_char c :: nat) < 128 then unquote_runs lib (run @ [c]) cs
      else unquote_run lib run @ c # unquote_runs lib [] cs)"

definition unquote_plus :: "url_lib \<Rightarrow> str \<Rightarrow> str" where
  "unquote_plus lib s = unquote_runs lib [] (map (\<lambda>c. if c = CHR ''+'' then CHR '' '' else c) s)"

text \<open>The parameters with a value, in order.\<close>

definition parse_qsl :: "url_lib \<Rightarrow> str \<Rightarrow> (str \<times> str) list" where
  "parse_qsl lib query =
     map (\<lambda>nv. (unquote_plus lib (before_char (CHR ''='') nv), unquote_plus lib (after_char (CHR ''='') nv)))
       (filter (\<lambda>nv. after_char (CHR ''='') nv \<noteq> []) (split_on (CHR ''&'') query))"

definition database_tls :: "url_lib \<Rightarrow> split_url \<Rightarrow> str" where
  "database_tls lib u =
     (let database_query = parse_qsl lib (us_query u) in
      casefold (case map_of database_query ''ssl'' of
          Some v \<Rightarrow> v
        | None \<Rightarrow> (case map_of database_query ''sslmode'' of Some v \<Rightarrow> v | None \<Rightarrow> [])))"

section \<open>Validators\<close>

datatype environment = EnvDevelopment | EnvTest | EnvStaging | EnvProduction

datatype service_role = RoleApi | RoleAutomationWorker | RoleCombined

definition rstrip_slash :: "str \<Rightarrow> str" where
  "rstrip_slash s = rev (dropWhile (\<lambda>c. c = CHR ''/'') (rev s))"

definition require_absolute_http_url :: "url_lib \<Rightarrow> str \<Rightarrow> str option" where
  "require_absolute_http_url lib v =
     (case urlsplit lib v of
        None \<Rightarrow> None
      | Some parsed \<Rightarrow>
          (if us_scheme parsed \<notin> {''http'', ''https''} \<or> us_netloc parsed = [] then None
           else if username parsed \<noteq> [] \<or> password parsed \<noteq> [] then None
           else Some (rstrip_slash v)))"

definition bare_origin :: "split_url \<Rightarrow> bool" where
  "bare_origin parsed = (us_scheme parsed \<in> {''http'', ''https''} \<and> us_netloc parsed \<noteq> [] \<and> us_path parsed = [] \<and>
     us_query parsed = [] \<and> us_fragment parsed = [] \<and> username parsed = [] \<and> password parsed = [])"

fun parse_cors_origins :: "url_lib \<Rightarrow> str list \<Rightarrow> str list \<Rightarrow> str list option" where
  "parse_cors_origins lib [] origins = Some origins"
| "parse_cors_origins lib (raw # raws) origins =
     (let origin = rstrip_slash (strip raw) in
      if origin = [] then parse_cors_origins lib raws origins
      else case urlsplit lib origin of
        None \<Rightarrow> None
      | Some parsed \<Rightarrow>
          (if \<not> bare_origin parsed then None
           else if origin \<in> set origins then None
           else parse_cors_origins lib raws (origins @ [origin])))"

definition EXAMPLE_SECRET_KEY_PLACEHOLDER :: str where
  "EXAMPLE_SECRET_KEY_PLACEHOLDER = ''REPLACE_WITH_A_RANDOM_32_BYTE_OR_LONGER_SECRET''"

definition require_nonblank_string :: "str \<Rightarrow> json \<Rightarrow> str option" where
  "require_nonblank_string field_name v = (case v of
      JStr t \<Rightarrow>
        (let normalized = strip t in
         if normalized = [] then None
         else if field_name = ''SECRET_KEY'' \<and> (normalized = EXAMPLE_SECRET_KEY_PLACEHOLDER \<or> length (utf8 normalized) < 32)
         then None else Some normalized)
    | _ \<Rightarrow> None)"

definition normalize_optional_string :: "json \<Rightarrow> str option option" where
  "normalize_optional_string v = (case v of
      JNull \<Rightarrow> Some None
    | JStr t \<Rightarrow> Some (if strip t = [] then None else Some (strip t))
    | _ \<Rightarrow> None)"

definition validate_redirect_url :: "url_lib \<Rightarrow> json \<Rightarrow> str option" where
  "validate_redirect_url lib v = (case v of
      JStr t \<Rightarrow> (if strip t = [] then None else require_absolute_http_url lib (strip t))
    | _ \<Rightarrow> None)"

definition validate_push_audience :: "url_lib \<Rightarrow> str option \<Rightarrow> str option option" where
  "validate_push_audience lib v = (case v of None \<Rightarrow> Some None | Some t \<Rightarrow> map_option Some (require_absolute_http_url lib t))"

definition validate_push_service_account_email :: "str option \<Rightarrow> str option option" where
  "validate_push_service_account_email v = (case v of
      None \<Rightarrow> Some None
    | Some t \<Rightarrow> (if list_ex is_space t \<or> count_list t (CHR ''@'') \<noteq> 1 then None else Some (Some (casefold t))))"

definition validate_database_url :: "url_lib \<Rightarrow> str \<Rightarrow> str option" where
  "validate_database_url lib v =
     (case urlsplit lib v of
        None \<Rightarrow> None
      | Some parsed \<Rightarrow> (if us_scheme parsed \<noteq> ''postgresql+asyncpg'' \<or> hostname parsed = [] then None else Some v))"

definition validate_redis_url :: "url_lib \<Rightarrow> json \<Rightarrow> str option" where
  "validate_redis_url lib v = (case v of
      JStr t \<Rightarrow>
        (if strip t = [] then None
         else case urlsplit lib (strip t) of
           None \<Rightarrow> None
         | Some parsed \<Rightarrow>
             (if us_scheme parsed \<notin> {''redis'', ''rediss''} \<or> hostname parsed = [] then None else Some (strip t)))
    | _ \<Rightarrow> None)"

text \<open>
  \<open>expanduser\<close> gives the text of \<open>Path(value).expanduser()\<close>, or \<open>None\<close> when there is no home directory;
  \<open>project_root\<close> is \<open>PROJECT_ROOT\<close>.
\<close>

definition resolve_credential_path :: "(str \<Rightarrow> str option) \<Rightarrow> str \<Rightarrow> json \<Rightarrow> str option option" where
  "resolve_credential_path expanduser project_root v = (case v of
      JNull \<Rightarrow> Some None
    | JStr t \<Rightarrow>
        (if strip t = [] then Some None
         else case expanduser t of
           None \<Rightarrow> None
         | Some p \<Rightarrow> Some (Some (if starts_with ''/'' p then p else if p = ''.'' then project_root else project_root @ ''/'' @ p)))
    | _ \<Rightarrow> None)"

definition validate_oauth_token_active_key_id :: "json \<Rightarrow> str option option" where
  "validate_oauth_token_active_key_id v = (case v of
      JNull \<Rightarrow> Some None
    | JStr t \<Rightarrow> (if strip t = [] \<or> list_ex is_space t then None else Some (Some (strip t)))
    | _ \<Rightarrow> None)"

definition require_oauth_client_secrets_path :: "str option \<Rightarrow> str option" where
  "require_oauth_client_secrets_path v = v"

definition validate_cors_origins :: "url_lib \<Rightarrow> json \<Rightarrow> str option" where
  "validate_cors_origins lib v = (case v of
      JNull \<Rightarrow> Some []
    | JStr t \<Rightarrow> map_option (join '','') (parse_cors_origins lib (split_on (CHR '','') t) [])
    | _ \<Rightarrow> None)"

section \<open>The settings object\<close>

text \<open>The limits that no other record holds.\<close>

record service_limits =
  DATABASE_CONNECT_TIMEOUT_SECONDS :: rat
  DATABASE_POOL_SIZE :: int
  DATABASE_MAX_OVERFLOW :: int
  PROVIDER_MAX_CONCURRENCY :: int
  REDIS_MAX_CONCURRENCY :: int
  MAX_REQUEST_BODY_BYTES :: int
  LLM_STREAM_TIMEOUT_SECONDS :: rat
  LLM_STREAM_IDLE_TIMEOUT_SECONDS :: rat
  LLM_STREAM_QUEUE_SIZE :: int
  GMAIL_NOTIFICATION_POLL_SECONDS :: rat

definition limits_ok :: "service_limits \<Rightarrow> bool" where
  "limits_ok l \<longleftrightarrow>
     0 < DATABASE_CONNECT_TIMEOUT_SECONDS l \<and> DATABASE_CONNECT_TIMEOUT_SECONDS l \<le> 120 \<and>
     1 \<le> DATABASE_POOL_SIZE l \<and> DATABASE_POOL_SIZE l \<le> 100 \<and>
     0 \<le> DATABASE_MAX_OVERFLOW l \<and> DATABASE_MAX_OVERFLOW l \<le> 100 \<and>
     1 \<le> PROVIDER_MAX_CONCURRENCY l \<and> PROVIDER_MAX_CONCURRENCY l \<le> 64 \<and>
     1 \<le> REDIS_MAX_CONCURRENCY l \<and> REDIS_MAX_CONCURRENCY l \<le> 256 \<and>
     1024 \<le> MAX_REQUEST_BODY_BYTES l \<and> MAX_REQUEST_BODY_BYTES l \<le> 10485760 \<and>
     0 < LLM_STREAM_TIMEOUT_SECONDS l \<and> LLM_STREAM_TIMEOUT_SECONDS l \<le> 600 \<and>
     0 < LLM_STREAM_IDLE_TIMEOUT_SECONDS l \<and> LLM_STREAM_IDLE_TIMEOUT_SECONDS l \<le> 300 \<and>
     1 \<le> LLM_STREAM_QUEUE_SIZE l \<and> LLM_STREAM_QUEUE_SIZE l \<le> 1024 \<and>
     0 < GMAIL_NOTIFICATION_POLL_SECONDS l \<and> GMAIL_NOTIFICATION_POLL_SECONDS l \<le> 60"

record app_settings =
  ap_environment :: environment
  ap_service_role :: service_role
  ap_numeric :: settings
  ap_limits :: service_limits
  ap_operator_ids :: str
  ap_database_url :: str
  ap_redis_url :: str
  ap_redis_trusted_local_network :: bool
  ap_jwt :: jwt_settings
  ap_client_secrets :: str
  ap_redirect_uri :: str
  ap_frontend_uri :: str
  ap_keyring_path :: "str option"
  ap_active_key_id :: "str option"
  ap_project_id :: str
  ap_location :: str
  ap_model :: str
  ap_application_credentials :: "str option"
  ap_topic :: "str option"
  ap_push :: push_settings
  ap_cors :: str

definition cors_allowed_origins :: "app_settings \<Rightarrow> str list" where
  "cors_allowed_origins c = filter (\<lambda>o1. o1 \<noteq> []) (split_on (CHR '','') (ap_cors c))"

definition oauth_token_encryption_configured :: "app_settings \<Rightarrow> bool" where
  "oauth_token_encryption_configured c = (ap_keyring_path c \<noteq> None \<and> ap_active_key_id c \<noteq> None)"

definition requires_redis :: "service_role \<Rightarrow> bool" where
  "requires_redis role = (role \<in> {RoleApi, RoleCombined})"

definition runs_automation_worker :: "bool \<Rightarrow> service_role \<Rightarrow> bool" where
  "runs_automation_worker enabled role = (enabled \<and> role \<in> {RoleAutomationWorker, RoleCombined})"

text \<open>The environment variable that the Google clients read.\<close>

definition configure_google_application_credentials :: "app_settings \<Rightarrow> (str \<rightharpoonup> str) \<Rightarrow> (str \<rightharpoonup> str)" where
  "configure_google_application_credentials c environ =
     (case ap_application_credentials c of
        None \<Rightarrow> environ
      | Some path \<Rightarrow> environ(''GOOGLE_APPLICATION_CREDENTIALS'' \<mapsto> path))"

section \<open>Checks between settings\<close>

definition missing_settings :: "app_settings \<Rightarrow> str list" where
  "missing_settings c =
     (if AUTOMATION_OWNER_ID (ap_push c) = None then [''AUTOMATION_OWNER_ID''] else []) @
     map fst (filter (\<lambda>(name, v). v = None)
       [(''PUBSUB_TOPIC'', ap_topic c), (''PUBSUB_SUBSCRIPTION'', PUBSUB_SUBSCRIPTION (ap_push c)),
        (''PUBSUB_PUSH_AUDIENCE'', PUBSUB_PUSH_AUDIENCE (ap_push c)),
        (''PUBSUB_PUSH_SERVICE_ACCOUNT_EMAIL'', PUBSUB_PUSH_SERVICE_ACCOUNT_EMAIL (ap_push c))])"

definition full_name :: "str \<Rightarrow> str option \<Rightarrow> bool" where
  "full_name marker v = (case v of None \<Rightarrow> False | Some t \<Rightarrow> starts_with ''projects/'' t \<and> contains marker t)"

definition automation_complete :: "app_settings \<Rightarrow> bool" where
  "automation_complete c = (missing_settings c = [] \<and> full_name ''/topics/'' (ap_topic c) \<and>
     full_name ''/subscriptions/'' (PUBSUB_SUBSCRIPTION (ap_push c)))"

definition uses_https :: "url_lib \<Rightarrow> str \<Rightarrow> bool" where
  "uses_https lib url = (case urlsplit lib url of None \<Rightarrow> False | Some u \<Rightarrow> us_scheme u = ''https'')"

definition deployment_hardened :: "url_lib \<Rightarrow> app_settings \<Rightarrow> bool" where
  "deployment_hardened lib c =
     (uses_https lib (ap_redirect_uri c) \<and> uses_https lib (ap_frontend_uri c) \<and>
      list_all (uses_https lib) (cors_allowed_origins c) \<and>
      (case urlsplit lib (ap_database_url c) of
         None \<Rightarrow> False | Some u \<Rightarrow> database_tls lib u \<in> {''require'', ''verify-ca'', ''verify-full''}) \<and>
      (case urlsplit lib (ap_redis_url c) of
         None \<Rightarrow> False
       | Some u \<Rightarrow> password u \<noteq> [] \<and> (ap_redis_trusted_local_network c \<or> us_scheme u = ''rediss'')))"

definition validate_role_requirements :: "url_lib \<Rightarrow> app_settings \<Rightarrow> app_settings option" where
  "validate_role_requirements lib c =
     (if (ap_keyring_path c = None) \<noteq> (ap_active_key_id c = None) then None
      else if \<not> backoff_order (ap_numeric c) then None
      else if ap_service_role c = RoleCombined \<and> ap_environment c \<notin> {EnvDevelopment, EnvTest} then None
      else if ap_service_role c = RoleAutomationWorker \<and> \<not> AUTOMATION_ENABLED (ap_push c) then None
      else if AUTOMATION_ENABLED (ap_push c) \<and> \<not> automation_complete c then None
      else if ap_environment c \<in> {EnvStaging, EnvProduction} \<and> \<not> deployment_hardened lib c then None
      else Some c)"

section \<open>Loading\<close>

text \<open>The settings as they arrive: text as it was found, the rest converted.\<close>

record raw_settings =
  rs_environment :: environment
  rs_service_role :: service_role
  rs_automation_enabled :: bool
  rs_owner_id :: "uuid option"
  rs_numeric :: settings
  rs_limits :: service_limits
  rs_redis_trusted_local_network :: bool
  rs_text :: "str \<Rightarrow> json"

definition field_bounds :: "raw_settings \<Rightarrow> bool" where
  "field_bounds r = (provider_bounds (rs_numeric r) \<and> retention_bounds (rs_numeric r) \<and> gmail_bounds (rs_numeric r) \<and>
     limits_ok (rs_limits r))"

definition load_jwt :: "(str \<Rightarrow> json) \<Rightarrow> jwt_settings option" where
  "load_jwt text = do {
     secret_key \<leftarrow> require_nonblank_string ''SECRET_KEY'' (text ''SECRET_KEY'');
     issuer \<leftarrow> require_nonblank_string ''JWT_ISSUER'' (text ''JWT_ISSUER'');
     audience \<leftarrow> require_nonblank_string ''JWT_AUDIENCE'' (text ''JWT_AUDIENCE'');
     Some \<lparr>js_secret_key = secret_key, js_algorithm = ''HS256'', js_audience = audience, js_issuer = issuer\<rparr> }"

definition load_push :: "url_lib \<Rightarrow> raw_settings \<Rightarrow> push_settings option" where
  "load_push lib r = do {
     subscription \<leftarrow> normalize_optional_string (rs_text r ''PUBSUB_SUBSCRIPTION'');
     given_audience \<leftarrow> normalize_optional_string (rs_text r ''PUBSUB_PUSH_AUDIENCE'');
     audience \<leftarrow> validate_push_audience lib given_audience;
     given_email \<leftarrow> normalize_optional_string (rs_text r ''PUBSUB_PUSH_SERVICE_ACCOUNT_EMAIL'');
     email \<leftarrow> validate_push_service_account_email given_email;
     Some \<lparr>PUBSUB_PUSH_AUDIENCE = audience, PUBSUB_PUSH_SERVICE_ACCOUNT_EMAIL = email, PUBSUB_SUBSCRIPTION = subscription,
       AUTOMATION_ENABLED = rs_automation_enabled r, AUTOMATION_OWNER_ID = rs_owner_id r\<rparr> }"

definition load_settings :: "url_lib \<Rightarrow> (str \<Rightarrow> str option) \<Rightarrow> str \<Rightarrow> raw_settings \<Rightarrow> app_settings option" where
  "load_settings lib expanduser project_root r =
     (if \<not> field_bounds r then None
      else do {
        jwt \<leftarrow> load_jwt (rs_text r);
        push \<leftarrow> load_push lib r;
        operators \<leftarrow> validate_pending_action_operator_ids (rs_text r ''PENDING_ACTION_OPERATOR_IDS'');
        given_database \<leftarrow> require_nonblank_string ''DATABASE_URL'' (rs_text r ''DATABASE_URL'');
        database \<leftarrow> validate_database_url lib given_database;
        redis \<leftarrow> validate_redis_url lib (rs_text r ''REDIS_URL'');
        given_secrets \<leftarrow> resolve_credential_path expanduser project_root (rs_text r ''GOOGLE_OAUTH_CLIENT_SECRETS'');
        secrets \<leftarrow> require_oauth_client_secrets_path given_secrets;
        redirect \<leftarrow> validate_redirect_url lib (rs_text r ''OAUTH_REDIRECT_URI'');
        frontend \<leftarrow> validate_redirect_url lib (rs_text r ''FRONTEND_OAUTH_CALLBACK_URI'');
        keyring \<leftarrow> resolve_credential_path expanduser project_root (rs_text r ''OAUTH_TOKEN_KEYRING_PATH'');
        key_id \<leftarrow> validate_oauth_token_active_key_id (rs_text r ''OAUTH_TOKEN_ACTIVE_KEY_ID'');
        project \<leftarrow> require_nonblank_string ''GOOGLE_PROJECT_ID'' (rs_text r ''GOOGLE_PROJECT_ID'');
        location \<leftarrow> require_nonblank_string ''GOOGLE_LOCATION'' (rs_text r ''GOOGLE_LOCATION'');
        model \<leftarrow> require_nonblank_string ''GOOGLE_MODEL'' (rs_text r ''GOOGLE_MODEL'');
        adc \<leftarrow> resolve_credential_path expanduser project_root (rs_text r ''GOOGLE_APPLICATION_CREDENTIALS'');
        topic \<leftarrow> normalize_optional_string (rs_text r ''PUBSUB_TOPIC'');
        cors \<leftarrow> validate_cors_origins lib (rs_text r ''CORS_ALLOWED_ORIGINS'');
        validate_role_requirements lib \<lparr>ap_environment = rs_environment r, ap_service_role = rs_service_role r,
          ap_numeric = rs_numeric r, ap_limits = rs_limits r, ap_operator_ids = operators, ap_database_url = database,
          ap_redis_url = redis, ap_redis_trusted_local_network = rs_redis_trusted_local_network r, ap_jwt = jwt,
          ap_client_secrets = secrets, ap_redirect_uri = redirect, ap_frontend_uri = frontend, ap_keyring_path = keyring,
          ap_active_key_id = key_id, ap_project_id = project, ap_location = location, ap_model = model,
          ap_application_credentials = adc, ap_topic = topic, ap_push = push, ap_cors = cors\<rparr> })"

section \<open>Accepted origins\<close>

lemma split_on_free: "w \<in> set (split_on sep s) \<Longrightarrow> sep \<notin> set w"
proof (induction s arbitrary: w)
  case (Cons c cs)
  then show ?case by (cases "split_on sep cs") (auto split: if_splits)
qed simp

lemma set_strip: "set (strip s) \<subseteq> set s"
  unfolding strip_def lstrip_def by (metis set_dropWhileD set_rev subsetI)

lemma set_rstrip_slash: "set (rstrip_slash s) \<subseteq> set s"
  unfolding rstrip_slash_def by (metis set_dropWhileD set_rev subsetI)

definition origins_ok :: "url_lib \<Rightarrow> str list \<Rightarrow> bool" where
  "origins_ok lib origins = (distinct origins \<and>
     (\<forall>x\<in>set origins. x \<noteq> [] \<and> CHR '','' \<notin> set x \<and> (\<exists>u. urlsplit lib x = Some u \<and> bare_origin u)))"

lemma parsed_origins_ok:
  assumes "parse_cors_origins lib raws origins = Some out" and "\<And>w. w \<in> set raws \<Longrightarrow> CHR '','' \<notin> set w"
    and "origins_ok lib origins"
  shows "origins_ok lib out"
  using assms
proof (induction lib raws origins rule: parse_cors_origins.induct)
  case (2 lib raw raws origins)
  let ?origin = "rstrip_slash (strip raw)"
  have free: "CHR '','' \<notin> set ?origin"
    using "2.prems"(2) [of raw] set_strip [of raw] set_rstrip_slash [of "strip raw"] by (meson list.set_intros(1) subsetD)
  have rest: "\<And>w. w \<in> set raws \<Longrightarrow> CHR '','' \<notin> set w" using "2.prems"(2) by simp
  show ?case
  proof (cases "?origin = []")
    case True
    then show ?thesis using 2 rest by (simp add: Let_def)
  next
    case False
    then obtain u where u: "urlsplit lib ?origin = Some u" "bare_origin u" "?origin \<notin> set origins"
        "parse_cors_origins lib raws (origins @ [?origin]) = Some out"
      using "2.prems"(1) by (simp add: Let_def split: if_splits option.splits)
    then have "origins_ok lib (origins @ [?origin])" using "2.prems"(3) False free by (simp add: origins_ok_def)
    then show ?thesis using "2.IH"(2) [OF refl False u(1)] u rest by blast
  qed
qed simp

lemma validated_origins:
  assumes "validate_cors_origins lib v = Some (ap_cors c)"
  shows "origins_ok lib (cors_allowed_origins c)"
proof -
  have "\<exists>out. origins_ok lib out \<and> ap_cors c = join '','' out"
  proof (cases v)
    case (JStr t)
    then obtain out where "parse_cors_origins lib (split_on (CHR '','') t) [] = Some out" "ap_cors c = join '','' out"
      using assms by (auto simp: validate_cors_origins_def)
    moreover have "origins_ok lib out"
      by (rule parsed_origins_ok [OF calculation(1)]) (simp_all add: split_on_free origins_ok_def)
    ultimately show ?thesis by blast
  next
    case JNull
    then show ?thesis using assms by (intro exI [of _ "[]"]) (simp add: validate_cors_origins_def origins_ok_def)
  qed (use assms in \<open>simp_all add: validate_cors_origins_def\<close>)
  then obtain out where out: "origins_ok lib out" "ap_cors c = join '','' out" by blast
  have "cors_allowed_origins c = out"
  proof (cases "out = []")
    case False
    then have "split_on (CHR '','') (join '','' out) = out" using out(1) by (intro split_on_join) (simp_all add: origins_ok_def)
    moreover have "filter (\<lambda>x. x \<noteq> []) out = out" using out(1) by (simp add: origins_ok_def filter_id_conv)
    ultimately show ?thesis by (simp add: cors_allowed_origins_def out(2))
  qed (simp add: cors_allowed_origins_def out(2))
  then show ?thesis using out(1) by simp
qed

section \<open>Accepted configurations\<close>

lemma validated_unchanged: "validate_role_requirements lib c = Some d \<Longrightarrow> d = c"
  by (simp add: validate_role_requirements_def split: if_splits)

lemma loaded_settings:
  assumes "load_settings lib expanduser project_root r = Some c"
  shows "field_bounds r \<and> ap_numeric c = rs_numeric r \<and> ap_limits c = rs_limits r \<and>
    load_jwt (rs_text r) = Some (ap_jwt c) \<and> load_push lib r = Some (ap_push c) \<and>
    validate_pending_action_operator_ids (rs_text r ''PENDING_ACTION_OPERATOR_IDS'') = Some (ap_operator_ids c) \<and>
    validate_cors_origins lib (rs_text r ''CORS_ALLOWED_ORIGINS'') = Some (ap_cors c) \<and>
    validate_role_requirements lib c = Some c"
proof -
  have bounds: "field_bounds r" using assms by (simp add: load_settings_def split: if_splits)
  show ?thesis
    using assms bounds unfolding load_settings_def
    apply (simp only: Option.bind_eq_Some_conv if_False not_True_eq_False simp_thms)
    apply (elim exE conjE)
    apply (frule validated_unchanged)
    apply (simp only: app_settings.simps simp_thms)
    done
qed

lemma loaded_secret:
  assumes "load_jwt text = Some j"
  shows "js_secret_key j \<noteq> EXAMPLE_SECRET_KEY_PLACEHOLDER \<and> 32 \<le> length (utf8 (js_secret_key j)) \<and> js_algorithm j = ''HS256''"
  using assms
  by (clarsimp simp: load_jwt_def require_nonblank_string_def Let_def Option.bind_eq_Some_conv split: json.splits if_splits)

lemma loaded_push_email:
  assumes "load_push lib r = Some p" and "PUBSUB_PUSH_SERVICE_ACCOUNT_EMAIL p = Some e"
  shows "casefold e = e \<and> count_list e (CHR ''@'') = 1 \<and> \<not> list_ex is_space e"
proof -
  obtain given where "validate_push_service_account_email given = Some (Some e)"
    using assms by (auto simp: load_push_def Option.bind_eq_Some_conv)
  then show ?thesis
    by (cases given) (auto simp: validate_push_service_account_email_def casefold_count_at casefold_is_space split: if_splits)
qed

lemma accepted_requirements:
  assumes "validate_role_requirements lib c = Some d"
  shows "(ap_keyring_path c = None) = (ap_active_key_id c = None)" and "backoff_order (ap_numeric c)"
    and "ap_service_role c = RoleCombined \<Longrightarrow> ap_environment c \<in> {EnvDevelopment, EnvTest}"
    and "ap_service_role c = RoleAutomationWorker \<Longrightarrow> AUTOMATION_ENABLED (ap_push c)"
    and "AUTOMATION_ENABLED (ap_push c) \<Longrightarrow> automation_complete c"
    and "ap_environment c \<in> {EnvStaging, EnvProduction} \<Longrightarrow> deployment_hardened lib c"
  using assms by (simp_all add: validate_role_requirements_def split: if_splits)

lemma complete_parts:
  assumes "automation_complete c"
  shows "AUTOMATION_OWNER_ID (ap_push c) \<noteq> None" "PUBSUB_PUSH_AUDIENCE (ap_push c) \<noteq> None"
    "PUBSUB_PUSH_SERVICE_ACCOUNT_EMAIL (ap_push c) \<noteq> None"
    "\<exists>topic. ap_topic c = Some topic \<and> starts_with ''projects/'' topic \<and> contains ''/topics/'' topic"
    "\<exists>sub. PUBSUB_SUBSCRIPTION (ap_push c) = Some sub \<and> starts_with ''projects/'' sub \<and> contains ''/subscriptions/'' sub"
  using assms by (auto simp: automation_complete_def missing_settings_def full_name_def split: if_splits option.splits)

text \<open>
  What an allowed origin looks like as text, stated without the URL parser: after the control
  characters that the parser ignores are removed, a scheme, a non-empty network location (a host,
  possibly behind an empty user and password) and possibly a bare question mark or number sign.
\<close>

definition origin_text :: "str \<Rightarrow> bool" where
  "origin_text x \<longleftrightarrow> (\<exists>scheme user host tail. clean_url x = scheme @ ''://'' @ user @ host @ tail \<and>
     lower scheme \<in> {''http'', ''https''} \<and> user \<in> {[], ''@'', '':@''} \<and> user @ host \<noteq> [] \<and>
     set host \<inter> set ''/?#@'' = {} \<and> tail \<in> {[], ''?'', ''#'', ''?#''})"

lemma split_at: "s = before_char c s @ dropWhile (\<lambda>d. d \<noteq> c) s"
  by (simp add: before_char_def)

lemma split_present: "c \<in> set s \<Longrightarrow> s = before_char c s @ c # after_char c s"
  by (induction s) (auto simp: before_char_def after_char_def)

lemma after_empty: "after_char c s = [] \<Longrightarrow> dropWhile (\<lambda>d. d \<noteq> c) s = [] \<or> dropWhile (\<lambda>d. d \<noteq> c) s = [c]"
  by (cases "dropWhile (\<lambda>d. d \<noteq> c) s") (auto simp: after_char_def dropWhile_eq_Cons_conv)

lemma both_empty: "before_char c s = [] \<Longrightarrow> after_char c s = [] \<Longrightarrow> s = [] \<or> s = [c]"
  using after_empty [of c s] by (subst (1 2) split_at [of s c]) auto

lemma netloc_text:
  assumes "username u = []" "password u = []"
  obtains user host where "us_netloc u = user @ host" "user \<in> {[], ''@'', '':@''}" "CHR ''@'' \<notin> set host"
proof (cases "CHR ''@'' \<in> set (us_netloc u)")
  case True
  let ?w = "rev (after_char (CHR ''@'') (rev (us_netloc u)))" and ?h = "rev (before_char (CHR ''@'') (rev (us_netloc u)))"
  have "?w = [] \<or> ?w = '':''"
    using both_empty [of "CHR '':''" ?w] assms True by (simp add: username_def password_def userinfo_def)
  moreover have "us_netloc u = (?w @ ''@'') @ ?h"
    using split_present [of "CHR ''@''" "rev (us_netloc u)"] True
    by (metis append.assoc append_Cons append_Nil rev_append rev_rev_ident rev_singleton_conv set_rev rev.simps(2))
  moreover have "CHR ''@'' \<notin> set ?h" unfolding before_char_def set_rev by (metis (full_types) set_takeWhileD)
  ultimately show ?thesis by (intro that [of "?w @ ''@''" ?h]) auto
qed (use that [of "[]"] in simp)

lemma bare_origin_text:
  assumes "urlsplit lib x = Some u" and "bare_origin u"
  shows "origin_text x"
proof -
  let ?url = "clean_url x"
  obtain scheme rest netloc tail where sp: "split_scheme ?url = (scheme, rest)" and nt: "split_netloc rest = (netloc, tail)"
    by (metis prod.exhaust)
  have u: "u = \<lparr>us_scheme = scheme, us_netloc = netloc, us_path = before_char (CHR ''?'') (before_char (CHR ''#'') tail),
      us_query = after_char (CHR ''?'') (before_char (CHR ''#'') tail), us_fragment = after_char (CHR ''#'') tail\<rparr>"
    using assms(1) by (simp add: urlsplit_def sp nt Let_def split: if_splits)
  have o: "scheme \<in> {''http'', ''https''}" "netloc \<noteq> []" "before_char (CHR ''?'') (before_char (CHR ''#'') tail) = []"
    "after_char (CHR ''?'') (before_char (CHR ''#'') tail) = []" "after_char (CHR ''#'') tail = []"
    using assms(2) unfolding bare_origin_def by (simp_all add: u)
  have bare: "username u = []" "password u = []" using assms(2) by (simp_all add: bare_origin_def)
  have s: "CHR '':'' \<in> set ?url" "scheme = lower (before_char (CHR '':'') ?url)" "rest = after_char (CHR '':'') ?url"
    using sp o(1) unfolding split_scheme_def Let_def by (auto split: if_splits)
  have r: "starts_with ''//'' rest" "netloc = takeWhile (\<lambda>c. c \<notin> set ''/?#'') (drop 2 rest)"
    "tail = dropWhile (\<lambda>c. c \<notin> set ''/?#'') (drop 2 rest)"
    using nt o(2) unfolding split_netloc_def by (simp_all split: if_splits)
  have rest: "rest = ''//'' @ netloc @ tail"
    unfolding r(2,3) takeWhile_dropWhile_id using r(1) by (cases rest rule: list.exhaust; cases "tl rest") auto
  have "before_char (CHR ''#'') tail \<in> {[], ''?''}" using both_empty [OF o(3,4)] by simp
  then have tail: "tail \<in> {[], ''?'', ''#'', ''?#''}"
    using after_empty [OF o(5)] split_at [of tail "CHR ''#''"] by (metis append_Nil append_Nil2 append_Cons insertCI insertE singletonD)
  obtain user host where n: "netloc = user @ host" "user \<in> {[], ''@'', '':@''}" "CHR ''@'' \<notin> set host"
    using netloc_text [OF bare] u by auto
  have "set netloc \<inter> set ''/?#'' = {}" unfolding r(2) by (auto dest: set_takeWhileD)
  then have host: "set host \<inter> set ''/?#@'' = {}" using n(1,3) by auto
  have url: "?url = before_char (CHR '':'') ?url @ ''://'' @ user @ host @ tail"
    unfolding append_assoc [symmetric] n(1) [symmetric]
    by (rule trans [OF split_present [OF s(1)], folded s(3)]) (simp add: rest)
  show ?thesis
    unfolding origin_text_def
    by (intro exI [of _ "before_char (CHR '':'') ?url"] exI [of _ user] exI [of _ host] exI [of _ tail] conjI)
       (fact url, fact o(1) [unfolded s(2)], fact n(2), fact o(2) [unfolded n(1)], fact host, fact tail)
qed

lemma hardened_parts:
  assumes "deployment_hardened lib c"
  shows "uses_https lib (ap_redirect_uri c)" "uses_https lib (ap_frontend_uri c)"
    "\<forall>x\<in>set (cors_allowed_origins c). uses_https lib x"
    "\<exists>u. urlsplit lib (ap_database_url c) = Some u \<and> database_tls lib u \<in> {''require'', ''verify-ca'', ''verify-full''}"
    "\<exists>u. urlsplit lib (ap_redis_url c) = Some u \<and> password u \<noteq> [] \<and>
      (ap_redis_trusted_local_network c \<or> us_scheme u = ''rediss'')"
  using assms by (simp_all add: deployment_hardened_def list_all_iff split: option.splits)

lemma accepted_settings_ok: "field_bounds r \<Longrightarrow> backoff_order (rs_numeric r) \<Longrightarrow> settings_ok (rs_numeric r)"
  by (simp add: field_bounds_def settings_ok_def)

text \<open>
  C23. A process that starts runs on checked settings: every numeric setting is within its bounds and
  the backoff settings are ordered; the signing secret has at least 32 bytes and is not the public
  placeholder; the operator setting parses to distinct identities; the allowed origins are distinct
  and each is, apart from control characters, an HTTP or HTTPS scheme and a non-empty network
  location, without path and with at most an empty user and password, though a bare question mark
  or number sign may follow; the push service account, if
  set, is in the case-folded form that tokens are compared with. If automation is enabled, in
  whatever role, owner, audience and service account are set and topic and subscription are full
  resource names, and a worker process has it enabled. In staging and production the redirect
  addresses and all origins use HTTPS, PostgreSQL requires TLS, Redis has a password, and TLS too
  unless its network is declared as trusted, and the process is not a combined one.
\<close>

theorem accepted_settings_sound:
  assumes "load_settings lib expanduser project_root r = Some c"
  shows "settings_ok (ap_numeric c) \<and> limits_ok (ap_limits c) \<and>
    js_secret_key (ap_jwt c) \<noteq> EXAMPLE_SECRET_KEY_PLACEHOLDER \<and> 32 \<le> length (utf8 (js_secret_key (ap_jwt c))) \<and>
    (\<exists>us. pending_action_operator_ids (ap_operator_ids c) = Some us \<and> distinct us) \<and>
    distinct (cors_allowed_origins c) \<and> (\<forall>x\<in>set (cors_allowed_origins c). origin_text x) \<and>
    (\<forall>e. PUBSUB_PUSH_SERVICE_ACCOUNT_EMAIL (ap_push c) = Some e \<longrightarrow> casefold e = e \<and> count_list e (CHR ''@'') = 1) \<and>
    (ap_service_role c = RoleAutomationWorker \<longrightarrow> AUTOMATION_ENABLED (ap_push c)) \<and>
    (AUTOMATION_ENABLED (ap_push c) \<longrightarrow>
       AUTOMATION_OWNER_ID (ap_push c) \<noteq> None \<and> PUBSUB_PUSH_AUDIENCE (ap_push c) \<noteq> None \<and>
       PUBSUB_PUSH_SERVICE_ACCOUNT_EMAIL (ap_push c) \<noteq> None \<and>
       (\<exists>topic. ap_topic c = Some topic \<and> starts_with ''projects/'' topic \<and> contains ''/topics/'' topic) \<and>
       (\<exists>sub. PUBSUB_SUBSCRIPTION (ap_push c) = Some sub \<and> starts_with ''projects/'' sub \<and> contains ''/subscriptions/'' sub)) \<and>
    (ap_environment c \<in> {EnvStaging, EnvProduction} \<longrightarrow>
       uses_https lib (ap_redirect_uri c) \<and> uses_https lib (ap_frontend_uri c) \<and>
       (\<forall>x\<in>set (cors_allowed_origins c). uses_https lib x) \<and>
       (\<exists>u. urlsplit lib (ap_database_url c) = Some u \<and> database_tls lib u \<in> {''require'', ''verify-ca'', ''verify-full''}) \<and>
       (\<exists>u. urlsplit lib (ap_redis_url c) = Some u \<and> password u \<noteq> [] \<and>
          (ap_redis_trusted_local_network c \<or> us_scheme u = ''rediss'')) \<and>
       ap_service_role c \<noteq> RoleCombined)"
proof -
  note L = loaded_settings [OF assms]
  have "distinct (cors_allowed_origins c) \<and> (\<forall>x\<in>set (cors_allowed_origins c). origin_text x)"
    using L validated_origins bare_origin_text unfolding origins_ok_def by metis
  moreover have "settings_ok (ap_numeric c) \<and> limits_ok (ap_limits c)"
    using L accepted_requirements(2) [of lib c c] accepted_settings_ok [of r] by (simp add: field_bounds_def)
  moreover have "\<exists>us. pending_action_operator_ids (ap_operator_ids c) = Some us \<and> distinct us"
    using L operator_setting_parses by blast
  moreover have "automation_complete c" if "AUTOMATION_ENABLED (ap_push c)"
    using that L accepted_requirements(5) [of lib c c] by blast
  moreover have "AUTOMATION_ENABLED (ap_push c)" if "ap_service_role c = RoleAutomationWorker"
    using that L accepted_requirements(4) [of lib c c] by blast
  moreover have "deployment_hardened lib c \<and> ap_service_role c \<noteq> RoleCombined" if "ap_environment c \<in> {EnvStaging, EnvProduction}"
    using that L accepted_requirements(3,6) [of lib c c] by auto
  moreover have "js_secret_key (ap_jwt c) \<noteq> EXAMPLE_SECRET_KEY_PLACEHOLDER \<and> 32 \<le> length (utf8 (js_secret_key (ap_jwt c)))"
    using L loaded_secret by blast
  moreover have "casefold e = e \<and> count_list e (CHR ''@'') = 1" if "PUBSUB_PUSH_SERVICE_ACCOUNT_EMAIL (ap_push c) = Some e" for e
    using that L loaded_push_email by blast
  ultimately show ?thesis
    using hardened_parts [of lib c] complete_parts [of c] by blast
qed

definition demo_url_lib :: url_lib where
  "demo_url_lib = \<lparr>ul_brackets = (\<lambda>_. False), ul_decode = id\<rparr>"

definition demo_text :: "str \<Rightarrow> json" where
  "demo_text k = (case map_of
     [(''SECRET_KEY'', ''0123456789abcdef0123456789abcdef''), (''JWT_ISSUER'', ''onebox''), (''JWT_AUDIENCE'', ''api''),
      (''DATABASE_URL'', ''postgresql+asyncpg://db/x?ssl=require''), (''REDIS_URL'', ''rediss://:pw@cache''),
      (''GOOGLE_OAUTH_CLIENT_SECRETS'', ''/run/oauth''), (''OAUTH_REDIRECT_URI'', ''https://a/cb/''),
      (''FRONTEND_OAUTH_CALLBACK_URI'', ''https://b''), (''GOOGLE_PROJECT_ID'', ''p''), (''GOOGLE_LOCATION'', ''l''),
      (''GOOGLE_MODEL'', ''m''), (''CORS_ALLOWED_ORIGINS'', ''https://b/, https://c'')] k of
     None \<Rightarrow> JNull | Some t \<Rightarrow> JStr t)"

definition demo_limits :: service_limits where
  "demo_limits = \<lparr>DATABASE_CONNECT_TIMEOUT_SECONDS = 10, DATABASE_POOL_SIZE = 5, DATABASE_MAX_OVERFLOW = 5,
     PROVIDER_MAX_CONCURRENCY = 8, REDIS_MAX_CONCURRENCY = 16, MAX_REQUEST_BODY_BYTES = 1048576,
     LLM_STREAM_TIMEOUT_SECONDS = 90, LLM_STREAM_IDLE_TIMEOUT_SECONDS = 20, LLM_STREAM_QUEUE_SIZE = 32,
     GMAIL_NOTIFICATION_POLL_SECONDS = 1\<rparr>"

definition demo_raw :: raw_settings where
  "demo_raw = \<lparr>rs_environment = EnvProduction, rs_service_role = RoleApi, rs_automation_enabled = False, rs_owner_id = None,
     rs_numeric = default_settings, rs_limits = demo_limits, rs_redis_trusted_local_network = False, rs_text = demo_text\<rparr>"

lemma demo_field_bounds: "field_bounds demo_raw"
  by (simp add: field_bounds_def demo_raw_def limits_ok_def demo_limits_def settings_defs default_settings_def)

lemma demo_loads: "load_settings demo_url_lib Some ''/app'' demo_raw \<noteq> None"
  by code_simp

theorem accepted_settings_sound_witness:
  "\<exists>c. load_settings demo_url_lib Some ''/app'' demo_raw = Some c \<and> settings_ok (ap_numeric c) \<and> limits_ok (ap_limits c) \<and>
     distinct (cors_allowed_origins c)"
proof -
  obtain c where "load_settings demo_url_lib Some ''/app'' demo_raw = Some c" using demo_loads by blast
  then show ?thesis using accepted_settings_sound by blast
qed

text \<open>
  An allowed origin need not be one that a browser sends: a trailing question mark or number sign
  leaves the query and the fragment empty and stays in the stored origin.
\<close>

lemma inexact_origin_accepted:
  "validate_cors_origins lib (JStr ''https://a?'') = Some ''https://a?''"
  "validate_cors_origins lib (JStr ''https://a#'') = Some ''https://a#''"
  by code_simp+

end
