(* ===== verification/Provider_Runner.thy ===== *)
theory Provider_Runner
  imports Google_Adapter
begin

text \<open>
  The bounded runner for synchronous SDK calls (\<open>server/integrations/provider.py\<close>): an asyncio
  semaphore that admits operations, a thread pool of the same size, callers with deadlines that may
  time out or be cancelled while their thread goes on. One definition per piece of \<open>run\<close> between
  two suspension points, and a step relation that interleaves them arbitrarily with the threads, the
  event loop and the closing of the pool.
\<close>

section \<open>State\<close>

datatype runner_result =
    OperationEnded
  | ProviderOperationTimeout
  | ProviderCapacityExceeded
  | OperationCancelled
  | TimeoutNotPositive
  | PoolShutDown

text \<open>\<open>Queued\<close> waits for the semaphore; \<open>Detached\<close> has lost its caller and keeps its slot.\<close>

datatype run_stage = Queued | Admitted | Working | Detached | Over runner_result

text \<open>
  The work item: in the pool's queue, on a thread, finished or cancelled but not yet seen by the
  event loop, or done as \<open>future.done()\<close> says.
\<close>

datatype future_state = NoFuture | FutureQueued | FutureRunning | FutureEnded | FutureDone

record run_op =
  ro_deadline :: rat
  ro_stage :: run_stage
  ro_future :: future_state
  ro_detached :: bool

text \<open>\<open>rn_overflow\<close> records the \<open>ValueError\<close> of a bounded semaphore released too often.\<close>

record runner =
  rn_max :: nat
  rn_free :: nat
  rn_default_timeout :: rat
  rn_closed :: bool
  rn_overflow :: bool
  rn_ops :: "run_op list"

section \<open>Operations\<close>

definition make_runner :: "int \<Rightarrow> rat \<Rightarrow> runner option" where
  "make_runner max_workers default_timeout =
     (if max_workers < 1 \<or> default_timeout \<le> 0 then None
      else Some \<lparr>rn_max = nat max_workers, rn_free = nat max_workers, rn_default_timeout = default_timeout, rn_closed = False,
        rn_overflow = False, rn_ops = []\<rparr>)"

text \<open>Up to the wait for the semaphore; \<open>now\<close> and \<open>later\<close> are the two readings of the clock.\<close>

definition operation_deadline :: "runner \<Rightarrow> rat \<Rightarrow> rat option \<Rightarrow> rat option \<Rightarrow> runner_result + rat" where
  "operation_deadline st now timeout deadline =
     (case deadline of
        Some d \<Rightarrow> Inr d
      | None \<Rightarrow>
          (let operation_timeout = (case timeout of None \<Rightarrow> rn_default_timeout st | Some t \<Rightarrow> t) in
           if operation_timeout \<le> 0 then Inl TimeoutNotPositive else Inr (now + operation_timeout)))"

definition run_begin :: "runner \<Rightarrow> rat \<Rightarrow> rat \<Rightarrow> rat option \<Rightarrow> rat option \<Rightarrow> runner_result + rat" where
  "run_begin st now later timeout deadline =
     (if rn_closed st then Inl ProviderCapacityExceeded
      else case operation_deadline st now timeout deadline of
        Inl e \<Rightarrow> Inl e
      | Inr d \<Rightarrow> (if d - later \<le> 0 then Inl ProviderOperationTimeout else Inr d))"

definition new_op :: "rat \<Rightarrow> run_op" where
  "new_op d = \<lparr>ro_deadline = d, ro_stage = Queued, ro_future = NoFuture, ro_detached = False\<rparr>"

definition put_op :: "nat \<Rightarrow> run_op \<Rightarrow> runner \<Rightarrow> runner" where
  "put_op i x st = st\<lparr>rn_ops := (rn_ops st)[i := x]\<rparr>"

definition release_slot :: "runner \<Rightarrow> runner" where
  "release_slot st = (if rn_free st < rn_max st then st\<lparr>rn_free := rn_free st + 1\<rparr> else st\<lparr>rn_overflow := True\<rparr>)"

definition run_admitted :: "nat \<Rightarrow> run_op \<Rightarrow> runner \<Rightarrow> runner" where
  "run_admitted i x st = put_op i (x\<lparr>ro_stage := Admitted\<rparr>) (st\<lparr>rn_free := rn_free st - 1\<rparr>)"

text \<open>The semaphore was not acquired in time, or the caller was cancelled while waiting.\<close>

definition run_given_up :: "runner_result \<Rightarrow> nat \<Rightarrow> run_op \<Rightarrow> runner \<Rightarrow> runner" where
  "run_given_up r i x st = put_op i (x\<lparr>ro_stage := Over r\<rparr>) st"

text \<open>After admission: a pool that was closed meanwhile refuses the work item.\<close>

definition run_start :: "rat \<Rightarrow> nat \<Rightarrow> run_op \<Rightarrow> runner \<Rightarrow> runner" where
  "run_start now i x st =
     (if ro_deadline x - now \<le> 0 then put_op i (x\<lparr>ro_stage := Over ProviderOperationTimeout\<rparr>) (release_slot st)
      else if rn_closed st then put_op i (x\<lparr>ro_stage := Over PoolShutDown\<rparr>) st
      else put_op i (x\<lparr>ro_stage := Working, ro_future := FutureQueued\<rparr>) st)"

text \<open>The \<open>finally\<close> block, for every way in which the wait for the future ends.\<close>

definition run_finish :: "runner_result \<Rightarrow> nat \<Rightarrow> run_op \<Rightarrow> runner \<Rightarrow> runner" where
  "run_finish r i x st =
     (if ro_future x = FutureDone then put_op i (x\<lparr>ro_stage := Over r\<rparr>) (release_slot st)
      else put_op i (x\<lparr>ro_stage := Detached, ro_detached := True\<rparr>) st)"

text \<open>The event loop sees the end of the work item; the callback of a detached one releases its slot.\<close>

definition release_when_finished :: "nat \<Rightarrow> run_op \<Rightarrow> runner \<Rightarrow> runner" where
  "release_when_finished i x st = put_op i (x\<lparr>ro_stage := Over OperationEnded, ro_future := FutureDone\<rparr>) (release_slot st)"

definition future_done :: "nat \<Rightarrow> run_op \<Rightarrow> runner \<Rightarrow> runner" where
  "future_done i x st =
     (if ro_stage x = Detached then release_when_finished i x st else put_op i (x\<lparr>ro_future := FutureDone\<rparr>) st)"

text \<open>Closing cancels the work items that no thread has taken.\<close>

definition cancel_queued :: "run_op \<Rightarrow> run_op" where
  "cancel_queued x = (if ro_future x = FutureQueued then x\<lparr>ro_future := FutureEnded\<rparr> else x)"

definition runner_aclose :: "runner \<Rightarrow> runner" where
  "runner_aclose st = (if rn_closed st then st else st\<lparr>rn_closed := True, rn_ops := map cancel_queued (rn_ops st)\<rparr>)"

section \<open>Interleavings\<close>

definition running_threads :: "runner \<Rightarrow> nat" where
  "running_threads st = length (filter (\<lambda>x. ro_future x = FutureRunning) (rn_ops st))"

definition has_op :: "runner \<Rightarrow> nat \<Rightarrow> run_op \<Rightarrow> bool" where
  "has_op st i x = (i < length (rn_ops st) \<and> rn_ops st ! i = x)"

inductive runner_step :: "runner \<Rightarrow> runner \<Rightarrow> bool" where
  step_begin: "run_begin st now later timeout deadline = Inr d \<Longrightarrow> runner_step st (st\<lparr>rn_ops := rn_ops st @ [new_op d]\<rparr>)"
| step_admitted: "has_op st i x \<Longrightarrow> ro_stage x = Queued \<Longrightarrow> 0 < rn_free st \<Longrightarrow> runner_step st (run_admitted i x st)"
| step_given_up: "has_op st i x \<Longrightarrow> ro_stage x = Queued \<Longrightarrow> r \<in> {ProviderCapacityExceeded, OperationCancelled} \<Longrightarrow>
    runner_step st (run_given_up r i x st)"
| step_start: "has_op st i x \<Longrightarrow> ro_stage x = Admitted \<Longrightarrow> runner_step st (run_start now i x st)"
| step_thread_takes: "has_op st i x \<Longrightarrow> ro_future x = FutureQueued \<Longrightarrow> running_threads st < rn_max st \<Longrightarrow>
    runner_step st (put_op i (x\<lparr>ro_future := FutureRunning\<rparr>) st)"
| step_thread_exits: "has_op st i x \<Longrightarrow> ro_future x = FutureRunning \<Longrightarrow>
    runner_step st (put_op i (x\<lparr>ro_future := FutureEnded\<rparr>) st)"
| step_done: "has_op st i x \<Longrightarrow> ro_future x = FutureEnded \<Longrightarrow> runner_step st (future_done i x st)"
| step_returns: "has_op st i x \<Longrightarrow> ro_stage x = Working \<Longrightarrow> ro_future x = FutureDone \<Longrightarrow>
    runner_step st (run_finish OperationEnded i x st)"
| step_abandoned: "has_op st i x \<Longrightarrow> ro_stage x = Working \<Longrightarrow> r \<in> {ProviderOperationTimeout, OperationCancelled} \<Longrightarrow>
    runner_step st (run_finish r i x st)"
| step_close: "runner_step st (runner_aclose st)"

definition fresh_runner :: "runner \<Rightarrow> bool" where
  "fresh_runner st = (\<exists>max_workers default_timeout. make_runner max_workers default_timeout = Some st)"

section \<open>Slots\<close>

text \<open>An operation holds a slot from its admission until its work is known to have ended.\<close>

definition holds_slot :: "run_op \<Rightarrow> bool" where
  "holds_slot x = (ro_stage x \<in> {Admitted, Working, Detached, Over PoolShutDown})"

definition op_ok :: "run_op \<Rightarrow> bool" where
  "op_ok x = ((ro_stage x \<in> {Queued, Admitted} \<longrightarrow> ro_future x = NoFuture) \<and>
     (ro_stage x = Working \<longrightarrow> ro_future x \<noteq> NoFuture) \<and>
     (ro_stage x = Detached \<longrightarrow> ro_future x \<in> {FutureQueued, FutureRunning, FutureEnded}) \<and>
     (\<forall>r. ro_stage x = Over r \<longrightarrow> ro_future x \<in> {NoFuture, FutureDone}))"

definition held_slots :: "runner \<Rightarrow> nat" where
  "held_slots st = length (filter holds_slot (rn_ops st))"

definition runner_inv :: "runner \<Rightarrow> bool" where
  "runner_inv st = (\<not> rn_overflow st \<and> rn_free st + held_slots st = rn_max st \<and> list_all op_ok (rn_ops st) \<and>
     (\<not> rn_closed st \<longrightarrow> list_all (\<lambda>x. ro_stage x \<noteq> Over PoolShutDown) (rn_ops st)))"

lemma length_filter_update:
  "i < length xs \<Longrightarrow> length (filter P (xs[i := y])) + (if P (xs ! i) then 1 else 0) = length (filter P xs) + (if P y then 1 else 0)"
proof (induction xs arbitrary: i)
  case (Cons x xs)
  then show ?case by (cases i) auto
qed simp

lemma list_all_update: "list_all P xs \<Longrightarrow> P y \<Longrightarrow> list_all P (xs[i := y])"
  by (auto simp: list_all_iff dest: set_update_subset_insert [THEN subsetD])

lemma held_put:
  assumes "has_op st i x" and "rn_ops st' = (rn_ops st)[i := y]"
  shows "held_slots st' + (if holds_slot x then 1 else 0) = held_slots st + (if holds_slot y then 1 else 0)"
  using assms length_filter_update [of i "rn_ops st" holds_slot y] by (auto simp: has_op_def held_slots_def)

lemma has_op_ok: "runner_inv st \<Longrightarrow> has_op st i x \<Longrightarrow> op_ok x"
  by (auto simp: runner_inv_def has_op_def list_all_length)

lemma put_inv:
  assumes "runner_inv st" and "has_op st i x" and "op_ok y" and "holds_slot y = holds_slot x"
    and "ro_stage y = Over PoolShutDown \<longrightarrow> rn_closed st"
  shows "runner_inv (put_op i y st)"
proof -
  have "held_slots (put_op i y st) = held_slots st"
    using held_put [OF assms(2), of "put_op i y st" y] assms(4) by (simp add: put_op_def split: if_splits)
  then show ?thesis using assms(1,3,5) by (auto simp: runner_inv_def put_op_def intro!: list_all_update)
qed

lemma release_slot_ops [simp]: "rn_ops (release_slot st) = rn_ops st"
  by (simp add: release_slot_def)

text \<open>A slot that is held can be released, and then the semaphore and the operations agree again.\<close>

lemma release_inv:
  assumes "runner_inv st" and "has_op st i x" and "op_ok y" and "holds_slot x" and "\<not> holds_slot y"
  shows "runner_inv (put_op i y (release_slot st))"
proof -
  let ?st = "put_op i y (release_slot st)"
  have held: "held_slots ?st + 1 = held_slots st"
    using held_put [OF assms(2), of ?st y] assms(4,5) by (simp add: put_op_def)
  then have "rn_free st < rn_max st" using assms(1) by (simp add: runner_inv_def)
  then show ?thesis
    using assms(1,3,5) held by (auto simp: runner_inv_def put_op_def release_slot_def holds_slot_def intro!: list_all_update)
qed

lemma admit_inv:
  assumes "runner_inv st" and "has_op st i x" and "ro_stage x = Queued" and "0 < rn_free st"
  shows "runner_inv (run_admitted i x st)"
proof -
  let ?st = "run_admitted i x st"
  have "held_slots ?st = held_slots st + 1"
    using held_put [OF assms(2), of ?st "x\<lparr>ro_stage := Admitted\<rparr>"] assms(3) by (simp add: run_admitted_def put_op_def holds_slot_def)
  then show ?thesis
    using assms has_op_ok [OF assms(1,2)] by (auto simp: runner_inv_def run_admitted_def put_op_def op_ok_def intro!: list_all_update)
qed

lemma close_inv: "runner_inv st \<Longrightarrow> runner_inv (runner_aclose st)"
proof -
  assume inv: "runner_inv st"
  have "filter holds_slot (map cancel_queued xs) = map cancel_queued (filter holds_slot xs)" for xs
    by (induction xs) (auto simp: cancel_queued_def holds_slot_def)
  then have "held_slots (st\<lparr>rn_closed := True, rn_ops := map cancel_queued (rn_ops st)\<rparr>) = held_slots st"
    by (simp add: held_slots_def)
  moreover have "op_ok x \<Longrightarrow> op_ok (cancel_queued x)" for x by (auto simp: op_ok_def cancel_queued_def)
  ultimately show ?thesis using inv by (auto simp: runner_inv_def runner_aclose_def list_all_iff)
qed

lemmas step_inv_rules = put_inv release_inv
lemmas op_simps = op_ok_def holds_slot_def

lemma runner_step_inv:
  assumes "runner_step st st'" and "runner_inv st"
  shows "runner_inv st'"
  using assms
proof (cases rule: runner_step.cases)
  case (step_begin now later timeout deadline d)
  then show ?thesis using assms(2) by (auto simp: runner_inv_def held_slots_def new_op_def op_simps)
next
  case (step_start i x now)
  note ok = has_op_ok [OF assms(2) step_start(2)]
  show ?thesis unfolding step_start(1) run_start_def
    using ok step_start(3) by (auto intro!: step_inv_rules [OF assms(2) step_start(2)] simp: op_simps)
next
  case (step_done i x)
  note ok = has_op_ok [OF assms(2) step_done(2)]
  show ?thesis unfolding step_done(1) future_done_def release_when_finished_def
    using ok step_done(3) by (auto intro!: step_inv_rules [OF assms(2) step_done(2)] simp: op_simps)
next
  case (step_returns i x)
  note ok = has_op_ok [OF assms(2) step_returns(2)]
  show ?thesis unfolding step_returns(1) run_finish_def
    using ok step_returns(3,4) by (auto intro!: step_inv_rules [OF assms(2) step_returns(2)] simp: op_simps)
next
  case (step_abandoned i x r)
  note ok = has_op_ok [OF assms(2) step_abandoned(2)]
  show ?thesis unfolding step_abandoned(1) run_finish_def
    using ok step_abandoned(3,4) by (cases "ro_future x") (auto intro!: step_inv_rules [OF assms(2) step_abandoned(2)] simp: op_simps)
next
  case (step_thread_takes i x)
  note ok = has_op_ok [OF assms(2) step_thread_takes(2)]
  show ?thesis unfolding step_thread_takes(1)
    using ok step_thread_takes(3) by (auto intro!: put_inv [OF assms(2) step_thread_takes(2)] simp: op_simps)
next
  case (step_thread_exits i x)
  note ok = has_op_ok [OF assms(2) step_thread_exits(2)]
  show ?thesis unfolding step_thread_exits(1)
    using ok step_thread_exits(3) by (auto intro!: put_inv [OF assms(2) step_thread_exits(2)] simp: op_simps)
next
  case (step_given_up i x r)
  note ok = has_op_ok [OF assms(2) step_given_up(2)]
  show ?thesis unfolding step_given_up(1) run_given_up_def
    using ok step_given_up(3,4) by (auto intro!: put_inv [OF assms(2) step_given_up(2)] simp: op_simps)
qed (use assms(2) in \<open>auto intro: admit_inv close_inv\<close>)

interpretation runner_safe: invariant_of fresh_runner runner_step runner_inv
proof
  show "fresh_runner st \<Longrightarrow> runner_inv st" for st
    by (auto simp: fresh_runner_def make_runner_def runner_inv_def held_slots_def split: if_splits)
  show "runner_inv st \<Longrightarrow> runner_step st st' \<Longrightarrow> runner_inv st'" for st st'
    by (rule runner_step_inv)
qed

text \<open>Work that has not been seen to end: queued in the pool, on a thread, or just ended.\<close>

definition unfinished :: "run_op \<Rightarrow> bool" where
  "unfinished x = (ro_future x \<in> {FutureQueued, FutureRunning, FutureEnded})"

lemma length_filter_le_imp: "(\<And>x. x \<in> set xs \<Longrightarrow> P x \<Longrightarrow> Q x) \<Longrightarrow> length (filter P xs) \<le> length (filter Q xs)"
  by (induction xs) auto

lemma length_filter_less_imp:
  "(\<And>x. x \<in> set xs \<Longrightarrow> P x \<Longrightarrow> Q x) \<Longrightarrow> y \<in> set xs \<Longrightarrow> Q y \<Longrightarrow> \<not> P y \<Longrightarrow> length (filter P xs) < length (filter Q xs)"
  using length_filter_le_imp [of _ P Q] by (induction xs) (auto simp: less_Suc_eq_le)

lemma unfinished_holds: "op_ok x \<Longrightarrow> unfinished x \<Longrightarrow> holds_slot x"
  by (cases "ro_stage x") (auto simp: op_ok_def holds_slot_def unfinished_def)

text \<open>
  C25. The runner is bounded. In every interleaving of callers, deadlines, cancellations, threads and
  the closing of the pool: the semaphore is never released too often; work that callers have
  abandoned still counts, so that all unfinished work together never exceeds the number of workers
  and no admitted work item waits for a thread; and when all operations of an open pool are over,
  every slot is free again, so timeouts and cancellations do not leak capacity.
\<close>

theorem runner_bounded:
  assumes "reach fresh_runner runner_step st"
  shows "\<not> rn_overflow st \<and> length (filter unfinished (rn_ops st)) + rn_free st \<le> rn_max st \<and>
    ((\<exists>x \<in> set (rn_ops st). ro_future x = FutureQueued) \<longrightarrow> running_threads st < rn_max st) \<and>
    (\<not> rn_closed st \<and> list_all (\<lambda>x. \<exists>r. ro_stage x = Over r) (rn_ops st) \<longrightarrow> rn_free st = rn_max st)"
proof -
  have inv: "runner_inv st" using runner_safe.reach_inv [OF assms] .
  then have ok: "\<And>x. x \<in> set (rn_ops st) \<Longrightarrow> op_ok x" and sum: "rn_free st + held_slots st = rn_max st"
    by (auto simp: runner_inv_def list_all_iff)
  have le: "length (filter unfinished (rn_ops st)) \<le> held_slots st"
    unfolding held_slots_def using ok unfinished_holds by (intro length_filter_le_imp) auto
  have "running_threads st < rn_max st" if "x \<in> set (rn_ops st)" "ro_future x = FutureQueued" for x
  proof -
    have "running_threads st < length (filter unfinished (rn_ops st))"
      unfolding running_threads_def using that by (intro length_filter_less_imp [where y = x]) (auto simp: unfinished_def)
    then show ?thesis using le sum by linarith
  qed
  moreover have "rn_free st = rn_max st" if "\<not> rn_closed st" "list_all (\<lambda>x. \<exists>r. ro_stage x = Over r) (rn_ops st)"
  proof -
    have "filter holds_slot (rn_ops st) = []"
      using inv that by (fastforce simp: runner_inv_def filter_empty_conv list_all_iff holds_slot_def)
    then show ?thesis using sum by (simp add: held_slots_def)
  qed
  ultimately show ?thesis using inv le sum by (auto simp: runner_inv_def)
qed

text \<open>One worker; a caller that times out while its thread is running.\<close>

definition demo_abandoned :: runner where
  "demo_abandoned = \<lparr>rn_max = 1, rn_free = 0, rn_default_timeout = 30, rn_closed = False, rn_overflow = False,
     rn_ops = [\<lparr>ro_deadline = 30, ro_stage = Detached, ro_future = FutureRunning, ro_detached = True\<rparr>]\<rparr>"

lemma demo_abandoned_reach: "reach fresh_runner runner_step demo_abandoned"
proof -
  let ?st = "\<lambda>free ops. \<lparr>rn_max = 1, rn_free = free, rn_default_timeout = 30, rn_closed = False, rn_overflow = False, rn_ops = ops\<rparr>"
  let ?op = "\<lambda>stage fut. \<lparr>ro_deadline = 30, ro_stage = stage, ro_future = fut, ro_detached = False\<rparr>"
  have "reach fresh_runner runner_step (?st 1 [])"
    by (rule reach_init, unfold fresh_runner_def, rule exI [of _ 1], rule exI [of _ 30]) (simp add: make_runner_def)
  moreover have "runner_step (?st 1 []) (?st 1 [?op Queued NoFuture])"
    using step_begin [of "?st 1 []" 0 0 None None 30] by (simp add: run_begin_def operation_deadline_def new_op_def)
  moreover have "runner_step (?st 1 [?op Queued NoFuture]) (?st 0 [?op Admitted NoFuture])"
    using step_admitted [of "?st 1 [?op Queued NoFuture]" 0] by (simp add: has_op_def run_admitted_def put_op_def)
  moreover have "runner_step (?st 0 [?op Admitted NoFuture]) (?st 0 [?op Working FutureQueued])"
    using step_start [of "?st 0 [?op Admitted NoFuture]" 0 _ 1] by (simp add: has_op_def run_start_def put_op_def)
  moreover have "runner_step (?st 0 [?op Working FutureQueued]) (?st 0 [?op Working FutureRunning])"
    using step_thread_takes [of "?st 0 [?op Working FutureQueued]" 0] by (simp add: has_op_def put_op_def running_threads_def)
  moreover have "runner_step (?st 0 [?op Working FutureRunning]) demo_abandoned"
    using step_abandoned [of "?st 0 [?op Working FutureRunning]" 0 _ ProviderOperationTimeout]
    by (simp add: has_op_def run_finish_def put_op_def demo_abandoned_def)
  ultimately show ?thesis by (meson reach_step)
qed

theorem runner_bounded_witness:
  "length (filter unfinished (rn_ops demo_abandoned)) = 1 \<and> length (filter unfinished (rn_ops demo_abandoned)) + rn_free demo_abandoned \<le> 1"
proof -
  have "length (filter unfinished (rn_ops demo_abandoned)) = 1" "rn_max demo_abandoned = 1"
    by (simp_all add: demo_abandoned_def unfinished_def)
  moreover have "length (filter unfinished (rn_ops demo_abandoned)) + rn_free demo_abandoned \<le> rn_max demo_abandoned"
    using runner_bounded [OF demo_abandoned_reach] by blast
  ultimately show ?thesis by simp
qed

end
