(* ===== verification/Google_Client.thy ===== *)
theory Google_Client
  imports Configuration Provider_Runner
begin

text \<open>
  The rest of \<open>server/integrations/google.py\<close>: the reading of the \<open>Retry-After\<close> header, the
  clamped deadline of authentication requests, the locks of API resources and the shared runner.
\<close>

section \<open>Retry-After\<close>

text \<open>
  The values of Python's \<open>float\<close>. The parsers of numbers and of e-mail dates are parameters; a date
  without a zone is read as UTC.
\<close>

datatype float_value = FloatNan | FloatInf | FloatNegInf | FloatNum rat

datatype parsed_date = NaiveDate time | AwareDate time

record header_lib =
  hl_float :: "str \<Rightarrow> float_value option"
  hl_date :: "str \<Rightarrow> parsed_date option"

text \<open>A response with or without the attribute \<open>headers\<close>.\<close>

record provider_response =
  rp_status :: "int option"
  rp_headers :: "(str \<rightharpoonup> json) option"

fun max_zero :: "float_value \<Rightarrow> float_value" where
  "max_zero FloatNan = FloatNum 0"
| "max_zero FloatNegInf = FloatNum 0"
| "max_zero FloatInf = FloatInf"
| "max_zero (FloatNum r) = FloatNum (max 0 r)"

fun as_utc :: "parsed_date \<Rightarrow> time" where
  "as_utc (NaiveDate t) = t"
| "as_utc (AwareDate t) = t"

definition date_delay :: "time \<Rightarrow> parsed_date \<Rightarrow> float_value" where
  "date_delay now d = max_zero (FloatNum (of_int (as_utc d - now) / 1000000))"

definition retry_after_seconds :: "header_lib \<Rightarrow> time \<Rightarrow> provider_response option \<Rightarrow> float_value option" where
  "retry_after_seconds H now response =
     (case Option.bind response rp_headers of
        None \<Rightarrow> None
      | Some headers \<Rightarrow>
          (case headers ''Retry-After'' of
             Some (JStr raw_value) \<Rightarrow>
               (case hl_float H raw_value of
                  Some f \<Rightarrow> Some (max_zero f)
                | None \<Rightarrow> map_option (date_delay now) (hl_date H raw_value))
           | _ \<Rightarrow> None))"

text \<open>The delay is never negative and never undefined.\<close>

lemma retry_after_nonnegative:
  assumes "retry_after_seconds H now response = Some f"
  shows "f = FloatInf \<or> (\<exists>r \<ge> 0. f = FloatNum r)"
proof -
  have pos: "max_zero g = FloatInf \<or> (\<exists>r \<ge> 0. max_zero g = FloatNum r)" for g by (cases g) auto
  have "\<exists>g. f = max_zero g"
    using assms by (auto simp: retry_after_seconds_def date_delay_def simp del: max_zero.simps split: option.splits json.splits)
  then show ?thesis using pos by blast
qed

text \<open>
  A response without that attribute never gives a delay, whatever its headers are. The response of the
  Google client is such an object: an \<open>httplib2.Response\<close> is a dictionary of lower-case header names.
\<close>

lemma retry_after_needs_headers:
  assumes "rp_headers response = None"
  shows "retry_after_seconds H now (Some response) = None"
  using assms by (simp add: retry_after_seconds_def)

section \<open>Authentication requests\<close>

definition clamp_timeout :: "rat \<Rightarrow> rat option \<Rightarrow> rat" where
  "clamp_timeout configured requested = (case requested of None \<Rightarrow> configured | Some t \<Rightarrow> min t configured)"

text \<open>
  The fifth positional argument is the timeout, otherwise the keyword is; \<open>None\<close> as a keyword stands for
  an absent one too.
\<close>

definition auth_request_call :: "rat \<Rightarrow> rat option list \<Rightarrow> rat option \<Rightarrow> rat option list \<times> rat option" where
  "auth_request_call configured positional keyword =
     (if 5 \<le> length positional then (positional[4 := Some (clamp_timeout configured (positional ! 4))], keyword)
      else (positional, Some (clamp_timeout configured keyword)))"

definition effective_timeout :: "rat option list \<times> rat option \<Rightarrow> rat option" where
  "effective_timeout call = (if 5 \<le> length (fst call) then fst call ! 4 else snd call)"

lemma auth_requests_bounded:
  "\<exists>t \<le> configured. effective_timeout (auth_request_call configured positional keyword) = Some t"
  by (auto simp: effective_timeout_def auth_request_call_def clamp_timeout_def split: option.splits)

section \<open>Locks and the shared runner\<close>

text \<open>The lock of a resource, made on first use; \<open>fresh\<close> names the new lock.\<close>

definition resource_lock :: "'l \<Rightarrow> 'r option \<Rightarrow> ('r \<rightharpoonup> 'l) \<Rightarrow> 'l option \<times> ('r \<rightharpoonup> 'l)" where
  "resource_lock fresh resource locks =
     (case resource of
        None \<Rightarrow> (None, locks)
      | Some r \<Rightarrow> (case locks r of Some l \<Rightarrow> (Some l, locks) | None \<Rightarrow> (Some fresh, locks(r \<mapsto> fresh))))"

lemma same_resource_same_lock:
  assumes "resource_lock fresh (Some r) locks = (l, locks1)" and "resource_lock fresh' (Some r') locks1 = (l', locks2)"
  shows "r' = r \<Longrightarrow> l' = l" and "locks r = Some k \<Longrightarrow> l = Some k"
  using assms by (auto simp: resource_lock_def split: option.splits if_splits)

text \<open>The runner that both provider adapters keep: made on first use, dropped when the adapter is closed.\<close>

definition shared_runner :: "settings \<Rightarrow> service_limits \<Rightarrow> runner option \<Rightarrow> runner option" where
  "shared_runner s l current =
     (case current of
        Some r \<Rightarrow> Some r
      | None \<Rightarrow> make_runner (PROVIDER_MAX_CONCURRENCY l) (PROVIDER_TIMEOUT_SECONDS s))"

definition close_adapter :: "runner option \<Rightarrow> runner option \<times> runner option" where
  "close_adapter current = (map_option runner_aclose current, None)"

text \<open>With accepted settings the runner can always be made, and it has the configured number of workers.\<close>

lemma accepted_settings_give_runner:
  assumes "load_settings lib expanduser project_root r = Some c"
  shows "\<exists>st. shared_runner (ap_numeric c) (ap_limits c) None = Some st \<and> fresh_runner st \<and>
    int (rn_max st) = PROVIDER_MAX_CONCURRENCY (ap_limits c) \<and> rn_max st \<le> 64"
proof -
  have ok: "settings_ok (ap_numeric c)" "limits_ok (ap_limits c)"
    using loaded_settings [OF assms] accepted_requirements(2) [of lib c c] accepted_settings_ok [of r] by (simp_all add: field_bounds_def)
  let ?n = "PROVIDER_MAX_CONCURRENCY (ap_limits c)"
  have n: "1 \<le> ?n" "?n \<le> 64" using ok(2) by (simp_all add: limits_ok_def)
  have "0 < PROVIDER_TIMEOUT_SECONDS (ap_numeric c)" using ok(1) by (simp add: settings_ok_def provider_bounds_def)
  then obtain st where st: "make_runner ?n (PROVIDER_TIMEOUT_SECONDS (ap_numeric c)) = Some st" "rn_max st = nat ?n"
    using n by (simp add: make_runner_def)
  then have "fresh_runner st" unfolding fresh_runner_def by blast
  then show ?thesis using st n by (simp add: shared_runner_def)
qed

end
