(* ===== verification/Http_Service.thy ===== *)
theory Http_Service
  imports Agent_Router Triage_Results Push_Router Configuration
begin

text \<open>
  The HTTP service around the routes: the limit on request bodies (\<open>server/request_limits.py\<close>), the
  error answers, the correlation id and the probes (\<open>server/main.py\<close>, \<open>server/services/readiness.py\<close>,
  \<open>server/database.py\<close>), and the read-only triage endpoints (\<open>server/routes/triage.py\<close>).
\<close>

section \<open>Request bodies\<close>

text \<open>The messages of an HTTP request, with the body as it is found in the message.\<close>

datatype body_value = BodyMissing | BodyBytes "nat list" | BodyOther

datatype asgi_message = HttpRequest body_value bool | OtherMessage str

datatype body_result = NotBytes | BodyOf "nat list"

fun message_body :: "body_value \<Rightarrow> body_result" where
  "message_body BodyMissing = BodyOf []"
| "message_body (BodyBytes b) = BodyOf b"
| "message_body BodyOther = NotBytes"

datatype limited = PassedThrough | Rejected413 | Dispatched "asgi_message list" | StillReceiving

definition make_limit :: "int \<Rightarrow> nat option" where
  "make_limit max_body_bytes = (if max_body_bytes < 1 then None else Some (nat max_body_bytes))"

text \<open>\<open>int\<close> on bytes, which knows only the six ASCII spaces; \<open>bytes.lower\<close> on the header name.\<close>

definition bytes_int :: "str \<Rightarrow> int option" where
  "bytes_int v = (if list_ex (\<lambda>c. let n = (of_char c :: nat) in 28 \<le> n \<and> n \<le> 31 \<or> 128 \<le> n) v then None else py_int v)"

definition bytes_lower :: "str \<Rightarrow> str" where
  "bytes_lower s = map (\<lambda>c. if (of_char c :: nat) < 128 then lower_char c else c) s"

fun content_length :: "(str \<times> str) list \<Rightarrow> int option" where
  "content_length [] = None"
| "content_length ((name, v) # headers) =
     (if bytes_lower name \<noteq> ''content-length'' then content_length headers
      else case bytes_int v of None \<Rightarrow> None | Some n \<Rightarrow> (if 0 \<le> n then Some n else None))"

text \<open>The loop over the messages that have arrived; it waits when they do not complete the request.\<close>

fun buffer_messages :: "nat \<Rightarrow> nat \<Rightarrow> asgi_message list \<Rightarrow> asgi_message list \<Rightarrow> limited" where
  "buffer_messages max_body received_size messages [] = StillReceiving"
| "buffer_messages max_body received_size messages (OtherMessage t # arriving) = Dispatched (messages @ [OtherMessage t])"
| "buffer_messages max_body received_size messages (HttpRequest b more_body # arriving) =
     (case message_body b of
        NotBytes \<Rightarrow> Rejected413
      | BodyOf body \<Rightarrow>
          (if max_body < received_size + length body then Rejected413
           else if \<not> more_body then Dispatched (messages @ [HttpRequest b more_body])
           else buffer_messages max_body (received_size + length body) (messages @ [HttpRequest b more_body]) arriving))"

definition limit_request :: "nat \<Rightarrow> str \<Rightarrow> (str \<times> str) list \<Rightarrow> asgi_message list \<Rightarrow> limited" where
  "limit_request max_body scope_type headers arriving =
     (if scope_type \<noteq> ''http'' then PassedThrough
      else case content_length headers of
        Some declared_size \<Rightarrow>
          (if int max_body < declared_size then Rejected413 else buffer_messages max_body 0 [] arriving)
      | None \<Rightarrow> buffer_messages max_body 0 [] arriving)"

text \<open>What the application receives from the buffered messages.\<close>

definition replay_receive :: "asgi_message list \<Rightarrow> nat \<Rightarrow> asgi_message" where
  "replay_receive messages n = (if n < length messages then messages ! n else OtherMessage ''http.disconnect'')"

section \<open>Error answers\<close>

definition public_error :: "str \<Rightarrow> str \<Rightarrow> json" where
  "public_error code detail = JObj [(''error'', JStr code), (''detail'', JStr detail)]"

definition STATUS_ERROR_CODES :: "(int \<times> str) list" where
  "STATUS_ERROR_CODES = [(400, ''invalid_request''), (401, ''unauthorized''), (403, ''forbidden''), (404, ''not_found''),
     (409, ''conflict''), (413, ''payload_too_large''), (422, ''validation_error''), (429, ''too_many_requests''),
     (502, ''provider_error''), (503, ''service_unavailable''), (504, ''request_timeout'')]"

definition payload_too_large :: "int \<times> json" where
  "payload_too_large = (413, public_error ''payload_too_large'' ''Request body exceeds the configured size limit.'')"

definition validation_error_handler :: "int \<times> json" where
  "validation_error_handler = (422, public_error ''validation_error'' ''Request validation failed.'')"

definition has_envelope :: "json \<Rightarrow> bool" where
  "has_envelope j = (is_jobj j \<and> jget ''error'' j \<noteq> None \<and> jget ''detail'' j \<noteq> None)"

definition http_error_handler :: "int \<Rightarrow> json \<Rightarrow> int \<times> json" where
  "http_error_handler status detail =
     (status, if has_envelope detail then detail
      else public_error (case map_of STATUS_ERROR_CODES status of Some c \<Rightarrow> c | None \<Rightarrow> ''request_failed'')
             ''Request could not be completed.'')"

definition internal_error_handler :: "int \<times> json" where
  "internal_error_handler = (500, public_error ''internal_error'' ''Request could not be completed.'')"

text \<open>How an exception of an endpoint is answered; \<open>None\<close> for a request that was cancelled.\<close>

datatype endpoint_failure = ValidationFailed | HttpFailure int json | UnhandledFailure | FailureCancelled

fun error_answer :: "endpoint_failure \<Rightarrow> (int \<times> json) option" where
  "error_answer ValidationFailed = Some validation_error_handler"
| "error_answer (HttpFailure status detail) = Some (http_error_handler status detail)"
| "error_answer UnhandledFailure = Some internal_error_handler"
| "error_answer FailureCancelled = None"

section \<open>Correlation ids\<close>

definition correlation_id :: "str option \<Rightarrow> uuid \<Rightarrow> str" where
  "correlation_id header fresh =
     (let supplied = (case header of None \<Rightarrow> [] | Some t \<Rightarrow> t) in
      if is_ascii supplied \<and> 1 \<le> length supplied \<and> length supplied \<le> 64 then supplied else uuid_text fresh)"

section \<open>Probes\<close>

text \<open>The migration head of the repository and the version in the database; \<open>None\<close> if reading raises.\<close>

definition database_schema_ready :: "str option \<Rightarrow> str option option \<Rightarrow> bool" where
  "database_schema_ready head version =
     (case (head, version) of (Some h, Some v) \<Rightarrow> v = Some h | _ \<Rightarrow> False)"

text \<open>The automation part; the status is \<open>Inl\<close> when the query raises.\<close>

definition automation_readiness :: "settings \<Rightarrow> time \<Rightarrow> unit + automation_report option \<Rightarrow> bool \<times> str" where
  "automation_readiness s now status =
     (case status of
        Inl _ \<Rightarrow> (False, ''database_or_schema_unavailable'')
      | Inr None \<Rightarrow> (False, ''automation_watch_unavailable'')
      | Inr (Some r) \<Rightarrow>
          (if \<not> ar_watch_valid r \<or> ms_watch_last_error_code (ar_state r) \<noteq> None then (False, ''automation_watch_unavailable'')
           else if (case ms_worker_heartbeat_at (ar_state r) of
                      None \<Rightarrow> True | Some t \<Rightarrow> now - t > seconds (GMAIL_WORKER_LIVENESS_SECONDS s))
           then (False, ''automation_worker_stale'')
           else if ms_resync_state (ar_state r) \<noteq> ResyncIdle \<or> ar_failure_count r \<noteq> 0
           then (False, ''automation_recovery_required'')
           else (True, ''ready'')))"

text \<open>
  The row of the configured owner; the comparison with a missing owner finds none. \<open>reads\<close> says
  whether the database answers.
\<close>

definition owner_status :: "bool \<Rightarrow> time \<Rightarrow> uuid option \<Rightarrow> mail_db \<Rightarrow> unit + automation_report option" where
  "owner_status reads now owner_id db =
     (if reads then Inr (Option.bind owner_id (\<lambda>u. automation_status now u db)) else Inl ())"

definition readiness_status ::
  "settings \<Rightarrow> push_settings \<Rightarrow> service_role \<Rightarrow> bool \<Rightarrow> redis_error + bool \<Rightarrow> bool \<Rightarrow> time \<Rightarrow> time \<Rightarrow> mail_db \<Rightarrow>
   cancelled + bool \<times> str" where
  "readiness_status s ps role schema_ready ping reads status_now now db =
     (if \<not> schema_ready then Inr (False, ''database_or_schema_unavailable'')
      else if requires_redis role \<and> ping = Inl RedisCancelled then Inl cancelled.Cancelled
      else if requires_redis role \<and> ping \<noteq> Inr True then Inr (False, ''redis_unavailable'')
      else if \<not> runs_automation_worker (AUTOMATION_ENABLED ps) role then Inr (True, ''ready'')
      else Inr (automation_readiness s now (owner_status reads status_now (AUTOMATION_OWNER_ID ps) db)))"

definition readyz :: "bool \<times> str \<Rightarrow> int \<times> json" where
  "readyz verdict = (case verdict of (ready, reason) \<Rightarrow>
     (if ready then 200 else 503, JObj [(''status'', JStr (if ready then ''ready'' else ''unready'')), (''reason'', JStr reason)]))"

definition livez :: json where
  "livez = JObj [(''status'', JStr ''ok'')]"

definition root_status :: "bool \<Rightarrow> service_role \<Rightarrow> json" where
  "root_status enabled role = JObj [(''status'', JStr ''ok''),
     (''global_gmail_service'', JStr (if runs_automation_worker enabled role then ''durable_worker_enabled'' else ''disabled''))]"

section \<open>Triage endpoints\<close>

definition list_triage_endpoint ::
  "('c, 'v) router_env \<Rightarrow> str option \<Rightarrow> triage_state \<Rightarrow> nat \<Rightarrow> str option \<Rightarrow> token_table \<times> mail_db \<Rightarrow>
   router_error + triage_view list \<times> str option" where
  "list_triage_endpoint E creds state limit page_token d =
     (case authenticated E creds of
        Inl e \<Rightarrow> Inl e
      | Inr p \<Rightarrow>
          (if \<not> (1 \<le> limit \<and> limit \<le> 100 \<and> page_token \<noteq> Some [] \<and> at_most 512 page_token) then Inl (RouterHttp 422 [])
           else case list_triage_results (al_page (rt_lib E)) d (pr_user_id p, state) limit page_token of
             Inl InvalidTriagePageToken \<Rightarrow> Inl (RouterHttp 422 ''validation_error'')
           | Inl TriageResultNotFound \<Rightarrow> Inl RouterUnhandled
           | Inr page \<Rightarrow> Inr page))"

definition get_triage_endpoint ::
  "('c, 'v) router_env \<Rightarrow> str option \<Rightarrow> uuid \<Rightarrow> token_table \<times> mail_db \<Rightarrow> router_error + triage_view" where
  "get_triage_endpoint E creds triage_id d =
     (case authenticated E creds of
        Inl e \<Rightarrow> Inl e
      | Inr p \<Rightarrow>
          (case get_triage_result d triage_id (pr_user_id p) of
             Inl TriageResultNotFound \<Rightarrow> Inl (RouterHttp 404 [])
           | Inl InvalidTriagePageToken \<Rightarrow> Inl RouterUnhandled
           | Inr v \<Rightarrow> Inr v))"

section \<open>Starting and stopping\<close>

text \<open>
  The end of the lifespan: how the wait for the worker ended, and the closing of the adapters in
  order, which stops at the first one that raises.
\<close>

datatype worker_wait = WorkerEnded | WorkerTimedOut | WorkerRaised | WaitCancelled

datatype shutdown_action = StopSignalled | WorkerAwaited | WorkerCancelled | RedisClosed | GoogleClosed | LlmClosed | DatabaseClosed

definition starts_worker :: "bool \<Rightarrow> service_role \<Rightarrow> bool" where
  "starts_worker enabled role = (runs_automation_worker enabled role \<and> role = RoleCombined)"

fun close_all :: "(shutdown_action \<Rightarrow> bool) \<Rightarrow> shutdown_action list \<Rightarrow> shutdown_action list" where
  "close_all raises [] = []"
| "close_all raises (a # as) = a # (if raises a then [] else close_all raises as)"

definition adapters :: "shutdown_action list" where
  "adapters = [RedisClosed, GoogleClosed, LlmClosed, DatabaseClosed]"

definition lifespan_end :: "bool \<Rightarrow> worker_wait \<Rightarrow> (shutdown_action \<Rightarrow> bool) \<Rightarrow> shutdown_action list" where
  "lifespan_end started w raises =
     (if \<not> started then close_all raises adapters
      else case w of
        WorkerTimedOut \<Rightarrow> [StopSignalled, WorkerAwaited, WorkerCancelled] @ close_all raises adapters
      | WaitCancelled \<Rightarrow> [StopSignalled, WorkerAwaited]
      | _ \<Rightarrow> [StopSignalled, WorkerAwaited] @ close_all raises adapters)"

text \<open>The dedicated worker process: \<open>None\<close> when it refuses to start; afterwards it closes its adapters.\<close>

definition worker_main :: "bool \<Rightarrow> service_role \<Rightarrow> (shutdown_action \<Rightarrow> bool) \<Rightarrow> shutdown_action list option" where
  "worker_main enabled role raises =
     (if \<not> runs_automation_worker enabled role \<or> role \<noteq> RoleAutomationWorker then None
      else Some (close_all raises [RedisClosed, GoogleClosed, LlmClosed]))"

text \<open>For every role at most one kind of process runs the worker.\<close>

lemma one_process_runs_worker: "\<not> (starts_worker enabled role \<and> worker_main enabled role raises \<noteq> None)"
  by (simp add: starts_worker_def worker_main_def)

section \<open>The body limit\<close>

fun body_size :: "asgi_message list \<Rightarrow> nat" where
  "body_size [] = 0"
| "body_size (HttpRequest (BodyBytes b) more_body # ms) = length b + body_size ms"
| "body_size (m # ms) = body_size ms"

fun bytes_only :: "asgi_message \<Rightarrow> bool" where
  "bytes_only (HttpRequest BodyOther more_body) = False"
| "bytes_only m = True"

fun request_complete :: "asgi_message list \<Rightarrow> bool" where
  "request_complete [] = False"
| "request_complete (OtherMessage t # ms) = (ms = [])"
| "request_complete (HttpRequest b more_body # ms) = (if more_body then request_complete ms else ms = [])"

definition declared_within :: "nat \<Rightarrow> (str \<times> str) list \<Rightarrow> bool" where
  "declared_within max_body headers = (case content_length headers of None \<Rightarrow> True | Some n \<Rightarrow> n \<le> int max_body)"

lemma body_size_request: "body_size (HttpRequest b more_body # ms) = (case message_body b of NotBytes \<Rightarrow> 0 | BodyOf x \<Rightarrow> length x) + body_size ms"
  by (cases b) simp_all

lemma bytes_only_request: "bytes_only (HttpRequest b more_body) \<longleftrightarrow> message_body b \<noteq> NotBytes"
  by (cases b) simp_all

lemma split_first:
  "(\<exists>ms rest. m # arriving = ms @ rest \<and> P ms) \<longleftrightarrow> P [] \<or> (\<exists>ms rest. arriving = ms @ rest \<and> P (m # ms))"
  by (auto simp: Cons_eq_append_conv)

lemma buffered_exactly:
  assumes "received \<le> max_body"
  shows "buffer_messages max_body received messages arriving = Dispatched out \<longleftrightarrow>
    (\<exists>ms rest. arriving = ms @ rest \<and> out = messages @ ms \<and> request_complete ms \<and> list_all bytes_only ms \<and>
       received + body_size ms \<le> max_body)"
  using assms
proof (induction max_body received messages arriving rule: buffer_messages.induct)
  case (2 max_body received messages t arriving)
  then show ?case by (simp only: split_first) auto
next
  case (3 max_body received messages b more_body arriving)
  show ?case
  proof (cases "message_body b")
    case NotBytes
    then show ?thesis by (simp only: split_first) (simp add: bytes_only_request)
  next
    case (BodyOf body)
    show ?thesis
    proof (cases "max_body < received + length body")
      case True
      then show ?thesis using BodyOf by (simp only: split_first) (auto simp: body_size_request)
    next
      case False
      then show ?thesis using "3.IH" [OF BodyOf False] BodyOf
        by (simp only: split_first) (auto simp: body_size_request bytes_only_request add.assoc)
    qed
  qed
qed auto

lemma complete_decided:
  assumes "request_complete ms" and "received \<le> max_body"
  shows "buffer_messages max_body received messages (ms @ rest) \<in> {Dispatched (messages @ ms), Rejected413}"
  using assms
proof (induction ms arbitrary: received messages)
  case (Cons m ms)
  show ?case
  proof (cases m)
    case (HttpRequest b more_body)
    then show ?thesis
      using Cons.prems Cons.IH [where messages = "messages @ [HttpRequest b True]"] by (cases "message_body b") (auto simp: not_less)
  qed (use Cons.prems in simp)
qed simp

lemma replayed: "map (replay_receive messages) [0..<length messages] = messages"
  by (rule nth_equalityI) (simp_all add: replay_receive_def)

text \<open>
  C26. The body limit is exact. A request reaches the application if and only if its declared size, if
  any, and the bytes of its messages stay within the limit and every body is bytes; the application
  then receives exactly the messages of the request, in order. A complete request is always decided:
  dispatched or answered with 413, whatever follows it.
\<close>

theorem body_limit_exact:
  "(limit_request max_body ''http'' headers arriving = Dispatched ms \<longleftrightarrow>
     (\<exists>rest. arriving = ms @ rest) \<and> request_complete ms \<and> list_all bytes_only ms \<and> body_size ms \<le> max_body \<and>
     declared_within max_body headers) \<and>
   map (replay_receive ms) [0..<length ms] = ms \<and>
   (request_complete ms \<longrightarrow> limit_request max_body ''http'' headers (ms @ rest) \<in> {Dispatched ms, Rejected413})"
proof -
  have L: "limit_request max_body ''http'' headers a =
      (if declared_within max_body headers then buffer_messages max_body 0 [] a else Rejected413)" for a
    by (simp add: limit_request_def declared_within_def split: option.splits)
  show ?thesis
    using buffered_exactly [of 0 max_body "[]" arriving ms] complete_decided [of ms 0 max_body "[]" rest]
    by (auto simp: L replayed)
qed

theorem body_limit_exact_witness:
  "limit_request 4 ''http'' [(''Content-Length'', '' 3'')] [HttpRequest (BodyBytes [1, 2]) True, HttpRequest (BodyBytes [3]) False] =
     Dispatched [HttpRequest (BodyBytes [1, 2]) True, HttpRequest (BodyBytes [3]) False] \<and>
   limit_request 2 ''http'' [] [HttpRequest (BodyBytes [1, 2]) True, HttpRequest (BodyBytes [3]) False] \<in>
     {Dispatched [HttpRequest (BodyBytes [1, 2]) True, HttpRequest (BodyBytes [3]) False], Rejected413}"
proof -
  have "declared_within 4 [(''Content-Length'', '' 3'')]" by code_simp
  then show ?thesis
    using body_limit_exact [of 4 "[(''Content-Length'', '' 3'')]"
        "[HttpRequest (BodyBytes [1, 2]) True, HttpRequest (BodyBytes [3]) False]"
        "[HttpRequest (BodyBytes [1, 2]) True, HttpRequest (BodyBytes [3]) False]" "[]"]
      body_limit_exact [of 2 "[]" "[]" "[HttpRequest (BodyBytes [1, 2]) True, HttpRequest (BodyBytes [3]) False]" "[]"]
    by simp
qed

section \<open>Answers and probes\<close>

lemma public_error_envelope: "has_envelope (public_error code detail)"
  by (simp add: has_envelope_def public_error_def is_jobj_def jget_def)

text \<open>Every error answer of the handlers has the public envelope.\<close>

lemma error_answers_have_envelope: "error_answer f = Some (status, j) \<Longrightarrow> has_envelope j"
  by (cases f) (auto simp: validation_error_handler_def http_error_handler_def internal_error_handler_def public_error_envelope
    split: if_splits)

text \<open>The correlation id is never empty, never longer than 64 characters and always ASCII.\<close>

lemma correlation_id_bounded:
  "is_ascii (correlation_id header fresh) \<and> correlation_id header fresh \<noteq> [] \<and> length (correlation_id header fresh) \<le> 64"
  using length_uuid_text [of fresh] uuid_text_ascii [of _ fresh]
  by (auto simp: correlation_id_def Let_def is_ascii_def list_all_iff)

text \<open>Unless the wait is cancelled, shutting down closes all adapters, up to the first that raises.\<close>

lemma shutdown_closes:
  assumes "w \<noteq> WaitCancelled" and "\<And>a. \<not> raises a"
  shows "set adapters \<subseteq> set (lifespan_end started w raises)"
proof -
  have "close_all raises as = as" for as using assms(2) by (induction as) simp_all
  then show ?thesis using assms(1) by (cases w) (auto simp: lifespan_end_def)
qed

lemma health_report_healthy:
  assumes "AUTOMATION_OWNER_ID ps = Some owner"
  shows "(\<exists>h. health_check s ps status_now now owner db = Inr h \<and> hr_status h = ''healthy'') \<longleftrightarrow>
    (\<exists>r. automation_status status_now owner db = Some r \<and> healthy s now r)"
  using assms by (auto simp: health_check_def require_global_gmail_operator_def split: option.splits)

lemma automation_ready: "automation_readiness s now (Inr (Some r)) = (True, ''ready'') \<longleftrightarrow> healthy s now r"
  by (auto simp: automation_readiness_def healthy_def heartbeat_fresh_def split: option.splits)

lemma owner_ready:
  "automation_readiness s now (owner_status reads status_now (Some owner) db) = (True, ''ready'') \<longleftrightarrow>
     reads \<and> (\<exists>r. automation_status status_now owner db = Some r \<and> healthy s now r)"
  by (cases "automation_status status_now owner db")
    (simp_all add: owner_status_def automation_ready, simp_all add: automation_readiness_def)

text \<open>
  The readiness probe and the operator's health report agree: a process that runs the automation
  worker is ready exactly when the schema is at the migration head, Redis answers where the role needs
  it, the database can be read, and the health report for the owner says healthy; any other process is
  ready as soon as the schema and Redis are.
\<close>

lemma readiness_agrees_with_health:
  assumes "AUTOMATION_OWNER_ID ps = Some owner"
  shows "readiness_status s ps role schema_ready ping reads status_now now db = Inr (True, ''ready'') \<longleftrightarrow>
    schema_ready \<and> (requires_redis role \<longrightarrow> ping = Inr True) \<and>
    (runs_automation_worker (AUTOMATION_ENABLED ps) role \<longrightarrow>
       reads \<and> (\<exists>h. health_check s ps status_now now owner db = Inr h \<and> hr_status h = ''healthy''))"
  unfolding health_report_healthy [OF assms] readiness_status_def assms using owner_ready by auto

definition demo_ready_db :: mail_db where
  "demo_ready_db = \<lparr>jobs = [], mailboxes = [demo_mailbox\<lparr>ms_worker_heartbeat_at := Some 5\<rparr>], triage = []\<rparr>"

lemma readiness_agrees_with_health_witness:
  "readiness_status default_settings demo_push_settings RoleCombined True (Inr True) True 9 9 demo_ready_db = Inr (True, ''ready'') \<and>
   readiness_status default_settings demo_push_settings RoleCombined True (Inr True) True 9 9 demo_mail0 \<noteq> Inr (True, ''ready'')"
proof -
  have owner: "AUTOMATION_OWNER_ID demo_push_settings = Some 7" by (simp add: demo_push_settings_def)
  have "\<exists>h. health_check default_settings demo_push_settings 9 9 7 demo_ready_db = Inr h \<and> hr_status h = ''healthy''"
    by (rule exI [of _ "projr (health_check default_settings demo_push_settings 9 9 7 demo_ready_db)"]) code_simp
  moreover have "health_check default_settings demo_push_settings 9 9 7 demo_mail0 =
      Inr \<lparr>hr_status = ''unavailable'', hr_detail = ''No durable Gmail mailbox state exists yet.'',
        hr_gmail_service_status = ''unavailable''\<rparr>" by code_simp
  moreover have "runs_automation_worker (AUTOMATION_ENABLED demo_push_settings) RoleCombined" by code_simp
  ultimately show ?thesis unfolding readiness_agrees_with_health [OF owner] by auto
qed

end
