(* ===== verification/Llm_Stream.thy ===== *)
theory Llm_Stream
  imports Agents "HOL-Library.Sublist"
begin

text \<open>
  The language model adapter (\<open>server/integrations/llm.py\<close>): the translation of errors and the bridge
  from a synchronous stream of chunks, read on a worker thread, to an asynchronous consumer. The
  thread, the task that waits for it and the consumer share a bounded queue; a step relation
  interleaves them arbitrarily. The chunks of the provider and how its stream ends are arguments.
\<close>

section \<open>Errors\<close>

text \<open>The exceptions that the code distinguishes; \<open>RunnerTimeout\<close> and \<open>RunnerCapacity\<close> come from the bounded runner.\<close>

datatype llm_exn = RunnerTimeout | RunnerCapacity | OsOrTimeoutError | OtherException

fun translate_error :: "llm_exn \<Rightarrow> llm_error" where
  "translate_error RunnerTimeout = LlmOperationTimeout"
| "translate_error RunnerCapacity = LlmOperationUnavailable"
| "translate_error OsOrTimeoutError = LlmOperationUnavailable"
| "translate_error OtherException = LlmOperationInternal"

text \<open>A single request: the runner gives a response, raises, or the caller is cancelled.\<close>

datatype 'r run_outcome = RunReturned 'r | RunRaisedExn llm_exn | RunCancelled

fun generate :: "'r run_outcome \<Rightarrow> (llm_error + 'r) option" where
  "generate (RunReturned r) = Some (Inr r)"
| "generate (RunRaisedExn e) = Some (Inl (translate_error e))"
| "generate RunCancelled = None"

section \<open>State of a bridge\<close>

datatype 'c bridge_item = ItemChunk 'c | ItemEnd | ItemError llm_error

text \<open>How the iterator of the provider ends after its last chunk.\<close>

datatype source_end = SourceExhausted | SourceRaises llm_exn

text \<open>
  Where the thread is: before the iteration, in the iteration with the chunks still to come, in a
  call that waits for room in the queue, or at its end, with the exception that left it.
\<close>

datatype 'c thread_stage =
    ThreadNotStarted
  | ThreadConnecting
  | ThreadIterating "'c list"
  | ThreadPutting "'c bridge_item" "'c list"
  | ThreadEnded "llm_exn option"

datatype task_stage = TaskWaiting | TaskPutting llm_error | TaskEnded

datatype stream_result = StreamExhausted | StreamFailed llm_error

text \<open>
  \<open>br_waiting\<close> says that a call of \<open>__anext__\<close> is suspended in \<open>queue.get\<close>. What the consumer
  has received is recorded: the chunks in \<open>br_got\<close>, the ends in \<open>br_results\<close>
  (\<open>StreamExhausted\<close> is \<open>StopAsyncIteration\<close>), and in \<open>br_abandoned\<close> that the owner of
  the stream called \<open>aclose\<close> on a bridge that was still open.
\<close>

record 'c bridge =
  br_maxsize :: nat
  br_queue :: "'c bridge_item list"
  br_stop :: bool
  br_closed :: bool
  br_thread :: "'c thread_stage"
  br_task :: task_stage
  br_client :: bool
  br_waiting :: bool
  br_got :: "'c list"
  br_results :: "stream_result list"
  br_abandoned :: bool

definition bridge_start :: "nat \<Rightarrow> 'c bridge" where
  "bridge_start maxsize = \<lparr>br_maxsize = maxsize, br_queue = [], br_stop = False, br_closed = False, br_thread = ThreadNotStarted,
     br_task = TaskWaiting, br_client = False, br_waiting = False, br_got = [], br_results = [], br_abandoned = False\<rparr>"

definition has_room :: "'c bridge \<Rightarrow> bool" where
  "has_room b = (length (br_queue b) < br_maxsize b)"

definition enqueue :: "'c bridge_item \<Rightarrow> 'c bridge \<Rightarrow> 'c bridge" where
  "enqueue x b = b\<lparr>br_queue := br_queue b @ [x]\<rparr>"

section \<open>The producer\<close>

text \<open>The \<open>finally\<close> block closes the client on every way out of the thread.\<close>

definition thread_exit :: "llm_exn option \<Rightarrow> 'c bridge \<Rightarrow> 'c bridge" where
  "thread_exit e b = b\<lparr>br_thread := ThreadEnded e, br_client := False\<rparr>"

definition enqueue_from_worker :: "'c bridge_item \<Rightarrow> 'c list \<Rightarrow> 'c bridge \<Rightarrow> 'c bridge option" where
  "enqueue_from_worker x rest b = (if br_stop b then None else Some (b\<lparr>br_thread := ThreadPutting x rest\<rparr>))"

definition thread_raises :: "llm_exn \<Rightarrow> 'c bridge \<Rightarrow> 'c bridge" where
  "thread_raises e b = (case enqueue_from_worker (ItemError (translate_error e)) [] b of
      None \<Rightarrow> thread_exit None b | Some b1 \<Rightarrow> b1)"

definition thread_connects :: "'c list \<Rightarrow> 'c bridge \<Rightarrow> 'c bridge" where
  "thread_connects chunks b = (if br_stop b then thread_exit None b else b\<lparr>br_thread := ThreadIterating chunks, br_client := True\<rparr>)"

text \<open>One turn of the \<open>for\<close> loop, and what follows it when the iterator has ended.\<close>

definition thread_turn :: "source_end \<Rightarrow> 'c list \<Rightarrow> 'c bridge \<Rightarrow> 'c bridge" where
  "thread_turn ending rest b =
     (case rest of
        c # cs \<Rightarrow> (case enqueue_from_worker (ItemChunk c) cs b of None \<Rightarrow> thread_exit None b | Some b1 \<Rightarrow> b1)
      | [] \<Rightarrow>
          (case ending of
             SourceExhausted \<Rightarrow> (case enqueue_from_worker ItemEnd [] b of None \<Rightarrow> thread_exit None b | Some b1 \<Rightarrow> b1)
           | SourceRaises e \<Rightarrow> thread_raises e b))"

text \<open>A call to put an item returns, or raises \<open>e\<close>; then the item may or may not be in the queue.\<close>

fun after_put :: "'c bridge_item \<Rightarrow> 'c list \<Rightarrow> 'c bridge \<Rightarrow> 'c bridge" where
  "after_put (ItemChunk c) rest b = b\<lparr>br_thread := ThreadIterating rest\<rparr>"
| "after_put x rest b = thread_exit None b"

fun after_failed_put :: "llm_exn \<Rightarrow> 'c bridge_item \<Rightarrow> 'c bridge \<Rightarrow> 'c bridge" where
  "after_failed_put e (ItemError x) b = thread_exit (Some e) b"
| "after_failed_put e x b = thread_raises e b"

text \<open>The task that waits for the thread: \<open>None\<close> when it returned or the task is cancelled.\<close>

definition run_producer :: "llm_exn option \<Rightarrow> 'c bridge \<Rightarrow> 'c bridge" where
  "run_producer raised b =
     (case raised of
        None \<Rightarrow> b\<lparr>br_task := TaskEnded\<rparr>
      | Some e \<Rightarrow> (if br_stop b then b\<lparr>br_task := TaskEnded\<rparr> else b\<lparr>br_task := TaskPutting (translate_error e)\<rparr>))"

section \<open>The consumer\<close>

definition bridge_aclose :: "'c bridge \<Rightarrow> 'c bridge" where
  "bridge_aclose b =
     (if br_closed b then b
      else let b1 = b\<lparr>br_closed := True, br_stop := True\<rparr> in if has_room b1 then enqueue ItemEnd b1 else b1)"

text \<open>The owner closes the stream: after a disconnect, or when the context manager is left.\<close>

definition owner_closes :: "'c bridge \<Rightarrow> 'c bridge" where
  "owner_closes b = (bridge_aclose b)\<lparr>br_abandoned := br_abandoned b \<or> \<not> br_closed b\<rparr>"

text \<open>
  \<open>__anext__\<close> up to the wait, what it does with the item that the wait returns, and what it does when
  the wait times out (or the deadline had already passed). While it waits, other tasks run and may close
  the bridge; an item is then still returned by the wait.
\<close>

definition anext_begins :: "'c bridge \<Rightarrow> 'c bridge" where
  "anext_begins b = (if br_closed b then b\<lparr>br_results := br_results b @ [StreamExhausted]\<rparr> else b\<lparr>br_waiting := True\<rparr>)"

definition finish_stream :: "stream_result \<Rightarrow> 'c bridge \<Rightarrow> 'c bridge" where
  "finish_stream r b = (bridge_aclose b)\<lparr>br_waiting := False, br_results := br_results b @ [r]\<rparr>"

fun anext_receives :: "'c bridge_item \<Rightarrow> 'c bridge \<Rightarrow> 'c bridge" where
  "anext_receives (ItemChunk c) b = b\<lparr>br_waiting := False, br_got := br_got b @ [c]\<rparr>"
| "anext_receives ItemEnd b = finish_stream StreamExhausted b"
| "anext_receives (ItemError e) b = finish_stream (StreamFailed e) b"

definition anext_times_out :: "'c bridge \<Rightarrow> 'c bridge" where
  "anext_times_out b = finish_stream (StreamFailed LlmOperationTimeout) b"

section \<open>Interleavings\<close>

inductive bridge_step :: "'c list \<Rightarrow> source_end \<Rightarrow> 'c bridge \<Rightarrow> 'c bridge \<Rightarrow> bool" for chunks ending where
  thread_starts: "br_thread b = ThreadNotStarted \<Longrightarrow> bridge_step chunks ending b (b\<lparr>br_thread := ThreadConnecting\<rparr>)"
| connects: "br_thread b = ThreadConnecting \<Longrightarrow> bridge_step chunks ending b (thread_connects chunks b)"
| connect_fails: "br_thread b = ThreadConnecting \<Longrightarrow> bridge_step chunks ending b (thread_raises e (b\<lparr>br_client := k\<rparr>))"
| turns: "br_thread b = ThreadIterating rest \<Longrightarrow> bridge_step chunks ending b (thread_turn ending rest b)"
| puts: "br_thread b = ThreadPutting x rest \<Longrightarrow> has_room b \<Longrightarrow> bridge_step chunks ending b (after_put x rest (enqueue x b))"
| put_fails: "br_thread b = ThreadPutting x rest \<Longrightarrow> bridge_step chunks ending b (after_failed_put e x b)"
| put_fails_late: "br_thread b = ThreadPutting x rest \<Longrightarrow> has_room b \<Longrightarrow>
    bridge_step chunks ending b (after_failed_put e x (enqueue x b))"
| run_returns: "br_task b = TaskWaiting \<Longrightarrow> br_thread b = ThreadEnded None \<Longrightarrow> bridge_step chunks ending b (run_producer None b)"
| run_raises: "br_task b = TaskWaiting \<Longrightarrow> bridge_step chunks ending b (run_producer (Some e) b)"
| task_cancelled: "bridge_step chunks ending b (b\<lparr>br_task := TaskEnded\<rparr>)"
| task_puts: "br_task b = TaskPutting e \<Longrightarrow> has_room b \<Longrightarrow>
    bridge_step chunks ending b (enqueue (ItemError e) (b\<lparr>br_task := TaskEnded\<rparr>))"
| consumer_asks: "\<not> br_waiting b \<Longrightarrow> bridge_step chunks ending b (anext_begins b)"
| consumer_reads: "br_waiting b \<Longrightarrow> br_queue b = x # q \<Longrightarrow> bridge_step chunks ending b (anext_receives x (b\<lparr>br_queue := q\<rparr>))"
| consumer_times_out: "br_waiting b \<Longrightarrow> bridge_step chunks ending b (anext_times_out b)"
| consumer_cancelled: "br_waiting b \<Longrightarrow> bridge_step chunks ending b (b\<lparr>br_waiting := False\<rparr>)"
| consumer_closes: "bridge_step chunks ending b (owner_closes b)"

section \<open>What the consumer sees\<close>

fun chunks_of :: "'c bridge_item list \<Rightarrow> 'c list" where
  "chunks_of [] = []"
| "chunks_of (ItemChunk c # q) = c # chunks_of q"
| "chunks_of (x # q) = chunks_of q"

definition sent :: "'c bridge \<Rightarrow> 'c list" where
  "sent b = br_got b @ chunks_of (br_queue b)"

fun producer_ok :: "'c list \<Rightarrow> source_end \<Rightarrow> 'c list \<Rightarrow> 'c thread_stage \<Rightarrow> bool" where
  "producer_ok chunks ending s (ThreadIterating rest) = (s @ rest = chunks)"
| "producer_ok chunks ending s (ThreadPutting (ItemChunk c) rest) = (s @ c # rest = chunks)"
| "producer_ok chunks ending s (ThreadPutting ItemEnd rest) = (s = chunks \<and> ending = SourceExhausted)"
| "producer_ok chunks ending s (ThreadPutting (ItemError e) rest) = prefix s chunks"
| "producer_ok chunks ending s (ThreadEnded e) = prefix s chunks"
| "producer_ok chunks ending s t = (s = [])"

definition end_ok :: "'c list \<Rightarrow> source_end \<Rightarrow> 'c bridge \<Rightarrow> bool" where
  "end_ok chunks ending b = (\<forall>q1 q2. br_queue b = q1 @ ItemEnd # q2 \<longrightarrow> br_got b @ chunks_of q1 = chunks \<and> ending = SourceExhausted)"

definition complete :: "'c list \<Rightarrow> source_end \<Rightarrow> 'c bridge \<Rightarrow> bool" where
  "complete chunks ending b = (br_got b = chunks \<and> ending = SourceExhausted)"

definition consumer_ok :: "'c list \<Rightarrow> source_end \<Rightarrow> 'c bridge \<Rightarrow> bool" where
  "consumer_ok chunks ending b =
     ((\<not> br_closed b \<longrightarrow> end_ok chunks ending b \<and> br_results b = [] \<and> \<not> br_abandoned b) \<and>
      (br_closed b \<and> \<not> br_abandoned b \<longrightarrow> br_results b \<noteq> []) \<and> (br_results b \<noteq> [] \<longrightarrow> \<not> br_waiting b) \<and>
      (br_results b \<noteq> [] \<longrightarrow> hd (br_results b) = StreamExhausted \<longrightarrow> complete chunks ending b \<or> br_abandoned b))"

definition bridge_inv :: "'c list \<Rightarrow> source_end \<Rightarrow> 'c bridge \<Rightarrow> bool" where
  "bridge_inv chunks ending b = (br_stop b = br_closed b \<and> length (br_queue b) \<le> br_maxsize b \<and>
     producer_ok chunks ending (sent b) (br_thread b) \<and> consumer_ok chunks ending b \<and>
     (\<forall>e. br_thread b = ThreadEnded e \<longrightarrow> \<not> br_client b))"

lemmas inv_defs = bridge_inv_def consumer_ok_def complete_def

lemma chunks_of_append [simp]: "chunks_of (q1 @ q2) = chunks_of q1 @ chunks_of q2"
  by (induction q1 rule: chunks_of.induct) simp_all

lemma producer_ok_prefix: "producer_ok chunks ending s t \<Longrightarrow> prefix s chunks"
  by (induction chunks ending s t rule: producer_ok.induct) (auto simp: prefix_def)

lemma end_ok_snoc:
  assumes "end_ok chunks ending b" and "x = ItemEnd \<Longrightarrow> sent b = chunks \<and> ending = SourceExhausted"
  shows "end_ok chunks ending (enqueue x b)"
  unfolding end_ok_def
proof (intro allI impI)
  fix q1 q2
  assume q: "br_queue (enqueue x b) = q1 @ ItemEnd # q2"
  show "br_got (enqueue x b) @ chunks_of q1 = chunks \<and> ending = SourceExhausted"
  proof (cases q2 rule: rev_cases)
    case Nil
    then show ?thesis using q assms(2) by (simp add: enqueue_def sent_def)
  next
    case (snoc q3 y)
    then have "br_queue b = q1 @ ItemEnd # q3" using q by (simp add: enqueue_def)
    then show ?thesis using assms(1) unfolding end_ok_def enqueue_def by simp blast
  qed
qed

lemma sent_enqueue: "sent (enqueue x b) = sent b @ chunks_of [x]"
  by (simp add: sent_def enqueue_def)

text \<open>Steps that leave the queue and the consumer alone keep the invariant if the thread stays right.\<close>

lemma thread_moves:
  assumes "bridge_inv chunks ending b" and "producer_ok chunks ending (sent b) t" and "\<And>e. t = ThreadEnded e \<Longrightarrow> \<not> k"
  shows "bridge_inv chunks ending (b\<lparr>br_thread := t, br_client := k\<rparr>)"
  using assms by (auto simp: inv_defs sent_def end_ok_def)

lemma exit_inv: "bridge_inv chunks ending b \<Longrightarrow> bridge_inv chunks ending (thread_exit e b)"
  using thread_moves [of chunks ending b "ThreadEnded e" False] producer_ok_prefix
  by (simp add: thread_exit_def bridge_inv_def) blast

lemma put_call_inv:
  assumes "bridge_inv chunks ending b" and "producer_ok chunks ending (sent b) (ThreadPutting x rest)"
  shows "bridge_inv chunks ending (case enqueue_from_worker x rest b of None \<Rightarrow> thread_exit None b | Some b1 \<Rightarrow> b1)"
  using exit_inv [OF assms(1)] thread_moves [OF assms, of "br_client b"] by (simp add: enqueue_from_worker_def)

lemma raises_inv: "bridge_inv chunks ending b \<Longrightarrow> bridge_inv chunks ending (thread_raises e b)"
  unfolding thread_raises_def by (rule put_call_inv) (auto simp: inv_defs dest: producer_ok_prefix)

lemma put_inv_queue:
  assumes "bridge_inv chunks ending b" and "has_room b" and "producer_ok chunks ending (sent (enqueue x b)) t"
    and "x = ItemEnd \<Longrightarrow> sent b = chunks \<and> ending = SourceExhausted" and "\<And>e. t = ThreadEnded e \<Longrightarrow> \<not> k"
  shows "bridge_inv chunks ending ((enqueue x b)\<lparr>br_thread := t, br_client := k\<rparr>)"
proof -
  have "\<not> br_closed b \<Longrightarrow> end_ok chunks ending (enqueue x b)" using assms(1,4) end_ok_snoc by (auto simp: inv_defs)
  then show ?thesis using assms by (auto simp: inv_defs has_room_def sent_def end_ok_def enqueue_def)
qed

lemma failed_put_inv: "bridge_inv chunks ending b \<Longrightarrow> bridge_inv chunks ending (after_failed_put e x b)"
  by (cases x) (simp_all add: raises_inv exit_inv)

lemma after_put_inv:
  assumes "bridge_inv chunks ending b" and "has_room b" and "br_thread b = ThreadPutting x rest"
  shows "bridge_inv chunks ending (after_put x rest (enqueue x b))"
    and "bridge_inv chunks ending (after_failed_put e x (enqueue x b))"
proof -
  have ok: "producer_ok chunks ending (sent b) (ThreadPutting x rest)" using assms(1,3) by (simp add: bridge_inv_def)
  have ended: "bridge_inv chunks ending (thread_exit e' (enqueue x b))" for e'
    unfolding thread_exit_def
    by (rule put_inv_queue [OF assms(1,2)]) (use ok in \<open>cases x; auto simp: sent_enqueue prefix_def\<close>)+
  show "bridge_inv chunks ending (after_put x rest (enqueue x b))"
  proof (cases x)
    case (ItemChunk c)
    have "bridge_inv chunks ending ((enqueue x b)\<lparr>br_thread := ThreadIterating rest, br_client := br_client b\<rparr>)"
      by (rule put_inv_queue [OF assms(1,2)]) (use ok ItemChunk in \<open>simp_all add: sent_enqueue\<close>)
    then show ?thesis using ItemChunk by (simp add: enqueue_def)
  qed (use ended in simp_all)
  have "bridge_inv chunks ending ((enqueue x b)\<lparr>br_thread := ThreadPutting (ItemError (translate_error e)) [], br_client := br_client b\<rparr>)"
    by (rule put_inv_queue [OF assms(1,2)]) (use ok in \<open>cases x; auto simp: sent_enqueue prefix_def\<close>)+
  then have "bridge_inv chunks ending (thread_raises e (enqueue x b))"
    using ended [of None] by (simp add: thread_raises_def enqueue_from_worker_def enqueue_def)
  then show "bridge_inv chunks ending (after_failed_put e x (enqueue x b))" using ended [of "Some e"] by (cases x) simp_all
qed

text \<open>Closing, and what the consumer does.\<close>

lemma finish_inv:
  assumes "bridge_inv chunks ending b" and "br_waiting b"
    and "r = StreamExhausted \<Longrightarrow> complete chunks ending b \<or> br_abandoned b"
  shows "bridge_inv chunks ending (finish_stream r b)"
  using assms by (auto simp: inv_defs finish_stream_def bridge_aclose_def has_room_def enqueue_def sent_def Let_def)

lemma owner_closes_inv: "bridge_inv chunks ending b \<Longrightarrow> bridge_inv chunks ending (owner_closes b)"
  by (auto simp: inv_defs owner_closes_def bridge_aclose_def has_room_def enqueue_def sent_def Let_def end_ok_def)

lemma begins_inv:
  assumes "bridge_inv chunks ending b" and "\<not> br_waiting b"
  shows "bridge_inv chunks ending (anext_begins b)"
  using assms by (cases "br_results b") (auto simp: inv_defs anext_begins_def sent_def end_ok_def)

lemma popped_inv:
  assumes "bridge_inv chunks ending b" and "br_queue b = x # q" and "\<And>c. x \<noteq> ItemChunk c"
  shows "bridge_inv chunks ending (b\<lparr>br_queue := q\<rparr>)"
proof -
  have "end_ok chunks ending (b\<lparr>br_queue := q\<rparr>)" if "end_ok chunks ending b"
    unfolding end_ok_def
  proof (intro allI impI)
    fix q1 q2
    assume "br_queue (b\<lparr>br_queue := q\<rparr>) = q1 @ ItemEnd # q2"
    then have "br_queue b = (x # q1) @ ItemEnd # q2" using assms(2) by simp
    then have "br_got b @ chunks_of (x # q1) = chunks \<and> ending = SourceExhausted"
      using that unfolding end_ok_def by blast
    then show "br_got (b\<lparr>br_queue := q\<rparr>) @ chunks_of q1 = chunks \<and> ending = SourceExhausted"
      using assms(3) by (cases x) auto
  qed
  moreover have "chunks_of (x # q) = chunks_of q" using assms(3) by (cases x) auto
  ultimately show ?thesis using assms(1,2) by (auto simp: inv_defs sent_def)
qed

lemma read_inv:
  assumes "bridge_inv chunks ending b" and "br_waiting b" and q: "br_queue b = x # q"
  shows "bridge_inv chunks ending (anext_receives x (b\<lparr>br_queue := q\<rparr>))"
proof (cases x)
  case (ItemChunk c)
  have "end_ok chunks ending (b\<lparr>br_queue := q, br_got := br_got b @ [c]\<rparr>)" if "end_ok chunks ending b"
    unfolding end_ok_def
  proof (intro allI impI)
    fix q1 q2
    assume "br_queue (b\<lparr>br_queue := q, br_got := br_got b @ [c]\<rparr>) = q1 @ ItemEnd # q2"
    then have "br_queue b = (ItemChunk c # q1) @ ItemEnd # q2" using q ItemChunk by simp
    then have "br_got b @ chunks_of (ItemChunk c # q1) = chunks \<and> ending = SourceExhausted"
      using that unfolding end_ok_def by blast
    then show "br_got (b\<lparr>br_queue := q, br_got := br_got b @ [c]\<rparr>) @ chunks_of q1 = chunks \<and> ending = SourceExhausted" by simp
  qed
  then show ?thesis using assms ItemChunk by (auto simp: inv_defs sent_def end_ok_def)
next
  case ItemEnd
  have "complete chunks ending b \<or> br_abandoned b"
  proof (cases "br_closed b")
    case True
    then show ?thesis using assms(1,2) by (auto simp: inv_defs)
  next
    case False
    then have "end_ok chunks ending b" using assms(1) by (simp add: inv_defs)
    then show ?thesis using q ItemEnd unfolding end_ok_def complete_def by (metis append_Nil append_Nil2 chunks_of.simps(1))
  qed
  then show ?thesis using popped_inv [OF assms(1) q] assms(2) ItemEnd by (auto simp: complete_def intro!: finish_inv)
next
  case (ItemError err)
  then show ?thesis using popped_inv [OF assms(1) q] assms(2) by (auto intro!: finish_inv)
qed

lemma turn_inv:
  assumes "bridge_inv chunks ending b" and "br_thread b = ThreadIterating rest"
  shows "bridge_inv chunks ending (thread_turn ending rest b)"
proof -
  have "sent b @ rest = chunks" using assms by (simp add: bridge_inv_def)
  then show ?thesis
    by (cases rest; cases ending) (use assms(1) in \<open>auto simp: thread_turn_def intro!: put_call_inv raises_inv\<close>)
qed

lemma task_inv: "bridge_inv chunks ending b \<Longrightarrow> bridge_inv chunks ending (b\<lparr>br_task := t\<rparr>)"
  by (simp add: inv_defs sent_def end_ok_def)

lemma task_puts_inv:
  assumes "bridge_inv chunks ending b" and "has_room b"
  shows "bridge_inv chunks ending (enqueue (ItemError e) (b\<lparr>br_task := t\<rparr>))"
proof -
  have "producer_ok chunks ending (sent (enqueue (ItemError e) b)) (br_thread b)" using assms(1) by (simp add: sent_enqueue bridge_inv_def)
  then have "bridge_inv chunks ending ((enqueue (ItemError e) b)\<lparr>br_thread := br_thread b, br_client := br_client b\<rparr>)"
    by (rule put_inv_queue [OF assms]) (use assms(1) in \<open>auto simp: bridge_inv_def\<close>)
  then show ?thesis by (simp add: enqueue_def inv_defs sent_def end_ok_def)
qed

lemma bridge_step_inv:
  assumes "bridge_step chunks ending b b'" and "bridge_inv chunks ending b"
  shows "bridge_inv chunks ending b'"
  using assms
proof (cases rule: bridge_step.cases)
  case thread_starts
  then show ?thesis using thread_moves [of chunks ending b ThreadConnecting "br_client b"] assms(2) by (simp add: bridge_inv_def)
next
  case connects
  then show ?thesis using thread_moves [of chunks ending b "ThreadIterating chunks" True] exit_inv [of chunks ending b None] assms(2)
    by (simp add: thread_connects_def) (simp add: bridge_inv_def)
next
  case (connect_fails e k)
  then have "bridge_inv chunks ending (b\<lparr>br_client := k\<rparr>)"
    using assms(2) by (auto simp: inv_defs sent_def end_ok_def)
  then show ?thesis using connect_fails raises_inv by simp
next
  case consumer_times_out
  then show ?thesis using finish_inv [OF assms(2), of "StreamFailed LlmOperationTimeout"] by (simp add: anext_times_out_def)
next
  case consumer_cancelled
  then show ?thesis using assms(2) by (auto simp: inv_defs sent_def end_ok_def)
qed (use assms(2) in \<open>simp_all add: turn_inv after_put_inv failed_put_inv run_producer_def task_inv task_puts_inv read_inv begins_inv owner_closes_inv split: option.splits\<close>)

interpretation bridge_safe: invariant_of "\<lambda>b. \<exists>n. b = bridge_start n" "bridge_step chunks ending" "bridge_inv chunks ending"
  for chunks :: "'c list" and ending
proof
  show "\<exists>n. b = bridge_start n \<Longrightarrow> bridge_inv chunks ending b" for b :: "'c bridge"
    by (auto simp: bridge_start_def inv_defs sent_def end_ok_def)
  show "bridge_inv chunks ending b \<Longrightarrow> bridge_step chunks ending b b' \<Longrightarrow> bridge_inv chunks ending b'" for b b' :: "'c bridge"
    using bridge_step_inv by blast
qed

text \<open>Once the consumer has seen an end it receives nothing more.\<close>

lemma producer_frame [simp]:
  "br_got (thread_exit r b) = br_got b" "br_results (thread_exit r b) = br_results b"
  "br_got (thread_raises e b) = br_got b" "br_results (thread_raises e b) = br_results b"
  "br_got (enqueue x b) = br_got b" "br_results (enqueue x b) = br_results b"
  by (simp_all add: thread_exit_def thread_raises_def enqueue_from_worker_def enqueue_def)

lemma put_frame [simp]:
  "br_got (after_put x rest b) = br_got b" "br_results (after_put x rest b) = br_results b"
  "br_got (after_failed_put e x b) = br_got b" "br_results (after_failed_put e x b) = br_results b"
  by (cases x; simp)+

lemma turn_frame [simp]:
  "br_got (thread_turn ending rest b) = br_got b" "br_results (thread_turn ending rest b) = br_results b"
  by (auto simp: thread_turn_def enqueue_from_worker_def split: list.splits source_end.splits)

lemma close_frame [simp]: "br_got (owner_closes b) = br_got b" "br_results (owner_closes b) = br_results b"
  by (simp_all add: owner_closes_def bridge_aclose_def Let_def)

lemma nothing_after_end:
  assumes "bridge_inv chunks ending b" and "br_results b \<noteq> []" and "bridge_step chunks ending b b'"
  shows "br_got b' = br_got b \<and> br_results b' \<noteq> []"
proof -
  have "\<not> br_waiting b" using assms(1,2) by (simp add: bridge_inv_def consumer_ok_def)
  with assms(3,2) show ?thesis
    by (cases rule: bridge_step.cases) (simp_all add: thread_connects_def run_producer_def anext_begins_def split: option.splits)
qed

lemma never_after_end:
  assumes "(bridge_step chunks ending)\<^sup>*\<^sup>* b b'" and "br_results b \<noteq> []" and "bridge_inv chunks ending b"
  shows "br_got b' = br_got b \<and> br_results b' \<noteq> [] \<and> bridge_inv chunks ending b'"
  using assms(1)
proof (induction rule: rtranclp_induct)
  case (step c d)
  then show ?case using nothing_after_end [of chunks ending c d] bridge_safe.inv_step [of chunks ending c d] by metis
qed (use assms(2,3) in simp)

text \<open>
  C24. A streamed answer is delivered in order, without gaps or repetitions, and an end is never faked:
  in every interleaving of the worker thread, its task, a consumer that waits for one chunk at a time and
  an owner that may close the stream at any moment, also while the consumer waits, with time-outs,
  cancellation and a consumer that does not drain, the delivered chunks are a prefix of the chunks of the
  provider and the queue never exceeds its size. If the first end that the consumer sees is the normal
  one, then it has got every chunk of a provider stream that ended normally, or the owner had closed the
  stream. After an end nothing more is delivered, and a thread that has ended has closed its client.
\<close>

theorem stream_faithful:
  assumes "reach (\<lambda>b. \<exists>n. b = bridge_start n) (bridge_step chunks ending) b"
  shows "prefix (br_got b) chunks \<and> length (br_queue b) \<le> br_maxsize b \<and>
    (br_results b \<noteq> [] \<longrightarrow> hd (br_results b) = StreamExhausted \<longrightarrow>
       br_got b = chunks \<and> ending = SourceExhausted \<or> br_abandoned b) \<and>
    (br_results b \<noteq> [] \<longrightarrow> (\<forall>b'. (bridge_step chunks ending)\<^sup>*\<^sup>* b b' \<longrightarrow> br_got b' = br_got b)) \<and>
    (\<forall>e. br_thread b = ThreadEnded e \<longrightarrow> \<not> br_client b)"
proof -
  have inv: "bridge_inv chunks ending b" using bridge_safe.reach_inv [OF assms] .
  then have "prefix (sent b) chunks" using producer_ok_prefix by (auto simp: bridge_inv_def)
  then have "prefix (br_got b) chunks" unfolding sent_def by (rule append_prefixD)
  moreover have "length (br_queue b) \<le> br_maxsize b"
    "br_results b \<noteq> [] \<longrightarrow> hd (br_results b) = StreamExhausted \<longrightarrow> br_got b = chunks \<and> ending = SourceExhausted \<or> br_abandoned b"
    "\<forall>e. br_thread b = ThreadEnded e \<longrightarrow> \<not> br_client b"
    using inv by (auto simp: inv_defs)
  moreover have "br_results b \<noteq> [] \<longrightarrow> (\<forall>b'. (bridge_step chunks ending)\<^sup>*\<^sup>* b b' \<longrightarrow> br_got b' = br_got b)"
    using never_after_end [OF _ _ inv] by blast
  ultimately show ?thesis by blast
qed

text \<open>A stream of one chunk that is read to its end.\<close>

definition demo_bridge ::
  "nat bridge_item list \<Rightarrow> bool \<Rightarrow> nat thread_stage \<Rightarrow> bool \<Rightarrow> bool \<Rightarrow> nat list \<Rightarrow> stream_result list \<Rightarrow> nat bridge" where
  "demo_bridge q off th cl w got r = \<lparr>br_maxsize = 1, br_queue = q, br_stop = off, br_closed = off, br_thread = th,
     br_task = TaskWaiting, br_client = cl, br_waiting = w, br_got = got, br_results = r, br_abandoned = False\<rparr>"

abbreviation demo_step :: "nat bridge \<Rightarrow> nat bridge \<Rightarrow> bool" where
  "demo_step \<equiv> bridge_step [5] SourceExhausted"

lemmas demo_bridge_simps = demo_bridge_def bridge_start_def thread_connects_def thread_turn_def enqueue_from_worker_def enqueue_def
  thread_exit_def has_room_def anext_begins_def finish_stream_def bridge_aclose_def Let_def

lemma demo_bridge_steps:
  "demo_step (bridge_start 1) (demo_bridge [] False ThreadConnecting False False [] [])"
  "demo_step (demo_bridge [] False ThreadConnecting False False [] []) (demo_bridge [] False (ThreadIterating [5]) True False [] [])"
  "demo_step (demo_bridge [] False (ThreadIterating [5]) True False [] [])
     (demo_bridge [] False (ThreadPutting (ItemChunk 5) []) True False [] [])"
  "demo_step (demo_bridge [] False (ThreadPutting (ItemChunk 5) []) True False [] [])
     (demo_bridge [ItemChunk 5] False (ThreadIterating []) True False [] [])"
  "demo_step (demo_bridge [ItemChunk 5] False (ThreadIterating []) True False [] [])
     (demo_bridge [ItemChunk 5] False (ThreadIterating []) True True [] [])"
  "demo_step (demo_bridge [ItemChunk 5] False (ThreadIterating []) True True [] [])
     (demo_bridge [] False (ThreadIterating []) True False [5] [])"
  "demo_step (demo_bridge [] False (ThreadIterating []) True False [5] []) (demo_bridge [] False (ThreadPutting ItemEnd []) True False [5] [])"
  "demo_step (demo_bridge [] False (ThreadPutting ItemEnd []) True False [5] [])
     (demo_bridge [ItemEnd] False (ThreadEnded None) False False [5] [])"
  "demo_step (demo_bridge [ItemEnd] False (ThreadEnded None) False False [5] [])
     (demo_bridge [ItemEnd] False (ThreadEnded None) False True [5] [])"
  "demo_step (demo_bridge [ItemEnd] False (ThreadEnded None) False True [5] [])
     (demo_bridge [ItemEnd] True (ThreadEnded None) False False [5] [StreamExhausted])"
  using thread_starts [of "bridge_start 1" "[5]" SourceExhausted]
    connects [of "demo_bridge [] False ThreadConnecting False False [] []" "[5]" SourceExhausted]
    turns [of "demo_bridge [] False (ThreadIterating [5]) True False [] []" "[5]" "[5]" SourceExhausted]
    puts [of "demo_bridge [] False (ThreadPutting (ItemChunk 5) []) True False [] []" "ItemChunk 5" "[]" "[5]" SourceExhausted]
    consumer_asks [of "demo_bridge [ItemChunk 5] False (ThreadIterating []) True False [] []" "[5]" SourceExhausted]
    consumer_reads [of "demo_bridge [ItemChunk 5] False (ThreadIterating []) True True [] []" "ItemChunk 5" "[]" "[5]" SourceExhausted]
    turns [of "demo_bridge [] False (ThreadIterating []) True False [5] []" "[]" "[5]" SourceExhausted]
    puts [of "demo_bridge [] False (ThreadPutting ItemEnd []) True False [5] []" ItemEnd "[]" "[5]" SourceExhausted]
    consumer_asks [of "demo_bridge [ItemEnd] False (ThreadEnded None) False False [5] []" "[5]" SourceExhausted]
    consumer_reads [of "demo_bridge [ItemEnd] False (ThreadEnded None) False True [5] []" ItemEnd "[]" "[5]" SourceExhausted]
  by (simp_all add: demo_bridge_simps)

abbreviation demo_end :: "nat bridge" where
  "demo_end \<equiv> demo_bridge [ItemEnd] True (ThreadEnded None) False False [5] [StreamExhausted]"

lemma demo_bridge_reached: "reach (\<lambda>b. \<exists>n. b = bridge_start n) demo_step demo_end"
  by (rule demo_bridge_steps [THEN reach_step [where step = demo_step, rotated]] reach_init exI refl)+

theorem stream_faithful_witness:
  "br_results demo_end = [StreamExhausted] \<and> \<not> br_abandoned demo_end \<and> br_got demo_end = [5] \<and> \<not> br_client demo_end"
  using stream_faithful [OF demo_bridge_reached] by (simp add: demo_bridge_def)

end
