(* ===== verification/Tool_Declarations.thy ===== *)
theory Tool_Declarations
  imports Agent_Tools
begin

text \<open>
  The function declarations that the server shows to the language model (\<open>server/agent_tools.py\<close>),
  and their agreement with the calls that the server accepts.
\<close>

section \<open>Declarations\<close>

datatype schema_type = StringSchema | StringArraySchema

record function_declaration =
  fd_name :: str
  fd_properties :: "(str \<times> schema_type) list"
  fd_required :: "str list"

definition string_declaration :: "agent_tool \<Rightarrow> str list \<Rightarrow> function_declaration" where
  "string_declaration t names = \<lparr>fd_name = tool_value t, fd_properties = map (\<lambda>n. (n, StringSchema)) names, fd_required = names\<rparr>"

definition send_email_func_decl :: function_declaration where
  "send_email_func_decl = string_declaration SEND_EMAIL [''recipient_email'', ''subject'', ''email_body'']"

definition create_draft_func_decl :: function_declaration where
  "create_draft_func_decl = string_declaration CREATE_DRAFT [''recipient_email'', ''subject'', ''email_body'']"

definition create_event_func_decl :: function_declaration where
  "create_event_func_decl =
     \<lparr>fd_name = tool_value CREATE_EVENT,
      fd_properties = [(''title'', StringSchema), (''start_time_iso'', StringSchema), (''end_time_iso'', StringSchema),
        (''event_timezone'', StringSchema), (''description'', StringSchema), (''location'', StringSchema),
        (''attendee_emails'', StringArraySchema)],
      fd_required = [''title'', ''start_time_iso'', ''end_time_iso'', ''event_timezone'']\<rparr>"

definition create_task_func_decl :: function_declaration where
  "create_task_func_decl = string_declaration CREATE_TASK [''title'', ''notes'']"

definition mark_as_read_func_decl :: function_declaration where
  "mark_as_read_func_decl = string_declaration MARK_AS_READ [''message_id'']"

definition send_reply_to_user_func_decl :: function_declaration where
  "send_reply_to_user_func_decl = string_declaration SEND_REPLY [''recipient_email'', ''subject_filter'', ''reply_message'']"

definition get_calendar_events_func_decl :: function_declaration where
  "get_calendar_events_func_decl =
     \<lparr>fd_name = tool_value GET_CALENDAR_EVENTS,
      fd_properties = [(''date_strs'', StringArraySchema), (''target_timezone'', StringSchema)],
      fd_required = [''date_strs'']\<rparr>"

definition TOOL_DECLARATIONS :: "(str \<times> function_declaration) list" where
  "TOOL_DECLARATIONS =
     [(tool_value SEND_EMAIL, send_email_func_decl), (tool_value CREATE_DRAFT, create_draft_func_decl),
      (tool_value CREATE_EVENT, create_event_func_decl), (tool_value CREATE_TASK, create_task_func_decl),
      (tool_value MARK_AS_READ, mark_as_read_func_decl), (tool_value SEND_REPLY, send_reply_to_user_func_decl),
      (tool_value GET_CALENDAR_EVENTS, get_calendar_events_func_decl)]"

text \<open>What \<open>_tool_objects\<close> shows to the model; a missing declaration is a \<open>KeyError\<close>.\<close>

definition shown_declarations :: "agent_tool_policy \<Rightarrow> str list \<Rightarrow> function_declaration list option" where
  "shown_declarations policy bindings =
     (let found = map (map_of TOOL_DECLARATIONS) (tool_objects policy bindings) in
      if None \<in> set found then None else Some (map the found))"

section \<open>Agreement\<close>

text \<open>A call as a model makes it that follows the declaration: all required arguments and no others than the declared ones.\<close>

definition follows_declaration :: "function_declaration \<Rightarrow> call_arguments \<Rightarrow> bool" where
  "follows_declaration d args \<longleftrightarrow> distinct (map fst args) \<and> set (fd_required d) \<subseteq> fst ` set args \<and>
     fst ` set args \<subseteq> fst ` set (fd_properties d)"

definition declaration_of :: "agent_tool \<Rightarrow> function_declaration" where
  "declaration_of t = (case t of SEND_EMAIL \<Rightarrow> send_email_func_decl | CREATE_DRAFT \<Rightarrow> create_draft_func_decl
     | CREATE_EVENT \<Rightarrow> create_event_func_decl | CREATE_TASK \<Rightarrow> create_task_func_decl | MARK_AS_READ \<Rightarrow> mark_as_read_func_decl
     | SEND_REPLY \<Rightarrow> send_reply_to_user_func_decl | GET_CALENDAR_EVENTS \<Rightarrow> get_calendar_events_func_decl)"

lemmas declaration_defs = send_email_func_decl_def create_draft_func_decl_def create_event_func_decl_def create_task_func_decl_def
  mark_as_read_func_decl_def send_reply_to_user_func_decl_def get_calendar_events_func_decl_def string_declaration_def

lemma declared: "map_of TOOL_DECLARATIONS (tool_value t) = Some (declaration_of t)"
  by (cases t) (simp_all add: TOOL_DECLARATIONS_def declaration_of_def)

lemma declaration_signature:
  "case tool_signature t of (required, optional) \<Rightarrow>
     fd_required (declaration_of t) = required \<and> map fst (fd_properties (declaration_of t)) = required @ optional"
  by (cases t) (simp_all add: declaration_of_def declaration_defs)

text \<open>
  Every tool has a declaration of its name, and a call follows the declaration exactly when the server
  accepts its arguments: the model is never told of an argument that is refused, and none that the
  server needs is missing. Showing the tools of a policy never fails.
\<close>

lemma declarations_match_signatures:
  "map_of TOOL_DECLARATIONS (tool_value t) = Some (declaration_of t) \<and> fd_name (declaration_of t) = tool_value t \<and>
   follows_declaration (declaration_of t) args = validate_tool_arguments t args \<and>
   shown_declarations policy bindings \<noteq> None"
proof -
  have "follows_declaration (declaration_of t) args = validate_tool_arguments t args"
    using declaration_signature [of t]
    by (auto simp: follows_declaration_def validate_tool_arguments_def accepts_def simp flip: set_map split: prod.splits)
  moreover have "fd_name (declaration_of t) = tool_value t" by (cases t) (simp_all add: declaration_of_def declaration_defs)
  moreover have "None \<notin> set (map (map_of TOOL_DECLARATIONS) (tool_objects policy bindings))"
    using declared by (auto simp: tool_objects_def)
  ultimately show ?thesis using declared by (simp add: shown_declarations_def Let_def)
qed

end
