(* ===== verification/Agent_Profile.thy ===== *)
theory Agent_Profile
  imports Agents
begin

text \<open>
  The deployment profile of the agents (\<open>agents.py\<close>): reading the file, the fall-backs of its fields
  and the time zone. The YAML reader and the zone database are parameters.
\<close>

text \<open>What opening and reading the file gives.\<close>

datatype profile_file = FileNotFound | FileMalformed | FileUnreadable | FileLoaded json

text \<open>\<open>None\<close> is an exception that leaves the function.\<close>

definition load_config :: "profile_file \<Rightarrow> (str \<times> json) list option" where
  "load_config f = (case f of
      FileNotFound \<Rightarrow> Some []
    | FileMalformed \<Rightarrow> Some []
    | FileUnreadable \<Rightarrow> None
    | FileLoaded (JObj kvs) \<Rightarrow> Some kvs
    | FileLoaded _ \<Rightarrow> Some [])"

text \<open>\<open>ZoneInfo\<close> distinguishes a key that names no zone from one that is not a relative path below the database.\<close>

datatype zone_lookup = ZoneExists | ZoneNotFound | ZoneKeyMalformed

definition profile_timezone :: "(str \<Rightarrow> zone_lookup) \<Rightarrow> user_profile \<Rightarrow> str option" where
  "profile_timezone zones profile =
     (case zones (timezone_name profile) of
        ZoneExists \<Rightarrow> Some (timezone_name profile)
      | ZoneNotFound \<Rightarrow> (if zones ''UTC'' = ZoneExists then Some ''UTC'' else None)
      | ZoneKeyMalformed \<Rightarrow> None)"

section \<open>Every profile is usable\<close>

lemma text_or_filled: "fallback \<noteq> [] \<Longrightarrow> text_or v fallback \<noteq> []"
  by (simp add: text_or_def split: option.splits json.splits)

lemma profile_filled:
  "full_name (profile_from_config c) \<noteq> [] \<and> timezone_name (profile_from_config c) \<noteq> [] \<and>
   background (profile_from_config c) \<noteq> [] \<and> schedule_preferences (profile_from_config c) \<noteq> [] \<and>
   response_preferences (profile_from_config c) \<noteq> []"
  by (simp add: profile_from_config_def text_or_filled)

text \<open>A missing, malformed or wrongly shaped file gives the default profile in UTC.\<close>

lemma bad_file_gives_default:
  assumes "f \<in> {FileNotFound, FileMalformed} \<or> (\<exists>j. f = FileLoaded j \<and> \<not> is_jobj j)" and "zones ''UTC'' = ZoneExists"
  shows "\<exists>c. load_config f = Some c \<and> full_name (profile_from_config c) = ''Account owner'' \<and>
    profile_timezone zones (profile_from_config c) = Some ''UTC''"
proof -
  have "load_config f = Some []"
    using assms(1) by (elim disjE exE conjE) (auto simp: load_config_def is_jobj_def split: json.splits)
  then show ?thesis using assms(2) by (simp add: profile_from_config_def text_or_def profile_timezone_def)
qed

text \<open>
  The fall-back to UTC covers only keys that are well formed: a key such as an absolute path makes
  \<open>ZoneInfo\<close> raise another exception, and no run of an agent starts.
\<close>

lemma malformed_zone_not_replaced:
  assumes "zones key = ZoneKeyMalformed" and "strip key = key" and "key \<noteq> []"
  shows "profile_timezone zones (profile_from_config [(''timezone'', JStr key)]) = None"
  using assms by (simp add: profile_timezone_def profile_from_config_def text_or_def)

end
