(* ===== verification/Log_Redaction.thy ===== *)
theory Log_Redaction
  imports Onebox_Prelude
begin

text \<open>
  The redaction of log records (\<open>server/logging_config.py\<close>). The two substitutions by regular
  expressions in a message without arguments are a parameter; the arguments of a message are
  rewritten structurally, with the keys that the expression for sensitive keys matches.
\<close>

section \<open>Values\<close>

text \<open>Arguments of a log call: collections, text, and objects that are left as they are.\<close>

datatype log_value =
    LogText str
  | LogDict "(str \<times> log_value) list"
  | LogSeq "log_value list"
  | LogOther json

definition separated :: "str \<Rightarrow> str list \<Rightarrow> str list" where
  "separated a bs = concat (map (\<lambda>b. [a @ b, a @ ''_'' @ b, a @ '' '' @ b, a @ ''-'' @ b]) bs)"

definition SENSITIVE_KEYS :: "str list" where
  "SENSITIVE_KEYS = [''token'', ''authorization''] @ separated ''oauth'' [''code'', ''state''] @
     [''code'', ''state'', ''query'', ''subject'', ''body'', ''recipient'', ''recipient_email'', ''email_body''] @
     separated ''tool'' [''arg'', ''args''] @ separated ''provider'' [''body'']"

text \<open>The match ignores case, and \<open>$\<close> also matches before a final newline.\<close>

definition sensitive_key :: "str \<Rightarrow> bool" where
  "sensitive_key k = (let l = lower k in
     l \<in> set SENSITIVE_KEYS \<or> l \<noteq> [] \<and> last l = CHR 0x0A \<and> butlast l \<in> set SENSITIVE_KEYS)"

definition REDACTED :: str where
  "REDACTED = ''[redacted]''"

fun redact_value :: "log_value \<Rightarrow> log_value" where
  "redact_value (LogDict kvs) =
     LogDict (map (\<lambda>(k, v). (k, if sensitive_key k then LogText REDACTED else redact_value v)) kvs)"
| "redact_value (LogSeq vs) = LogSeq (map redact_value vs)"
| "redact_value (LogText t) = LogText REDACTED"
| "redact_value (LogOther j) = LogOther j"

record log_record =
  lr_msg :: str
  lr_args :: "log_value list"
  lr_correlation_id :: str

definition redact_filter :: "(str \<Rightarrow> str) \<Rightarrow> str \<Rightarrow> log_record \<Rightarrow> log_record" where
  "redact_filter redact_text correlation_id r =
     (let r1 = r\<lparr>lr_correlation_id := correlation_id\<rparr> in
      if lr_args r = [] then r1\<lparr>lr_msg := redact_text (lr_msg r)\<rparr> else r1\<lparr>lr_args := map redact_value (lr_args r)\<rparr>)"

section \<open>What a record can still say\<close>

fun texts :: "log_value \<Rightarrow> str set" where
  "texts (LogText t) = {t}"
| "texts (LogDict kvs) = (\<Union>(k, v)\<in>set kvs. texts v)"
| "texts (LogSeq vs) = (\<Union>v\<in>set vs. texts v)"
| "texts (LogOther j) = {}"

fun under_sensitive_keys :: "log_value \<Rightarrow> log_value set" where
  "under_sensitive_keys (LogDict kvs) = (\<Union>(k, v)\<in>set kvs. if sensitive_key k then {v} else under_sensitive_keys v)"
| "under_sensitive_keys (LogSeq vs) = (\<Union>v\<in>set vs. under_sensitive_keys v)"
| "under_sensitive_keys v = {}"

lemma redacted_texts: "texts (redact_value v) \<subseteq> {REDACTED}"
  by (induction v rule: redact_value.induct) (fastforce split: if_splits)+

lemma redacted_keys: "under_sensitive_keys (redact_value v) \<subseteq> {LogText REDACTED}"
  by (induction v rule: redact_value.induct) (fastforce split: if_splits)+

lemma redact_idempotent: "redact_value (redact_value v) = redact_value v"
  by (induction v rule: redact_value.induct) (auto split: if_splits)

text \<open>
  After the filter no argument contains text of the caller, nothing of a sensitive key is left, and
  filtering again, as a second handler does, changes nothing more.
\<close>

lemma filtered_arguments:
  assumes "v \<in> set (lr_args (redact_filter redact_text c r))"
  shows "texts v \<subseteq> {REDACTED} \<and> under_sensitive_keys v \<subseteq> {LogText REDACTED} \<and> redact_value v = v"
  using assms redacted_texts redacted_keys redact_idempotent by (auto simp: redact_filter_def Let_def split: if_splits)

end
