(* ===== verification/Sql_Schema.thy ===== *)
theory Sql_Schema
  imports Onebox_Prelude
begin

text \<open>
  The part of SQL that the migrations and the table declarations use: schemas, the operations of a
  migration on them, and what it means that rows satisfy the constraints of a table. An operation that
  PostgreSQL refuses gives \<open>None\<close>.
\<close>

section \<open>Schemas\<close>

datatype sql_type =
    SqlUuid | SqlJson | SqlText | SqlString "nat option" | SqlDateTime | SqlBigInteger | SqlInteger | SqlBoolean

datatype sql_cond =
    CondIn str "str list"
  | CondEq str str
  | CondNull str
  | CondNotNull str
  | CondNonNegative str
  | CondNot sql_cond
  | CondAnd sql_cond sql_cond
  | CondOr sql_cond sql_cond
  | CondSame sql_cond sql_cond

record sql_column =
  sc_name :: str
  sc_type :: sql_type
  sc_nullable :: bool
  sc_default :: "str option"

datatype table_constraint =
    PrimaryKey "str list"
  | UniqueOn str "str list"
  | CheckThat str sql_cond
  | ForeignKey "str list" str "str list" str

record sql_table =
  st_columns :: "sql_column list"
  st_constraints :: "table_constraint list"
  st_indexes :: "(str \<times> str list) list"

type_synonym schema = "(str \<times> sql_table) list"

text \<open>PostgreSQL names an unnamed constraint \<open>UNIQUE (c)\<close> of table \<open>t\<close> \<open>t_c_key\<close>.\<close>

definition unnamed_unique :: "str \<Rightarrow> str \<Rightarrow> table_constraint" where
  "unnamed_unique t c = UniqueOn (t @ ''_'' @ c @ ''_key'') [c]"

fun cond_columns :: "sql_cond \<Rightarrow> str list" where
  "cond_columns (CondIn c vs) = [c]"
| "cond_columns (CondEq c v) = [c]"
| "cond_columns (CondNull c) = [c]"
| "cond_columns (CondNotNull c) = [c]"
| "cond_columns (CondNonNegative c) = [c]"
| "cond_columns (CondNot a) = cond_columns a"
| "cond_columns (CondAnd a b) = cond_columns a @ cond_columns b"
| "cond_columns (CondOr a b) = cond_columns a @ cond_columns b"
| "cond_columns (CondSame a b) = cond_columns a @ cond_columns b"

fun constraint_columns :: "table_constraint \<Rightarrow> str list" where
  "constraint_columns (PrimaryKey cs) = cs"
| "constraint_columns (UniqueOn n cs) = cs"
| "constraint_columns (CheckThat n c) = cond_columns c"
| "constraint_columns (ForeignKey cs t ds on_delete) = cs"

fun constraint_name :: "table_constraint \<Rightarrow> str option" where
  "constraint_name (UniqueOn n cs) = Some n"
| "constraint_name (CheckThat n c) = Some n"
| "constraint_name _ = None"

definition column_names :: "sql_table \<Rightarrow> str list" where
  "column_names t = map sc_name (st_columns t)"

section \<open>Operations\<close>

datatype schema_op =
    CreateTable str "sql_column list" "table_constraint list"
  | DropTable str
  | AddColumn str sql_column
  | DropColumn str str
  | SetNullable str str bool
  | DropDefault str str
  | CreateIndex str str "str list"
  | DropIndex str str
  | AddConstraint str table_constraint
  | DropConstraint str str
  | ExecuteSql

definition on_table :: "str \<Rightarrow> (sql_table \<Rightarrow> sql_table option) \<Rightarrow> schema \<Rightarrow> schema option" where
  "on_table t f s =
     (case map_of s t of
        None \<Rightarrow> None
      | Some tb \<Rightarrow> (case f tb of
            None \<Rightarrow> None
          | Some tb' \<Rightarrow> Some (map (\<lambda>(n, u). (n, if n = t then tb' else u)) s)))"

definition covers :: "sql_table \<Rightarrow> str list \<Rightarrow> bool" where
  "covers tb cs = list_all (\<lambda>c. c \<in> set (column_names tb)) cs"

definition alter_column :: "str \<Rightarrow> (sql_column \<Rightarrow> sql_column) \<Rightarrow> sql_table \<Rightarrow> sql_table option" where
  "alter_column c f tb =
     (if c \<notin> set (column_names tb) then None
      else Some (tb\<lparr>st_columns := map (\<lambda>x. if sc_name x = c then f x else x) (st_columns tb)\<rparr>))"

text \<open>
  A column that is not nullable needs a default, because the table may hold rows. Dropping a column
  drops the constraints and indexes on it.
\<close>

fun run_statement :: "schema_op \<Rightarrow> schema \<Rightarrow> schema option" where
  "run_statement (CreateTable t cols cons) s =
     (let tb = \<lparr>st_columns = cols, st_constraints = cons, st_indexes = []\<rparr> in
      if t \<in> set (map fst s) \<or> \<not> distinct (map sc_name cols) \<or> \<not> list_all (\<lambda>c. covers tb (constraint_columns c)) cons
      then None else Some (s @ [(t, tb)]))"
| "run_statement (DropTable t) s = (if t \<notin> set (map fst s) then None else Some (filter (\<lambda>(n, u). n \<noteq> t) s))"
| "run_statement (AddColumn t c) s = on_table t (\<lambda>tb.
     if sc_name c \<in> set (column_names tb) \<or> \<not> sc_nullable c \<and> sc_default c = None then None
     else Some (tb\<lparr>st_columns := st_columns tb @ [c]\<rparr>)) s"
| "run_statement (DropColumn t c) s = on_table t (\<lambda>tb.
     if c \<notin> set (column_names tb) then None
     else Some \<lparr>st_columns = filter (\<lambda>x. sc_name x \<noteq> c) (st_columns tb),
       st_constraints = filter (\<lambda>k. c \<notin> set (constraint_columns k)) (st_constraints tb),
       st_indexes = filter (\<lambda>(n, cs). c \<notin> set cs) (st_indexes tb)\<rparr>) s"
| "run_statement (SetNullable t c b) s = on_table t (alter_column c (\<lambda>x. x\<lparr>sc_nullable := b\<rparr>)) s"
| "run_statement (DropDefault t c) s = on_table t (alter_column c (\<lambda>x. x\<lparr>sc_default := None\<rparr>)) s"
| "run_statement (CreateIndex n t cs) s = on_table t (\<lambda>tb.
     if \<not> covers tb cs \<or> n \<in> set (map fst (st_indexes tb)) then None
     else Some (tb\<lparr>st_indexes := st_indexes tb @ [(n, cs)]\<rparr>)) s"
| "run_statement (DropIndex n t) s = on_table t (\<lambda>tb.
     if n \<notin> set (map fst (st_indexes tb)) then None
     else Some (tb\<lparr>st_indexes := filter (\<lambda>(m, cs). m \<noteq> n) (st_indexes tb)\<rparr>)) s"
| "run_statement (AddConstraint t k) s = on_table t (\<lambda>tb.
     if \<not> covers tb (constraint_columns k) \<or> constraint_name k \<in> set (map constraint_name (st_constraints tb)) then None
     else Some (tb\<lparr>st_constraints := st_constraints tb @ [k]\<rparr>)) s"
| "run_statement (DropConstraint n t) s = on_table t (\<lambda>tb.
     if Some n \<notin> set (map constraint_name (st_constraints tb)) then None
     else Some (tb\<lparr>st_constraints := filter (\<lambda>k. constraint_name k \<noteq> Some n) (st_constraints tb)\<rparr>)) s"
| "run_statement ExecuteSql s = Some s"

fun run_statements :: "schema_op list \<Rightarrow> schema \<Rightarrow> schema option" where
  "run_statements [] s = Some s"
| "run_statements (x # xs) s = Option.bind (run_statement x s) (run_statements xs)"

section \<open>Comparing schemas\<close>

text \<open>
  Equal up to the order of tables, columns, constraints and indexes: the columns agree in name, type,
  nullability and server default.
\<close>

definition same_members :: "'a list \<Rightarrow> 'a list \<Rightarrow> bool" where
  "same_members xs ys = (list_all (\<lambda>x. x \<in> set ys) xs \<and> list_all (\<lambda>y. y \<in> set xs) ys)"

definition same_table :: "sql_table \<Rightarrow> sql_table \<Rightarrow> bool" where
  "same_table t u = (same_members (st_columns t) (st_columns u) \<and>
     same_members (st_constraints t) (st_constraints u) \<and> same_members (st_indexes t) (st_indexes u))"

definition same_schema :: "schema \<Rightarrow> schema \<Rightarrow> bool" where
  "same_schema s s' = (same_members (map fst s) (map fst s') \<and>
     list_all (\<lambda>(n, t). case map_of s' n of None \<Rightarrow> False | Some u \<Rightarrow> same_table t u) s)"

section \<open>Rows\<close>

datatype sql_value = ValText str | ValInt int | ValTime time | ValBool bool | ValId uuid | ValJson json

type_synonym sql_row = "str \<Rightarrow> sql_value option"

text \<open>A condition is true, false or, because of \<open>NULL\<close>, unknown; a check only fails when it is false.\<close>

fun sql_not :: "bool option \<Rightarrow> bool option" where
  "sql_not x = map_option Not x"

fun sql_and :: "bool option \<Rightarrow> bool option \<Rightarrow> bool option" where
  "sql_and (Some False) y = Some False"
| "sql_and x (Some False) = Some False"
| "sql_and (Some True) (Some True) = Some True"
| "sql_and x y = None"

definition sql_or :: "bool option \<Rightarrow> bool option \<Rightarrow> bool option" where
  "sql_or x y = sql_not (sql_and (sql_not x) (sql_not y))"

fun eval_cond :: "sql_row \<Rightarrow> sql_cond \<Rightarrow> bool option" where
  "eval_cond r (CondIn c vs) = map_option (\<lambda>v. v \<in> set (map ValText vs)) (r c)"
| "eval_cond r (CondEq c w) = map_option (\<lambda>v. v = ValText w) (r c)"
| "eval_cond r (CondNull c) = Some (r c = None)"
| "eval_cond r (CondNotNull c) = Some (r c \<noteq> None)"
| "eval_cond r (CondNonNegative c) = map_option (\<lambda>v. case v of ValInt i \<Rightarrow> 0 \<le> i | _ \<Rightarrow> False) (r c)"
| "eval_cond r (CondNot a) = sql_not (eval_cond r a)"
| "eval_cond r (CondAnd a b) = sql_and (eval_cond r a) (eval_cond r b)"
| "eval_cond r (CondOr a b) = sql_or (eval_cond r a) (eval_cond r b)"
| "eval_cond r (CondSame a b) =
     (case (eval_cond r a, eval_cond r b) of (Some x, Some y) \<Rightarrow> Some (x = y) | _ \<Rightarrow> None)"

definition key_values :: "str list \<Rightarrow> sql_row list \<Rightarrow> sql_value option list list" where
  "key_values cs rows = filter (\<lambda>k. None \<notin> set k) (map (\<lambda>r. map r cs) rows)"

fun constraint_holds :: "sql_row list \<Rightarrow> table_constraint \<Rightarrow> bool" where
  "constraint_holds rows (PrimaryKey cs) =
     (list_all (\<lambda>r. None \<notin> set (map r cs)) rows \<and> distinct (key_values cs rows))"
| "constraint_holds rows (UniqueOn n cs) = distinct (key_values cs rows)"
| "constraint_holds rows (CheckThat n c) = list_all (\<lambda>r. eval_cond r c \<noteq> Some False) rows"
| "constraint_holds rows (ForeignKey cs t ds on_delete) = True"

text \<open>
  What the database demands of the rows of a table: columns that are not nullable are set, and the
  constraints hold. A reference to another table is the subject of the theory of that table; the types
  of the columns, with their lengths and ranges, are recorded in the schema and not part of this.
\<close>

definition required_set :: "sql_table \<Rightarrow> sql_row \<Rightarrow> bool" where
  "required_set tb r = list_all (\<lambda>c. sc_nullable c \<or> r (sc_name c) \<noteq> None) (st_columns tb)"

definition rows_satisfy :: "sql_table \<Rightarrow> sql_row list \<Rightarrow> bool" where
  "rows_satisfy tb rows = (list_all (required_set tb) rows \<and> list_all (constraint_holds rows) (st_constraints tb))"

lemma distinct_key_values:
  assumes "distinct (map f xs)"
    and "\<And>x y. x \<in> set xs \<Longrightarrow> y \<in> set xs \<Longrightarrow> map (g x) cs = map (g y) cs \<Longrightarrow> f x = f y"
  shows "distinct (key_values cs (map g xs))"
proof -
  have "inj_on f (set xs)" "distinct xs" using assms(1) by (simp_all add: distinct_map)
  then have "inj_on (\<lambda>x. map (g x) cs) (set xs)" using assms(2) by (meson inj_onD inj_onI)
  then have "distinct (map (\<lambda>x. map (g x) cs) xs)" using \<open>distinct xs\<close> by (simp add: distinct_map)
  moreover have "map (\<lambda>r. map r cs) (map g xs) = map (\<lambda>x. map (g x) cs) xs" by simp
  ultimately show ?thesis unfolding key_values_def by (metis distinct_filter)
qed

end
