(* ===== verification/Migrations.thy ===== *)
theory Migrations
  imports Sql_Schema Http_Service
begin

text \<open>
  The database schema: the eight revisions under \<open>alembic/versions/\<close> with their upgrades and
  downgrades, the tables that \<open>server/models.py\<close> declares, and the run of migrations
  (\<open>alembic/env.py\<close>). The statements that only change rows are in \<open>Migrated_Rows\<close>.
\<close>

section \<open>Abbreviations for columns\<close>

definition required_col :: "str \<Rightarrow> sql_type \<Rightarrow> sql_column" where
  "required_col n ty = \<lparr>sc_name = n, sc_type = ty, sc_nullable = False, sc_default = None\<rparr>"

definition optional_col :: "str \<Rightarrow> sql_type \<Rightarrow> sql_column" where
  "optional_col n ty = \<lparr>sc_name = n, sc_type = ty, sc_nullable = True, sc_default = None\<rparr>"

definition default_col :: "str \<Rightarrow> sql_type \<Rightarrow> str \<Rightarrow> sql_column" where
  "default_col n ty d = \<lparr>sc_name = n, sc_type = ty, sc_nullable = False, sc_default = Some d\<rparr>"

definition varchar :: "nat \<Rightarrow> sql_type" where
  "varchar n = SqlString (Some n)"

section \<open>Revisions\<close>

record revision =
  rv_id :: str
  rv_down :: "str option"
  rv_upgrade :: "schema_op list"
  rv_downgrade :: "schema_op list"

definition rev_34b44198417b :: revision where
  "rev_34b44198417b = \<lparr>rv_id = ''34b44198417b'', rv_down = None,
     rv_upgrade =
       [CreateTable ''onebox_tokens''
          [required_col ''user_id'' SqlUuid, required_col ''token_json'' SqlJson,
           (optional_col ''created_at'' SqlDateTime)\<lparr>sc_default := Some ''now()''\<rparr>,
           (optional_col ''updated_at'' SqlDateTime)\<lparr>sc_default := Some ''now()''\<rparr>]
          [PrimaryKey [''user_id'']]],
     rv_downgrade = [DropTable ''onebox_tokens'']\<rparr>"

definition rev_20025ef7fbcc :: revision where
  "rev_20025ef7fbcc = \<lparr>rv_id = ''20025ef7fbcc'', rv_down = Some ''34b44198417b'',
     rv_upgrade = [AddColumn ''onebox_tokens'' (optional_col ''user_email'' (SqlString None))],
     rv_downgrade = [DropColumn ''onebox_tokens'' ''user_email'']\<rparr>"

definition rev_620d1f8b1e34 :: revision where
  "rev_620d1f8b1e34 = \<lparr>rv_id = ''620d1f8b1e34'', rv_down = Some ''20025ef7fbcc'',
     rv_upgrade =
       [CreateTable ''pending_actions''
          [required_col ''id'' SqlUuid, required_col ''user_id'' SqlUuid, required_col ''action_type'' (varchar 64),
           required_col ''payload'' SqlJson, required_col ''payload_hash'' (varchar 64),
           required_col ''idempotency_key'' (varchar 64), required_col ''summary'' SqlText,
           required_col ''status'' (varchar 32), optional_col ''result'' SqlJson, optional_col ''error_code'' (varchar 64),
           default_col ''created_at'' SqlDateTime ''now()'', required_col ''expires_at'' SqlDateTime,
           optional_col ''approved_at'' SqlDateTime, optional_col ''processed_at'' SqlDateTime]
          [PrimaryKey [''id''], unnamed_unique ''pending_actions'' ''idempotency_key''],
        CreateIndex ''ix_pending_actions_user_id'' ''pending_actions'' [''user_id''],
        CreateIndex ''ix_pending_actions_user_status'' ''pending_actions'' [''user_id'', ''status'']],
     rv_downgrade =
       [DropIndex ''ix_pending_actions_user_status'' ''pending_actions'',
        DropIndex ''ix_pending_actions_user_id'' ''pending_actions'',
        DropTable ''pending_actions'']\<rparr>"

definition CONNECTION_STATES :: "str list" where
  "CONNECTION_STATES = [''pending'', ''connected'', ''reconnect_required'', ''quarantined'']"

definition connection_status_check :: table_constraint where
  "connection_status_check = CheckThat ''ck_onebox_tokens_connection_status'' (CondIn ''connection_status'' CONNECTION_STATES)"

definition rev_8f8a10d8c4f1 :: revision where
  "rev_8f8a10d8c4f1 = \<lparr>rv_id = ''8f8a10d8c4f1'', rv_down = Some ''620d1f8b1e34'',
     rv_upgrade =
       [SetNullable ''onebox_tokens'' ''token_json'' True,
        AddColumn ''onebox_tokens'' (optional_col ''encrypted_token_payload'' SqlText),
        AddColumn ''onebox_tokens'' (optional_col ''credential_key_id'' (varchar 128)),
        AddColumn ''onebox_tokens'' (optional_col ''credential_format_version'' (varchar 16)),
        AddColumn ''onebox_tokens'' (optional_col ''google_email_normalized'' (SqlString None)),
        AddColumn ''onebox_tokens'' (default_col ''connection_status'' (varchar 32) ''reconnect_required''),
        CreateIndex ''ix_onebox_tokens_google_email_normalized'' ''onebox_tokens'' [''google_email_normalized''],
        AddConstraint ''onebox_tokens'' connection_status_check,
        ExecuteSql, ExecuteSql,
        DropDefault ''onebox_tokens'' ''connection_status''],
     rv_downgrade =
       [DropConstraint ''ck_onebox_tokens_connection_status'' ''onebox_tokens'',
        DropIndex ''ix_onebox_tokens_google_email_normalized'' ''onebox_tokens'',
        DropColumn ''onebox_tokens'' ''connection_status'', DropColumn ''onebox_tokens'' ''google_email_normalized'',
        DropColumn ''onebox_tokens'' ''credential_format_version'', DropColumn ''onebox_tokens'' ''credential_key_id'',
        DropColumn ''onebox_tokens'' ''encrypted_token_payload'']\<rparr>"

definition ACTION_STATES :: "str list" where
  "ACTION_STATES = [''pending'', ''processing'', ''succeeded'', ''failed'', ''rejected'', ''expired'', ''reconciliation_required'']"

definition action_status_check :: table_constraint where
  "action_status_check = CheckThat ''ck_pending_actions_status'' (CondIn ''status'' ACTION_STATES)"

definition processing_attempt_check :: table_constraint where
  "processing_attempt_check = CheckThat ''ck_pending_actions_processing_attempt''
     (CondOr (CondNot (CondEq ''status'' ''processing'')) (CondAnd (CondNotNull ''attempt_token'') (CondNotNull ''lease_expires_at'')))"

definition audit_columns :: "sql_column list" where
  "audit_columns =
     [required_col ''id'' SqlUuid, required_col ''action_id'' SqlUuid, optional_col ''actor_user_id'' SqlUuid,
      required_col ''event_type'' (varchar 64), optional_col ''old_status'' (varchar 32), required_col ''new_status'' (varchar 32),
      optional_col ''attempt_token'' (varchar 128), optional_col ''reason'' (varchar 128), optional_col ''evidence'' SqlJson,
      default_col ''created_at'' SqlDateTime ''now()'']"

definition rev_b4c6d8e0f2a4 :: revision where
  "rev_b4c6d8e0f2a4 = \<lparr>rv_id = ''b4c6d8e0f2a4'', rv_down = Some ''8f8a10d8c4f1'',
     rv_upgrade =
       [AddColumn ''pending_actions'' (optional_col ''command_key'' (varchar 128)),
        AddColumn ''pending_actions'' (optional_col ''attempt_token'' (varchar 128)),
        AddColumn ''pending_actions'' (default_col ''attempt_count'' SqlInteger ''0''),
        AddColumn ''pending_actions'' (optional_col ''attempt_started_at'' SqlDateTime),
        AddColumn ''pending_actions'' (optional_col ''lease_expires_at'' SqlDateTime),
        AddColumn ''pending_actions'' (optional_col ''reconciliation_reason'' (varchar 128)),
        AddColumn ''pending_actions'' (optional_col ''reconciliation_evidence'' SqlJson),
        AddColumn ''pending_actions'' (optional_col ''reconciliation_required_at'' SqlDateTime),
        ExecuteSql, ExecuteSql,
        SetNullable ''pending_actions'' ''command_key'' False,
        DropDefault ''pending_actions'' ''attempt_count'',
        DropConstraint ''pending_actions_idempotency_key_key'' ''pending_actions'',
        AddConstraint ''pending_actions'' (UniqueOn ''uq_pending_actions_user_command_key'' [''user_id'', ''command_key'']),
        AddConstraint ''pending_actions'' action_status_check,
        AddConstraint ''pending_actions'' processing_attempt_check,
        CreateTable ''pending_action_audit_events'' audit_columns
          [ForeignKey [''action_id''] ''pending_actions'' [''id''] ''CASCADE'', PrimaryKey [''id'']],
        CreateIndex ''ix_pending_action_audit_events_action_created'' ''pending_action_audit_events'' [''action_id'', ''created_at'']],
     rv_downgrade =
       [DropIndex ''ix_pending_action_audit_events_action_created'' ''pending_action_audit_events'',
        DropTable ''pending_action_audit_events'',
        DropConstraint ''ck_pending_actions_processing_attempt'' ''pending_actions'',
        DropConstraint ''ck_pending_actions_status'' ''pending_actions'',
        DropConstraint ''uq_pending_actions_user_command_key'' ''pending_actions'',
        ExecuteSql,
        AddConstraint ''pending_actions'' (UniqueOn ''pending_actions_idempotency_key_key'' [''idempotency_key'']),
        DropColumn ''pending_actions'' ''reconciliation_required_at'', DropColumn ''pending_actions'' ''reconciliation_evidence'',
        DropColumn ''pending_actions'' ''reconciliation_reason'', DropColumn ''pending_actions'' ''lease_expires_at'',
        DropColumn ''pending_actions'' ''attempt_started_at'', DropColumn ''pending_actions'' ''attempt_count'',
        DropColumn ''pending_actions'' ''attempt_token'', DropColumn ''pending_actions'' ''command_key'']\<rparr>"

definition watch_lease_check :: table_constraint where
  "watch_lease_check = CheckThat ''ck_gmail_mailbox_states_watch_lease''
     (CondOr (CondNull ''watch_lease_expires_at'') (CondNotNull ''watch_lease_token''))"

definition job_state_check :: table_constraint where
  "job_state_check = CheckThat ''ck_gmail_notification_jobs_state''
     (CondIn ''state'' [''pending'', ''processing'', ''succeeded'', ''dead_letter''])"

definition triage_state_check :: table_constraint where
  "triage_state_check = CheckThat ''ck_gmail_triage_work_state''
     (CondIn ''state'' [''processing'', ''succeeded'', ''noop'', ''dead_letter''])"

definition stamps :: "sql_column list" where
  "stamps = [default_col ''created_at'' SqlDateTime ''now()'', default_col ''updated_at'' SqlDateTime ''now()'']"

definition rev_d7e9f1a3b5c7 :: revision where
  "rev_d7e9f1a3b5c7 = \<lparr>rv_id = ''d7e9f1a3b5c7'', rv_down = Some ''b4c6d8e0f2a4'',
     rv_upgrade =
       [CreateTable ''gmail_mailbox_states''
          [required_col ''mailbox_email'' (varchar 320), required_col ''user_id'' SqlUuid, optional_col ''history_cursor'' SqlBigInteger,
           optional_col ''watch_history_id'' SqlBigInteger, optional_col ''watch_expires_at'' SqlDateTime,
           optional_col ''watch_lease_token'' (varchar 128), optional_col ''watch_lease_expires_at'' SqlDateTime,
           default_col ''resync_required'' SqlBoolean ''false'', optional_col ''resync_page_token'' (varchar 512),
           default_col ''resync_message_count'' SqlInteger ''0'', optional_col ''last_error_code'' (varchar 128),
           default_col ''updated_at'' SqlDateTime ''now()'']
          [watch_lease_check, PrimaryKey [''mailbox_email''], unnamed_unique ''gmail_mailbox_states'' ''user_id''],
        CreateTable ''gmail_notification_jobs''
          ([required_col ''id'' SqlUuid, required_col ''pubsub_message_id'' (varchar 255), required_col ''mailbox_email'' (varchar 320),
            required_col ''history_id'' SqlBigInteger, required_col ''state'' (varchar 32), default_col ''attempt_count'' SqlInteger ''0'',
            optional_col ''lease_token'' (varchar 128), optional_col ''lease_expires_at'' SqlDateTime,
            optional_col ''last_error_code'' (varchar 128), default_col ''received_at'' SqlDateTime ''now()'',
            optional_col ''processed_at'' SqlDateTime] @ stamps)
          [job_state_check, PrimaryKey [''id''], UniqueOn ''uq_gmail_notification_jobs_pubsub_message_id'' [''pubsub_message_id'']],
        CreateIndex ''ix_gmail_notification_jobs_state_received'' ''gmail_notification_jobs'' [''state'', ''received_at''],
        CreateIndex ''ix_gmail_notification_jobs_mailbox_history'' ''gmail_notification_jobs'' [''mailbox_email'', ''history_id''],
        CreateTable ''gmail_triage_work''
          ([required_col ''id'' SqlUuid, required_col ''mailbox_email'' (varchar 320), required_col ''message_id'' (varchar 256),
            required_col ''source_history_id'' SqlBigInteger, required_col ''state'' (varchar 32),
            default_col ''attempt_count'' SqlInteger ''0'', optional_col ''lease_token'' (varchar 128),
            optional_col ''lease_expires_at'' SqlDateTime, optional_col ''triage_summary'' SqlText,
            optional_col ''last_error_code'' (varchar 128), optional_col ''processed_at'' SqlDateTime] @ stamps)
          [triage_state_check, PrimaryKey [''id''], UniqueOn ''uq_gmail_triage_work_mailbox_message'' [''mailbox_email'', ''message_id'']],
        CreateIndex ''ix_gmail_triage_work_state'' ''gmail_triage_work'' [''state'']],
     rv_downgrade =
       [DropIndex ''ix_gmail_triage_work_state'' ''gmail_triage_work'', DropTable ''gmail_triage_work'',
        DropIndex ''ix_gmail_notification_jobs_mailbox_history'' ''gmail_notification_jobs'',
        DropIndex ''ix_gmail_notification_jobs_state_received'' ''gmail_notification_jobs'',
        DropTable ''gmail_notification_jobs'', DropTable ''gmail_mailbox_states'']\<rparr>"

definition resync_state_check :: table_constraint where
  "resync_state_check = CheckThat ''ck_gmail_mailbox_states_resync_state''
     (CondIn ''resync_state'' [''idle'', ''required'', ''processing'', ''manual_required''])"

definition resync_lease_check :: table_constraint where
  "resync_lease_check = CheckThat ''ck_gmail_mailbox_states_resync_lease''
     (CondSame (CondEq ''resync_state'' ''processing'') (CondAnd (CondNotNull ''resync_lease_token'') (CondNotNull ''resync_lease_expires_at'')))"

definition resync_counts_check :: table_constraint where
  "resync_counts_check = CheckThat ''ck_gmail_mailbox_states_resync_counts''
     (CondAnd (CondAnd (CondNonNegative ''resync_generation'') (CondNonNegative ''resync_attempt_count''))
        (CondNonNegative ''resync_message_count''))"

definition rev_e84c0a9b6d21 :: revision where
  "rev_e84c0a9b6d21 = \<lparr>rv_id = ''e84c0a9b6d21'', rv_down = Some ''d7e9f1a3b5c7'',
     rv_upgrade =
       [AddColumn ''gmail_notification_jobs'' (optional_col ''next_attempt_at'' SqlDateTime),
        AddColumn ''gmail_triage_work'' (optional_col ''next_attempt_at'' SqlDateTime),
        CreateIndex ''ix_gmail_notification_jobs_state_next_attempt_received'' ''gmail_notification_jobs''
          [''state'', ''next_attempt_at'', ''received_at''],
        CreateIndex ''ix_gmail_triage_work_state_next_attempt'' ''gmail_triage_work'' [''state'', ''next_attempt_at''],
        ExecuteSql, ExecuteSql,
        AddColumn ''gmail_mailbox_states'' (default_col ''resync_state'' (varchar 32) ''idle''),
        AddColumn ''gmail_mailbox_states'' (default_col ''resync_generation'' SqlBigInteger ''0''),
        AddColumn ''gmail_mailbox_states'' (optional_col ''resync_lease_token'' (varchar 128)),
        AddColumn ''gmail_mailbox_states'' (optional_col ''resync_lease_expires_at'' SqlDateTime),
        AddColumn ''gmail_mailbox_states'' (default_col ''resync_attempt_count'' SqlInteger ''0''),
        AddColumn ''gmail_mailbox_states'' (optional_col ''resync_next_attempt_at'' SqlDateTime),
        AddColumn ''gmail_mailbox_states'' (optional_col ''worker_heartbeat_at'' SqlDateTime),
        AddColumn ''gmail_mailbox_states'' (optional_col ''watch_last_error_code'' (varchar 128)),
        ExecuteSql,
        AddConstraint ''gmail_mailbox_states'' resync_state_check,
        AddConstraint ''gmail_mailbox_states'' resync_lease_check,
        AddConstraint ''gmail_mailbox_states'' resync_counts_check],
     rv_downgrade =
       [DropConstraint ''ck_gmail_mailbox_states_resync_counts'' ''gmail_mailbox_states'',
        DropConstraint ''ck_gmail_mailbox_states_resync_lease'' ''gmail_mailbox_states'',
        DropConstraint ''ck_gmail_mailbox_states_resync_state'' ''gmail_mailbox_states'',
        DropColumn ''gmail_mailbox_states'' ''watch_last_error_code'', DropColumn ''gmail_mailbox_states'' ''worker_heartbeat_at'',
        DropColumn ''gmail_mailbox_states'' ''resync_next_attempt_at'', DropColumn ''gmail_mailbox_states'' ''resync_attempt_count'',
        DropColumn ''gmail_mailbox_states'' ''resync_lease_expires_at'', DropColumn ''gmail_mailbox_states'' ''resync_lease_token'',
        DropColumn ''gmail_mailbox_states'' ''resync_generation'', DropColumn ''gmail_mailbox_states'' ''resync_state'',
        DropIndex ''ix_gmail_triage_work_state_next_attempt'' ''gmail_triage_work'',
        DropIndex ''ix_gmail_notification_jobs_state_next_attempt_received'' ''gmail_notification_jobs'',
        DropColumn ''gmail_triage_work'' ''next_attempt_at'', DropColumn ''gmail_notification_jobs'' ''next_attempt_at'']\<rparr>"

definition renewal_count_check :: table_constraint where
  "renewal_count_check = CheckThat ''ck_gmail_mailbox_states_watch_renewal_attempt_count''
     (CondNonNegative ''watch_renewal_attempt_count'')"

definition rev_f5a3c9d8e271 :: revision where
  "rev_f5a3c9d8e271 = \<lparr>rv_id = ''f5a3c9d8e271'', rv_down = Some ''e84c0a9b6d21'',
     rv_upgrade =
       [AddColumn ''gmail_mailbox_states'' (default_col ''watch_renewal_attempt_count'' SqlInteger ''0''),
        AddColumn ''gmail_mailbox_states'' (optional_col ''watch_renewal_next_attempt_at'' SqlDateTime),
        AddConstraint ''gmail_mailbox_states'' renewal_count_check],
     rv_downgrade =
       [DropConstraint ''ck_gmail_mailbox_states_watch_renewal_attempt_count'' ''gmail_mailbox_states'',
        DropColumn ''gmail_mailbox_states'' ''watch_renewal_next_attempt_at'',
        DropColumn ''gmail_mailbox_states'' ''watch_renewal_attempt_count'']\<rparr>"

definition revisions :: "revision list" where
  "revisions = [rev_34b44198417b, rev_20025ef7fbcc, rev_620d1f8b1e34, rev_8f8a10d8c4f1, rev_b4c6d8e0f2a4, rev_d7e9f1a3b5c7,
     rev_e84c0a9b6d21, rev_f5a3c9d8e271]"

section \<open>Declared tables\<close>

text \<open>
  A \<open>default\<close> of a declared column is applied by SQLAlchemy when a row is inserted and is no part of the
  schema; a \<open>server_default\<close> is.
\<close>

definition AgentToken_table :: sql_table where
  "AgentToken_table =
     \<lparr>st_columns = [required_col ''user_id'' SqlUuid, optional_col ''user_email'' (SqlString None), optional_col ''token_json'' SqlJson,
        optional_col ''encrypted_token_payload'' SqlText, optional_col ''credential_key_id'' (varchar 128),
        optional_col ''credential_format_version'' (varchar 16), optional_col ''google_email_normalized'' (SqlString None),
        required_col ''connection_status'' (varchar 32), (optional_col ''created_at'' SqlDateTime)\<lparr>sc_default := Some ''now()''\<rparr>, (optional_col ''updated_at'' SqlDateTime)\<lparr>sc_default := Some ''now()''\<rparr>],
      st_constraints = [PrimaryKey [''user_id'']],
      st_indexes = [(''ix_onebox_tokens_google_email_normalized'', [''google_email_normalized''])]\<rparr>"

definition PendingAction_table :: sql_table where
  "PendingAction_table =
     \<lparr>st_columns = [required_col ''id'' SqlUuid, required_col ''user_id'' SqlUuid, required_col ''action_type'' (varchar 64),
        required_col ''payload'' SqlJson, required_col ''payload_hash'' (varchar 64), required_col ''idempotency_key'' (varchar 64),
        required_col ''command_key'' (varchar 128), required_col ''summary'' SqlText, required_col ''status'' (varchar 32),
        optional_col ''result'' SqlJson, optional_col ''error_code'' (varchar 64), optional_col ''attempt_token'' (varchar 128),
        required_col ''attempt_count'' SqlInteger, optional_col ''attempt_started_at'' SqlDateTime,
        optional_col ''lease_expires_at'' SqlDateTime, optional_col ''reconciliation_reason'' (varchar 128),
        optional_col ''reconciliation_evidence'' SqlJson, optional_col ''reconciliation_required_at'' SqlDateTime,
        default_col ''created_at'' SqlDateTime ''now()'', required_col ''expires_at'' SqlDateTime, optional_col ''approved_at'' SqlDateTime,
        optional_col ''processed_at'' SqlDateTime],
      st_constraints = [PrimaryKey [''id''], UniqueOn ''uq_pending_actions_user_command_key'' [''user_id'', ''command_key''],
        action_status_check, processing_attempt_check],
      st_indexes = [(''ix_pending_actions_user_status'', [''user_id'', ''status'']), (''ix_pending_actions_user_id'', [''user_id''])]\<rparr>"

definition PendingActionAuditEvent_table :: sql_table where
  "PendingActionAuditEvent_table =
     \<lparr>st_columns = [required_col ''id'' SqlUuid, required_col ''action_id'' SqlUuid, optional_col ''actor_user_id'' SqlUuid,
        required_col ''event_type'' (varchar 64), optional_col ''old_status'' (varchar 32), required_col ''new_status'' (varchar 32),
        optional_col ''attempt_token'' (varchar 128), optional_col ''reason'' (varchar 128), optional_col ''evidence'' SqlJson,
        default_col ''created_at'' SqlDateTime ''now()''],
      st_constraints = [PrimaryKey [''id''], ForeignKey [''action_id''] ''pending_actions'' [''id''] ''CASCADE''],
      st_indexes = [(''ix_pending_action_audit_events_action_created'', [''action_id'', ''created_at''])]\<rparr>"

definition GmailNotificationJob_table :: sql_table where
  "GmailNotificationJob_table =
     \<lparr>st_columns = [required_col ''id'' SqlUuid, required_col ''pubsub_message_id'' (varchar 255),
        required_col ''mailbox_email'' (varchar 320), required_col ''history_id'' SqlBigInteger, required_col ''state'' (varchar 32),
        required_col ''attempt_count'' SqlInteger, optional_col ''lease_token'' (varchar 128), optional_col ''lease_expires_at'' SqlDateTime,
        optional_col ''next_attempt_at'' SqlDateTime, optional_col ''last_error_code'' (varchar 128),
        default_col ''received_at'' SqlDateTime ''now()'', optional_col ''processed_at'' SqlDateTime, default_col ''created_at'' SqlDateTime ''now()'',
        default_col ''updated_at'' SqlDateTime ''now()''],
      st_constraints = [PrimaryKey [''id''], UniqueOn ''uq_gmail_notification_jobs_pubsub_message_id'' [''pubsub_message_id''], job_state_check],
      st_indexes = [(''ix_gmail_notification_jobs_state_received'', [''state'', ''received_at'']),
        (''ix_gmail_notification_jobs_mailbox_history'', [''mailbox_email'', ''history_id'']),
        (''ix_gmail_notification_jobs_state_next_attempt_received'', [''state'', ''next_attempt_at'', ''received_at''])]\<rparr>"

definition GmailMailboxState_table :: sql_table where
  "GmailMailboxState_table =
     \<lparr>st_columns = [required_col ''mailbox_email'' (varchar 320), required_col ''user_id'' SqlUuid, optional_col ''history_cursor'' SqlBigInteger,
        optional_col ''watch_history_id'' SqlBigInteger, optional_col ''watch_expires_at'' SqlDateTime,
        optional_col ''watch_lease_token'' (varchar 128), optional_col ''watch_lease_expires_at'' SqlDateTime,
        required_col ''watch_renewal_attempt_count'' SqlInteger, optional_col ''watch_renewal_next_attempt_at'' SqlDateTime,
        required_col ''resync_required'' SqlBoolean, required_col ''resync_state'' (varchar 32), required_col ''resync_generation'' SqlBigInteger,
        optional_col ''resync_lease_token'' (varchar 128), optional_col ''resync_lease_expires_at'' SqlDateTime,
        required_col ''resync_attempt_count'' SqlInteger, optional_col ''resync_next_attempt_at'' SqlDateTime,
        optional_col ''resync_page_token'' (varchar 512), required_col ''resync_message_count'' SqlInteger,
        optional_col ''worker_heartbeat_at'' SqlDateTime, optional_col ''watch_last_error_code'' (varchar 128),
        optional_col ''last_error_code'' (varchar 128), default_col ''updated_at'' SqlDateTime ''now()''],
      st_constraints = [PrimaryKey [''mailbox_email''], unnamed_unique ''gmail_mailbox_states'' ''user_id'', watch_lease_check,
        resync_state_check, resync_lease_check, resync_counts_check, renewal_count_check],
      st_indexes = []\<rparr>"

definition GmailTriageWork_table :: sql_table where
  "GmailTriageWork_table =
     \<lparr>st_columns = [required_col ''id'' SqlUuid, required_col ''mailbox_email'' (varchar 320), required_col ''message_id'' (varchar 256),
        required_col ''source_history_id'' SqlBigInteger, required_col ''state'' (varchar 32), required_col ''attempt_count'' SqlInteger,
        optional_col ''lease_token'' (varchar 128), optional_col ''lease_expires_at'' SqlDateTime, optional_col ''next_attempt_at'' SqlDateTime,
        optional_col ''triage_summary'' SqlText, optional_col ''last_error_code'' (varchar 128), optional_col ''processed_at'' SqlDateTime,
        default_col ''created_at'' SqlDateTime ''now()'', default_col ''updated_at'' SqlDateTime ''now()''],
      st_constraints = [PrimaryKey [''id''], UniqueOn ''uq_gmail_triage_work_mailbox_message'' [''mailbox_email'', ''message_id''],
        triage_state_check],
      st_indexes = [(''ix_gmail_triage_work_state'', [''state'']), (''ix_gmail_triage_work_state_next_attempt'', [''state'', ''next_attempt_at''])]\<rparr>"

definition declared_schema :: schema where
  "declared_schema =
     [(''onebox_tokens'', AgentToken_table), (''pending_actions'', PendingAction_table),
      (''pending_action_audit_events'', PendingActionAuditEvent_table), (''gmail_notification_jobs'', GmailNotificationJob_table),
      (''gmail_mailbox_states'', GmailMailboxState_table), (''gmail_triage_work'', GmailTriageWork_table)]"

section \<open>Running migrations\<close>

record database =
  db_version :: "str option"
  db_schema :: schema

definition empty_database :: database where
  "empty_database = \<lparr>db_version = None, db_schema = []\<rparr>"

text \<open>One revision up or down; \<open>None\<close> when there is none or a statement is refused.\<close>

definition upgrade_one :: "database \<Rightarrow> database option" where
  "upgrade_one d =
     (case find (\<lambda>r. rv_down r = db_version d) revisions of
        None \<Rightarrow> None
      | Some r \<Rightarrow> map_option (\<lambda>s. \<lparr>db_version = Some (rv_id r), db_schema = s\<rparr>) (run_statements (rv_upgrade r) (db_schema d)))"

definition downgrade_one :: "database \<Rightarrow> database option" where
  "downgrade_one d =
     (case find (\<lambda>r. Some (rv_id r) = db_version d) revisions of
        None \<Rightarrow> None
      | Some r \<Rightarrow> map_option (\<lambda>s. \<lparr>db_version = rv_down r, db_schema = s\<rparr>) (run_statements (rv_downgrade r) (db_schema d)))"

text \<open>A run of several revisions is one transaction: it happens as a whole or not at all.\<close>

fun run_steps :: "(database \<Rightarrow> database option) list \<Rightarrow> database \<Rightarrow> database option" where
  "run_steps [] d = Some d"
| "run_steps (f # fs) d = Option.bind (f d) (run_steps fs)"

definition run_migrations_online :: "bool \<Rightarrow> nat \<Rightarrow> database \<Rightarrow> database" where
  "run_migrations_online up n d =
     (case run_steps (replicate n (if up then upgrade_one else downgrade_one)) d of None \<Rightarrow> d | Some d' \<Rightarrow> d')"

inductive migrated :: "database \<Rightarrow> database \<Rightarrow> bool" where
  migrates: "migrated d (run_migrations_online up n d)"

text \<open>\<open>get_current_head\<close>: the revision on which no other builds.\<close>

definition revision_heads :: "str list" where
  "revision_heads = map rv_id (filter (\<lambda>r. Some (rv_id r) \<notin> set (map rv_down revisions)) revisions)"

definition migration_head :: "str option" where
  "migration_head = (case revision_heads of [h] \<Rightarrow> Some h | _ \<Rightarrow> None)"

lemma head_revision: "migration_head = Some ''f5a3c9d8e271''"
  by code_simp

end
