(* ===== verification/Schema_History.thy ===== *)
theory Schema_History
  imports Migrations
begin

text \<open>
  The schema of every database that migrations produce: the effect of each revision on the tables, the
  invariant of all sequences of upgrades and downgrades, and the comparison with the declared tables.
\<close>

section \<open>The schemas between the revisions\<close>

definition extend_table :: "sql_column list \<Rightarrow> table_constraint list \<Rightarrow> (str \<times> str list) list \<Rightarrow> sql_table \<Rightarrow> sql_table" where
  "extend_table cols cons idx t = \<lparr>st_columns = st_columns t @ cols, st_constraints = st_constraints t @ cons,
     st_indexes = st_indexes t @ idx\<rparr>"

definition tokens_1 :: "bool \<Rightarrow> sql_table" where
  "tokens_1 nullable =
     \<lparr>st_columns = [required_col ''user_id'' SqlUuid, (required_col ''token_json'' SqlJson)\<lparr>sc_nullable := nullable\<rparr>,
        (optional_col ''created_at'' SqlDateTime)\<lparr>sc_default := Some ''now()''\<rparr>,
        (optional_col ''updated_at'' SqlDateTime)\<lparr>sc_default := Some ''now()''\<rparr>],
      st_constraints = [PrimaryKey [''user_id'']], st_indexes = []\<rparr>"

definition tokens_2 :: "bool \<Rightarrow> sql_table" where
  "tokens_2 nullable = extend_table [optional_col ''user_email'' (SqlString None)] [] [] (tokens_1 nullable)"

definition tokens_4 :: sql_table where
  "tokens_4 = extend_table
     [optional_col ''encrypted_token_payload'' SqlText, optional_col ''credential_key_id'' (varchar 128),
      optional_col ''credential_format_version'' (varchar 16), optional_col ''google_email_normalized'' (SqlString None),
      required_col ''connection_status'' (varchar 32)]
     [connection_status_check] [(''ix_onebox_tokens_google_email_normalized'', [''google_email_normalized''])] (tokens_2 True)"

definition action_columns_3 :: "sql_column list" where
  "action_columns_3 =
     [required_col ''id'' SqlUuid, required_col ''user_id'' SqlUuid, required_col ''action_type'' (varchar 64),
      required_col ''payload'' SqlJson, required_col ''payload_hash'' (varchar 64), required_col ''idempotency_key'' (varchar 64),
      required_col ''summary'' SqlText, required_col ''status'' (varchar 32), optional_col ''result'' SqlJson,
      optional_col ''error_code'' (varchar 64), default_col ''created_at'' SqlDateTime ''now()'', required_col ''expires_at'' SqlDateTime,
      optional_col ''approved_at'' SqlDateTime, optional_col ''processed_at'' SqlDateTime]"

definition actions_3 :: sql_table where
  "actions_3 = \<lparr>st_columns = action_columns_3,
     st_constraints = [PrimaryKey [''id''], UniqueOn ''pending_actions_idempotency_key_key'' [''idempotency_key'']],
     st_indexes = [(''ix_pending_actions_user_id'', [''user_id'']), (''ix_pending_actions_user_status'', [''user_id'', ''status''])]\<rparr>"

definition actions_5 :: sql_table where
  "actions_5 = \<lparr>st_columns = action_columns_3 @
       [required_col ''command_key'' (varchar 128), optional_col ''attempt_token'' (varchar 128), required_col ''attempt_count'' SqlInteger,
        optional_col ''attempt_started_at'' SqlDateTime, optional_col ''lease_expires_at'' SqlDateTime,
        optional_col ''reconciliation_reason'' (varchar 128), optional_col ''reconciliation_evidence'' SqlJson,
        optional_col ''reconciliation_required_at'' SqlDateTime],
     st_constraints = [PrimaryKey [''id''], UniqueOn ''uq_pending_actions_user_command_key'' [''user_id'', ''command_key''],
        action_status_check, processing_attempt_check],
     st_indexes = st_indexes actions_3\<rparr>"

definition audits_5 :: sql_table where
  "audits_5 = \<lparr>st_columns = audit_columns, st_constraints = [ForeignKey [''action_id''] ''pending_actions'' [''id''] ''CASCADE'', PrimaryKey [''id'']],
     st_indexes = [(''ix_pending_action_audit_events_action_created'', [''action_id'', ''created_at''])]\<rparr>"

definition mailboxes_6 :: sql_table where
  "mailboxes_6 = \<lparr>st_columns =
       [required_col ''mailbox_email'' (varchar 320), required_col ''user_id'' SqlUuid, optional_col ''history_cursor'' SqlBigInteger,
        optional_col ''watch_history_id'' SqlBigInteger, optional_col ''watch_expires_at'' SqlDateTime,
        optional_col ''watch_lease_token'' (varchar 128), optional_col ''watch_lease_expires_at'' SqlDateTime,
        default_col ''resync_required'' SqlBoolean ''false'', optional_col ''resync_page_token'' (varchar 512),
        default_col ''resync_message_count'' SqlInteger ''0'', optional_col ''last_error_code'' (varchar 128),
        default_col ''updated_at'' SqlDateTime ''now()''],
     st_constraints = [watch_lease_check, PrimaryKey [''mailbox_email''], UniqueOn ''gmail_mailbox_states_user_id_key'' [''user_id'']],
     st_indexes = []\<rparr>"

definition mailboxes_7 :: sql_table where
  "mailboxes_7 = extend_table
     [default_col ''resync_state'' (varchar 32) ''idle'', default_col ''resync_generation'' SqlBigInteger ''0'',
      optional_col ''resync_lease_token'' (varchar 128), optional_col ''resync_lease_expires_at'' SqlDateTime,
      default_col ''resync_attempt_count'' SqlInteger ''0'', optional_col ''resync_next_attempt_at'' SqlDateTime,
      optional_col ''worker_heartbeat_at'' SqlDateTime, optional_col ''watch_last_error_code'' (varchar 128)]
     [resync_state_check, resync_lease_check, resync_counts_check] [] mailboxes_6"

definition mailboxes_8 :: sql_table where
  "mailboxes_8 = extend_table
     [default_col ''watch_renewal_attempt_count'' SqlInteger ''0'', optional_col ''watch_renewal_next_attempt_at'' SqlDateTime]
     [renewal_count_check] [] mailboxes_7"

definition jobs_6 :: sql_table where
  "jobs_6 = \<lparr>st_columns =
       [required_col ''id'' SqlUuid, required_col ''pubsub_message_id'' (varchar 255), required_col ''mailbox_email'' (varchar 320),
        required_col ''history_id'' SqlBigInteger, required_col ''state'' (varchar 32), default_col ''attempt_count'' SqlInteger ''0'',
        optional_col ''lease_token'' (varchar 128), optional_col ''lease_expires_at'' SqlDateTime,
        optional_col ''last_error_code'' (varchar 128), default_col ''received_at'' SqlDateTime ''now()'',
        optional_col ''processed_at'' SqlDateTime] @ stamps,
     st_constraints = [job_state_check, PrimaryKey [''id''], UniqueOn ''uq_gmail_notification_jobs_pubsub_message_id'' [''pubsub_message_id'']],
     st_indexes = [(''ix_gmail_notification_jobs_state_received'', [''state'', ''received_at'']),
        (''ix_gmail_notification_jobs_mailbox_history'', [''mailbox_email'', ''history_id''])]\<rparr>"

definition jobs_7 :: sql_table where
  "jobs_7 = extend_table [optional_col ''next_attempt_at'' SqlDateTime] []
     [(''ix_gmail_notification_jobs_state_next_attempt_received'', [''state'', ''next_attempt_at'', ''received_at''])] jobs_6"

definition triage_6 :: sql_table where
  "triage_6 = \<lparr>st_columns =
       [required_col ''id'' SqlUuid, required_col ''mailbox_email'' (varchar 320), required_col ''message_id'' (varchar 256),
        required_col ''source_history_id'' SqlBigInteger, required_col ''state'' (varchar 32),
        default_col ''attempt_count'' SqlInteger ''0'', optional_col ''lease_token'' (varchar 128),
        optional_col ''lease_expires_at'' SqlDateTime, optional_col ''triage_summary'' SqlText,
        optional_col ''last_error_code'' (varchar 128), optional_col ''processed_at'' SqlDateTime] @ stamps,
     st_constraints = [triage_state_check, PrimaryKey [''id''],
        UniqueOn ''uq_gmail_triage_work_mailbox_message'' [''mailbox_email'', ''message_id'']],
     st_indexes = [(''ix_gmail_triage_work_state'', [''state''])]\<rparr>"

definition triage_7 :: sql_table where
  "triage_7 = extend_table [optional_col ''next_attempt_at'' SqlDateTime] []
     [(''ix_gmail_triage_work_state_next_attempt'', [''state'', ''next_attempt_at''])] triage_6"

text \<open>
  The schema at a version. The downgrade of revision \<open>8f8a10d8c4f1\<close> removes only the added columns and
  leaves \<open>token_json\<close> nullable, so that the earlier schemas occur in two forms.
\<close>

definition schema_at :: "bool \<Rightarrow> nat \<Rightarrow> schema" where
  "schema_at nullable n =
     (if n = 0 then []
      else [(''onebox_tokens'', if n = 1 then tokens_1 nullable else if n < 4 then tokens_2 nullable else tokens_4)] @
        (if n < 3 then [] else [(''pending_actions'', if n < 5 then actions_3 else actions_5)]) @
        (if n < 5 then [] else [(''pending_action_audit_events'', audits_5)]) @
        (if n < 6 then []
         else [(''gmail_mailbox_states'', if n = 6 then mailboxes_6 else if n = 7 then mailboxes_7 else mailboxes_8),
               (''gmail_notification_jobs'', if n = 6 then jobs_6 else jobs_7),
               (''gmail_triage_work'', if n = 6 then triage_6 else triage_7)]))"

lemma column_fields [simp]:
  "sc_name (required_col n ty) = n" "sc_name (optional_col n ty) = n" "sc_name (default_col n ty v) = n"
  "sc_nullable (required_col n ty) = False" "sc_nullable (optional_col n ty) = True" "sc_nullable (default_col n ty v) = False"
  "sc_default (optional_col n ty) = None" "sc_default (default_col n ty v) = Some v"
  "(required_col n ty)\<lparr>sc_nullable := True\<rparr> = optional_col n ty" "(optional_col n ty)\<lparr>sc_nullable := False\<rparr> = required_col n ty"
  "(required_col n ty)\<lparr>sc_nullable := False\<rparr> = required_col n ty" "(optional_col n ty)\<lparr>sc_nullable := True\<rparr> = optional_col n ty"
  "(default_col n ty v)\<lparr>sc_default := None\<rparr> = required_col n ty"
  "sc_name (c\<lparr>sc_default := d\<rparr>) = sc_name c" "sc_name (c\<lparr>sc_nullable := b\<rparr>) = sc_name c"
  "c\<lparr>sc_nullable := b, sc_nullable := b'\<rparr> = c\<lparr>sc_nullable := b'\<rparr>"
  by (simp_all add: required_col_def optional_col_def default_col_def)

lemma check_fields [simp]:
  "constraint_columns connection_status_check = [''connection_status'']"
  "constraint_columns action_status_check = [''status'']"
  "constraint_columns processing_attempt_check = [''status'', ''attempt_token'', ''lease_expires_at'']"
  "constraint_columns watch_lease_check = [''watch_lease_expires_at'', ''watch_lease_token'']"
  "constraint_columns job_state_check = [''state'']" "constraint_columns triage_state_check = [''state'']"
  "constraint_columns resync_state_check = [''resync_state'']"
  "constraint_columns resync_lease_check = [''resync_state'', ''resync_lease_token'', ''resync_lease_expires_at'']"
  "constraint_columns resync_counts_check = [''resync_generation'', ''resync_attempt_count'', ''resync_message_count'']"
  "constraint_columns renewal_count_check = [''watch_renewal_attempt_count'']"
  "constraint_name connection_status_check = Some ''ck_onebox_tokens_connection_status''"
  "constraint_name action_status_check = Some ''ck_pending_actions_status''"
  "constraint_name processing_attempt_check = Some ''ck_pending_actions_processing_attempt''"
  "constraint_name watch_lease_check = Some ''ck_gmail_mailbox_states_watch_lease''"
  "constraint_name job_state_check = Some ''ck_gmail_notification_jobs_state''"
  "constraint_name triage_state_check = Some ''ck_gmail_triage_work_state''"
  "constraint_name resync_state_check = Some ''ck_gmail_mailbox_states_resync_state''"
  "constraint_name resync_lease_check = Some ''ck_gmail_mailbox_states_resync_lease''"
  "constraint_name resync_counts_check = Some ''ck_gmail_mailbox_states_resync_counts''"
  "constraint_name renewal_count_check = Some ''ck_gmail_mailbox_states_watch_renewal_attempt_count''"
  by (simp_all add: connection_status_check_def action_status_check_def processing_attempt_check_def watch_lease_check_def
    job_state_check_def triage_state_check_def resync_state_check_def resync_lease_check_def resync_counts_check_def
    renewal_count_check_def)

lemmas statement_simps = on_table_def covers_def alter_column_def column_names_def extend_table_def unnamed_unique_def

lemma run_Cons: "run_statements (x # xs) s = (case run_statement x s of None \<Rightarrow> None | Some s' \<Rightarrow> run_statements xs s')"
  by (cases "run_statement x s") auto

lemmas run_simps = run_statements.simps(1) run_Cons run_statement.simps statement_simps column_fields check_fields
  map_of.simps fun_upd_apply fst_conv snd_conv prod.case prod.inject list.map filter.simps append.simps list.pred_inject
  list.set insert_iff empty_iff distinct.simps option.case option.inject option.distinct if_True if_False Let_def
  simp_thms not_False_eq_True list.inject list.distinct char.inject sql_table.simps sql_column.simps o_def id_apply
  revision.simps constraint_columns.simps constraint_name.simps cond_columns.simps

lemma rev_1:
  "run_statements (rv_upgrade rev_34b44198417b) [] = Some [(''onebox_tokens'', tokens_1 False)]"
  "run_statements (rv_downgrade rev_34b44198417b) [(''onebox_tokens'', t)] = Some []"
  by (simp_all only: run_simps rev_34b44198417b_def tokens_1_def cong: if_weak_cong option.case_cong_weak)

lemma rev_2:
  "run_statements (rv_upgrade rev_20025ef7fbcc) [(''onebox_tokens'', tokens_1 b)] = Some [(''onebox_tokens'', tokens_2 b)]"
  "run_statements (rv_downgrade rev_20025ef7fbcc) [(''onebox_tokens'', tokens_2 b)] = Some [(''onebox_tokens'', tokens_1 b)]"
  by (simp_all only: run_simps rev_20025ef7fbcc_def tokens_1_def tokens_2_def cong: if_weak_cong option.case_cong_weak)

lemma rev_3:
  "run_statements (rv_upgrade rev_620d1f8b1e34) [(''onebox_tokens'', t)] = Some [(''onebox_tokens'', t), (''pending_actions'', actions_3)]"
  "run_statements (rv_downgrade rev_620d1f8b1e34) [(''onebox_tokens'', t), (''pending_actions'', actions_3)] = Some [(''onebox_tokens'', t)]"
  by (simp_all only: run_simps rev_620d1f8b1e34_def actions_3_def action_columns_3_def cong: if_weak_cong option.case_cong_weak)

lemma rev_4:
  "run_statements (rv_upgrade rev_8f8a10d8c4f1) [(''onebox_tokens'', tokens_2 b), (''pending_actions'', a)] =
     Some [(''onebox_tokens'', tokens_4), (''pending_actions'', a)]"
  "run_statements (rv_downgrade rev_8f8a10d8c4f1) [(''onebox_tokens'', tokens_4), (''pending_actions'', a)] =
     Some [(''onebox_tokens'', tokens_2 True), (''pending_actions'', a)]"
  by (simp_all only: run_simps rev_8f8a10d8c4f1_def tokens_1_def tokens_2_def tokens_4_def cong: if_weak_cong option.case_cong_weak)

lemma rev_5:
  "run_statements (rv_upgrade rev_b4c6d8e0f2a4) [(''onebox_tokens'', t), (''pending_actions'', actions_3)] =
     Some [(''onebox_tokens'', t), (''pending_actions'', actions_5), (''pending_action_audit_events'', audits_5)]"
  "run_statements (rv_downgrade rev_b4c6d8e0f2a4)
       [(''onebox_tokens'', t), (''pending_actions'', actions_5), (''pending_action_audit_events'', audits_5)] =
     Some [(''onebox_tokens'', t), (''pending_actions'', actions_3)]"
  by (simp_all only: run_simps rev_b4c6d8e0f2a4_def actions_3_def actions_5_def action_columns_3_def audits_5_def audit_columns_def
    cong: if_weak_cong option.case_cong_weak)

lemma rev_6:
  "run_statements (rv_upgrade rev_d7e9f1a3b5c7) [(''onebox_tokens'', t), (''pending_actions'', a), (''pending_action_audit_events'', e)] =
     Some [(''onebox_tokens'', t), (''pending_actions'', a), (''pending_action_audit_events'', e), (''gmail_mailbox_states'', mailboxes_6),
       (''gmail_notification_jobs'', jobs_6), (''gmail_triage_work'', triage_6)]"
  "run_statements (rv_downgrade rev_d7e9f1a3b5c7)
       [(''onebox_tokens'', t), (''pending_actions'', a), (''pending_action_audit_events'', e), (''gmail_mailbox_states'', mailboxes_6),
        (''gmail_notification_jobs'', jobs_6), (''gmail_triage_work'', triage_6)] =
     Some [(''onebox_tokens'', t), (''pending_actions'', a), (''pending_action_audit_events'', e)]"
  by (simp_all only: run_simps rev_d7e9f1a3b5c7_def mailboxes_6_def jobs_6_def triage_6_def stamps_def cong: if_weak_cong option.case_cong_weak)

abbreviation mail_schema :: "sql_table \<Rightarrow> sql_table \<Rightarrow> sql_table \<Rightarrow> sql_table \<Rightarrow> sql_table \<Rightarrow> sql_table \<Rightarrow> schema" where
  "mail_schema t a e m j w \<equiv> [(''onebox_tokens'', t), (''pending_actions'', a), (''pending_action_audit_events'', e),
     (''gmail_mailbox_states'', m), (''gmail_notification_jobs'', j), (''gmail_triage_work'', w)]"

lemma rev_7:
  "run_statements (rv_upgrade rev_e84c0a9b6d21) (mail_schema t a e mailboxes_6 jobs_6 triage_6) =
     Some (mail_schema t a e mailboxes_7 jobs_7 triage_7)"
  "run_statements (rv_downgrade rev_e84c0a9b6d21) (mail_schema t a e mailboxes_7 jobs_7 triage_7) =
     Some (mail_schema t a e mailboxes_6 jobs_6 triage_6)"
  by (simp_all only: run_simps rev_e84c0a9b6d21_def mailboxes_6_def mailboxes_7_def jobs_6_def jobs_7_def triage_6_def triage_7_def
    stamps_def cong: if_weak_cong option.case_cong_weak)

lemma rev_8:
  "run_statements (rv_upgrade rev_f5a3c9d8e271) (mail_schema t a e mailboxes_7 j w) = Some (mail_schema t a e mailboxes_8 j w)"
  "run_statements (rv_downgrade rev_f5a3c9d8e271) (mail_schema t a e mailboxes_8 j w) = Some (mail_schema t a e mailboxes_7 j w)"
  by (simp_all only: run_simps rev_f5a3c9d8e271_def mailboxes_6_def mailboxes_7_def mailboxes_8_def cong: if_weak_cong option.case_cong_weak)

lemmas revision_runs = rev_1 rev_2 rev_3 rev_4 rev_5 rev_6 rev_7 rev_8

section \<open>Every database that migrations produce\<close>

definition version_at :: "nat \<Rightarrow> str option" where
  "version_at n = (if n = 0 then None else Some (rv_id (revisions ! (n - 1))))"

definition at_stage :: "nat \<Rightarrow> database \<Rightarrow> bool" where
  "at_stage n d = (n \<le> 8 \<and> db_version d = version_at n \<and> (\<exists>nullable. db_schema d = schema_at nullable n))"

lemmas revision_ids = rev_34b44198417b_def rev_20025ef7fbcc_def rev_620d1f8b1e34_def rev_8f8a10d8c4f1_def
  rev_b4c6d8e0f2a4_def rev_d7e9f1a3b5c7_def rev_e84c0a9b6d21_def rev_f5a3c9d8e271_def

lemma rev_names [simp]:
  "rv_id rev_34b44198417b = ''34b44198417b''" "rv_down rev_34b44198417b = None"
  "rv_id rev_20025ef7fbcc = ''20025ef7fbcc''" "rv_down rev_20025ef7fbcc = Some ''34b44198417b''"
  "rv_id rev_620d1f8b1e34 = ''620d1f8b1e34''" "rv_down rev_620d1f8b1e34 = Some ''20025ef7fbcc''"
  "rv_id rev_8f8a10d8c4f1 = ''8f8a10d8c4f1''" "rv_down rev_8f8a10d8c4f1 = Some ''620d1f8b1e34''"
  "rv_id rev_b4c6d8e0f2a4 = ''b4c6d8e0f2a4''" "rv_down rev_b4c6d8e0f2a4 = Some ''8f8a10d8c4f1''"
  "rv_id rev_d7e9f1a3b5c7 = ''d7e9f1a3b5c7''" "rv_down rev_d7e9f1a3b5c7 = Some ''b4c6d8e0f2a4''"
  "rv_id rev_e84c0a9b6d21 = ''e84c0a9b6d21''" "rv_down rev_e84c0a9b6d21 = Some ''d7e9f1a3b5c7''"
  "rv_id rev_f5a3c9d8e271 = ''f5a3c9d8e271''" "rv_down rev_f5a3c9d8e271 = Some ''e84c0a9b6d21''"
  by (simp_all add: revision_ids)

lemma below_8: "(n :: nat) < 8 \<Longrightarrow> n = 0 \<or> n = 1 \<or> n = 2 \<or> n = 3 \<or> n = 4 \<or> n = 5 \<or> n = 6 \<or> n = 7"
  by linarith

lemma versions: "map version_at [0..<9] = [None, Some ''34b44198417b'', Some ''20025ef7fbcc'', Some ''620d1f8b1e34'',
  Some ''8f8a10d8c4f1'', Some ''b4c6d8e0f2a4'', Some ''d7e9f1a3b5c7'', Some ''e84c0a9b6d21'', Some ''f5a3c9d8e271'']"
  by (simp add: version_at_def revisions_def upt_rec)

lemma version_links:
  "map rv_down revisions = map version_at [0..<8]" "map (\<lambda>r. Some (rv_id r)) revisions = map version_at [1..<9]"
  by (simp_all add: version_at_def revisions_def upt_rec)

lemma versions_distinct: "distinct (map version_at [0..<9])"
  unfolding versions by simp


lemma length_revisions [simp]: "length revisions = 8"
  by (simp add: revisions_def)

lemma revision_links:
  assumes "n < 8"
  shows "rv_down (revisions ! n) = version_at n" and "Some (rv_id (revisions ! n)) = version_at (Suc n)"
proof -
  show "rv_down (revisions ! n) = version_at n"
    using version_links(1) assms nth_map [of n revisions rv_down] by simp
  show "Some (rv_id (revisions ! n)) = version_at (Suc n)"
    using version_links(2) assms nth_map [of n revisions "\<lambda>r. Some (rv_id r)"] by simp
qed

lemma version_at_inj: "m \<le> 8 \<Longrightarrow> n \<le> 8 \<Longrightarrow> version_at m = version_at n \<longleftrightarrow> m = n"
  using versions_distinct by (auto simp: distinct_map inj_on_def)

lemma find_at: "n < length xs \<Longrightarrow> P (xs ! n) \<Longrightarrow> (\<And>m. m < n \<Longrightarrow> \<not> P (xs ! m)) \<Longrightarrow> find P xs = Some (xs ! n)"
  by (auto simp: find_Some_iff)

lemma next_revision:
  assumes "n < 8"
  shows "find (\<lambda>r. rv_down r = version_at n) revisions = Some (revisions ! n)"
    and "find (\<lambda>r. Some (rv_id r) = version_at (Suc n)) revisions = Some (revisions ! n)"
  using assms by (auto intro!: find_at simp: revision_links version_at_inj)

lemma no_revision:
  "find (\<lambda>r. rv_down r = version_at 8) revisions = None" "find (\<lambda>r. Some (rv_id r) = version_at 0) revisions = None"
  by (auto simp: find_None_iff in_set_conv_nth revision_links version_at_inj)

lemma schema_upgrades:
  assumes "n < 8"
  shows "run_statements (rv_upgrade (revisions ! n)) (schema_at b n) = Some (schema_at (n \<noteq> 0 \<and> b) (Suc n))"
  using below_8 [OF assms] by (elim disjE) (simp_all add: revisions_def schema_at_def revision_runs)

lemma schema_downgrades:
  assumes "n < 8"
  shows "run_statements (rv_downgrade (revisions ! n)) (schema_at b (Suc n)) = Some (schema_at (n = 3 \<or> b) n)"
  using below_8 [OF assms] by (elim disjE) (simp_all add: revisions_def schema_at_def revision_runs)

lemma upgrade_stage:
  assumes "at_stage n d" and "n < 8"
  shows "\<exists>d'. upgrade_one d = Some d' \<and> at_stage (Suc n) d'"
proof -
  obtain b where "db_schema d = schema_at b n" "db_version d = version_at n" using assms(1) by (auto simp: at_stage_def)
  then show ?thesis
    using assms(2) by (auto simp: upgrade_one_def next_revision schema_upgrades at_stage_def revision_links)
qed

lemma downgrade_stage:
  assumes "at_stage (Suc n) d"
  shows "\<exists>d'. downgrade_one d = Some d' \<and> at_stage n d'"
proof -
  have n: "n < 8" using assms by (simp add: at_stage_def)
  obtain b where "db_schema d = schema_at b (Suc n)" "db_version d = version_at (Suc n)"
    using assms by (auto simp: at_stage_def)
  then show ?thesis
    using n by (auto simp: downgrade_one_def next_revision schema_downgrades at_stage_def revision_links)
qed

lemma stage_ends: "at_stage 8 d \<Longrightarrow> upgrade_one d = None" "at_stage 0 d \<Longrightarrow> downgrade_one d = None"
  by (auto simp: at_stage_def upgrade_one_def downgrade_one_def no_revision)

lemma upgrade_run: "at_stage n d \<Longrightarrow> n + k \<le> 8 \<Longrightarrow> \<exists>d'. run_steps (replicate k upgrade_one) d = Some d' \<and> at_stage (n + k) d'"
proof (induction k arbitrary: n d)
  case (Suc k)
  then obtain d1 where "upgrade_one d = Some d1" "at_stage (Suc n) d1" using upgrade_stage [of n d] by auto
  then show ?case using Suc.IH [of "Suc n" d1] Suc.prems by simp
qed simp

lemma downgrade_run: "at_stage (n + k) d \<Longrightarrow> \<exists>d'. run_steps (replicate k downgrade_one) d = Some d' \<and> at_stage n d'"
proof (induction k arbitrary: d)
  case (Suc k)
  then obtain d1 where "downgrade_one d = Some d1" "at_stage (n + k) d1" using downgrade_stage [of "n + k" d] by auto
  then show ?case using Suc.IH [of d1] by simp
qed simp

lemma run_steps_append: "run_steps (fs @ gs) d = Option.bind (run_steps fs d) (run_steps gs)"
  by (induction fs arbitrary: d) (auto split: bind_splits)

lemma too_many_upgrades:
  assumes "at_stage n d" and "8 < n + k"
  shows "run_steps (replicate k upgrade_one) d = None"
proof -
  have n: "n \<le> 8" using assms(1) by (simp add: at_stage_def)
  then obtain d' where "run_steps (replicate (8 - n) upgrade_one) d = Some d'" "at_stage 8 d'"
    using upgrade_run [OF assms(1), of "8 - n"] by auto
  moreover have "replicate k upgrade_one = replicate (8 - n) upgrade_one @ upgrade_one # replicate (n + k - 9) upgrade_one"
    using assms(2) n by (simp flip: replicate_Suc replicate_add)
  ultimately show ?thesis by (simp add: run_steps_append stage_ends)
qed

lemma too_many_downgrades:
  assumes "at_stage n d" and "n < k"
  shows "run_steps (replicate k downgrade_one) d = None"
proof -
  obtain d' where "run_steps (replicate n downgrade_one) d = Some d'" "at_stage 0 d'"
    using downgrade_run [of 0 n d] assms(1) by auto
  moreover have "replicate k downgrade_one = replicate n downgrade_one @ downgrade_one # replicate (k - n - 1) downgrade_one"
    using assms(2) by (simp flip: replicate_Suc replicate_add)
  ultimately show ?thesis by (simp add: run_steps_append stage_ends)
qed

lemma migration_stage:
  assumes "at_stage n d"
  shows "at_stage (if up then (if n + k \<le> 8 then n + k else n) else (if k \<le> n then n - k else n)) (run_migrations_online up k d)"
proof (cases up)
  case True
  then show ?thesis
    using assms upgrade_run [OF assms, of k] too_many_upgrades [OF assms, of k] by (auto simp: run_migrations_online_def)
next
  case False
  then show ?thesis
    using assms downgrade_run [of "n - k" k d] too_many_downgrades [OF assms, of k] by (auto simp: run_migrations_online_def)
qed

definition staged :: "database \<Rightarrow> bool" where
  "staged d = (\<exists>n. at_stage n d)"

lemma empty_stage: "at_stage 0 empty_database"
  by (simp add: at_stage_def empty_database_def version_at_def schema_at_def)

lemma migration_staged: "staged d \<Longrightarrow> migrated d d' \<Longrightarrow> staged d'"
  unfolding staged_def by (elim exE migrated.cases) (use migration_stage in blast)

interpretation mig: invariant_of "\<lambda>d. d = empty_database" migrated staged
proof unfold_locales
  show "staged d" if "d = empty_database" for d using that empty_stage by (auto simp: staged_def)
qed (rule migration_staged)

section \<open>The schema at the head\<close>

text \<open>
  What the migrations leave in the tables beyond the declarations of \<open>models.py\<close>: the check of the
  connection status, and the server defaults with which required columns were added to tables that may
  hold rows.
\<close>

definition set_defaults :: "(str \<times> str) list \<Rightarrow> sql_table \<Rightarrow> sql_table" where
  "set_defaults ds t = t\<lparr>st_columns := map (\<lambda>c. case map_of ds (sc_name c) of None \<Rightarrow> c | Some v \<Rightarrow> c\<lparr>sc_default := Some v\<rparr>) (st_columns t)\<rparr>"

definition MAILBOX_DEFAULTS :: "(str \<times> str) list" where
  "MAILBOX_DEFAULTS = [(''resync_required'', ''false''), (''resync_message_count'', ''0''), (''resync_state'', ''idle''),
     (''resync_generation'', ''0''), (''resync_attempt_count'', ''0''), (''watch_renewal_attempt_count'', ''0'')]"

definition migration_additions :: "str \<Rightarrow> sql_table \<Rightarrow> sql_table" where
  "migration_additions n t =
     (if n = ''onebox_tokens'' then t\<lparr>st_constraints := connection_status_check # st_constraints t\<rparr>
      else if n = ''gmail_notification_jobs'' then set_defaults [(''attempt_count'', ''0'')] t
      else if n = ''gmail_mailbox_states'' then set_defaults MAILBOX_DEFAULTS t
      else if n = ''gmail_triage_work'' then set_defaults [(''attempt_count'', ''0'')] t
      else t)"

definition declared_head :: schema where
  "declared_head = map (\<lambda>(n, t). (n, migration_additions n t)) declared_schema"

lemma head_tables:
  "same_table tokens_4 (AgentToken_table\<lparr>st_constraints := connection_status_check # st_constraints AgentToken_table\<rparr>)"
  "same_table actions_5 PendingAction_table" "same_table audits_5 PendingActionAuditEvent_table"
  "same_table mailboxes_8 (set_defaults MAILBOX_DEFAULTS GmailMailboxState_table)"
  "same_table jobs_7 (set_defaults [(''attempt_count'', ''0'')] GmailNotificationJob_table)"
  "same_table triage_7 (set_defaults [(''attempt_count'', ''0'')] GmailTriageWork_table)"
  by code_simp+

text \<open>Without these additions the tables would differ.\<close>

lemma additions_needed:
  "\<not> same_table tokens_4 AgentToken_table" "\<not> same_table mailboxes_8 GmailMailboxState_table"
  "\<not> same_table jobs_7 GmailNotificationJob_table" "\<not> same_table triage_7 GmailTriageWork_table"
  by code_simp+

lemma head_schema: "same_schema (schema_at b 8) declared_head"
  by (simp add: same_schema_def same_members_def schema_at_def declared_head_def declared_schema_def migration_additions_def head_tables)

lemma head_version: "version_at 8 = migration_head" "version_at 4 = Some ''8f8a10d8c4f1''"
  by (simp_all add: head_revision version_at_def revisions_def)

lemma head_is_stage: "db_version d = migration_head \<Longrightarrow> at_stage n d \<Longrightarrow> n = 8"
  using version_at_inj [of n 8] by (auto simp: head_version at_stage_def)

lemma reached_stage: "reach (\<lambda>d. d = empty_database) migrated d \<Longrightarrow> \<exists>n. at_stage n d"
  using mig.reach_inv by (simp add: staged_def)

lemma head_stage: "at_stage 8 d \<Longrightarrow> db_version d = migration_head \<and> same_schema (db_schema d) declared_head"
  using head_schema by (auto simp: at_stage_def head_version)

lemma reach_upgraded: "reach (\<lambda>d. d = empty_database) migrated (run_migrations_online True k empty_database)"
  by (rule reach_step [where s = empty_database]) (simp_all add: reach_init migrates)

lemma upgraded_stage: "k \<le> 8 \<Longrightarrow> at_stage k (run_migrations_online True k empty_database)"
  using migration_stage [OF empty_stage, of True k] by simp

text \<open>
  C14. A database that the readiness check accepts has the declared tables: whatever upgrades and
  downgrades were run since the database was created, if its recorded version is the head of the
  revisions, then its tables are those of \<open>models.py\<close>, with the same columns, types, nullability,
  server defaults, keys, checks, references and indexes, up to exactly these additions of the
  migrations: the check of the connection status on \<open>onebox_tokens\<close>, and server defaults of the
  attempt counts of jobs and triage work and of six columns of \<open>gmail_mailbox_states\<close>
  (\<open>MAILBOX_DEFAULTS\<close>), for which \<open>models.py\<close> declares none.
\<close>

theorem ready_schema_is_current:
  assumes "reach (\<lambda>d. d = empty_database) migrated d" and "database_schema_ready migration_head (Some (db_version d))"
  shows "same_schema (db_schema d) declared_head"
proof -
  obtain n where n: "at_stage n d" using reached_stage [OF assms(1)] by blast
  have "db_version d = migration_head" using assms(2) by (auto simp: database_schema_ready_def split: option.splits)
  then show ?thesis using head_is_stage [OF _ n] head_stage n by blast
qed

theorem ready_schema_is_current_witness:
  "database_schema_ready migration_head (Some (db_version (run_migrations_online True 8 empty_database))) \<and>
   same_schema (db_schema (run_migrations_online True 8 empty_database)) declared_head"
proof -
  have "database_schema_ready migration_head (Some (db_version (run_migrations_online True 8 empty_database)))"
    using head_stage upgraded_stage [of 8] by (simp add: database_schema_ready_def head_revision)
  then show ?thesis using ready_schema_is_current [OF reach_upgraded] by blast
qed

text \<open>
  Migrations do not get stuck: from every database that upgrades and downgrades produce, some number
  of further upgrades, eight at most, leads to the head, and the readiness check then accepts it.
\<close>

lemma upgrade_reaches_head:
  assumes "reach (\<lambda>d. d = empty_database) migrated d"
  shows "\<exists>k\<le>8. database_schema_ready migration_head (Some (db_version (run_migrations_online True k d)))"
proof -
  obtain n where n: "at_stage n d" "n \<le> 8" using reached_stage [OF assms(1)] by (auto simp: at_stage_def)
  then have "at_stage 8 (run_migrations_online True (8 - n) d)" using migration_stage [OF n(1), of True "8 - n"] by simp
  then show ?thesis
    using head_stage by (intro exI [of _ "8 - n"]) (simp add: database_schema_ready_def head_revision)
qed

text \<open>
  Downgrading undoes upgrading: after one upgrade of a database that migrations produced, the
  downgrade succeeds and gives back version and tables, except that after the downgrade from revision
  \<open>8f8a10d8c4f1\<close> the column \<open>token_json\<close> accepts \<open>NULL\<close>.
\<close>

lemma downgrade_undoes_upgrade:
  assumes "reach (\<lambda>d. d = empty_database) migrated d" and "upgrade_one d = Some d1"
  shows "\<exists>d2. downgrade_one d1 = Some d2 \<and> db_version d2 = db_version d \<and>
    (if db_version d1 = Some ''8f8a10d8c4f1''
     then run_statement (SetNullable ''onebox_tokens'' ''token_json'' True) (db_schema d) = Some (db_schema d2)
     else db_schema d2 = db_schema d)"
proof -
  obtain n b where n: "at_stage n d" "n \<le> 8" "db_schema d = schema_at b n" "db_version d = version_at n"
    using reached_stage [OF assms(1)] by (auto simp: at_stage_def)
  then have lt: "n < 8" using stage_ends(1) assms(2) by (cases "n = 8") auto
  then have d1: "db_version d1 = version_at (Suc n)" "db_schema d1 = schema_at (n \<noteq> 0 \<and> b) (Suc n)"
    using assms(2) n by (auto simp: upgrade_one_def next_revision schema_upgrades revision_links)
  let ?d2 = "\<lparr>db_version = version_at n, db_schema = schema_at (n = 3 \<or> n \<noteq> 0 \<and> b) n\<rparr>"
  have "downgrade_one d1 = Some ?d2" using lt d1 by (simp add: downgrade_one_def next_revision schema_downgrades revision_links)
  moreover have "db_version d1 = Some ''8f8a10d8c4f1'' \<longleftrightarrow> n = 3"
    using version_at_inj [of "Suc n" 4] lt d1(1) by (simp add: head_version)
  moreover have "schema_at (n \<noteq> 0 \<and> b) n = schema_at b n" by (simp add: schema_at_def)
  moreover have "run_statement (SetNullable ''onebox_tokens'' ''token_json'' True) (schema_at b 3) = Some (schema_at True 3)"
    by (simp add: schema_at_def statement_simps tokens_1_def tokens_2_def)
  ultimately show ?thesis using n by (auto intro!: exI [of _ ?d2])
qed

theorem downgrade_undoes_upgrade_witness:
  "\<exists>d1 d2. upgrade_one (run_migrations_online True 3 empty_database) = Some d1 \<and> downgrade_one d1 = Some d2 \<and>
     db_version d2 = db_version (run_migrations_online True 3 empty_database)"
proof -
  obtain d1 where "upgrade_one (run_migrations_online True 3 empty_database) = Some d1"
    using upgrade_stage [OF upgraded_stage [of 3]] by auto
  then show ?thesis using downgrade_undoes_upgrade [OF reach_upgraded] by blast
qed

end
