(* ===== verification/Stored_Rows.thy ===== *)
theory Stored_Rows
  imports Schema_History Action_Safety Notification_Properties Agent_Tools Credential_Safety
begin

text \<open>
  The rows behind the services. The first part relates the records of the service theories to the rows of
  the tables at the head of the migrations and shows that no operation violates a constraint of the
  database. The second part is what the migrations do to existing rows.
\<close>

section \<open>Rows of the service records\<close>

abbreviation text_value :: "str option \<Rightarrow> sql_value option" where
  "text_value \<equiv> map_option ValText"

abbreviation time_value :: "time option \<Rightarrow> sql_value option" where
  "time_value \<equiv> map_option ValTime"

abbreviation int_value :: "int option \<Rightarrow> sql_value option" where
  "int_value \<equiv> map_option ValInt"

definition row_of :: "(str \<times> sql_value option) list \<Rightarrow> sql_row" where
  "row_of fs = (\<lambda>c. case map_of fs c of None \<Rightarrow> None | Some v \<Rightarrow> v)"

definition action_row :: "pending_action \<Rightarrow> sql_row" where
  "action_row a = row_of
     [(''id'', Some (ValId (pa_id a))), (''user_id'', Some (ValId (pa_user_id a))), (''action_type'', Some (ValText (pa_action_type a))),
      (''payload'', Some (ValJson (JObj (pa_payload a)))), (''payload_hash'', Some (ValText (pa_payload_hash a))),
      (''idempotency_key'', Some (ValText (pa_idempotency_key a))), (''command_key'', Some (ValText (pa_command_key a))),
      (''summary'', Some (ValText (pa_summary a))), (''status'', Some (ValText (status_text (pa_status a)))),
      (''result'', map_option (\<lambda>j. ValJson (JObj j)) (pa_result a)), (''error_code'', text_value (pa_error_code a)),
      (''attempt_token'', text_value (pa_attempt_token a)), (''attempt_count'', Some (ValInt (int (pa_attempt_count a)))),
      (''attempt_started_at'', time_value (pa_attempt_started_at a)), (''lease_expires_at'', time_value (pa_lease_expires_at a)),
      (''reconciliation_reason'', text_value (pa_reconciliation_reason a)),
      (''reconciliation_evidence'', map_option (\<lambda>j. ValJson (JObj j)) (pa_reconciliation_evidence a)),
      (''reconciliation_required_at'', time_value (pa_reconciliation_required_at a)),
      (''created_at'', Some (ValTime (pa_created_at a))), (''expires_at'', Some (ValTime (pa_expires_at a))),
      (''approved_at'', time_value (pa_approved_at a)), (''processed_at'', time_value (pa_processed_at a))]"

fun job_state_text :: "job_state \<Rightarrow> str" where
  "job_state_text JobPending = ''pending''"
| "job_state_text JobProcessing = ''processing''"
| "job_state_text JobSucceeded = ''succeeded''"
| "job_state_text JobDeadLetter = ''dead_letter''"

fun resync_state_text :: "resync_state \<Rightarrow> str" where
  "resync_state_text ResyncIdle = ''idle''"
| "resync_state_text ResyncRequired = ''required''"
| "resync_state_text ResyncProcessing = ''processing''"
| "resync_state_text ResyncManualRequired = ''manual_required''"

fun triage_state_text :: "triage_state \<Rightarrow> str" where
  "triage_state_text TriageProcessing = ''processing''"
| "triage_state_text TriageSucceeded = ''succeeded''"
| "triage_state_text TriageNoop = ''noop''"
| "triage_state_text TriageDeadLetter = ''dead_letter''"

text \<open>The times of creation and change that the model does not keep are \<open>stamp\<close>.\<close>

definition job_row :: "time \<Rightarrow> notification_job \<Rightarrow> sql_row" where
  "job_row stamp j = row_of
     [(''id'', Some (ValId (nj_id j))), (''pubsub_message_id'', Some (ValText (nj_pubsub_message_id j))),
      (''mailbox_email'', Some (ValText (nj_mailbox_email j))), (''history_id'', Some (ValInt (nj_history_id j))),
      (''state'', Some (ValText (job_state_text (nj_state j)))), (''attempt_count'', Some (ValInt (int (nj_attempt_count j)))),
      (''lease_token'', text_value (nj_lease_token j)), (''lease_expires_at'', time_value (nj_lease_expires_at j)),
      (''next_attempt_at'', time_value (nj_next_attempt_at j)), (''last_error_code'', text_value (nj_last_error_code j)),
      (''received_at'', Some (ValTime (nj_received_at j))), (''processed_at'', time_value (nj_processed_at j)),
      (''created_at'', Some (ValTime stamp)), (''updated_at'', Some (ValTime stamp))]"

definition mailbox_row :: "time \<Rightarrow> mailbox_state \<Rightarrow> sql_row" where
  "mailbox_row stamp m = row_of
     [(''mailbox_email'', Some (ValText (ms_mailbox_email m))), (''user_id'', Some (ValId (ms_user_id m))),
      (''history_cursor'', int_value (ms_history_cursor m)), (''watch_history_id'', int_value (ms_watch_history_id m)),
      (''watch_expires_at'', time_value (ms_watch_expires_at m)), (''watch_lease_token'', text_value (ms_watch_lease_token m)),
      (''watch_lease_expires_at'', time_value (ms_watch_lease_expires_at m)),
      (''watch_renewal_attempt_count'', Some (ValInt (int (ms_watch_renewal_attempt_count m)))),
      (''watch_renewal_next_attempt_at'', time_value (ms_watch_renewal_next_attempt_at m)),
      (''resync_required'', Some (ValBool (ms_resync_required m))),
      (''resync_state'', Some (ValText (resync_state_text (ms_resync_state m)))),
      (''resync_generation'', Some (ValInt (int (ms_resync_generation m)))),
      (''resync_lease_token'', text_value (ms_resync_lease_token m)),
      (''resync_lease_expires_at'', time_value (ms_resync_lease_expires_at m)),
      (''resync_attempt_count'', Some (ValInt (int (ms_resync_attempt_count m)))),
      (''resync_next_attempt_at'', time_value (ms_resync_next_attempt_at m)),
      (''resync_page_token'', text_value (ms_resync_page_token m)),
      (''resync_message_count'', Some (ValInt (int (ms_resync_message_count m)))),
      (''worker_heartbeat_at'', time_value (ms_worker_heartbeat_at m)),
      (''watch_last_error_code'', text_value (ms_watch_last_error_code m)),
      (''last_error_code'', text_value (ms_last_error_code m)), (''updated_at'', Some (ValTime stamp))]"

definition triage_work_row :: "time \<Rightarrow> triage_work \<Rightarrow> sql_row" where
  "triage_work_row stamp w = row_of
     [(''id'', Some (ValId (tw_id w))), (''mailbox_email'', Some (ValText (tw_mailbox_email w))),
      (''message_id'', Some (ValText (tw_message_id w))), (''source_history_id'', Some (ValInt (tw_source_history_id w))),
      (''state'', Some (ValText (triage_state_text (tw_state w)))), (''attempt_count'', Some (ValInt (int (tw_attempt_count w)))),
      (''lease_token'', text_value (tw_lease_token w)), (''lease_expires_at'', time_value (tw_lease_expires_at w)),
      (''next_attempt_at'', time_value (tw_next_attempt_at w)), (''triage_summary'', text_value (tw_triage_summary w)),
      (''last_error_code'', text_value (tw_last_error_code w)), (''processed_at'', time_value (tw_processed_at w)),
      (''created_at'', Some (ValTime (tw_created_at w))), (''updated_at'', Some (ValTime stamp))]"

section \<open>The constraints of the tables hold\<close>

lemma row_of_simps:
  "row_of [] c = None" "row_of ((n, v) # fs) c = (if c = n then v else row_of fs c)"
  by (simp_all add: row_of_def)

lemmas row_simps = row_of_simps list.inject list.distinct char.inject simp_thms if_True if_False

lemma action_row_fields:
  "action_row a ''id'' = Some (ValId (pa_id a))"
  "action_row a ''user_id'' = Some (ValId (pa_user_id a))"
  "action_row a ''action_type'' = Some (ValText (pa_action_type a))"
  "action_row a ''payload'' = Some (ValJson (JObj (pa_payload a)))"
  "action_row a ''payload_hash'' = Some (ValText (pa_payload_hash a))"
  "action_row a ''idempotency_key'' = Some (ValText (pa_idempotency_key a))"
  "action_row a ''command_key'' = Some (ValText (pa_command_key a))"
  "action_row a ''summary'' = Some (ValText (pa_summary a))"
  "action_row a ''status'' = Some (ValText (status_text (pa_status a)))"
  "action_row a ''result'' = map_option (\<lambda>j. ValJson (JObj j)) (pa_result a)"
  "action_row a ''error_code'' = text_value (pa_error_code a)"
  "action_row a ''attempt_token'' = text_value (pa_attempt_token a)"
  "action_row a ''attempt_count'' = Some (ValInt (int (pa_attempt_count a)))"
  "action_row a ''attempt_started_at'' = time_value (pa_attempt_started_at a)"
  "action_row a ''lease_expires_at'' = time_value (pa_lease_expires_at a)"
  "action_row a ''reconciliation_reason'' = text_value (pa_reconciliation_reason a)"
  "action_row a ''reconciliation_evidence'' = map_option (\<lambda>j. ValJson (JObj j)) (pa_reconciliation_evidence a)"
  "action_row a ''reconciliation_required_at'' = time_value (pa_reconciliation_required_at a)"
  "action_row a ''created_at'' = Some (ValTime (pa_created_at a))"
  "action_row a ''expires_at'' = Some (ValTime (pa_expires_at a))"
  "action_row a ''approved_at'' = time_value (pa_approved_at a)"
  "action_row a ''processed_at'' = time_value (pa_processed_at a)"
  by (simp_all only: action_row_def row_simps cong: if_weak_cong)

lemma job_row_fields:
  "job_row t j ''id'' = Some (ValId (nj_id j))"
  "job_row t j ''pubsub_message_id'' = Some (ValText (nj_pubsub_message_id j))"
  "job_row t j ''mailbox_email'' = Some (ValText (nj_mailbox_email j))"
  "job_row t j ''history_id'' = Some (ValInt (nj_history_id j))"
  "job_row t j ''state'' = Some (ValText (job_state_text (nj_state j)))"
  "job_row t j ''attempt_count'' = Some (ValInt (int (nj_attempt_count j)))"
  "job_row t j ''lease_token'' = text_value (nj_lease_token j)"
  "job_row t j ''lease_expires_at'' = time_value (nj_lease_expires_at j)"
  "job_row t j ''next_attempt_at'' = time_value (nj_next_attempt_at j)"
  "job_row t j ''last_error_code'' = text_value (nj_last_error_code j)"
  "job_row t j ''received_at'' = Some (ValTime (nj_received_at j))"
  "job_row t j ''processed_at'' = time_value (nj_processed_at j)"
  "job_row t j ''created_at'' = Some (ValTime t)"
  "job_row t j ''updated_at'' = Some (ValTime t)"
  by (simp_all only: job_row_def row_simps cong: if_weak_cong)

lemma mailbox_row_fields:
  "mailbox_row t m ''mailbox_email'' = Some (ValText (ms_mailbox_email m))"
  "mailbox_row t m ''user_id'' = Some (ValId (ms_user_id m))"
  "mailbox_row t m ''history_cursor'' = int_value (ms_history_cursor m)"
  "mailbox_row t m ''watch_history_id'' = int_value (ms_watch_history_id m)"
  "mailbox_row t m ''watch_expires_at'' = time_value (ms_watch_expires_at m)"
  "mailbox_row t m ''watch_lease_token'' = text_value (ms_watch_lease_token m)"
  "mailbox_row t m ''watch_lease_expires_at'' = time_value (ms_watch_lease_expires_at m)"
  "mailbox_row t m ''watch_renewal_attempt_count'' = Some (ValInt (int (ms_watch_renewal_attempt_count m)))"
  "mailbox_row t m ''watch_renewal_next_attempt_at'' = time_value (ms_watch_renewal_next_attempt_at m)"
  "mailbox_row t m ''resync_required'' = Some (ValBool (ms_resync_required m))"
  "mailbox_row t m ''resync_state'' = Some (ValText (resync_state_text (ms_resync_state m)))"
  "mailbox_row t m ''resync_generation'' = Some (ValInt (int (ms_resync_generation m)))"
  "mailbox_row t m ''resync_lease_token'' = text_value (ms_resync_lease_token m)"
  "mailbox_row t m ''resync_lease_expires_at'' = time_value (ms_resync_lease_expires_at m)"
  "mailbox_row t m ''resync_attempt_count'' = Some (ValInt (int (ms_resync_attempt_count m)))"
  "mailbox_row t m ''resync_next_attempt_at'' = time_value (ms_resync_next_attempt_at m)"
  "mailbox_row t m ''resync_page_token'' = text_value (ms_resync_page_token m)"
  "mailbox_row t m ''resync_message_count'' = Some (ValInt (int (ms_resync_message_count m)))"
  "mailbox_row t m ''worker_heartbeat_at'' = time_value (ms_worker_heartbeat_at m)"
  "mailbox_row t m ''watch_last_error_code'' = text_value (ms_watch_last_error_code m)"
  "mailbox_row t m ''last_error_code'' = text_value (ms_last_error_code m)"
  "mailbox_row t m ''updated_at'' = Some (ValTime t)"
  by (simp_all only: mailbox_row_def row_simps cong: if_weak_cong)

lemma triage_work_row_fields:
  "triage_work_row t w ''id'' = Some (ValId (tw_id w))"
  "triage_work_row t w ''mailbox_email'' = Some (ValText (tw_mailbox_email w))"
  "triage_work_row t w ''message_id'' = Some (ValText (tw_message_id w))"
  "triage_work_row t w ''source_history_id'' = Some (ValInt (tw_source_history_id w))"
  "triage_work_row t w ''state'' = Some (ValText (triage_state_text (tw_state w)))"
  "triage_work_row t w ''attempt_count'' = Some (ValInt (int (tw_attempt_count w)))"
  "triage_work_row t w ''lease_token'' = text_value (tw_lease_token w)"
  "triage_work_row t w ''lease_expires_at'' = time_value (tw_lease_expires_at w)"
  "triage_work_row t w ''next_attempt_at'' = time_value (tw_next_attempt_at w)"
  "triage_work_row t w ''triage_summary'' = text_value (tw_triage_summary w)"
  "triage_work_row t w ''last_error_code'' = text_value (tw_last_error_code w)"
  "triage_work_row t w ''processed_at'' = time_value (tw_processed_at w)"
  "triage_work_row t w ''created_at'' = Some (ValTime (tw_created_at w))"
  "triage_work_row t w ''updated_at'' = Some (ValTime t)"
  by (simp_all only: triage_work_row_def row_simps cong: if_weak_cong)

text \<open>How keys and checks of a table are shown for the rows of a list of records.\<close>

lemma distinct_keys:
  assumes "keys_distinct key xs" and "\<And>x y. map (g x) cs = map (g y) cs \<Longrightarrow> key x = key y"
  shows "distinct (key_values cs (map g xs))"
  using assms by (intro distinct_key_values [where f = key]) (auto simp: keys_distinct_def)

lemma unique_holds:
  "keys_distinct key xs \<Longrightarrow> (\<And>x y. map (g x) cs = map (g y) cs \<Longrightarrow> key x = key y) \<Longrightarrow> constraint_holds (map g xs) (UniqueOn n cs)"
  using distinct_keys [of key xs g cs] by simp

lemma primary_holds:
  "keys_distinct key xs \<Longrightarrow> (\<And>x y. map (g x) cs = map (g y) cs \<Longrightarrow> key x = key y) \<Longrightarrow> (\<And>x. None \<notin> set (map (g x) cs)) \<Longrightarrow>
   constraint_holds (map g xs) (PrimaryKey cs)"
  using distinct_keys [of key xs g cs] by (simp add: list_all_iff)

lemma check_holds:
  "list_all P xs \<Longrightarrow> (\<And>x. P x \<Longrightarrow> eval_cond (g x) c \<noteq> Some False) \<Longrightarrow> constraint_holds (map g xs) (CheckThat n c)"
  by (auto simp: list_all_iff)

lemma rows_satisfyI:
  assumes "\<And>x. required_set tb (g x)" and "list_all (constraint_holds (map g xs)) (st_constraints tb)"
  shows "rows_satisfy tb (map g xs)"
  using assms by (auto simp: rows_satisfy_def list_all_iff)

lemmas column_kinds = required_col_def optional_col_def default_col_def varchar_def

lemma action_row_fits: "required_set PendingAction_table (action_row a)"
  by (simp add: PendingAction_table_def required_set_def action_row_fields column_kinds)

lemma job_row_fits: "required_set GmailNotificationJob_table (job_row t j)"
  by (simp add: GmailNotificationJob_table_def required_set_def job_row_fields column_kinds)

lemma mailbox_row_fits: "required_set GmailMailboxState_table (mailbox_row t m)"
  by (simp add: GmailMailboxState_table_def required_set_def mailbox_row_fields column_kinds)

lemma triage_work_row_fits: "required_set GmailTriageWork_table (triage_work_row t w)"
  by (simp add: GmailTriageWork_table_def required_set_def triage_work_row_fields column_kinds)

lemma status_allowed: "status_text s \<in> set ACTION_STATES"
  by (cases s) (simp_all add: ACTION_STATES_def)

lemma actions_satisfy:
  assumes "action_inv db"
  shows "rows_satisfy PendingAction_table (map action_row (actions db))"
proof (rule rows_satisfyI [OF action_row_fits])
  have inv: "keys_distinct pa_id (actions db)" "keys_distinct command_id (actions db)" "list_all row_ok (actions db)"
    using assms by (simp_all add: action_inv_def)
  let ?rows = "map action_row (actions db)"
  have "constraint_holds ?rows (PrimaryKey [''id''])"
    by (rule primary_holds [OF inv(1)]) (simp_all add: action_row_fields)
  moreover have "constraint_holds ?rows (UniqueOn ''uq_pending_actions_user_command_key'' [''user_id'', ''command_key''])"
    by (rule unique_holds [OF inv(2)]) (simp add: action_row_fields command_id_def)
  moreover have "constraint_holds ?rows action_status_check"
    unfolding action_status_check_def by (rule check_holds [OF inv(3)]) (use status_allowed in \<open>auto simp: action_row_fields\<close>)
  moreover have "eval_cond (action_row a) (CondOr (CondNot (CondEq ''status'' ''processing''))
      (CondAnd (CondNotNull ''attempt_token'') (CondNotNull ''lease_expires_at''))) \<noteq> Some False" if "row_ok a" for a
    using that by (cases "pa_status a") (auto simp: action_row_fields row_ok_def sql_or_def)
  then have "constraint_holds ?rows processing_attempt_check"
    unfolding processing_attempt_check_def by (rule check_holds [OF inv(3)])
  ultimately show "list_all (constraint_holds ?rows) (st_constraints PendingAction_table)"
    by (simp add: PendingAction_table_def del: constraint_holds.simps)
qed

lemma jobs_satisfy:
  assumes "jobs_inv js"
  shows "rows_satisfy GmailNotificationJob_table (map (job_row t) js)"
proof (rule rows_satisfyI [OF job_row_fits])
  have inv: "keys_distinct nj_id js" "keys_distinct nj_pubsub_message_id js" "list_all job_ok js"
    using assms by (simp_all add: jobs_inv_def)
  let ?rows = "map (job_row t) js"
  have "constraint_holds ?rows (PrimaryKey [''id''])" by (rule primary_holds [OF inv(1)]) (simp_all add: job_row_fields)
  moreover have "constraint_holds ?rows (UniqueOn ''uq_gmail_notification_jobs_pubsub_message_id'' [''pubsub_message_id''])"
    by (rule unique_holds [OF inv(2)]) (simp add: job_row_fields)
  moreover have "eval_cond (job_row t j) (CondIn ''state'' [''pending'', ''processing'', ''succeeded'', ''dead_letter'']) \<noteq> Some False" for j
    by (cases "nj_state j") (simp_all add: job_row_fields)
  then have "constraint_holds ?rows job_state_check" unfolding job_state_check_def by (rule check_holds [OF inv(3)])
  ultimately show "list_all (constraint_holds ?rows) (st_constraints GmailNotificationJob_table)"
    by (simp add: GmailNotificationJob_table_def del: constraint_holds.simps)
qed

lemma mailbox_checks:
  assumes "mailbox_ok m"
  shows "eval_cond (mailbox_row t m) (CondOr (CondNull ''watch_lease_expires_at'') (CondNotNull ''watch_lease_token'')) \<noteq> Some False"
    and "eval_cond (mailbox_row t m) (CondIn ''resync_state'' [''idle'', ''required'', ''processing'', ''manual_required'']) \<noteq> Some False"
    and "eval_cond (mailbox_row t m) (CondSame (CondEq ''resync_state'' ''processing'')
           (CondAnd (CondNotNull ''resync_lease_token'') (CondNotNull ''resync_lease_expires_at''))) \<noteq> Some False"
    and "eval_cond (mailbox_row t m) (CondAnd (CondAnd (CondNonNegative ''resync_generation'') (CondNonNegative ''resync_attempt_count''))
           (CondNonNegative ''resync_message_count'')) \<noteq> Some False"
    and "eval_cond (mailbox_row t m) (CondNonNegative ''watch_renewal_attempt_count'') \<noteq> Some False"
  subgoal using assms by (cases "ms_watch_lease_expires_at m") (auto simp: mailbox_row_fields mailbox_ok_def sql_or_def)
  subgoal by (cases "ms_resync_state m") (simp_all add: mailbox_row_fields)
  subgoal using assms by (cases "ms_resync_state m") (auto simp: mailbox_row_fields mailbox_ok_def)
  by (simp_all add: mailbox_row_fields)

lemma mailboxes_satisfy:
  assumes "mailboxes_inv ms"
  shows "rows_satisfy GmailMailboxState_table (map (mailbox_row t) ms)"
proof (rule rows_satisfyI [OF mailbox_row_fits])
  have inv: "keys_distinct ms_mailbox_email ms" "keys_distinct ms_user_id ms" "list_all mailbox_ok ms"
    using assms by (simp_all add: mailboxes_inv_def)
  let ?rows = "map (mailbox_row t) ms"
  have "constraint_holds ?rows (PrimaryKey [''mailbox_email''])" by (rule primary_holds [OF inv(1)]) (simp_all add: mailbox_row_fields)
  moreover have "constraint_holds ?rows (unnamed_unique ''gmail_mailbox_states'' ''user_id'')"
    unfolding unnamed_unique_def by (rule unique_holds [OF inv(2)]) (simp add: mailbox_row_fields)
  moreover have "constraint_holds ?rows watch_lease_check" "constraint_holds ?rows resync_state_check"
      "constraint_holds ?rows resync_lease_check" "constraint_holds ?rows resync_counts_check" "constraint_holds ?rows renewal_count_check"
    unfolding watch_lease_check_def resync_state_check_def resync_lease_check_def resync_counts_check_def renewal_count_check_def
    using mailbox_checks by (auto intro!: check_holds [OF inv(3)] simp del: constraint_holds.simps eval_cond.simps)
  ultimately show "list_all (constraint_holds ?rows) (st_constraints GmailMailboxState_table)"
    by (simp add: GmailMailboxState_table_def del: constraint_holds.simps)
qed

lemma triage_satisfy:
  assumes "triage_inv ws"
  shows "rows_satisfy GmailTriageWork_table (map (triage_work_row t) ws)"
proof (rule rows_satisfyI [OF triage_work_row_fits])
  have inv: "keys_distinct tw_id ws" "keys_distinct triage_key ws" "list_all triage_ok ws"
    using assms by (simp_all add: triage_inv_def)
  let ?rows = "map (triage_work_row t) ws"
  have "constraint_holds ?rows (PrimaryKey [''id''])" by (rule primary_holds [OF inv(1)]) (simp_all add: triage_work_row_fields)
  moreover have "constraint_holds ?rows (UniqueOn ''uq_gmail_triage_work_mailbox_message'' [''mailbox_email'', ''message_id''])"
    by (rule unique_holds [OF inv(2)]) (simp add: triage_work_row_fields triage_key_def)
  moreover have "eval_cond (triage_work_row t w) (CondIn ''state'' [''processing'', ''succeeded'', ''noop'', ''dead_letter'']) \<noteq> Some False" for w
    by (cases "tw_state w") (simp_all add: triage_work_row_fields)
  then have "constraint_holds ?rows triage_state_check" unfolding triage_state_check_def by (rule check_holds [OF inv(3)])
  ultimately show "list_all (constraint_holds ?rows) (st_constraints GmailTriageWork_table)"
    by (simp add: GmailTriageWork_table_def del: constraint_holds.simps)
qed



end
