(* ===== verification/Row_Migrations.thy ===== *)
theory Row_Migrations
  imports Stored_Rows
begin

text \<open>
  What the migrations do to existing rows: the \<open>UPDATE\<close> statements of the revisions together with
  the columns that these add and drop. PostgreSQL refuses a migration that leaves a row in violation of
  a constraint, so a migration succeeds on given rows when these satisfy the new table.
\<close>

section \<open>Values\<close>

text \<open>\<open>id::text\<close>.\<close>

fun id_text :: "sql_value option \<Rightarrow> str option" where
  "id_text (Some (ValId i)) = Some (uuid_text i)"
| "id_text _ = None"

definition trim_spaces :: "str \<Rightarrow> str" where
  "trim_spaces t = rev (dropWhile (\<lambda>c. c = CHR '' '') (rev (dropWhile (\<lambda>c. c = CHR '' '') t)))"

text \<open>
  The two operators on \<open>jsonb\<close>: \<open>->>\<close> reads a key of an object as text, and \<open>?\<close> asks for a
  key of an object or a text of an array. Of repeated keys the last one counts.
\<close>

fun json_get_text :: "json \<Rightarrow> str \<Rightarrow> str option" where
  "json_get_text (JObj fs) k = (case map_of (rev fs) k of Some (JStr t) \<Rightarrow> Some t | _ \<Rightarrow> None)"
| "json_get_text _ k = None"

fun json_has :: "json \<Rightarrow> str \<Rightarrow> bool" where
  "json_has (JObj fs) k = (k \<in> set (map fst fs))"
| "json_has (JArr xs) k = (JStr k \<in> set xs)"
| "json_has (JStr t) k = (t = k)"
| "json_has _ k = False"

section \<open>Protected credentials\<close>

definition token_is_pending :: "sql_row \<Rightarrow> bool" where
  "token_is_pending r = (case r ''token_json'' of Some (ValJson j) \<Rightarrow> json_get_text j ''status'' = Some ''pending_oauth'' | _ \<Rightarrow> False)"

definition token_is_usable :: "sql_row \<Rightarrow> bool" where
  "token_is_usable r =
     ((case r ''token_json'' of Some (ValJson j) \<Rightarrow> json_has j ''refresh_token'' | _ \<Rightarrow> False) \<and>
      (case r ''user_email'' of Some (ValText t) \<Rightarrow> trim_spaces t \<noteq> [] | _ \<Rightarrow> False))"

definition upgrade_token_row :: "(str \<Rightarrow> str) \<Rightarrow> sql_row \<Rightarrow> sql_row" where
  "upgrade_token_row lowercase r =
     (let r1 = r(''encrypted_token_payload'' := None, ''credential_key_id'' := None, ''credential_format_version'' := None,
            ''google_email_normalized'' := None, ''connection_status'' := Some (ValText ''reconnect_required''));
          r2 = if token_is_pending r1 then r1(''connection_status'' := Some (ValText ''pending'')) else r1
      in if token_is_usable r2
         then r2(''connection_status'' := Some (ValText ''connected''),
           ''google_email_normalized'' := (case r2 ''user_email'' of Some (ValText t) \<Rightarrow> Some (ValText (lowercase (trim_spaces t))) | v \<Rightarrow> v))
         else r2)"

section \<open>Recoverable actions\<close>

definition with_command_key :: "sql_row \<Rightarrow> sql_row" where
  "with_command_key r = (if r ''command_key'' = None then r(''command_key'' := text_value (map_option ((@) ''legacy:'') (id_text (r ''id'')))) else r)"

definition LEGACY_PROCESSING :: str where
  "LEGACY_PROCESSING = ''legacy_processing_requires_reconciliation''"

definition reconcile_processing :: "time \<Rightarrow> sql_row \<Rightarrow> sql_row" where
  "reconcile_processing now r =
     (if r ''status'' = Some (ValText ''processing'')
      then r(''status'' := Some (ValText ''reconciliation_required''), ''error_code'' := Some (ValText LEGACY_PROCESSING),
        ''reconciliation_reason'' := Some (ValText LEGACY_PROCESSING), ''reconciliation_required_at'' := Some (ValTime now),
        ''processed_at'' := (case r ''processed_at'' of None \<Rightarrow> Some (ValTime now) | v \<Rightarrow> v))
      else r)"

definition upgrade_action_row :: "time \<Rightarrow> sql_row \<Rightarrow> sql_row" where
  "upgrade_action_row now r =
     reconcile_processing now (with_command_key
       (r(''command_key'' := None, ''attempt_token'' := None, ''attempt_count'' := Some (ValInt 0), ''attempt_started_at'' := None,
          ''lease_expires_at'' := None, ''reconciliation_reason'' := None, ''reconciliation_evidence'' := None,
          ''reconciliation_required_at'' := None)))"

definition downgrade_action_row :: "(str \<Rightarrow> str) \<Rightarrow> sql_row \<Rightarrow> sql_row" where
  "downgrade_action_row md5 r =
     (r(''idempotency_key'' := text_value (map_option md5 (id_text (r ''id'')))))
       (''reconciliation_required_at'' := None, ''reconciliation_evidence'' := None, ''reconciliation_reason'' := None,
        ''lease_expires_at'' := None, ''attempt_started_at'' := None, ''attempt_count'' := None, ''attempt_token'' := None,
        ''command_key'' := None)"

section \<open>Worker reliability\<close>

definition upgrade_job_row :: "time \<Rightarrow> sql_row \<Rightarrow> sql_row" where
  "upgrade_job_row now r =
     (let r1 = r(''next_attempt_at'' := None)
      in if r1 ''state'' = Some (ValText ''pending'') \<and> r1 ''next_attempt_at'' = None
         then r1(''next_attempt_at'' := Some (ValTime now)) else r1)"

definition upgrade_triage_row :: "time \<Rightarrow> sql_row \<Rightarrow> sql_row" where
  "upgrade_triage_row now r =
     (let r1 = r(''next_attempt_at'' := None)
      in if r1 ''state'' = Some (ValText ''processing'') \<and> r1 ''lease_token'' = None \<and> r1 ''next_attempt_at'' = None
         then r1(''next_attempt_at'' := Some (ValTime now)) else r1)"

definition upgrade_mailbox_row :: "sql_row \<Rightarrow> sql_row" where
  "upgrade_mailbox_row r =
     (let r1 = r(''resync_state'' := Some (ValText ''idle''), ''resync_generation'' := Some (ValInt 0), ''resync_lease_token'' := None,
            ''resync_lease_expires_at'' := None, ''resync_attempt_count'' := Some (ValInt 0), ''resync_next_attempt_at'' := None,
            ''worker_heartbeat_at'' := None, ''watch_last_error_code'' := None)
      in if r1 ''resync_required'' = Some (ValBool True) then r1(''resync_state'' := Some (ValText ''required'')) else r1)"

definition add_renewal_backoff :: "sql_row \<Rightarrow> sql_row" where
  "add_renewal_backoff r = r(''watch_renewal_attempt_count'' := Some (ValInt 0), ''watch_renewal_next_attempt_at'' := None)"

section \<open>Actions after the upgrade\<close>

abbreviation has_status :: "sql_row \<Rightarrow> str \<Rightarrow> bool" where
  "has_status r t \<equiv> r ''status'' = Some (ValText t)"

lemmas update_simps = fun_upd_apply list.inject list.distinct char.inject simp_thms if_True if_False if_cancel Let_def

lemma if_row: "(if b then r else r') c = (if b then r c else r' c)"
  by simp

lemma upgrade_action_fields:
  "upgrade_action_row now r ''id'' = r ''id''"
  "upgrade_action_row now r ''user_id'' = r ''user_id''"
  "upgrade_action_row now r ''action_type'' = r ''action_type''"
  "upgrade_action_row now r ''payload'' = r ''payload''"
  "upgrade_action_row now r ''payload_hash'' = r ''payload_hash''"
  "upgrade_action_row now r ''idempotency_key'' = r ''idempotency_key''"
  "upgrade_action_row now r ''summary'' = r ''summary''"
  "upgrade_action_row now r ''result'' = r ''result''"
  "upgrade_action_row now r ''created_at'' = r ''created_at''"
  "upgrade_action_row now r ''expires_at'' = r ''expires_at''"
  "upgrade_action_row now r ''approved_at'' = r ''approved_at''"
  "upgrade_action_row now r ''attempt_token'' = None"
  "upgrade_action_row now r ''attempt_started_at'' = None"
  "upgrade_action_row now r ''lease_expires_at'' = None"
  "upgrade_action_row now r ''reconciliation_evidence'' = None"
  "upgrade_action_row now r ''attempt_count'' = Some (ValInt 0)"
  "upgrade_action_row now r ''command_key'' = text_value (map_option ((@) ''legacy:'') (id_text (r ''id'')))"
  "upgrade_action_row now r ''status'' = (if has_status r ''processing'' then Some (ValText ''reconciliation_required'') else r ''status'')"
  "upgrade_action_row now r ''error_code'' = (if has_status r ''processing'' then Some (ValText LEGACY_PROCESSING) else r ''error_code'')"
  "upgrade_action_row now r ''reconciliation_reason'' = (if has_status r ''processing'' then Some (ValText LEGACY_PROCESSING) else None)"
  "upgrade_action_row now r ''reconciliation_required_at'' = (if has_status r ''processing'' then Some (ValTime now) else None)"
  by (simp_all only: upgrade_action_row_def reconcile_processing_def with_command_key_def if_row update_simps)

lemma upgrade_action_processed:
  "upgrade_action_row now r ''processed_at'' = (if has_status r ''processing'' \<and> r ''processed_at'' = None then Some (ValTime now) else r ''processed_at'')"
  by (simp only: upgrade_action_row_def reconcile_processing_def with_command_key_def if_row update_simps) (auto split: option.split)


definition id_in_range :: "sql_row \<Rightarrow> bool" where
  "id_in_range r = (case r ''id'' of Some (ValId i) \<Rightarrow> i < 2 ^ 128 | _ \<Rightarrow> False)"

lemma id_in_rangeE: "id_in_range r \<Longrightarrow> (\<And>i. r ''id'' = Some (ValId i) \<Longrightarrow> i < 2 ^ 128 \<Longrightarrow> P) \<Longrightarrow> P"
  by (auto simp: id_in_range_def split: option.splits sql_value.splits)

text \<open>Keys whose columns a migration does not change stay unique.\<close>

lemma key_values_kept:
  assumes "\<And>r c. c \<in> set cs \<Longrightarrow> f r c = r c"
  shows "key_values cs (map f rows) = key_values cs rows"
proof -
  have "map (\<lambda>r. map r cs) (map f rows) = map (\<lambda>r. map r cs) rows" by (simp add: assms)
  then show ?thesis unfolding key_values_def by (rule arg_cong)
qed

lemma primary_key_kept:
  assumes "\<And>r c. c \<in> set cs \<Longrightarrow> f r c = r c"
  shows "constraint_holds (map f rows) (PrimaryKey cs) = constraint_holds rows (PrimaryKey cs)"
proof -
  have "map (f r) cs = map r cs" for r using assms by simp
  then have "list_all (\<lambda>r. None \<notin> set (map r cs)) (map f rows) = list_all (\<lambda>r. None \<notin> set (map r cs)) rows"
    unfolding list.pred_map comp_def by presburger
  then show ?thesis using key_values_kept [of cs f rows] assms by simp
qed

lemma distinct_ids:
  assumes "constraint_holds rows (PrimaryKey [c])"
  shows "distinct (map (\<lambda>r. r c) rows)"
proof -
  have "key_values [c] rows = map (\<lambda>x. [x]) (map (\<lambda>r. r c) rows)"
    using assms by (auto simp: key_values_def list_all_iff comp_def intro!: filter_True)
  then have "distinct (map (\<lambda>x. [x]) (map (\<lambda>r. r c) rows))" using assms by simp
  then show ?thesis using distinct_map [of "\<lambda>x. [x]" "map (\<lambda>r. r c) rows"] by blast
qed

lemma legacy_keys_distinct:
  assumes "constraint_holds rows (PrimaryKey [''id''])" and "list_all id_in_range rows"
  shows "constraint_holds (map (upgrade_action_row now) rows) (UniqueOn n [''user_id'', ''command_key''])"
proof -
  have "r ''id'' = q ''id''"
    if "r \<in> set rows" "q \<in> set rows" "map (upgrade_action_row now r) [''user_id'', ''command_key''] = map (upgrade_action_row now q) [''user_id'', ''command_key'']"
    for r q
  proof -
    have "id_in_range r" "id_in_range q" using that(1,2) assms(2) by (auto simp: list_all_iff)
    then show ?thesis using that(3) uuid_text_inj by (auto simp: upgrade_action_fields elim!: id_in_rangeE)
  qed
  then show ?thesis using distinct_key_values [OF distinct_ids [OF assms(1)]] by simp
qed

lemma upgraded_action_fits:
  assumes "required_set actions_3 r" and "id_in_range r"
  shows "required_set actions_5 (upgrade_action_row now r)"
  using assms(1) by (rule_tac id_in_rangeE [OF assms(2)])
    (auto simp: required_set_def actions_3_def actions_5_def action_columns_3_def upgrade_action_fields upgrade_action_processed column_kinds)

lemma upgraded_action_checks:
  "eval_cond (upgrade_action_row now r) (CondOr (CondNot (CondEq ''status'' ''processing''))
      (CondAnd (CondNotNull ''attempt_token'') (CondNotNull ''lease_expires_at''))) \<noteq> Some False"
  by (cases "r ''status''") (simp_all add: upgrade_action_fields sql_or_def)

text \<open>The upgrade is refused exactly when a row has a status that the new check does not know.\<close>

definition known_status :: "sql_row \<Rightarrow> bool" where
  "known_status r = (r ''status'' \<in> set (map (\<lambda>t. Some (ValText t)) ACTION_STATES))"

lemma status_check_upgraded:
  assumes "r ''status'' \<noteq> None"
  shows "eval_cond (upgrade_action_row now r) (CondIn ''status'' ACTION_STATES) \<noteq> Some False \<longleftrightarrow> known_status r"
proof (cases "has_status r ''processing''")
  case True
  then show ?thesis by (simp add: known_status_def upgrade_action_fields ACTION_STATES_def)
next
  case False
  then show ?thesis using assms by (auto simp: known_status_def upgrade_action_fields)
qed

lemma legacy_status: "required_set actions_3 r \<Longrightarrow> r ''status'' \<noteq> None"
  by (cases "r ''status''") (simp_all add: required_set_def actions_3_def action_columns_3_def column_kinds)

lemma legacy_key: "rows_satisfy actions_3 rows \<Longrightarrow> list_all (required_set actions_3) rows \<and> constraint_holds rows (PrimaryKey [''id''])"
  by (simp add: rows_satisfy_def actions_3_def del: constraint_holds.simps)

lemma actions_upgrade_iff:
  assumes "rows_satisfy actions_3 rows" and "list_all id_in_range rows"
  shows "rows_satisfy actions_5 (map (upgrade_action_row now) rows) \<longleftrightarrow> list_all known_status rows"
proof -
  let ?rows = "map (upgrade_action_row now) rows"
  have fits: "list_all (required_set actions_3) rows" and pk: "constraint_holds rows (PrimaryKey [''id''])"
    using legacy_key [OF assms(1)] by blast+
  have st: "r ''status'' \<noteq> None" if "r \<in> set rows" for r
    using that fits legacy_status by (auto simp: list_all_iff)
  have "list_all (required_set actions_5) ?rows"
    using fits assms(2) upgraded_action_fits by (auto simp: list_all_iff)
  moreover have "constraint_holds ?rows (PrimaryKey [''id''])"
    using pk primary_key_kept [of "[''id'']" "upgrade_action_row now" rows] by (simp add: upgrade_action_fields del: constraint_holds.simps)
  moreover have "constraint_holds ?rows (UniqueOn ''uq_pending_actions_user_command_key'' [''user_id'', ''command_key''])"
    by (rule legacy_keys_distinct [OF pk assms(2)])
  moreover have "constraint_holds ?rows processing_attempt_check"
    using upgraded_action_checks by (simp add: processing_attempt_check_def list_all_iff del: eval_cond.simps)
  moreover have "constraint_holds ?rows action_status_check \<longleftrightarrow> list_all known_status rows"
    using st status_check_upgraded by (simp add: action_status_check_def list_all_iff del: eval_cond.simps)
  moreover have "st_constraints actions_5 = [PrimaryKey [''id''], UniqueOn ''uq_pending_actions_user_command_key'' [''user_id'', ''command_key''],
      action_status_check, processing_attempt_check]" by (simp add: actions_5_def)
  ultimately show ?thesis unfolding rows_satisfy_def by (simp only: list.pred_inject simp_thms)
qed


text \<open>The actions that the service reads from the rows of the table.\<close>

definition stores_row :: "pending_action \<Rightarrow> sql_row \<Rightarrow> bool" where
  "stores_row a row = list_all (\<lambda>c. action_row a (sc_name c) = row (sc_name c)) (st_columns PendingAction_table)"

definition stores_actions :: "action_db \<Rightarrow> sql_row list \<Rightarrow> bool" where
  "stores_actions db rows = list_all2 stores_row (actions db) rows"

lemma stores_row_fields:
  assumes "stores_row a row"
  shows "row ''id'' = Some (ValId (pa_id a))" and "row ''status'' = Some (ValText (status_text (pa_status a)))"
    and "row ''reconciliation_reason'' = text_value (pa_reconciliation_reason a)" and "row ''processed_at'' = time_value (pa_processed_at a)"
  using assms by (simp_all add: stores_row_def PendingAction_table_def action_row_fields column_kinds)

lemma status_text_inj: "status_text s = status_text t \<longleftrightarrow> s = t"
  by (cases s; cases t) simp_all

lemma stores_distinct:
  assumes "stores_actions db rows" and "distinct (map (\<lambda>r. r ''id'') rows)"
  shows "keys_distinct pa_id (actions db)"
proof -
  have "map (\<lambda>r. r ''id'') rows = map (\<lambda>a. Some (ValId (pa_id a))) (actions db)"
    using assms(1) unfolding stores_actions_def by (induction rule: list_all2_induct) (simp_all add: stores_row_fields)
  then show ?thesis using assms(2) by (simp add: keys_distinct_def distinct_map inj_on_def)
qed

lemma upgraded_processing:
  assumes "stores_row a (upgrade_action_row now r)" and "has_status r ''processing''"
  shows "pa_status a = RECONCILIATION_REQUIRED" and "pa_reconciliation_reason a = Some LEGACY_PROCESSING" and "pa_processed_at a \<noteq> None"
proof -
  have "status_text (pa_status a) = status_text RECONCILIATION_REQUIRED"
    using stores_row_fields(2) [OF assms(1)] assms(2) by (simp add: upgrade_action_fields)
  then show "pa_status a = RECONCILIATION_REQUIRED" by (simp only: status_text_inj)
  show "pa_reconciliation_reason a = Some LEGACY_PROCESSING" "pa_processed_at a \<noteq> None"
    using stores_row_fields(3,4) [OF assms(1)] assms(2)
    by (cases "pa_reconciliation_reason a"; cases "pa_processed_at a"; auto simp: upgrade_action_fields upgrade_action_processed split: if_splits)+
qed

text \<open>
  C17. Actions that were being processed when revision \<open>b4c6d8e0f2a4\<close> was installed are not replayed:
  on every table that satisfied the old constraints, the service then finds such an action as one that
  needs reconciliation, for the recorded reason and with a processing time, and no claim hands it out for
  dispatch.
\<close>

theorem historic_processing_not_replayed:
  assumes "rows_satisfy actions_3 rows" and "stores_actions db (map (upgrade_action_row now) rows)"
    and "r \<in> set rows" and "r ''id'' = Some (ValId i)" and "has_status r ''processing''"
  shows "(\<exists>a. find_action db i = Some a \<and> pa_status a = RECONCILIATION_REQUIRED \<and>
      pa_reconciliation_reason a = Some LEGACY_PROCESSING \<and> pa_processed_at a \<noteq> None) \<and>
    fst (claim_pending_action lib ck tok i u db) \<noteq> Inr (v, True)"
proof -
  have "distinct (map (\<lambda>r. r ''id'') (map (upgrade_action_row now) rows))"
    using distinct_ids legacy_key [OF assms(1)] by (simp add: upgrade_action_fields comp_def)
  then have keys: "keys_distinct pa_id (actions db)" by (rule stores_distinct [OF assms(2)])
  obtain k where "k < length rows" "r = rows ! k" using assms(3) by (auto simp: in_set_conv_nth)
  then have "actions db ! k \<in> set (actions db)" "stores_row (actions db ! k) (upgrade_action_row now r)"
    using assms(2) by (auto simp: stores_actions_def list_all2_conv_all_nth)
  then obtain a where a: "a \<in> set (actions db)" "stores_row a (upgrade_action_row now r)" by blast
  have "pa_id a = i" using stores_row_fields(1) [OF a(2)] assms(4) by (simp add: upgrade_action_fields)
  then have find: "find_action db i = Some a" using tbl_get_unique [OF keys a(1)] by (simp add: find_action_def)
  then show ?thesis
    using upgraded_processing [OF a(2) assms(5)] claim_not_pending [of db i lib ck tok u v] by auto
qed

definition legacy_action :: pending_action where
  "legacy_action = \<lparr>pa_id = 7, pa_user_id = 3, pa_action_type = ''create_task'', pa_payload = [], pa_payload_hash = ''h'',
     pa_idempotency_key = ''k'', pa_command_key = ''legacy:'' @ uuid_text 7, pa_summary = ''task'', pa_status = RECONCILIATION_REQUIRED,
     pa_result = None, pa_error_code = Some LEGACY_PROCESSING, pa_attempt_token = None, pa_attempt_count = 0,
     pa_attempt_started_at = None, pa_lease_expires_at = None, pa_reconciliation_reason = Some LEGACY_PROCESSING,
     pa_reconciliation_evidence = None, pa_reconciliation_required_at = Some 9, pa_created_at = 0, pa_expires_at = 5,
     pa_approved_at = Some 1, pa_processed_at = Some 9\<rparr>"

definition legacy_row :: sql_row where
  "legacy_row = (action_row legacy_action)(''status'' := Some (ValText ''processing''), ''processed_at'' := None, ''error_code'' := None)"

lemma legacy_row_old: "rows_satisfy actions_3 [legacy_row]"
  by (simp add: rows_satisfy_def required_set_def key_values_def actions_3_def action_columns_3_def legacy_row_def action_row_fields
    legacy_action_def column_kinds)

lemma legacy_row_status: "has_status legacy_row ''processing''" "legacy_row ''id'' = Some (ValId 7)"
  by (simp_all add: legacy_row_def action_row_fields legacy_action_def)

lemma legacy_row_stored: "stores_actions \<lparr>actions = [legacy_action], audits = []\<rparr> (map (upgrade_action_row 9) [legacy_row])"
proof -
  have "stores_row legacy_action (upgrade_action_row 9 legacy_row)"
    by (simp add: stores_row_def PendingAction_table_def column_kinds upgrade_action_fields upgrade_action_processed)
      (simp add: legacy_row_def action_row_fields legacy_action_def)
  then show ?thesis by (simp add: stores_actions_def)
qed

theorem historic_processing_not_replayed_witness:
  "(\<exists>a. find_action \<lparr>actions = [legacy_action], audits = []\<rparr> 7 = Some a \<and> pa_status a = RECONCILIATION_REQUIRED) \<and>
   fst (claim_pending_action demo_lib (\<lambda>n. 10) ''tok'' 7 3 \<lparr>actions = [legacy_action], audits = []\<rparr>) \<noteq> Inr (action_to_dict legacy_action, True)"
  using historic_processing_not_replayed [OF legacy_row_old legacy_row_stored _ legacy_row_status(2,1), of demo_lib "\<lambda>n. 10" "''tok''" 3]
  by auto


section \<open>Rolling the actions back\<close>

text \<open>
  The downgrade gives every row the digest of its id as idempotency key and restores the old unique
  constraint; this succeeds when the digest distinguishes the ids of the table.
\<close>

lemma downgrade_action_fields:
  "downgrade_action_row md5 r ''id'' = r ''id''"
  "downgrade_action_row md5 r ''user_id'' = r ''user_id''"
  "downgrade_action_row md5 r ''action_type'' = r ''action_type''"
  "downgrade_action_row md5 r ''payload'' = r ''payload''"
  "downgrade_action_row md5 r ''payload_hash'' = r ''payload_hash''"
  "downgrade_action_row md5 r ''summary'' = r ''summary''"
  "downgrade_action_row md5 r ''status'' = r ''status''"
  "downgrade_action_row md5 r ''result'' = r ''result''"
  "downgrade_action_row md5 r ''error_code'' = r ''error_code''"
  "downgrade_action_row md5 r ''created_at'' = r ''created_at''"
  "downgrade_action_row md5 r ''expires_at'' = r ''expires_at''"
  "downgrade_action_row md5 r ''approved_at'' = r ''approved_at''"
  "downgrade_action_row md5 r ''processed_at'' = r ''processed_at''"
  "downgrade_action_row md5 r ''idempotency_key'' = text_value (map_option md5 (id_text (r ''id'')))"
  by (simp_all only: downgrade_action_row_def update_simps)

lemma id_text_inj: "id_in_range r \<Longrightarrow> id_in_range q \<Longrightarrow> id_text (r ''id'') = id_text (q ''id'') \<Longrightarrow> r ''id'' = q ''id''"
  using uuid_text_inj by (auto elim!: id_in_rangeE)

lemma downgraded_action_fits:
  assumes "required_set actions_5 r" and "id_in_range r"
  shows "required_set actions_3 (downgrade_action_row md5 r)"
  using assms(1) by (rule_tac id_in_rangeE [OF assms(2)])
    (simp add: required_set_def actions_3_def actions_5_def action_columns_3_def downgrade_action_fields column_kinds)

lemma actions_downgrade:
  assumes "rows_satisfy actions_5 rows" and "list_all id_in_range rows"
    and "inj_on md5 ((\<lambda>r. the (id_text (r ''id''))) ` set rows)"
  shows "rows_satisfy actions_3 (map (downgrade_action_row md5) rows)"
proof -
  let ?rows = "map (downgrade_action_row md5) rows"
  have fits: "list_all (required_set actions_5) rows" and pk: "constraint_holds rows (PrimaryKey [''id''])"
    using assms(1) by (simp_all add: rows_satisfy_def actions_5_def del: constraint_holds.simps)
  have "r ''id'' = q ''id''"
    if "r \<in> set rows" "q \<in> set rows"
      "map (downgrade_action_row md5 r) [''idempotency_key''] = map (downgrade_action_row md5 q) [''idempotency_key'']" for r q
  proof -
    have ids: "id_in_range r" "id_in_range q" using that(1,2) assms(2) by (auto simp: list_all_iff)
    then have "md5 (the (id_text (r ''id''))) = md5 (the (id_text (q ''id'')))"
      using that(3) by (auto simp: downgrade_action_fields elim!: id_in_rangeE)
    then have "the (id_text (r ''id'')) = the (id_text (q ''id''))" using assms(3) that(1,2) by (auto simp: inj_on_def)
    then show ?thesis using id_text_inj [OF ids] ids by (auto elim!: id_in_rangeE)
  qed
  then have "constraint_holds ?rows (UniqueOn ''pending_actions_idempotency_key_key'' [''idempotency_key''])"
    using distinct_key_values [OF distinct_ids [OF pk]] by simp
  moreover have "constraint_holds ?rows (PrimaryKey [''id''])"
    using pk primary_key_kept [of "[''id'']" "downgrade_action_row md5" rows] by (simp add: downgrade_action_fields del: constraint_holds.simps)
  moreover have "list_all (required_set actions_3) ?rows"
    using fits assms(2) downgraded_action_fits by (auto simp: list_all_iff)
  moreover have "st_constraints actions_3 = [PrimaryKey [''id''], UniqueOn ''pending_actions_idempotency_key_key'' [''idempotency_key'']]"
    by (simp add: actions_3_def)
  ultimately show ?thesis unfolding rows_satisfy_def by (simp only: list.pred_inject simp_thms)
qed


section \<open>Notifications after the upgrade\<close>

abbreviation in_state :: "sql_row \<Rightarrow> str \<Rightarrow> bool" where
  "in_state r t \<equiv> r ''state'' = Some (ValText t)"

lemma upgrade_job_other: "c \<noteq> ''next_attempt_at'' \<Longrightarrow> upgrade_job_row now r c = r c"
  by (simp add: upgrade_job_row_def Let_def)

lemma upgrade_job_next: "upgrade_job_row now r ''next_attempt_at'' = (if in_state r ''pending'' then Some (ValTime now) else None)"
  by (simp add: upgrade_job_row_def Let_def)

lemma upgrade_triage_other: "c \<noteq> ''next_attempt_at'' \<Longrightarrow> upgrade_triage_row now r c = r c"
  by (simp add: upgrade_triage_row_def Let_def)

lemma upgrade_triage_next: "upgrade_triage_row now r ''next_attempt_at'' =
    (if in_state r ''processing'' \<and> r ''lease_token'' = None then Some (ValTime now) else None)"
  by (simp add: upgrade_triage_row_def Let_def)

text \<open>A migration that leaves the columns of a table's constraints alone keeps the constraints.\<close>

lemma eval_cond_kept: "(\<And>c. c \<in> set (cond_columns k) \<Longrightarrow> f r c = r c) \<Longrightarrow> eval_cond (f r) k = eval_cond r k"
  by (induction k) auto

lemma constraint_kept:
  assumes "\<And>r c. c \<in> set (constraint_columns k) \<Longrightarrow> f r c = r c"
  shows "constraint_holds (map f rows) k = constraint_holds rows k"
proof (cases k)
  case (PrimaryKey cs)
  then show ?thesis using primary_key_kept [of cs f rows] assms by (simp del: constraint_holds.simps)
next
  case (UniqueOn n cs)
  then show ?thesis using key_values_kept [of cs f rows] assms by simp
next
  case (CheckThat n c)
  then show ?thesis using assms eval_cond_kept [of c f] by (simp add: list.pred_map comp_def)
qed simp

lemma jobs_upgrade:
  assumes "rows_satisfy jobs_6 rows"
  shows "rows_satisfy jobs_7 (map (upgrade_job_row now) rows)"
proof -
  have "constraint_holds (map (upgrade_job_row now) rows) k = constraint_holds rows k" if "k \<in> set (st_constraints jobs_6)" for k
    using that by (intro constraint_kept upgrade_job_other) (auto simp: jobs_6_def job_state_check_def)
  moreover have "required_set jobs_7 (upgrade_job_row now r)" if "required_set jobs_6 r" for r
    using that by (simp add: required_set_def jobs_6_def jobs_7_def extend_table_def stamps_def column_kinds upgrade_job_other upgrade_job_next)
  moreover have "st_constraints jobs_7 = st_constraints jobs_6" by (simp add: jobs_7_def extend_table_def)
  ultimately show ?thesis using assms by (auto simp: rows_satisfy_def list_all_iff)
qed

lemma triage_upgrade:
  assumes "rows_satisfy triage_6 rows"
  shows "rows_satisfy triage_7 (map (upgrade_triage_row now) rows)"
proof -
  have "constraint_holds (map (upgrade_triage_row now) rows) k = constraint_holds rows k" if "k \<in> set (st_constraints triage_6)" for k
    using that by (intro constraint_kept upgrade_triage_other) (auto simp: triage_6_def triage_state_check_def)
  moreover have "required_set triage_7 (upgrade_triage_row now r)" if "required_set triage_6 r" for r
    using that by (simp add: required_set_def triage_6_def triage_7_def extend_table_def stamps_def column_kinds upgrade_triage_other upgrade_triage_next)
  moreover have "st_constraints triage_7 = st_constraints triage_6" by (simp add: triage_7_def extend_table_def)
  ultimately show ?thesis using assms by (auto simp: rows_satisfy_def list_all_iff)
qed


definition mailbox_at_head :: "sql_row \<Rightarrow> sql_row" where
  "mailbox_at_head r = add_renewal_backoff (upgrade_mailbox_row r)"

lemma mailbox_head_fields:
  "mailbox_at_head r ''mailbox_email'' = r ''mailbox_email''"
  "mailbox_at_head r ''user_id'' = r ''user_id''"
  "mailbox_at_head r ''history_cursor'' = r ''history_cursor''"
  "mailbox_at_head r ''watch_history_id'' = r ''watch_history_id''"
  "mailbox_at_head r ''watch_expires_at'' = r ''watch_expires_at''"
  "mailbox_at_head r ''watch_lease_token'' = r ''watch_lease_token''"
  "mailbox_at_head r ''watch_lease_expires_at'' = r ''watch_lease_expires_at''"
  "mailbox_at_head r ''resync_required'' = r ''resync_required''"
  "mailbox_at_head r ''resync_page_token'' = r ''resync_page_token''"
  "mailbox_at_head r ''resync_message_count'' = r ''resync_message_count''"
  "mailbox_at_head r ''last_error_code'' = r ''last_error_code''"
  "mailbox_at_head r ''updated_at'' = r ''updated_at''"
  "mailbox_at_head r ''resync_lease_token'' = None"
  "mailbox_at_head r ''resync_lease_expires_at'' = None"
  "mailbox_at_head r ''resync_next_attempt_at'' = None"
  "mailbox_at_head r ''worker_heartbeat_at'' = None"
  "mailbox_at_head r ''watch_last_error_code'' = None"
  "mailbox_at_head r ''watch_renewal_next_attempt_at'' = None"
  "mailbox_at_head r ''resync_generation'' = Some (ValInt 0)"
  "mailbox_at_head r ''resync_attempt_count'' = Some (ValInt 0)"
  "mailbox_at_head r ''watch_renewal_attempt_count'' = Some (ValInt 0)"
  "mailbox_at_head r ''resync_state'' = Some (ValText (if r ''resync_required'' = Some (ValBool True) then ''required'' else ''idle''))"
  by (simp_all only: mailbox_at_head_def add_renewal_backoff_def upgrade_mailbox_row_def if_row update_simps) simp

lemma sql_and_True: "sql_and (Some True) y = y"
  by (cases "(Some True, y)" rule: sql_and.cases) simp_all

lemma mailbox_head_checks:
  "eval_cond (mailbox_at_head r) (CondIn ''resync_state'' [''idle'', ''required'', ''processing'', ''manual_required'']) = Some True"
  "eval_cond (mailbox_at_head r) (CondSame (CondEq ''resync_state'' ''processing'')
     (CondAnd (CondNotNull ''resync_lease_token'') (CondNotNull ''resync_lease_expires_at''))) = Some True"
  "eval_cond (mailbox_at_head r) (CondNonNegative ''watch_renewal_attempt_count'') = Some True"
  "eval_cond (mailbox_at_head r) (CondAnd (CondAnd (CondNonNegative ''resync_generation'') (CondNonNegative ''resync_attempt_count''))
     (CondNonNegative ''resync_message_count'')) = eval_cond r (CondNonNegative ''resync_message_count'')"
  by (simp_all add: mailbox_head_fields sql_and_True)

lemma mailboxes_upgrade:
  assumes "rows_satisfy mailboxes_6 rows"
    and "list_all (\<lambda>r. eval_cond r (CondNonNegative ''resync_message_count'') \<noteq> Some False) rows"
  shows "rows_satisfy mailboxes_8 (map mailbox_at_head rows)"
proof -
  let ?rows = "map mailbox_at_head rows"
  have "constraint_holds ?rows k = constraint_holds rows k" if "k \<in> set (st_constraints mailboxes_6)" for k
    using that by (intro constraint_kept) (auto simp: mailboxes_6_def watch_lease_check_def mailbox_head_fields)
  then have "list_all (constraint_holds ?rows) (st_constraints mailboxes_6)"
    using assms(1) by (simp add: rows_satisfy_def list_all_iff)
  moreover have "constraint_holds ?rows resync_state_check" "constraint_holds ?rows resync_lease_check"
      "constraint_holds ?rows renewal_count_check"
    unfolding resync_state_check_def resync_lease_check_def renewal_count_check_def
    by (simp_all add: list_all_iff mailbox_head_checks del: eval_cond.simps)
  moreover have "constraint_holds ?rows resync_counts_check"
    using assms(2) unfolding resync_counts_check_def by (simp add: list_all_iff mailbox_head_checks del: eval_cond.simps)
  moreover have "required_set mailboxes_8 (mailbox_at_head r)" if "required_set mailboxes_6 r" for r
    using that by (simp add: required_set_def mailboxes_6_def mailboxes_7_def mailboxes_8_def extend_table_def column_kinds mailbox_head_fields)
  moreover have "st_constraints mailboxes_8 = st_constraints mailboxes_6 @ [resync_state_check, resync_lease_check, resync_counts_check,
      renewal_count_check]" by (simp add: mailboxes_8_def mailboxes_7_def extend_table_def)
  ultimately show ?thesis using assms(1) by (simp add: rows_satisfy_def list_all_iff del: constraint_holds.simps)
qed

text \<open>
  The worker revisions accept every existing notification row: on tables that satisfied the old
  constraints, with no negative message count, the upgrades to the head leave rows that satisfy all
  constraints of the new tables; exactly the pending jobs become due at once, and a mailbox is in
  recovery state \<open>required\<close> exactly if it was marked for recovery and otherwise idle.
\<close>

lemma mail_rows_upgrade:
  assumes "rows_satisfy jobs_6 js" and "rows_satisfy triage_6 ws" and "rows_satisfy mailboxes_6 ms"
    and "list_all (\<lambda>r. eval_cond r (CondNonNegative ''resync_message_count'') \<noteq> Some False) ms"
  shows "rows_satisfy jobs_7 (map (upgrade_job_row now) js) \<and> rows_satisfy triage_7 (map (upgrade_triage_row now) ws) \<and>
    rows_satisfy mailboxes_8 (map (add_renewal_backoff \<circ> upgrade_mailbox_row) ms) \<and>
    list_all (\<lambda>r. (upgrade_job_row now r ''next_attempt_at'' = Some (ValTime now)) = in_state r ''pending'') js \<and>
    list_all (\<lambda>r. add_renewal_backoff (upgrade_mailbox_row r) ''resync_state'' =
      Some (ValText (if r ''resync_required'' = Some (ValBool True) then ''required'' else ''idle''))) ms"
proof -
  have "add_renewal_backoff \<circ> upgrade_mailbox_row = mailbox_at_head" by (simp add: fun_eq_iff mailbox_at_head_def)
  moreover have "list_all (\<lambda>r. add_renewal_backoff (upgrade_mailbox_row r) ''resync_state'' =
      Some (ValText (if r ''resync_required'' = Some (ValBool True) then ''required'' else ''idle''))) ms"
    using mailbox_head_fields by (simp add: list_all_iff mailbox_at_head_def)
  ultimately show ?thesis
    using jobs_upgrade [OF assms(1)] triage_upgrade [OF assms(2)] mailboxes_upgrade [OF assms(3,4)]
    by (simp add: upgrade_job_next list_all_iff)
qed

definition old_job :: sql_row where
  "old_job = row_of [(''id'', Some (ValId 1)), (''pubsub_message_id'', Some (ValText ''m'')), (''mailbox_email'', Some (ValText ''a@b'')),
     (''history_id'', Some (ValInt 5)), (''state'', Some (ValText ''pending'')), (''attempt_count'', Some (ValInt 0)),
     (''received_at'', Some (ValTime 0)), (''created_at'', Some (ValTime 0)), (''updated_at'', Some (ValTime 0))]"

definition old_mailbox :: sql_row where
  "old_mailbox = row_of [(''mailbox_email'', Some (ValText ''a@b'')), (''user_id'', Some (ValId 3)), (''resync_required'', Some (ValBool True)),
     (''resync_message_count'', Some (ValInt 0)), (''updated_at'', Some (ValTime 0))]"

lemma old_rows: "rows_satisfy jobs_6 [old_job]" "rows_satisfy mailboxes_6 [old_mailbox]" "rows_satisfy triage_6 []"
    "eval_cond old_mailbox (CondNonNegative ''resync_message_count'') = Some True"
  by (simp_all add: rows_satisfy_def required_set_def key_values_def jobs_6_def job_state_check_def stamps_def old_job_def row_of_simps
    column_kinds mailboxes_6_def watch_lease_check_def old_mailbox_def sql_or_def triage_6_def triage_state_check_def)

lemma mail_rows_upgrade_witness:
  "rows_satisfy jobs_7 [upgrade_job_row 9 old_job] \<and> upgrade_job_row 9 old_job ''next_attempt_at'' = Some (ValTime 9) \<and>
   add_renewal_backoff (upgrade_mailbox_row old_mailbox) ''resync_state'' = Some (ValText ''required'')"
  using mail_rows_upgrade [OF old_rows(1,3,2), of 9] by (simp add: old_rows) (simp add: old_job_def old_mailbox_def row_of_simps)

section \<open>Credentials after the upgrade\<close>

lemma token_flags:
  "token_is_pending (r(c := v)) = token_is_pending r" if "c \<noteq> ''token_json''"
  using that by (simp add: token_is_pending_def)

lemma token_usable_flag:
  "token_is_usable (r(c := v)) = token_is_usable r" if "c \<noteq> ''token_json''" "c \<noteq> ''user_email''"
  using that by (simp add: token_is_usable_def)

lemma token_usable_if: "token_is_usable (if b then r else q) = (if b then token_is_usable r else token_is_usable q)"
  by simp

lemma upgrade_token_fields:
  "upgrade_token_row lc r ''user_id'' = r ''user_id''"
  "upgrade_token_row lc r ''token_json'' = r ''token_json''"
  "upgrade_token_row lc r ''created_at'' = r ''created_at''"
  "upgrade_token_row lc r ''updated_at'' = r ''updated_at''"
  "upgrade_token_row lc r ''user_email'' = r ''user_email''"
  "upgrade_token_row lc r ''encrypted_token_payload'' = None"
  "upgrade_token_row lc r ''credential_key_id'' = None"
  "upgrade_token_row lc r ''credential_format_version'' = None"
  "upgrade_token_row lc r ''connection_status'' = Some (ValText
     (if token_is_usable r then ''connected'' else if token_is_pending r then ''pending'' else ''reconnect_required''))"
  by (simp_all only: upgrade_token_row_def token_flags token_usable_flag token_usable_if if_row update_simps not_False_eq_True) simp

lemma upgrade_token_email:
  "upgrade_token_row lc r ''google_email_normalized'' =
     (if token_is_usable r then (case r ''user_email'' of Some (ValText t) \<Rightarrow> Some (ValText (lc (trim_spaces t))) | _ \<Rightarrow> None) else None)"
  by (simp only: upgrade_token_row_def token_flags token_usable_flag token_usable_if if_row update_simps not_False_eq_True)
    (auto simp: token_is_usable_def split: option.splits sql_value.splits)

lemma tokens_upgrade:
  assumes "rows_satisfy (tokens_2 b) rows"
  shows "rows_satisfy tokens_4 (map (upgrade_token_row lc) rows)"
proof -
  let ?rows = "map (upgrade_token_row lc) rows"
  have "constraint_holds ?rows (PrimaryKey [''user_id''])"
    using assms primary_key_kept [of "[''user_id'']" "upgrade_token_row lc" rows]
    by (simp add: rows_satisfy_def tokens_2_def tokens_1_def extend_table_def upgrade_token_fields del: constraint_holds.simps)
  moreover have "constraint_holds ?rows connection_status_check"
    by (simp add: connection_status_check_def CONNECTION_STATES_def list_all_iff upgrade_token_fields)
  moreover have "required_set tokens_4 (upgrade_token_row lc r)" if "required_set (tokens_2 b) r" for r
    using that by (auto simp: required_set_def tokens_4_def tokens_2_def tokens_1_def extend_table_def column_kinds upgrade_token_fields
      upgrade_token_email split: option.splits sql_value.splits)
  moreover have "st_constraints tokens_4 = [PrimaryKey [''user_id''], connection_status_check]"
    by (simp add: tokens_4_def tokens_2_def tokens_1_def extend_table_def)
  ultimately show ?thesis using assms by (auto simp: rows_satisfy_def list_all_iff simp del: constraint_holds.simps)
qed


text \<open>
  A stored token whose \<open>refresh_token\<close> is \<open>null\<close> counts as connected, although it proves no
  usable account: the migration asks for the key and not for a value.
\<close>

lemma null_refresh_token_connected:
  assumes "r ''token_json'' = Some (ValJson (JObj [(''refresh_token'', JNull)]))" and "r ''user_email'' = Some (ValText t)"
    and "trim_spaces t \<noteq> []"
  shows "upgrade_token_row lc r ''connection_status'' = Some (ValText ''connected'')"
  using assms by (simp add: upgrade_token_fields token_is_usable_def)

end
