(* ===== verification/Response_Models.thy ===== *)
theory Response_Models
  imports Router_Safety Http_Service Mail_Routes OAuth_Routes Push_Router
begin

text \<open>
  The response models of \<open>server/schemas.py\<close>. A route with a response model answers with the declared
  fields of the value that its function returns, and with an internal error when the value does not fit.
  Only values of the declared Python types are accepted here; the conversions that pydantic adds are not
  needed by any route.
\<close>

section \<open>Models\<close>

datatype reply =
    RNone | RBool bool | RInt int | RStr str | RUuid uuid | RTime time | RList "reply list" | RDict "(str \<times> reply) list"

datatype field_type =
    StrField | BoolField | IntField | UuidField | DatetimeField | DictField | EnumField "str list"
  | OptionalField field_type | ListField field_type | ModelField "(str \<times> field_type \<times> reply option) list"

type_synonym response_model = "(str \<times> field_type \<times> reply option) list"

fun all_some :: "'a option list \<Rightarrow> 'a list option" where
  "all_some [] = Some []"
| "all_some (None # xs) = None"
| "all_some (Some x # xs) = map_option ((#) x) (all_some xs)"

fun serve :: "field_type \<Rightarrow> reply \<Rightarrow> reply option" where
  "serve StrField v = (case v of RStr s \<Rightarrow> Some v | _ \<Rightarrow> None)"
| "serve BoolField v = (case v of RBool b \<Rightarrow> Some v | _ \<Rightarrow> None)"
| "serve IntField v = (case v of RInt i \<Rightarrow> Some v | _ \<Rightarrow> None)"
| "serve UuidField v = (case v of RUuid u \<Rightarrow> Some v | _ \<Rightarrow> None)"
| "serve DatetimeField v = (case v of RTime t \<Rightarrow> Some v | _ \<Rightarrow> None)"
| "serve DictField v = (case v of RDict kvs \<Rightarrow> Some v | _ \<Rightarrow> None)"
| "serve (EnumField vs) v = (case v of RStr s \<Rightarrow> if s \<in> set vs then Some v else None | _ \<Rightarrow> None)"
| "serve (OptionalField t) v = (if v = RNone then Some RNone else serve t v)"
| "serve (ListField t) v = (case v of RList xs \<Rightarrow> map_option RList (all_some (map (serve t) xs)) | _ \<Rightarrow> None)"
| "serve (ModelField fs) v = (case v of RDict kvs \<Rightarrow> map_option RDict (all_some (map (\<lambda>(n, t, d).
     map_option (Pair n) (case map_of kvs n of Some w \<Rightarrow> serve t w | None \<Rightarrow> d)) fs)) | _ \<Rightarrow> None)"

declare serve.simps [simp del]

lemma serve_value [simp]:
  "serve StrField (RStr s) = Some (RStr s)" "serve BoolField (RBool b) = Some (RBool b)" "serve IntField (RInt i) = Some (RInt i)"
  "serve UuidField (RUuid u) = Some (RUuid u)" "serve DatetimeField (RTime t) = Some (RTime t)"
  "serve DictField (RDict kvs) = Some (RDict kvs)" "serve (EnumField vs) (RStr s) = (if s \<in> set vs then Some (RStr s) else None)"
  "serve (OptionalField ty) RNone = Some RNone" "serve (OptionalField ty) (RStr s) = serve ty (RStr s)"
  by (simp_all add: serve.simps)

lemma serve_items [simp]: "serve (ListField ty) (RList xs) = map_option RList (all_some (map (serve ty) xs))"
  by (simp add: serve.simps)

lemma serve_model [simp]: "serve (ModelField fs) (RDict kvs) = map_option RDict (all_some (map (\<lambda>(n, t, d).
     map_option (Pair n) (case map_of kvs n of Some w \<Rightarrow> serve t w | None \<Rightarrow> d)) fs))"
  by (simp add: serve.simps)

fun reply_json :: "json \<Rightarrow> reply" where
  "reply_json JNull = RNone"
| "reply_json (JBool b) = RBool b"
| "reply_json (JInt i) = RInt i"
| "reply_json (JStr s) = RStr s"
| "reply_json (JArr xs) = RList (map reply_json xs)"
| "reply_json (JObj kvs) = RDict (map (\<lambda>(k, v). (k, reply_json v)) kvs)"

text \<open>The answer of a route: the declared part of the value, or an internal error.\<close>

definition respond_with :: "response_model \<Rightarrow> reply \<Rightarrow> (str \<times> reply) list option" where
  "respond_with m v = (case serve (ModelField m) v of Some (RDict out) \<Rightarrow> Some out | _ \<Rightarrow> None)"

section \<open>Enumerations and models\<close>

definition PendingActionType_values :: "str list" where
  "PendingActionType_values = [''send_email'', ''send_reply'', ''create_event'', ''create_task'']"

definition PendingActionStatus_values :: "str list" where
  "PendingActionStatus_values =
     [''pending'', ''processing'', ''succeeded'', ''failed'', ''rejected'', ''expired'', ''reconciliation_required'']"

definition TriageState_values :: "str list" where
  "TriageState_values = [''processing'', ''succeeded'', ''noop'', ''dead_letter'']"

definition MailMutationStatus_values :: "str list" where
  "MailMutationStatus_values = [''marked as read'', ''marked as unread'', ''moved to trash'', ''restored from trash'',
     ''permanently deleted'', ''starred'', ''unstarred'']"

abbreviation required_field :: "str \<Rightarrow> field_type \<Rightarrow> str \<times> field_type \<times> reply option" where
  "required_field n t \<equiv> (n, t, None)"

abbreviation optional_field :: "str \<Rightarrow> field_type \<Rightarrow> str \<times> field_type \<times> reply option" where
  "optional_field n t \<equiv> (n, OptionalField t, Some RNone)"

definition EmailListItem :: response_model where
  "EmailListItem =
     [required_field ''id'' StrField, optional_field ''threadId'' StrField, required_field ''subject'' StrField,
      required_field ''sender'' StrField, (''to'', ListField StrField, Some (RList [])), (''snippet'', StrField, Some (RStr [])),
      required_field ''is_read'' BoolField, required_field ''is_starred'' BoolField, (''labels'', ListField StrField, Some (RList [])),
      optional_field ''date'' StrField]"

definition EmailDetail :: response_model where
  "EmailDetail = EmailListItem @
     [(''cc'', ListField StrField, Some (RList [])), required_field ''body'' StrField, optional_field ''sanitized_html'' StrField]"

definition EmailPage :: response_model where
  "EmailPage = [required_field ''emails'' (ListField (ModelField EmailListItem)), optional_field ''next_page_token'' StrField]"

definition MailMutationResponse :: response_model where
  "MailMutationResponse = [required_field ''id'' StrField, required_field ''status'' (EnumField MailMutationStatus_values),
     optional_field ''action'' (EnumField [''set''])]"

definition SendEmailResponse :: response_model where
  "SendEmailResponse = [optional_field ''id'' StrField, required_field ''status'' (EnumField [''sent''])]"

definition SaveDraftResponse :: response_model where
  "SaveDraftResponse = [required_field ''id'' StrField, required_field ''status'' (EnumField [''draft saved'', ''draft updated'']),
     required_field ''draft_id'' StrField]"

definition CheckInboxResponse :: response_model where
  "CheckInboxResponse = [required_field ''status'' (EnumField [''checked'']), required_field ''inbox_message_count_estimate'' IntField]"

definition ReadinessResponse :: response_model where
  "ReadinessResponse = [required_field ''status'' (EnumField [''ok'']),
     required_field ''global_gmail_service'' (EnumField [''durable_worker_enabled'', ''disabled''])]"

definition GlobalGmailHealthResponse :: response_model where
  "GlobalGmailHealthResponse = [required_field ''status'' (EnumField [''unavailable'', ''healthy'', ''degraded'']),
     required_field ''detail'' StrField, required_field ''gmail_service_status'' (EnumField [''unavailable'', ''ready'', ''degraded''])]"

definition OAuthStartResponse :: response_model where
  "OAuthStartResponse = [required_field ''authorization_url'' StrField, required_field ''state'' StrField]"

definition AgentStatusResponse :: response_model where
  "AgentStatusResponse = [required_field ''user_id'' StrField, required_field ''email'' StrField,
     required_field ''is_gmail_connected'' BoolField, required_field ''status'' (EnumField [''connected'', ''not_connected''])]"

definition VerifyAndCreateEntryResponse :: response_model where
  "VerifyAndCreateEntryResponse = [required_field ''message'' StrField, required_field ''user_id'' StrField, required_field ''email'' StrField]"

definition AgentErrorResponse :: response_model where
  "AgentErrorResponse = [required_field ''error'' StrField, required_field ''detail'' StrField]"

definition AgentStreamEvent :: response_model where
  "AgentStreamEvent = [required_field ''event'' (EnumField [''token'', ''tool_result'', ''error'', ''done'']),
     required_field ''content'' StrField, optional_field ''error_code'' StrField]"

definition PendingActionResponse :: response_model where
  "PendingActionResponse =
     [required_field ''id'' UuidField, required_field ''action_type'' (EnumField PendingActionType_values),
      required_field ''payload'' DictField, required_field ''payload_hash'' StrField, required_field ''summary'' StrField,
      required_field ''status'' (EnumField PendingActionStatus_values), optional_field ''result'' DictField,
      optional_field ''error_code'' StrField, required_field ''created_at'' DatetimeField, required_field ''expires_at'' DatetimeField,
      optional_field ''approved_at'' DatetimeField, optional_field ''processed_at'' DatetimeField,
      (''attempt_count'', IntField, Some (RInt 0)), optional_field ''lease_expires_at'' DatetimeField,
      optional_field ''reconciliation_reason'' StrField, optional_field ''reconciliation_required_at'' DatetimeField]"

definition PendingActionListItem :: response_model where
  "PendingActionListItem =
     [required_field ''id'' UuidField, required_field ''action_type'' (EnumField PendingActionType_values),
      required_field ''summary'' StrField, required_field ''status'' (EnumField PendingActionStatus_values),
      required_field ''created_at'' DatetimeField, required_field ''expires_at'' DatetimeField, required_field ''is_expired'' BoolField]"

definition PendingActionPage :: response_model where
  "PendingActionPage = [required_field ''actions'' (ListField (ModelField PendingActionListItem)),
     optional_field ''next_page_token'' StrField]"

definition TriageResultBase :: response_model where
  "TriageResultBase =
     [required_field ''id'' UuidField, required_field ''message_id'' StrField, required_field ''state'' (EnumField TriageState_values),
      optional_field ''last_error_code'' StrField, required_field ''created_at'' DatetimeField, optional_field ''processed_at'' DatetimeField]"

definition TriageListItem :: response_model where
  "TriageListItem = TriageResultBase @ [optional_field ''summary_preview'' StrField]"

definition TriageDetail :: response_model where
  "TriageDetail = TriageResultBase @ [optional_field ''summary'' StrField]"

definition TriagePage :: response_model where
  "TriagePage = [required_field ''results'' (ListField (ModelField TriageListItem)), optional_field ''next_page_token'' StrField]"

section \<open>What the services return\<close>

definition opt_reply :: "('a \<Rightarrow> reply) \<Rightarrow> 'a option \<Rightarrow> reply" where
  "opt_reply f x = (case x of None \<Rightarrow> RNone | Some v \<Rightarrow> f v)"

definition action_reply :: "action_view \<Rightarrow> reply" where
  "action_reply v = RDict
     [(''id'', RUuid (av_id v)), (''action_type'', RStr (av_action_type v)), (''payload'', reply_json (JObj (av_payload v))),
      (''payload_hash'', RStr (av_payload_hash v)), (''summary'', RStr (av_summary v)), (''status'', RStr (status_text (av_status v))),
      (''result'', opt_reply (\<lambda>r. reply_json (JObj r)) (av_result v)), (''error_code'', opt_reply RStr (av_error_code v)),
      (''created_at'', RTime (av_created_at v)), (''expires_at'', RTime (av_expires_at v)),
      (''approved_at'', opt_reply RTime (av_approved_at v)), (''processed_at'', opt_reply RTime (av_processed_at v)),
      (''command_key'', RStr (av_command_key v)), (''attempt_token'', opt_reply RStr (av_attempt_token v)),
      (''attempt_count'', RInt (int (av_attempt_count v))), (''attempt_started_at'', opt_reply RTime (av_attempt_started_at v)),
      (''lease_expires_at'', opt_reply RTime (av_lease_expires_at v)),
      (''reconciliation_reason'', opt_reply RStr (av_reconciliation_reason v)),
      (''reconciliation_required_at'', opt_reply RTime (av_reconciliation_required_at v))]"

definition summary_reply :: "action_summary_row \<Rightarrow> reply" where
  "summary_reply r = RDict
     [(''id'', RUuid (as_id r)), (''action_type'', RStr (as_action_type r)), (''summary'', RStr (as_summary r)),
      (''status'', RStr (status_text (as_status r))), (''created_at'', RTime (as_created_at r)), (''expires_at'', RTime (as_expires_at r)),
      (''is_expired'', RBool (as_is_expired r))]"

definition actions_page_reply :: "action_summary_row list \<times> str option \<Rightarrow> reply" where
  "actions_page_reply p = RDict [(''actions'', RList (map summary_reply (fst p))), (''next_page_token'', opt_reply RStr (snd p))]"

fun triage_state_value :: "triage_state \<Rightarrow> str" where
  "triage_state_value TriageProcessing = ''processing''"
| "triage_state_value TriageSucceeded = ''succeeded''"
| "triage_state_value TriageNoop = ''noop''"
| "triage_state_value TriageDeadLetter = ''dead_letter''"

text \<open>The summary is returned under the name \<open>label\<close> of the query.\<close>

definition triage_reply :: "str \<Rightarrow> triage_view \<Rightarrow> reply" where
  "triage_reply label v = RDict
     [(''id'', RUuid (tr_id v)), (''message_id'', RStr (tr_message_id v)), (''state'', RStr (triage_state_value (tr_state v))),
      (label, opt_reply RStr (tr_summary v)), (''last_error_code'', opt_reply RStr (tr_last_error_code v)),
      (''created_at'', RTime (tr_created_at v)), (''processed_at'', opt_reply RTime (tr_processed_at v))]"

definition triage_page_reply :: "triage_view list \<times> str option \<Rightarrow> reply" where
  "triage_page_reply p = RDict [(''results'', RList (map (triage_reply ''summary_preview'') (fst p))),
     (''next_page_token'', opt_reply RStr (snd p))]"

section \<open>Serving\<close>

lemma all_some_map: "(\<And>x. x \<in> set xs \<Longrightarrow> f x = Some (g x)) \<Longrightarrow> all_some (map f xs) = Some (map g xs)"
  by (induction xs) simp_all

lemma all_some_names:
  "all_some (map (\<lambda>(n, t, d). map_option (Pair n) (h n t d)) fs) = Some out \<Longrightarrow> map fst out = map fst fs"
proof (induction fs arbitrary: out)
  case (Cons f fs)
  obtain n t d where "f = (n, t, d)" by (cases f) auto
  then show ?case using Cons by (cases "h n t d") auto
qed simp

text \<open>An answer has exactly the fields of its model, in their order.\<close>

lemma respond_with_names: "respond_with m v = Some out \<Longrightarrow> map fst out = map fst m"
  by (cases v) (auto simp: respond_with_def serve.simps split: option.splits reply.splits dest!: all_some_names)

lemma serve_optional [simp]:
  "(\<And>x. serve t (f x) = Some (f x)) \<Longrightarrow> (\<And>x. f x \<noteq> RNone) \<Longrightarrow> serve (OptionalField t) (opt_reply f v) = Some (opt_reply f v)"
  by (cases v) (simp_all add: opt_reply_def serve.simps)

lemma serve_list: "(\<And>x. x \<in> set xs \<Longrightarrow> serve t (f x) = Some (g x)) \<Longrightarrow> serve (ListField t) (RList (map f xs)) = Some (RList (map g xs))"
  using all_some_map [of xs "serve t \<circ> f" g] by (simp add: comp_def)


section \<open>Stored actions have a declared type\<close>

definition types_known :: "action_db \<Rightarrow> bool" where
  "types_known db = list_all (\<lambda>a. pa_action_type a \<in> set PendingActionType_values) (actions db)"

lemma types_commit:
  assumes "types_known db" and "pa_action_type b \<in> set PendingActionType_values"
  shows "types_known (commit_row b e db)"
  using assms by (auto simp: types_known_def commit_row_def)

lemma types_update:
  assumes "types_known db" and "\<And>a. a \<in> set (actions db) \<Longrightarrow> hit a \<Longrightarrow> row_step a (g a)"
  shows "types_known (update_rows hit g ev db)"
  using assms by (auto simp: types_known_def update_rows_def list_all_iff row_step_def same_command_def)

lemma length_kept:
  "length (actions (snd (reject_pending_action ck i u db))) = length (actions db)"
  "length (actions (snd (claim_pending_action lib ck tok i u db))) = length (actions db)"
  "length (actions (snd (finalize_claimed_action ck f v db))) = length (actions db)"
  "length (actions (snd (begin_reconciliation ck i u db))) = length (actions db)"
  "length (actions (snd (apply_reconciliation ck i u r db))) = length (actions db)"
  by (auto simp: reject_pending_action_def claim_pending_action_def finalize_claimed_action_def begin_reconciliation_def
    apply_reconciliation_def commit_reconciliation_def commit_row_def tbl_put_def Let_def case_prod_beta split: option.split sum.split)


lemma types_refines:
  assumes "refines db db'" and "length (actions db') = length (actions db)" and "types_known db"
  shows "types_known db'"
  using assms unfolding refines_def
  by (auto elim!: spec_stepE intro!: types_update simp: insert_action_def split: if_splits)

lemma types_expire: "types_known db \<Longrightarrow> types_known (snd (expire_loop locked now n db))"
proof (induction locked now n db rule: expire_loop.induct)
  case (1 locked now n db)
  have "types_known (snd (expire_batch locked now db))"
    using "1.prems" by (auto simp: types_known_def expire_batch_def Let_def list_all_iff expire_row_def)
  then show ?case using "1.IH" by (subst expire_loop.simps) (simp add: Let_def)
qed

lemma types_create:
  assumes "types_known db"
  shows "types_known (snd (create_pending_action lib id ck n u ty p k db))"
  using assms by (auto simp: create_pending_action_def types_known_def insert_action_def new_action_def SUPPORTED_ACTIONS_def
    PendingActionType_values_def Let_def split: option.splits if_splits)

lemma types_step:
  assumes "action_inv db" and "types_known db" and "service_step lib db db'"
  shows "types_known db'"
  using assms(3)
  by (rule service_stepE) (use assms types_create types_expire types_refines [OF op_refines(1)] types_refines [OF op_refines(2)]
    types_refines [OF op_refines(3)] types_refines [OF op_refines(4)] types_refines [OF op_refines(5)]
    in \<open>auto simp: length_kept expire_stale_actions_def\<close>)

interpretation typed: invariant_of empty_actions "service_step lib" "\<lambda>db. action_inv db \<and> types_known db" for lib
proof
  show "action_inv db \<and> types_known db" if "empty_actions db" for db
    using that service_safe.inv_init by (simp add: types_known_def empty_actions_def)
  show "action_inv db' \<and> types_known db'" if "action_inv db \<and> types_known db" "service_step lib db db'" for db db'
    using that types_step service_safe.inv_step by blast
qed


section \<open>Every answer is served, with the declared fields only\<close>

lemma status_value: "status_text s \<in> set PendingActionStatus_values"
  by (cases s) (simp_all add: PendingActionStatus_values_def)

lemma triage_state_declared: "triage_state_value s \<in> set TriageState_values"
  by (cases s) (simp_all add: TriageState_values_def)

lemma action_served:
  assumes "av_action_type v \<in> set PendingActionType_values"
  shows "respond_with PendingActionResponse (action_reply v) \<noteq> None"
  using assms status_value [of "av_status v"] by (simp add: respond_with_def PendingActionResponse_def action_reply_def)

lemma summary_served:
  assumes "as_action_type r \<in> set PendingActionType_values"
  shows "serve (ModelField PendingActionListItem) (summary_reply r) = Some (summary_reply r)"
  using assms status_value [of "as_status r"] by (simp add: PendingActionListItem_def summary_reply_def)

lemma actions_page_served:
  assumes "list_all (\<lambda>r. as_action_type r \<in> set PendingActionType_values) (fst p)"
  shows "respond_with PendingActionPage (actions_page_reply p) =
    Some [(''actions'', RList (map summary_reply (fst p))), (''next_page_token'', opt_reply RStr (snd p))]"
  using assms serve_list [of "fst p" "ModelField PendingActionListItem" summary_reply summary_reply] summary_served
  by (simp add: respond_with_def PendingActionPage_def actions_page_reply_def list_all_iff del: serve_items)


lemma triage_served:
  "respond_with TriageDetail (triage_reply ''summary'' v) \<noteq> None"
  "serve (ModelField TriageListItem) (triage_reply ''summary_preview'' v) \<noteq> None"
  using triage_state_declared [of "tr_state v"]
  by (simp_all add: respond_with_def TriageDetail_def TriageListItem_def TriageResultBase_def triage_reply_def)

lemma all_some_not_None: "(\<And>x. x \<in> set xs \<Longrightarrow> f x \<noteq> None) \<Longrightarrow> all_some (map f xs) \<noteq> None"
  using all_some_map [of xs f "\<lambda>x. the (f x)"] by fastforce

lemma triage_page_served: "respond_with TriagePage (triage_page_reply p) \<noteq> None"
proof -
  have "all_some (map (\<lambda>v. serve (ModelField TriageListItem) (triage_reply ''summary_preview'' v)) (fst p)) \<noteq> None"
    by (rule all_some_not_None) (rule triage_served)
  then show ?thesis
    by (auto simp: respond_with_def TriagePage_def triage_page_reply_def comp_def)
qed

text \<open>
  A message is served when its identifiers are texts and its labels a list of texts, which is what the
  Gmail API documents; everything else is made by the parser.
\<close>

definition gmail_message :: "email_detail \<Rightarrow> bool" where
  "gmail_message e = ((case ed_id e of Some (JStr i) \<Rightarrow> True | _ \<Rightarrow> False) \<and>
     (case ed_thread_id e of None \<Rightarrow> True | Some JNull \<Rightarrow> True | Some (JStr i) \<Rightarrow> True | _ \<Rightarrow> False) \<and>
     (case ed_labels e of JArr ls \<Rightarrow> list_all (\<lambda>l. case l of JStr t \<Rightarrow> True | _ \<Rightarrow> False) ls | _ \<Rightarrow> False))"

lemma labels_served:
  "list_all (\<lambda>l. case l of JStr t \<Rightarrow> True | _ \<Rightarrow> False) ls \<Longrightarrow> all_some (map (serve StrField \<circ> reply_json) ls) = Some (map reply_json ls)"
  by (induction ls) (auto split: json.splits)

lemma texts_served: "all_some (map (serve StrField \<circ> (reply_json \<circ> JStr)) ts) = Some (map RStr ts)"
  by (induction ts) simp_all

lemma detail_served: "gmail_message e \<Longrightarrow> respond_with EmailDetail (reply_json (detail_json e)) \<noteq> None"
  by (auto simp: gmail_message_def respond_with_def EmailDetail_def EmailListItem_def detail_json_def jopt_def labels_served texts_served
    split: option.splits json.splits)

lemma list_item_served:
  "gmail_message e \<Longrightarrow> serve (ModelField EmailListItem) (reply_json (list_item_json (to_email_list_item e))) \<noteq> None"
  by (auto simp: gmail_message_def EmailListItem_def list_item_json_def to_email_list_item_def jopt_def labels_served texts_served
    split: option.splits json.splits)

lemma mutate_email_answer:
  "mutate_email E u i rq sf response s = (Inr j, s') \<Longrightarrow> j = response"
  by (auto simp: mutate_email_def mutate_def split: prod.splits sum.splits if_splits)

lemma mutations_served:
  "mark_as_read E u i s = (Inr j, s') \<Longrightarrow> respond_with MailMutationResponse (reply_json j) \<noteq> None"
  "mark_as_unread E u i s = (Inr j, s') \<Longrightarrow> respond_with MailMutationResponse (reply_json j) \<noteq> None"
  "move_to_trash E u i s = (Inr j, s') \<Longrightarrow> respond_with MailMutationResponse (reply_json j) \<noteq> None"
  "restore_from_trash E u i s = (Inr j, s') \<Longrightarrow> respond_with MailMutationResponse (reply_json j) \<noteq> None"
  "delete_email E u i s = (Inr j, s') \<Longrightarrow> respond_with MailMutationResponse (reply_json j) \<noteq> None"
  "set_star_state E u b i s = (Inr j, s') \<Longrightarrow> respond_with MailMutationResponse (reply_json j) \<noteq> None"
  by (auto simp: mark_as_read_def mark_as_unread_def move_to_trash_def restore_from_trash_def delete_email_def set_star_state_def
    mutation_response_def respond_with_def MailMutationResponse_def MailMutationStatus_values_def dest!: mutate_email_answer)

lemma root_served: "respond_with ReadinessResponse (reply_json (root_status enabled role)) \<noteq> None"
  by (simp add: root_status_def respond_with_def ReadinessResponse_def)


definition health_reply :: "health_report \<Rightarrow> reply" where
  "health_reply h = RDict [(''status'', RStr (hr_status h)), (''detail'', RStr (hr_detail h)),
     (''gmail_service_status'', RStr (hr_gmail_service_status h))]"

lemma health_served: "health_check s ps t now u db = Inr h \<Longrightarrow> respond_with GlobalGmailHealthResponse (health_reply h) \<noteq> None"
  by (auto simp: health_check_def health_reply_def respond_with_def GlobalGmailHealthResponse_def
    split: sum.splits option.splits if_splits)

lemma oauth_answers_served:
  "start_oauth OE creds fresh st = (Responded j, st') \<Longrightarrow> respond_with OAuthStartResponse (reply_json j) \<noteq> None"
  "verify_and_create_agent_entry OE creds tdb = (Responded j, tdb') \<Longrightarrow> respond_with VerifyAndCreateEntryResponse (reply_json j) \<noteq> None"
  "get_agent_status OE creds tdb = Responded j \<Longrightarrow> respond_with AgentStatusResponse (reply_json j) \<noteq> None"
  by (auto simp: start_oauth_def verify_and_create_agent_entry_def get_agent_status_def Let_def respond_with_def OAuthStartResponse_def
    VerifyAndCreateEntryResponse_def AgentStatusResponse_def
    split: sum.splits prod.splits url_outcome.splits state_error.splits credential_error.splits)

lemma public_error_served: "respond_with AgentErrorResponse (reply_json (public_error code detail)) \<noteq> None"
  by (simp add: public_error_def respond_with_def AgentErrorResponse_def)

lemma stream_event_served:
  "respond_with AgentStreamEvent (RDict ([(''event'', RStr (fst (item_of_event e))), (''content'', RStr (fst (snd (item_of_event e))))] @
     (case snd (snd (item_of_event e)) of None \<Rightarrow> [] | Some c \<Rightarrow> [(''error_code'', RStr c)]))) \<noteq> None"
  by (cases e) (simp_all add: respond_with_def AgentStreamEvent_def)

lemma stored_type:
  assumes "reach empty_actions (service_step lib) db" and "a \<in> set (actions db)"
  shows "pa_action_type a \<in> set PendingActionType_values"
  using typed.reach_inv [OF assms(1)] assms(2) by (auto simp: types_known_def list_all_iff)

lemma keyset_rows_subset: "set (keyset_rows key rows cur) \<subseteq> set rows"
  by (auto simp: keyset_rows_def split: option.splits)

lemma list_page_rows:
  assumes "list_pending_actions lib now db q limit page_token = Inr page"
  shows "\<exists>rows. fst page = map (summary_row now) rows \<and> set rows \<subseteq> set (actions db)"
proof -
  obtain cur where "fst page = map (summary_row now) (take limit (take (limit + 1) (keyset_rows action_key (owned_actions db q) cur)))"
    using assms by (auto simp: list_pending_actions_def Let_def split: option.splits)
  moreover have "set (owned_actions db q) \<subseteq> set (actions db)" by (auto simp: owned_actions_def)
  then have "set (take limit (take (limit + 1) (keyset_rows action_key (owned_actions db q) cur))) \<subseteq> set (actions db)"
    using keyset_rows_subset [of action_key "owned_actions db q" cur] by (meson set_take_subset subset_trans)
  ultimately show ?thesis by blast
qed

lemma list_answers_served:
  assumes "reach empty_actions (service_step lib) db"
    and "list_pending_actions_endpoint E creds status limit page_token now db = Inr page"
  shows "respond_with PendingActionPage (actions_page_reply page) \<noteq> None"
proof -
  obtain q where "list_pending_actions (al_page (rt_lib E)) now db q limit page_token = Inr page"
    using assms(2) by (auto simp: list_pending_actions_endpoint_def split: sum.splits if_splits service_error.splits)
  then obtain rows where "fst page = map (summary_row now) rows" "set rows \<subseteq> set (actions db)"
    using list_page_rows by blast
  then have "list_all (\<lambda>r. as_action_type r \<in> set PendingActionType_values) (fst page)"
    using stored_type [OF assms(1)] by (auto simp: list_all_iff summary_row_def)
  then show ?thesis by (simp add: actions_page_served)
qed

text \<open>
  C16. Reading an action discloses no attempt: in every state that the service reaches, the value that the
  route returns fits its response model, so the answer is not an internal error, and the answer consists
  of exactly the declared fields with the stored status; the command key, the attempt token and the start
  of the attempt, which the service returns with the action, are not among them.
\<close>

theorem action_answers_hide_attempts:
  assumes "reach empty_actions (service_step lib) db" and "get_pending_action_endpoint E creds i db = Inr v"
  shows "\<exists>out. respond_with PendingActionResponse (action_reply v) = Some out \<and>
    map fst out = [''id'', ''action_type'', ''payload'', ''payload_hash'', ''summary'', ''status'', ''result'', ''error_code'', ''created_at'',
      ''expires_at'', ''approved_at'', ''processed_at'', ''attempt_count'', ''lease_expires_at'', ''reconciliation_reason'',
      ''reconciliation_required_at''] \<and>
    {''command_key'', ''attempt_token'', ''attempt_started_at''} \<inter> set (map fst out) = {} \<and>
    map_of out ''status'' = Some (RStr (status_text (av_status v)))"
proof -
  obtain a where a: "a \<in> set (actions db)" "v = action_to_dict a"
    using assms(2) by (auto simp: get_pending_action_endpoint_def get_pending_action_def find_owned_def find_action_def map_sum_def
      dest!: tbl_get_Some split: sum.splits option.splits if_splits)
  then have ty: "av_action_type v \<in> set PendingActionType_values" using stored_type [OF assms(1) a(1)] by (simp add: action_to_dict_def)
  obtain out where out: "respond_with PendingActionResponse (action_reply v) = Some out" using action_served [OF ty] by auto
  have names: "map fst out = map fst PendingActionResponse" by (rule respond_with_names [OF out])
  have "map_of out ''status'' = Some (RStr (status_text (av_status v)))"
    using out ty status_value [of "av_status v"] by (auto simp: respond_with_def PendingActionResponse_def action_reply_def)
  then show ?thesis using out names by (auto simp: PendingActionResponse_def)
qed

theorem action_answers_hide_attempts_witness:
  "\<exists>v out. get_pending_action_endpoint demo_router (Some ''jwt'') 1 demo_db = Inr v \<and>
     respond_with PendingActionResponse (action_reply v) = Some out \<and> ''attempt_token'' \<notin> set (map fst out)"
proof -
  obtain p where "authenticated demo_router (Some ''jwt'') = Inr p" "pr_user_id p = 3"
    using demo_caller by (auto simp: authenticated_def)
  then have "get_pending_action_endpoint demo_router (Some ''jwt'') 1 demo_db = Inr (action_to_dict demo_row)"
    by (simp add: get_pending_action_endpoint_def get_pending_action_def find_owned_def find_action_def demo_db_rows)
  then show ?thesis using action_answers_hide_attempts [OF demo_db_reach] by fastforce
qed

end
