(* ===== verification/Spec2Isabelle.thy ===== *)
theory Spec2Isabelle
  imports Worker_Scenarios Triage_Results Push_Router Mail_Routes Router_Safety Google_Client Http_Service Llm_Stream Tool_Declarations
    Agent_Profile Log_Redaction Row_Migrations Response_Models
begin

text \<open>
  \<^bold>\<open>OneBox: verification of the mail assistant backend.\<close>

  OneBox is an asynchronous Python service around one Google account per user. An agent driven by a
  language model proposes actions (send a mail, reply, create an event or a task); a proposal is
  stored as a \<^emph>\<open>pending action\<close> and only an explicit approval executes it, once, against
  Google. Independently Gmail notifies the service of new mail through Pub/Sub; the notifications
  are stored as \<^emph>\<open>jobs\<close>, and a worker claims them under leases, lists the mailbox history,
  triages each new message with the agent in a mode without tools, and advances the mailbox cursor.
  Users connect their Google account through OAuth; the credentials are stored encrypted, pages of
  mail are cached in Redis, and the HTTP routes compose authentication, credentials and services.
  The development models these parts as functions on explicit tables and proves what makes them
  correct. Paths are relative to \<open>src/\<close>.

  \<^bold>\<open>Theories and what they model.\<close>
  \<^item> \<open>Onebox_Prelude\<close>: text as lists of Latin-1 characters, times as integer
    microseconds, JSON values, tables as lists of rows with key columns, reachability, and the
    contracts \<open>invariant_of\<close> and \<open>fenced_lease\<close> as locales.
  \<^item> \<open>Settings\<close>, \<open>Configuration\<close>: \<open>server/config.py\<close>, the numeric settings with
    their bounds, every validator of a text setting with the URL functions it uses, the checks
    between settings, and loading as a whole.
  \<^item> \<open>Action_Payloads\<close>: \<open>server/action_payloads.py\<close>, the four payload models
    and \<open>canonicalize_action_payload\<close>.
  \<^item> \<open>Google_Adapter\<close>, \<open>Google_Client\<close>: \<open>server/integrations/google.py\<close>, error
    translation and classification, one bounded operation, the retry loop; \<open>Retry-After\<close>, the
    deadlines of authentication requests, resource locks and the shared runner.
  \<^item> \<open>Provider_Runner\<close>: \<open>server/integrations/provider.py\<close>, the semaphore, the thread
    pool and the callers as a step relation over all their interleavings.
  \<^item> \<open>Llm_Stream\<close>: \<open>server/integrations/llm.py\<close>, the bridge between the thread that reads
    the stream of the language model and its consumer, again as a step relation.
  \<^item> \<open>Action_Handlers\<close>: \<open>server/services/action_handlers.py\<close> and
    \<open>tools/utils.py\<close>, executing and reconciling one command against an arbitrary
    provider whose history of calls is recorded.
  \<^item> \<open>Pagination\<close>: \<open>server/pagination.py\<close> with Python's base64, and the contract
    \<open>keyset_listing\<close> of a list service.
  \<^item> \<open>Pending_Actions\<close>, \<open>Action_Safety\<close>:
    \<open>server/services/pending_actions.py\<close>, one definition per transaction on the action and
    audit tables; the abstract specification \<open>spec_step\<close>, the refinement, and the properties
    of the service.
  \<^item> \<open>Notification_Jobs\<close>, \<open>Notification_Safety\<close>, \<open>Notification_Leases\<close>,
    \<open>Notification_Progress\<close>, \<open>Notification_Properties\<close>:
    \<open>server/services/notification_jobs.py\<close>, the job, mailbox and triage tables with their
    four leases; invariant, fencing, progress of rows, and the properties of the service.
  \<^item> \<open>Mime\<close>, \<open>Inbound\<close>: \<open>server/mail/mime.py\<close> and
    \<open>server/mail/inbound.py\<close>, bounded decoding, the walk over MIME parts, the HTML
    sanitiser, and the content that triage sees.
  \<^item> \<open>Agent_Tools\<close>, \<open>Tool_Declarations\<close>, \<open>Agent_Profile\<close>, \<open>Agents\<close>:
    \<open>server/agent_policy.py\<close>,
    \<open>server/agent_tools.py\<close>, \<open>tools/llm_tools.py\<close> and \<open>agents.py\<close>,
    policies, the tool registry with the declarations shown to the model, every tool, the profile, and
    the executive, general and streaming runs against an arbitrary language model.
  \<^item> \<open>Retention\<close>: \<open>server/services/retention.py\<close>, one cleanup pass over all
    tables.
  \<^item> \<open>Worker\<close>, \<open>Worker_Effects\<close>, \<open>Worker_Safety\<close>,
    \<open>Worker_Coverage\<close>, \<open>Worker_Scenarios\<close>:
    \<open>server/workers/mail_notifications.py\<close>, the worker as computations with state and
    exceptions over the tables, the agent and the requests to Gmail.
  \<^item> \<open>Mailbox\<close>, \<open>Triage_Results\<close>: \<open>server/services/mailbox.py\<close>,
    \<open>server/integrations/gmail.py\<close> and \<open>server/services/triage_results.py\<close>, the pages of
    messages and of triage results (the second instance of \<open>keyset_listing\<close>).
  \<^item> \<open>Redis_Store\<close>, \<open>Redis_Safety\<close>: \<open>server/integrations/redis.py\<close>,
    \<open>server/oauth_state.py\<close> and \<open>server/redis_cache.py\<close> over an arbitrary Redis, the
    one-time OAuth states and the generations of the mail cache, with a concrete store that meets the
    contract of the server.
  \<^item> \<open>Credential_Codec\<close>, \<open>Credentials\<close>, \<open>Credential_Safety\<close>:
    \<open>server/security/oauth_credentials.py\<close>, \<open>server/services/credentials.py\<close> and
    \<open>server/commands/backfill_oauth_credentials.py\<close>, the encryption bound to a row, the life
    cycle of a stored connection and the migration of old rows.
  \<^item> \<open>Identity\<close>, \<open>OAuth_Routes\<close>, \<open>Agent_Router\<close>, \<open>Router_Safety\<close>,
    \<open>Push_Router\<close>, \<open>Mail_Routes\<close>: \<open>server/auth.py\<close>,
    \<open>server/services/setup_google.py\<close> and the routes \<open>agent_oauth.py\<close>,
    \<open>agent_router.py\<close>, \<open>push_router.py\<close> and \<open>google_mail.py\<close> under
    \<open>server/routes/\<close>, every endpoint composed from its dependencies and services.
  \<^item> \<open>Http_Service\<close>: \<open>server/request_limits.py\<close>, \<open>server/main.py\<close>,
    \<open>server/services/readiness.py\<close> and \<open>server/routes/triage.py\<close>, the body limit, the
    error answers, correlation ids, probes, and the end of the lifespan and of the worker process.
  \<^item> \<open>Response_Models\<close>: \<open>server/schemas.py\<close>, the response models as field lists, the
    validation of what a route returns and the restriction of its answer to the declared fields.
  \<^item> \<open>Log_Redaction\<close>: \<open>server/logging_config.py\<close>, the rewriting of the arguments of log
    records.

  \<^item> \<open>Sql_Schema\<close>, \<open>Migrations\<close>, \<open>Schema_History\<close>, \<open>Stored_Rows\<close>,
    \<open>Row_Migrations\<close>: the revisions under \<open>alembic/versions/\<close>, \<open>alembic/env.py\<close> and
    \<open>server/models.py\<close>. \<open>Sql_Schema\<close> interprets the schema statements and the constraints of
    SQL (three-valued checks, keys with \<open>NULL\<close>); \<open>Migrations\<close> holds the eight revisions and the
    declared tables; \<open>Schema_History\<close> the schema after any run of migrations; \<open>Stored_Rows\<close> maps
    the records of the services to rows; \<open>Row_Migrations\<close> is what the revisions do to rows.

  \<^bold>\<open>State and effects.\<close> A transaction is a function on the tables it locks; row locks make
  it atomic. Where a function runs several transactions, what other sessions commit in between is a
  parameter, so the statements cover the interleavings. Clock readings, tokens and generated ids are
  parameters too. Exceptions are values of sum types; every raise and early return of the code is a
  branch. Third-party code (the Google client, the vendor client of the language model, the Redis
  server, JWT verification, AES-GCM, the HTML tokeniser and the link splitter it feeds,
  \<open>parseaddr\<close>, the zone database, JSON and UTF-8 decoding, sha256) is a record of functions, and what a statement needs of it is a named hypothesis with a
  concrete instance in the witness.

  \<^bold>\<open>What the theorems show.\<close>
  \<^item> Actions: the table invariant and the replayable audit trail; an action is handed out for
    execution at most once, executing it issues at most one command write (and, for a task, at most one
    creation of the task list before it), and success or failure is recorded only on evidence;
    creation is deduplicated by the command key and a key used for something else is a conflict; users are isolated; listing all
    pages yields every row once; reconciliation only reads; the expiry sweep equals one pass.
  \<^item> Notifications: the invariant of the three tables; every lease is ended at most once and
    stale claims change nothing; jobs are claimed exclusively and deliveries deduplicated; rows are
    never lost and final rows never change; the cursor moves back only when a recovery completes.
  \<^item> Agents: an automated run changes nothing whatever the model answers; an interactive run stays
    within the mutation budget of its policy and only stages pending actions of its own user, drafts
    and read marks, whatever other sessions commit meanwhile.
  \<^item> Mail: sanitised HTML consists of allowed tags, escaped text and checked links and is well
    nested; both loops over MIME parts are the bounded preorder traversal; triage content is bounded.
  \<^item> Worker: it refines the notification service, keeps all invariants, only reads mail while it
    processes jobs, ends the lease of every job it has processed, and marks a job succeeded only
    when every listed message has a final result, provided its leases are not taken over.
  \<^item> Payloads, tokens, adapter: canonical payloads whose addresses still fit their limit are fixed
    points of validation, page tokens
    decode to what was encoded, writes are never retried and retries are bounded; the runner never
    exceeds its workers and leaks no slot; a stream is delivered as a prefix in order and ends
    normally only when it is complete or its owner has closed it.
  \<^item> Connections: an OAuth state is redeemed at most once, a successful callback connects the
    Google account of the user who started it, a connected row always decrypts to a usable credential
    of its own row, rows never disappear, and the account of a row never changes.
  \<^item> Routes: approving calls a provider only for the owner and only once, reconciliation is for
    operators, an acknowledged notification is stored, and the push route changes the token table only in the
    row of the automation owner; cached pages, except for the page token \<open>first\<close>, equal fresh
    ones and are unreachable after an invalidation, users see their own triage results and all of them.
  \<^item> Service: an accepted configuration meets every hypothesis on settings that the other
    theories state and is hardened in staging and production (an accepted origin may still end in a
    bare question mark or number sign); the body limit is exact; the readiness
    probe and the health report agree.
  \<^item> Database: a database that the readiness probe accepts has the declared tables after any
    upgrades and downgrades, up to one check and eight server defaults that only the migrations
    create; upgrading never gets stuck, a downgrade restores the schema; the rows
    that the services write satisfy every key, unique constraint, check and \<open>NOT NULL\<close>; the migrations of existing rows succeed exactly
    under stated conditions, and actions in execution are not replayed by them.
  \<^item> Answers: what the routes return fits the response models, and an answer about an action never
    contains its command key or attempt token.

  \<^bold>\<open>Flaws the model exposes\<close>, each with a theorem or lemma: a recovery skips a message that
  arrives between its last listing and the reading of the profile; a lost triage lease goes
  unnoticed; a malformed link fails the extraction of a whole message; non-ASCII notification data
  escapes validation; a staged recipient can be refused when it is validated again; a failed
  generation read can serve a stale page; the page token \<open>first\<close> is answered from the cache of the
  first page; the migration quarantines connected rows; the handlers for a failing agent fail
  themselves; an origin with a trailing question mark is accepted; \<open>Retry-After\<close> is read from an
  attribute that responses of the Google client lack; a malformed zone key is not replaced by UTC; a
  stored token without a refresh token is migrated as connected.

  \<^bold>\<open>Bounds and fuel.\<close> All functions are total. The loops of the code that are bounded by a
  count (retries, history pages, agent turns) recurse on what is left of the count; the loops over
  MIME parts and the expiry sweep have termination proofs. \<open>run_notification_worker\<close> takes
  the number of iterations that are observed, because the loop of the code ends only at shutdown;
  its property holds for every number.

  \<^bold>\<open>Not modelled.\<close> Text outside Latin-1; the redaction of log messages without arguments
  by regular expressions; the wiring of middleware and the database engine; the wording of prompts; the
  conversions of pydantic between types; the length limits of text columns and the ranges of integer
  columns, which are recorded in the schemas but not checked on rows; the offline mode of the migrations; the command line client.
  Failures of the database itself are modelled where the code handles them (readiness); in
  the services a transaction either happens or the caller does not continue.

  \<^bold>\<open>Scope.\<close> The logic of every component of the service is modelled. What is left is glue without
  logic of its own or depends on machinery outside the repository: the order in which the framework
  runs the middleware, the wording of prompts, and the regular expression engine behind the redaction of
  free log text.
\<close>

end
